(* ===== verification/Prelude.thy ===== *)
theory Prelude
  imports Main "HOL-Library.Word" "HOL-Library.Monad_Syntax"
begin

text \<open>
  Shared vocabulary of the development: machine words, C return codes, memory buffers,
  byte order, allocation outcomes, and the generic lemmas the components use.

  Conventions.
  \<^item> A C function that returns an \<open>int\<close> status returns an \<open>int\<close> here, with the error
    numbers of Linux; results passed through pointers are further components of the
    returned tuple.
  \<^item> \<^term>\<open>None\<close> of an \<open>option\<close> that wraps a whole result means that the C program has
    undefined behaviour at that point (an access outside an object, a null dereference, a
    second \<open>free\<close>); see \<open>rd_byte\<close> and \<open>rd_bytes\<close>.
  \<^item> The outcome of every allocation is read from a schedule, a list of Booleans consumed
    from the left by \<open>malloc_ok\<close>; an exhausted schedule means success from then on.
    Every finite pattern of allocation failures is one such schedule.
\<close>

unbundle bit_operations_syntax

named_theorems errno_defs \<open>values of the error numbers\<close>
named_theorems buf_simps \<open>reading and writing memory buffers\<close>

type_synonym byte = "8 word"
type_synonym u16 = "16 word"
type_synonym u32 = "32 word"
type_synonym u64 = "64 word"
type_synonym schedule = "bool list"

subsection \<open>Error numbers\<close>

abbreviation (input) EPERM :: int where "EPERM \<equiv> 1"
abbreviation (input) ENOENT :: int where "ENOENT \<equiv> 2"
abbreviation (input) EIO :: int where "EIO \<equiv> 5"
abbreviation (input) ENOMEM :: int where "ENOMEM \<equiv> 12"
abbreviation (input) EACCES :: int where "EACCES \<equiv> 13"
abbreviation (input) EISDIR :: int where "EISDIR \<equiv> 21"
abbreviation (input) EINVAL :: int where "EINVAL \<equiv> 22"
abbreviation (input) EFBIG :: int where "EFBIG \<equiv> 27"
abbreviation (input) ENOKEY :: int where "ENOKEY \<equiv> 126"

subsection \<open>Allocation schedules\<close>

fun malloc_ok :: "schedule \<Rightarrow> bool \<times> schedule" where
  "malloc_ok [] = (True, [])"
| "malloc_ok (b # bs) = (b, bs)"

lemma malloc_ok_cases:
  obtains (ok) mem' where "malloc_ok mem = (True, mem')"
  | (fail) mem' where "malloc_ok mem = (False, mem')"
  by (cases "malloc_ok mem"; cases "fst (malloc_ok mem)") auto

subsection \<open>Buffers\<close>

definition rd_byte :: "byte list \<Rightarrow> nat \<Rightarrow> byte option" where
  "rd_byte buf i = (if i < length buf then Some (buf ! i) else None)"

definition rd_bytes :: "byte list \<Rightarrow> nat \<Rightarrow> nat \<Rightarrow> byte list option" where
  "rd_bytes buf i n = (if i + n \<le> length buf then Some (take n (drop i buf)) else None)"

definition wr_bytes :: "byte list \<Rightarrow> nat \<Rightarrow> byte list \<Rightarrow> byte list option" where
  "wr_bytes buf i bs =
     (if i + length bs \<le> length buf
      then Some (take i buf @ bs @ drop (i + length bs) buf) else None)"

lemma rd_byte_Some [buf_simps]: "i < length buf \<Longrightarrow> rd_byte buf i = Some (buf ! i)"
  by (simp add: rd_byte_def)

lemma rd_bytes_Some [buf_simps]:
  "i + n \<le> length buf \<Longrightarrow> rd_bytes buf i n = Some (take n (drop i buf))"
  by (simp add: rd_bytes_def)

lemma rd_bytes_length: "rd_bytes buf i n = Some bs \<Longrightarrow> length bs = n"
  by (auto simp: rd_bytes_def split: if_splits)

lemma rd_bytes_mid [simp]: "rd_bytes (xs @ ys @ zs) (length xs) (length ys) = Some ys"
  by (simp add: rd_bytes_def)

lemma rd_bytes_mid' [buf_simps]:
  "i = length xs \<Longrightarrow> n = length ys \<Longrightarrow> rd_bytes (xs @ ys @ zs) i n = Some ys"
  by simp

lemma rd_byte_append1 [buf_simps]: "i < length xs \<Longrightarrow> rd_byte (xs @ ys) i = rd_byte xs i"
  by (simp add: rd_byte_def nth_append)

lemma wr_bytes_length: "wr_bytes buf i bs = Some buf' \<Longrightarrow> length buf' = length buf"
  by (auto simp: wr_bytes_def split: if_splits)

lemma wr_bytes_Some [buf_simps]:
  "i + length bs \<le> length buf \<Longrightarrow>
   wr_bytes buf i bs = Some (take i buf @ bs @ drop (i + length bs) buf)"
  by (simp add: wr_bytes_def)

subsection \<open>Big-endian numbers\<close>

fun be_bytes :: "nat \<Rightarrow> nat \<Rightarrow> byte list" where
  "be_bytes 0 x = []"
| "be_bytes (Suc n) x = be_bytes n (x div 256) @ [word_of_nat x]"

fun be_nat_acc :: "nat \<Rightarrow> byte list \<Rightarrow> nat" where
  "be_nat_acc a [] = a"
| "be_nat_acc a (b # bs) = be_nat_acc (a * 256 + unat b) bs"

definition be_nat :: "byte list \<Rightarrow> nat" where
  "be_nat bs = be_nat_acc 0 bs"

lemma length_be_bytes [simp]: "length (be_bytes n x) = n"
  by (induction n arbitrary: x) auto

lemma be_nat_acc_snoc: "be_nat_acc a (bs @ [b]) = be_nat_acc a bs * 256 + unat b"
  by (induction a bs rule: be_nat_acc.induct) auto

lemma be_nat_snoc [simp]: "be_nat (bs @ [b]) = be_nat bs * 256 + unat b"
  by (simp add: be_nat_def be_nat_acc_snoc)

lemma be_nat_Nil [simp]: "be_nat [] = 0"
  by (simp add: be_nat_def)

lemma unat_less_width: "unat (w :: 'a::len word) < 2 ^ LENGTH('a)"
  by (rule unsigned_less)

lemma unat_byte_less [simp]: "unat (b :: byte) < 256"
  using unat_less_width [of b] by simp

lemma unat_byte_of_nat: "unat (word_of_nat x :: byte) = x mod 256"
  by (simp add: unat_of_nat)

lemma be_nat_be_bytes: "be_nat (be_bytes n x) = x mod 256 ^ n"
proof (induction n arbitrary: x)
  case (Suc n)
  have "(x div 256) mod 256 ^ n * 256 + x mod 256 = x mod (256 * 256 ^ n)"
    by (simp add: mod_mult2_eq mult.commute)
  with Suc show ?case by (simp add: unat_byte_of_nat)
qed simp

lemma be_bytes_be_nat: "length bs = n \<Longrightarrow> be_bytes n (be_nat bs) = bs"
proof (induction n arbitrary: bs)
  case (Suc n)
  then obtain xs x where bs: "bs = xs @ [x]" and len: "length xs = n"
    by (metis append_butlast_last_id diff_Suc_1 length_butlast length_0_conv nat.distinct(1))
  have "(be_nat xs * 256 + unat x) div 256 = be_nat xs"
    by simp
  moreover have "word_of_nat (be_nat xs * 256 + unat x) = x"
  proof -
    have "(word_of_nat (be_nat xs * 256 + unat x) :: byte) = word_of_nat (be_nat xs) * 256 + x"
      by simp
    also have "(256 :: byte) = 0" by simp
    finally show ?thesis by simp
  qed
  ultimately show ?case using Suc.IH [OF len] bs by simp
qed simp

lemma be_nat_less: "be_nat bs < 256 ^ length bs"
proof (induction bs rule: rev_induct)
  case (snoc b bs)
  from snoc have "be_nat bs * 256 + 256 \<le> 256 ^ length bs * 256"
    by (metis Suc_leI add.commute mult.commute mult_Suc_right mult_le_mono2)
  with unat_byte_less [of b] show ?case by (simp add: mult.commute del: unat_byte_less)
qed simp

lemma be_nat_word:
  "256 ^ n \<le> (2::nat) ^ LENGTH('a::len) \<Longrightarrow> length bs = n \<Longrightarrow>
   unat (word_of_nat (be_nat bs) :: 'a word) = be_nat bs"
  using be_nat_less [of bs] by (simp add: unat_of_nat)

subsection \<open>Host byte order\<close>

text \<open>
  An object of \<open>n\<close> bytes holding an unsigned integer, as the host lays it out in memory,
  and the conversion of \<open>ntohl\<close>, \<open>htonl\<close>, \<open>ntohs\<close>.
\<close>

datatype host = Little_Endian | Big_Endian

definition host_order :: "host \<Rightarrow> 'a list \<Rightarrow> 'a list" where
  "host_order h bs = (case h of Little_Endian \<Rightarrow> rev bs | Big_Endian \<Rightarrow> bs)"

definition store_word :: "host \<Rightarrow> nat \<Rightarrow> 'a::len word \<Rightarrow> byte list" where
  "store_word h n w = host_order h (be_bytes n (unat w))"

definition load_word :: "host \<Rightarrow> byte list \<Rightarrow> 'a::len word" where
  "load_word h bs = word_of_nat (be_nat (host_order h bs))"

definition swab :: "nat \<Rightarrow> 'a::len word \<Rightarrow> 'a word" where
  "swab n w = word_of_nat (be_nat (rev (be_bytes n (unat w))))"

definition ntoh :: "host \<Rightarrow> nat \<Rightarrow> 'a::len word \<Rightarrow> 'a word" where
  "ntoh h n w = (case h of Little_Endian \<Rightarrow> swab n w | Big_Endian \<Rightarrow> w)"

lemma length_host_order [simp]: "length (host_order h bs) = length bs"
  by (simp add: host_order_def split: host.split)

lemma host_order_twice [simp]: "host_order h (host_order h bs) = bs"
  by (simp add: host_order_def split: host.split)

lemma length_store_word [simp]: "length (store_word h n w) = n"
  by (simp add: store_word_def)

lemma unat_mod_width:
  "256 ^ n = (2::nat) ^ LENGTH('a::len) \<Longrightarrow> unat (w :: 'a word) mod 256 ^ n = unat w"
  using unat_less_width [of w] by simp

lemma load_store_word:
  assumes "256 ^ n = (2::nat) ^ LENGTH('a::len)"
  shows "load_word h (store_word h n w) = (w :: 'a word)"
  using unat_mod_width [OF assms, of w] by (simp add: load_word_def store_word_def be_nat_be_bytes)

text \<open>Reading a network-order field gives the same value on either kind of host.\<close>

lemma ntoh_load_word:
  assumes "256 ^ n = (2::nat) ^ LENGTH('a::len)" and "length bs = n"
  shows "ntoh h n (load_word h bs :: 'a word) = word_of_nat (be_nat bs)"
proof (cases h)
  case Little_Endian
  have "unat (word_of_nat (be_nat (rev bs)) :: 'a word) = be_nat (rev bs)"
    using assms by (intro be_nat_word) auto
  moreover have "be_bytes n (be_nat (rev bs)) = rev bs"
    using assms(2) by (intro be_bytes_be_nat) simp
  ultimately show ?thesis
    by (simp add: Little_Endian ntoh_def load_word_def swab_def host_order_def)
qed (simp add: ntoh_def load_word_def host_order_def)

text \<open>Writing with \<open>htonl\<close> and then copying the object gives network order.\<close>

lemma store_word_hton:
  assumes "256 ^ n = (2::nat) ^ LENGTH('a::len)"
  shows "store_word h n (ntoh h n (w :: 'a word)) = be_bytes n (unat w)"
proof (cases h)
  case Little_Endian
  have "unat (word_of_nat (be_nat (rev (be_bytes n (unat w)))) :: 'a word)
      = be_nat (rev (be_bytes n (unat w)))"
    using assms by (intro be_nat_word) auto
  then show ?thesis
    by (simp add: Little_Endian store_word_def ntoh_def swab_def host_order_def be_bytes_be_nat)
qed (simp add: store_word_def ntoh_def host_order_def)

subsection \<open>C strings\<close>

text \<open>
  A C string is the list of its bytes without the terminating zero byte. \<open>c_string\<close> reads
  the string that starts a buffer; a buffer without a zero byte is overrun.
\<close>

fun c_string :: "byte list \<Rightarrow> byte list option" where
  "c_string [] = None"
| "c_string (b # bs) = (if b = 0 then Some [] else map_option (Cons b) (c_string bs))"

definition bytes_of_string :: "string \<Rightarrow> byte list" where
  "bytes_of_string s = map of_char s"

lemma length_bytes_of_string [simp]: "length (bytes_of_string s) = length s"
  by (simp add: bytes_of_string_def)

definition string_of_bytes :: "byte list \<Rightarrow> string" where
  "string_of_bytes bs = map (\<lambda>b. char_of (unat b)) bs"

lemma of_char_word: "(of_char c :: byte) = of_nat (of_char c)"
  by (cases c) (simp add: of_char_def)

lemma unat_of_char [simp]: "unat (of_char c :: byte) = of_char c"
  unfolding of_char_word using nat_of_char_less_256 [of c] by (simp add: unat_of_nat take_bit_eq_mod)

lemma char_byte_char [simp]: "of_char (char_of (unat b)) = (b :: byte)"
proof -
  have "unat b < 256" using unsigned_less [of b, where ?'a = nat] by simp
  then show ?thesis by (simp add: of_char_word)
qed

lemma string_of_bytes_of_string [simp]: "string_of_bytes (bytes_of_string s) = s"
  by (induction s) (simp_all add: string_of_bytes_def bytes_of_string_def)

lemma bytes_of_string_of_bytes [simp]: "bytes_of_string (string_of_bytes bs) = bs"
  by (induction bs) (simp_all add: string_of_bytes_def bytes_of_string_def)

lemma bytes_of_string_inject [simp]: "bytes_of_string s = bytes_of_string t \<longleftrightarrow> s = t"
  by (metis string_of_bytes_of_string)

lemma c_string_append: "0 \<notin> set s \<Longrightarrow> c_string (s @ 0 # r) = Some s"
  by (induction s) auto

subsection \<open>Heap pointers\<close>

text \<open>
  A pointer to a block of bytes: null, pointing to a live block with its content, or
  dangling after the block was freed. Uninitialised memory of a fresh block is given by a
  parameter \<open>junk\<close>.
\<close>

datatype heap_ptr = Null | Live "byte list" | Dangling

fun free_ptr :: "heap_ptr \<Rightarrow> unit option" where
  "free_ptr Null = Some ()"
| "free_ptr (Live bs) = Some ()"
| "free_ptr Dangling = None"

definition fresh :: "(nat \<Rightarrow> byte) \<Rightarrow> nat \<Rightarrow> byte list" where
  "fresh junk n = map junk [0..<n]"

lemma length_fresh [simp]: "length (fresh junk n) = n"
  by (simp add: fresh_def)

subsection \<open>Process exit\<close>

text \<open>A call that ends the process instead of returning.\<close>

datatype 'a proc = Returned 'a | Process_Exit int

end
