(* ===== verification/Packet_Length.thy ===== *)
theory Packet_Length
  imports Prelude
begin

text \<open>
  The variable-length packet sizes of \<open>src/libecryptfs/messaging.c\<close>
  (\<open>ecryptfs_write_packet_length\<close>, \<open>ecryptfs_parse_packet_length\<close>), and the contract that
  the message framing and the key packets rely on (locale \<open>length_codec\<close>).
\<close>

text \<open>
  \<open>ecryptfs_write_packet_length\<close>: the bytes stored at \<open>dest\<close>; \<open>*packet_size_length\<close> is
  their number. The assignments to \<open>char\<close> keep the low eight bits.
\<close>

definition ecryptfs_write_packet_length :: "nat \<Rightarrow> int + byte list" where
  "ecryptfs_write_packet_length sz =
     (if sz < 192 then Inr [word_of_nat sz]
      else if sz < 65536
      then Inr [word_of_nat ((sz - 192) div 256 + 192), word_of_nat ((sz - 192) mod 256)]
      else Inl (- EINVAL))"

text \<open>
  \<open>ecryptfs_parse_packet_length\<close>: the status, \<open>*size\<close> and \<open>*length_size\<close>.
\<close>

definition ecryptfs_parse_packet_length :: "byte list \<Rightarrow> (int \<times> nat \<times> nat) option" where
  "ecryptfs_parse_packet_length data = do {
     b0 \<leftarrow> rd_byte data 0;
     (if b0 < 192 then Some (0, unat b0, 1)
      else if b0 < 224 then do {
        b1 \<leftarrow> rd_byte data 1;
        Some (0, (unat b0 - 192) * 256 + (unat b1 + 192), 2) }
      else if b0 = 255 then Some (- EINVAL, 0, 0)
      else Some (- EINVAL, 0, 0)) }"

lemma unat_less_byte_iff: "b < word_of_nat n \<longleftrightarrow> unat (b :: byte) < n" if "n < 256"
  using that by (simp add: word_less_nat_alt unat_byte_of_nat)

lemma byte_less_192 [simp]: "(b :: byte) < 192 \<longleftrightarrow> unat b < 192"
  using unat_less_byte_iff [of 192 b] by simp

lemma byte_less_224 [simp]: "(b :: byte) < 224 \<longleftrightarrow> unat b < 224"
  using unat_less_byte_iff [of 224 b] by simp

lemma write_packet_length_short:
  "n < 192 \<Longrightarrow> ecryptfs_write_packet_length n = Inr [word_of_nat n]"
  by (simp add: ecryptfs_write_packet_length_def)

lemma write_packet_length_long:
  "192 \<le> n \<Longrightarrow> n < 65536 \<Longrightarrow> ecryptfs_write_packet_length n =
     Inr [word_of_nat ((n - 192) div 256 + 192), word_of_nat ((n - 192) mod 256)]"
  by (simp add: ecryptfs_write_packet_length_def)

lemma parse_packet_length_Cons:
  "ecryptfs_parse_packet_length (b # bs) =
     (if unat b < 192 then Some (0, unat b, 1)
      else if unat b < 224
      then (case bs of [] \<Rightarrow> None
            | c # _ \<Rightarrow> Some (0, (unat b - 192) * 256 + (unat c + 192), 2))
      else Some (- EINVAL, 0, 0))"
  by (auto simp: ecryptfs_parse_packet_length_def rd_byte_def split: list.split)

text \<open>Whatever is parsed as a size lies below \<open>8384\<close> and uses one or two bytes.\<close>

lemma two_byte_size_less:
  "unat (b :: byte) < 224 \<Longrightarrow> (unat b - 192) * 256 + (unat (c :: byte) + 192) < 8384"
  using unat_byte_less [of c] by (simp del: unat_byte_less)

lemma parse_packet_length_bounds:
  assumes "ecryptfs_parse_packet_length data = Some (0, n, k)"
  shows "n < 8384 \<and> (k = 1 \<and> n < 192 \<or> k = 2 \<and> 192 \<le> n) \<and> k \<le> length data"
proof -
  obtain b bs where data: "data = b # bs"
    using assms by (cases data) (auto simp: ecryptfs_parse_packet_length_def rd_byte_def)
  show ?thesis
  proof (cases "unat b < 192")
    case True
    with assms data show ?thesis by (simp add: parse_packet_length_Cons)
  next
    case False
    with assms data have b: "unat b < 224"
      by (auto simp: parse_packet_length_Cons split: if_splits)
    then obtain c cs where "bs = c # cs"
      using assms data False by (cases bs) (auto simp: parse_packet_length_Cons)
    with assms data False b two_byte_size_less [OF b, of c] show ?thesis
      by (simp add: parse_packet_length_Cons)
  qed
qed

subsection \<open>The contract of the size encoding\<close>

locale length_codec =
  fixes enc :: "nat \<Rightarrow> int + byte list"
    and dec :: "byte list \<Rightarrow> (int \<times> nat \<times> nat) option"
    and limit :: nat
  assumes enc_dec: "n < limit \<Longrightarrow>
      \<exists>bs. enc n = Inr bs \<and> dec (bs @ rest) = Some (0, n, length bs)"
    and dec_bound: "dec data = Some (0, n, k) \<Longrightarrow> k \<le> length data"
begin

lemma enc_det:
  assumes "n < limit" and "enc n = Inr bs"
  shows "dec (bs @ rest) = Some (0, n, length bs)"
  using enc_dec [OF assms(1), of rest] assms(2) by auto

lemma enc_total: "n < limit \<Longrightarrow> \<exists>bs. enc n = Inr bs"
  using enc_dec by blast

text \<open>A field written as its size and its bytes is read back from any position.\<close>

lemma dec_field:
  assumes "length body < limit" and "enc (length body) = Inr bs"
  shows "dec (drop (length pre) (pre @ bs @ body @ rest)) = Some (0, length body, length bs)"
    and "rd_bytes (pre @ bs @ body @ rest) (length pre + length bs) (length body) = Some body"
proof -
  show "dec (drop (length pre) (pre @ bs @ body @ rest)) = Some (0, length body, length bs)"
    using enc_det [OF assms] by simp
  show "rd_bytes (pre @ bs @ body @ rest) (length pre + length bs) (length body) = Some body"
    using rd_bytes_mid [of "pre @ bs" body rest] by simp
qed

end

lemma write_parse_packet_length:
  assumes "n < 8384"
  shows "\<exists>bs. ecryptfs_write_packet_length n = Inr bs
      \<and> ecryptfs_parse_packet_length (bs @ rest) = Some (0, n, length bs)"
proof (cases "n < 192")
  case True
  then show ?thesis
    by (simp add: write_packet_length_short parse_packet_length_Cons unat_byte_of_nat)
next
  case False
  then have n: "192 \<le> n" by simp
  define q where "q = (n - 192) div 256"
  have q: "q < 32" using assms by (auto simp: q_def)
  have "unat (word_of_nat (q + 192) :: byte) = q + 192"
    using q by (simp add: unat_byte_of_nat del: of_nat_add)
  moreover have "unat (word_of_nat ((n - 192) mod 256) :: byte) = (n - 192) mod 256"
    by (simp add: unat_byte_of_nat)
  moreover have "q * 256 + ((n - 192) mod 256 + 192) = n"
    using n div_mult_mod_eq [of "n - 192" 256] by (simp add: q_def)
  ultimately show ?thesis
    using n q assms
    by (simp add: write_packet_length_long parse_packet_length_Cons q_def [symmetric] del: of_nat_add)
qed

interpretation packet_length: length_codec
  ecryptfs_write_packet_length ecryptfs_parse_packet_length 8384
proof unfold_locales
  show "\<exists>bs. ecryptfs_write_packet_length n = Inr bs
      \<and> ecryptfs_parse_packet_length (bs @ rest) = Some (0, n, length bs)" if "n < 8384" for n rest
    using that by (rule write_parse_packet_length)
qed (use parse_packet_length_bounds in blast)

subsection \<open>Properties\<close>

text \<open>
  Every size below 8384 that \<open>ecryptfs_write_packet_length\<close> writes is read back by
  \<open>ecryptfs_parse_packet_length\<close>, whatever follows it in the buffer, together with the
  number of bytes it occupies.
\<close>

theorem packet_length_roundtrip:
  assumes "n < 8384"
  shows "\<exists>bs. ecryptfs_write_packet_length n = Inr bs
      \<and> ecryptfs_parse_packet_length (bs @ rest) = Some (0, n, length bs)"
  using assms by (rule packet_length.enc_dec)

theorem packet_length_roundtrip_witness:
  "(1000::nat) < 8384
   \<and> (\<exists>bs. ecryptfs_write_packet_length 1000 = Inr bs
        \<and> ecryptfs_parse_packet_length (bs @ [7, 7]) = Some (0, 1000, length bs))"
  using packet_length_roundtrip [of 1000 "[7, 7]"] by simp

text \<open>
  The writer accepts sizes that its own format cannot express: for every size from 8384
  up to 65535 it reports success, yet no continuation of the bytes it wrote is parsed as
  that size (the first byte is either out of the parser's range or has wrapped around to a
  one-byte size).
\<close>

theorem write_packet_length_unreadable:
  assumes "8384 \<le> n" and "n < 65536"
  shows "\<exists>bs. ecryptfs_write_packet_length n = Inr bs
      \<and> (\<nexists>rest k. ecryptfs_parse_packet_length (bs @ rest) = Some (0, n, k))"
proof -
  have "\<exists>bs. ecryptfs_write_packet_length n = Inr bs"
    using assms by (simp add: write_packet_length_long)
  moreover have "m < 8384" if "ecryptfs_parse_packet_length data = Some (0, m, k)" for data m k
    using parse_packet_length_bounds [OF that] by simp
  ultimately show ?thesis using assms(1) by fastforce
qed

theorem write_packet_length_unreadable_witness:
  "\<exists>bs. ecryptfs_write_packet_length 20000 = Inr bs
      \<and> (\<nexists>rest k. ecryptfs_parse_packet_length (bs @ rest) = Some (0, 20000, k))"
  using write_packet_length_unreadable [of 20000] by simp

end
