(* ===== verification/Key_Mod.thy ===== *)
theory Key_Mod
  imports Prelude "HOL-Library.Sublist"
begin

text \<open>
  Key modules, from \<open>src/libecryptfs/key_mod.c\<close> and the built-in passphrase module's
  operation table in \<open>src/key_mod/ecryptfs_key_mod_passphrase.c\<close>: the table of
  operations with its possibly missing entries, the substitution of the dummy operations,
  the registration of the modules found on disk and built in, and the lookup by alias.

  The shared objects themselves are not part of the library: what \<open>dlopen\<close> and the module's
  \<open>get_key_mod_ops\<close> yield is a parameter (type \<open>lib\<close>).
\<close>

subsection \<open>Operation tables\<close>

record key_mod_param =
  p_option :: string
  p_flags :: u32
  p_description :: "string option"
  p_suggested_val :: "string option"
  p_default_val :: "string option"

text \<open>
  A function pointer of the table is an optional function. The functions take the values
  their C counterparts read and return the status and what they write: \<open>encrypt\<close> and
  \<open>decrypt\<close>, for example, get the output buffer (\<^term>\<open>None\<close> for a null pointer), the value
  of \<open>*to_size\<close>, the input, the blob and the blob type, and return the status, the new
  \<open>*to_size\<close> and the new content of the buffer.
\<close>

type_synonym crypt_op =
  "byte list option \<Rightarrow> nat \<Rightarrow> byte list \<Rightarrow> byte list \<Rightarrow> int \<Rightarrow> int \<times> nat \<times> byte list"

record 'tn ecryptfs_key_mod_ops =
  op_init :: "(schedule \<Rightarrow> int \<times> string option \<times> schedule) option"
  op_get_gen_key_params :: "(unit \<Rightarrow> int \<times> key_mod_param list) option"
  op_get_gen_key_subgraph_trans_node :: "(u32 \<Rightarrow> int \<times> 'tn option) option"
  op_get_params :: "(unit \<Rightarrow> int \<times> key_mod_param list) option"
  op_get_param_subgraph_trans_node :: "(u32 \<Rightarrow> int \<times> 'tn option) option"
  op_get_blob :: "(byte list option \<Rightarrow> string option list \<Rightarrow> int \<times> nat \<times> byte list) option"
  op_get_key_data :: "(byte list option \<Rightarrow> byte list \<Rightarrow> int \<times> nat \<times> byte list) option"
  op_get_key_sig :: "(byte list \<Rightarrow> int \<times> byte list) option"
  op_get_key_hint :: "(byte list \<Rightarrow> int \<times> nat) option"
  op_encrypt :: "crypt_op option"
  op_decrypt :: "crypt_op option"
  op_destroy :: "(byte list \<Rightarrow> int) option"
  op_finalize :: "(unit \<Rightarrow> int) option"

subsection \<open>The dummy operations\<close>

definition ecryptfs_dummy_init :: "schedule \<Rightarrow> int \<times> string option \<times> schedule" where
  "ecryptfs_dummy_init mem = (0, None, mem)"

definition ecryptfs_dummy_get_gen_key_params :: "unit \<Rightarrow> int \<times> key_mod_param list" where
  "ecryptfs_dummy_get_gen_key_params u = (0, [])"

definition ecryptfs_dummy_get_gen_key_subgraph_trans_node :: "u32 \<Rightarrow> int \<times> 'tn option" where
  "ecryptfs_dummy_get_gen_key_subgraph_trans_node version = (0, None)"

definition ecryptfs_dummy_get_params :: "unit \<Rightarrow> int \<times> key_mod_param list" where
  "ecryptfs_dummy_get_params u = (0, [])"

definition ecryptfs_dummy_get_param_subgraph_trans_node :: "u32 \<Rightarrow> int \<times> 'tn option" where
  "ecryptfs_dummy_get_param_subgraph_trans_node version = (0, None)"

definition ecryptfs_dummy_get_blob ::
  "byte list option \<Rightarrow> string option list \<Rightarrow> int \<times> nat \<times> byte list" where
  "ecryptfs_dummy_get_blob blob vals = (0, 0, case blob of None \<Rightarrow> [] | Some b \<Rightarrow> b)"

definition ecryptfs_dummy_get_key_data ::
  "byte list option \<Rightarrow> byte list \<Rightarrow> int \<times> nat \<times> byte list" where
  "ecryptfs_dummy_get_key_data key_data blob =
     (0, 0, case key_data of None \<Rightarrow> [] | Some b \<Rightarrow> b)"

text \<open>The signature the dummy leaves is the empty C string.\<close>

definition ecryptfs_dummy_get_key_sig :: "byte list \<Rightarrow> int \<times> byte list" where
  "ecryptfs_dummy_get_key_sig blob = (0, [0])"

definition ecryptfs_dummy_get_key_hint :: "byte list \<Rightarrow> int \<times> nat" where
  "ecryptfs_dummy_get_key_hint blob = (0, 0)"

definition ecryptfs_dummy_encrypt :: crypt_op where
  "ecryptfs_dummy_encrypt to_buf to_size from_buf blob blob_type =
     (0, 0, case to_buf of None \<Rightarrow> [] | Some b \<Rightarrow> b)"

definition ecryptfs_dummy_decrypt :: crypt_op where
  "ecryptfs_dummy_decrypt to_buf to_size from_buf blob blob_type =
     (0, 0, case to_buf of None \<Rightarrow> [] | Some b \<Rightarrow> b)"

definition ecryptfs_dummy_destroy :: "byte list \<Rightarrow> int" where
  "ecryptfs_dummy_destroy blob = 0"

definition ecryptfs_dummy_finalize :: "unit \<Rightarrow> int" where
  "ecryptfs_dummy_finalize u = 0"

fun or_dummy :: "'f option \<Rightarrow> 'f \<Rightarrow> 'f option" where
  "or_dummy None d = Some d"
| "or_dummy (Some f) d = Some f"

definition ecryptfs_fill_in_dummy_ops ::
  "'tn ecryptfs_key_mod_ops \<Rightarrow> 'tn ecryptfs_key_mod_ops" where
  "ecryptfs_fill_in_dummy_ops ops = \<lparr>
     op_init = or_dummy (op_init ops) ecryptfs_dummy_init,
     op_get_gen_key_params =
       or_dummy (op_get_gen_key_params ops) ecryptfs_dummy_get_gen_key_params,
     op_get_gen_key_subgraph_trans_node =
       or_dummy (op_get_gen_key_subgraph_trans_node ops)
         ecryptfs_dummy_get_gen_key_subgraph_trans_node,
     op_get_params = or_dummy (op_get_params ops) ecryptfs_dummy_get_params,
     op_get_param_subgraph_trans_node =
       or_dummy (op_get_param_subgraph_trans_node ops)
         ecryptfs_dummy_get_param_subgraph_trans_node,
     op_get_blob = or_dummy (op_get_blob ops) ecryptfs_dummy_get_blob,
     op_get_key_data = or_dummy (op_get_key_data ops) ecryptfs_dummy_get_key_data,
     op_get_key_sig = or_dummy (op_get_key_sig ops) ecryptfs_dummy_get_key_sig,
     op_get_key_hint = or_dummy (op_get_key_hint ops) ecryptfs_dummy_get_key_hint,
     op_encrypt = or_dummy (op_encrypt ops) ecryptfs_dummy_encrypt,
     op_decrypt = or_dummy (op_decrypt ops) ecryptfs_dummy_decrypt,
     op_destroy = or_dummy (op_destroy ops) ecryptfs_dummy_destroy,
     op_finalize = or_dummy (op_finalize ops) ecryptfs_dummy_finalize\<rparr>"

subsection \<open>The registry\<close>

record 'tn ecryptfs_key_mod =
  km_alias :: "string option"
  km_lib_path :: "string option"
  km_ops :: "'tn ecryptfs_key_mod_ops"
  km_param_vals :: "string option list"
  km_blob :: "byte list option"

definition new_key_mod ::
  "string option \<Rightarrow> string option \<Rightarrow> 'tn ecryptfs_key_mod_ops \<Rightarrow> 'tn ecryptfs_key_mod" where
  "new_key_mod al path ops =
     \<lparr>km_alias = al, km_lib_path = path, km_ops = ops, km_param_vals = [], km_blob = None\<rparr>"

text \<open>
  What loading a file gives: no handle, a handle without the symbol \<open>get_key_mod_ops\<close>, or a
  handle whose \<open>get_key_mod_ops\<close> returns a table or a null pointer.
\<close>

datatype 'tn lib = No_Handle | No_Symbol | Ops "'tn ecryptfs_key_mod_ops option"

definition ends_with_so :: "string \<Rightarrow> bool" where
  "ends_with_so d_name \<longleftrightarrow>
     \<not> (length d_name < 3 \<or> drop (length d_name - 3) d_name \<noteq> ''.so'')"

text \<open>
  One iteration of the directory loop: an error that leaves the loop, or the module to
  append, if any.
\<close>

definition load_key_mod ::
  "string \<Rightarrow> (string \<Rightarrow> 'tn lib) \<Rightarrow> schedule \<Rightarrow> string
   \<Rightarrow> (int + 'tn ecryptfs_key_mod option) \<times> schedule" where
  "load_key_mod dir dlopen mem d_name =
     (if \<not> ends_with_so d_name then (Inr None, mem)
      else case malloc_ok mem of
        (False, mem) \<Rightarrow> (Inl (- ENOMEM), mem)
      | (True, mem) \<Rightarrow>
          let path = dir @ ''/'' @ d_name in
          (case dlopen path of
             No_Handle \<Rightarrow> (Inr None, mem)
           | No_Symbol \<Rightarrow> (Inr None, mem)
           | Ops ops \<Rightarrow>
               (case malloc_ok mem of
                  (False, mem) \<Rightarrow> (Inl (- ENOMEM), mem)
                | (True, mem) \<Rightarrow>
                    (case ops of
                       None \<Rightarrow> (Inr None, mem)
                     | Some ops \<Rightarrow>
                         let ops = ecryptfs_fill_in_dummy_ops ops in
                         (case the (op_init ops) mem of
                            (rc, al, mem) \<Rightarrow>
                              if rc \<noteq> 0 then (Inr None, mem)
                              else (Inr (Some (new_key_mod al (Some path) ops)), mem))))))"

text \<open>
  The list a context holds is the old one until the first module is appended, since
  \<open>curr_key_mod\<close> starts at the list head; \<open>added\<close> is what has been appended.
\<close>

definition current_mods ::
  "'tn ecryptfs_key_mod list \<Rightarrow> 'tn ecryptfs_key_mod list \<Rightarrow> 'tn ecryptfs_key_mod list" where
  "current_mods old added = (if added = [] then old else added)"

fun load_dir ::
  "string \<Rightarrow> (string \<Rightarrow> 'tn lib) \<Rightarrow> schedule \<Rightarrow> 'tn ecryptfs_key_mod list \<Rightarrow> string list
   \<Rightarrow> int \<times> 'tn ecryptfs_key_mod list \<times> schedule" where
  "load_dir dir dlopen mem added [] = (0, added, mem)"
| "load_dir dir dlopen mem added (e # es) =
     (case load_key_mod dir dlopen mem e of
        (Inl rc, mem) \<Rightarrow> (rc, added, mem)
      | (Inr None, mem) \<Rightarrow> load_dir dir dlopen mem added es
      | (Inr (Some km), mem) \<Rightarrow> load_dir dir dlopen mem (added @ [km]) es)"

text \<open>\<open>strcmp\<close> of two aliases; a null pointer is undefined behaviour.\<close>

fun alias_known :: "string option \<Rightarrow> 'tn ecryptfs_key_mod list \<Rightarrow> bool option" where
  "alias_known al [] = Some False"
| "alias_known al (m # ms) = do {
     a \<leftarrow> km_alias m;
     b \<leftarrow> al;
     if a = b then Some True else alias_known al ms }"

fun load_builtins ::
  "'tn ecryptfs_key_mod list \<Rightarrow> schedule \<Rightarrow> 'tn ecryptfs_key_mod list
   \<Rightarrow> 'tn ecryptfs_key_mod_ops option list
   \<Rightarrow> (int \<times> 'tn ecryptfs_key_mod list \<times> schedule) option" where
  "load_builtins old mem added [] = Some (0, added, mem)"
| "load_builtins old mem added (w # ws) =
     (case malloc_ok mem of
        (False, mem) \<Rightarrow> Some (- ENOMEM, added, mem)
      | (True, mem) \<Rightarrow>
          (case w of
             None \<Rightarrow> load_builtins old mem added ws
           | Some ops \<Rightarrow> do {
               init \<leftarrow> op_init ops;
               (case init mem of
                  (rc, al, mem) \<Rightarrow>
                    if rc \<noteq> 0 then load_builtins old mem added ws
                    else do {
                      known \<leftarrow> alias_known al (current_mods old added);
                      if known then load_builtins old mem added ws
                      else load_builtins old mem
                             (added @ [new_key_mod al None ops]) ws }) }))"

text \<open>
  \<open>ecryptfs_register_key_modules\<close>: \<open>dir_entries\<close> is what \<open>opendir\<close> and \<open>readdir\<close> give
  (\<^term>\<open>None\<close> when the directory cannot be opened), \<open>builtins\<close> the results of
  \<open>builtin_get_key_mod_ops[]\<close> up to its null entry.
\<close>

definition ecryptfs_register_key_modules ::
  "string \<Rightarrow> string list option \<Rightarrow> (string \<Rightarrow> 'tn lib) \<Rightarrow> 'tn ecryptfs_key_mod_ops option list
   \<Rightarrow> schedule \<Rightarrow> 'tn ecryptfs_key_mod list
   \<Rightarrow> (int \<times> 'tn ecryptfs_key_mod list \<times> schedule) option" where
  "ecryptfs_register_key_modules dir dir_entries dlopen builtins mem old =
     (case malloc_ok mem of
        (False, mem) \<Rightarrow> Some (- ENOMEM, old, mem)
      | (True, mem) \<Rightarrow>
          (case dir_entries of
             None \<Rightarrow> Some (- EPERM, old, mem)
           | Some es \<Rightarrow>
               (case load_dir dir dlopen mem [] es of
                  (rc, added, mem) \<Rightarrow>
                    if rc \<noteq> 0 then Some (rc, current_mods old added, mem)
                    else do {
                      (rc, added, mem) \<leftarrow> load_builtins old mem added builtins;
                      Some (rc, current_mods old added, mem) })))"

text \<open>
  \<open>ecryptfs_find_key_mod\<close> compares only as many characters as the module's alias has, so an
  alias matches every name it is a prefix of.
\<close>

fun ecryptfs_find_key_mod ::
  "'tn ecryptfs_key_mod list \<Rightarrow> string \<Rightarrow> (int \<times> 'tn ecryptfs_key_mod option) option" where
  "ecryptfs_find_key_mod [] key_mod_alias = Some (1, None)"
| "ecryptfs_find_key_mod (m # ms) key_mod_alias = do {
     a \<leftarrow> km_alias m;
     if take (length a) key_mod_alias = a then Some (0, Some m)
     else ecryptfs_find_key_mod ms key_mod_alias }"

text \<open>
  \<open>ecryptfs_free_key_mod_list\<close> calls every module's \<open>finalize\<close> (a missing one is a call
  through a null pointer) and empties the list. The result of \<open>dlclose\<close> is not looked at; for a
  built-in module its argument is a null pointer, which POSIX has it answer with an error.
\<close>

fun ecryptfs_free_key_mod_list ::
  "'tn ecryptfs_key_mod list \<Rightarrow> (int \<times> 'tn ecryptfs_key_mod list) option" where
  "ecryptfs_free_key_mod_list [] = Some (0, [])"
| "ecryptfs_free_key_mod_list (m # ms) = do {
     fin \<leftarrow> op_finalize (km_ops m);
     ecryptfs_free_key_mod_list ms }"

text \<open>
  \<open>ecryptfs_generate_sig_from_key_data\<close>: no key type is known to the library, so the switch
  has only its default case.
\<close>

definition ecryptfs_generate_sig_from_key_data :: "byte list \<Rightarrow> int option" where
  "ecryptfs_generate_sig_from_key_data key_data = do {
     key_type \<leftarrow> rd_bytes key_data 0 4;
     Some (- EINVAL) }"

subsection \<open>The built-in passphrase module\<close>

definition ecryptfs_passphrase_get_param_subgraph_trans_node ::
  "'tn \<Rightarrow> u32 \<Rightarrow> int \<times> 'tn option" where
  "ecryptfs_passphrase_get_param_subgraph_trans_node passphrase_transition version =
     (if version AND 1 = 0 then (-1, None) else (0, Some passphrase_transition))"

definition ecryptfs_passphrase_init :: "schedule \<Rightarrow> int \<times> string option \<times> schedule" where
  "ecryptfs_passphrase_init mem =
     (case malloc_ok mem of
        (True, mem) \<Rightarrow> (0, Some ''passphrase'', mem)
      | (False, mem) \<Rightarrow> (- ENOMEM, None, mem))"

definition ecryptfs_passphrase_destroy :: "byte list \<Rightarrow> int" where
  "ecryptfs_passphrase_destroy blob = 0"

definition ecryptfs_passphrase_finalize :: "unit \<Rightarrow> int" where
  "ecryptfs_passphrase_finalize u = 0"

definition ecryptfs_passphrase_ops :: "'tn \<Rightarrow> 'tn ecryptfs_key_mod_ops" where
  "ecryptfs_passphrase_ops passphrase_transition = \<lparr>
     op_init = Some ecryptfs_passphrase_init,
     op_get_gen_key_params = None,
     op_get_gen_key_subgraph_trans_node = None,
     op_get_params = None,
     op_get_param_subgraph_trans_node =
       Some (ecryptfs_passphrase_get_param_subgraph_trans_node passphrase_transition),
     op_get_blob = None,
     op_get_key_data = None,
     op_get_key_sig = None,
     op_get_key_hint = None,
     op_encrypt = None,
     op_decrypt = None,
     op_destroy = Some ecryptfs_passphrase_destroy,
     op_finalize = Some ecryptfs_passphrase_finalize\<rparr>"

definition builtin_get_key_mod_ops :: "'tn \<Rightarrow> 'tn ecryptfs_key_mod_ops option list" where
  "builtin_get_key_mod_ops passphrase_transition =
     [Some (ecryptfs_passphrase_ops passphrase_transition)]"


subsection \<open>Complete operation tables\<close>

definition ops_complete :: "'tn ecryptfs_key_mod_ops \<Rightarrow> bool" where
  "ops_complete ops \<longleftrightarrow>
     op_init ops \<noteq> None \<and> op_get_gen_key_params ops \<noteq> None
     \<and> op_get_gen_key_subgraph_trans_node ops \<noteq> None \<and> op_get_params ops \<noteq> None
     \<and> op_get_param_subgraph_trans_node ops \<noteq> None \<and> op_get_blob ops \<noteq> None
     \<and> op_get_key_data ops \<noteq> None \<and> op_get_key_sig ops \<noteq> None
     \<and> op_get_key_hint ops \<noteq> None \<and> op_encrypt ops \<noteq> None \<and> op_decrypt ops \<noteq> None
     \<and> op_destroy ops \<noteq> None \<and> op_finalize ops \<noteq> None"

lemma or_dummy_not_None [simp]: "or_dummy f d \<noteq> None"
  by (cases f) auto

lemma or_dummy_Some_eq: "f \<noteq> None \<Longrightarrow> or_dummy f d = f"
  by (cases f) auto

lemma fill_in_complete: "ops_complete (ecryptfs_fill_in_dummy_ops ops)"
  unfolding ops_complete_def ecryptfs_fill_in_dummy_ops_def
  by (simp del: not_None_eq)

lemma fill_in_keeps_complete: "ops_complete ops \<Longrightarrow> ecryptfs_fill_in_dummy_ops ops = ops"
  by (simp add: ops_complete_def ecryptfs_fill_in_dummy_ops_def or_dummy_Some_eq
      del: not_None_eq)

definition file_mod :: "'tn ecryptfs_key_mod \<Rightarrow> bool" where
  "file_mod m \<longleftrightarrow> km_lib_path m \<noteq> None \<and> ops_complete (km_ops m)"

lemma load_key_mod_from_file:
  assumes "load_key_mod dir dlopen mem e = (Inr (Some km), mem')"
  shows "file_mod km"
proof -
  let ?path = "dir @ ''/'' @ e"
  obtain mem1 where m1: "ends_with_so e" "malloc_ok mem = (True, mem1)"
    using assms by (auto simp: load_key_mod_def split: if_splits prod.splits bool.splits)
  obtain ops where d: "dlopen ?path = Ops ops"
    using assms m1 by (cases "dlopen ?path") (auto simp: load_key_mod_def)
  obtain mem2 where m2: "malloc_ok mem1 = (True, mem2)"
    using assms m1 d by (auto simp: load_key_mod_def split: prod.splits bool.splits)
  obtain t where t: "ops = Some t"
    using assms m1 d m2 by (cases ops) (auto simp: load_key_mod_def)
  obtain al where "km = new_key_mod al (Some ?path) (ecryptfs_fill_in_dummy_ops t)"
    using assms m1 d m2 t
    by (cases "the (op_init (ecryptfs_fill_in_dummy_ops t)) mem2")
      (auto simp: load_key_mod_def Let_def split: if_splits)
  then show ?thesis by (simp add: file_mod_def new_key_mod_def fill_in_complete)
qed

lemma load_dir_files:
  "load_dir dir dlopen mem added es = (rc, added', mem') \<Longrightarrow>
   list_all file_mod added \<Longrightarrow> list_all file_mod added'"
proof (induction es arbitrary: mem added)
  case (Cons e es)
  obtain r m where l: "load_key_mod dir dlopen mem e = (r, m)" by force
  consider (err) c where "r = Inl c" | (skip) "r = Inr None" | (new) km where "r = Inr (Some km)"
    by (metis old.sum.exhaust option.exhaust)
  then show ?case
  proof cases
    case new
    with l have "file_mod km" by (auto dest: load_key_mod_from_file)
    with Cons l new show ?thesis by simp
  qed (use Cons l in auto)
qed simp

text \<open>
  What the built-in phase appends: modules without a library path whose alias differs from
  every alias present when they were appended.
\<close>

lemma alias_known_False:
  "alias_known al ms = Some False \<Longrightarrow> m \<in> set ms \<Longrightarrow> km_alias m \<noteq> al"
  by (induction ms) (auto split: if_splits bind_splits)

lemma load_builtins_append:
  "load_builtins old mem added ws = Some (rc, added', mem') \<Longrightarrow>
   \<exists>bs. added' = added @ bs \<and> (\<forall>b \<in> set bs. km_lib_path b = None \<and> km_alias b \<notin> km_alias ` set added)"
proof (induction ws arbitrary: mem added)
  case (Cons w ws)
  obtain ok mem1 where m: "malloc_ok mem = (ok, mem1)" by force
  show ?case
  proof (cases "ok \<and> w \<noteq> None")
    case False
    with Cons m show ?thesis by (cases w; cases ok) auto
  next
    case True
    then obtain ops where w: "w = Some ops" by auto
    from Cons.prems True m w obtain init where init: "op_init ops = Some init"
      by (auto split: bind_splits)
    obtain irc al mem2 where i: "init mem1 = (irc, al, mem2)" by (cases "init mem1") auto
    show ?thesis
    proof (cases "irc = 0 \<and> alias_known al (current_mods old added) = Some False")
      case False
      with Cons m w True init i show ?thesis by (auto split: if_splits bind_splits)
    next
      case k: True
      then have "km_alias x \<noteq> al" if "x \<in> set added" for x
        using that alias_known_False [of al "current_mods old added" x]
        by (auto simp: current_mods_def split: if_splits)
      moreover from k Cons.prems m w True init i
      have "load_builtins old mem2 (added @ [new_key_mod al None ops]) ws = Some (rc, added', mem')"
        by simp
      note Cons.IH [OF this]
      ultimately show ?thesis by (fastforce simp: new_key_mod_def)
    qed
  qed
qed simp

subsection \<open>The contract of the lookup\<close>

locale key_mod_lookup =
  fixes find :: "'m list \<Rightarrow> string \<Rightarrow> (int \<times> 'm option) option"
    and alias_of :: "'m \<Rightarrow> string option"
  assumes find_hit: "find ms n = Some (rc, Some m) \<Longrightarrow>
      rc = 0 \<and> m \<in> set ms \<and> (\<exists>a. alias_of m = Some a \<and> prefix a n)"
    and find_miss: "find ms n = Some (rc, None) \<Longrightarrow>
      rc = 1 \<and> (\<forall>m \<in> set ms. \<exists>a. alias_of m = Some a \<and> \<not> prefix a n)"
    and find_defined: "\<forall>m \<in> set ms. alias_of m \<noteq> None \<Longrightarrow> find ms n \<noteq> None"
begin

lemma find_cases:
  assumes "find ms n = Some (rc, r)"
  shows "rc = 0 \<and> r \<noteq> None \<or> rc = 1 \<and> r = None"
  using assms find_hit find_miss by (cases r) auto

lemma find_exact:
  assumes "\<forall>m \<in> set ms. alias_of m \<noteq> None" and "m \<in> set ms" and "alias_of m = Some n"
  shows "\<exists>m'. find ms n = Some (0, Some m')"
proof -
  obtain rc r where f: "find ms n = Some (rc, r)"
    using find_defined [OF assms(1)] by (metis not_None_eq surj_pair)
  show ?thesis
  proof (cases r)
    case None
    with f find_miss assms show ?thesis by fastforce
  next
    case (Some m')
    with f find_hit show ?thesis by auto
  qed
qed

end

lemma take_length_prefix: "take (length a) n = a \<longleftrightarrow> prefix a n"
  by (metis append_eq_conv_conj prefix_def)

lemma find_key_mod_Some:
  "ecryptfs_find_key_mod ms n = Some (rc, Some m) \<Longrightarrow>
   rc = 0 \<and> (\<exists>ms1 ms2 a. ms = ms1 @ m # ms2 \<and> km_alias m = Some a \<and> prefix a n
     \<and> (\<forall>m1 \<in> set ms1. \<exists>a1. km_alias m1 = Some a1 \<and> \<not> prefix a1 n))"
proof (induction ms)
  case (Cons x xs)
  from Cons.prems obtain a where a: "km_alias x = Some a" by (auto split: bind_splits)
  show ?case
  proof (cases "prefix a n")
    case True
    with Cons.prems a show ?thesis
      by (intro conjI exI [of _ "[]"] exI [of _ xs] exI [of _ a]) (auto simp: take_length_prefix)
  next
    case False
    with Cons a have "rc = 0" and "\<exists>ms1 ms2 b. xs = ms1 @ m # ms2 \<and> km_alias m = Some b
        \<and> prefix b n \<and> (\<forall>m1 \<in> set ms1. \<exists>a1. km_alias m1 = Some a1 \<and> \<not> prefix a1 n)"
      by (auto simp: take_length_prefix)
    then obtain ms1 ms2 b where "xs = ms1 @ m # ms2" "km_alias m = Some b" "prefix b n"
      "\<forall>m1 \<in> set ms1. \<exists>a1. km_alias m1 = Some a1 \<and> \<not> prefix a1 n" by blast
    with False a \<open>rc = 0\<close> show ?thesis
      by (intro conjI exI [of _ "x # ms1"] exI [of _ ms2] exI [of _ b]) auto
  qed
qed simp

lemma find_key_mod_None:
  "ecryptfs_find_key_mod ms n = Some (rc, None) \<Longrightarrow>
   rc = 1 \<and> (\<forall>m \<in> set ms. \<exists>a. km_alias m = Some a \<and> \<not> prefix a n)"
  by (induction ms) (auto simp: take_length_prefix split: bind_splits if_splits)

lemma find_key_mod_defined:
  "\<forall>m \<in> set ms. km_alias m \<noteq> None \<Longrightarrow> ecryptfs_find_key_mod ms n \<noteq> None"
  by (induction ms) auto

interpretation key_mods: key_mod_lookup ecryptfs_find_key_mod km_alias
proof
  fix ms :: "'a ecryptfs_key_mod list" and n rc m
  show "rc = 0 \<and> m \<in> set ms \<and> (\<exists>a. km_alias m = Some a \<and> prefix a n)"
    if "ecryptfs_find_key_mod ms n = Some (rc, Some m)"
    using find_key_mod_Some [OF that] by auto
  show "rc = 1 \<and> (\<forall>m \<in> set ms. \<exists>a. km_alias m = Some a \<and> \<not> prefix a n)"
    if "ecryptfs_find_key_mod ms n = Some (rc, None)"
    using that by (rule find_key_mod_None)
  show "ecryptfs_find_key_mod ms n \<noteq> None" if "\<forall>m \<in> set ms. km_alias m \<noteq> None"
    using that by (rule find_key_mod_defined)
qed

subsection \<open>Properties\<close>








text \<open>
  Registering into an empty context yields the modules loaded from the directory
  followed by built-in ones: every module from the directory has a complete operation table
  (the missing entries replaced by the dummies), and no built-in module is kept whose alias
  a module from the directory already has.
\<close>

theorem register_key_modules_structure:
  assumes "ecryptfs_register_key_modules dir entries dlopen builtins mem [] = Some (rc, ms, mem')"
  shows "\<exists>fs bs. ms = fs @ bs \<and> list_all file_mod fs
      \<and> (\<forall>b \<in> set bs. km_lib_path b = None \<and> km_alias b \<notin> km_alias ` set fs)"
proof -
  obtain ok mem1 where m: "malloc_ok mem = (ok, mem1)" by force
  show ?thesis
  proof (cases "ok \<and> entries \<noteq> None")
    case False
    with assms m have "ms = []"
      by (cases ok) (auto simp: ecryptfs_register_key_modules_def)
    then show ?thesis by simp
  next
    case True
    then obtain es where es: "entries = Some es" by auto
    obtain rc1 fs mem2 where d: "load_dir dir dlopen mem1 [] es = (rc1, fs, mem2)"
      by (metis surj_pair)
    have files: "list_all file_mod fs" using load_dir_files [OF d] by simp
    show ?thesis
    proof (cases "rc1 = 0")
      case False
      with assms m True es d have "ms = fs"
        by (auto simp: ecryptfs_register_key_modules_def current_mods_def split: if_splits)
      with files show ?thesis by (intro exI [of _ fs] exI [of _ "[]"]) simp
    next
      case r: True
      from assms m True es d r obtain rc2 added
        where b: "load_builtins [] mem2 fs builtins = Some (rc2, added, mem')" and "ms = added"
        by (auto simp: ecryptfs_register_key_modules_def current_mods_def split: bind_splits if_splits)
      with load_builtins_append [OF b] files show ?thesis by auto
    qed
  qed
qed

theorem register_key_modules_structure_witness:
  "\<exists>fs bs. [new_key_mod (Some ''passphrase'') None (ecryptfs_passphrase_ops ())] = fs @ bs
      \<and> list_all file_mod fs
      \<and> list_all (\<lambda>b. km_lib_path b = None \<and> km_alias b \<notin> km_alias ` set fs) bs"
proof -
  have "ecryptfs_register_key_modules ''d'' (Some [''.'', ''README'']) (\<lambda>_. No_Handle)
      (builtin_get_key_mod_ops ()) [] []
    = Some (0, [new_key_mod (Some ''passphrase'') None (ecryptfs_passphrase_ops ())], [])"
    by (simp add: ecryptfs_register_key_modules_def load_key_mod_def ends_with_so_def
        builtin_get_key_mod_ops_def ecryptfs_passphrase_ops_def ecryptfs_passphrase_init_def
        current_mods_def)
  from register_key_modules_structure [OF this] show ?thesis by (simp add: list_all_iff)
qed

text \<open>
  The lookup returns the first registered module whose alias is a prefix of the
  requested name, with status 0; it returns status 1 exactly when no alias is such a prefix.
  (All modules have an alias.)
\<close>

theorem find_key_mod_first_prefix:
  assumes "\<forall>m \<in> set ms. km_alias m \<noteq> None"
  shows "ecryptfs_find_key_mod ms n =
     (case filter (\<lambda>m. prefix (the (km_alias m)) n) ms of
        [] \<Rightarrow> Some (1, None) | m # _ \<Rightarrow> Some (0, Some m))"
  using assms by (induction ms) (auto simp: take_length_prefix)

theorem find_key_mod_first_prefix_witness:
  "ecryptfs_find_key_mod
     [new_key_mod (Some ''open'') None (ecryptfs_passphrase_ops ()),
      new_key_mod (Some ''openssl'') None (ecryptfs_passphrase_ops ())] ''openssl''
   = Some (0, Some (new_key_mod (Some ''open'') None (ecryptfs_passphrase_ops ())))"
  by (subst find_key_mod_first_prefix) (simp_all add: new_key_mod_def)

end
