(* ===== verification/Packets.thy ===== *)
theory Packets
  imports Packet_Length Key_Mod
begin

text \<open>
  The key packets of the daemon, from \<open>src/libecryptfs/packets.c\<close>: decryption and
  encryption of a session key by a key module, the reply packets, and \<open>parse_packet\<close>.

  A message is the block of memory \<open>ecryptfs_recv_miscdev\<close> allocated for it: the 8 bytes of
  \<open>index\<close> and \<open>data_len\<close>, then \<open>data\<close>. The user session keyring is a parameter: the serial
  number \<open>request_key\<close> finds for a signature (negative when there is none) and the payload
  \<open>keyctl_read_alloc\<close> reads (\<^term>\<open>None\<close> when it fails and leaves the pointer null). Of the
  payload the packet code uses the private-key part.
\<close>

abbreviation (input) TAG_64 :: byte where "TAG_64 \<equiv> 0x40"
abbreviation (input) TAG_65 :: byte where "TAG_65 \<equiv> 0x41"
abbreviation (input) TAG_66 :: byte where "TAG_66 \<equiv> 0x42"
abbreviation (input) TAG_67 :: byte where "TAG_67 \<equiv> 0x43"
abbreviation (input) STATUS_GOOD :: byte where "STATUS_GOOD \<equiv> 0"
abbreviation (input) STATUS_BAD :: byte where "STATUS_BAD \<equiv> 255"
abbreviation (input) MAX_ENCRYPTED_KEY_BYTES :: nat where "MAX_ENCRYPTED_KEY_BYTES \<equiv> 512"
abbreviation (input) MAX_KEY_BYTES :: nat where "MAX_KEY_BYTES \<equiv> 64"

text \<open>
  The private-key view of an authentication token: the module alias, the blob, \<open>data_len\<close>,
  and the number of bytes of the payload beyond \<open>sizeof(struct ecryptfs_auth_tok)\<close>.
\<close>

record auth_tok_view =
  tok_key_mod_alias :: string
  tok_data :: "byte list"
  tok_data_len :: nat
  tok_room :: nat

text \<open>\<open>struct ecryptfs_message\<close> with the block allocated for its data.\<close>

record ecryptfs_message =
  msg_index :: u32
  msg_data_len :: u32
  msg_data :: "byte list"

subsection \<open>Calls into the key module\<close>

text \<open>
  The common course of \<open>key_mod_encrypt\<close> and \<open>key_mod_decrypt\<close>: the status, the output
  pointer, the reported size and the remaining schedule. The first call asks for the size,
  the second one fills the allocated block; a size above the limit frees the block but
  leaves the pointer in place.
\<close>

definition key_mod_crypt ::
  "('tn ecryptfs_key_mod_ops \<Rightarrow> crypt_op option) \<Rightarrow> nat \<Rightarrow> (nat \<Rightarrow> byte) \<Rightarrow> nat
   \<Rightarrow> 'tn ecryptfs_key_mod list \<Rightarrow> auth_tok_view option \<Rightarrow> byte list \<Rightarrow> schedule
   \<Rightarrow> (int \<times> heap_ptr \<times> nat \<times> schedule) option" where
  "key_mod_crypt sel limit junk size0 mods auth_tok key mem = do {
     tok \<leftarrow> auth_tok;
     (frc, km) \<leftarrow> ecryptfs_find_key_mod mods (tok_key_mod_alias tok);
     (case km of
        None \<Rightarrow> Some (- EINVAL, Null, size0, mem)
      | Some km \<Rightarrow> do {
          op \<leftarrow> sel (km_ops km);
          (case op None size0 key (tok_data tok) 0 of
             (rc, sz, _) \<Rightarrow>
               if rc \<noteq> 0 then Some (rc, Null, sz, mem)
               else if sz = 0 then Some (- EINVAL, Null, sz, mem)
               else case malloc_ok mem of
                 (False, mem) \<Rightarrow> Some (- ENOMEM, Null, sz, mem)
               | (True, mem) \<Rightarrow>
                   (case op (Some (fresh junk sz)) sz key (tok_data tok) 0 of
                      (rc, sz, buf) \<Rightarrow>
                        if rc \<noteq> 0 then Some (rc, Live buf, sz, mem)
                        else if limit < sz then Some (- EINVAL, Dangling, 0, mem)
                        else Some (0, Live buf, sz, mem))) }) }"

definition key_mod_encrypt ::
  "(nat \<Rightarrow> byte) \<Rightarrow> nat \<Rightarrow> 'tn ecryptfs_key_mod list \<Rightarrow> auth_tok_view option \<Rightarrow> byte list
   \<Rightarrow> schedule \<Rightarrow> (int \<times> heap_ptr \<times> nat \<times> schedule) option" where
  "key_mod_encrypt = key_mod_crypt op_encrypt MAX_ENCRYPTED_KEY_BYTES"

definition key_mod_decrypt ::
  "(nat \<Rightarrow> byte) \<Rightarrow> nat \<Rightarrow> 'tn ecryptfs_key_mod list \<Rightarrow> auth_tok_view option \<Rightarrow> byte list
   \<Rightarrow> schedule \<Rightarrow> (int \<times> heap_ptr \<times> nat \<times> schedule) option" where
  "key_mod_decrypt = key_mod_crypt op_decrypt MAX_KEY_BYTES"

subsection \<open>Replies\<close>

text \<open>
  The index of a reply is uninitialised until the daemon sets it; it is taken from the
  parameter \<open>junk\<close> here.
\<close>

definition new_reply :: "(nat \<Rightarrow> byte) \<Rightarrow> nat \<Rightarrow> byte list \<Rightarrow> ecryptfs_message" where
  "new_reply junk len data =
     \<lparr>msg_index = load_word Little_Endian (fresh junk 4), msg_data_len = word_of_nat len,
      msg_data = data\<rparr>"

definition write_failure_packet ::
  "(nat \<Rightarrow> byte) \<Rightarrow> byte \<Rightarrow> schedule \<Rightarrow> int \<times> ecryptfs_message option \<times> schedule" where
  "write_failure_packet junk tag mem =
     (case malloc_ok mem of
        (False, mem) \<Rightarrow> (- ENOMEM, None, mem)
      | (True, mem) \<Rightarrow> (0, Some (new_reply junk 2 [tag, STATUS_BAD]), mem))"

text \<open>
  The block of a key reply holds \<open>key_size + 4\<close> bytes: tag, status, the size (one or two
  bytes), the key, and, after a one-byte size, one byte nobody writes. The tag 65 packet
  reports the bytes written, the tag 67 packet the whole block.
\<close>

definition write_key_packet ::
  "byte \<Rightarrow> (nat \<Rightarrow> nat \<Rightarrow> nat) \<Rightarrow> (nat \<Rightarrow> byte) \<Rightarrow> byte list \<Rightarrow> nat \<Rightarrow> schedule
   \<Rightarrow> (int \<times> ecryptfs_message option \<times> schedule) option" where
  "write_key_packet tag report junk key key_size mem =
     (let data_len = key_size + 4 in
      case malloc_ok mem of
        (False, mem) \<Rightarrow> Some (- ENOMEM, None, mem)
      | (True, mem) \<Rightarrow>
          (case ecryptfs_write_packet_length key_size of
             Inl rc \<Rightarrow> Some (rc, Some (new_reply junk 0 (fresh junk data_len)), mem)
           | Inr len \<Rightarrow> do {
               k \<leftarrow> rd_bytes key 0 key_size;
               data \<leftarrow> wr_bytes (fresh junk data_len) 0 ([tag, STATUS_GOOD] @ len @ k);
               Some (0, Some (new_reply junk (report (2 + length len + key_size) data_len) data),
                     mem) }))"

definition write_tag_65_packet ::
  "(nat \<Rightarrow> byte) \<Rightarrow> byte list \<Rightarrow> nat \<Rightarrow> schedule
   \<Rightarrow> (int \<times> ecryptfs_message option \<times> schedule) option" where
  "write_tag_65_packet = write_key_packet TAG_65 (\<lambda>i data_len. i)"

definition write_tag_67_packet ::
  "(nat \<Rightarrow> byte) \<Rightarrow> byte list \<Rightarrow> nat \<Rightarrow> schedule
   \<Rightarrow> (int \<times> ecryptfs_message option \<times> schedule) option" where
  "write_tag_67_packet = write_key_packet TAG_67 (\<lambda>i data_len. data_len)"

subsection \<open>The request\<close>

text \<open>The token is cleared through \<open>data_len\<close>, which the payload must have room for.\<close>

fun wipe_tok :: "auth_tok_view option \<Rightarrow> unit option" where
  "wipe_tok None = Some ()"
| "wipe_tok (Some tok) = (if tok_data_len tok \<le> tok_room tok then Some () else None)"

text \<open>The code after the label \<open>write_failure\<close>.\<close>

definition packet_failure ::
  "(nat \<Rightarrow> byte) \<Rightarrow> byte \<Rightarrow> heap_ptr \<Rightarrow> auth_tok_view option \<Rightarrow> schedule
   \<Rightarrow> (int \<times> ecryptfs_message option \<times> schedule) option" where
  "packet_failure junk packet_type key_out auth_tok mem =
     (case write_failure_packet junk (if packet_type = TAG_66 then TAG_67 else TAG_65) mem of
        (rc, reply, mem) \<Rightarrow> do {
          free_ptr key_out;
          wipe_tok auth_tok;
          Some (rc, reply, mem) })"

text \<open>The code after the label's \<open>switch\<close> when a packet was handled.\<close>

definition packet_done ::
  "int \<Rightarrow> ecryptfs_message option \<Rightarrow> heap_ptr \<Rightarrow> auth_tok_view option \<Rightarrow> schedule
   \<Rightarrow> (int \<times> ecryptfs_message option \<times> schedule) option" where
  "packet_done rc reply key_out auth_tok mem = do {
     free_ptr key_out;
     tok \<leftarrow> auth_tok;
     wipe_tok auth_tok;
     Some (rc, reply, mem) }"

fun live_bytes :: "heap_ptr \<Rightarrow> byte list option" where
  "live_bytes (Live bs) = Some bs"
| "live_bytes _ = None"

definition packet_switch ::
  "(nat \<Rightarrow> byte) \<Rightarrow> nat \<Rightarrow> 'tn ecryptfs_key_mod list \<Rightarrow> byte \<Rightarrow> auth_tok_view option
   \<Rightarrow> byte list \<Rightarrow> schedule \<Rightarrow> (int \<times> ecryptfs_message option \<times> schedule) option" where
  "packet_switch junk size0 mods packet_type auth_tok key mem =
     (if packet_type = TAG_64 then do {
        (rc, key_out, sz, mem) \<leftarrow> key_mod_decrypt junk size0 mods auth_tok key mem;
        if rc \<noteq> 0 then
          (case write_failure_packet junk TAG_65 mem of
             (_, _, mem) \<Rightarrow> packet_failure junk packet_type key_out auth_tok mem)
        else do {
          out \<leftarrow> live_bytes key_out;
          (rc, reply, mem) \<leftarrow> write_tag_65_packet junk out sz mem;
          if rc \<noteq> 0 then packet_failure junk packet_type key_out auth_tok mem
          else packet_done rc reply key_out auth_tok mem } }
      else if packet_type = TAG_66 then do {
        (rc, key_out, sz, mem) \<leftarrow> key_mod_encrypt junk size0 mods auth_tok key mem;
        if rc \<noteq> 0 then packet_failure junk packet_type key_out auth_tok mem
        else do {
          out \<leftarrow> live_bytes key_out;
          (rc, reply, mem) \<leftarrow> write_tag_67_packet junk out sz mem;
          if rc \<noteq> 0 then packet_failure junk packet_type key_out auth_tok mem
          else packet_done rc reply key_out auth_tok mem } }
      else packet_done (- EINVAL) None Null auth_tok mem)"

definition parse_packet ::
  "(nat \<Rightarrow> byte) \<Rightarrow> nat \<Rightarrow> (byte list \<Rightarrow> int) \<Rightarrow> (int \<Rightarrow> auth_tok_view option)
   \<Rightarrow> 'tn ecryptfs_key_mod list \<Rightarrow> byte list \<Rightarrow> schedule
   \<Rightarrow> (int \<times> ecryptfs_message option \<times> schedule) option" where
  "parse_packet junk size0 request_key read_key mods emsg mem = do {
     packet_type \<leftarrow> rd_byte emsg 8;
     (rc, data_size, length_size) \<leftarrow> ecryptfs_parse_packet_length (drop 9 emsg);
     if rc \<noteq> 0 then packet_failure junk packet_type Null None mem
     else let i = 9 + length_size in
     (case malloc_ok mem of
        (False, mem) \<Rightarrow> packet_failure junk packet_type Null None mem
      | (True, mem) \<Rightarrow> do {
          sig \<leftarrow> rd_bytes emsg i data_size;
          let i = i + data_size;
          (rc, key_size, length_size) \<leftarrow> ecryptfs_parse_packet_length (drop i emsg);
          if rc \<noteq> 0 then packet_failure junk packet_type Null None mem
          else let i = i + length_size in
          (case malloc_ok mem of
             (False, mem) \<Rightarrow> packet_failure junk packet_type Null None mem
           | (True, mem) \<Rightarrow> do {
               key \<leftarrow> rd_bytes emsg i key_size;
               name \<leftarrow> c_string (sig @ [0]);
               let key_sub = request_key name;
               if key_sub < 0 then packet_failure junk packet_type Null None mem
               else packet_switch junk size0 mods packet_type (read_key key_sub) key mem }) }) }"

subsection \<open>Well-formed requests\<close>

text \<open>
  The request in the layout \<open>parse_packet\<close> reads: the message
  header, the tag, and two fields (signature and key), each preceded by its size.
\<close>

definition key_request :: "byte list \<Rightarrow> byte \<Rightarrow> byte list \<Rightarrow> byte list \<Rightarrow> byte list" where
  "key_request hdr tag sig key =
     hdr @ tag # projr (ecryptfs_write_packet_length (length sig)) @ sig
       @ projr (ecryptfs_write_packet_length (length key)) @ key"

lemma parse_key_request:
  assumes "length hdr = 8" "length sig < 8384" "length key < 8384" "0 \<notin> set sig"
  shows "parse_packet junk size0 request_key read_key mods (key_request hdr tag sig key) [] =
     (if request_key sig < 0 then packet_failure junk tag Null None []
      else packet_switch junk size0 mods tag (read_key (request_key sig)) key [])"
proof -
  obtain ls where ls: "ecryptfs_write_packet_length (length sig) = Inr ls"
    using packet_length.enc_total [OF assms(2)] by blast
  obtain lk where lk: "ecryptfs_write_packet_length (length key) = Inr lk"
    using packet_length.enc_total [OF assms(3)] by blast
  define pre1 where "pre1 = hdr @ [tag]"
  define pre2 where "pre2 = pre1 @ ls @ sig"
  have e: "key_request hdr tag sig key = pre1 @ ls @ sig @ lk @ key"
    by (simp add: key_request_def ls lk pre1_def)
  have e2: "key_request hdr tag sig key = pre2 @ lk @ key @ []"
    by (simp add: e pre2_def)
  have l1: "length pre1 = 9" and l2: "length pre2 = 9 + length ls + length sig"
    using assms(1) by (simp_all add: pre1_def pre2_def)
  have tagb: "rd_byte (key_request hdr tag sig key) 8 = Some tag"
    using assms(1) by (simp add: key_request_def rd_byte_def nth_append)
  note f1 = packet_length.dec_field [OF assms(2) ls, of pre1 "lk @ key", folded e, unfolded l1]
  note f2 = packet_length.dec_field [OF assms(3) lk, of pre2 "[]", folded e2, unfolded l2]
  show ?thesis
    using tagb f1 f2 assms(4)
    by (simp add: parse_packet_def c_string_append Let_def add.assoc)
qed

lemma packet_failure_Null [simp]:
  "packet_failure junk t Null None [] =
     Some (0, Some (new_reply junk 2 [if t = TAG_66 then TAG_67 else TAG_65, STATUS_BAD]), [])"
  by (simp add: packet_failure_def write_failure_packet_def)

lemma packet_failure_tok:
  "free_ptr k = Some () \<Longrightarrow> tok_data_len tok \<le> tok_room tok \<Longrightarrow>
   packet_failure junk t k (Some tok) [] =
     Some (0, Some (new_reply junk 2 [if t = TAG_66 then TAG_67 else TAG_65, STATUS_BAD]), [])"
  by (simp add: packet_failure_def write_failure_packet_def)

text \<open>
  A key module that behaves: it names a size in its first call and fills the block in its
  second one, with a result no longer than the block.
\<close>

definition crypt_result ::
  "crypt_op \<Rightarrow> (nat \<Rightarrow> byte) \<Rightarrow> nat \<Rightarrow> byte list \<Rightarrow> byte list \<Rightarrow> byte list \<Rightarrow> bool" where
  "crypt_result op junk size0 key blob out \<longleftrightarrow>
     (\<exists>n x buf. op None size0 key blob 0 = (0, n, x) \<and> n \<noteq> 0
        \<and> op (Some (fresh junk n)) n key blob 0 = (0, length out, buf)
        \<and> length buf = n \<and> take (length out) buf = out)"

lemma key_mod_crypt_good:
  assumes "ecryptfs_find_key_mod mods (tok_key_mod_alias tok) = Some (rc, Some km)"
    and "sel (km_ops km) = Some op" and "crypt_result op junk size0 key (tok_data tok) out"
    and "length out \<le> limit"
  shows "\<exists>buf. key_mod_crypt sel limit junk size0 mods (Some tok) key []
      = Some (0, Live buf, length out, []) \<and> rd_bytes buf 0 (length out) = Some out"
proof -
  obtain n x buf where c: "op None size0 key (tok_data tok) 0 = (0, n, x)" "n \<noteq> 0"
    "op (Some (fresh junk n)) n key (tok_data tok) 0 = (0, length out, buf)"
    "take (length out) buf = out"
    using assms(3) by (auto simp: crypt_result_def)
  have "length out \<le> length buf"
    by (metis c(4) length_take min.cobounded1)
  with c assms show ?thesis
    by (intro exI [of _ buf]) (auto simp: key_mod_crypt_def rd_bytes_def)
qed

lemma write_key_packet_good:
  assumes "rd_bytes buf 0 (length out) = Some out" and "length out < 65536"
    and "ecryptfs_write_packet_length (length out) = Inr len"
  shows "write_key_packet tag report junk buf (length out) [] =
     Some (0, Some (new_reply junk (report (2 + length len + length out) (length out + 4))
       ([tag, STATUS_GOOD] @ len @ out
        @ drop (2 + length len + length out) (fresh junk (length out + 4)))), [])"
proof -
  have "length len \<le> 2"
    using assms(3) by (auto simp: ecryptfs_write_packet_length_def split: if_splits)
  with assms show ?thesis
    by (simp add: write_key_packet_def Let_def wr_bytes_def)
qed

lemma write_key_packet_short:
  assumes "rd_bytes buf 0 (length out) = Some out" and "length out < 192"
  shows "write_key_packet tag report junk buf (length out) [] =
     Some (0, Some (new_reply junk (report (length out + 3) (length out + 4))
       ([tag, STATUS_GOOD, word_of_nat (length out)] @ out @ [junk (length out + 3)])), [])"
proof -
  let ?l = "[word_of_nat (length out) :: byte]"
  have i: "2 + length ?l + length out = length out + 3" by simp
  have tail: "drop (length out + 3) (fresh junk (length out + 4)) = [junk (length out + 3)]"
    by (simp add: fresh_def drop_map upt_conv_Cons eval_nat_numeral)
  have "length out < 65536" using assms(2) by simp
  note write_key_packet_good [OF assms(1) this write_packet_length_short [OF assms(2)],
      unfolded i]
  then show ?thesis by (simp add: tail)
qed

subsection \<open>Properties\<close>

text \<open>
  C13. A well-formed tag 64 request whose signature is in the keyring and whose key module
  decrypts the key to at most 64 bytes is answered with status 0 and a tag 65 packet: the
  good status, the size of the decrypted key in one byte, the key, and nothing else in the
  reported length.
\<close>

theorem parse_packet_tag_64:
  assumes "length hdr = 8" "length sig < 8384" "length key < 8384" "0 \<notin> set sig"
    and "0 \<le> request_key sig" "read_key (request_key sig) = Some tok"
    and "ecryptfs_find_key_mod mods (tok_key_mod_alias tok) = Some (rc, Some km)"
    and "op_decrypt (km_ops km) = Some op"
    and "crypt_result op junk size0 key (tok_data tok) out" and "length out \<le> MAX_KEY_BYTES"
    and "tok_data_len tok \<le> tok_room tok"
  shows "\<exists>r. parse_packet junk size0 request_key read_key mods (key_request hdr TAG_64 sig key) []
        = Some (0, Some r, [])
      \<and> take (unat (msg_data_len r)) (msg_data r)
        = [TAG_65, STATUS_GOOD, word_of_nat (length out)] @ out
      \<and> unat (msg_data_len r) \<le> length (msg_data r)"
proof -
  obtain buf where k: "key_mod_decrypt junk size0 mods (Some tok) key []
      = Some (0, Live buf, length out, [])" and b: "rd_bytes buf 0 (length out) = Some out"
    using key_mod_crypt_good [where sel = op_decrypt, OF assms(7,8,9,10)] by (auto simp: key_mod_decrypt_def)
  have w: "write_tag_65_packet junk buf (length out) [] =
      Some (0, Some (new_reply junk (length out + 3)
        ([TAG_65, STATUS_GOOD, word_of_nat (length out)] @ out
         @ [junk (length out + 3)])), [])"
    using assms(10) by (simp add: write_tag_65_packet_def write_key_packet_short [OF b])
  have "unat (word_of_nat (length out + 3) :: u32) = length out + 3"
    using assms(10) by (simp add: unat_of_nat del: of_nat_add)
  then show ?thesis
    using assms(5,6,11) k w
    by (simp add: parse_key_request [OF assms(1-4)] packet_switch_def packet_done_def new_reply_def
        numeral_3_eq_3 del: of_nat_add)
qed

definition example_tok :: auth_tok_view where
  "example_tok = \<lparr>tok_key_mod_alias = ''m'', tok_data = [1], tok_data_len = 1, tok_room = 1\<rparr>"

definition example_op :: crypt_op where
  "example_op to_buf to_size from_buf blob blob_type =
     (0, length from_buf, case to_buf of None \<Rightarrow> [] | Some b \<Rightarrow> take (length b) from_buf)"

definition example_mod :: "unit ecryptfs_key_mod" where
  "example_mod = new_key_mod (Some ''m'') None
     ((ecryptfs_passphrase_ops ())\<lparr>op_encrypt := Some example_op, op_decrypt := Some example_op\<rparr>)"

lemmas example_defs = example_tok_def example_op_def example_mod_def new_key_mod_def
  ecryptfs_passphrase_ops_def

lemma example_crypt_result: "crypt_result example_op junk 0 [5, 6, 7] [1] [5, 6, 7]"
  by (simp add: crypt_result_def example_op_def)

theorem parse_packet_tag_64_witness:
  "\<exists>r. parse_packet (\<lambda>_. 0) 0 (\<lambda>_. 3) (\<lambda>_. Some example_tok) [example_mod]
        (key_request [0, 0, 0, 0, 0, 0, 0, 0] TAG_64 [97, 98] [5, 6, 7]) [] = Some (0, Some r, [])
      \<and> take (unat (msg_data_len r)) (msg_data r) = [TAG_65, STATUS_GOOD, 3, 5, 6, 7]
      \<and> unat (msg_data_len r) \<le> length (msg_data r)"
  using parse_packet_tag_64 [of "[0, 0, 0, 0, 0, 0, 0, 0]" "[97, 98]" "[5, 6, 7]" "\<lambda>_. 3"
      "\<lambda>_. Some example_tok" example_tok "[example_mod]" 0 example_mod example_op "\<lambda>_. 0" 0 "[5, 6, 7]"]
  by (simp add: example_defs crypt_result_def)

text \<open>
  The answer to a well-formed tag 66 request carries the tag 67 header, the size and the
  encrypted key, but for a key shorter than 192 bytes its reported length includes one more
  byte, which is never written: the content of freshly allocated memory is sent.
\<close>

theorem parse_packet_tag_66_sends_uninitialised:
  assumes "length hdr = 8" "length sig < 8384" "length key < 8384" "0 \<notin> set sig"
    and "0 \<le> request_key sig" "read_key (request_key sig) = Some tok"
    and "ecryptfs_find_key_mod mods (tok_key_mod_alias tok) = Some (rc, Some km)"
    and "op_encrypt (km_ops km) = Some op"
    and "crypt_result op junk size0 key (tok_data tok) out" and "length out < 192"
    and "tok_data_len tok \<le> tok_room tok"
  shows "\<exists>r. parse_packet junk size0 request_key read_key mods (key_request hdr TAG_66 sig key) []
        = Some (0, Some r, [])
      \<and> unat (msg_data_len r) = length (msg_data r)
      \<and> msg_data r = [TAG_67, STATUS_GOOD, word_of_nat (length out)] @ out @ [junk (length out + 3)]"
proof -
  have lim: "length out \<le> MAX_ENCRYPTED_KEY_BYTES" using assms(10) by simp
  obtain buf where k: "key_mod_encrypt junk size0 mods (Some tok) key []
      = Some (0, Live buf, length out, [])" and b: "rd_bytes buf 0 (length out) = Some out"
    using key_mod_crypt_good [where sel = op_encrypt, OF assms(7,8,9) lim] by (auto simp: key_mod_encrypt_def)
  have w: "write_tag_67_packet junk buf (length out) [] =
      Some (0, Some (new_reply junk (length out + 4)
        ([TAG_67, STATUS_GOOD, word_of_nat (length out)] @ out @ [junk (length out + 3)])), [])"
    using assms(10) by (simp add: write_tag_67_packet_def write_key_packet_short [OF b])
  have "unat (word_of_nat (length out + 4) :: u32) = length out + 4"
    using assms(10) by (simp add: unat_of_nat del: of_nat_add)
  then show ?thesis
    using assms(5,6,11) k w
    by (simp add: parse_key_request [OF assms(1-4)] packet_switch_def packet_done_def new_reply_def
        del: of_nat_add)
qed

theorem parse_packet_tag_66_sends_uninitialised_witness:
  "\<exists>r. parse_packet (\<lambda>_. 170) 0 (\<lambda>_. 3) (\<lambda>_. Some example_tok) [example_mod]
        (key_request [0, 0, 0, 0, 0, 0, 0, 0] TAG_66 [97, 98] [5, 6, 7]) [] = Some (0, Some r, [])
      \<and> unat (msg_data_len r) = length (msg_data r)
      \<and> msg_data r = [TAG_67, STATUS_GOOD, 3, 5, 6, 7, 170]"
  using parse_packet_tag_66_sends_uninitialised [of "[0, 0, 0, 0, 0, 0, 0, 0]" "[97, 98]"
      "[5, 6, 7]" "\<lambda>_. 3" "\<lambda>_. Some example_tok" example_tok "[example_mod]" 0 example_mod
      example_op "\<lambda>_. 170" 0 "[5, 6, 7]"]
  by (simp add: example_defs crypt_result_def)

text \<open>
  A request whose signature is not in the keyring is answered with status 0 and the
  two-byte failure packet of the matching tag (67 for a tag 66 request, 65 otherwise).
\<close>

theorem parse_packet_unknown_signature:
  assumes "length hdr = 8" "length sig < 8384" "length key < 8384" "0 \<notin> set sig"
    and "request_key sig < 0"
  shows "parse_packet junk size0 request_key read_key mods (key_request hdr tag sig key) []
     = Some (0, Some (new_reply junk 2 [if tag = TAG_66 then TAG_67 else TAG_65, STATUS_BAD]), [])"
  using assms(5) by (simp add: parse_key_request [OF assms(1-4)])

theorem parse_packet_unknown_signature_witness:
  "parse_packet (\<lambda>_. 0) 0 (\<lambda>_. -1) (\<lambda>_. None) [example_mod]
     (key_request [0, 0, 0, 0, 0, 0, 0, 0] TAG_66 [97, 98] [5, 6, 7]) []
   = Some (0, Some (new_reply (\<lambda>_. 0) 2 [TAG_67, STATUS_BAD]), [])"
  using parse_packet_unknown_signature [of "[0, 0, 0, 0, 0, 0, 0, 0]" "[97, 98]" "[5, 6, 7]"
      "\<lambda>_. -1" "\<lambda>_. 0" 0 "\<lambda>_. None" "[example_mod]" TAG_66] by simp

text \<open>
  C40. A key module that reports, in its second call, an encrypted key of more than 512 bytes
  (a decrypted one of more than 64) makes the daemon free the same block twice:
  \<open>key_mod_encrypt\<close> frees it and leaves the pointer, which \<open>parse_packet\<close> frees again.
\<close>

theorem parse_packet_oversized_key_double_free:
  assumes "length hdr = 8" "length sig < 8384" "length key < 8384" "0 \<notin> set sig"
    and "0 \<le> request_key sig" "read_key (request_key sig) = Some tok"
    and "ecryptfs_find_key_mod mods (tok_key_mod_alias tok) = Some (rc, Some km)"
    and "tag = TAG_64 \<and> op_decrypt (km_ops km) = Some op \<and> MAX_KEY_BYTES < sz
      \<or> tag = TAG_66 \<and> op_encrypt (km_ops km) = Some op \<and> MAX_ENCRYPTED_KEY_BYTES < sz"
    and "op None size0 key (tok_data tok) 0 = (0, n, x)" "n \<noteq> 0"
    and "op (Some (fresh junk n)) n key (tok_data tok) 0 = (0, sz, buf)"
  shows "parse_packet junk size0 request_key read_key mods (key_request hdr tag sig key) [] = None"
  using assms(5-11) parse_key_request [OF assms(1-4), of junk size0 request_key read_key mods tag]
  by (auto simp: packet_switch_def key_mod_decrypt_def key_mod_encrypt_def key_mod_crypt_def
      packet_failure_def write_failure_packet_def)

definition oversized_op :: crypt_op where
  "oversized_op to_buf to_size from_buf blob blob_type = (0, 600, case to_buf of None \<Rightarrow> [] | Some b \<Rightarrow> b)"

theorem parse_packet_oversized_key_double_free_witness:
  "parse_packet (\<lambda>_. 0) 0 (\<lambda>_. 3) (\<lambda>_. Some example_tok)
     [new_key_mod (Some ''m'') None ((ecryptfs_passphrase_ops ())\<lparr>op_encrypt := Some oversized_op\<rparr>)]
     (key_request [0, 0, 0, 0, 0, 0, 0, 0] TAG_66 [97, 98] [5, 6, 7]) [] = None"
  by (rule parse_packet_oversized_key_double_free [where n = 600 and sz = 600 and rc = 0
        and op = oversized_op and tok = example_tok and x = "[]" and buf = "fresh (\<lambda>_. 0) 600"
        and km = "new_key_mod (Some ''m'') None
          ((ecryptfs_passphrase_ops ())\<lparr>op_encrypt := Some oversized_op\<rparr>)"])
    (simp_all add: oversized_op_def example_defs)

text \<open>
  The built-in passphrase module is registered without the dummy operations: a tag 64 or
  tag 66 request for a token that names it makes the daemon call a null function pointer.
\<close>

theorem parse_packet_passphrase_null_call:
  assumes "length hdr = 8" "length sig < 8384" "length key < 8384" "0 \<notin> set sig"
    and "0 \<le> request_key sig" "read_key (request_key sig) = Some tok"
    and "tok_key_mod_alias tok = ''passphrase''" and "tag = TAG_64 \<or> tag = TAG_66"
    and "ecryptfs_register_key_modules dir (Some []) dlopen (builtin_get_key_mod_ops tn) [] []
         = Some (rc, mods, mem')"
  shows "parse_packet junk size0 request_key read_key mods (key_request hdr tag sig key) [] = None"
proof -
  have "mods = [new_key_mod (Some ''passphrase'') None (ecryptfs_passphrase_ops tn)]"
    using assms(9)
    by (simp add: ecryptfs_register_key_modules_def builtin_get_key_mod_ops_def
        ecryptfs_passphrase_ops_def ecryptfs_passphrase_init_def current_mods_def)
  then show ?thesis
    using assms(5-8) parse_key_request [OF assms(1-4), of junk size0 request_key read_key mods tag]
    by (auto simp: packet_switch_def key_mod_decrypt_def key_mod_encrypt_def key_mod_crypt_def
        new_key_mod_def ecryptfs_passphrase_ops_def)
qed

theorem parse_packet_passphrase_null_call_witness:
  "parse_packet (\<lambda>_. 0) 0 (\<lambda>_. 3) (\<lambda>_. Some (example_tok\<lparr>tok_key_mod_alias := ''passphrase''\<rparr>))
     [new_key_mod (Some ''passphrase'') None (ecryptfs_passphrase_ops ())]
     (key_request [0, 0, 0, 0, 0, 0, 0, 0] TAG_64 [97, 98] [5, 6, 7]) [] = None"
  by (rule parse_packet_passphrase_null_call
        [where rc = 0 and mem' = "[]" and tn = "()"
          and tok = "example_tok\<lparr>tok_key_mod_alias := ''passphrase''\<rparr>" and dir = "''d''" and dlopen = "\<lambda>_. No_Handle"])
    (simp_all add: ecryptfs_register_key_modules_def builtin_get_key_mod_ops_def
      ecryptfs_passphrase_ops_def ecryptfs_passphrase_init_def current_mods_def)

end
