(* ===== verification/Miscdev.thy ===== *)
theory Miscdev
  imports Packets
begin

text \<open>
  The message channel to the kernel and the daemon that serves it, from
  \<open>src/libecryptfs/miscdev.c\<close> and \<open>src/libecryptfs/messaging.c\<close>: framing of messages,
  reception, the dispatch on the channel's type, and the receive loop of
  \<open>ecryptfs_run_miscdev_daemon\<close> as a machine that takes one \<open>read\<close> result per step.
\<close>

abbreviation (input) MSG_HELO :: byte where "MSG_HELO \<equiv> 100"
abbreviation (input) MSG_QUIT :: byte where "MSG_QUIT \<equiv> 101"
abbreviation (input) MSG_REQUEST :: byte where "MSG_REQUEST \<equiv> 102"
abbreviation (input) MSG_RESPONSE :: byte where "MSG_RESPONSE \<equiv> 103"
abbreviation (input) MSG_MAX_SIZE :: nat where "MSG_MAX_SIZE \<equiv> 1024"
abbreviation (input) MSG_ERROR_COUNT_THRESHOLD :: int where "MSG_ERROR_COUNT_THRESHOLD \<equiv> 8"

subsection \<open>Sending and receiving\<close>

text \<open>The memory a message occupies: two host-order words and the data.\<close>

definition message_bytes :: "host \<Rightarrow> ecryptfs_message \<Rightarrow> byte list" where
  "message_bytes h m = store_word h 4 (msg_index m) @ store_word h 4 (msg_data_len m) @ msg_data m"

text \<open>
  \<open>ecryptfs_send_miscdev\<close>: the status and the buffer handed to \<open>write\<close>, if it gets that
  far; \<open>write_ok\<close> tells whether \<open>write\<close> returns something other than \<open>-1\<close>.
\<close>

definition ecryptfs_send_miscdev ::
  "host \<Rightarrow> (byte list \<Rightarrow> bool) \<Rightarrow> ecryptfs_message option \<Rightarrow> byte \<Rightarrow> u16 \<Rightarrow> u32 \<Rightarrow> schedule
   \<Rightarrow> (int \<times> byte list option \<times> schedule) option" where
  "ecryptfs_send_miscdev h write_ok msg msg_type msg_flags msg_seq mem =
     (let packet_len = (case msg of None \<Rightarrow> 0 | Some m \<Rightarrow> 8 + unat (msg_data_len m)) in
      case (case msg of None \<Rightarrow> Inr [] | Some m \<Rightarrow> ecryptfs_write_packet_length packet_len) of
        Inl rc \<Rightarrow> Some (rc, None, mem)
      | Inr packet_len_str \<Rightarrow>
          (case malloc_ok mem of
             (False, mem) \<Rightarrow> Some (- ENOMEM, None, mem)
           | (True, mem) \<Rightarrow> do {
               body \<leftarrow> (case msg of None \<Rightarrow> Some []
                        | Some m \<Rightarrow> rd_bytes (message_bytes h m) 0 packet_len);
               let buf = msg_type # store_word h 4 (ntoh h 4 msg_seq) @ packet_len_str @ body;
               Some (if write_ok buf then 0 else - EIO, Some buf, mem) }))"

text \<open>
  \<open>ecryptfs_recv_miscdev\<close>: given what \<open>read\<close> returns (\<^term>\<open>None\<close> for \<open>-1\<close>) and the previous
  values of \<open>*msg\<close>, \<open>*msg_seq\<close> and \<open>*msg_type\<close>, the status and the new values. The bytes of
  the receive buffer beyond those read are uninitialised.
\<close>

definition recv_frame ::
  "host \<Rightarrow> byte list \<Rightarrow> nat \<Rightarrow> heap_ptr \<Rightarrow> schedule
   \<Rightarrow> (int \<times> heap_ptr \<times> u32 \<times> byte \<times> schedule) option" where
  "recv_frame h buf read_bytes msg mem = do {
     msg_type \<leftarrow> rd_byte buf 0;
     be32 \<leftarrow> rd_bytes buf 1 4;
     let msg_seq = ntoh h 4 (load_word h be32);
     (rc, packet_len, packet_len_size) \<leftarrow>
       (if msg_type = MSG_REQUEST then ecryptfs_parse_packet_length (drop 5 buf)
        else Some (0, 0, 0));
     if rc \<noteq> 0 then Some (rc, msg, msg_seq, msg_type, mem)
     else if 1 + 4 + packet_len_size + packet_len \<noteq> read_bytes
     then Some (- EINVAL, msg, msg_seq, msg_type, mem)
     else (case malloc_ok mem of
       (False, mem) \<Rightarrow> Some (- ENOMEM, Null, msg_seq, msg_type, mem)
     | (True, mem) \<Rightarrow> do {
         body \<leftarrow> rd_bytes buf (5 + packet_len_size) packet_len;
         Some (0, Live body, msg_seq, msg_type, mem) }) }"

definition ecryptfs_recv_miscdev ::
  "host \<Rightarrow> (nat \<Rightarrow> byte) \<Rightarrow> byte list option \<Rightarrow> heap_ptr \<Rightarrow> u32 \<Rightarrow> byte \<Rightarrow> schedule
   \<Rightarrow> (int \<times> heap_ptr \<times> u32 \<times> byte \<times> schedule) option" where
  "ecryptfs_recv_miscdev h junk rd msg msg_seq msg_type mem =
     (case malloc_ok mem of
        (False, mem) \<Rightarrow> Some (- ENOMEM, msg, msg_seq, msg_type, mem)
      | (True, mem) \<Rightarrow>
          (case rd of
             None \<Rightarrow> Some (- EIO, msg, msg_seq, msg_type, mem)
           | Some bytes \<Rightarrow>
               let got = take MSG_MAX_SIZE bytes in
               if length got < 1 + 4 then Some (- EINVAL, msg, msg_seq, msg_type, mem)
               else recv_frame h (got @ fresh junk (MSG_MAX_SIZE - length got)) (length got) msg mem))"

subsection \<open>The daemon\<close>

text \<open>
  The variables of \<open>ecryptfs_run_miscdev_daemon\<close> that live across iterations, the allocation
  schedule, and the buffers written to the kernel so far.
\<close>

record daemon =
  d_emsg :: heap_ptr
  d_msg_seq :: u32
  d_msg_type :: byte
  d_error_count :: int
  d_mem :: schedule
  d_sent :: "byte list list"

datatype daemon_result = Running daemon | Exited int "byte list list"

text \<open>What the daemon gets from outside.\<close>

record 'tn daemon_env =
  e_host :: host
  e_junk :: "nat \<Rightarrow> byte"
  e_size0 :: nat
  e_request_key :: "byte list \<Rightarrow> int"
  e_read_key :: "int \<Rightarrow> auth_tok_view option"
  e_write_ok :: "byte list \<Rightarrow> bool"
  e_mods :: "'tn ecryptfs_key_mod list"

definition init_daemon :: "u32 \<Rightarrow> byte \<Rightarrow> schedule \<Rightarrow> daemon" where
  "init_daemon seq0 type0 mem = \<lparr>d_emsg = Null, d_msg_seq = seq0, d_msg_type = type0,
     d_error_count = 0, d_mem = mem, d_sent = []\<rparr>"

text \<open>\<open>free(emsg); goto receive;\<close> leaves the old pointer value in \<open>emsg\<close>.\<close>

definition free_emsg :: "daemon \<Rightarrow> daemon_result option" where
  "free_emsg d = do {
     free_ptr (d_emsg d);
     Some (Running (d\<lparr>d_emsg := (if d_emsg d = Null then Null else Dangling)\<rparr>)) }"

definition serve_request :: "'tn daemon_env \<Rightarrow> daemon \<Rightarrow> daemon_result option" where
  "serve_request env d = do {
     emsg \<leftarrow> live_bytes (d_emsg d);
     (rc, reply, mem) \<leftarrow> parse_packet (e_junk env) (e_size0 env) (e_request_key env)
        (e_read_key env) (e_mods env) emsg (d_mem d);
     if rc \<noteq> 0 then free_emsg (d\<lparr>d_mem := mem\<rparr>)
     else do {
       r \<leftarrow> reply;
       idx \<leftarrow> rd_bytes emsg 0 4;
       (rc, sent, mem) \<leftarrow> ecryptfs_send_miscdev (e_host env) (e_write_ok env)
          (Some (r\<lparr>msg_index := load_word (e_host env) idx\<rparr>)) MSG_RESPONSE 0 (d_msg_seq d) mem;
       free_emsg (d\<lparr>d_mem := mem, d_error_count := 0,
         d_sent := d_sent d @ (case sent of None \<Rightarrow> [] | Some b \<Rightarrow> [b])\<rparr>) } }"

definition daemon_step :: "'tn daemon_env \<Rightarrow> daemon \<Rightarrow> byte list option \<Rightarrow> daemon_result option" where
  "daemon_step env d rd = do {
     (rc, emsg, seq, typ, mem) \<leftarrow> ecryptfs_recv_miscdev (e_host env) (e_junk env) rd
        (d_emsg d) (d_msg_seq d) (d_msg_type d) (d_mem d);
     let d = d\<lparr>d_emsg := emsg, d_msg_seq := seq, d_msg_type := typ, d_mem := mem\<rparr>;
     if rc < 0 then
       let d = d\<lparr>d_error_count := d_error_count d + 1\<rparr> in
       if MSG_ERROR_COUNT_THRESHOLD < d_error_count d then Some (Exited (- EIO) (d_sent d))
       else free_emsg d
     else if typ = MSG_HELO then free_emsg (d\<lparr>d_error_count := 0\<rparr>)
     else if typ = MSG_QUIT then do {
       free_ptr (d_emsg d);
       Some (Exited 0 (d_sent d)) }
     else if typ = MSG_REQUEST then serve_request env d
     else free_emsg d }"

fun daemon_run :: "'tn daemon_env \<Rightarrow> daemon \<Rightarrow> byte list option list \<Rightarrow> daemon_result option" where
  "daemon_run env d [] = Some (Running d)"
| "daemon_run env d (rd # rds) =
     (case daemon_step env d rd of
        None \<Rightarrow> None
      | Some (Exited rc sent) \<Rightarrow> Some (Exited rc sent)
      | Some (Running d') \<Rightarrow> daemon_run env d' rds)"

definition ecryptfs_run_miscdev_daemon ::
  "(('tn ecryptfs_key_mod list) \<Rightarrow> 'tn daemon_env) \<Rightarrow> string \<Rightarrow> string list option
   \<Rightarrow> (string \<Rightarrow> 'tn lib) \<Rightarrow> 'tn ecryptfs_key_mod_ops option list \<Rightarrow> u32 \<Rightarrow> byte
   \<Rightarrow> schedule \<Rightarrow> byte list option list \<Rightarrow> daemon_result option" where
  "ecryptfs_run_miscdev_daemon mk_env dir entries dlopen builtins seq0 type0 mem rds = do {
     (rc, mods, mem) \<leftarrow> ecryptfs_register_key_modules dir entries dlopen builtins mem [];
     if rc \<noteq> 0 then do {
       ecryptfs_free_key_mod_list mods;
       Some (Exited rc []) }
     else do {
       r \<leftarrow> daemon_run (mk_env mods) (init_daemon seq0 type0 mem) rds;
       (case r of
          Running d \<Rightarrow> Some (Running d)
        | Exited rc sent \<Rightarrow> do {
            ecryptfs_free_key_mod_list mods;
            Some (Exited rc sent) }) } }"

subsection \<open>The channel\<close>

abbreviation (input) MESSAGING_TYPE_NETLINK :: u32 where "MESSAGING_TYPE_NETLINK \<equiv> 1"
abbreviation (input) MESSAGING_TYPE_MISCDEV :: u32 where "MESSAGING_TYPE_MISCDEV \<equiv> 2"

record messaging_ctx =
  mc_type :: u32
  mc_state :: u32
  mc_miscdev_fd :: int

text \<open>\<open>ecryptfs_init_miscdev\<close>: \<open>open\<close> of the two device paths.\<close>

definition ecryptfs_init_miscdev :: "(string \<Rightarrow> int) \<Rightarrow> int \<times> int" where
  "ecryptfs_init_miscdev open_dev =
     (let fd = open_dev ''/dev/ecryptfs'' in
      if fd \<noteq> -1 then (0, fd)
      else let fd = open_dev ''/dev/misc/ecryptfs'' in
        (if fd = -1 then - EIO else 0, fd))"

definition ecryptfs_init_messaging :: "(string \<Rightarrow> int) \<Rightarrow> u32 \<Rightarrow> int \<times> messaging_ctx" where
  "ecryptfs_init_messaging open_dev type =
     (if type = MESSAGING_TYPE_MISCDEV then
        case ecryptfs_init_miscdev open_dev of
          (rc, fd) \<Rightarrow> (rc, \<lparr>mc_type = type, mc_state = 0, mc_miscdev_fd = fd\<rparr>)
      else (- EINVAL, \<lparr>mc_type = 0, mc_state = 0, mc_miscdev_fd = 0\<rparr>))"

text \<open>\<open>ecryptfs_messaging_exit\<close>: the status and the descriptor that is closed.\<close>

definition ecryptfs_messaging_exit :: "messaging_ctx \<Rightarrow> int \<times> int option" where
  "ecryptfs_messaging_exit mctx =
     (if mc_type mctx = MESSAGING_TYPE_MISCDEV then (0, Some (mc_miscdev_fd mctx))
      else (- EINVAL, None))"

definition ecryptfs_send_message ::
  "host \<Rightarrow> (int \<Rightarrow> byte list \<Rightarrow> bool) \<Rightarrow> messaging_ctx \<Rightarrow> ecryptfs_message option \<Rightarrow> byte \<Rightarrow> u16
   \<Rightarrow> u32 \<Rightarrow> schedule \<Rightarrow> (int \<times> byte list option \<times> schedule) option" where
  "ecryptfs_send_message h write_ok mctx msg msg_type msg_flags msg_seq mem =
     (if mc_type mctx = MESSAGING_TYPE_MISCDEV
      then ecryptfs_send_miscdev h (write_ok (mc_miscdev_fd mctx)) msg msg_type msg_flags msg_seq mem
      else Some (- EINVAL, None, mem))"

definition ecryptfs_run_daemon ::
  "messaging_ctx \<Rightarrow> (int \<Rightarrow> daemon_result option) \<Rightarrow> daemon_result option" where
  "ecryptfs_run_daemon mctx run_miscdev =
     (if mc_type mctx = MESSAGING_TYPE_MISCDEV then run_miscdev (mc_miscdev_fd mctx)
      else Some (Exited (- EINVAL) []))"

subsection \<open>Framing\<close>

lemma width_u32: "256 ^ 4 = (2::nat) ^ LENGTH(32)"
  by simp

lemma length_message_bytes [simp]: "length (message_bytes h m) = 8 + length (msg_data m)"
  by (simp add: message_bytes_def)

lemma send_miscdev_message:
  assumes "unat (msg_data_len m) = length (msg_data m)"
    and "ecryptfs_write_packet_length (8 + length (msg_data m)) = Inr ls"
  shows "ecryptfs_send_miscdev h write_ok (Some m) t fl seq [] =
     (let buf = t # be_bytes 4 (unat seq) @ ls @ message_bytes h m in
      Some (if write_ok buf then 0 else - EIO, Some buf, []))"
  using assms
  by (simp add: ecryptfs_send_miscdev_def store_word_hton [OF width_u32] rd_bytes_def Let_def)

lemma recv_head:
  "rd_byte (t # be_bytes 4 (unat (seq :: u32)) @ xs) 0 = Some t"
  "rd_bytes (t # be_bytes 4 (unat seq) @ xs) 1 4 = Some (be_bytes 4 (unat seq))"
  "ntoh h 4 (load_word h (be_bytes 4 (unat seq))) = seq"
  using ntoh_load_word [OF width_u32, of "be_bytes 4 (unat seq)" h] unat_mod_width [OF width_u32, of seq]
  by (simp_all add: rd_byte_def rd_bytes_def be_nat_be_bytes)

lemma recv_frame_request:
  assumes "ecryptfs_write_packet_length (length body) = Inr ls" and "length body < 8384"
  shows "recv_frame h (MSG_REQUEST # be_bytes 4 (unat seq) @ ls @ body @ rest)
      (5 + length ls + length body) msg [] = Some (0, Live body, seq, MSG_REQUEST, [])"
proof -
  define pre where "pre = MSG_REQUEST # be_bytes 4 (unat seq)"
  define buf where "buf = pre @ ls @ body @ rest"
  have pre: "length pre = 5" by (simp add: pre_def)
  note f = packet_length.dec_field [OF assms(2,1), of pre rest, folded buf_def, unfolded pre]
  have e: "MSG_REQUEST # be_bytes 4 (unat seq) @ ls @ body @ rest = buf"
    by (simp add: buf_def pre_def)
  show ?thesis
    unfolding recv_frame_def using f recv_head(1,2) [of MSG_REQUEST seq "ls @ body @ rest"] recv_head(3) [of h seq] unfolding e by simp
qed

lemma recv_request:
  assumes "ecryptfs_write_packet_length (length body) = Inr ls"
    and "5 + length ls + length body \<le> MSG_MAX_SIZE"
  shows "ecryptfs_recv_miscdev h junk (Some (MSG_REQUEST # be_bytes 4 (unat seq) @ ls @ body))
      msg s0 t0 [] = Some (0, Live body, seq, MSG_REQUEST, [])"
proof -
  have "length body < 8384" using assms(2) by simp
  from recv_frame_request [OF assms(1) this] assms(2) show ?thesis
    by (simp add: ecryptfs_recv_miscdev_def Let_def take_Cons' add.assoc)
qed

text \<open>
  The receive buffer's uninitialised part never decides the outcome: a message whose size
  field was not read completely has the wrong length whatever the rest of the buffer holds.
\<close>

lemma rd_bytes_within: "i + n \<le> length xs \<Longrightarrow> rd_bytes (xs @ J) i n = rd_bytes xs i n"
  by (simp add: rd_bytes_def)

lemma parse_long_enough:
  "2 \<le> length g \<Longrightarrow> ecryptfs_parse_packet_length (g @ J) = ecryptfs_parse_packet_length (g @ J')"
  by (cases g; cases "tl g") (auto simp: parse_packet_length_Cons)

lemma parse_defined: "2 \<le> length data \<Longrightarrow> \<exists>rc n k. ecryptfs_parse_packet_length data = Some (rc, n, k)"
  by (cases data; cases "tl data") (auto simp: parse_packet_length_Cons)

lemma parse_rc: "ecryptfs_parse_packet_length data = Some (rc, n, k) \<Longrightarrow> rc = 0 \<or> rc = - EINVAL"
  by (cases data) (auto simp: parse_packet_length_Cons ecryptfs_parse_packet_length_def rd_byte_def
      split: if_splits list.splits)

lemma parse_match:
  assumes "ecryptfs_parse_packet_length (g @ J) = Some (0, n, k)" and "k + n = length g"
  shows "ecryptfs_parse_packet_length (g @ J') = Some (0, n, k)"
proof (cases "2 \<le> length g")
  case True
  with assms(1) show ?thesis using parse_long_enough by metis
next
  case False
  with parse_packet_length_bounds [OF assms(1)] assms(2) have "k = 1" "n < 192" "length g = 1"
    by auto
  then obtain b where "g = [b]" by (cases g) auto
  with assms(1) \<open>k = 1\<close> show ?thesis
    by (auto simp: parse_packet_length_Cons split: if_splits list.splits)
qed

lemma recv_frame_junk:
  assumes "5 \<le> length got" and "7 \<le> length (got @ J)" and "7 \<le> length (got @ J')"
  shows "recv_frame h (got @ J) (length got) msg mem = recv_frame h (got @ J') (length got) msg mem"
proof -
  have h1: "rd_byte (got @ X) 0 = rd_byte got 0" "rd_bytes (got @ X) 1 4 = rd_bytes got 1 4" for X
    using assms(1) by (auto simp: rd_byte_def nth_append rd_bytes_def)
  have d: "drop 5 (got @ X) = drop 5 got @ X" for X using assms(1) by simp
  obtain t w where tw: "rd_byte got 0 = Some t" "rd_bytes got 1 4 = Some w"
    using assms(1) by (intro that) (auto simp: rd_byte_def rd_bytes_def)
  show ?thesis
  proof (cases "t = MSG_REQUEST")
    case False
    moreover have "rd_bytes (got @ X) 5 0 = Some []" for X using assms(1) by (simp add: rd_bytes_def)
    ultimately show ?thesis using h1 tw
      by (simp add: recv_frame_def Let_def split: prod.split bool.split)
  next
    case True
    have l: "2 \<le> length (drop 5 got @ J)" "2 \<le> length (drop 5 got @ J')"
      using assms by simp_all
    obtain rc n k where p: "ecryptfs_parse_packet_length (drop 5 got @ J) = Some (rc, n, k)"
      using parse_defined [OF l(1)] by blast
    obtain rc' n' k' where p': "ecryptfs_parse_packet_length (drop 5 got @ J') = Some (rc', n', k')"
      using parse_defined [OF l(2)] by blast
    show ?thesis
    proof (cases "rc = 0 \<and> 5 + k + n = length got")
      case m: True
      with p p' parse_match [of "drop 5 got" J n k J'] have "rc' = 0" "n' = n" "k' = k" by auto
      moreover have "rd_bytes (got @ X) (5 + k) n = rd_bytes got (5 + k) n" for X
        using m by (intro rd_bytes_within) simp
      ultimately show ?thesis
        using m p p' h1 d tw True
        by (simp add: recv_frame_def Let_def split: prod.split bool.split)
    next
      case m: False
      have m': "\<not> (rc' = 0 \<and> 5 + k' + n' = length got)"
      proof
        assume a: "rc' = 0 \<and> 5 + k' + n' = length got"
        then have "k' + n' = length (drop 5 got)" by auto
        moreover from a p'
        have "ecryptfs_parse_packet_length (drop 5 got @ J') = Some (0, n', k')" by simp
        ultimately have "ecryptfs_parse_packet_length (drop 5 got @ J) = Some (0, n', k')"
          by (rule parse_match [rotated])
        with a p m show False by simp
      qed
      show ?thesis
        using m m' p p' h1 d tw True parse_rc [OF p] parse_rc [OF p'] by (auto simp: recv_frame_def)
    qed
  qed
qed

subsection \<open>Invariant of the daemon\<close>

text \<open>
  Reachable states of the loop: the start, and whatever a step that keeps running leads to.
\<close>

inductive daemon_reachable :: "'tn daemon_env \<Rightarrow> daemon \<Rightarrow> bool" for env :: "'tn daemon_env" where
  start: "daemon_reachable env (init_daemon s t mem)"
| step: "daemon_reachable env d \<Longrightarrow> daemon_step env d rd = Some (Running d') \<Longrightarrow> daemon_reachable env d'"

definition daemon_inv :: "daemon \<Rightarrow> bool" where
  "daemon_inv d \<longleftrightarrow> 0 \<le> d_error_count d \<and> d_error_count d \<le> MSG_ERROR_COUNT_THRESHOLD
     \<and> (d_emsg d = Null \<or> d_emsg d = Dangling)"

lemma free_emsg_Running:
  "free_emsg d = Some (Running d') \<Longrightarrow>
   d_error_count d' = d_error_count d \<and> (d_emsg d' = Null \<or> d_emsg d' = Dangling)
   \<and> d_emsg d \<noteq> Dangling"
  by (cases "d_emsg d") (auto simp: free_emsg_def)

lemma free_emsg_not_Exited: "free_emsg d \<noteq> Some (Exited rc sent)"
  by (cases "d_emsg d") (auto simp: free_emsg_def)

lemma serve_request_Running:
  "serve_request env d = Some (Running d') \<Longrightarrow>
   (d_error_count d' = d_error_count d \<or> d_error_count d' = 0)
   \<and> (d_emsg d' = Null \<or> d_emsg d' = Dangling)"
  by (auto simp: serve_request_def split: bind_splits if_splits dest!: free_emsg_Running)

lemma daemon_step_inv:
  assumes "daemon_step env d rd = Some (Running d')" and "daemon_inv d"
  shows "daemon_inv d'"
proof -
  obtain rc emsg seq ty mem where r: "ecryptfs_recv_miscdev (e_host env) (e_junk env) rd
      (d_emsg d) (d_msg_seq d) (d_msg_type d) (d_mem d) = Some (rc, emsg, seq, ty, mem)"
    using assms(1) by (auto simp: daemon_step_def split: bind_splits)
  let ?d = "d\<lparr>d_emsg := emsg, d_msg_seq := seq, d_msg_type := ty, d_mem := mem\<rparr>"
  consider (err) "rc < 0" "\<not> MSG_ERROR_COUNT_THRESHOLD < d_error_count d + 1"
      "free_emsg (?d\<lparr>d_error_count := d_error_count d + 1\<rparr>) = Some (Running d')"
    | (helo) "free_emsg (?d\<lparr>d_error_count := 0\<rparr>) = Some (Running d')"
    | (request) "serve_request env ?d = Some (Running d')"
    | (other) "free_emsg ?d = Some (Running d')"
    using assms(1) r by (auto simp: daemon_step_def Let_def split: if_splits bind_splits)
  then show ?thesis
  proof cases
    case err
    with assms(2) show ?thesis by (auto simp: daemon_inv_def dest!: free_emsg_Running)
  next
    case helo
    then show ?thesis by (auto simp: daemon_inv_def dest!: free_emsg_Running)
  next
    case request
    with assms(2) show ?thesis by (auto simp: daemon_inv_def dest!: serve_request_Running)
  next
    case other
    with assms(2) show ?thesis by (auto simp: daemon_inv_def dest!: free_emsg_Running)
  qed
qed

lemma daemon_reachable_inv: "daemon_reachable env d \<Longrightarrow> daemon_inv d"
proof (induction rule: daemon_reachable.induct)
  case start
  show ?case by (simp add: daemon_inv_def init_daemon_def)
next
  case step
  then show ?case by (blast intro: daemon_step_inv)
qed

lemma daemon_step_read_error:
  "d_mem d = [] \<Longrightarrow> daemon_step env d None =
     (if MSG_ERROR_COUNT_THRESHOLD < d_error_count d + 1 then Some (Exited (- EIO) (d_sent d))
      else free_emsg (d\<lparr>d_error_count := d_error_count d + 1\<rparr>))"
  by (cases d) (simp add: daemon_step_def ecryptfs_recv_miscdev_def Let_def)

lemma daemon_run_read_errors:
  "n \<le> 8 \<Longrightarrow> d_mem d = [] \<Longrightarrow> d_emsg d = Null \<Longrightarrow> d_error_count d = 8 - int n \<Longrightarrow>
   daemon_run env d (replicate (Suc n) None @ rds) = Some (Exited (- EIO) (d_sent d))"
proof (induction n arbitrary: d)
  case 0
  then show ?case by (simp add: daemon_step_read_error)
next
  case (Suc n)
  let ?d = "d\<lparr>d_error_count := d_error_count d + 1\<rparr>"
  have "daemon_step env d None = Some (Running ?d)"
    using Suc.prems by (simp add: daemon_step_read_error free_emsg_def)
  moreover have "daemon_run env ?d (replicate (Suc n) None @ rds) = Some (Exited (- EIO) (d_sent ?d))"
    using Suc.prems by (intro Suc.IH) auto
  ultimately show ?case by simp
qed

subsection \<open>Properties\<close>

text \<open>
  Frames that are no request carry no message, and requests carry one.
\<close>

lemma recv_other:
  assumes "t \<noteq> MSG_REQUEST" "5 + length xs \<le> MSG_MAX_SIZE"
  shows "ecryptfs_recv_miscdev h junk (Some (t # be_bytes 4 (unat seq) @ xs)) msg s0 t0 []
     = Some (if xs = [] then (0, Live [], seq, t, []) else (- EINVAL, msg, seq, t, []))"
proof -
  have "recv_frame h (t # be_bytes 4 (unat seq) @ ys) (5 + length xs) msg []
     = Some (if xs = [] then (0, Live [], seq, t, []) else (- EINVAL, msg, seq, t, []))" for ys
    unfolding recv_frame_def recv_head using assms(1) recv_head(3) [of h seq] by (simp add: rd_bytes_def)
  from this [of "xs @ fresh junk (MSG_MAX_SIZE - (5 + length xs))"] show ?thesis
    using assms(2) by (simp add: ecryptfs_recv_miscdev_def Let_def take_Cons')
qed

lemma recv_empty_request:
  "ecryptfs_recv_miscdev h junk (Some (MSG_REQUEST # be_bytes 4 (unat seq))) msg s0 t0 [] = Some (- EINVAL, msg, seq, MSG_REQUEST, [])"
proof -
  let ?r = "fresh junk (MSG_MAX_SIZE - 5)"
  obtain rc n k where p: "ecryptfs_parse_packet_length ?r = Some (rc, n, k)" using parse_defined [of ?r] by (auto simp: fresh_def)
  have "k \<noteq> 0" if "rc = 0" using p that by (auto simp: ecryptfs_parse_packet_length_def bind_eq_Some_conv split: if_splits)
  then have "recv_frame h (MSG_REQUEST # be_bytes 4 (unat seq) @ ?r) 5 msg [] = Some (- EINVAL, msg, seq, MSG_REQUEST, [])"
    unfolding recv_frame_def recv_head using p parse_rc [OF p] recv_head(3) [of h seq] by (auto simp: Let_def)
  then show ?thesis by (simp add: ecryptfs_recv_miscdev_def Let_def take_Cons')
qed

text \<open>
  C14. What is sent over the device and what the receiver makes of it, for every type, on hosts
  of either byte order. A request with a message of up to 1009 bytes of data is received as it
  was sent: status 0, its type and sequence number, and the bytes of the message; so is a frame of
  another type without a message. A message in a frame of another type, such as a reply, and a
  request without one are refused with \<open>-EINVAL\<close>.
\<close>

theorem send_recv_roundtrip:
  assumes "\<And>m. msg = Some m \<Longrightarrow> unat (msg_data_len m) = length (msg_data m) \<and> length (msg_data m) \<le> 1009"
  shows "\<exists>buf. ecryptfs_send_miscdev h (\<lambda>_. True) msg t fl seq [] = Some (0, Some buf, [])
      \<and> ecryptfs_recv_miscdev h junk (Some buf) old s0 t0 [] =
        Some (if (msg \<noteq> None) = (t = MSG_REQUEST)
              then (0, Live (case msg of None \<Rightarrow> [] | Some m \<Rightarrow> message_bytes h m), seq, t, [])
              else (- EINVAL, old, seq, t, []))"
proof (cases msg)
  case None
  have "ecryptfs_send_miscdev h (\<lambda>_. True) None t fl seq [] = Some (0, Some (t # be_bytes 4 (unat seq)), [])"
    by (simp add: ecryptfs_send_miscdev_def store_word_hton [OF width_u32] Let_def)
  then show ?thesis
    using None recv_other [of t "[]" h junk seq old s0 t0] recv_empty_request [of h junk seq old s0 t0] by (cases "t = MSG_REQUEST") auto
next
  case (Some m)
  obtain ls where ls: "ecryptfs_write_packet_length (8 + length (msg_data m)) = Inr ls"
    using packet_length.enc_total [of "8 + length (msg_data m)"] assms [OF Some] by auto
  have l: "length ls \<le> 2" "ls \<noteq> []"
    using ls by (auto simp: ecryptfs_write_packet_length_def split: if_splits)
  note send = send_miscdev_message [OF conjunct1 [OF assms [OF Some]] ls, of h "\<lambda>_. True"]
  show ?thesis
  proof (cases "t = MSG_REQUEST")
    case True
    then show ?thesis using send recv_request [of "message_bytes h m" ls h junk seq] Some ls l assms [OF Some] by simp
  next
    case False
    then show ?thesis
      using send recv_other [OF False, of "ls @ message_bytes h m" h junk seq old s0 t0] Some l assms [OF Some] by simp
  qed
qed

lemma message_bytes_example:
  "message_bytes Little_Endian \<lparr>msg_index = 5, msg_data_len = 2, msg_data = [7, 9]\<rparr>
   = [5, 0, 0, 0, 2, 0, 0, 0, 7, 9]"
  by code_simp

theorem send_recv_roundtrip_witness:
  "\<exists>buf. ecryptfs_send_miscdev Little_Endian (\<lambda>_. True)
        (Some \<lparr>msg_index = 5, msg_data_len = 2, msg_data = [7, 9]\<rparr>) MSG_REQUEST 0 77 [] = Some (0, Some buf, [])
      \<and> ecryptfs_recv_miscdev Little_Endian (\<lambda>_. 0) (Some buf) Null 0 0 []
        = Some (0, Live [5, 0, 0, 0, 2, 0, 0, 0, 7, 9], 77, MSG_REQUEST, [])"
  using send_recv_roundtrip [of "Some \<lparr>msg_index = 5, msg_data_len = 2, msg_data = [7, 9]\<rparr>"
      Little_Endian MSG_REQUEST 0 77 "\<lambda>_. 0" Null 0 0]
  by (simp add: message_bytes_example)

text \<open>
  What the receiver returns does not depend on the uninitialised bytes of its buffer,
  even when the kernel hands over fewer bytes than the size field needs.
\<close>

theorem recv_miscdev_ignores_uninitialised:
  "ecryptfs_recv_miscdev h junk rd msg s t mem = ecryptfs_recv_miscdev h junk' rd msg s t mem"
proof (cases rd)
  case (Some bytes)
  define got where "got = take MSG_MAX_SIZE bytes"
  have "length got \<le> MSG_MAX_SIZE" by (simp add: got_def)
  then have "recv_frame h (got @ fresh junk (MSG_MAX_SIZE - length got)) (length got) msg mem'
      = recv_frame h (got @ fresh junk' (MSG_MAX_SIZE - length got)) (length got) msg mem'"
    if "5 \<le> length got" for mem'
    using that by (intro recv_frame_junk) auto
  then show ?thesis
    by (auto simp: ecryptfs_recv_miscdev_def Some Let_def got_def [symmetric]
        split: prod.splits bool.splits)
qed (simp add: ecryptfs_recv_miscdev_def split: prod.split bool.split)

text \<open>
  C25. In every state the daemon's loop reaches, the error count is between 0 and the
  threshold of 8, and the message pointer it carries into the next iteration is either null
  or stale: no message stays allocated across iterations.
\<close>

theorem daemon_reachable_bounded:
  assumes "daemon_reachable env d"
  shows "0 \<le> d_error_count d \<and> d_error_count d \<le> MSG_ERROR_COUNT_THRESHOLD
    \<and> (d_emsg d = Null \<or> d_emsg d = Dangling)"
  using daemon_reachable_inv [OF assms] by (simp add: daemon_inv_def)

definition example_env :: "unit daemon_env" where
  "example_env = \<lparr>e_host = Little_Endian, e_junk = (\<lambda>_. 0), e_size0 = 0, e_request_key = (\<lambda>_. -1),
     e_read_key = (\<lambda>_. None), e_write_ok = (\<lambda>_. True), e_mods = []\<rparr>"

lemma error_step:
  "daemon_step example_env (init_daemon 0 0 []) None = Some (Running ((init_daemon 0 0 [])\<lparr>d_error_count := 1\<rparr>))"
  by code_simp

theorem daemon_reachable_bounded_witness:
  "\<exists>d. daemon_step example_env (init_daemon 0 0 []) None = Some (Running d) \<and> d_error_count d = 1
    \<and> d_error_count d \<le> MSG_ERROR_COUNT_THRESHOLD \<and> (d_emsg d = Null \<or> d_emsg d = Dangling)"
  using daemon_reachable_bounded [OF daemon_reachable.step [OF daemon_reachable.start error_step]] error_step
  by (auto simp: init_daemon_def)

lemma helo_step:
  "daemon_step example_env (init_daemon 0 0 []) (Some [MSG_HELO, 0, 0, 0, 0])
   = Some (Running ((init_daemon 0 MSG_HELO [])\<lparr>d_emsg := Dangling\<rparr>))"
  by code_simp

text \<open>
  Nine receive errors in a row at the start end the daemon with \<open>-EIO\<close>; whatever would
  have come afterwards is not looked at, and nothing was sent.
\<close>

theorem daemon_exits_after_nine_errors:
  "daemon_run env (init_daemon s t []) (replicate 9 None @ rds) = Some (Exited (- EIO) [])"
  using daemon_run_read_errors [of 8 "init_daemon s t []" env rds]
  by (simp add: init_daemon_def)

text \<open>
  A receive error after a message has been handled frees that message a second time:
  the loop keeps the pointer it freed, and the error path frees it again, unless the error
  count ends the daemon first.
\<close>

theorem daemon_read_error_double_free:
  assumes "daemon_reachable env d" and "d_emsg d = Dangling" and "d_mem d = []"
    and "d_error_count d < MSG_ERROR_COUNT_THRESHOLD"
  shows "daemon_step env d None = None"
  using assms by (simp add: daemon_step_read_error free_emsg_def)

theorem daemon_read_error_double_free_witness:
  "daemon_step example_env ((init_daemon 0 MSG_HELO [])\<lparr>d_emsg := Dangling\<rparr>) None = None"
  using daemon_read_error_double_free [OF daemon_reachable.step [OF daemon_reachable.start helo_step]]
  by (simp add: init_daemon_def)

end
