(* ===== verification/Nv_List.thy ===== *)
theory Nv_List
  imports Prelude
begin

text \<open>
  Lists of name/value pairs, from \<open>src/libecryptfs/cmd_ln_parser.c\<close>: the parser of option
  strings (\<open>name=val,key=PKI:name1=val1,\<dots>\<close>), the reader of the \<open>.ecryptfsrc\<close> file, and the
  union of two lists; with \<open>ecryptfs_read_salt_hex_from_rc\<close> of
  \<open>src/libecryptfs/key_management.c\<close>.

  A list is the sequence of its nodes after the head. A child pointer is the position of the
  child in the same list.
\<close>

abbreviation (input) MAX_TOK_LEN :: nat where "MAX_TOK_LEN \<equiv> 128"
abbreviation (input) MAX_FILE_SIZE :: nat where "MAX_FILE_SIZE \<equiv> 0xa000"
abbreviation (input) NV_MAX_CHILDREN :: nat where "NV_MAX_CHILDREN \<equiv> 16"

subsection \<open>Nodes\<close>

record ecryptfs_name_val_pair =
  nv_flags :: u32
  nv_name :: heap_ptr
  nv_value :: heap_ptr
  nv_children :: "nat option list"

type_synonym nv_list = "ecryptfs_name_val_pair list"

definition zero_nv :: ecryptfs_name_val_pair where
  "zero_nv = \<lparr>nv_flags = 0, nv_name = Null, nv_value = Null,
     nv_children = replicate NV_MAX_CHILDREN None\<rparr>"

text \<open>
  \<open>asprintf(&dst, "%s", p)\<close>: the text, or \<^term>\<open>None\<close> when the allocation fails. The C
  library prints a null pointer as \<open>(null)\<close>.
\<close>

definition asprintf_s :: "heap_ptr \<Rightarrow> schedule \<Rightarrow> (byte list option \<times> schedule) option" where
  "asprintf_s p mem =
     (case p of
        Dangling \<Rightarrow> None
      | Null \<Rightarrow> (case malloc_ok mem of
          (ok, mem) \<Rightarrow> Some (if ok then Some (bytes_of_string ''(null)'') else None, mem))
      | Live s \<Rightarrow> (case malloc_ok mem of
          (ok, mem) \<Rightarrow> Some (if ok then Some s else None, mem)))"

definition copy_nv_pair ::
  "ecryptfs_name_val_pair \<Rightarrow> ecryptfs_name_val_pair \<Rightarrow> schedule
   \<Rightarrow> (int \<times> ecryptfs_name_val_pair \<times> schedule) option" where
  "copy_nv_pair dst src mem = do {
     let dst = dst\<lparr>nv_flags := nv_flags src\<rparr>;
     (name, mem) \<leftarrow> asprintf_s (nv_name src) mem;
     (case name of
        None \<Rightarrow> Some (- ENOMEM, dst\<lparr>nv_name := Dangling\<rparr>, mem)
      | Some name \<Rightarrow> do {
          let dst = dst\<lparr>nv_name := Live name\<rparr>;
          (val, mem) \<leftarrow> asprintf_s (nv_value src) mem;
          (case val of
             None \<Rightarrow> Some (- ENOMEM, dst\<lparr>nv_value := Dangling\<rparr>, mem)
           | Some val \<Rightarrow> Some (0, dst\<lparr>nv_value := Live val\<rparr>, mem)) }) }"

subsection \<open>Union of two lists\<close>

text \<open>The loop over \<open>allowed_duplicates\<close>: whether the name occurs.\<close>

fun dup_allowed :: "byte list \<Rightarrow> nv_list \<Rightarrow> bool option" where
  "dup_allowed name [] = Some False"
| "dup_allowed name (a # as) =
     (case nv_name a of
        Live n \<Rightarrow> if name = n then Some True else dup_allowed name as
      | _ \<Rightarrow> None)"

text \<open>The loop over \<open>dst\<close>: status, \<open>found_match\<close> and the changed list.\<close>

fun set_matches ::
  "byte list \<Rightarrow> heap_ptr \<Rightarrow> nv_list \<Rightarrow> schedule \<Rightarrow> (int \<times> bool \<times> nv_list \<times> schedule) option" where
  "set_matches name val [] mem = Some (0, False, [], mem)"
| "set_matches name val (d # ds) mem =
     (case nv_name d of
        Dangling \<Rightarrow> None
      | Null \<Rightarrow> do {
          (rc, found, ds, mem) \<leftarrow> set_matches name val ds mem;
          Some (rc, found, d # ds, mem) }
      | Live n \<Rightarrow>
          if name = n then do {
            free_ptr (nv_value d);
            (t, mem) \<leftarrow> asprintf_s val mem;
            (case t of
               None \<Rightarrow> Some (- ENOMEM, True, d\<lparr>nv_value := Dangling\<rparr> # ds, mem)
             | Some t \<Rightarrow> do {
                 (rc, found, ds, mem) \<leftarrow> set_matches name val ds mem;
                 Some (rc, True, d\<lparr>nv_value := Live t\<rparr> # ds, mem) }) }
          else do {
            (rc, found, ds, mem) \<leftarrow> set_matches name val ds mem;
            Some (rc, found, d # ds, mem) })"

text \<open>
  The loop over \<open>src_cursor->children\<close>. \<open>i\<close> is the slot, \<open>pos\<close> the position of the new node,
  \<open>src_tmp\<close> the position reached in \<open>src\<close>. The status of \<open>copy_nv_pair\<close> is not looked at.
\<close>

fun copy_children ::
  "nv_list \<Rightarrow> nat option list \<Rightarrow> nat \<Rightarrow> nat \<Rightarrow> nat \<Rightarrow> nv_list \<Rightarrow> schedule
   \<Rightarrow> (int \<times> nat \<times> nv_list \<times> schedule) option" where
  "copy_children src [] i pos src_tmp dst mem = Some (0, src_tmp, dst, mem)"
| "copy_children src (None # cs) i pos src_tmp dst mem =
     copy_children src cs (Suc i) pos src_tmp dst mem"
| "copy_children src (Some c # cs) i pos src_tmp dst mem =
     (case malloc_ok mem of
        (False, mem) \<Rightarrow> Some (- ENOMEM, src_tmp, dst, mem)
      | (True, mem) \<Rightarrow>
          if length src \<le> c then None
          else do {
            (_, node, mem) \<leftarrow> copy_nv_pair zero_nv (src ! c) mem;
            let new = dst ! pos;
            let new = new\<lparr>nv_children := (nv_children new)[i := Some (length dst)]\<rparr>;
            let dst = dst[pos := new] @ [node];
            if Suc src_tmp \<noteq> c then Some (- EINVAL, src_tmp, dst, mem)
            else copy_children src cs (Suc i) pos (Suc src_tmp) dst mem })"

text \<open>The insertion: a new node at the end of \<open>dst\<close>. A failed \<open>malloc\<close> is written through.\<close>

definition union_insert ::
  "nv_list \<Rightarrow> nat \<Rightarrow> nv_list \<Rightarrow> schedule \<Rightarrow> (int \<times> nat \<times> nv_list \<times> schedule) option" where
  "union_insert src i dst mem =
     (case malloc_ok mem of
        (False, mem) \<Rightarrow> None
      | (True, mem) \<Rightarrow> do {
          (rc, node, mem) \<leftarrow> copy_nv_pair zero_nv (src ! i) mem;
          if rc \<noteq> 0 then Some (rc, i, dst @ [node], mem)
          else copy_children src (nv_children (src ! i)) 0 (length dst) i (dst @ [node]) mem })"

text \<open>One round of the outer loop: status, position reached in \<open>src\<close>, and \<open>dst\<close>.\<close>

definition union_step ::
  "nv_list \<Rightarrow> nv_list \<Rightarrow> nat \<Rightarrow> nv_list \<Rightarrow> schedule \<Rightarrow> (int \<times> nat \<times> nv_list \<times> schedule) option" where
  "union_step src allowed_duplicates i dst mem =
     (case nv_name (src ! i) of
        Dangling \<Rightarrow> None
      | Null \<Rightarrow> Some (0, i, dst, mem)
      | Live name \<Rightarrow> do {
          dup \<leftarrow> dup_allowed name allowed_duplicates;
          if dup then union_insert src i dst mem
          else do {
            (rc, found, dst, mem) \<leftarrow> set_matches name (nv_value (src ! i)) dst mem;
            if rc \<noteq> 0 then Some (rc, i, dst, mem)
            else if found then Some (0, i, dst, mem)
            else union_insert src i dst mem } })"

lemma copy_children_pos:
  "copy_children src cs i pos j dst mem = Some (rc, j', dst', mem') \<Longrightarrow> j \<le> j'"
proof (induction src cs i pos j dst mem rule: copy_children.induct)
  case (3 src c cs i pos j dst mem)
  then show ?case
    by (auto simp: Let_def bind_eq_Some_conv split: prod.splits bool.splits if_splits) fastforce
qed auto

lemma union_step_pos:
  "union_step src ad i dst mem = Some (rc, j, dst', mem') \<Longrightarrow> i \<le> j"
  by (auto simp: union_step_def union_insert_def bind_eq_Some_conv
      split: heap_ptr.splits prod.splits bool.splits if_splits dest: copy_children_pos)

function union_loop ::
  "nv_list \<Rightarrow> nv_list \<Rightarrow> nat \<Rightarrow> nv_list \<Rightarrow> schedule \<Rightarrow> (int \<times> nv_list \<times> schedule) option" where
  "union_loop src ad i dst mem =
     (if length src \<le> i then Some (0, dst, mem)
      else case union_step src ad i dst mem of
        None \<Rightarrow> None
      | Some (rc, j, dst, mem) \<Rightarrow>
          if rc \<noteq> 0 then Some (rc, dst, mem) else union_loop src ad (Suc j) dst mem)"
  by pat_completeness auto
termination
  by (relation "measure (\<lambda>(src, ad, i, dst, mem). length src - i)")
    (auto dest: union_step_pos)

declare union_loop.simps [simp del]

definition ecryptfs_nvp_list_union ::
  "nv_list \<Rightarrow> nv_list \<Rightarrow> nv_list \<Rightarrow> schedule \<Rightarrow> (int \<times> nv_list \<times> schedule) option" where
  "ecryptfs_nvp_list_union dst src allowed_duplicates mem =
     union_loop src allowed_duplicates 0 dst mem"

text \<open>\<open>free_name_val_pairs\<close> of \<open>decision_graph.c\<close>.\<close>

fun free_name_val_pairs :: "nv_list \<Rightarrow> int option" where
  "free_name_val_pairs [] = Some 0"
| "free_name_val_pairs (p # ps) = do {
     free_ptr (nv_value p);
     free_ptr (nv_name p);
     free_name_val_pairs ps }"

subsection \<open>Tokens\<close>

text \<open>
  The state of the parser: the nodes up to \<open>*current\<close>, and what \<open>(*current)->next\<close> points to.
\<close>

type_synonym nv_cursor = "nv_list \<times> nv_list"

text \<open>
  The scan for \<open>=\<close>: every one allocates a new \<open>name\<close>, and the last decides. \<open>Inl\<close> is an
  error, \<open>Inr\<close> the position of the last \<open>=\<close>.
\<close>

fun scan_eq :: "nat \<Rightarrow> byte list \<Rightarrow> nat option \<Rightarrow> schedule \<Rightarrow> (int + nat option) \<times> schedule" where
  "scan_eq i [] j mem = (Inr j, mem)"
| "scan_eq i (b # bs) j mem =
     (if b = 61 then
        (case malloc_ok mem of
           (False, mem) \<Rightarrow> (Inl (- ENOMEM), mem)
         | (True, mem) \<Rightarrow> scan_eq (Suc i) bs (Some i) mem)
      else scan_eq (Suc i) bs j mem)"

text \<open>
  The name and the value of a token of \<open>st_len\<close> bytes; \<open>sub_token\<close> is the array of 128 bytes
  that \<open>snprintf\<close> filled.
\<close>

definition split_nv ::
  "byte list \<Rightarrow> nat \<Rightarrow> schedule \<Rightarrow> ((int + byte list \<times> heap_ptr) \<times> schedule) option" where
  "split_nv sub_token st_len mem =
     (case scan_eq 0 (take st_len sub_token) None mem of
        (Inl rc, mem) \<Rightarrow> Some (Inl rc, mem)
      | (Inr None, mem) \<Rightarrow>
          (case malloc_ok mem of
             (False, mem) \<Rightarrow> Some (Inl (- ENOMEM), mem)
           | (True, mem) \<Rightarrow> do {
               n \<leftarrow> rd_bytes sub_token 0 st_len;
               name \<leftarrow> c_string (n @ [0]);
               Some (Inr (name, Null), mem) })
      | (Inr (Some j), mem) \<Rightarrow> do {
          n \<leftarrow> rd_bytes sub_token 0 j;
          name \<leftarrow> c_string (n @ [0]);
          if 1 < st_len - j then
            (case malloc_ok mem of
               (False, mem) \<Rightarrow> Some (Inl (- ENOMEM), mem)
             | (True, mem) \<Rightarrow> do {
                 v \<leftarrow> rd_bytes sub_token (j + 1) (st_len - j);
                 val \<leftarrow> c_string (v @ [0]);
                 Some (Inr (name, Live val), mem) })
          else Some (Inr (name, Null), mem) })"

definition process_nv_pair ::
  "nv_cursor \<Rightarrow> byte list \<Rightarrow> byte list \<Rightarrow> schedule \<Rightarrow> (int \<times> nv_cursor \<times> schedule) option" where
  "process_nv_pair cur tok prefix mem = do {
     let text = prefix @ tok;
     let sub_token = take (MAX_TOK_LEN - 1) text
           @ replicate (MAX_TOK_LEN - length (take (MAX_TOK_LEN - 1) text)) 0;
     (r, mem) \<leftarrow> split_nv sub_token (length text) mem;
     (case r of
        Inl rc \<Rightarrow> Some (rc, cur, mem)
      | Inr (name, val) \<Rightarrow>
          (case malloc_ok mem of
             (False, mem) \<Rightarrow> Some (- ENOMEM, (fst cur, []), mem)
           | (True, mem) \<Rightarrow>
               if length name = 0 then Some (0, (fst cur, [zero_nv]), mem)
               else Some (0, (fst cur @ [zero_nv\<lparr>nv_name := Live name, nv_value := val\<rparr>], []),
                          mem))) }"

text \<open>
  The colon list: \<open>acc\<close> is \<open>sub_token\<close> so far. The sub tokens are handed to \<open>process\<close>, the
  recursive call; the prefix of the last one is the empty string.
\<close>

fun colon_list ::
  "(nv_cursor \<Rightarrow> byte list \<Rightarrow> schedule \<Rightarrow> (int \<times> nv_cursor \<times> schedule) option)
   \<Rightarrow> nv_cursor \<Rightarrow> byte list \<Rightarrow> byte list \<Rightarrow> schedule \<Rightarrow> (int \<times> nv_cursor \<times> schedule) option" where
  "colon_list process cur acc [] mem = process cur acc mem"
| "colon_list process cur acc (b # bs) mem =
     (if b = 58 then do {
        (rc, cur, mem) \<leftarrow> process cur acc mem;
        if rc \<noteq> 0 then Some (rc, cur, mem)
        else colon_list process cur [] bs mem }
      else colon_list process cur (acc @ [b]) bs mem)"

definition is_colon_list :: "byte list \<Rightarrow> bool" where
  "is_colon_list tok \<longleftrightarrow>
     4 < length tok \<and> take 4 tok = bytes_of_string ''key='' \<and> 58 \<in> set (drop 4 tok)"

definition process_comma_tok_body ::
  "(nv_cursor \<Rightarrow> byte list \<Rightarrow> schedule \<Rightarrow> (int \<times> nv_cursor \<times> schedule) option)
   \<Rightarrow> nv_cursor \<Rightarrow> byte list \<Rightarrow> schedule \<Rightarrow> (int \<times> nv_cursor \<times> schedule) option" where
  "process_comma_tok_body process cur tok mem =
     (case tok of
        [] \<Rightarrow> Some (0, cur, mem)
      | b # _ \<Rightarrow>
          if MAX_TOK_LEN < length tok then Some (- EINVAL, cur, mem)
          else if b = 61 \<or> b = 58 then Some (- EINVAL, cur, mem)
          else if is_colon_list tok then colon_list process cur [] tok mem
          else process_nv_pair cur tok [] mem)"

text \<open>
  A sub token has no colon, so the recursion has depth two; \<open>process_comma_tok_rec\<close> below is
  the recursion equation of the source.
\<close>

definition process_comma_tok ::
  "nv_cursor \<Rightarrow> byte list \<Rightarrow> schedule \<Rightarrow> (int \<times> nv_cursor \<times> schedule) option" where
  "process_comma_tok =
     process_comma_tok_body (process_comma_tok_body (\<lambda>cur tok mem. None))"

subsection \<open>Option strings and files\<close>

fun nv_list_loop ::
  "nv_cursor \<Rightarrow> byte list \<Rightarrow> byte list \<Rightarrow> schedule \<Rightarrow> (int \<times> nv_cursor \<times> schedule) option" where
  "nv_list_loop cur tok_str [] mem = process_comma_tok cur tok_str mem"
| "nv_list_loop cur tok_str (b # bs) mem =
     (if b = 44 \<or> b = 10 then do {
        (rc, cur, mem) \<leftarrow> process_comma_tok cur tok_str mem;
        if rc \<noteq> 0 then Some (rc, cur, mem)
        else nv_list_loop cur [] bs mem }
      else if length tok_str + 1 = MAX_TOK_LEN then Some (0, cur, mem)
      else nv_list_loop cur (tok_str @ [b]) bs mem)"

text \<open>\<open>generate_nv_list\<close>: \<open>old\<close> is the list the head has on entry.\<close>

definition generate_nv_list ::
  "nv_list \<Rightarrow> byte list option \<Rightarrow> schedule \<Rightarrow> (int \<times> nv_list \<times> schedule) option" where
  "generate_nv_list old buf mem =
     (case buf of
        None \<Rightarrow> Some (0, old, mem)
      | Some buf \<Rightarrow> do {
          (rc, cur, mem) \<leftarrow> nv_list_loop ([], old) [] buf mem;
          Some (rc, fst cur @ snd cur, mem) })"

definition ecryptfs_parse_options ::
  "byte list option \<Rightarrow> nv_list \<Rightarrow> schedule \<Rightarrow> (int \<times> nv_list \<times> schedule) option" where
  "ecryptfs_parse_options opts head mem = generate_nv_list head opts mem"

text \<open>
  An open file as \<open>parse_options_file\<close> sees it: the results of \<open>fstat\<close>, the bytes that reads
  deliver, and how the stream ends: at end of file, or with an error number.
\<close>

datatype file_kind = Regular_File | Directory | Fifo

record open_file =
  of_fstat :: int
  of_kind :: file_kind
  of_size :: nat
  of_content :: "byte list"
  of_end :: "int option"

text \<open>
  The read loop: \<open>data\<close> holds the bytes read so far. The result is the size of the block and
  its initialised part.
\<close>

function read_loop ::
  "int option \<Rightarrow> byte list \<Rightarrow> byte list \<Rightarrow> nat \<Rightarrow> schedule \<Rightarrow> (int + byte list \<times> nat) \<times> schedule" where
  "read_loop fin rest data buf_size mem =
     (let chunk = take (buf_size - length data) rest in
      if chunk = [] then
        (case fin of
           Some e \<Rightarrow> if rest = [] \<and> length data < buf_size then (Inl (- e), mem)
                      else (Inr (data, buf_size), mem)
         | None \<Rightarrow> (Inr (data, buf_size), mem))
      else
        let data = data @ chunk; rest = drop (length chunk) rest in
        if buf_size \<le> length data then
          (case malloc_ok mem of
             (False, mem) \<Rightarrow> (Inl (- ENOMEM), mem)
           | (True, mem) \<Rightarrow> read_loop fin rest data (buf_size * 2) mem)
        else read_loop fin rest data buf_size mem)"
  by pat_completeness auto
termination
  by (relation "measure (\<lambda>(fin, rest, data, buf_size, mem). length rest)") auto

declare read_loop.simps [simp del]

text \<open>The block is handed to the parser as it is; its remaining bytes are uninitialised.\<close>

definition parse_options_file ::
  "(nat \<Rightarrow> byte) \<Rightarrow> open_file \<Rightarrow> nv_list \<Rightarrow> schedule \<Rightarrow> (int \<times> nv_list \<times> schedule) option" where
  "parse_options_file junk fd head mem =
     (if of_fstat fd \<noteq> 0 then Some (of_fstat fd, head, mem)
      else if of_kind fd = Directory then Some (- EISDIR, head, mem)
      else let buf_size = (if of_kind fd = Fifo then 1024 else of_size fd) in
      if MAX_FILE_SIZE < buf_size then Some (- EFBIG, head, mem)
      else case malloc_ok mem of
        (False, mem) \<Rightarrow> Some (- ENOMEM, head, mem)
      | (True, mem) \<Rightarrow>
          (case read_loop (of_end fd) (of_content fd) [] (buf_size + 1) mem of
             (Inl rc, mem) \<Rightarrow> Some (rc, head, mem)
           | (Inr (data, n), mem) \<Rightarrow> do {
               s \<leftarrow> c_string (data @ fresh junk (n - length data));
               generate_nv_list head (Some s) mem }))"

text \<open>
  The files of the system: an error number, or an open file. The directory of the password
  entry, if there is one.
\<close>

definition ecryptfs_parse_rc_file_fullpath ::
  "(nat \<Rightarrow> byte) \<Rightarrow> (string \<Rightarrow> int + open_file) \<Rightarrow> nv_list \<Rightarrow> string \<Rightarrow> schedule
   \<Rightarrow> (int \<times> nv_list \<times> schedule) option" where
  "ecryptfs_parse_rc_file_fullpath junk c_open head fullpath mem =
     (case c_open fullpath of
        Inl e \<Rightarrow> Some (- e, head, mem)
      | Inr fd \<Rightarrow> parse_options_file junk fd head mem)"

definition ecryptfs_parse_rc_file ::
  "(nat \<Rightarrow> byte) \<Rightarrow> (string \<Rightarrow> int + open_file) \<Rightarrow> string option \<Rightarrow> nv_list \<Rightarrow> schedule
   \<Rightarrow> (int \<times> nv_list \<times> schedule) option" where
  "ecryptfs_parse_rc_file junk c_open pw_dir head mem =
     (case pw_dir of
        None \<Rightarrow> Some (- EIO, head, mem)
      | Some home \<Rightarrow>
          (case malloc_ok mem of
             (False, mem) \<Rightarrow> Some (- ENOMEM, head, mem)
           | (True, mem) \<Rightarrow>
               ecryptfs_parse_rc_file_fullpath junk c_open head (home @ ''/.ecryptfsrc'') mem))"

text \<open>The search for a \<open>salt\<close> of 16 bytes.\<close>

fun find_salt :: "nv_list \<Rightarrow> byte list option option" where
  "find_salt [] = Some None"
| "find_salt (p # ps) =
     (case nv_name p of
        Live n \<Rightarrow>
          if n = bytes_of_string ''salt'' then
            (case nv_value p of
               Null \<Rightarrow> find_salt ps
             | Dangling \<Rightarrow> None
             | Live v \<Rightarrow> if length v \<noteq> 16 then find_salt ps else Some (Some v))
          else find_salt ps
      | _ \<Rightarrow> None)"

definition ecryptfs_read_salt_hex_from_rc ::
  "(nat \<Rightarrow> byte) \<Rightarrow> (string \<Rightarrow> int + open_file) \<Rightarrow> string option \<Rightarrow> schedule
   \<Rightarrow> (int \<times> byte list option \<times> schedule) option" where
  "ecryptfs_read_salt_hex_from_rc junk c_open pw_dir mem = do {
     (rc, nvps, mem) \<leftarrow> ecryptfs_parse_rc_file junk c_open pw_dir [] mem;
     if rc \<noteq> 0 then Some (rc, None, mem)
     else do {
       s \<leftarrow> find_salt nvps;
       free_name_val_pairs nvps;
       Some (if s = None then - EINVAL else 0, s, mem) } }"

subsection \<open>Lemmas on tokens\<close>

lemma scan_eq_none: "61 \<notin> set bs \<Longrightarrow> scan_eq i bs j mem = (Inr j, mem)"
  by (induction bs arbitrary: i) auto

lemma scan_eq_last:
  "61 \<notin> set ys \<Longrightarrow> scan_eq i (xs @ 61 # ys) j [] = (Inr (Some (i + length xs)), [])"
  by (induction xs arbitrary: i j) (auto simp: scan_eq_none)

lemma c_string_snoc: "0 \<notin> set s \<Longrightarrow> c_string (s @ [0]) = Some s"
  by (rule c_string_append)

lemma c_string_snoc2: "0 \<notin> set s \<Longrightarrow> c_string (s @ [0, 0]) = Some s"
  by (rule c_string_append)

definition nv_node :: "byte list \<Rightarrow> byte list option \<Rightarrow> ecryptfs_name_val_pair" where
  "nv_node n v = zero_nv\<lparr>nv_name := Live n,
     nv_value := (case v of None \<Rightarrow> Null | Some v \<Rightarrow> Live v)\<rparr>"

definition nv_text :: "byte list \<times> byte list option \<Rightarrow> byte list" where
  "nv_text o' = (case o' of (n, None) \<Rightarrow> n | (n, Some v) \<Rightarrow> n @ 61 # v)"

text \<open>Texts that \<open>nv_text\<close> represents faithfully: the value has no \<open>=\<close>, the name has one only
  if there is a value.\<close>

definition nv_plain :: "byte list \<times> byte list option \<Rightarrow> bool" where
  "nv_plain o' = (case o' of
     (n, None) \<Rightarrow> 61 \<notin> set n \<and> 0 \<notin> set n \<and> n \<noteq> []
   | (n, Some v) \<Rightarrow> n \<noteq> [] \<and> v \<noteq> [] \<and> 61 \<notin> set v \<and> 0 \<notin> set n \<and> 0 \<notin> set v)"

lemma process_nv_pair_ok:
  assumes "nv_plain (n, v)" "length (nv_text (n, v)) < MAX_TOK_LEN"
  shows "process_nv_pair cur (nv_text (n, v)) [] [] = Some (0, (fst cur @ [nv_node n v], []), [])"
proof (cases v)
  case None
  with assms show ?thesis
    by (simp add: nv_plain_def nv_text_def process_nv_pair_def split_nv_def scan_eq_none
        rd_bytes_def c_string_snoc nv_node_def)
next
  case (Some w)
  define z where "z = replicate (MAX_TOK_LEN - (length n + length w + 1)) (0 :: byte)"
  have len: "length n + length w + 1 < 128" using assms(2) Some by (simp add: nv_text_def)
  then obtain m where z: "z = 0 # replicate m 0"
    by (cases "MAX_TOK_LEN - (length n + length w + 1)") (auto simp: z_def)
  have t: "take 127 (n @ 61 # w) = n @ 61 # w" using len by simp
  have r: "rd_bytes (n @ 61 # w @ z) 0 (length n) = Some n"
    "rd_bytes (n @ 61 # w @ z) (length n + 1) (length w + 1) = Some (w @ [0])"
    using z by (simp_all add: rd_bytes_def)
  have "split_nv (n @ 61 # w @ z) (length n + length w + 1) [] = Some (Inr (n, Live w), [])"
    using assms(1) Some r scan_eq_last [of w 0 n None] len
    by (simp add: split_nv_def nv_plain_def c_string_snoc c_string_snoc2)
  moreover have "take 127 (n @ 61 # w) @ replicate (128 - length (take 127 (n @ 61 # w))) 0
      = n @ 61 # w @ z"
    by (simp add: t z_def del: take_append)
  ultimately show ?thesis
    using assms(1) Some
    by (simp add: process_nv_pair_def nv_text_def nv_plain_def nv_node_def del: take_append length_take)
qed

lemma process_comma_tok_plain:
  assumes "nv_plain (n, v)" "length (nv_text (n, v)) < MAX_TOK_LEN"
    and "hd n \<noteq> 61" "hd n \<noteq> 58" "\<not> is_colon_list (nv_text (n, v))"
  shows "process_comma_tok_body p cur (nv_text (n, v)) []
    = Some (0, (fst cur @ [nv_node n v], []), [])"
proof -
  obtain b bs where b: "nv_text (n, v) = b # bs" "b = hd n"
    using assms(1) by (cases n) (auto simp: nv_text_def nv_plain_def split: option.splits)
  with assms process_nv_pair_ok [OF assms(1,2)] show ?thesis
    by (simp add: process_comma_tok_body_def)
qed

text \<open>The recursion equation of \<open>process_comma_tok\<close>.\<close>

lemma colon_list_cong:
  "(\<And>cur t mem. 58 \<notin> set t \<Longrightarrow> p cur t mem = q cur t mem)
   \<Longrightarrow> 58 \<notin> set acc \<Longrightarrow> colon_list p cur acc bs mem = colon_list q cur acc bs mem"
proof (induction bs arbitrary: cur acc mem)
  case (Cons b bs)
  have p: "p cur acc mem = q cur acc mem" by (rule Cons.prems(1)) (use Cons.prems(2) in auto)
  show ?case
  proof (cases "b = 58")
    case True
    have "colon_list p cur [] bs mem = colon_list q cur [] bs mem" for cur mem
      by (rule Cons.IH) (use Cons.prems(1) in auto)
    with True p show ?thesis by (auto intro!: Option.bind_cong split: prod.split)
  next
    case False
    have "colon_list p cur (acc @ [b]) bs mem = colon_list q cur (acc @ [b]) bs mem"
      by (rule Cons.IH) (use Cons.prems False in auto)
    with False show ?thesis by simp
  qed
qed auto

lemma no_colon_no_list: "58 \<notin> set t \<Longrightarrow> \<not> is_colon_list t"
  by (auto simp: is_colon_list_def dest: in_set_dropD)

lemma body_no_colon:
  "58 \<notin> set t \<Longrightarrow> process_comma_tok_body p cur t mem = process_comma_tok_body q cur t mem"
  by (auto simp: process_comma_tok_body_def no_colon_no_list split: list.splits)

lemma process_comma_tok_rec:
  "process_comma_tok cur tok mem = process_comma_tok_body process_comma_tok cur tok mem"
proof -
  have "colon_list (process_comma_tok_body (\<lambda>cur tok mem. None)) cur [] tok mem
      = colon_list process_comma_tok cur [] tok mem"
    by (rule colon_list_cong) (auto simp: process_comma_tok_def body_no_colon)
  then show ?thesis
    by (cases tok)
      (simp_all add: process_comma_tok_def process_comma_tok_body_def del: colon_list.simps)
qed

subsection \<open>Lemmas on option strings\<close>

lemma nv_list_loop_token:
  assumes "44 \<notin> set t" "10 \<notin> set t" "length acc + length t < MAX_TOK_LEN"
  shows "nv_list_loop cur acc (t @ rest) mem = nv_list_loop cur (acc @ t) rest mem"
  using assms by (induction t arbitrary: acc) auto

text \<open>One option, as a list of option strings separated by commas holds it.\<close>

definition opt_ok :: "byte list \<times> byte list option \<Rightarrow> bool" where
  "opt_ok o' \<longleftrightarrow> nv_plain o' \<and> length (nv_text o') < MAX_TOK_LEN
     \<and> hd (fst o') \<noteq> 61 \<and> hd (fst o') \<noteq> 58 \<and> \<not> is_colon_list (nv_text o')
     \<and> 44 \<notin> set (nv_text o') \<and> 10 \<notin> set (nv_text o')"

fun join_with :: "byte \<Rightarrow> byte list list \<Rightarrow> byte list" where
  "join_with c [] = []"
| "join_with c [t] = t"
| "join_with c (t # u # ts) = t @ c # join_with c (u # ts)"

lemma process_opt:
  "opt_ok o' \<Longrightarrow> process_comma_tok cur (nv_text o') []
   = Some (0, (fst cur @ [nv_node (fst o') (snd o')], []), [])"
  by (cases o') (simp add: opt_ok_def process_comma_tok_def process_comma_tok_plain)

lemma nv_list_loop_opt:
  "opt_ok o' \<Longrightarrow> nv_list_loop cur [] (nv_text o' @ 44 # rest) []
   = nv_list_loop (fst cur @ [nv_node (fst o') (snd o')], []) [] rest []"
  by (subst nv_list_loop_token) (auto simp: opt_ok_def process_opt [unfolded opt_ok_def])

lemma nv_list_loop_last:
  "opt_ok o' \<Longrightarrow> nv_list_loop cur [] (nv_text o') []
   = Some (0, (fst cur @ [nv_node (fst o') (snd o')], []), [])"
  using nv_list_loop_token [of "nv_text o'" "[]" cur "[]"] process_opt [of o' cur]
  by (simp add: opt_ok_def)

lemma nv_list_loop_opts:
  "list_all opt_ok opts \<Longrightarrow> opts \<noteq> [] \<Longrightarrow>
   nv_list_loop cur [] (join_with 44 (map nv_text opts)) []
   = Some (0, (fst cur @ map (\<lambda>o'. nv_node (fst o') (snd o')) opts, []), [])"
proof (induction opts arbitrary: cur)
  case (Cons o' os)
  show ?case
  proof (cases os)
    case Nil
    with Cons.prems show ?thesis by (simp add: nv_list_loop_last)
  next
    case (Cons o2 os')
    with Cons.IH Cons.prems show ?thesis by (simp add: nv_list_loop_opt)
  qed
qed simp

lemma colon_list_token:
  "58 \<notin> set t \<Longrightarrow> colon_list p cur acc (t @ rest) mem = colon_list p cur (acc @ t) rest mem"
  by (induction t arbitrary: acc) auto

abbreviation (input) opt_node :: "byte list \<times> byte list option \<Rightarrow> ecryptfs_name_val_pair" where
  "opt_node o' \<equiv> nv_node (fst o') (snd o')"

lemma colon_list_opts:
  "list_all (\<lambda>o'. opt_ok o' \<and> 58 \<notin> set (nv_text o')) opts \<Longrightarrow> opts \<noteq> [] \<Longrightarrow>
   colon_list process_comma_tok cur [] (join_with 58 (map nv_text opts)) []
   = Some (0, (fst cur @ map opt_node opts, []), [])"
proof (induction opts arbitrary: cur)
  case (Cons o' os)
  show ?case
  proof (cases os)
    case Nil
    with Cons.prems colon_list_token [of "nv_text o'" _ cur "[]" "[]"] process_opt [of o' cur]
    show ?thesis by simp
  next
    case (Cons o2 os')
    with Cons.IH Cons.prems process_opt [of o' cur] show ?thesis
      by (simp add: colon_list_token)
  qed
qed simp

subsection \<open>Lemmas on the union\<close>

definition text_of :: "heap_ptr \<Rightarrow> byte list" where
  "text_of p = (case p of Live s \<Rightarrow> s | _ \<Rightarrow> bytes_of_string ''(null)'')"

definition copy_of :: "ecryptfs_name_val_pair \<Rightarrow> ecryptfs_name_val_pair" where
  "copy_of s = zero_nv\<lparr>nv_flags := nv_flags s, nv_name := Live (text_of (nv_name s)),
     nv_value := Live (text_of (nv_value s))\<rparr>"

text \<open>
  The reference: what the comment above \<open>ecryptfs_nvp_list_union\<close> says one node of \<open>src\<close> does.
\<close>

definition merge_nv :: "nv_list \<Rightarrow> nv_list \<Rightarrow> ecryptfs_name_val_pair \<Rightarrow> nv_list" where
  "merge_nv ad dst s =
     (if nv_name s \<in> nv_name ` set ad \<or> nv_name s \<notin> nv_name ` set dst then dst @ [copy_of s]
      else map (\<lambda>d. if nv_name d = nv_name s
                     then d\<lparr>nv_value := Live (text_of (nv_value s))\<rparr> else d) dst)"

definition named :: "nv_list \<Rightarrow> bool" where
  "named ps \<longleftrightarrow> (\<forall>p \<in> set ps. \<exists>n. nv_name p = Live n)"

definition no_dangling :: "nv_list \<Rightarrow> bool" where
  "no_dangling ps \<longleftrightarrow> (\<forall>p \<in> set ps. nv_name p \<noteq> Dangling \<and> nv_value p \<noteq> Dangling)"

definition childless :: "nv_list \<Rightarrow> bool" where
  "childless ps \<longleftrightarrow> (\<forall>p \<in> set ps. \<forall>c \<in> set (nv_children p). c = None)"

lemma asprintf_s_ok: "p \<noteq> Dangling \<Longrightarrow> asprintf_s p [] = Some (Some (text_of p), [])"
  by (cases p) (simp_all add: asprintf_s_def text_of_def)

lemma copy_nv_pair_ok:
  "nv_name s \<noteq> Dangling \<Longrightarrow> nv_value s \<noteq> Dangling \<Longrightarrow>
   copy_nv_pair zero_nv s [] = Some (0, copy_of s, [])"
  by (simp add: copy_nv_pair_def asprintf_s_ok copy_of_def Let_def)

lemma dup_allowed_ok:
  "named ad \<Longrightarrow> dup_allowed n ad = Some (Live n \<in> nv_name ` set ad)"
  by (induction ad) (auto simp: named_def)

lemma set_matches_ok:
  "no_dangling ds \<Longrightarrow> v \<noteq> Dangling \<Longrightarrow>
   set_matches n v ds [] = Some (0, Live n \<in> nv_name ` set ds,
     map (\<lambda>d. if nv_name d = Live n then d\<lparr>nv_value := Live (text_of v)\<rparr> else d) ds, [])"
proof (induction ds)
  case (Cons d ds)
  then have "set_matches n v ds [] = Some (0, Live n \<in> nv_name ` set ds,
     map (\<lambda>d. if nv_name d = Live n then d\<lparr>nv_value := Live (text_of v)\<rparr> else d) ds, [])"
    by (simp add: no_dangling_def)
  moreover have "free_ptr (nv_value d) = Some ()" "nv_name d \<noteq> Dangling"
    using Cons.prems(1) by (cases "nv_value d"; simp add: no_dangling_def)+
  ultimately show ?case
    using Cons.prems(2) by (cases "nv_name d") (auto simp: asprintf_s_ok)
qed simp

lemma copy_children_none:
  "\<forall>c \<in> set cs. c = None \<Longrightarrow> copy_children src cs i pos j dst mem = Some (0, j, dst, mem)"
  by (induction cs arbitrary: i) auto

lemma union_step_ok:
  assumes "named ad" "named src" "no_dangling src" "childless src" "no_dangling dst" "i < length src"
  shows "union_step src ad i dst [] = Some (0, i, merge_nv ad dst (src ! i), [])"
proof -
  have mem: "src ! i \<in> set src" using assms(6) by simp
  then obtain n where n: "nv_name (src ! i) = Live n" using assms(2) by (auto simp: named_def)
  have v: "nv_value (src ! i) \<noteq> Dangling" using assms(3) mem by (auto simp: no_dangling_def)
  have ins: "union_insert src i dst [] = Some (0, i, dst @ [copy_of (src ! i)], [])" for dst
    using assms(4) mem n v
    by (simp add: union_insert_def copy_nv_pair_ok copy_children_none childless_def)
  have "(map (\<lambda>d. if nv_name d = Live n then f d else d) dst) = dst"
    if "Live n \<notin> nv_name ` set dst" for f
    using that by (induction dst) auto
  then show ?thesis
    using n v ins
    by (auto simp: union_step_def dup_allowed_ok [OF assms(1)] set_matches_ok [OF assms(5)]
        merge_nv_def)
qed

lemma merge_nv_no_dangling: "no_dangling dst \<Longrightarrow> no_dangling (merge_nv ad dst s)"
  by (auto simp: no_dangling_def merge_nv_def copy_of_def)

lemma union_loop_ok:
  assumes "named ad" "named src" "no_dangling src" "childless src"
  shows "no_dangling dst \<Longrightarrow>
    union_loop src ad i dst [] = Some (0, foldl (merge_nv ad) dst (drop i src), [])"
proof (induction "length src - i" arbitrary: i dst)
  case 0
  then show ?case by (simp add: union_loop.simps)
next
  case (Suc k)
  then have i: "i < length src" by simp
  have "union_loop src ad (Suc i) (merge_nv ad dst (src ! i)) []
      = Some (0, foldl (merge_nv ad) (merge_nv ad dst (src ! i)) (drop (Suc i) src), [])"
    using Suc by (intro Suc.hyps(1)) (auto simp: merge_nv_no_dangling)
  moreover have "drop i src = src ! i # drop (Suc i) src" using i by (simp add: Cons_nth_drop_Suc)
  ultimately show ?case
    using i union_step_ok [OF assms Suc.prems i] by (subst union_loop.simps) simp
qed

lemma merge_nv_hit:
  assumes "nv_name s = Live n" "Live n \<notin> nv_name ` set ad"
  shows "Live n \<in> nv_name ` set (merge_nv ad dst s)
    \<and> (\<forall>d \<in> set (merge_nv ad dst s). nv_name d = Live n \<longrightarrow> nv_value d = Live (text_of (nv_value s)))"
proof (cases "Live n \<in> nv_name ` set dst")
  case True
  then obtain d where d: "d \<in> set dst" "nv_name d = Live n" by auto
  have m: "merge_nv ad dst s
      = map (\<lambda>d. if nv_name d = Live n then d\<lparr>nv_value := Live (text_of (nv_value s))\<rparr> else d) dst"
    using True assms by (simp add: merge_nv_def)
  have "d\<lparr>nv_value := Live (text_of (nv_value s))\<rparr> \<in> set (merge_nv ad dst s)"
    unfolding m set_map by (rule image_eqI [OF _ d(1)]) (simp add: d(2))
  then have "nv_name (d\<lparr>nv_value := Live (text_of (nv_value s))\<rparr>) \<in> nv_name ` set (merge_nv ad dst s)"
    by (rule imageI)
  moreover have "nv_value x = Live (text_of (nv_value s))"
    if "x \<in> set (merge_nv ad dst s)" "nv_name x = Live n" for x
    using that unfolding m by (auto split: if_splits)
  ultimately show ?thesis using d(2) by simp
next
  case False
  then have "merge_nv ad dst s = dst @ [copy_of s]" using assms by (simp add: merge_nv_def)
  with False assms show ?thesis by (auto simp: copy_of_def text_of_def image_iff)
qed

text \<open>The value of a name after merging: the last one of \<open>src\<close>.\<close>

lemma merge_nv_last:
  assumes "named src" "Live n \<notin> nv_name ` set ad" "Live n \<in> nv_name ` set src"
  shows "Live n \<in> nv_name ` set (foldl (merge_nv ad) dst src)
    \<and> (\<forall>d \<in> set (foldl (merge_nv ad) dst src). nv_name d = Live n \<longrightarrow>
        nv_value d = Live (text_of (nv_value (last (filter (\<lambda>s. nv_name s = Live n) src)))))"
  using assms
proof (induction src rule: rev_induct)
  case (snoc s src)
  define dst' where "dst' = foldl (merge_nv ad) dst src"
  show ?case
  proof (cases "nv_name s = Live n")
    case True
    with merge_nv_hit [OF this snoc.prems(2), of dst'] show ?thesis by (simp add: dst'_def)
  next
    case False
    then have ih: "Live n \<in> nv_name ` set dst'"
      "\<forall>d \<in> set dst'. nv_name d = Live n \<longrightarrow>
        nv_value d = Live (text_of (nv_value (last (filter (\<lambda>s. nv_name s = Live n) src))))"
      using snoc by (auto simp: dst'_def named_def)
    obtain m where m: "nv_name s = Live m" using snoc.prems(1) by (auto simp: named_def)
    have "Live n \<in> nv_name ` set (merge_nv ad dst' s)"
      using ih(1) False by (fastforce simp: merge_nv_def image_iff)
    moreover have "\<forall>d \<in> set (merge_nv ad dst' s). nv_name d = Live n \<longrightarrow>
        nv_value d = Live (text_of (nv_value (last (filter (\<lambda>s. nv_name s = Live n) src))))"
      using ih(2) False m by (auto simp: merge_nv_def copy_of_def text_of_def)
    ultimately show ?thesis using False by (simp add: dst'_def)
  qed
qed simp

subsection \<open>Lemmas on option files\<close>

lemma read_loop_whole:
  assumes "length content < n"
  shows "read_loop None content [] n mem = (Inr (content, n), mem)"
proof (cases "content = []")
  case True
  then show ?thesis by (subst read_loop.simps) simp
next
  case False
  have "read_loop None [] content n mem = (Inr (content, n), mem)"
    by (subst read_loop.simps) simp
  with False assms show ?thesis by (subst read_loop.simps) (simp add: Let_def)
qed

lemma c_string_none: "0 \<notin> set bs \<Longrightarrow> c_string bs = None"
  by (induction bs) auto

lemma parse_regular_file:
  assumes "0 \<notin> set content" "length content \<le> MAX_FILE_SIZE"
  shows "parse_options_file junk \<lparr>of_fstat = 0, of_kind = Regular_File, of_size = length content,
      of_content = content, of_end = None\<rparr> head []
    = (if junk 0 = 0 then generate_nv_list head (Some content) [] else None)"
proof -
  have "fresh junk (Suc 0) = [junk 0]" by (simp add: fresh_def)
  then show ?thesis
    using assms read_loop_whole [of content "Suc (length content)"] c_string_append [OF assms(1), of "[]"]
      c_string_none [of "content @ [junk 0]"]
    by (simp add: parse_options_file_def)
qed

subsection \<open>Properties\<close>

text \<open>
  C31. Parsing an option string that was put together from options separated by commas gives
  the options back, in order, and replaces whatever list the head had: names of at least one
  byte, values without \<open>=\<close>, each option shorter than 128 bytes and none a colon list. The
  name reaches up to the last \<open>=\<close> of the option, so that it may hold \<open>=\<close> itself.
\<close>

theorem parse_options_roundtrip:
  assumes "list_all opt_ok opts" "opts \<noteq> []"
  shows "ecryptfs_parse_options (Some (join_with 44 (map nv_text opts))) head []
    = Some (0, map opt_node opts, [])"
  using nv_list_loop_opts [OF assms, of "([], head)"]
  by (simp add: ecryptfs_parse_options_def generate_nv_list_def)

theorem parse_options_roundtrip_witness:
  "ecryptfs_parse_options (Some (bytes_of_string ''verbose,passwd=a=b'')) [] []
    = Some (0, [nv_node (bytes_of_string ''verbose'') None,
                nv_node (bytes_of_string ''passwd=a'') (Some (bytes_of_string ''b''))], [])"
  using parse_options_roundtrip [of "[(bytes_of_string ''verbose'', None),
      (bytes_of_string ''passwd=a'', Some (bytes_of_string ''b''))]" "[]"]
  by (simp add: opt_ok_def nv_plain_def nv_text_def bytes_of_string_def is_colon_list_def)

text \<open>
  A \<open>key=\<close> option with a colon list is split at every colon, also the first part: the
  nodes are those of the parts, in order.
\<close>

theorem process_colon_list:
  assumes "list_all (\<lambda>o'. opt_ok o' \<and> 58 \<notin> set (nv_text o')) opts"
    and "2 \<le> length opts" "fst (hd opts) = bytes_of_string ''key''" "snd (hd opts) \<noteq> None"
    and "length (join_with 58 (map nv_text opts)) < MAX_TOK_LEN"
  shows "process_comma_tok cur (join_with 58 (map nv_text opts)) []
    = Some (0, (fst cur @ map opt_node opts, []), [])"
proof -
  from assms(2) obtain a b os where o: "opts = a # b # os"
    by (cases opts; cases "tl opts") auto
  with assms(3,4) obtain v where a: "a = (bytes_of_string ''key'', Some v)" by (cases a) auto
  define t where "t = join_with 58 (map nv_text opts)"
  have t: "t = bytes_of_string ''key='' @ v @ 58 # join_with 58 (map nv_text (b # os))"
    by (simp add: t_def o a nv_text_def bytes_of_string_def)
  have "v \<noteq> []" using assms(1) o a by (simp add: opt_ok_def nv_plain_def)
  then have "is_colon_list t" by (simp add: is_colon_list_def t)
  moreover obtain t' where "t = 107 # t'" by (simp add: t bytes_of_string_def)
  moreover have "length t < MAX_TOK_LEN" using assms(5) by (simp add: t_def)
  moreover have "colon_list process_comma_tok cur [] t [] = Some (0, (fst cur @ map opt_node opts, []), [])"
    unfolding t_def by (rule colon_list_opts [OF assms(1)]) (simp add: o)
  ultimately show ?thesis
    unfolding t_def [symmetric]
    by (subst process_comma_tok_rec) (simp add: process_comma_tok_body_def del: colon_list.simps)
qed

theorem process_colon_list_witness:
  "process_comma_tok ([], []) (bytes_of_string ''key=PKI:keyfile=/k'') []
    = Some (0, ([nv_node (bytes_of_string ''key'') (Some (bytes_of_string ''PKI'')),
                 nv_node (bytes_of_string ''keyfile'') (Some (bytes_of_string ''/k''))], []), [])"
  using process_colon_list [of "[(bytes_of_string ''key'', Some (bytes_of_string ''PKI'')),
      (bytes_of_string ''keyfile'', Some (bytes_of_string ''/k''))]" "([], [])"]
  by (simp add: opt_ok_def nv_plain_def nv_text_def bytes_of_string_def is_colon_list_def)

text \<open>
  An option of 128 bytes or more ends the parse without an error: the options before it
  are kept, and it and all that follow are dropped.
\<close>

theorem parse_options_long_token_ignored:
  assumes "list_all opt_ok opts" "opts \<noteq> []" "MAX_TOK_LEN \<le> length t" "44 \<notin> set t" "10 \<notin> set t"
  shows "ecryptfs_parse_options (Some (join_with 44 (map nv_text opts) @ 44 # t @ rest)) head []
    = Some (0, map opt_node opts, [])"
proof -
  have long: "nv_list_loop cur [] (t @ rest) [] = Some (0, cur, [])" for cur
  proof -
    obtain x u where u: "drop 127 t = x # u" using assms(3) by (cases "drop 127 t") auto
    then have t: "t = take 127 t @ x # u" by (metis append_take_drop_id)
    have x: "x \<in> set t" by (subst t) simp
    have "nv_list_loop cur [] (take 127 t @ (x # u) @ rest) []
        = nv_list_loop cur ([] @ take 127 t) ((x # u) @ rest) []"
      using assms(3-5) by (intro nv_list_loop_token) (auto dest: in_set_takeD)
    also have "\<dots> = Some (0, cur, [])" using assms(3-5) x by auto
    finally show ?thesis by (metis append.assoc t)
  qed
  have "nv_list_loop cur [] (join_with 44 (map nv_text opts) @ 44 # t @ rest) []
      = Some (0, (fst cur @ map opt_node opts, []), [])" for cur
    using assms(1,2)
  proof (induction opts arbitrary: cur)
    case (Cons o' os)
    then show ?case by (cases os) (simp_all add: nv_list_loop_opt long)
  qed simp
  from this [of "([], head)"] show ?thesis
    by (simp add: ecryptfs_parse_options_def generate_nv_list_def)
qed

theorem parse_options_long_token_ignored_witness:
  "ecryptfs_parse_options (Some (bytes_of_string ''a=b,'' @ replicate 128 99
      @ bytes_of_string '',d=e'')) [] []
    = Some (0, [nv_node (bytes_of_string ''a'') (Some (bytes_of_string ''b''))], [])"
  using parse_options_long_token_ignored [of "[(bytes_of_string ''a'', Some (bytes_of_string ''b''))]"
      "replicate 128 99" "bytes_of_string '',d=e''" "[]"]
  by (simp add: opt_ok_def nv_plain_def nv_text_def bytes_of_string_def is_colon_list_def)

text \<open>
  C27. The union, when no allocation fails and no node has children: it is the merge that the
  comment describes, node by node. So every name of \<open>src\<close> that is not an allowed duplicate is
  in the result, and each of its nodes there has the last value \<open>src\<close> gives it (the text
  \<open>(null)\<close> for an option without a value).
\<close>

theorem nvp_list_union_merges:
  assumes "named allowed" "named src" "no_dangling src" "childless src" "no_dangling dst"
  shows "\<exists>dst'. ecryptfs_nvp_list_union dst src allowed [] = Some (0, dst', [])
    \<and> dst' = foldl (merge_nv allowed) dst src
    \<and> (\<forall>n. Live n \<in> nv_name ` set src \<and> Live n \<notin> nv_name ` set allowed \<longrightarrow>
         Live n \<in> nv_name ` set dst'
         \<and> (\<forall>d \<in> set dst'. nv_name d = Live n \<longrightarrow>
              nv_value d = Live (text_of (nv_value (last (filter (\<lambda>s. nv_name s = Live n) src))))))"
  using union_loop_ok [OF assms, of 0] merge_nv_last [OF assms(2)]
  by (simp add: ecryptfs_nvp_list_union_def) blast

theorem nvp_list_union_merges_witness:
  "\<exists>dst'. ecryptfs_nvp_list_union [nv_node [97] (Some [49])] [nv_node [97] (Some [50]), nv_node [98] None]
      [] [] = Some (0, dst', [])
    \<and> map nv_value dst' = [Live [50], Live (bytes_of_string ''(null)'')]"
  using nvp_list_union_merges [of "[]" "[nv_node [97] (Some [50]), nv_node [98] None]"
      "[nv_node [97] (Some [49])]"]
  by (simp add: named_def no_dangling_def childless_def nv_node_def zero_nv_def merge_nv_def
      copy_of_def text_of_def)

text \<open>
  \<open>parse_options_file\<close> does not terminate the text it read: for a regular file of the
  reported size, the byte after the content is uninitialised, and the parse runs past the
  block unless that byte happens to be zero, when it is the parse of the content.
\<close>

theorem parse_options_file_unterminated:
  assumes "0 \<notin> set content" "length content \<le> MAX_FILE_SIZE"
  shows "parse_options_file junk \<lparr>of_fstat = 0, of_kind = Regular_File, of_size = length content,
      of_content = content, of_end = None\<rparr> head []
    = (if junk 0 = 0 then generate_nv_list head (Some content) [] else None)"
  using assms by (rule parse_regular_file)

theorem parse_options_file_unterminated_witness:
  "parse_options_file (\<lambda>_. 65) \<lparr>of_fstat = 0, of_kind = Regular_File, of_size = 3,
      of_content = bytes_of_string ''a=b'', of_end = None\<rparr> [] [] = None"
  using parse_options_file_unterminated [of "bytes_of_string ''a=b''" "\<lambda>_. 65" "[]"]
  by (simp add: bytes_of_string_def numeral_3_eq_3)

text \<open>
  The salt of a \<open>.ecryptfsrc\<close> file that holds a \<open>salt\<close> option of 16 bytes among others
  is read back, when the byte after the content is zero.
\<close>

theorem read_salt_hex_from_rc_finds:
  assumes "list_all opt_ok (before @ (bytes_of_string ''salt'', Some salt) # after)"
    and "length salt = 16" "\<forall>o' \<in> set before. fst o' \<noteq> bytes_of_string ''salt''"
    and "content = join_with 44 (map nv_text (before @ (bytes_of_string ''salt'', Some salt) # after))"
    and "length content \<le> MAX_FILE_SIZE" "0 \<notin> set content"
    and "c_open (home @ ''/.ecryptfsrc'') = Inr \<lparr>of_fstat = 0, of_kind = Regular_File,
      of_size = length content, of_content = content, of_end = None\<rparr>"
    and "junk 0 = 0"
  shows "ecryptfs_read_salt_hex_from_rc junk c_open (Some home) [] = Some (0, Some salt, [])"
proof -
  define opts where "opts = before @ (bytes_of_string ''salt'', Some salt) # after"
  have gen: "generate_nv_list [] (Some content) [] = Some (0, map opt_node opts, [])"
    using nv_list_loop_opts [OF assms(1), of "([], [])"] assms(4)
    by (simp add: generate_nv_list_def opts_def)
  have "find_salt (map opt_node (before @ (bytes_of_string ''salt'', Some salt) # after))
      = Some (Some salt)"
    using assms(3) by (induction before) (simp_all add: nv_node_def assms(2))
  moreover have "free_name_val_pairs (map opt_node opts) = Some 0" for opts
    by (induction opts) (auto simp: nv_node_def split: option.split)
  ultimately show ?thesis
    using parse_regular_file [OF assms(6,5), of junk "[]"] gen assms(7,8)
    by (simp add: ecryptfs_read_salt_hex_from_rc_def ecryptfs_parse_rc_file_def
        ecryptfs_parse_rc_file_fullpath_def opts_def del: map_append list.map)
qed

theorem read_salt_hex_from_rc_finds_witness:
  "ecryptfs_read_salt_hex_from_rc (\<lambda>_. 0) (\<lambda>_. Inr \<lparr>of_fstat = 0, of_kind = Regular_File, of_size = 21,
      of_content = bytes_of_string ''salt=0011223344556677'', of_end = None\<rparr>) (Some ''/h'') []
    = Some (0, Some (bytes_of_string ''0011223344556677''), [])"
  by (rule read_salt_hex_from_rc_finds [where before = "[]" and after = "[]"
        and content = "bytes_of_string ''salt=0011223344556677''"])
    (simp_all add: opt_ok_def nv_plain_def nv_text_def bytes_of_string_def is_colon_list_def)

end
