(* ===== verification/Zombie.thy ===== *)
theory Zombie
  imports Prelude
begin

text \<open>
  The session placeholders of \<open>src/libecryptfs/main.c\<close>: a table of session and process
  numbers in a shared memory segment of 4096 bytes, guarded by a semaphore.

  The state of the System V objects is the record \<open>ipc\<close>. Every call that can fail (\<open>semget\<close>,
  \<open>semop\<close>, \<open>shmget\<close>, \<open>shmat\<close>, \<open>shmdt\<close>, \<open>malloc\<close>) takes its outcome from a schedule; what other
  processes do while this one sleeps is the parameter \<open>other\<close>.
\<close>

abbreviation (input) SHM_SIZE :: nat where "SHM_SIZE \<equiv> 4096"
abbreviation (input) RETRY_LIMIT :: nat where "RETRY_LIMIT \<equiv> 3"
abbreviation (input) call_ok :: "schedule \<Rightarrow> bool \<times> schedule" where "call_ok \<equiv> malloc_ok"

text \<open>
  The value of the semaphore, if it exists; whether an operation was done on it
  (\<open>sem_otime\<close>); the content of the segment, if it exists.
\<close>

record ipc =
  ipc_sem :: "int option"
  ipc_otime :: bool
  ipc_shm :: "byte list option"

subsection \<open>The semaphore\<close>

text \<open>The loop that waits for another process to initialise the semaphore.\<close>

fun wait_initialized :: "(ipc \<Rightarrow> ipc) \<Rightarrow> nat \<Rightarrow> ipc \<Rightarrow> bool \<times> ipc" where
  "wait_initialized other 0 st = (False, st)"
| "wait_initialized other (Suc n) st =
     (if ipc_otime st then (True, st) else wait_initialized other n (other st))"

text \<open>\<open>zombie_semaphore_get\<close>: whether an identifier was obtained.\<close>

definition zombie_semaphore_get :: "(ipc \<Rightarrow> ipc) \<Rightarrow> ipc \<Rightarrow> schedule \<Rightarrow> bool \<times> ipc \<times> schedule" where
  "zombie_semaphore_get other st calls =
     (case call_ok calls of
        (False, calls) \<Rightarrow> (False, st, calls)
      | (True, calls) \<Rightarrow>
          (case ipc_sem st of
             None \<Rightarrow>
               (case call_ok calls of
                  (False, calls) \<Rightarrow> (False, st\<lparr>ipc_sem := None, ipc_otime := False\<rparr>, calls)
                | (True, calls) \<Rightarrow> (True, st\<lparr>ipc_sem := Some 1, ipc_otime := True\<rparr>, calls))
           | Some v \<Rightarrow>
               (case call_ok calls of
                  (False, calls) \<Rightarrow> (False, st, calls)
                | (True, calls) \<Rightarrow>
                    (case wait_initialized other RETRY_LIMIT st of (ok, st) \<Rightarrow> (ok, st, calls)))))"

text \<open>
  \<open>zombie_semaphore_lock\<close>: up to three attempts, a second apart. It returns nothing; the
  Boolean, whether the semaphore was taken, is not seen by any caller.
\<close>

fun zombie_semaphore_lock ::
  "(ipc \<Rightarrow> ipc) \<Rightarrow> nat \<Rightarrow> ipc \<Rightarrow> schedule \<Rightarrow> bool \<times> ipc \<times> schedule" where
  "zombie_semaphore_lock other 0 st calls = (False, st, calls)"
| "zombie_semaphore_lock other (Suc n) st calls =
     (case call_ok calls of
        (False, calls) \<Rightarrow> (False, st, calls)
      | (True, calls) \<Rightarrow>
          (case ipc_sem st of
             None \<Rightarrow> (False, st, calls)
           | Some v \<Rightarrow>
               if 1 \<le> v then (True, st\<lparr>ipc_sem := Some (v - 1), ipc_otime := True\<rparr>, calls)
               else zombie_semaphore_lock other n (other st) calls))"

definition zombie_semaphore_unlock :: "ipc \<Rightarrow> schedule \<Rightarrow> ipc \<times> schedule" where
  "zombie_semaphore_unlock st calls =
     (case call_ok calls of
        (False, calls) \<Rightarrow> (st, calls)
      | (True, calls) \<Rightarrow>
          (case ipc_sem st of
             None \<Rightarrow> (st, calls)
           | Some v \<Rightarrow> (st\<lparr>ipc_sem := Some (v + 1), ipc_otime := True\<rparr>, calls)))"

subsection \<open>The segment\<close>

definition unlock_fail :: "ipc \<Rightarrow> schedule \<Rightarrow> int \<times> ipc \<times> schedule" where
  "unlock_fail st calls =
     (case zombie_semaphore_unlock st calls of (st, calls) \<Rightarrow> (- EIO, st, calls))"

text \<open>The last \<open>shmget\<close>, by key.\<close>

definition shmget_again :: "ipc \<Rightarrow> schedule \<Rightarrow> int \<times> ipc \<times> schedule" where
  "shmget_again st calls =
     (case call_ok calls of
        (False, calls) \<Rightarrow> unlock_fail st calls
      | (True, calls) \<Rightarrow> (0, st, calls))"

definition get_zombie_shared_mem_locked ::
  "(ipc \<Rightarrow> ipc) \<Rightarrow> ipc \<Rightarrow> schedule \<Rightarrow> int \<times> ipc \<times> schedule" where
  "get_zombie_shared_mem_locked other st calls =
     (case zombie_semaphore_get other st calls of
        (False, st, calls) \<Rightarrow> (- EIO, st, calls)
      | (True, st, calls) \<Rightarrow>
          (case zombie_semaphore_lock other RETRY_LIMIT st calls of
             (_, st, calls) \<Rightarrow>
               (case call_ok calls of
                  (False, calls) \<Rightarrow> unlock_fail st calls
                | (True, calls) \<Rightarrow>
                    (case ipc_shm st of
                       Some m \<Rightarrow> shmget_again st calls
                     | None \<Rightarrow>
                         let st = st\<lparr>ipc_shm := Some (replicate SHM_SIZE 0)\<rparr> in
                         (case call_ok calls of
                            (False, calls) \<Rightarrow> unlock_fail st calls
                          | (True, calls) \<Rightarrow>
                              (case call_ok calls of
                                 (False, calls) \<Rightarrow> unlock_fail st calls
                               | (True, calls) \<Rightarrow> shmget_again st calls))))))"

subsection \<open>The table\<close>

definition pair_at :: "host \<Rightarrow> byte list \<Rightarrow> nat \<Rightarrow> (u32 \<times> u32) option" where
  "pair_at h shm i = do {
     s \<leftarrow> rd_bytes shm i 4;
     p \<leftarrow> rd_bytes shm (i + 4) 4;
     Some (ntoh h 4 (load_word h s), ntoh h 4 (load_word h p)) }"

datatype scan_end = Empty_Slot | Match | No_Space

text \<open>
  The loop the operations share: why it ended, the position after the last pair read, and
  the process number of that pair.
\<close>

function shm_scan ::
  "host \<Rightarrow> (u32 \<Rightarrow> bool) \<Rightarrow> byte list \<Rightarrow> nat \<Rightarrow> u32 \<Rightarrow> u32 \<Rightarrow> (scan_end \<times> nat \<times> u32) option" where
  "shm_scan h stop shm i sid_tmp pid_tmp =
     (if sid_tmp = 0 \<and> pid_tmp = 0 then Some (Empty_Slot, i, pid_tmp)
      else if stop sid_tmp then Some (Match, i, pid_tmp)
      else if SHM_SIZE < i + 8 then Some (No_Space, i, pid_tmp)
      else (case pair_at h shm i of
              None \<Rightarrow> None
            | Some (s, p) \<Rightarrow> shm_scan h stop shm (i + 8) s p))"
  by pat_completeness auto
termination
  by (relation "measure (\<lambda>(h, stop, shm, i, s, p). SHM_SIZE - i)") auto

declare shm_scan.simps [simp del]

definition shm_scan_all ::
  "host \<Rightarrow> (u32 \<Rightarrow> bool) \<Rightarrow> byte list \<Rightarrow> (scan_end \<times> nat \<times> u32) option" where
  "shm_scan_all h stop shm = do {
     (s, p) \<leftarrow> pair_at h shm 0;
     shm_scan h stop shm 8 s p }"

text \<open>The work on the attached segment, without \<open>shmat\<close> and \<open>shmdt\<close>.\<close>

definition shm_find :: "host \<Rightarrow> u32 \<Rightarrow> byte list \<Rightarrow> u32 option" where
  "shm_find h sid shm = do {
     (e, i, pid_tmp) \<leftarrow> shm_scan_all h (\<lambda>s. s = sid) shm;
     Some (if e = Match then pid_tmp else 0) }"

definition shm_remove :: "host \<Rightarrow> u32 \<Rightarrow> byte list \<Rightarrow> schedule \<Rightarrow> (int \<times> byte list \<times> schedule) option" where
  "shm_remove h sid shm calls = do {
     (e, i, pid_tmp) \<leftarrow> shm_scan_all h (\<lambda>s. s = sid) shm;
     let pid = (if e = Match then pid_tmp else 0);
     if pid = 0 then Some (0, shm, calls)
     else
       let remainder = SHM_SIZE - i in
       if remainder \<noteq> 0 then
         (case call_ok calls of
            (False, calls) \<Rightarrow> Some (- ENOMEM, shm, calls)
          | (True, calls) \<Rightarrow> do {
              tmp \<leftarrow> rd_bytes shm i remainder;
              shm \<leftarrow> wr_bytes shm (i - 8) tmp;
              shm \<leftarrow> wr_bytes shm (i - 8 + remainder) (replicate 8 0);
              Some (0, shm, calls) })
       else do {
         shm \<leftarrow> wr_bytes shm (i - 8) (replicate 8 0);
         Some (0, shm, calls) } }"

definition shm_add :: "host \<Rightarrow> u32 \<Rightarrow> u32 \<Rightarrow> byte list \<Rightarrow> (int \<times> byte list) option" where
  "shm_add h sid pid shm = do {
     (e, i, _) \<leftarrow> shm_scan_all h (\<lambda>s. False) shm;
     if e = No_Space then Some (- ENOMEM, shm)
     else do {
       shm \<leftarrow> wr_bytes shm (i - 8) (store_word h 4 (ntoh h 4 sid));
       shm \<leftarrow> wr_bytes shm (i - 8 + 4) (store_word h 4 (ntoh h 4 pid));
       if i + 8 \<le> SHM_SIZE then do {
         shm \<leftarrow> wr_bytes shm i (replicate (i + 8) 0);
         Some (0, shm) }
       else Some (0, shm) } }"

subsection \<open>The operations of the library\<close>

text \<open>\<open>shmdt\<close> at the end of an operation.\<close>

definition detach :: "schedule \<Rightarrow> int \<times> schedule" where
  "detach calls = (case call_ok calls of (ok, calls) \<Rightarrow> (if ok then 0 else - EIO, calls))"

definition list_pid_sid_pairs :: "host \<Rightarrow> byte list \<Rightarrow> schedule \<Rightarrow> (int \<times> schedule) option" where
  "list_pid_sid_pairs h shm calls =
     (case call_ok calls of
        (False, calls) \<Rightarrow> Some (- EIO, calls)
      | (True, calls) \<Rightarrow> do {
          shm_scan_all h (\<lambda>s. False) shm;
          Some (detach calls) })"

text \<open>The status and \<open>*pid\<close>.\<close>

definition find_pid_for_this_sid ::
  "host \<Rightarrow> u32 \<Rightarrow> byte list \<Rightarrow> schedule \<Rightarrow> (int \<times> u32 \<times> schedule) option" where
  "find_pid_for_this_sid h sid shm calls =
     (case call_ok calls of
        (False, calls) \<Rightarrow> Some (- EIO, 0, calls)
      | (True, calls) \<Rightarrow> do {
          pid \<leftarrow> shm_find h sid shm;
          (case detach calls of
             (rc, calls) \<Rightarrow> Some (rc, if rc \<noteq> 0 then 0 else pid, calls)) })"

definition remove_pid_for_this_sid ::
  "host \<Rightarrow> u32 \<Rightarrow> byte list \<Rightarrow> schedule \<Rightarrow> (int \<times> byte list \<times> schedule) option" where
  "remove_pid_for_this_sid h sid shm calls =
     (case call_ok calls of
        (False, calls) \<Rightarrow> Some (- EIO, shm, calls)
      | (True, calls) \<Rightarrow> do {
          (rc, shm, calls) \<leftarrow> shm_remove h sid shm calls;
          (case detach calls of
             (rc', calls) \<Rightarrow> Some (if rc \<noteq> 0 then rc else rc', shm, calls)) })"

definition add_sid_pid_pair_to_shm ::
  "host \<Rightarrow> u32 \<Rightarrow> u32 \<Rightarrow> byte list \<Rightarrow> schedule \<Rightarrow> (int \<times> byte list \<times> schedule) option" where
  "add_sid_pid_pair_to_shm h sid pid shm calls =
     (case call_ok calls of
        (False, calls) \<Rightarrow> Some (- EIO, shm, snd (call_ok calls))
      | (True, calls) \<Rightarrow> do {
          (rc, shm) \<leftarrow> shm_add h sid pid shm;
          (case detach calls of
             (rc', calls) \<Rightarrow> Some (if rc \<noteq> 0 then rc else rc', shm, calls)) })"

text \<open>
  \<open>ecryptfs_set_zombie_session_placeholder\<close>; \<open>nap\<close> is what happens during the sleep of 300
  seconds.
\<close>

definition ecryptfs_set_zombie_session_placeholder ::
  "host \<Rightarrow> (ipc \<Rightarrow> ipc) \<Rightarrow> (ipc \<Rightarrow> ipc) \<Rightarrow> u32 \<Rightarrow> u32 \<Rightarrow> ipc \<Rightarrow> schedule
   \<Rightarrow> (int proc \<times> ipc \<times> schedule) option" where
  "ecryptfs_set_zombie_session_placeholder h other nap sid pid st calls =
     (case get_zombie_shared_mem_locked other st calls of
        (rc, st, calls) \<Rightarrow>
          if rc \<noteq> 0 then Some (Returned rc, st, calls)
          else do {
            shm \<leftarrow> ipc_shm st;
            (rc, shm, calls) \<leftarrow> add_sid_pid_pair_to_shm h sid pid shm calls;
            (case zombie_semaphore_unlock (st\<lparr>ipc_shm := Some shm\<rparr>) calls of
               (st, calls) \<Rightarrow>
                 if rc \<noteq> 0 then Some (Returned rc, st, calls)
                 else (case get_zombie_shared_mem_locked other (nap st) calls of
                   (rc, st, calls) \<Rightarrow>
                     if rc \<noteq> 0 then Some (Returned rc, st, calls)
                     else do {
                       shm \<leftarrow> ipc_shm st;
                       (rc, shm, calls) \<leftarrow> remove_pid_for_this_sid h sid shm calls;
                       (case zombie_semaphore_unlock (st\<lparr>ipc_shm := Some shm\<rparr>) calls of
                          (st, calls) \<Rightarrow>
                            Some (if rc \<noteq> 0 then Returned rc else Process_Exit 1, st, calls)) })) })"

text \<open>
  \<open>ecryptfs_kill_and_clear_zombie_session_placeholder\<close>: the status, the process that was sent
  \<open>SIGKILL\<close>, the state. \<open>kill\<close> is the result of the system call.
\<close>

definition ecryptfs_kill_and_clear_zombie_session_placeholder ::
  "host \<Rightarrow> (ipc \<Rightarrow> ipc) \<Rightarrow> (u32 \<Rightarrow> int) \<Rightarrow> u32 \<Rightarrow> ipc \<Rightarrow> schedule
   \<Rightarrow> (int \<times> u32 option \<times> ipc \<times> schedule) option" where
  "ecryptfs_kill_and_clear_zombie_session_placeholder h other kill sid st calls =
     (case get_zombie_shared_mem_locked other st calls of
        (rc, st, calls) \<Rightarrow>
          if rc \<noteq> 0 then Some (rc, None, st, calls)
          else do {
            shm \<leftarrow> ipc_shm st;
            (rc, pid, calls) \<leftarrow> find_pid_for_this_sid h sid shm calls;
            if rc \<noteq> 0 then
              (case zombie_semaphore_unlock st calls of (st, calls) \<Rightarrow> Some (rc, None, st, calls))
            else if pid = 0 then
              (case zombie_semaphore_unlock st calls of (st, calls) \<Rightarrow> Some (rc, None, st, calls))
            else do {
              let rc = kill pid;
              (rc, shm, calls) \<leftarrow> remove_pid_for_this_sid h sid shm calls;
              (case zombie_semaphore_unlock (st\<lparr>ipc_shm := Some shm\<rparr>) calls of
                 (st, calls) \<Rightarrow> Some (rc, Some pid, st, calls)) } })"

definition ecryptfs_list_zombie_session_placeholders ::
  "host \<Rightarrow> (ipc \<Rightarrow> ipc) \<Rightarrow> ipc \<Rightarrow> schedule \<Rightarrow> (int \<times> ipc \<times> schedule) option" where
  "ecryptfs_list_zombie_session_placeholders h other st calls =
     (case get_zombie_shared_mem_locked other st calls of
        (rc, st, calls) \<Rightarrow>
          if rc \<noteq> 0 then Some (rc, st, calls)
          else do {
            shm \<leftarrow> ipc_shm st;
            (rc, calls) \<leftarrow> list_pid_sid_pairs h shm calls;
            (case zombie_semaphore_unlock st calls of (st, calls) \<Rightarrow> Some (rc, st, calls)) })"

subsection \<open>The table as a list of slots\<close>

definition enc_pair :: "u32 \<times> u32 \<Rightarrow> byte list" where
  "enc_pair q = be_bytes 4 (unat (fst q)) @ be_bytes 4 (unat (snd q))"

definition slots :: "(u32 \<times> u32) list \<Rightarrow> byte list" where
  "slots qs = concat (map enc_pair qs)"

text \<open>A segment that holds the pairs \<open>ps\<close>, with zero bytes in the other slots.\<close>

definition table :: "(u32 \<times> u32) list \<Rightarrow> byte list" where
  "table ps = slots (ps @ replicate (512 - length ps) (0, 0))"

lemma slots_simps [simp]:
  "slots [] = []" "slots (q # qs) = enc_pair q @ slots qs" "slots (xs @ ys) = slots xs @ slots ys"
  by (simp_all add: slots_def)

lemma length_enc_pair [simp]: "length (enc_pair q) = 8"
  by (simp add: enc_pair_def)

lemma length_slots [simp]: "length (slots qs) = 8 * length qs"
  by (induction qs) auto

lemma word_of_be_bytes: "word_of_nat (be_nat (be_bytes 4 (unat w))) = (w :: u32)"
  using unat_less_width [of w] by (simp add: be_nat_be_bytes)

lemma pair_at_slot: "pair_at h (slots pre @ enc_pair q @ rest) (8 * length pre) = Some q"
proof -
  obtain s p where q: "q = (s, p)" by (cases q)
  have "rd_bytes (slots pre @ be_bytes 4 (unat s) @ (be_bytes 4 (unat p) @ rest)) (8 * length pre) 4
      = Some (be_bytes 4 (unat s))"
    by (rule rd_bytes_mid') simp_all
  moreover have "rd_bytes ((slots pre @ be_bytes 4 (unat s)) @ be_bytes 4 (unat p) @ rest)
      (8 * length pre + 4) 4 = Some (be_bytes 4 (unat p))"
    by (rule rd_bytes_mid') simp_all
  ultimately show ?thesis
    by (simp add: pair_at_def q enc_pair_def ntoh_load_word word_of_be_bytes)
qed

lemma pair_at_nth: "k < length qs \<Longrightarrow> pair_at h (slots qs) (8 * k) = Some (qs ! k)"
  using pair_at_slot [of h "take k qs" "qs ! k" "slots (drop (Suc k) qs)"]
  by (simp flip: slots_simps add: id_take_nth_drop [symmetric])

lemma scan_to:
  assumes "length qs = 512" "j < 512" "\<forall>k<j. qs ! k \<noteq> (0, 0) \<and> \<not> stop (fst (qs ! k))" "k \<le> j"
  shows "shm_scan h stop (slots qs) (8 * Suc k) (fst (qs ! k)) (snd (qs ! k))
    = shm_scan h stop (slots qs) (8 * Suc j) (fst (qs ! j)) (snd (qs ! j))"
  using assms(4)
proof (induction rule: inc_induct)
  case (step k)
  then have k: "qs ! k \<noteq> (0, 0)" "\<not> stop (fst (qs ! k))" "Suc k < 512" using assms(2,3) by auto
  then have "\<not> (fst (qs ! k) = 0 \<and> snd (qs ! k) = 0)" by (simp add: prod_eq_iff)
  moreover have "pair_at h (slots qs) (8 * Suc k) = Some (qs ! Suc k)"
    using k(3) assms(1) by (intro pair_at_nth) simp
  ultimately have "shm_scan h stop (slots qs) (8 * Suc k) (fst (qs ! k)) (snd (qs ! k))
      = shm_scan h stop (slots qs) (8 * Suc (Suc k)) (fst (qs ! Suc k)) (snd (qs ! Suc k))"
    using k by (subst shm_scan.simps) (auto simp: case_prod_beta add.commute)
  with step.IH show ?case by simp
qed simp

lemma scan_all_to:
  assumes "length qs = 512" "j < 512" "\<forall>k<j. qs ! k \<noteq> (0, 0) \<and> \<not> stop (fst (qs ! k))"
  shows "shm_scan_all h stop (slots qs)
    = shm_scan h stop (slots qs) (8 * Suc j) (fst (qs ! j)) (snd (qs ! j))"
  using scan_to [OF assms, of 0 h] pair_at_nth [of 0 qs h] assms(1)
  by (simp add: shm_scan_all_def case_prod_beta)

subsection \<open>Scanning a table\<close>

definition pids_ok :: "(u32 \<times> u32) list \<Rightarrow> bool" where
  "pids_ok ps \<longleftrightarrow> length ps \<le> 512 \<and> (\<forall>q \<in> set ps. snd q \<noteq> 0)"

lemma pids_ok_nth: "pids_ok ps \<Longrightarrow> k < length ps \<Longrightarrow> ps ! k \<noteq> (0, 0)"
  unfolding pids_ok_def by (metis nth_mem snd_conv)

lemma length_table [simp]: "length ps \<le> 512 \<Longrightarrow> length (table ps) = 4096"
  by (simp add: table_def)

lemma scan_table_match:
  assumes "pids_ok (pre @ (s, p) # post)" "\<forall>q \<in> set pre. \<not> stop (fst q)" "stop s"
  shows "shm_scan_all h stop (table (pre @ (s, p) # post)) = Some (Match, 8 * Suc (length pre), p)"
proof -
  define qs where "qs = (pre @ (s, p) # post)
    @ replicate (512 - length (pre @ (s, p) # post)) ((0, 0) :: u32 \<times> u32)"
  have "length qs = 512" "length pre < 512" "qs ! length pre = (s, p)"
    using assms(1) by (simp_all add: qs_def pids_ok_def nth_append)
  moreover have "pids_ok pre" using assms(1) by (simp add: pids_ok_def)
  then have "\<forall>k<length pre. qs ! k \<noteq> (0, 0) \<and> \<not> stop (fst (qs ! k))"
    using assms(2) pids_ok_nth by (auto simp: qs_def nth_append)
  moreover have "p \<noteq> 0" using assms(1) by (simp add: pids_ok_def)
  ultimately show ?thesis
    using scan_all_to [of qs "length pre" stop h] assms(3)
    unfolding table_def qs_def [symmetric] by (simp add: shm_scan.simps)
qed

lemma scan_table_end:
  assumes "pids_ok ps" "\<forall>q \<in> set ps. \<not> stop (fst q)"
  shows "shm_scan_all h stop (table ps) =
    (if length ps < 512 then Some (Empty_Slot, 8 * Suc (length ps), 0)
     else Some (No_Space, 4096, snd (last ps)))"
proof (cases "length ps < 512")
  case True
  define qs where "qs = ps @ replicate (512 - length ps) ((0, 0) :: u32 \<times> u32)"
  have "length qs = 512" "qs ! length ps = (0, 0)"
    using True by (simp_all add: qs_def nth_append)
  moreover have "\<forall>k<length ps. qs ! k \<noteq> (0, 0) \<and> \<not> stop (fst (qs ! k))"
    using assms(2) pids_ok_nth [OF assms(1)] by (auto simp: qs_def nth_append)
  ultimately show ?thesis
    using True scan_all_to [of qs "length ps" stop h]
    unfolding table_def qs_def [symmetric] by (simp add: shm_scan.simps)
next
  case False
  then have len: "length ps = 512" using assms(1) by (simp add: pids_ok_def)
  then have l: "ps ! 511 = last ps" by (subst last_conv_nth) auto
  have "\<forall>k<511. ps ! k \<noteq> (0, 0) \<and> \<not> stop (fst (ps ! k))"
    using assms(2) pids_ok_nth [OF assms(1)] len by auto
  moreover have "last ps \<in> set ps" using len by (intro last_in_set) auto
  then have "snd (last ps) \<noteq> 0" "\<not> stop (fst (last ps))" using assms by (auto simp: pids_ok_def)
  ultimately show ?thesis
    using len scan_all_to [of ps 511 stop h] l by (simp add: table_def shm_scan.simps)
qed

text \<open>Splitting a table at the first pair of a session.\<close>

lemma first_match:
  obtains (found) pre p post where "ps = pre @ (sid, p) # post" "\<forall>q \<in> set pre. fst q \<noteq> sid"
    "map_of ps sid = Some p"
  | (missing) "\<forall>q \<in> set ps. fst q \<noteq> sid" "map_of ps sid = None"
proof (cases "map_of ps sid")
  case None
  then show thesis using missing by (auto simp: map_of_eq_None_iff)
next
  case (Some p)
  then have "\<exists>q \<in> set ps. fst q = sid" by (force dest: map_of_SomeD)
  then obtain pre q post where s: "ps = pre @ q # post" "fst q = sid" "\<forall>q' \<in> set pre. fst q' \<noteq> sid"
    using split_list_first_prop [of ps "\<lambda>q. fst q = sid"] by blast
  then have "map_of pre sid = None" by (auto simp: map_of_eq_None_iff)
  then have "q = (sid, p)" using Some s by (cases q) (simp add: map_add_def)
  then show thesis using found [of pre p post] s Some by simp
qed

subsection \<open>The operations on a table\<close>

lemma find_table:
  assumes "pids_ok ps"
  shows "shm_find h sid (table ps) = Some (case map_of ps sid of None \<Rightarrow> 0 | Some p \<Rightarrow> p)"
proof (cases rule: first_match [of ps sid])
  case (found pre p post)
  then show ?thesis
    using scan_table_match [of pre sid p post "\<lambda>s. s = sid" h] assms by (simp add: shm_find_def)
next
  case missing
  then show ?thesis
    using scan_table_end [OF assms, of "\<lambda>s. s = sid" h] by (simp add: shm_find_def)
qed

text \<open>The list without the first pair of a session.\<close>

fun drop_session :: "'s \<Rightarrow> ('s \<times> 'p) list \<Rightarrow> ('s \<times> 'p) list" where
  "drop_session sid [] = []"
| "drop_session sid (q # qs) = (if fst q = sid then qs else q # drop_session sid qs)"

lemma drop_session_found:
  "\<forall>q \<in> set pre. fst q \<noteq> sid \<Longrightarrow> drop_session sid (pre @ (sid, p) # post) = pre @ post"
  by (induction pre) auto

lemma drop_session_missing: "\<forall>q \<in> set ps. fst q \<noteq> sid \<Longrightarrow> drop_session sid ps = ps"
  by (induction ps) auto

lemma be_bytes_zero [simp]: "be_bytes n 0 = replicate n 0"
  by (induction n) (simp_all add: replicate_append_same)

lemma enc_pair_zero_halves: "enc_pair (0, 0) = replicate 4 0 @ replicate 4 0"
  by (simp add: enc_pair_def)

lemma enc_pair_zero: "enc_pair (0, 0) = replicate 8 0"
  using replicate_add [of 4 4 "0 :: byte"] by (simp add: enc_pair_zero_halves)

lemma slots_zero: "slots (replicate n (0, 0)) = replicate (8 * n) 0"
proof (induction n)
  case (Suc n)
  then have "slots (replicate (Suc n) (0, 0)) = replicate 8 0 @ replicate (8 * n) 0"
    by (simp add: enc_pair_zero)
  also have "\<dots> = replicate (8 + 8 * n) 0" by (simp only: replicate_add)
  finally show ?case by simp
qed simp

lemma wr_bytes_mid:
  "i = length xs \<Longrightarrow> length zs = length ys \<Longrightarrow> wr_bytes (xs @ ys @ r) i zs = Some (xs @ zs @ r)"
  by (simp add: wr_bytes_def)

text \<open>Closing the gap of one slot: the bytes after it move down, and zeros take the last.\<close>

lemma move_down:
  assumes "length a = i" "length d = 8"
  shows "wr_bytes (a @ d @ r) i r = Some (a @ r @ drop (length r) (d @ r))"
  using assms by (simp add: wr_bytes_def)

lemma remove_table:
  assumes "pids_ok ps"
  shows "shm_remove h sid (table ps) [] = Some (0, table (drop_session sid ps), [])"
proof (cases rule: first_match [of ps sid])
  case missing
  then show ?thesis
    using scan_table_end [OF assms, of "\<lambda>s. s = sid" h]
    by (simp add: shm_remove_def drop_session_missing)
next
  case (found pre p post)
  define n where "n = 512 - length ps"
  define r where "r = slots (post @ replicate n (0, 0))"
  have len: "length pre + length post + 1 + n = 512"
    using assms found(1) by (simp add: n_def pids_ok_def)
  have t: "table ps = slots pre @ enc_pair (sid, p) @ r"
    by (simp add: table_def r_def found(1) n_def)
  have r: "length r = 4096 - 8 * Suc (length pre)" using len by (simp add: r_def)
  have "512 - length (pre @ post) = Suc n" using len by simp
  moreover have "replicate (Suc n) ((0, 0) :: u32 \<times> u32) = replicate n (0, 0) @ [(0, 0)]"
    by (simp add: replicate_append_same)
  ultimately have t': "table (pre @ post) = slots pre @ r @ replicate 8 0"
    by (simp add: table_def r_def enc_pair_zero del: replicate_Suc)
  have p: "p \<noteq> 0" using assms found(1) by (simp add: pids_ok_def)
  have scan: "shm_scan_all h (\<lambda>s. s = sid) (table ps) = Some (Match, 8 * Suc (length pre), p)"
    using scan_table_match [of pre sid p post "\<lambda>s. s = sid" h] assms found by simp
  obtain d where d: "d = drop (length r) (enc_pair (sid, p) @ r)" "length d = 8" by simp
  have one: "wr_bytes (table ps) (8 * length pre) r = Some (slots pre @ r @ d)"
    unfolding t d(1) by (rule move_down) simp_all
  have two: "wr_bytes (slots pre @ r @ d) 4088 (replicate 8 0) = Some (slots pre @ r @ replicate 8 0)"
    using wr_bytes_mid [of 4088 "slots pre @ r" "replicate 8 0" d "[]"] d(2) r len by simp
  have tmp: "rd_bytes (table ps) (8 * Suc (length pre)) (length r) = Some r"
    unfolding t using rd_bytes_mid' [of "8 * Suc (length pre)" "slots pre @ enc_pair (sid, p)"
        "length r" r "[]"] by simp
  have t'': "table (drop_session sid ps) = slots pre @ r @ replicate 8 0"
    using t' found by (simp add: drop_session_found)
  show ?thesis
  proof (cases "r = []")
    case True
    then have "length pre = 511" using r len by simp
    moreover have "wr_bytes (table ps) 4088 (replicate 8 0) = Some (slots pre @ replicate 8 0)"
      using wr_bytes_mid [of 4088 "slots pre" "replicate 8 0" "enc_pair (sid, p)" "[]"] t True calculation
      by simp
    ultimately show ?thesis using scan p t'' True by (simp add: shm_remove_def)
  next
    case False
    then have "length r \<noteq> 0" by simp
    then have "length pre < 511" using r by arith
    then show ?thesis using scan p one two tmp r t'' by (simp add: shm_remove_def Let_def)
  qed
qed

lemma add_table_write:
  assumes "pids_ok ps" "length ps < 512" "ps' = ps @ [(sid, pid)]"
  shows "shm_add h sid pid (table ps) =
    (if 8 * Suc (length ps) + 8 \<le> 4096
     then map_option (Pair 0) (wr_bytes (table ps') (8 * Suc (length ps))
            (replicate (8 * Suc (length ps) + 8) 0))
     else Some (0, table ps'))"
proof -
  define n where "n = 511 - length ps"
  have "512 - length ps = Suc n" using assms(2) by (simp add: n_def)
  then have t: "table ps = slots ps @ replicate 4 0 @ replicate 4 0 @ slots (replicate n (0, 0))"
    by (simp add: table_def enc_pair_zero_halves)
  have t': "table ps' = slots ps @ be_bytes 4 (unat sid) @ be_bytes 4 (unat pid)
      @ slots (replicate n (0, 0))"
    by (simp add: table_def assms(3) enc_pair_def n_def)
  have st: "store_word h 4 (ntoh h 4 w) = be_bytes 4 (unat w)" for w :: u32
    by (rule store_word_hton) simp
  have one: "wr_bytes (table ps) (8 * length ps) (be_bytes 4 (unat sid)) = Some
      (slots ps @ be_bytes 4 (unat sid) @ replicate 4 0 @ slots (replicate n (0, 0)))"
    unfolding t by (rule wr_bytes_mid) simp_all
  have two: "wr_bytes ((slots ps @ be_bytes 4 (unat sid)) @ replicate 4 0 @ slots (replicate n (0, 0)))
      (8 * length ps + 4) (be_bytes 4 (unat pid)) = Some
      ((slots ps @ be_bytes 4 (unat sid)) @ be_bytes 4 (unat pid) @ slots (replicate n (0, 0)))"
    by (rule wr_bytes_mid) simp_all
  have "shm_scan_all h (\<lambda>s. False) (table ps) = Some (Empty_Slot, 8 * Suc (length ps), 0)"
    using scan_table_end [OF assms(1), of "\<lambda>s. False" h] assms(2) by simp
  then show ?thesis
    using one two unfolding t'
    by (simp add: shm_add_def st map_conv_bind_option comp_def)
qed

text \<open>Adding to a table, by the number of pairs it has.\<close>

lemma add_table:
  assumes "pids_ok ps"
  shows "shm_add h sid pid (table ps) =
    (if length ps < 255 \<or> length ps = 511 then Some (0, table (ps @ [(sid, pid)]))
     else if length ps = 512 then Some (- ENOMEM, table ps) else None)"
proof -
  define i where "i = 8 * Suc (length ps)"
  consider "length ps = 512" | "length ps = 511" | "length ps < 255" | "255 \<le> length ps" "length ps < 511"
    using assms unfolding pids_ok_def by linarith
  then show ?thesis
  proof cases
    case 1
    then show ?thesis using scan_table_end [OF assms, of "\<lambda>s. False" h] by (simp add: shm_add_def)
  next
    case 2
    then show ?thesis using add_table_write [OF assms, of "ps @ [(sid, pid)]" sid pid h] by simp
  next
    case 3
    define n where "n = 511 - length ps"
    have t: "table (ps @ [(sid, pid)]) = slots (ps @ [(sid, pid)]) @ replicate (i + 8) 0
        @ replicate (8 * n - (i + 8)) 0"
      using 3 by (simp add: table_def n_def i_def slots_zero replicate_add [symmetric])
    have "wr_bytes (table (ps @ [(sid, pid)])) i (replicate (i + 8) 0) = Some (table (ps @ [(sid, pid)]))"
      unfolding t by (rule wr_bytes_mid) (simp_all add: i_def)
    then show ?thesis
      using 3 add_table_write [OF assms, of "ps @ [(sid, pid)]" sid pid h] by (simp add: i_def)
  next
    case 4
    then have "wr_bytes (table (ps @ [(sid, pid)])) i (replicate (i + 8) 0) = None"
      by (simp add: wr_bytes_def i_def)
    then show ?thesis
      using 4 add_table_write [OF assms, of "ps @ [(sid, pid)]" sid pid h] by (simp add: i_def)
  qed
qed

subsection \<open>The contract of a session table\<close>

locale session_table =
  fixes rep :: "('s \<times> 'p) list \<Rightarrow> 'm"
    and ok :: "('s \<times> 'p) list \<Rightarrow> bool"
    and cap :: nat
    and find_pid :: "'s \<Rightarrow> 'm \<Rightarrow> 'p option"
    and remove_pid :: "'s \<Rightarrow> 'm \<Rightarrow> 'm option"
    and add_pid :: "'s \<Rightarrow> 'p \<Rightarrow> 'm \<Rightarrow> 'm option"
  assumes find_rep: "ok ps \<Longrightarrow> find_pid s (rep ps) = map_of ps s"
    and remove_rep: "ok ps \<Longrightarrow> remove_pid s (rep ps) = Some (rep (drop_session s ps))"
    and add_rep: "ok ps \<Longrightarrow> length ps < cap \<Longrightarrow> add_pid s p (rep ps) = Some (rep (ps @ [(s, p)]))"
begin

lemma drop_session_snoc: "map_of ps s = None \<Longrightarrow> drop_session s (ps @ [(s, p)]) = ps"
  by (induction ps) (auto split: if_splits)

lemma find_after_add:
  assumes "ok ps" "ok (ps @ [(s, p)])" "length ps < cap" "map_of ps s = None"
  shows "Option.bind (add_pid s p (rep ps)) (find_pid s) = Some p"
  using assms by (simp add: add_rep find_rep map_add_def)

lemma remove_after_add:
  assumes "ok ps" "ok (ps @ [(s, p)])" "length ps < cap" "map_of ps s = None"
  shows "Option.bind (add_pid s p (rep ps)) (remove_pid s) = Some (rep ps)"
  using assms by (simp add: add_rep remove_rep drop_session_snoc)

lemma map_of_drop_session: "t \<noteq> s \<Longrightarrow> map_of (drop_session s ps) t = map_of ps t"
  by (induction ps) auto

lemma find_other_after_remove:
  assumes "ok ps" "ok (drop_session s ps)" "t \<noteq> s"
  shows "Option.bind (remove_pid s (rep ps)) (find_pid t) = find_pid t (rep ps)"
  using assms by (simp add: remove_rep find_rep map_of_drop_session)

end

definition find_entry :: "host \<Rightarrow> u32 \<Rightarrow> byte list \<Rightarrow> u32 option" where
  "find_entry h sid shm =
     (case shm_find h sid shm of None \<Rightarrow> None | Some p \<Rightarrow> if p = 0 then None else Some p)"

definition remove_entry :: "host \<Rightarrow> u32 \<Rightarrow> byte list \<Rightarrow> byte list option" where
  "remove_entry h sid shm = map_option (\<lambda>(rc, shm, _). shm) (shm_remove h sid shm [])"

definition add_entry :: "host \<Rightarrow> u32 \<Rightarrow> u32 \<Rightarrow> byte list \<Rightarrow> byte list option" where
  "add_entry h sid pid shm = map_option snd (shm_add h sid pid shm)"

lemma pids_ok_drop: "pids_ok ps \<Longrightarrow> pids_ok (drop_session s ps)"
proof -
  have "length (drop_session s ps) \<le> length ps \<and> set (drop_session s ps) \<subseteq> set ps"
    by (induction ps) auto
  then show "pids_ok ps \<Longrightarrow> pids_ok (drop_session s ps)" by (auto simp: pids_ok_def)
qed

lemma pids_ok_map_of: "pids_ok ps \<Longrightarrow> map_of ps s = Some p \<Longrightarrow> p \<noteq> 0"
  by (force simp: pids_ok_def dest: map_of_SomeD)

interpretation zombie_table: session_table table pids_ok 255 "find_entry h" "remove_entry h" "add_entry h"
  for h
proof
  show "find_entry h s (table ps) = map_of ps s" if "pids_ok ps" for ps s
    using that pids_ok_map_of [OF that]
    by (auto simp: find_entry_def find_table split: option.split)
qed (simp_all add: remove_entry_def remove_table add_entry_def add_table)

subsection \<open>Lemmas on the locked operations\<close>

text \<open>What opening the segment does when it and the semaphore exist and no call fails.\<close>

lemma get_locked_free:
  assumes "ipc_sem st = Some v" "1 \<le> v" "ipc_otime st" "ipc_shm st = Some m"
  shows "get_zombie_shared_mem_locked other st [] = (0, st\<lparr>ipc_sem := Some (v - 1)\<rparr>, [])"
proof -
  have "st\<lparr>ipc_otime := True\<rparr> = st" using assms(3) by simp
  moreover have "zombie_semaphore_get other st [] = (True, st, [])"
    using assms by (simp add: zombie_semaphore_get_def eval_nat_numeral)
  moreover have "zombie_semaphore_lock other 3 st [] = (True, st\<lparr>ipc_sem := Some (v - 1), ipc_otime := True\<rparr>, [])"
    using assms by (simp add: eval_nat_numeral)
  ultimately show ?thesis
    using assms by (simp add: get_zombie_shared_mem_locked_def shmget_again_def)
qed

lemma get_locked_busy:
  assumes "ipc_sem st = Some 0" "ipc_otime st" "ipc_shm st = Some m"
  shows "get_zombie_shared_mem_locked (\<lambda>st. st) st [] = (0, st, [])"
proof -
  have "zombie_semaphore_get (\<lambda>st. st) st [] = (True, st, [])"
    using assms by (simp add: zombie_semaphore_get_def eval_nat_numeral)
  moreover have "zombie_semaphore_lock (\<lambda>st. st) 3 st [] = (False, st, [])"
    using assms by (simp add: eval_nat_numeral)
  ultimately show ?thesis
    using assms by (simp add: get_zombie_shared_mem_locked_def shmget_again_def)
qed

text \<open>The part of \<open>ecryptfs_kill_and_clear_zombie_session_placeholder\<close> after the lock.\<close>

lemma kill_and_clear_locked:
  assumes "get_zombie_shared_mem_locked other st [] = (0, st', [])"
    and "ipc_shm st' = Some (table ps)" "pids_ok ps" "map_of ps sid = Some p"
    and "ipc_sem st' = Some v" "ipc_otime st'"
  shows "ecryptfs_kill_and_clear_zombie_session_placeholder h other kill sid st []
    = Some (0, Some p, st'\<lparr>ipc_sem := Some (v + 1), ipc_shm := Some (table (drop_session sid ps))\<rparr>, [])"
proof -
  have "p \<noteq> 0" using pids_ok_map_of [OF assms(3,4)] .
  then show ?thesis
    using assms
    by (simp add: ecryptfs_kill_and_clear_zombie_session_placeholder_def find_pid_for_this_sid_def
        remove_pid_for_this_sid_def find_table remove_table detach_def zombie_semaphore_unlock_def)
qed

subsection \<open>Properties\<close>

text \<open>
  C26. A placeholder that is added is found and removed again: with fewer than 255 pairs in
  the table, none of them for this session, \<open>add_sid_pid_pair_to_shm\<close> succeeds,
  \<open>find_pid_for_this_sid\<close> then returns the process, and \<open>remove_pid_for_this_sid\<close> restores the
  table byte for byte, on hosts of either byte order.
\<close>

theorem placeholder_roundtrip:
  assumes "pids_ok ps" "length ps < 255" "map_of ps sid = None" "pid \<noteq> 0"
  shows "\<exists>m. add_sid_pid_pair_to_shm h sid pid (table ps) [] = Some (0, m, [])
      \<and> find_pid_for_this_sid h sid m [] = Some (0, pid, [])
      \<and> remove_pid_for_this_sid h sid m [] = Some (0, table ps, [])"
proof -
  have ok: "pids_ok (ps @ [(sid, pid)])" using assms by (auto simp: pids_ok_def)
  have "drop_session sid (ps @ [(sid, pid)]) = ps"
    using assms(3) by (rule zombie_table.drop_session_snoc)
  then show ?thesis
    using assms find_table [OF ok, of h sid] remove_table [OF ok, of h sid]
    by (simp add: add_sid_pid_pair_to_shm_def add_table find_pid_for_this_sid_def
        remove_pid_for_this_sid_def detach_def map_add_def)
qed

theorem placeholder_roundtrip_witness:
  "\<exists>m. add_sid_pid_pair_to_shm Little_Endian 7 99 (table [(3, 4)]) [] = Some (0, m, [])
      \<and> find_pid_for_this_sid Little_Endian 7 m [] = Some (0, 99, [])
      \<and> remove_pid_for_this_sid Little_Endian 7 m [] = Some (0, table [(3, 4)], [])"
  by (rule placeholder_roundtrip) (simp_all add: pids_ok_def)

text \<open>
  Adding a placeholder, by the number of pairs in the table: it works below 255 pairs and
  for the last slot, reports \<open>-ENOMEM\<close> for a full table, and from 255 to 510 pairs the
  \<open>memset\<close>, whose length is computed from the position, runs past the end of the segment.
\<close>

theorem add_placeholder_overruns:
  assumes "pids_ok ps"
  shows "add_sid_pid_pair_to_shm h sid pid (table ps) [] =
    (if length ps < 255 \<or> length ps = 511 then Some (0, table (ps @ [(sid, pid)]), [])
     else if length ps = 512 then Some (- ENOMEM, table ps, []) else None)"
  using add_table [OF assms, of h sid pid] by (simp add: add_sid_pid_pair_to_shm_def detach_def)

theorem add_placeholder_overruns_witness:
  "add_sid_pid_pair_to_shm Little_Endian 7 99 (table (replicate 255 (1, 1))) [] = None
   \<and> add_sid_pid_pair_to_shm Little_Endian 7 99 (table (replicate 512 (1, 1))) []
     = Some (- ENOMEM, table (replicate 512 (1, 1)), [])"
  using add_placeholder_overruns [of "replicate 255 (1, 1)" Little_Endian 7 99]
    add_placeholder_overruns [of "replicate 512 (1, 1)" Little_Endian 7 99]
  by (simp add: pids_ok_def)

text \<open>
  With the semaphore free, \<open>ecryptfs_kill_and_clear_zombie_session_placeholder\<close> kills the
  process of the session's first pair, takes that pair out of the table and no other, and
  leaves the semaphore as it was; the result of \<open>kill\<close> does not matter.
\<close>

theorem kill_and_clear_placeholder:
  assumes "ipc_sem st = Some v" "1 \<le> v" "ipc_otime st" "ipc_shm st = Some (table ps)"
    and "pids_ok ps" "map_of ps sid = Some p"
  shows "ecryptfs_kill_and_clear_zombie_session_placeholder h other kill sid st []
      = Some (0, Some p, st\<lparr>ipc_shm := Some (table (drop_session sid ps))\<rparr>, [])
    \<and> (\<forall>t. t \<noteq> sid \<longrightarrow> map_of (drop_session sid ps) t = map_of ps t)"
proof -
  have "st\<lparr>ipc_sem := Some v\<rparr> = st" using assms(1) by simp
  then show ?thesis
    using kill_and_clear_locked [OF get_locked_free [OF assms(1-4), of other], of ps sid p "v - 1" h kill]
      assms by (simp add: zombie_table.map_of_drop_session)
qed

theorem kill_and_clear_placeholder_witness:
  "ecryptfs_kill_and_clear_zombie_session_placeholder Big_Endian (\<lambda>s. s) (\<lambda>p. -1) 7
      \<lparr>ipc_sem = Some 1, ipc_otime = True, ipc_shm = Some (table [(3, 4), (7, 99)])\<rparr> []
    = Some (0, Some 99, \<lparr>ipc_sem = Some 1, ipc_otime = True, ipc_shm = Some (table [(3, 4)])\<rparr>, [])"
  using kill_and_clear_placeholder [of "\<lparr>ipc_sem = Some 1, ipc_otime = True,
      ipc_shm = Some (table [(3, 4), (7, 99)])\<rparr>" 1 "[(3, 4), (7, 99)]" 7 99]
  by (simp add: pids_ok_def)

text \<open>
  The lock does not exclude: when another process holds the semaphore and does not
  release it during the three attempts, the operation goes on all the same. It kills the
  process and changes the table, returns success, and then raises the semaphore that it did
  not take, which is free afterwards although its holder never released it.
\<close>

theorem lock_does_not_exclude:
  assumes "ipc_sem st = Some 0" "ipc_otime st" "ipc_shm st = Some (table ps)"
    and "pids_ok ps" "map_of ps sid = Some p"
  shows "ecryptfs_kill_and_clear_zombie_session_placeholder h (\<lambda>st. st) kill sid st []
      = Some (0, Some p, st\<lparr>ipc_sem := Some 1, ipc_shm := Some (table (drop_session sid ps))\<rparr>, [])"
  using kill_and_clear_locked [OF get_locked_busy [OF assms(1-3)] assms(3,4,5,1,2), of h kill]
  by simp

theorem lock_does_not_exclude_witness:
  "ecryptfs_kill_and_clear_zombie_session_placeholder Big_Endian (\<lambda>st. st) (\<lambda>p. 0) 7
      \<lparr>ipc_sem = Some 0, ipc_otime = True, ipc_shm = Some (table [(7, 99)])\<rparr> []
    = Some (0, Some 99, \<lparr>ipc_sem = Some 1, ipc_otime = True, ipc_shm = Some (table [])\<rparr>, [])"
  using lock_does_not_exclude [of "\<lparr>ipc_sem = Some 0, ipc_otime = True,
      ipc_shm = Some (table [(7, 99)])\<rparr>" "[(7, 99)]" 7 99]
  by (simp add: pids_ok_def)

end
