(* ===== verification/Stat.thy ===== *)
theory Stat
  imports Prelude
begin

text \<open>
  The header of a lower file, from \<open>src/libecryptfs/ecryptfs-stat.c\<close>: file size, marker, flags
  and header extents, all in network byte order; and the program of \<open>src/utils/ecryptfs-stat.c\<close>
  that prints them.
\<close>

abbreviation (input) FILE_SIZE_BYTES :: nat where "FILE_SIZE_BYTES \<equiv> 8"
abbreviation (input) MARKER_SIZE_BYTES :: nat where "MARKER_SIZE_BYTES \<equiv> 8"
abbreviation (input) MAGIC_ECRYPTFS_MARKER :: u32 where "MAGIC_ECRYPTFS_MARKER \<equiv> 0x3c81b7f5"
abbreviation (input) MINIMUM_HEADER_EXTENT_SIZE :: u64 where "MINIMUM_HEADER_EXTENT_SIZE \<equiv> 8192"

abbreviation (input) ECRYPTFS_ENCRYPTED :: u32 where "ECRYPTFS_ENCRYPTED \<equiv> 0x00000008"
abbreviation (input) ECRYPTFS_ENABLE_HMAC :: u32 where "ECRYPTFS_ENABLE_HMAC \<equiv> 0x00000020"
abbreviation (input) ECRYPTFS_METADATA_IN_XATTR :: u32 where "ECRYPTFS_METADATA_IN_XATTR \<equiv> 0x00000100"

text \<open>The fields of \<open>struct ecryptfs_crypt_stat_user\<close> that are plain numbers.\<close>

record crypt_stat =
  cs_flags :: u32
  cs_file_version :: u32
  cs_file_size :: u64
  cs_iv_bytes :: u64
  cs_num_header_bytes_at_front :: u64
  cs_extent_size :: u64
  cs_key_size :: u64

definition zero_crypt_stat :: crypt_stat where
  "zero_crypt_stat = \<lparr>cs_flags = 0, cs_file_version = 0, cs_file_size = 0, cs_iv_bytes = 0,
     cs_num_header_bytes_at_front = 0, cs_extent_size = 0, cs_key_size = 0\<rparr>"

definition swab64 :: "u64 \<Rightarrow> u64" where
  "swab64 x = push_bit 56 x OR drop_bit 56 x
     OR push_bit 40 (x AND 0x000000000000ff00)
     OR push_bit 24 (x AND 0x0000000000ff0000)
     OR push_bit 8 (x AND 0x00000000ff000000)
     OR drop_bit 8 (x AND 0x000000ff00000000)
     OR drop_bit 24 (x AND 0x0000ff0000000000)
     OR drop_bit 40 (x AND 0x00ff000000000000)"

definition host_is_big_endian :: "host \<Rightarrow> bool" where
  "host_is_big_endian h \<longleftrightarrow> hd (store_word h 4 (0x00000001 :: u32)) \<noteq> 0x01"

text \<open>A number read from \<open>n\<close> bytes of the buffer, converted unless the host is big endian.\<close>

definition read_be :: "host \<Rightarrow> byte list \<Rightarrow> nat \<Rightarrow> nat \<Rightarrow> 'a::len word option" where
  "read_be h buf pos n = do {
     bs \<leftarrow> rd_bytes buf pos n;
     let w = load_word h bs;
     Some (if \<not> host_is_big_endian h then ntoh h n w else w) }"

definition ecryptfs_contains_ecryptfs_marker :: "host \<Rightarrow> byte list \<Rightarrow> nat \<Rightarrow> int option" where
  "ecryptfs_contains_ecryptfs_marker h buf pos = do {
     m_1 \<leftarrow> read_be h buf pos 4;
     m_2 \<leftarrow> read_be h buf (pos + 4) 4;
     Some (if m_1 XOR MAGIC_ECRYPTFS_MARKER = m_2 then 1 else 0) }"

definition ecryptfs_flag_map :: "(u32 \<times> u32) list" where
  "ecryptfs_flag_map = [(0x00000001, ECRYPTFS_ENABLE_HMAC), (0x00000002, ECRYPTFS_ENCRYPTED),
     (0x00000004, ECRYPTFS_METADATA_IN_XATTR)]"

fun apply_flag_map :: "(u32 \<times> u32) list \<Rightarrow> u32 \<Rightarrow> u32 \<Rightarrow> u32" where
  "apply_flag_map [] flags local_flags = local_flags"
| "apply_flag_map ((file_flag, local_flag) # elems) flags local_flags =
     apply_flag_map elems flags
       (if flags AND file_flag \<noteq> 0 then local_flags OR local_flag
        else local_flags AND NOT local_flag)"

text \<open>The status, the context and \<open>*bytes_read\<close>.\<close>

definition ecryptfs_process_flags ::
  "host \<Rightarrow> crypt_stat \<Rightarrow> byte list \<Rightarrow> nat \<Rightarrow> (int \<times> crypt_stat \<times> nat) option" where
  "ecryptfs_process_flags h crypt_stat buf pos = do {
     flags \<leftarrow> read_be h buf pos 4;
     Some (0, crypt_stat\<lparr>
       cs_flags := apply_flag_map ecryptfs_flag_map flags (cs_flags crypt_stat),
       cs_file_version := drop_bit 24 flags AND 0xFF\<rparr>, 4) }"

definition ecryptfs_parse_header_metadata ::
  "host \<Rightarrow> crypt_stat \<Rightarrow> byte list \<Rightarrow> nat \<Rightarrow> bool \<Rightarrow> (int \<times> crypt_stat \<times> nat) option" where
  "ecryptfs_parse_header_metadata h crypt_stat buf pos validate_header_size = do {
     header_extent_size \<leftarrow> (read_be h buf pos 4 :: u32 option);
     num_header_extents_at_front \<leftarrow> (read_be h buf (pos + 4) 2 :: u16 option);
     let n = ucast num_header_extents_at_front * ucast header_extent_size;
     Some (if validate_header_size \<and> n < MINIMUM_HEADER_EXTENT_SIZE then - EINVAL else 0,
       crypt_stat\<lparr>cs_num_header_bytes_at_front := n\<rparr>, 6) }"

definition ecryptfs_parse_stat ::
  "host \<Rightarrow> crypt_stat \<Rightarrow> byte list \<Rightarrow> nat \<Rightarrow> (int \<times> crypt_stat) option" where
  "ecryptfs_parse_stat h crypt_stat buf buf_size =
     (if buf_size < FILE_SIZE_BYTES + MARKER_SIZE_BYTES + 4 then Some (- EINVAL, crypt_stat)
      else do {
        bs \<leftarrow> rd_bytes buf 0 FILE_SIZE_BYTES;
        let file_size = load_word h bs;
        let file_size = (if \<not> host_is_big_endian h then swab64 file_size else file_size);
        let crypt_stat = zero_crypt_stat\<lparr>cs_file_size := file_size\<rparr>;
        rc \<leftarrow> ecryptfs_contains_ecryptfs_marker h buf FILE_SIZE_BYTES;
        if rc \<noteq> 1 then Some (- EINVAL, crypt_stat)
        else do {
          let pos = FILE_SIZE_BYTES + MARKER_SIZE_BYTES;
          (rc, crypt_stat, n) \<leftarrow> ecryptfs_process_flags h crypt_stat buf pos;
          if rc \<noteq> 0 then Some (rc, crypt_stat)
          else do {
            (rc, crypt_stat, n) \<leftarrow> ecryptfs_parse_header_metadata h crypt_stat buf (pos + n) True;
            Some (rc, crypt_stat) } } })"

text \<open>
  What the program prints of a file; \<open>junk\<close> is what its buffer of 4096 bytes holds before the
  read.
\<close>

record stat_report =
  sr_version :: u32
  sr_file_size :: u64
  sr_header_bytes :: u64
  sr_metadata_in_xattr :: bool
  sr_encrypted :: bool
  sr_hmac :: bool

definition ecryptfs_stat_main ::
  "host \<Rightarrow> (nat \<Rightarrow> byte) \<Rightarrow> (string \<Rightarrow> byte list option) \<Rightarrow> bool \<Rightarrow> string list
   \<Rightarrow> (int \<times> stat_report option) option" where
  "ecryptfs_stat_main h junk files read_ok argv =
     (case argv of
        [] \<Rightarrow> Some (0, None)
      | filename # _ \<Rightarrow>
          (case files filename of
             None \<Rightarrow> Some (- EIO, None)
           | Some content \<Rightarrow>
               if \<not> read_ok then Some (- EIO, None)
               else do {
                 let bs = take 4096 content;
                 (rc, st) \<leftarrow> ecryptfs_parse_stat h zero_crypt_stat
                     (bs @ fresh junk (4096 - length bs)) (length bs);
                 if rc \<noteq> 0 then Some (0, None)
                 else Some (0, Some \<lparr>sr_version = cs_file_version st, sr_file_size = cs_file_size st,
                   sr_header_bytes = cs_num_header_bytes_at_front st,
                   sr_metadata_in_xattr = (cs_flags st AND ECRYPTFS_METADATA_IN_XATTR \<noteq> 0),
                   sr_encrypted = (cs_flags st AND ECRYPTFS_ENCRYPTED \<noteq> 0),
                   sr_hmac = (cs_flags st AND ECRYPTFS_ENABLE_HMAC \<noteq> 0)\<rparr>) }))"

subsection \<open>Byte order\<close>

lemma host_is_big_endian_cases: "host_is_big_endian Big_Endian" "\<not> host_is_big_endian Little_Endian"
  by code_simp+

lemma host_is_big_endian_iff: "host_is_big_endian h \<longleftrightarrow> h = Big_Endian"
  by (cases h) (simp_all add: host_is_big_endian_cases)

lemma read_be_value:
  assumes "256 ^ n = (2::nat) ^ LENGTH('a::len)" "rd_bytes buf pos n = Some bs"
  shows "read_be h buf pos n = Some (word_of_nat (be_nat bs) :: 'a word)"
  using ntoh_load_word [OF assms(1) rd_bytes_length [OF assms(2)], of h] assms(2)
  by (cases h) (simp_all add: read_be_def host_is_big_endian_iff ntoh_def)

lemma word_be_bytes:
  "256 ^ n = (2::nat) ^ LENGTH('a::len) \<Longrightarrow> word_of_nat (be_nat (be_bytes n (unat w))) = (w :: 'a word)"
  by (simp add: be_nat_be_bytes unat_mod_width)

text \<open>A bit of a number in network order, and of the number \<open>swab64\<close> makes.\<close>

lemma bit_be_nat:
  "bit (be_nat bs) n \<longleftrightarrow> n < 8 * length bs \<and> bit (rev bs ! (n div 8)) (n mod 8)"
proof (induction bs arbitrary: n rule: rev_induct)
  case (snoc b bs)
  have "be_nat (bs @ [b]) = push_bit 8 (be_nat bs) OR unat b"
  proof -
    have "push_bit 8 (be_nat bs) + unat b = push_bit 8 (be_nat bs) OR unat b"
      by (rule disjunctive_add) (auto simp: bit_simps dest: bit_imp_le_length)
    then show ?thesis by (simp add: push_bit_eq_mult)
  qed
  then have "bit (be_nat (bs @ [b])) n \<longleftrightarrow> 8 \<le> n \<and> bit (be_nat bs) (n - 8) \<or> bit b n"
    by (auto simp: bit_simps)
  also have "\<dots> \<longleftrightarrow> n < 8 * length (bs @ [b]) \<and> bit (rev (bs @ [b]) ! (n div 8)) (n mod 8)"
  proof (cases "n < 8")
    case False
    then have "\<not> bit b n" by (auto dest: bit_imp_le_length)
    moreover have "n div 8 = Suc ((n - 8) div 8)" "(n - 8) mod 8 = n mod 8"
      using False by (simp_all add: le_div_geq le_mod_geq)
    ultimately show ?thesis using False by (auto simp: snoc.IH)
  qed auto
  finally show ?case .
qed simp

lemma masks:
  "(0x000000000000ff00 :: u64) = push_bit 8 (mask 8)" "(0x0000000000ff0000 :: u64) = push_bit 16 (mask 8)"
  "(0x00000000ff000000 :: u64) = push_bit 24 (mask 8)" "(0x000000ff00000000 :: u64) = push_bit 32 (mask 8)"
  "(0x0000ff0000000000 :: u64) = push_bit 40 (mask 8)" "(0x00ff000000000000 :: u64) = push_bit 48 (mask 8)"
  by (simp_all add: mask_eq_exp_minus_1 push_bit_eq_mult)

lemma bit_u64_high: "64 \<le> m \<Longrightarrow> \<not> bit (x :: u64) m"
  by (auto dest: bit_imp_le_length)

lemma bit_swab64_lane:
  assumes "r < 8" "q < 8"
  shows "bit (swab64 x) (8 * q + r) \<longleftrightarrow> bit x (8 * (7 - q) + r)"
proof -
  consider "q = 0" | "q = 1" | "q = 2" | "q = 3" | "q = 4" | "q = 5" | "q = 6" | "q = 7"
    using assms(2) by linarith
  then show ?thesis
    by cases (use assms(1) in \<open>auto simp: swab64_def masks bit_simps bit_u64_high\<close>)
qed

text \<open>The shifts of \<open>swab64\<close> read the bytes of the object in the opposite order.\<close>

lemma swab64_load:
  assumes "length bs = 8"
  shows "swab64 (load_word Little_Endian bs) = word_of_nat (be_nat bs)"
proof (rule bit_word_eqI)
  fix n
  assume "n < LENGTH(64)"
  then have q: "n div 8 < 8" "n < 64" by (simp_all add: less_mult_imp_div_less)
  have lt: "8 * (7 - n div 8) + n mod 8 < 64" by simp
  have "bit (swab64 (load_word Little_Endian bs)) n
      \<longleftrightarrow> bit (load_word Little_Endian bs :: u64) (8 * (7 - n div 8) + n mod 8)"
    using bit_swab64_lane [of "n mod 8" "n div 8" "load_word Little_Endian bs"] q by simp
  also have "\<dots> \<longleftrightarrow> bit (bs ! (7 - n div 8)) (n mod 8)"
    using q assms lt by (simp add: load_word_def host_order_def bit_simps bit_be_nat)
  also have "\<dots> \<longleftrightarrow> bit (word_of_nat (be_nat bs) :: u64) n"
    using q assms by (simp add: bit_simps bit_be_nat rev_nth)
  finally show "bit (swab64 (load_word Little_Endian bs)) n
      \<longleftrightarrow> bit (word_of_nat (be_nat bs) :: u64) n" .
qed

subsection \<open>Parsing a header\<close>

definition stat_header :: "u64 \<Rightarrow> u32 \<Rightarrow> u32 \<Rightarrow> u32 \<Rightarrow> u32 \<Rightarrow> u16 \<Rightarrow> byte list" where
  "stat_header file_size m_1 m_2 flags extent_size extents =
     be_bytes 8 (unat file_size) @ be_bytes 4 (unat m_1) @ be_bytes 4 (unat m_2)
     @ be_bytes 4 (unat flags) @ be_bytes 4 (unat extent_size) @ be_bytes 2 (unat extents)"

text \<open>The meaning of the three file flags.\<close>

definition local_flags :: "u32 \<Rightarrow> u32" where
  "local_flags flags =
     (if bit flags 0 then ECRYPTFS_ENABLE_HMAC else 0)
     OR (if bit flags 1 then ECRYPTFS_ENCRYPTED else 0)
     OR (if bit flags 2 then ECRYPTFS_METADATA_IN_XATTR else 0)"

lemma and_pow_nonzero: "flags AND 2 ^ n \<noteq> 0 \<longleftrightarrow> bit (flags :: u32) n"
  by (simp add: bit_iff_and_push_bit_not_eq_0 push_bit_of_1)

lemma apply_flag_map_local: "apply_flag_map ecryptfs_flag_map flags 0 = local_flags flags"
  using and_pow_nonzero [of flags 0] and_pow_nonzero [of flags 1] and_pow_nonzero [of flags 2]
  by (simp add: ecryptfs_flag_map_def local_flags_def)

text \<open>A field of the header is read at its position.\<close>

lemma read_be_field:
  assumes "256 ^ n = (2::nat) ^ LENGTH('a::len)" "pos = length xs"
  shows "read_be h (xs @ be_bytes n (unat w) @ ys) pos n = Some (w :: 'a word)"
  using read_be_value [OF assms(1), of "xs @ be_bytes n (unat w) @ ys" pos "be_bytes n (unat w)" h]
  by (simp add: rd_bytes_mid' assms word_be_bytes)

lemma header_size_read:
  assumes "buf = be_bytes 8 (unat file_size) @ rest"
  shows "\<exists>bs. rd_bytes buf 0 8 = Some bs
    \<and> (if \<not> host_is_big_endian h then swab64 (load_word h bs) else load_word h bs) = file_size"
proof -
  have "rd_bytes buf 0 8 = Some (be_bytes 8 (unat file_size))"
    using rd_bytes_mid' [of 0 "[]" 8 "be_bytes 8 (unat file_size)" rest] assms by simp
  then show ?thesis
    using swab64_load [of "be_bytes 8 (unat file_size)"]
    by (cases h) (simp_all add: host_is_big_endian_cases word_be_bytes load_word_def host_order_def)
qed

definition header_stat :: "u64 \<Rightarrow> u32 \<Rightarrow> u32 \<Rightarrow> u16 \<Rightarrow> crypt_stat" where
  "header_stat file_size flags extent_size extents = zero_crypt_stat\<lparr>cs_file_size := file_size,
     cs_flags := local_flags flags, cs_file_version := drop_bit 24 flags AND 0xFF,
     cs_num_header_bytes_at_front := ucast extents * ucast extent_size\<rparr>"

text \<open>The header bytes do not overflow the product.\<close>

lemma header_bytes_exact:
  "unat (ucast (extents :: u16) * ucast (extent_size :: u32) :: u64) = unat extents * unat extent_size"
proof -
  have "unat extents * unat extent_size < 2 ^ 16 * 2 ^ 32"
    using unat_less_width [of extents] unat_less_width [of extent_size]
    by (intro mult_strict_mono) simp_all
  then have "unat extents * unat extent_size < 2 ^ 64" by simp
  moreover have "take_bit 64 (unat extents) = unat extents"
    "take_bit 64 (unat extent_size) = unat extent_size"
    using unat_less_width [of extents] unat_less_width [of extent_size]
    by (simp_all add: take_bit_nat_eq_self)
  ultimately show ?thesis by (simp add: unat_word_ariths unsigned_ucast_eq)
qed

lemma parse_stat_fields:
  assumes "buf = stat_header file_size m_1 m_2 flags extent_size extents @ rest"
  shows "ecryptfs_contains_ecryptfs_marker h buf 8
      = Some (if m_1 XOR MAGIC_ECRYPTFS_MARKER = m_2 then 1 else 0)"
    and "ecryptfs_process_flags h st buf 16 = Some (0, st\<lparr>
        cs_flags := apply_flag_map ecryptfs_flag_map flags (cs_flags st),
        cs_file_version := drop_bit 24 flags AND 0xFF\<rparr>, 4)"
    and "ecryptfs_parse_header_metadata h st buf 20 True = Some
        (if unat extents * unat extent_size < 8192 then - EINVAL else 0,
         st\<lparr>cs_num_header_bytes_at_front := ucast extents * ucast extent_size\<rparr>, 6)"
proof -
  define f where "f = be_bytes 8 (unat file_size)"
  define m1 where "m1 = be_bytes 4 (unat m_1)"
  define m2 where "m2 = be_bytes 4 (unat m_2)"
  define fl where "fl = be_bytes 4 (unat flags)"
  define es where "es = be_bytes 4 (unat extent_size)"
  define ne where "ne = be_bytes 2 (unat extents)"
  note defs = f_def m1_def m2_def fl_def es_def ne_def
  have buf: "buf = f @ m1 @ m2 @ fl @ es @ ne @ rest"
    using assms by (simp add: stat_header_def defs)
  have len: "length f = 8" "length m1 = 4" "length m2 = 4" "length fl = 4" "length es = 4"
    by (simp_all add: defs)
  have "buf = (f) @ be_bytes 4 (unat m_1) @ m2 @ fl @ es @ ne @ rest" by (simp only: buf m1_def append.assoc)
  then have r1: "read_be h buf 8 4 = Some m_1"
    by (simp only:) (rule read_be_field; simp add: len)
  have "buf = (f @ m1) @ be_bytes 4 (unat m_2) @ fl @ es @ ne @ rest" by (simp only: buf m2_def append.assoc)
  then have r2: "read_be h buf 12 4 = Some m_2"
    by (simp only:) (rule read_be_field; simp add: len)
  have "buf = (f @ m1 @ m2) @ be_bytes 4 (unat flags) @ es @ ne @ rest" by (simp only: buf fl_def append.assoc)
  then have r3: "read_be h buf 16 4 = Some flags"
    by (simp only:) (rule read_be_field; simp add: len)
  have "buf = (f @ m1 @ m2 @ fl) @ be_bytes 4 (unat extent_size) @ ne @ rest" by (simp only: buf es_def append.assoc)
  then have r4: "read_be h buf 20 4 = Some extent_size"
    by (simp only:) (rule read_be_field; simp add: len)
  have "buf = (f @ m1 @ m2 @ fl @ es) @ be_bytes 2 (unat extents) @ rest" by (simp only: buf ne_def append.assoc)
  then have r5: "read_be h buf 24 2 = Some extents"
    by (simp only:) (rule read_be_field; simp add: len)
  show "ecryptfs_contains_ecryptfs_marker h buf 8
      = Some (if m_1 XOR MAGIC_ECRYPTFS_MARKER = m_2 then 1 else 0)"
    by (simp add: ecryptfs_contains_ecryptfs_marker_def r1 r2)
  show "ecryptfs_process_flags h st buf 16 = Some (0, st\<lparr>
        cs_flags := apply_flag_map ecryptfs_flag_map flags (cs_flags st),
        cs_file_version := drop_bit 24 flags AND 0xFF\<rparr>, 4)"
    by (simp add: ecryptfs_process_flags_def r3)
  have "(ucast extents * ucast extent_size < (8192 :: u64)) = (unat extents * unat extent_size < 8192)"
    unfolding word_less_nat_alt header_bytes_exact by simp
  then show "ecryptfs_parse_header_metadata h st buf 20 True = Some
        (if unat extents * unat extent_size < 8192 then - EINVAL else 0,
         st\<lparr>cs_num_header_bytes_at_front := ucast extents * ucast extent_size\<rparr>, 6)"
    by (simp add: ecryptfs_parse_header_metadata_def r4 r5 Let_def)
qed

subsection \<open>Properties\<close>

text \<open>
  C33. A header laid out in network byte order is parsed to the same values on hosts of
  either byte order: without the marker, or with fewer than 8192 header bytes, the status is
  \<open>-EINVAL\<close>; otherwise the context holds the file size, the version, the three flags and the
  exact number of header bytes.
\<close>

theorem parse_stat_header:
  "ecryptfs_parse_stat h st (stat_header file_size m_1 m_2 flags extent_size extents @ rest)
      (26 + length rest)
    = Some (if m_1 XOR MAGIC_ECRYPTFS_MARKER \<noteq> m_2
            then (- EINVAL, zero_crypt_stat\<lparr>cs_file_size := file_size\<rparr>)
            else (if unat extents * unat extent_size < 8192 then - EINVAL else 0,
                  header_stat file_size flags extent_size extents))
   \<and> unat (cs_num_header_bytes_at_front (header_stat file_size flags extent_size extents))
     = unat extents * unat extent_size"
proof -
  define buf where "buf = stat_header file_size m_1 m_2 flags extent_size extents @ rest"
  obtain tail where "buf = be_bytes 8 (unat file_size) @ tail"
    by (simp add: buf_def stat_header_def)
  from header_size_read [OF this, of h] obtain bs where bs: "rd_bytes buf 0 8 = Some bs"
    "(if \<not> host_is_big_endian h then swab64 (load_word h bs) else load_word h bs) = file_size"
    by blast
  show ?thesis
    unfolding buf_def [symmetric]
    using bs parse_stat_fields [OF buf_def, of h]
    by (simp add: ecryptfs_parse_stat_def Let_def header_stat_def header_bytes_exact
        apply_flag_map_local zero_crypt_stat_def)
qed

text \<open>
  The size check is too weak: it asks for 20 bytes, but a header with the marker is read
  to its 26th byte, so that a buffer of 20 to 25 bytes is read beyond its end.
\<close>

theorem parse_stat_reads_past_buffer:
  assumes "m_2 = m_1 XOR MAGIC_ECRYPTFS_MARKER" "20 \<le> n" "n < 26"
  shows "ecryptfs_parse_stat h st (take n (stat_header file_size m_1 m_2 flags extent_size extents)) n = None"
proof -
  define buf where "buf = stat_header file_size m_1 m_2 flags extent_size extents"
  define t where "t = take n buf"
  have b: "buf = stat_header file_size m_1 m_2 flags extent_size extents @ []" by (simp add: buf_def)
  have lb: "length buf = 26" by (simp add: buf_def stat_header_def)
  then have len: "length t = n" using assms by (simp add: t_def)
  have rd: "rd_bytes t i k = rd_bytes buf i k" if "i + k \<le> 20" for i k
  proof -
    have "k \<le> n - i" "i + k \<le> length buf" "i + k \<le> n" using that assms(2) lb by auto
    then show ?thesis by (simp add: rd_bytes_def len) (simp add: t_def drop_take min_def)
  qed
  then have be: "read_be h t i k = (read_be h buf i k :: u32 option)" if "i + k \<le> 20" for i k
    using that by (simp add: read_be_def)
  have "ecryptfs_contains_ecryptfs_marker h t 8 = ecryptfs_contains_ecryptfs_marker h buf 8"
    by (simp only: ecryptfs_contains_ecryptfs_marker_def) (simp add: be)
  then have mark: "ecryptfs_contains_ecryptfs_marker h t 8 = Some 1"
    using parse_stat_fields(1) [OF b, of h] assms(1) by simp
  have "ecryptfs_process_flags h st t 16 = ecryptfs_process_flags h st buf 16" for st
    by (simp only: ecryptfs_process_flags_def) (simp add: be)
  then have flags: "\<exists>st'. ecryptfs_process_flags h st t 16 = Some (0, st', 4)" for st
    using parse_stat_fields(2) [OF b, of h st] by simp
  have past: "ecryptfs_parse_header_metadata h st t 20 True = None" for st
    using assms(3) len
    by (auto simp: ecryptfs_parse_header_metadata_def read_be_def rd_bytes_def)
  obtain g where g: "ecryptfs_process_flags h st t 16 = Some (0, g st, 4)" for st
    using flags by metis
  obtain bs where bs: "rd_bytes t 0 8 = Some bs" using len assms(2) by (simp add: rd_bytes_def)
  show ?thesis
    unfolding buf_def [symmetric] t_def [symmetric]
    using assms(2) by (simp add: ecryptfs_parse_stat_def bs mark g past Let_def)
qed

theorem parse_stat_reads_past_buffer_witness:
  "ecryptfs_parse_stat Little_Endian zero_crypt_stat
     (take 20 (stat_header 5 0 MAGIC_ECRYPTFS_MARKER 2 4096 2)) 20 = None"
  by (rule parse_stat_reads_past_buffer) simp_all

end
