(* ===== verification/Hex.thy ===== *)
theory Hex
  imports Prelude
begin

text \<open>
  Expanded hexadecimal, from \<open>src/libecryptfs/main.c\<close> (\<open>to_hex\<close>, \<open>from_hex\<close>), with the part
  of the C library's \<open>strtol\<close> that \<open>from_hex\<close> and the decimal readers rely on.
\<close>

subsection \<open>Characters\<close>

definition c_isspace :: "byte \<Rightarrow> bool" where
  "c_isspace b \<longleftrightarrow> b = 32 \<or> 9 \<le> b \<and> b \<le> 13"

text \<open>The value of a character as a digit in bases up to 16.\<close>

definition digit_val :: "byte \<Rightarrow> nat option" where
  "digit_val b =
     (if 48 \<le> b \<and> b \<le> 57 then Some (unat b - 48)
      else if 97 \<le> b \<and> b \<le> 102 then Some (unat b - 87)
      else if 65 \<le> b \<and> b \<le> 70 then Some (unat b - 55)
      else None)"

definition is_digit_of :: "nat \<Rightarrow> byte \<Rightarrow> bool" where
  "is_digit_of base b = (case digit_val b of None \<Rightarrow> False | Some d \<Rightarrow> d < base)"

fun digits_nat :: "nat \<Rightarrow> nat \<Rightarrow> byte list \<Rightarrow> nat" where
  "digits_nat base acc [] = acc"
| "digits_nat base acc (b # bs) =
     (case digit_val b of
        None \<Rightarrow> acc
      | Some d \<Rightarrow> if d < base then digits_nat base (acc * base + d) bs else acc)"

text \<open>
  \<open>strtol(s, NULL, base)\<close> for bases 10 and 16, without the clipping at the range of
  \<open>long\<close>: leading space, a sign, in base 16 an optional \<open>0x\<close> that is followed by a digit,
  and the digits up to the first other character.
\<close>

definition c_strtol :: "nat \<Rightarrow> byte list \<Rightarrow> int" where
  "c_strtol base s =
     (let s = dropWhile c_isspace s;
          neg = (case s of b # _ \<Rightarrow> b = 45 | [] \<Rightarrow> False);
          s = (case s of b # bs \<Rightarrow> if b = 45 \<or> b = 43 then bs else s | [] \<Rightarrow> []);
          s = (case s of
                 z # x # d # _ \<Rightarrow>
                   if base = 16 \<and> z = 48 \<and> (x = 120 \<or> x = 88) \<and> is_digit_of 16 d
                   then drop 2 s else s
               | _ \<Rightarrow> s);
          n = int (digits_nat base 0 s)
      in if neg then - n else n)"

subsection \<open>The two conversions\<close>

definition hex_digit :: "nat \<Rightarrow> byte" where
  "hex_digit n = (if n < 10 then word_of_nat (48 + n) else word_of_nat (87 + n))"

text \<open>The text \<open>to_hex\<close> writes, without the terminating zero byte.\<close>

definition to_hex :: "byte list \<Rightarrow> byte list" where
  "to_hex src = concat (map (\<lambda>b. [hex_digit (unat b div 16), hex_digit (unat b mod 16)]) src)"

text \<open>
  \<open>from_hex\<close> reads two characters per byte; \<open>tmp\<close> ends at the first zero byte of the two.
\<close>

fun from_hex_at :: "byte list \<Rightarrow> nat \<Rightarrow> nat \<Rightarrow> byte list option" where
  "from_hex_at src x 0 = Some []"
| "from_hex_at src x (Suc n) = do {
     a \<leftarrow> rd_byte src (x * 2);
     b \<leftarrow> rd_byte src (x * 2 + 1);
     tmp \<leftarrow> c_string [a, b, 0];
     rest \<leftarrow> from_hex_at src (Suc x) n;
     Some (word_of_int (c_strtol 16 tmp) # rest) }"

definition from_hex :: "byte list \<Rightarrow> nat \<Rightarrow> byte list option" where
  "from_hex src dst_size = from_hex_at src 0 dst_size"

subsection \<open>Reading back what was written\<close>

lemma length_to_hex [simp]: "length (to_hex bs) = 2 * length bs"
  by (induction bs) (auto simp: to_hex_def)

lemma to_hex_Cons:
  "to_hex (b # bs) = hex_digit (unat b div 16) # hex_digit (unat b mod 16) # to_hex bs"
  by (simp add: to_hex_def)

lemma all_digits: "P 0 \<Longrightarrow> P 1 \<Longrightarrow> P 2 \<Longrightarrow> P 3 \<Longrightarrow> P 4 \<Longrightarrow> P 5 \<Longrightarrow> P 6 \<Longrightarrow> P 7 \<Longrightarrow> P 8 \<Longrightarrow> P 9 \<Longrightarrow>
    P 10 \<Longrightarrow> P 11 \<Longrightarrow> P 12 \<Longrightarrow> P 13 \<Longrightarrow> P 14 \<Longrightarrow> P 15 \<Longrightarrow> (n::nat) < 16 \<Longrightarrow> P n"
  by (simp add: eval_nat_numeral less_Suc_eq) blast

lemma digit_val_hex_digit: "n < 16 \<Longrightarrow> digit_val (hex_digit n) = Some n"
  by (rule all_digits [of "\<lambda>n. digit_val (hex_digit n) = Some n" n])
    (simp_all add: digit_val_def hex_digit_def)

lemma hex_digit_plain:
  "n < 16 \<Longrightarrow> hex_digit n \<noteq> 0 \<and> \<not> c_isspace (hex_digit n) \<and> hex_digit n \<noteq> 45 \<and> hex_digit n \<noteq> 43"
  by (rule all_digits [of "\<lambda>n. hex_digit n \<noteq> 0 \<and> \<not> c_isspace (hex_digit n) \<and> hex_digit n \<noteq> 45
      \<and> hex_digit n \<noteq> 43" n]) (simp_all add: hex_digit_def c_isspace_def)

lemma strtol_two_digits:
  assumes "a < 16" and "b < 16"
  shows "c_strtol 16 [hex_digit a, hex_digit b] = int (a * 16 + b)"
  using assms hex_digit_plain [OF assms(1)] hex_digit_plain [OF assms(2)]
  by (simp add: c_strtol_def digit_val_hex_digit)

lemma byte_of_hex: "(word_of_int (int (unat b div 16 * 16 + unat b mod 16)) :: byte) = b"
  by (simp add: div_mult_mod_eq)

lemma from_hex_at_append:
  "from_hex_at (xs @ to_hex bs @ r) (length xs div 2) (length bs) = Some bs"
  if "even (length xs)"
  using that
proof (induction bs arbitrary: xs)
  case (Cons b bs)
  let ?a = "hex_digit (unat b div 16)" and ?c = "hex_digit (unat b mod 16)"
  have lim: "unat b div 16 < 16" "unat b mod 16 < 16"
    using unat_byte_less [of b] by (auto simp del: unat_byte_less)
  obtain k where k: "length xs = 2 * k" using Cons.prems by blast
  have rest: "from_hex_at ((xs @ [?a, ?c]) @ to_hex bs @ r) (Suc k) (length bs) = Some bs"
    using Cons.IH [of "xs @ [?a, ?c]"] k by simp
  have "rd_byte (xs @ to_hex (b # bs) @ r) (k * 2) = Some ?a"
    "rd_byte (xs @ to_hex (b # bs) @ r) (k * 2 + 1) = Some ?c"
    using k by (simp_all add: rd_byte_def to_hex_Cons nth_append)
  moreover have "c_string [?a, ?c, 0] = Some [?a, ?c]"
    using hex_digit_plain [OF lim(1)] hex_digit_plain [OF lim(2)] by simp
  ultimately show ?case
    using rest k strtol_two_digits [OF lim] byte_of_hex [of b]
    by (simp add: to_hex_Cons del: of_nat_add of_nat_mult)
qed simp

text \<open>The contract of the pair of conversions, for the code that stores keys as text.\<close>

locale text_codec =
  fixes put :: "byte list \<Rightarrow> byte list"
    and get :: "byte list \<Rightarrow> nat \<Rightarrow> byte list option"
    and width :: nat
  assumes put_length: "length (put bs) = width * length bs"
    and get_put: "get (put bs @ r) (length bs) = Some bs"
begin

lemma put_inject:
  assumes "put xs = put ys" and "0 < width"
  shows "xs = ys"
proof -
  have "length xs = length ys"
    using assms put_length [of xs] put_length [of ys] by simp
  then show ?thesis
    using assms(1) get_put [of xs "[]"] get_put [of ys "[]"] by simp
qed

end

interpretation hex: text_codec to_hex from_hex 2
proof
  show "from_hex (to_hex bs @ r) (length bs) = Some bs" for bs r
    using from_hex_at_append [of "[]" bs r] by (simp add: from_hex_def)
qed simp

subsection \<open>Properties\<close>

text \<open>
  Reading back the text \<open>to_hex\<close> wrote gives the bytes it was given, for every byte
  string and whatever follows the text in memory; in particular two byte strings with the
  same text are equal.
\<close>

theorem from_hex_to_hex:
  "from_hex (to_hex bs @ rest) (length bs) = Some bs \<and> (to_hex bs = to_hex cs \<longleftrightarrow> bs = cs)"
  using hex.get_put hex.put_inject [of bs cs] by auto

end
