(* ===== verification/Mounts.thy ===== *)
theory Mounts
  imports Hex
begin

text \<open>
  Looking up eCryptfs mounts, from \<open>src/libecryptfs/main.c\<close> (\<open>ecryptfs_fetch_private_mnt\<close>,
  \<open>ecryptfs_private_is_mounted\<close>) and \<open>src/libecryptfs/sysfs.c\<close> (the version of the kernel module),
  with the parts of the C library they use: \<open>fgets\<close>, \<open>strtok\<close> and \<open>hasmntopt\<close>.
\<close>

abbreviation (input) MAXPATHLEN :: nat where "MAXPATHLEN \<equiv> 4096"

text \<open>The fields of \<open>struct mntent\<close> that are looked at.\<close>

record mntent =
  mnt_fsname :: "byte list"
  mnt_dir :: "byte list"
  mnt_type :: "byte list"
  mnt_opts :: "byte list"

subsection \<open>The C library\<close>

text \<open>
  \<open>fgets(buf, n, f)\<close>: the bytes stored and the rest of the file; \<^term>\<open>None\<close> for a null result
  at the end of the file.
\<close>

fun line_of :: "nat \<Rightarrow> byte list \<Rightarrow> byte list" where
  "line_of 0 bs = []"
| "line_of (Suc n) [] = []"
| "line_of (Suc n) (b # bs) = (if b = 10 then [b] else b # line_of n bs)"

definition c_fgets :: "nat \<Rightarrow> byte list \<Rightarrow> (byte list \<times> byte list) option" where
  "c_fgets n bs =
     (if bs = [] then None
      else let l = line_of (n - 1) bs in Some (l, drop (length l) bs))"

text \<open>The C string in a buffer that was filled with \<open>bs\<close> and a zero byte.\<close>

definition text_in :: "byte list \<Rightarrow> byte list" where
  "text_in bs = takeWhile (\<lambda>b. b \<noteq> 0) bs"

text \<open>\<open>strtok(s, "\n")\<close>, the first token.\<close>

definition strtok_newline :: "byte list \<Rightarrow> byte list option" where
  "strtok_newline s =
     (let t = dropWhile (\<lambda>b. b = 10) s in
      if t = [] then None else Some (takeWhile (\<lambda>b. b \<noteq> 10) t))"

text \<open>The options of a mount, separated by commas, and \<open>hasmntopt\<close>.\<close>

fun split_commas :: "byte list \<Rightarrow> byte list list" where
  "split_commas [] = [[]]"
| "split_commas (b # bs) =
     (if b = 44 then [] # split_commas bs
      else (case split_commas bs of [] \<Rightarrow> [[b]] | f # fs \<Rightarrow> (b # f) # fs))"

definition hasmntopt :: "byte list \<Rightarrow> byte list \<Rightarrow> bool" where
  "hasmntopt opts opt =
     list_ex (\<lambda>f. take (length opt) f = opt \<and> (length f = length opt \<or> f ! length opt = 61))
       (split_commas opts)"

subsection \<open>The private mount point\<close>

text \<open>\<open>files\<close> gives the content of the files that can be opened.\<close>

definition ecryptfs_fetch_private_mnt ::
  "(byte list \<rightharpoonup> byte list) \<Rightarrow> byte list \<Rightarrow> schedule \<Rightarrow> byte list option \<times> schedule" where
  "ecryptfs_fetch_private_mnt files pw_dir mem =
     (case malloc_ok mem of
        (False, mem) \<Rightarrow> (None, mem)
      | (True, mem) \<Rightarrow>
          let mnt_default = pw_dir @ bytes_of_string ''/Private'' in
          (case malloc_ok mem of
             (False, mem) \<Rightarrow> (None, mem)
           | (True, mem) \<Rightarrow>
               (case files (pw_dir @ bytes_of_string ''/.ecryptfs/Private.mnt'') of
                  None \<Rightarrow> (Some mnt_default, mem)
                | Some content \<Rightarrow>
                    (case malloc_ok mem of
                       (False, mem) \<Rightarrow> (None, mem)
                     | (True, mem) \<Rightarrow>
                         (case c_fgets MAXPATHLEN content of
                            None \<Rightarrow> (Some mnt_default, mem)
                          | Some (l, _) \<Rightarrow> (strtok_newline (text_in l), mem))))))"

subsection \<open>Is it mounted?\<close>

fun scan_mounts ::
  "byte list option \<Rightarrow> byte list option \<Rightarrow> byte list option \<Rightarrow> bool \<Rightarrow> mntent list \<Rightarrow> int option" where
  "scan_mounts dev mnt opt mounting [] = Some 0"
| "scan_mounts dev mnt opt mounting (m # ms) =
     (if mnt_type m \<noteq> bytes_of_string ''ecryptfs'' then scan_mounts dev mnt opt mounting ms
      else if mounting then
        (if dev = Some (mnt_fsname m) then Some 1
         else if mnt = Some (mnt_dir m) then Some 1
         else scan_mounts dev mnt opt mounting ms)
      else do {
        d \<leftarrow> dev;
        if mnt_fsname m = d then do {
          t \<leftarrow> mnt;
          if mnt_dir m = t \<and> (case opt of None \<Rightarrow> True | Some opt \<Rightarrow> hasmntopt (mnt_opts m) opt)
          then Some 1
          else scan_mounts dev mnt opt mounting ms }
        else scan_mounts dev mnt opt mounting ms })"

text \<open>\<open>proc_mounts\<close> is the list of \<open>/proc/mounts\<close>, if it can be opened.\<close>

definition ecryptfs_private_is_mounted ::
  "mntent list option \<Rightarrow> byte list option \<Rightarrow> byte list option \<Rightarrow> byte list option \<Rightarrow> bool \<Rightarrow> schedule
   \<Rightarrow> (int \<times> schedule) option" where
  "ecryptfs_private_is_mounted proc_mounts dev mnt sig mounting mem =
     (let (opt, ok, mem) =
        (case sig of
           None \<Rightarrow> (None, True, mem)
         | Some s \<Rightarrow>
             (case malloc_ok mem of
                (ok, mem) \<Rightarrow> (Some (bytes_of_string ''ecryptfs_sig='' @ s), ok, mem)))
      in if \<not> ok then Some (0, mem)
         else case proc_mounts of
           None \<Rightarrow> Some (0, mem)
         | Some ms \<Rightarrow> do {
             r \<leftarrow> scan_mounts dev mnt opt mounting ms;
             Some (r, mem) })"

subsection \<open>The kernel module's version\<close>

text \<open>
  \<open>get_sysfs_mountpoint\<close>: \<open>mtab\<close> is an error number or the entries.
\<close>

fun find_sysfs :: "mntent list \<Rightarrow> byte list" where
  "find_sysfs [] = bytes_of_string ''/sys''"
| "find_sysfs (m # ms) =
     (if mnt_type m = bytes_of_string ''sysfs'' then mnt_dir m else find_sysfs ms)"

definition get_sysfs_mountpoint :: "int + mntent list \<Rightarrow> int + byte list" where
  "get_sysfs_mountpoint mtab = (case mtab of Inl e \<Rightarrow> Inl (- e) | Inr ms \<Rightarrow> Inr (find_sysfs ms))"

text \<open>\<open>atoi\<close> on an array: reading stops at the first character that is no digit.\<close>

definition skip_number :: "byte list \<Rightarrow> byte list" where
  "skip_number s =
     (let s = dropWhile c_isspace s;
          s = (case s of b # bs \<Rightarrow> if b = 45 \<or> b = 43 then bs else s | [] \<Rightarrow> [])
      in dropWhile (is_digit_of 10) s)"

definition atoi_array :: "byte list \<Rightarrow> u32 option" where
  "atoi_array buf = (if skip_number buf = [] then None else Some (word_of_int (c_strtol 10 buf)))"

text \<open>
  \<open>ecryptfs_get_version\<close>: the mount table is read twice and may differ; the buffer is sized by
  the first reading. \<open>c_open\<close> is an error number or the content; \<open>modprobe\<close> tells whether the
  shell could be run, and \<open>reopened\<close> is the result of opening again. \<open>version_str\<close> is not
  terminated.
\<close>

definition ecryptfs_get_version ::
  "(nat \<Rightarrow> byte) \<Rightarrow> int + mntent list \<Rightarrow> int + mntent list \<Rightarrow> (byte list \<Rightarrow> int + byte list)
   \<Rightarrow> bool \<Rightarrow> (byte list \<Rightarrow> int + byte list) \<Rightarrow> bool \<Rightarrow> schedule
   \<Rightarrow> (int \<times> u32 option \<times> schedule) option" where
  "ecryptfs_get_version junk mtab mtab2 c_open modprobe reopened read_ok mem =
     (case get_sysfs_mountpoint mtab of
        Inl rc \<Rightarrow> Some (rc, None, mem)
      | Inr d1 \<Rightarrow>
          (case malloc_ok mem of
             (False, mem) \<Rightarrow> Some (- ENOMEM, None, mem)
           | (True, mem) \<Rightarrow>
               (case get_sysfs_mountpoint mtab2 of
                  Inl rc \<Rightarrow> Some (rc, None, mem)
                | Inr d2 \<Rightarrow> do {
                    mnt \<leftarrow> wr_bytes (fresh junk (length d1 + 1)) 0 d2;
                    mnt \<leftarrow> wr_bytes mnt (length d2) [0];
                    dir \<leftarrow> c_string mnt;
                    (case malloc_ok mem of
                       (False, mem) \<Rightarrow> Some (- ENOMEM, None, mem)
                     | (True, mem) \<Rightarrow>
                         let handle = dir @ bytes_of_string ''/fs/ecryptfs/version'';
                             fd = (case c_open handle of
                                     Inl e \<Rightarrow> if e = ENOENT \<and> modprobe then reopened handle else Inl e
                                   | Inr c \<Rightarrow> Inr c)
                         in (case fd of
                               Inl e \<Rightarrow> Some (- EINVAL, None, mem)
                             | Inr content \<Rightarrow>
                                 if \<not> read_ok \<or> content = [] then Some (- EINVAL, None, mem)
                                 else do {
                                   let bs = take 16 content;
                                   v \<leftarrow> atoi_array (bs @ fresh junk (16 - length bs));
                                   Some (0, Some v, mem) })) })))"

definition ecryptfs_supports_passphrase :: "u32 \<Rightarrow> u32" where
  "ecryptfs_supports_passphrase version = version AND 0x00000001"

definition ecryptfs_supports_pubkey :: "u32 \<Rightarrow> u32" where
  "ecryptfs_supports_pubkey version = version AND 0x00000002"

definition ecryptfs_supports_plaintext_passthrough :: "u32 \<Rightarrow> u32" where
  "ecryptfs_supports_plaintext_passthrough version = version AND 0x00000004"

definition ecryptfs_supports_hmac :: "u32 \<Rightarrow> u32" where
  "ecryptfs_supports_hmac version = version AND 0x00000080"

definition ecryptfs_supports_filename_encryption :: "u32 \<Rightarrow> u32" where
  "ecryptfs_supports_filename_encryption version = version AND 0x00000100"

definition ecryptfs_supports_policy :: "u32 \<Rightarrow> u32" where
  "ecryptfs_supports_policy version = version AND 0x00000008"

definition ecryptfs_supports_xattr :: "u32 \<Rightarrow> u32" where
  "ecryptfs_supports_xattr version = version AND 0x00000010"

subsection \<open>Lemmas\<close>

text \<open>When mounting, the device or the mount point of any eCryptfs mount counts.\<close>

lemma scan_mounts_mounting:
  "scan_mounts (Some dev) (Some mnt) opt True ms =
     Some (if \<exists>m \<in> set ms. mnt_type m = bytes_of_string ''ecryptfs''
                 \<and> (mnt_fsname m = dev \<or> mnt_dir m = mnt) then 1 else 0)"
  by (induction ms) auto

text \<open>When unmounting, device, mount point and signature must match in one mount.\<close>

lemma scan_mounts_unmounting:
  "scan_mounts (Some dev) (Some mnt) opt False ms =
     Some (if \<exists>m \<in> set ms. mnt_type m = bytes_of_string ''ecryptfs''
                 \<and> mnt_fsname m = dev \<and> mnt_dir m = mnt
                 \<and> (case opt of None \<Rightarrow> True | Some opt \<Rightarrow> hasmntopt (mnt_opts m) opt) then 1 else 0)"
  by (induction ms) auto

lemma split_commas_single: "44 \<notin> set f \<Longrightarrow> split_commas f = [f]"
  by (induction f) auto

lemma split_commas_field: "44 \<notin> set f \<Longrightarrow> split_commas (f @ 44 # bs) = f # split_commas bs"
  by (induction f) auto

lemma split_commas_nonempty: "split_commas xs \<noteq> []"
  by (induction xs) (auto split: list.splits)

text \<open>The fields of a joined option list are its fields.\<close>

lemma split_commas_append: "split_commas (xs @ 44 # ys) = split_commas xs @ split_commas ys"
proof (induction xs)
  case (Cons x xs)
  then show ?case using split_commas_nonempty [of xs] by (cases "split_commas xs") auto
qed simp

subsection \<open>Properties\<close>

text \<open>
  What counts as mounted: before mounting, any eCryptfs mount of the device or on the
  mount point; before unmounting, only one mount that has the device, the mount point and,
  when there is a signature, that signature among its options.
\<close>

theorem private_is_mounted_spec:
  "ecryptfs_private_is_mounted (Some ms) (Some dev) (Some mnt) sig mounting [] =
     Some (if \<exists>m \<in> set ms. mnt_type m = bytes_of_string ''ecryptfs''
              \<and> (if mounting then mnt_fsname m = dev \<or> mnt_dir m = mnt
                 else mnt_fsname m = dev \<and> mnt_dir m = mnt
                      \<and> (case sig of None \<Rightarrow> True
                          | Some s \<Rightarrow> hasmntopt (mnt_opts m) (bytes_of_string ''ecryptfs_sig='' @ s)))
           then 1 else 0, [])"
  by (cases mounting; cases sig)
    (simp_all add: ecryptfs_private_is_mounted_def scan_mounts_mounting scan_mounts_unmounting)

end
