(* ===== verification/Auth_Tok.thy ===== *)
theory Auth_Tok
  imports Hex Key_Mod
begin

text \<open>
  Authentication tokens, from \<open>src/libecryptfs/main.c\<close> and \<open>src/include/ecryptfs.h\<close>: the
  passphrase signature and key, the token built from a passphrase and the one built from a
  key module. The hash (SHA-512 of the NSS library) is a parameter, \<^term>\<open>None\<close> standing for
  its failure.
\<close>

abbreviation (input) MAX_PASSPHRASE_BYTES :: nat where "MAX_PASSPHRASE_BYTES \<equiv> 64"
abbreviation (input) SALT_SIZE :: nat where "SALT_SIZE \<equiv> 8"
abbreviation (input) SIG_SIZE :: nat where "SIG_SIZE \<equiv> 8"
abbreviation (input) SIG_SIZE_HEX :: nat where "SIG_SIZE_HEX \<equiv> 16"
abbreviation (input) KEY_BYTES_MAX :: nat where "KEY_BYTES_MAX \<equiv> 64"
abbreviation (input) KEY_MOD_NAME_BYTES :: nat where "KEY_MOD_NAME_BYTES \<equiv> 16"

type_synonym hash = "byte list \<Rightarrow> byte list option"

subsection \<open>The token\<close>

record ecryptfs_session_key =
  sk_flags :: int
  sk_encrypted_key_size :: int
  sk_decrypted_key_size :: int
  sk_encrypted_key :: "byte list"
  sk_decrypted_key :: "byte list"

record ecryptfs_password =
  pw_password_bytes :: int
  pw_hash_algo :: int
  pw_hash_iterations :: int
  pw_session_key_encryption_key_bytes :: int
  pw_flags :: u32
  pw_session_key_encryption_key :: "byte list"
  pw_signature :: "byte list"
  pw_salt :: "byte list"

record ecryptfs_private_key =
  pk_key_size :: u32
  pk_data_len :: u32
  pk_signature :: "byte list"
  pk_key_mod_alias :: "byte list"
  pk_data :: "byte list"

datatype token = Password ecryptfs_password | Private_Key ecryptfs_private_key

record ecryptfs_auth_tok =
  at_version :: u16
  at_token_type :: u16
  at_flags :: u32
  at_session_key :: ecryptfs_session_key
  at_token :: token

definition zero_session_key :: ecryptfs_session_key where
  "zero_session_key = \<lparr>sk_flags = 0, sk_encrypted_key_size = 0, sk_decrypted_key_size = 0,
     sk_encrypted_key = replicate 512 0, sk_decrypted_key = replicate 64 0\<rparr>"

text \<open>\<open>strncpy\<close> into a zeroed field of \<open>width\<close> bytes.\<close>

definition strncpy_field :: "nat \<Rightarrow> nat \<Rightarrow> byte list \<Rightarrow> byte list" where
  "strncpy_field width n s = (let t = take n s in t @ replicate (width - length t) 0)"

definition ecryptfs_get_versions :: "int \<times> int \<times> int" where
  "ecryptfs_get_versions = (0x00, 0x04, 0x03)"

definition tok_version :: u16 where
  "tok_version =
     (case ecryptfs_get_versions of (major, minor, _) \<Rightarrow>
        (push_bit 8 (word_of_int major) AND 0xFF00) OR (word_of_int minor AND 0x00FF))"

subsection \<open>Passphrases\<close>

definition do_hash :: "hash \<Rightarrow> byte list \<Rightarrow> int + byte list" where
  "do_hash hash src = (case hash src of None \<Rightarrow> Inl (- EINVAL) | Some d \<Rightarrow> Inr d)"

text \<open>\<open>while (hash_iterations--) do_hash(buf, \<dots>, buf, \<dots>)\<close>\<close>

fun hash_loop :: "hash \<Rightarrow> nat \<Rightarrow> byte list \<Rightarrow> int + byte list" where
  "hash_loop hash 0 buf = Inr buf"
| "hash_loop hash (Suc n) buf =
     (case do_hash hash buf of Inl rc \<Rightarrow> Inl rc | Inr buf \<Rightarrow> hash_loop hash n buf)"

text \<open>
  \<open>generate_passphrase_sig\<close>: the signature text and the file-encryption key-encryption key.
  The salt is a buffer of which eight bytes are read, the passphrase a C string.
\<close>

definition generate_passphrase_sig ::
  "hash \<Rightarrow> byte list \<Rightarrow> byte list \<Rightarrow> (int + byte list \<times> byte list) option" where
  "generate_passphrase_sig hash salt passphrase =
     (if MAX_PASSPHRASE_BYTES < length passphrase then Some (Inl (- EINVAL))
      else do {
        s \<leftarrow> rd_bytes salt 0 SALT_SIZE;
        (case do_hash hash (s @ passphrase) of
           Inl rc \<Rightarrow> Some (Inl rc)
         | Inr buf \<Rightarrow>
             (case hash_loop hash (65536 - 1) buf of
                Inl rc \<Rightarrow> Some (Inl rc)
              | Inr buf \<Rightarrow> do {
                  fekek \<leftarrow> rd_bytes buf 0 KEY_BYTES_MAX;
                  (case do_hash hash buf of
                     Inl rc \<Rightarrow> Some (Inl rc)
                   | Inr buf \<Rightarrow> do {
                       d \<leftarrow> rd_bytes buf 0 SIG_SIZE;
                       Some (Inr (to_hex d, fekek)) }) })) })"

definition generate_payload :: "byte list \<Rightarrow> byte list \<Rightarrow> byte list \<Rightarrow> ecryptfs_auth_tok option" where
  "generate_payload passphrase_sig salt session_key_encryption_key = do {
     s \<leftarrow> rd_bytes salt 0 SALT_SIZE;
     k \<leftarrow> rd_bytes session_key_encryption_key 0 KEY_BYTES_MAX;
     Some \<lparr>at_version = tok_version, at_token_type = 0, at_flags = 0,
       at_session_key = zero_session_key,
       at_token = Password \<lparr>pw_password_bytes = 0, pw_hash_algo = 10, pw_hash_iterations = 0,
         pw_session_key_encryption_key_bytes = int KEY_BYTES_MAX,
         pw_flags = (0 OR 0x02) AND NOT 0x01,
         pw_session_key_encryption_key = k,
         pw_signature = strncpy_field (SIG_SIZE_HEX + 1) SIG_SIZE_HEX passphrase_sig,
         pw_salt = s\<rparr>\<rparr> }"

subsection \<open>Key modules\<close>

definition private_tok :: "ecryptfs_private_key \<Rightarrow> ecryptfs_auth_tok" where
  "private_tok pk = \<lparr>at_version = tok_version, at_token_type = 1, at_flags = 0,
     at_session_key = zero_session_key, at_token = Private_Key pk\<rparr>"

text \<open>
  The blob written into the token: from the module, or the one stored in the module handle.
  \<open>sig\<close> is the caller's buffer of \<open>SIG_SIZE_HEX + 1\<close> bytes.
\<close>

definition payload_blob ::
  "'tn ecryptfs_key_mod \<Rightarrow> nat \<Rightarrow> (int \<times> nat \<times> byte list) option" where
  "payload_blob key_mod blob_size =
     (case km_blob key_mod of
        None \<Rightarrow> do {
          get_blob \<leftarrow> op_get_blob (km_ops key_mod);
          Some (get_blob (Some (replicate blob_size 0)) (km_param_vals key_mod)) }
      | Some blob \<Rightarrow> do {
          data \<leftarrow> wr_bytes (replicate blob_size 0) 0 blob;
          Some (0, length blob, data) })"

text \<open>The signature: the module's own, since no key type is known to the library.\<close>

definition payload_sig ::
  "'tn ecryptfs_key_mod \<Rightarrow> byte list \<Rightarrow> byte list \<Rightarrow> (nat \<Rightarrow> byte) \<Rightarrow> schedule
   \<Rightarrow> (int \<times> byte list \<times> schedule) option" where
  "payload_sig key_mod data sig junk mem = do {
     get_key_data \<leftarrow> op_get_key_data (km_ops key_mod);
     (case get_key_data None data of
        (rc, key_data_len, _) \<Rightarrow>
          if rc \<noteq> 0 then Some (rc, sig, mem)
          else if key_data_len = 0 then do {
            get_key_sig \<leftarrow> op_get_key_sig (km_ops key_mod);
            (case get_key_sig data of (rc, sig) \<Rightarrow> Some (rc, sig, mem)) }
          else case malloc_ok mem of
            (False, mem) \<Rightarrow> Some (- ENOMEM, sig, mem)
          | (True, mem) \<Rightarrow>
              (case get_key_data (Some (fresh junk key_data_len)) data of
                 (rc, key_data_len, key_data) \<Rightarrow>
                   if rc \<noteq> 0 then Some (rc, sig, mem)
                   else do {
                     rc \<leftarrow> ecryptfs_generate_sig_from_key_data key_data;
                     if rc \<noteq> 0 then Some (rc, sig, mem)
                     else do {
                       c \<leftarrow> rd_byte sig 0;
                       if c = 0 then do {
                         get_key_sig \<leftarrow> op_get_key_sig (km_ops key_mod);
                         (case get_key_sig data of (rc, sig) \<Rightarrow> Some (rc, sig, mem)) }
                       else Some (0, sig, mem) } })) }"

definition ecryptfs_generate_key_payload ::
  "(nat \<Rightarrow> byte) \<Rightarrow> 'tn ecryptfs_key_mod \<Rightarrow> byte list \<Rightarrow> nat \<Rightarrow> schedule
   \<Rightarrow> (int \<times> ecryptfs_auth_tok option \<times> byte list \<times> schedule) proc option" where
  "ecryptfs_generate_key_payload junk key_mod sig blob_size mem = do {
     (rc, blob_size_tmp, data) \<leftarrow> payload_blob key_mod blob_size;
     if rc \<noteq> 0 then Some (Returned (rc, None, sig, mem))
     else if blob_size \<noteq> blob_size_tmp then Some (Process_Exit 1)
     else do {
       (rc, sig, mem) \<leftarrow> payload_sig key_mod data sig junk mem;
       if rc \<noteq> 0 then Some (Returned (rc, None, sig, mem))
       else do {
         al \<leftarrow> km_alias key_mod;
         s \<leftarrow> rd_bytes sig 0 SIG_SIZE_HEX;
         Some (Returned (0,
           Some (private_tok \<lparr>pk_key_size = 16, pk_data_len = word_of_nat blob_size,
             pk_signature = s @ [0],
             pk_key_mod_alias =
               strncpy_field (KEY_MOD_NAME_BYTES + 1) KEY_MOD_NAME_BYTES (bytes_of_string al),
             pk_data = data\<rparr>), sig, mem)) } } }"

subsection \<open>Iterated hashing\<close>

text \<open>
  The specification of the hash loop: \<open>n\<close> applications of the hash, each of which must
  succeed.
\<close>

fun hash_iter :: "hash \<Rightarrow> nat \<Rightarrow> byte list \<Rightarrow> byte list option" where
  "hash_iter hash 0 x = Some x"
| "hash_iter hash (Suc n) x = Option.bind (hash_iter hash n x) hash"

lemma hash_iter_shift: "hash_iter hash (Suc n) x = Option.bind (hash x) (hash_iter hash n)"
proof (induction n)
  case (Suc n)
  have "hash_iter hash (Suc (Suc n)) x = Option.bind (hash_iter hash (Suc n) x) hash" by simp
  also have "\<dots> = Option.bind (hash x) (\<lambda>y. Option.bind (hash_iter hash n y) hash)"
    by (simp only: Suc.IH Option.bind_assoc)
  finally show ?case by simp
qed simp

lemma hash_loop_iter:
  "hash_loop hash n x = (case hash_iter hash n x of None \<Rightarrow> Inl (- EINVAL) | Some y \<Rightarrow> Inr y)"
proof (induction n arbitrary: x)
  case (Suc n)
  show ?case unfolding hash_iter_shift
    by (cases "hash x") (simp_all add: do_hash_def Suc.IH)
qed simp

lemma hash_iter_length:
  "\<forall>x d. hash x = Some d \<longrightarrow> length d = k \<Longrightarrow> hash_iter hash (Suc n) x = Some d \<Longrightarrow> length d = k"
  by (cases "hash_iter hash n x") auto

text \<open>
  What the signature and the key are: the 65536-fold hash of salt and passphrase is the
  key, and one more application gives the signature.
\<close>

definition passphrase_key :: "hash \<Rightarrow> byte list \<Rightarrow> byte list \<Rightarrow> byte list option" where
  "passphrase_key hash salt passphrase = hash_iter hash 65536 (take SALT_SIZE salt @ passphrase)"

definition passphrase_sig :: "hash \<Rightarrow> byte list \<Rightarrow> byte list \<Rightarrow> byte list option" where
  "passphrase_sig hash salt passphrase =
     map_option (\<lambda>d. to_hex (take SIG_SIZE d)) (Option.bind (passphrase_key hash salt passphrase) hash)"

lemma hash_loop_65536:
  "(case do_hash hash x of Inl rc \<Rightarrow> Inl rc | Inr buf \<Rightarrow> hash_loop hash (65536 - 1) buf)
   = (case hash_iter hash 65536 x of None \<Rightarrow> Inl (- EINVAL) | Some y \<Rightarrow> Inr y)"
proof -
  have "(65536 :: nat) = Suc (65536 - 1)" by simp
  then show ?thesis
    by (metis hash_loop.simps(2) hash_loop_iter)
qed

lemma generate_passphrase_sig_spec:
  assumes "\<forall>x d. hash x = Some d \<longrightarrow> length d = 64"
    and "SALT_SIZE \<le> length salt" and "length passphrase \<le> MAX_PASSPHRASE_BYTES"
  shows "generate_passphrase_sig hash salt passphrase =
     (case passphrase_key hash salt passphrase of
        None \<Rightarrow> Some (Inl (- EINVAL))
      | Some k \<Rightarrow> (case passphrase_sig hash salt passphrase of
          None \<Rightarrow> Some (Inl (- EINVAL)) | Some s \<Rightarrow> Some (Inr (s, k))))"
proof -
  define x where "x = take SALT_SIZE salt @ passphrase"
  have s: "rd_bytes salt 0 SALT_SIZE = Some (take SALT_SIZE salt)"
    using assms(2) by (simp add: rd_bytes_def)
  have k: "passphrase_key hash salt passphrase = hash_iter hash 65536 x"
    by (simp add: passphrase_key_def x_def)
  note loop = hash_loop_65536 [of hash x]
  show ?thesis
  proof (cases "hash_iter hash 65536 x")
    case None
    with loop assms(3) s k show ?thesis
      by (auto simp: generate_passphrase_sig_def x_def [symmetric] split: sum.splits)
  next
    case (Some y)
    have "(65536 :: nat) = Suc 65535" by simp
    then have y: "length y = 64" using hash_iter_length [OF assms(1)] Some by metis
    from Some loop obtain b where b: "do_hash hash x = Inr b" "hash_loop hash (65536 - 1) b = Inr y"
      by (auto split: sum.splits)
    show ?thesis
    proof (cases "hash y")
      case None
      with b Some assms(3) s k y show ?thesis
        by (simp add: generate_passphrase_sig_def x_def [symmetric] passphrase_sig_def do_hash_def
            rd_bytes_def)
    next
      case (Some d)
      with assms(1) have "length d = 64" by blast
      with Some b \<open>hash_iter hash 65536 x = Some y\<close> assms(3) s k y show ?thesis
        by (simp add: generate_passphrase_sig_def x_def [symmetric] passphrase_sig_def do_hash_def
            rd_bytes_def)
    qed
  qed
qed

text \<open>A hash for examples: a fixed digest of 64 bytes that depends on the first byte only.\<close>

definition toy_hash :: hash where
  "toy_hash x = Some ((case x of [] \<Rightarrow> 1 | b # _ \<Rightarrow> b) # replicate 63 0)"

lemma toy_hash_length: "\<forall>x d. toy_hash x = Some d \<longrightarrow> length d = 64"
  by (auto simp: toy_hash_def)

lemma toy_hash_iter: "hash_iter toy_hash (Suc n) (b # x) = Some (b # replicate 63 0)"
  by (induction n) (simp_all add: toy_hash_def)

lemma toy_passphrase_key:
  "passphrase_key toy_hash (b # salt) p = Some (b # replicate 63 0)"
proof -
  have "(65536 :: nat) = Suc 65535" by simp
  then show ?thesis using toy_hash_iter [of 65535 b "take 7 salt @ p"]
    by (simp add: passphrase_key_def)
qed

lemma toy_passphrase_sig:
  "passphrase_sig toy_hash (b # salt) p = Some (to_hex (b # replicate 7 0))"
  by (simp add: passphrase_sig_def toy_passphrase_key toy_hash_def)

subsection \<open>Properties\<close>

text \<open>
  C15. For a passphrase of at most 64 bytes and a salt of at least 8, with a hash whose
  digests have 64 bytes: the key is the 65536-fold hash of the first 8 bytes of the salt and
  the passphrase, the signature is the hexadecimal text of the first 8 bytes of one more
  hash, and a failing hash gives \<open>-EINVAL\<close>; a longer passphrase is refused.
\<close>

theorem generate_passphrase_sig_correct:
  assumes "\<forall>x d. hash x = Some d \<longrightarrow> length d = 64" and "SALT_SIZE \<le> length salt"
  shows "generate_passphrase_sig hash salt passphrase =
     (if length passphrase \<le> MAX_PASSPHRASE_BYTES then
        (case passphrase_key hash salt passphrase of
           None \<Rightarrow> Some (Inl (- EINVAL))
         | Some k \<Rightarrow> (case passphrase_sig hash salt passphrase of
             None \<Rightarrow> Some (Inl (- EINVAL)) | Some s \<Rightarrow> Some (Inr (s, k))))
      else Some (Inl (- EINVAL)))"
  using generate_passphrase_sig_spec [OF assms]
  by (simp add: generate_passphrase_sig_def)

theorem generate_passphrase_sig_correct_witness:
  "generate_passphrase_sig toy_hash [0x11, 2, 3, 4, 5, 6, 7, 8] [97, 98, 99]
   = Some (Inr (to_hex (0x11 # replicate 7 0), 0x11 # replicate 63 0))"
  using generate_passphrase_sig_correct [OF toy_hash_length, of "[0x11, 2, 3, 4, 5, 6, 7, 8]" "[97, 98, 99]"]
  by (simp add: toy_passphrase_key toy_passphrase_sig)

text \<open>
  A key module that hands out key data can never be used: the library knows no key
  type, so once \<open>get_key_data\<close> reports data, building the token fails with \<open>-EINVAL\<close> and
  the module's own \<open>get_key_sig\<close> is not asked, whatever it would return.
\<close>

theorem generate_key_payload_rejects_key_data:
  assumes "payload_blob km n = Some (0, n, data)"
    and "op_get_key_data (km_ops km) = Some gkd"
    and "gkd None data = (0, k, x)" "k \<noteq> 0"
    and "gkd (Some (fresh junk k)) data = (0, k', key_data)" "4 \<le> length key_data"
  shows "ecryptfs_generate_key_payload junk km sig n [] = Some (Returned (- EINVAL, None, sig, []))"
  using assms
  by (simp add: ecryptfs_generate_key_payload_def payload_sig_def
      ecryptfs_generate_sig_from_key_data_def rd_bytes_def)

definition key_data_mod :: "unit ecryptfs_key_mod" where
  "key_data_mod = (new_key_mod (Some ''m'') None ((ecryptfs_passphrase_ops ())\<lparr>
     op_get_key_data := Some (\<lambda>buf blob. (0, 4, [0, 0, 0, 1])),
     op_get_key_sig := Some (\<lambda>blob. (0, replicate 16 48 @ [0]))\<rparr>))\<lparr>km_blob := Some [9]\<rparr>"

theorem generate_key_payload_rejects_key_data_witness:
  "ecryptfs_generate_key_payload (\<lambda>_. 0) key_data_mod [] 1 [] = Some (Returned (- EINVAL, None, [], []))"
  using generate_key_payload_rejects_key_data [of key_data_mod 1 "[9]"
      "\<lambda>buf blob. (0, 4, [0, 0, 0, 1])" 4 "[0, 0, 0, 1]" "\<lambda>_. 0" 4 "[0, 0, 0, 1]" "[]"]
  by (simp add: key_data_mod_def new_key_mod_def payload_blob_def wr_bytes_def
      ecryptfs_passphrase_ops_def)

end
