(* ===== verification/Key_Management.thy ===== *)
theory Key_Management
  imports Auth_Tok
begin

text \<open>
  Keys on disk and in the kernel keyring, from \<open>src/libecryptfs/key_management.c\<close>: adding
  and removing tokens, wrapping a passphrase into a file and unwrapping it, inserting a
  wrapped passphrase into the keyring, and the signature cache.

  The kernel keyring and the block cipher (AES of the NSS library) are parameters, records
  of functions with the results their documentation describes; the file system is a map from
  names to contents, with the outcomes of the system calls as parameters (record \<open>io\<close>).
\<close>

subsection \<open>The keyring\<close>

text \<open>
  \<open>keyctl_search\<close>, \<open>add_key\<close> and \<open>keyctl_unlink\<close> on the user keyring: an error number, or a
  serial number.
\<close>

record 'k keyring =
  kr_search :: "'k \<Rightarrow> byte list \<Rightarrow> int + int"
  kr_add :: "'k \<Rightarrow> byte list \<Rightarrow> ecryptfs_auth_tok \<Rightarrow> (int + int) \<times> 'k"
  kr_unlink :: "'k \<Rightarrow> int \<Rightarrow> (int + unit) \<times> 'k"

text \<open>What the code relies on: a key that was added is found.\<close>

definition keyring_finds_added :: "'k keyring \<Rightarrow> bool" where
  "keyring_finds_added kr \<longleftrightarrow>
     (\<forall>k sig tok n k'. kr_add kr k sig tok = (Inr n, k') \<longrightarrow> (\<exists>m. kr_search kr k' sig = Inr m))"

definition ecryptfs_generate_passphrase_auth_tok ::
  "hash \<Rightarrow> byte list \<Rightarrow> byte list \<Rightarrow> schedule
   \<Rightarrow> ((int + ecryptfs_auth_tok \<times> byte list) \<times> schedule) option" where
  "ecryptfs_generate_passphrase_auth_tok hash salt passphrase mem = do {
     r \<leftarrow> generate_passphrase_sig hash salt passphrase;
     (case r of
        Inl rc \<Rightarrow> Some (Inl (if rc < 0 then rc else rc * -1), mem)
      | Inr (sig, fekek) \<Rightarrow>
          (case malloc_ok mem of
             (False, mem) \<Rightarrow> Some (Inl (- ENOMEM), mem)
           | (True, mem) \<Rightarrow> do {
               tok \<leftarrow> generate_payload sig salt fekek;
               Some (Inr (tok, sig), mem) })) }"

definition ecryptfs_passphrase_blob ::
  "hash \<Rightarrow> byte list \<Rightarrow> byte list \<Rightarrow> schedule \<Rightarrow> (ecryptfs_auth_tok option \<times> schedule) option" where
  "ecryptfs_passphrase_blob hash salt passphrase mem = do {
     (r, mem) \<leftarrow> ecryptfs_generate_passphrase_auth_tok hash salt passphrase mem;
     Some (case r of Inl rc \<Rightarrow> None | Inr (tok, sig) \<Rightarrow> Some tok, mem) }"

definition ecryptfs_remove_auth_tok_from_keyring :: "'k keyring \<Rightarrow> 'k \<Rightarrow> byte list \<Rightarrow> int \<times> 'k" where
  "ecryptfs_remove_auth_tok_from_keyring kr k auth_tok_sig =
     (case kr_search kr k auth_tok_sig of
        Inl e \<Rightarrow> (e, k)
      | Inr n \<Rightarrow>
          (case kr_unlink kr k n of
             (Inl e, k) \<Rightarrow> (e, k)
           | (Inr _, k) \<Rightarrow> (0, k)))"

definition ecryptfs_add_auth_tok_to_keyring ::
  "'k keyring \<Rightarrow> 'k \<Rightarrow> ecryptfs_auth_tok \<Rightarrow> byte list \<Rightarrow> int \<times> 'k" where
  "ecryptfs_add_auth_tok_to_keyring kr k auth_tok auth_tok_sig =
     (case kr_search kr k auth_tok_sig of
        Inr n \<Rightarrow> (1, k)
      | Inl e \<Rightarrow>
          if e \<noteq> ENOKEY then (if e < 0 then e else e * -1, k)
          else (case kr_add kr k auth_tok_sig auth_tok of
                  (Inl e, k) \<Rightarrow> (- e, k)
                | (Inr n, k) \<Rightarrow> (0, k)))"

definition ecryptfs_add_blob_to_keyring ::
  "'k keyring \<Rightarrow> 'k \<Rightarrow> ecryptfs_auth_tok \<Rightarrow> byte list \<Rightarrow> int \<times> 'k" where
  "ecryptfs_add_blob_to_keyring = ecryptfs_add_auth_tok_to_keyring"

text \<open>The status, the signature written to \<open>auth_tok_sig\<close> (if any) and the keyring.\<close>

definition ecryptfs_add_passphrase_key_to_keyring ::
  "hash \<Rightarrow> 'k keyring \<Rightarrow> 'k \<Rightarrow> byte list \<Rightarrow> byte list \<Rightarrow> schedule
   \<Rightarrow> (int \<times> byte list option \<times> 'k \<times> schedule) option" where
  "ecryptfs_add_passphrase_key_to_keyring hash kr k passphrase salt mem = do {
     (r, mem) \<leftarrow> ecryptfs_generate_passphrase_auth_tok hash salt passphrase mem;
     (case r of
        Inl rc \<Rightarrow> Some (rc, None, k, mem)
      | Inr (tok, sig) \<Rightarrow>
          (case ecryptfs_add_auth_tok_to_keyring kr k tok sig of
             (rc, k) \<Rightarrow> Some (rc, Some sig, k, mem))) }"

definition ecryptfs_add_key_module_key_to_keyring ::
  "(nat \<Rightarrow> byte) \<Rightarrow> 'k keyring \<Rightarrow> 'k \<Rightarrow> 'tn ecryptfs_key_mod \<Rightarrow> byte list \<Rightarrow> schedule
   \<Rightarrow> (int \<times> byte list \<times> 'k \<times> schedule) proc option" where
  "ecryptfs_add_key_module_key_to_keyring junk kr k key_mod sig mem = do {
     (rc, blob_size) \<leftarrow>
       (case km_blob key_mod of
          None \<Rightarrow> do {
            get_blob \<leftarrow> op_get_blob (km_ops key_mod);
            (case get_blob None (km_param_vals key_mod) of (rc, n, _) \<Rightarrow> Some (rc, n)) }
        | Some blob \<Rightarrow> Some (0, length blob));
     if rc \<noteq> 0 then Some (Returned (rc, sig, k, mem))
     else (case malloc_ok mem of
       (False, mem) \<Rightarrow> Some (Returned (- ENOMEM, sig, k, mem))
     | (True, mem) \<Rightarrow> do {
         r \<leftarrow> ecryptfs_generate_key_payload junk key_mod sig blob_size mem;
         (case r of
            Process_Exit c \<Rightarrow> Some (Process_Exit c)
          | Returned (rc, tok, sig, mem) \<Rightarrow>
              if rc \<noteq> 0 then Some (Returned (rc, sig, k, mem))
              else do {
                tok \<leftarrow> tok;
                name \<leftarrow> c_string sig;
                (case kr_search kr k name of
                   Inr n \<Rightarrow> Some (Returned (1, sig, k, mem))
                 | Inl e \<Rightarrow>
                     (case kr_add kr k name tok of
                        (Inl e, k) \<Rightarrow> Some (Returned (- e, sig, k, mem))
                      | (Inr n, k) \<Rightarrow> Some (Returned (0, sig, k, mem)))) }) }) }"

text \<open>\<open>ecryptfs_validate_keyring\<close>: linking the user keyring into the session keyring.\<close>

definition ecryptfs_validate_keyring :: "int \<Rightarrow> int" where
  "ecryptfs_validate_keyring keyctl_link = (if keyctl_link \<noteq> 0 then - EIO else 0)"

text \<open>
  \<open>ecryptfs_passphrase_sig_from_blob\<close>: size and bytes of the signature field. A blob with a
  private key would be read through the wrong member of the union.
\<close>

definition ecryptfs_passphrase_sig_from_blob :: "ecryptfs_auth_tok \<Rightarrow> (nat \<times> byte list) option" where
  "ecryptfs_passphrase_sig_from_blob blob =
     (case at_token blob of
        Password p \<Rightarrow> Some (SIG_SIZE_HEX + 1, pw_signature p)
      | Private_Key _ \<Rightarrow> None)"

text \<open>The home directory, if the user has an entry; whether the file exists.\<close>

definition ecryptfs_get_wrapped_passphrase_filename ::
  "string option \<Rightarrow> (string \<Rightarrow> bool) \<Rightarrow> schedule \<Rightarrow> string option \<times> schedule" where
  "ecryptfs_get_wrapped_passphrase_filename pw_dir exists_file mem =
     (case pw_dir of
        None \<Rightarrow> (None, mem)
      | Some dir \<Rightarrow>
          (case malloc_ok mem of
             (False, mem) \<Rightarrow> (None, mem)
           | (True, mem) \<Rightarrow>
               let filename = dir @ ''/.ecryptfs/wrapped-passphrase'' in
               (if exists_file filename then Some filename else None, mem)))"

subsection \<open>Files\<close>

type_synonym files = "string \<rightharpoonup> byte list"

text \<open>
  Whether an existing file can be opened for reading, whether a file can be created or
  opened for writing, whether \<open>unlink\<close> works, whether a read fails, and the return value of
  a write.
\<close>

record io =
  io_open_read :: "string \<Rightarrow> bool"
  io_open_write :: "string \<Rightarrow> bool"
  io_unlink :: "string \<Rightarrow> bool"
  io_read_fails :: bool
  io_write :: "byte list \<Rightarrow> int"

definition io_ok :: "io \<Rightarrow> bool" where
  "io_ok io \<longleftrightarrow> (\<forall>f. io_open_read io f) \<and> (\<forall>f. io_open_write io f)
     \<and> (\<forall>f. io_unlink io f) \<and> \<not> io_read_fails io
     \<and> (\<forall>bs. io_write io bs = int (length bs))"

text \<open>\<open>read\<close> of at most \<open>n\<close> bytes at a position: \<^term>\<open>None\<close> for an error.\<close>

definition c_read :: "io \<Rightarrow> byte list \<Rightarrow> nat \<Rightarrow> nat \<Rightarrow> byte list option" where
  "c_read io content pos n =
     (if io_read_fails io then None else Some (take n (drop pos content)))"

text \<open>What a write of \<open>bs\<close> leaves after the present content.\<close>

definition c_write :: "io \<Rightarrow> byte list \<Rightarrow> byte list \<Rightarrow> int \<times> byte list" where
  "c_write io content bs = (io_write io bs, content @ take (nat (io_write io bs)) bs)"

definition open_read :: "io \<Rightarrow> files \<Rightarrow> string \<Rightarrow> byte list option" where
  "open_read io files f = (if io_open_read io f then files f else None)"

definition c_unlink :: "io \<Rightarrow> files \<Rightarrow> string \<Rightarrow> files" where
  "c_unlink io files f = (if io_unlink io f then files(f := None) else files)"

subsection \<open>The cipher\<close>

record nss =
  nss_import :: "byte list \<Rightarrow> bool"
  nss_cipher :: "bool \<Rightarrow> byte list \<Rightarrow> byte list \<Rightarrow> byte list option"
  nss_final :: "bool \<Rightarrow> byte list \<Rightarrow> byte list \<Rightarrow> byte list option"

text \<open>
  What the code relies on (AES in ECB mode): the key is accepted, whole blocks are encrypted
  to as many bytes with nothing left for the final step, and decryption inverts encryption.
\<close>

definition nss_ok :: "nss \<Rightarrow> bool" where
  "nss_ok nss \<longleftrightarrow>
     (\<forall>key. length key = 16 \<longrightarrow> nss_import nss key)
     \<and> (\<forall>key x. length key = 16 \<longrightarrow> length x mod 16 = 0 \<longrightarrow>
          (\<exists>c. nss_cipher nss True key x = Some c \<and> length c = length x
             \<and> nss_final nss True key x = Some []
             \<and> nss_cipher nss False key c = Some x \<and> nss_final nss False key c = Some []))"

text \<open>
  The NSS calls shared by the two directions: import, cipher, final. The status and the
  output written so far.
\<close>

definition aes_ecb :: "nss \<Rightarrow> bool \<Rightarrow> byte list \<Rightarrow> byte list \<Rightarrow> int \<times> byte list" where
  "aes_ecb nss encrypt key inp =
     (case nss_cipher nss encrypt key inp of
        None \<Rightarrow> (- EIO, [])
      | Some out1 \<Rightarrow>
          (case nss_final nss encrypt key inp of
             None \<Rightarrow> (- EIO, out1)
           | Some out2 \<Rightarrow> (0, out1 @ out2)))"

subsection \<open>Wrapping\<close>

definition pad_block :: "byte list \<Rightarrow> byte list" where
  "pad_block p = (let r = length p mod 16 in if r \<noteq> 0 then p @ replicate (16 - r) 0 else p)"

text \<open>The part of \<open>ecryptfs_wrap_passphrase\<close> that replaces the file.\<close>

definition write_wrapped ::
  "io \<Rightarrow> files \<Rightarrow> string \<Rightarrow> byte list \<Rightarrow> byte list \<Rightarrow> int \<times> files" where
  "write_wrapped io files filename sig encrypted =
     (let files = c_unlink io files filename in
      if \<not> io_open_write io filename \<or> files filename \<noteq> None then (- EIO, files)
      else case c_write io [] sig of
        (n, content) \<Rightarrow>
          if n \<le> 0 then (- EIO, files(filename \<mapsto> content))
          else (case c_write io content encrypted of
            (n, content) \<Rightarrow>
              (if n \<le> 0 then - EIO else 0, files(filename \<mapsto> content))))"

definition ecryptfs_wrap_passphrase ::
  "io \<Rightarrow> nss \<Rightarrow> hash \<Rightarrow> files \<Rightarrow> string \<Rightarrow> byte list \<Rightarrow> byte list \<Rightarrow> byte list
   \<Rightarrow> (int \<times> files) option" where
  "ecryptfs_wrap_passphrase io nss hash files filename wrapping_passphrase wrapping_salt
     decrypted_passphrase =
     (if MAX_PASSPHRASE_BYTES < length decrypted_passphrase then Some (- EIO, files)
      else do {
        r \<leftarrow> generate_passphrase_sig hash wrapping_salt wrapping_passphrase;
        (case r of
           Inl rc \<Rightarrow> Some (if rc < 0 then rc else rc * -1, files)
         | Inr (sig, wrapping_key) \<Rightarrow>
             let padded = pad_block decrypted_passphrase in
             if \<not> nss_import nss (take 16 wrapping_key) then Some (- EIO, files)
             else (case aes_ecb nss True (take 16 wrapping_key) padded of
                (rc, encrypted) \<Rightarrow>
                  if rc \<noteq> 0 then Some (rc, files)
                  else if length encrypted \<noteq> length padded then Some (- EIO, files)
                  else Some (write_wrapped io files filename sig encrypted))) })"

text \<open>
  \<open>ecryptfs_wrap_passphrase_file\<close>: the first 64 bytes of the source file, up to a zero
  byte, are wrapped; the source file is removed on success.
\<close>

definition ecryptfs_wrap_passphrase_file ::
  "io \<Rightarrow> nss \<Rightarrow> hash \<Rightarrow> files \<Rightarrow> string \<Rightarrow> byte list \<Rightarrow> byte list \<Rightarrow> string
   \<Rightarrow> (int \<times> files) option" where
  "ecryptfs_wrap_passphrase_file io nss hash files dest wrapping_passphrase salt src =
     (case open_read io files src of
        None \<Rightarrow> Some (- EIO, files)
      | Some content \<Rightarrow>
          (case c_read io content 0 MAX_PASSPHRASE_BYTES of
             None \<Rightarrow> Some (- EIO, files)
           | Some [] \<Rightarrow> Some (- EIO, files)
           | Some buf \<Rightarrow> do {
               p \<leftarrow> c_string (buf @ replicate (65 - length buf) 0);
               (rc, files) \<leftarrow>
                 ecryptfs_wrap_passphrase io nss hash files dest wrapping_passphrase salt p;
               if rc = 0 then Some (0, c_unlink io files src) else Some (- EIO, files) }))"

text \<open>
  \<open>ecryptfs_unwrap_passphrase\<close>: the status and the new content of the caller's buffer of 65
  bytes (\<^term>\<open>None\<close> when it is left as it was).
\<close>

definition ecryptfs_unwrap_passphrase ::
  "io \<Rightarrow> nss \<Rightarrow> hash \<Rightarrow> files \<Rightarrow> string \<Rightarrow> byte list \<Rightarrow> byte list \<Rightarrow> (int \<times> byte list option) option" where
  "ecryptfs_unwrap_passphrase io nss hash files filename wrapping_passphrase wrapping_salt = do {
     r \<leftarrow> generate_passphrase_sig hash wrapping_salt wrapping_passphrase;
     (case r of
        Inl rc \<Rightarrow> Some (if rc < 0 then rc else rc * -1, None)
      | Inr (sig, wrapping_key) \<Rightarrow>
          (case open_read io files filename of
             None \<Rightarrow> Some (- EIO, None)
           | Some content \<Rightarrow>
               (case c_read io content 0 SIG_SIZE_HEX of
                  None \<Rightarrow> Some (- EIO, None)
                | Some [] \<Rightarrow> Some (- EIO, None)
                | Some sig_from_file \<Rightarrow>
                    (case c_read io content (length sig_from_file) MAX_PASSPHRASE_BYTES of
                       None \<Rightarrow> Some (- EIO, None)
                     | Some [] \<Rightarrow> Some (- EIO, None)
                     | Some encrypted \<Rightarrow>
                         if strncpy_field SIG_SIZE_HEX SIG_SIZE_HEX sig_from_file
                            \<noteq> strncpy_field SIG_SIZE_HEX SIG_SIZE_HEX sig
                         then Some (- EIO, None)
                         else if \<not> nss_import nss (take 16 wrapping_key) then Some (- EIO, None)
                         else (case aes_ecb nss False (take 16 wrapping_key) encrypted of
                             (rc, out) \<Rightarrow> do {
                               buf \<leftarrow> wr_bytes (replicate (MAX_PASSPHRASE_BYTES + 1) 0) 0 out;
                               if rc \<noteq> 0 then Some (rc, Some buf)
                               else if length out \<noteq> length encrypted then Some (- EIO, Some buf)
                               else Some (0, Some buf) }))))) }"

text \<open>
  \<open>ecryptfs_insert_wrapped_passphrase_into_keyring\<close> adds the passphrase under two salts: the
  text of the file name encryption salt (its hexadecimal digits are not converted), and the
  caller's salt.
\<close>

definition default_salt_fnek_hex :: "byte list" where
  "default_salt_fnek_hex = bytes_of_string ''9988776655443322'' @ [0]"

definition ecryptfs_insert_wrapped_passphrase_into_keyring ::
  "io \<Rightarrow> nss \<Rightarrow> hash \<Rightarrow> 'k keyring \<Rightarrow> files \<Rightarrow> 'k \<Rightarrow> string \<Rightarrow> byte list \<Rightarrow> byte list \<Rightarrow> schedule
   \<Rightarrow> (int \<times> byte list option \<times> 'k \<times> schedule) option" where
  "ecryptfs_insert_wrapped_passphrase_into_keyring io nss hash kr files k filename
     wrapping_passphrase salt mem = do {
     (rc, buf) \<leftarrow> ecryptfs_unwrap_passphrase io nss hash files filename wrapping_passphrase salt;
     if rc \<noteq> 0 then Some (- EIO, None, k, mem)
     else do {
       buf \<leftarrow> buf;
       p \<leftarrow> c_string buf;
       (rc, sig, k, mem) \<leftarrow>
         ecryptfs_add_passphrase_key_to_keyring hash kr k p default_salt_fnek_hex mem;
       if rc < 0 then Some (rc, sig, k, mem)
       else ecryptfs_add_passphrase_key_to_keyring hash kr k p salt mem } }"

subsection \<open>The signature cache\<close>

text \<open>The loop of \<open>ecryptfs_check_sig\<close> over records of 17 bytes.\<close>

function scan_sigs :: "byte list \<Rightarrow> byte list \<Rightarrow> bool" where
  "scan_sigs sig content =
     (if length content < 17 then False
      else if take 16 content = sig then True
      else scan_sigs sig (drop 17 content))"
  by pat_completeness auto
termination
  by (relation "measure (\<lambda>(sig, content). length content)") auto

declare scan_sigs.simps [simp del]

text \<open>\<open>ecryptfs_check_sig\<close>: the status and the flags.\<close>

definition ecryptfs_check_sig ::
  "io \<Rightarrow> files \<Rightarrow> byte list \<Rightarrow> string \<Rightarrow> u32 \<Rightarrow> (int \<times> u32) option" where
  "ecryptfs_check_sig io files auth_tok_sig sig_cache_filename flags =
     (let flags = flags AND NOT 1 in
      case open_read io files sig_cache_filename of
        None \<Rightarrow> Some (0, flags OR 1)
      | Some content \<Rightarrow>
          if io_read_fails io \<or> length content < 17 then Some (0, flags OR 1)
          else do {
            sig \<leftarrow> rd_bytes auth_tok_sig 0 SIG_SIZE_HEX;
            Some (0, if scan_sigs sig content then flags else flags OR 1) })"

definition ecryptfs_append_sig ::
  "io \<Rightarrow> files \<Rightarrow> byte list \<Rightarrow> string \<Rightarrow> (int \<times> files) option" where
  "ecryptfs_append_sig io files auth_tok_sig sig_cache_filename =
     (if \<not> io_open_write io sig_cache_filename then Some (- EIO, files)
      else do {
        sig \<leftarrow> rd_bytes auth_tok_sig 0 SIG_SIZE_HEX;
        let old = (case files sig_cache_filename of None \<Rightarrow> [] | Some c \<Rightarrow> c);
        (case c_write io old (sig @ [10]) of
           (n, content) \<Rightarrow>
             Some (if n \<noteq> 17 then - EIO else 0, files(sig_cache_filename \<mapsto> content))) })"

subsection \<open>The contract of a signature store\<close>

locale sig_store =
  fixes member :: "byte list \<Rightarrow> 'c \<Rightarrow> bool"
    and add :: "'c \<Rightarrow> byte list \<Rightarrow> 'c"
    and invar :: "'c \<Rightarrow> bool"
    and empty :: 'c
  assumes invar_empty: "invar empty"
    and member_empty: "\<not> member s empty"
    and invar_add: "invar c \<Longrightarrow> length t = 16 \<Longrightarrow> invar (add c t)"
    and member_add: "invar c \<Longrightarrow> length t = 16 \<Longrightarrow> member s (add c t) \<longleftrightarrow> s = t \<or> member s c"
begin

lemma invar_fold: "list_all (\<lambda>t. length t = 16) ts \<Longrightarrow> invar c \<Longrightarrow> invar (foldl add c ts)"
  by (induction ts arbitrary: c) (auto simp: invar_add)

lemma member_fold:
  "list_all (\<lambda>t. length t = 16) ts \<Longrightarrow> invar c \<Longrightarrow>
   member s (foldl add c ts) \<longleftrightarrow> s \<in> set ts \<or> member s c"
  by (induction ts arbitrary: c) (auto simp: invar_add member_add)

lemma member_of_empty:
  "list_all (\<lambda>t. length t = 16) ts \<Longrightarrow> member s (foldl add empty ts) \<longleftrightarrow> s \<in> set ts"
  by (simp add: member_fold invar_empty member_empty)

end

definition add_record :: "byte list \<Rightarrow> byte list \<Rightarrow> byte list" where
  "add_record content sig = content @ sig @ [10]"

definition whole_records :: "byte list \<Rightarrow> bool" where
  "whole_records content \<longleftrightarrow> 17 dvd length content"

lemma scan_sigs_record:
  "length t = 16 \<Longrightarrow> scan_sigs s (t @ b # content) \<longleftrightarrow> s = t \<or> scan_sigs s content"
  by (subst scan_sigs.simps) auto

lemma whole_records_cases:
  assumes "whole_records content"
  obtains "content = []"
  | t b rest where "content = t @ b # rest" "length t = 16" "whole_records rest"
proof (cases "content = []")
  case False
  with assms have len: "17 \<le> length content"
    by (auto simp: whole_records_def dest: dvd_imp_le)
  define t where "t = take 16 content"
  have "content = t @ (content ! 16) # drop 17 content"
    using len id_take_nth_drop [of 16 content] by (simp add: t_def)
  moreover have "whole_records (drop 17 content)"
    using assms len by (simp add: whole_records_def dvd_minus_self)
  ultimately show thesis using that(2) len by (simp add: t_def)
qed (use that(1) in simp)

lemma scan_sigs_Nil [simp]: "\<not> scan_sigs s []"
  by (subst scan_sigs.simps) simp

lemma scan_sigs_add:
  "whole_records content \<Longrightarrow> length t = 16 \<Longrightarrow>
   scan_sigs s (add_record content t) \<longleftrightarrow> s = t \<or> scan_sigs s content"
proof (induction "length content" arbitrary: content rule: less_induct)
  case less
  from less.prems(1) show ?case
  proof (cases rule: whole_records_cases)
    case 1
    with less.prems(2) show ?thesis by (simp add: add_record_def scan_sigs_record)
  next
    case (2 u b rest)
    then have "scan_sigs s (add_record rest t) \<longleftrightarrow> s = t \<or> scan_sigs s rest"
      using less.hyps [of rest] less.prems(2) by simp
    moreover have "add_record content t = u @ b # add_record rest t"
      using 2 by (simp add: add_record_def)
    ultimately show ?thesis using 2 by (auto simp: scan_sigs_record)
  qed
qed

interpretation sig_cache: sig_store scan_sigs add_record whole_records "[]"
proof
  show "whole_records (add_record c t)" if "whole_records c" "length t = 16" for c t
    using that by (simp add: whole_records_def add_record_def)
qed (simp_all add: whole_records_def scan_sigs_add)

subsection \<open>Lemmas on wrapping\<close>

text \<open>The hash is total, with digests of 64 bytes.\<close>

definition hash_total :: "hash \<Rightarrow> bool" where
  "hash_total hash \<longleftrightarrow> (\<forall>x. \<exists>d. hash x = Some d \<and> length d = 64)"

lemma hash_total_length: "hash_total hash \<Longrightarrow> \<forall>x d. hash x = Some d \<longrightarrow> length d = 64"
  by (metis hash_total_def option.inject)

lemma hash_total_iter: "hash_total hash \<Longrightarrow> \<exists>y. hash_iter hash n x = Some y"
proof (induction n)
  case (Suc n)
  then obtain y where "hash_iter hash n x = Some y" by blast
  with Suc.prems show ?case by (auto simp: hash_total_def)
qed simp

lemma passphrase_key_total:
  assumes "hash_total hash"
  obtains k s where "passphrase_key hash salt p = Some k" "passphrase_sig hash salt p = Some s"
    "length k = 64" "length s = 16"
proof -
  obtain k where k: "passphrase_key hash salt p = Some k"
    using hash_total_iter [OF assms] by (auto simp: passphrase_key_def)
  moreover obtain d where "hash k = Some d" "length d = 64"
    using assms by (auto simp: hash_total_def)
  moreover have "length k = 64"
  proof -
    have "(65536 :: nat) = Suc 65535" by simp
    then show ?thesis
      using k hash_iter_length [OF hash_total_length [OF assms]] unfolding passphrase_key_def
      by metis
  qed
  ultimately show thesis using that by (simp add: passphrase_sig_def)
qed

lemma generate_passphrase_sig_total:
  assumes "hash_total hash" "SALT_SIZE \<le> length salt" "length p \<le> MAX_PASSPHRASE_BYTES"
    and "passphrase_key hash salt p = Some k" "passphrase_sig hash salt p = Some s"
  shows "generate_passphrase_sig hash salt p = Some (Inr (s, k))"
  using generate_passphrase_sig_spec [OF hash_total_length [OF assms(1)] assms(2,3)] assms(4,5)
  by simp

lemma pad_block_length: "length (pad_block p) mod 16 = 0"
proof -
  have "(length p + (16 - length p mod 16)) mod 16 = 0" if "length p mod 16 \<noteq> 0"
    using that by presburger
  then show ?thesis by (auto simp: pad_block_def Let_def)
qed

lemma pad_block_bound: "length p \<le> 64 \<Longrightarrow> length (pad_block p) \<le> 64"
proof -
  have "length p + (16 - length p mod 16) \<le> 64" if "length p mod 16 \<noteq> 0" "length p \<le> 64"
    using that by presburger
  then show "length p \<le> 64 \<Longrightarrow> length (pad_block p) \<le> 64" by (auto simp: pad_block_def Let_def)
qed

lemma pad_block_zeros: obtains n where "pad_block p = p @ replicate n 0"
proof (cases "length p mod 16 = 0")
  case True then show thesis using that [of 0] by (simp add: pad_block_def)
next
  case False then show thesis using that [of "16 - length p mod 16"] by (simp add: pad_block_def)
qed

lemma nss_okE:
  assumes "nss_ok nss" "length key = 16" "length x mod 16 = 0"
  obtains c where "nss_import nss key" "length c = length x"
    "aes_ecb nss True key x = (0, c)" "aes_ecb nss False key c = (0, x)"
proof -
  from assms have imp: "nss_import nss key" by (simp add: nss_ok_def)
  obtain c where "nss_cipher nss True key x = Some c" "length c = length x"
    "nss_final nss True key x = Some []"
    "nss_cipher nss False key c = Some x" "nss_final nss False key c = Some []"
    using assms(1) [unfolded nss_ok_def, THEN conjunct2, rule_format, OF assms(2,3)] by blast
  with that imp show thesis by (simp add: aes_ecb_def)
qed

text \<open>What a successful wrap leaves: the signature followed by the cipher text.\<close>

lemma wrap_passphrase_result:
  assumes "io_ok io" "nss_ok nss" "hash_total hash" "SALT_SIZE \<le> length salt"
    and "length wp \<le> MAX_PASSPHRASE_BYTES" "length p \<le> MAX_PASSPHRASE_BYTES"
    and "passphrase_key hash salt wp = Some k" "passphrase_sig hash salt wp = Some s"
  obtains c where "length c = length (pad_block p)"
    "aes_ecb nss False (take 16 k) c = (0, pad_block p)" "nss_import nss (take 16 k)"
    "length k = 64" "length s = 16"
    "ecryptfs_wrap_passphrase io nss hash files f wp salt p =
       Some (if p = [] then - EIO else 0, files(f \<mapsto> s @ c))"
proof -
  have len: "length k = 64" "length s = 16"
    using passphrase_key_total [OF assms(3), of salt wp] assms(7,8) by auto
  then have "length (take 16 k) = 16" by simp
  from nss_okE [OF assms(2) this pad_block_length [of p]] obtain c where c:
    "nss_import nss (take 16 k)" "length c = length (pad_block p)"
    "aes_ecb nss True (take 16 k) (pad_block p) = (0, c)"
    "aes_ecb nss False (take 16 k) c = (0, pad_block p)" by blast
  have "(pad_block p = []) = (p = [])"
    by (auto simp: pad_block_def Let_def)
  then have "length c = 0 \<longleftrightarrow> p = []" using c(2) by simp
  then have "ecryptfs_wrap_passphrase io nss hash files f wp salt p =
      Some (if p = [] then - EIO else 0, files(f \<mapsto> s @ c))"
    using assms(1,6) c len generate_passphrase_sig_total [OF assms(3,4,5,7,8)]
    by (auto simp: ecryptfs_wrap_passphrase_def write_wrapped_def io_ok_def c_write_def
        c_unlink_def Let_def)
  with that c len show thesis by blast
qed

text \<open>What unwrapping does with a file whose first 16 bytes are a signature.\<close>

lemma unwrap_passphrase_sig_file:
  assumes "io_ok io" "hash_total hash" "SALT_SIZE \<le> length salt"
    and "length wp \<le> MAX_PASSPHRASE_BYTES" "files f = Some (s' @ c)" "length s' = 16"
    and "passphrase_key hash salt wp = Some k" "passphrase_sig hash salt wp = Some s"
    and "c = [] \<or> s' \<noteq> s"
  shows "ecryptfs_unwrap_passphrase io nss hash files f wp salt = Some (- EIO, None)"
proof -
  have "length s = 16"
    using passphrase_key_total [OF assms(2), of salt wp] assms(7,8) by auto
  then have "strncpy_field 16 16 s' \<noteq> strncpy_field 16 16 s \<or> c = []"
    using assms(6,9) by (auto simp: strncpy_field_def)
  then show ?thesis
    using assms(1,5,6) generate_passphrase_sig_total [OF assms(2,3,4,7,8)]
    by (auto simp: ecryptfs_unwrap_passphrase_def io_ok_def open_read_def c_read_def
        split: list.split)
qed

lemma unwrap_passphrase_result:
  assumes "io_ok io" "hash_total hash" "SALT_SIZE \<le> length salt"
    and "length wp \<le> MAX_PASSPHRASE_BYTES" "files f = Some (s @ c)"
    and "c \<noteq> []" "length c \<le> 64" "length c = length x" "nss_import nss (take 16 k)"
    and "passphrase_key hash salt wp = Some k" "passphrase_sig hash salt wp = Some s"
    and "aes_ecb nss False (take 16 k) c = (0, x)"
  shows "ecryptfs_unwrap_passphrase io nss hash files f wp salt
    = Some (0, Some (x @ replicate (65 - length x) 0))"
proof -
  have s: "length s = 16"
    using passphrase_key_total [OF assms(2), of salt wp] assms(10,11) by auto
  then have ne: "s \<noteq> []" by auto
  have r: "c_read io (s @ c) 0 SIG_SIZE_HEX = Some s"
    "c_read io (s @ c) (length s) MAX_PASSPHRASE_BYTES = Some c"
    "open_read io files f = Some (s @ c)"
    using assms(1,5,7) s by (simp_all add: c_read_def io_ok_def open_read_def)
  have w: "wr_bytes (replicate (MAX_PASSPHRASE_BYTES + 1) 0) 0 x
      = Some (x @ replicate (65 - length x) 0)"
    using assms(7,8) by (simp add: wr_bytes_def)
  show ?thesis
    unfolding ecryptfs_unwrap_passphrase_def
    using generate_passphrase_sig_total [OF assms(2,3,4,10,11)] r w ne assms(6,8,9,12)
    by (simp only: bind.simps sum.case option.case prod.case list.case_eq_if list.collapse if_False
        if_True simp_thms)
qed

lemma pad_block_c_string:
  assumes "0 \<notin> set p" "length p \<le> 64"
  shows "c_string (pad_block p @ replicate (65 - length (pad_block p)) 0) = Some p"
proof -
  obtain n where n: "pad_block p = p @ replicate n 0" by (rule pad_block_zeros)
  have "length (pad_block p) \<le> 64" using assms(2) by (rule pad_block_bound)
  then have "n + (65 - length (pad_block p)) = Suc (64 - length p)"
    by (simp add: n)
  then have "replicate n 0 @ replicate (65 - length (pad_block p)) 0
      = (0 :: byte) # replicate (64 - length p) 0"
    by (metis replicate_Suc replicate_add)
  then show ?thesis using c_string_append [OF assms(1)] by (simp add: n)
qed

subsection \<open>Lemmas on the keyring and the signature cache\<close>

text \<open>What the code relies on: adding a key leaves the others there.\<close>

definition keyring_keeps :: "'k keyring \<Rightarrow> bool" where
  "keyring_keeps kr \<longleftrightarrow>
     (\<forall>k sig sig' tok r k' n. kr_search kr k sig = Inr n \<longrightarrow> kr_add kr k sig' tok = (r, k') \<longrightarrow>
        (\<exists>m. kr_search kr k' sig = Inr m))"

lemma add_auth_tok_found:
  assumes "keyring_finds_added kr"
    and "ecryptfs_add_auth_tok_to_keyring kr k tok sig = (rc, k')" "0 \<le> rc"
    and "\<forall>k sig e. kr_search kr k sig = Inl e \<longrightarrow> 0 < e"
    and "\<forall>k sig tok e k'. kr_add kr k sig tok = (Inl e, k') \<longrightarrow> 0 < e"
  shows "\<exists>n. kr_search kr k' sig = Inr n"
proof (cases "kr_search kr k sig")
  case (Inr n)
  then show ?thesis using assms(2) by (auto simp: ecryptfs_add_auth_tok_to_keyring_def)
next
  case (Inl e)
  then have "0 < e" using assms(4) by blast
  then have "e = ENOKEY"
    using Inl assms(2,3) by (auto simp: ecryptfs_add_auth_tok_to_keyring_def split: if_splits)
  then obtain n where "kr_add kr k sig tok = (Inr n, k')"
    using Inl assms(2,3,5)
    by (force simp: ecryptfs_add_auth_tok_to_keyring_def split: prod.splits sum.splits)
  then show ?thesis using assms(1) by (auto simp: keyring_finds_added_def)
qed

lemma add_auth_tok_keeps:
  assumes "keyring_keeps kr" "kr_search kr k sig = Inr n"
    and "ecryptfs_add_auth_tok_to_keyring kr k tok sig' = (rc, k')"
  shows "\<exists>m. kr_search kr k' sig = Inr m"
  using assms
  by (auto simp: ecryptfs_add_auth_tok_to_keyring_def keyring_keeps_def
      split: sum.splits prod.splits if_splits) metis+

text \<open>A keyring whose operations report errors as positive error numbers.\<close>

definition keyring_errnos :: "'k keyring \<Rightarrow> bool" where
  "keyring_errnos kr \<longleftrightarrow> (\<forall>k sig e. kr_search kr k sig = Inl e \<longrightarrow> 0 < e)
     \<and> (\<forall>k sig tok e k'. kr_add kr k sig tok = (Inl e, k') \<longrightarrow> 0 < e)"

lemma add_passphrase_key_ok:
  assumes "hash_total hash" "SALT_SIZE \<le> length salt" "length p \<le> MAX_PASSPHRASE_BYTES"
    and "passphrase_sig hash salt p = Some s"
    and "ecryptfs_add_passphrase_key_to_keyring hash kr k p salt [] = Some (rc, sg, k', mem)"
  shows "sg = Some s \<and> mem = [] \<and> (\<exists>tok. ecryptfs_add_auth_tok_to_keyring kr k tok s = (rc, k'))"
proof -
  obtain key where key: "passphrase_key hash salt p = Some key" "length key = 64"
    using passphrase_key_total [OF assms(1), of salt p] by metis
  show ?thesis
    using assms(2,5) key generate_passphrase_sig_total [OF assms(1-3) key(1) assms(4)]
    by (auto simp: ecryptfs_add_passphrase_key_to_keyring_def
        ecryptfs_generate_passphrase_auth_tok_def generate_payload_def rd_bytes_def
        split: prod.splits)
qed

text \<open>Appending a list of signatures, one call after the other.\<close>

fun append_sigs :: "io \<Rightarrow> string \<Rightarrow> byte list list \<Rightarrow> files \<Rightarrow> files option" where
  "append_sigs io f [] files = Some files"
| "append_sigs io f (s # ss) files = do {
     (rc, files) \<leftarrow> ecryptfs_append_sig io files s f;
     if rc \<noteq> 0 then None else append_sigs io f ss files }"

lemma append_sig_ok:
  assumes "io_ok io" "length s = 16"
  shows "ecryptfs_append_sig io files s f
    = Some (0, files(f \<mapsto> add_record (case files f of None \<Rightarrow> [] | Some c \<Rightarrow> c) s))"
  using assms
  by (simp add: ecryptfs_append_sig_def io_ok_def rd_bytes_def c_write_def add_record_def Let_def)

lemma append_sigs_ok:
  assumes "io_ok io" "list_all (\<lambda>s. length s = 16) ss" "files f = Some c"
  shows "append_sigs io f ss files = Some (files(f \<mapsto> foldl add_record c ss))"
  using assms(2,3)
proof (induction ss arbitrary: files c)
  case (Cons s ss)
  then show ?case by (auto simp: append_sig_ok [OF assms(1)] fun_eq_iff)
qed auto

lemma check_sig_ok:
  assumes "io_ok io" "length s = 16" "files f = Some c"
  shows "ecryptfs_check_sig io files s f flags
    = Some (0, if scan_sigs s c then flags AND NOT 1 else (flags AND NOT 1) OR 1)"
  using assms
  by (auto simp: ecryptfs_check_sig_def io_ok_def open_read_def rd_bytes_def Let_def
      scan_sigs.simps [of s c])

subsection \<open>Examples of the parameters\<close>

definition plain_io :: io where
  "plain_io = \<lparr>io_open_read = \<lambda>_. True, io_open_write = \<lambda>_. True, io_unlink = \<lambda>_. True,
     io_read_fails = False, io_write = \<lambda>bs. int (length bs)\<rparr>"

definition plain_nss :: nss where
  "plain_nss = \<lparr>nss_import = \<lambda>_. True, nss_cipher = \<lambda>e k x. Some (map (xor 0x55) x),
     nss_final = \<lambda>e k x. Some []\<rparr>"

definition list_keyring :: "(byte list \<times> ecryptfs_auth_tok) list keyring" where
  "list_keyring = \<lparr>kr_search = \<lambda>k s. if map_of k s = None then Inl ENOKEY else Inr 1,
     kr_add = \<lambda>k s t. (Inr 1, (s, t) # k), kr_unlink = \<lambda>k n. (Inr (), [])\<rparr>"

lemma plain_io_ok: "io_ok plain_io"
  by (simp add: io_ok_def plain_io_def)

lemma plain_nss_ok: "nss_ok plain_nss"
proof -
  have "map (xor 0x55 \<circ> xor 0x55) x = (x :: byte list)" for x
    by (rule map_idI) (simp add: xor.assoc [symmetric])
  then show ?thesis by (simp add: nss_ok_def plain_nss_def)
qed

lemma list_keyring_laws:
  "keyring_finds_added list_keyring" "keyring_keeps list_keyring" "keyring_errnos list_keyring"
  by (auto simp: keyring_finds_added_def keyring_keeps_def keyring_errnos_def list_keyring_def
      split: if_splits)

lemma list_keyring_add:
  assumes "hash_total hash" "SALT_SIZE \<le> length salt" "length p \<le> MAX_PASSPHRASE_BYTES"
  shows "\<exists>rc s k'. ecryptfs_add_passphrase_key_to_keyring hash list_keyring k p salt []
      = Some (rc, Some s, k', []) \<and> 0 \<le> rc"
proof -
  obtain key s where k: "passphrase_key hash salt p = Some key" "passphrase_sig hash salt p = Some s"
    "length key = 64"
    using passphrase_key_total [OF assms(1), of salt p] by metis
  show ?thesis
    using assms(2) generate_passphrase_sig_total [OF assms k(1,2)] k(3)
    by (simp add: ecryptfs_add_passphrase_key_to_keyring_def
        ecryptfs_generate_passphrase_auth_tok_def generate_payload_def rd_bytes_def
        ecryptfs_add_auth_tok_to_keyring_def list_keyring_def)
qed

lemma toy_hash_total: "hash_total toy_hash"
  by (simp add: hash_total_def toy_hash_def)

lemma wrap_unwrap_result:
  assumes "io_ok io" "nss_ok nss" "hash_total hash" "SALT_SIZE \<le> length salt"
    and "length wp \<le> MAX_PASSPHRASE_BYTES" "p \<noteq> []" "length p \<le> MAX_PASSPHRASE_BYTES" "0 \<notin> set p"
  shows "\<exists>content buf. ecryptfs_wrap_passphrase io nss hash files f wp salt p
        = Some (0, files(f \<mapsto> content))
      \<and> ecryptfs_unwrap_passphrase io nss hash (files(f \<mapsto> content)) f wp salt = Some (0, Some buf)
      \<and> c_string buf = Some p"
proof -
  obtain k s where k: "passphrase_key hash salt wp = Some k" "passphrase_sig hash salt wp = Some s"
    using passphrase_key_total [OF assms(3)] by metis
  from wrap_passphrase_result [OF assms(1-5,7) k] obtain c where c:
    "length c = length (pad_block p)" "aes_ecb nss False (take 16 k) c = (0, pad_block p)"
    "nss_import nss (take 16 k)"
    "ecryptfs_wrap_passphrase io nss hash files f wp salt p
       = Some (if p = [] then - EIO else 0, files(f \<mapsto> s @ c))" by metis
  have "pad_block p \<noteq> []" using assms(6) by (auto simp: pad_block_def Let_def)
  then have "c \<noteq> []" using c(1) by auto
  moreover have "length c \<le> 64" using c(1) assms(7) pad_block_bound by simp
  ultimately have "ecryptfs_unwrap_passphrase io nss hash (files(f \<mapsto> s @ c)) f wp salt
      = Some (0, Some (pad_block p @ replicate (65 - length (pad_block p)) 0))"
    using assms(1,3,4,5) c(1-3) k by (intro unwrap_passphrase_result) auto
  with c(4) assms(6) pad_block_c_string [OF assms(8,7)] show ?thesis by auto
qed

subsection \<open>Properties\<close>

text \<open>
  C4. Wrapping a passphrase of 1 to 64 bytes succeeds, changes no other file, and
  unwrapping the file with the same wrapping passphrase and salt gives the passphrase back
  as a C string, for every cipher and hash that keep their contracts.
\<close>

theorem wrap_unwrap_roundtrip:
  assumes "io_ok io" "nss_ok nss" "hash_total hash" "SALT_SIZE \<le> length salt"
    and "length wp \<le> MAX_PASSPHRASE_BYTES" "p \<noteq> []" "length p \<le> MAX_PASSPHRASE_BYTES" "0 \<notin> set p"
  shows "\<exists>content buf. ecryptfs_wrap_passphrase io nss hash files f wp salt p
        = Some (0, files(f \<mapsto> content))
      \<and> ecryptfs_unwrap_passphrase io nss hash (files(f \<mapsto> content)) f wp salt = Some (0, Some buf)
      \<and> c_string buf = Some p"
  using assms by (rule wrap_unwrap_result)

theorem wrap_unwrap_roundtrip_witness:
  "\<exists>content buf. ecryptfs_wrap_passphrase plain_io plain_nss toy_hash Map.empty ''w''
        [119] [1, 2, 3, 4, 5, 6, 7, 8] [115, 101, 99] = Some (0, [''w'' \<mapsto> content])
      \<and> ecryptfs_unwrap_passphrase plain_io plain_nss toy_hash [''w'' \<mapsto> content] ''w''
           [119] [1, 2, 3, 4, 5, 6, 7, 8] = Some (0, Some buf)
      \<and> c_string buf = Some [115, 101, 99]"
  by (rule wrap_unwrap_roundtrip [OF plain_io_ok plain_nss_ok toy_hash_total]) simp_all

text \<open>
  A wrapped passphrase is not given out to another wrapping passphrase: when its
  signature differs, unwrapping returns \<open>-EIO\<close> and the caller's buffer is not written.
\<close>

theorem unwrap_wrong_wrapping_passphrase:
  assumes "io_ok io" "nss_ok nss" "hash_total hash" "SALT_SIZE \<le> length salt"
    and "length wp \<le> MAX_PASSPHRASE_BYTES" "length wp' \<le> MAX_PASSPHRASE_BYTES"
    and "length p \<le> MAX_PASSPHRASE_BYTES" "SALT_SIZE \<le> length salt'"
    and "passphrase_sig hash salt wp \<noteq> passphrase_sig hash salt' wp'"
    and "ecryptfs_wrap_passphrase io nss hash files f wp salt p = Some (rc, files')"
  shows "ecryptfs_unwrap_passphrase io nss hash files' f wp' salt' = Some (- EIO, None)"
proof -
  obtain k s where k: "passphrase_key hash salt wp = Some k" "passphrase_sig hash salt wp = Some s"
    "length s = 16"
    using passphrase_key_total [OF assms(3), of salt wp] by metis
  obtain k' s' where k': "passphrase_key hash salt' wp' = Some k'"
    "passphrase_sig hash salt' wp' = Some s'"
    using passphrase_key_total [OF assms(3), of salt' wp'] by metis
  from wrap_passphrase_result [OF assms(1-5,7) k(1,2), of files f] assms(10)
  obtain c where "files' = files(f \<mapsto> s @ c)" by auto
  then show ?thesis using assms(9) k k'
    by (intro unwrap_passphrase_sig_file [OF assms(1,3,8,6)]) auto
qed

theorem unwrap_wrong_wrapping_passphrase_witness:
  "ecryptfs_unwrap_passphrase plain_io plain_nss toy_hash
     (the (map_option snd (ecryptfs_wrap_passphrase plain_io plain_nss toy_hash Map.empty ''w''
        [119] [1, 2, 3, 4, 5, 6, 7, 8] [115, 101, 99]))) ''w''
     [119] [9, 2, 3, 4, 5, 6, 7, 8] = Some (- EIO, None)"
proof -
  have "passphrase_sig toy_hash [1, 2, 3, 4, 5, 6, 7, 8] [119]
      \<noteq> passphrase_sig toy_hash [9, 2, 3, 4, 5, 6, 7, 8] [119]"
    unfolding toy_passphrase_sig by code_simp
  moreover obtain rc files' where r: "ecryptfs_wrap_passphrase plain_io plain_nss toy_hash
      Map.empty ''w'' [119] [1, 2, 3, 4, 5, 6, 7, 8] [115, 101, 99] = Some (rc, files')"
    using wrap_unwrap_result [OF plain_io_ok plain_nss_ok toy_hash_total,
        where salt = "[1, 2, 3, 4, 5, 6, 7, 8]" and wp = "[119]" and p = "[115, 101, 99]"
          and files = Map.empty and f = "''w''"] by auto
  ultimately have "ecryptfs_unwrap_passphrase plain_io plain_nss toy_hash files' ''w''
     [119] [9, 2, 3, 4, 5, 6, 7, 8] = Some (- EIO, None)"
    by (intro unwrap_wrong_wrapping_passphrase
        [OF plain_io_ok plain_nss_ok toy_hash_total _ _ _ _ _ _ r]) simp_all
  then show ?thesis by (simp add: r)
qed

text \<open>
  Wrapping an empty passphrase destroys what the file held: the status is \<open>-EIO\<close>, but by
  then the old file is unlinked and replaced by one with the signature alone, which cannot be
  unwrapped, even with the right wrapping passphrase.
\<close>

theorem wrap_empty_passphrase_destroys:
  assumes "io_ok io" "nss_ok nss" "hash_total hash" "SALT_SIZE \<le> length salt"
    and "length wp \<le> MAX_PASSPHRASE_BYTES"
  shows "\<exists>s. passphrase_sig hash salt wp = Some s
      \<and> ecryptfs_wrap_passphrase io nss hash files f wp salt [] = Some (- EIO, files(f \<mapsto> s))
      \<and> ecryptfs_unwrap_passphrase io nss hash (files(f \<mapsto> s)) f wp salt = Some (- EIO, None)"
proof -
  obtain k s where k: "passphrase_key hash salt wp = Some k" "passphrase_sig hash salt wp = Some s"
    "length s = 16"
    using passphrase_key_total [OF assms(3), of salt wp] by metis
  have "ecryptfs_wrap_passphrase io nss hash files f wp salt [] = Some (- EIO, files(f \<mapsto> s))"
    using wrap_passphrase_result [OF assms(1-5) _ k(1,2), of "[]" files f]
    by (auto simp: pad_block_def)
  moreover have "ecryptfs_unwrap_passphrase io nss hash (files(f \<mapsto> s)) f wp salt
      = Some (- EIO, None)"
    using k by (intro unwrap_passphrase_sig_file [OF assms(1,3,4,5), where s' = s and c = "[]"]) auto
  ultimately show ?thesis using k by blast
qed

theorem wrap_empty_passphrase_destroys_witness:
  "\<exists>s. passphrase_sig toy_hash [1, 2, 3, 4, 5, 6, 7, 8] [119] = Some s
      \<and> ecryptfs_wrap_passphrase plain_io plain_nss toy_hash [''w'' \<mapsto> [1, 2, 3]] ''w''
           [119] [1, 2, 3, 4, 5, 6, 7, 8] [] = Some (- EIO, [''w'' \<mapsto> [1, 2, 3], ''w'' \<mapsto> s])
      \<and> ecryptfs_unwrap_passphrase plain_io plain_nss toy_hash [''w'' \<mapsto> [1, 2, 3], ''w'' \<mapsto> s] ''w''
           [119] [1, 2, 3, 4, 5, 6, 7, 8] = Some (- EIO, None)"
  by (rule wrap_empty_passphrase_destroys [OF plain_io_ok plain_nss_ok toy_hash_total]) simp_all

text \<open>
  The signature cache: after a list of signatures was appended to a file of whole
  records, the check clears the no-entry flag for exactly the signatures of the list and
  those found before.
\<close>

theorem check_sig_after_appends:
  assumes "io_ok io" "list_all (\<lambda>s. length s = 16) ss" "length s = 16"
    and "files f = Some c" "whole_records c"
  shows "\<exists>files'. append_sigs io f ss files = Some files'
      \<and> ecryptfs_check_sig io files' s f flags
        = Some (0, if s \<in> set ss \<or> scan_sigs s c then flags AND NOT 1 else (flags AND NOT 1) OR 1)"
proof -
  have "scan_sigs s (foldl add_record c ss) \<longleftrightarrow> s \<in> set ss \<or> scan_sigs s c"
    by (rule sig_cache.member_fold [OF assms(2,5)])
  then show ?thesis
    using append_sigs_ok [of io ss files f c, OF assms(1,2,4)]
      check_sig_ok [OF assms(1,3), of "files(f \<mapsto> foldl add_record c ss)" f] by simp
qed

theorem check_sig_after_appends_witness:
  "\<exists>files'. append_sigs plain_io ''c'' [replicate 16 48, replicate 16 49] [''c'' \<mapsto> []] = Some files'
      \<and> ecryptfs_check_sig plain_io files' (replicate 16 49) ''c'' 1 = Some (0, 0)"
  using check_sig_after_appends [OF plain_io_ok, where f = "''c''" and files = "[''c'' \<mapsto> []]"
      and ss = "[replicate 16 48, replicate 16 49]" and s = "replicate 16 49" and flags = 1 and c = "[]"]
  by (simp add: whole_records_def)

text \<open>
  C16. When \<open>ecryptfs_insert_wrapped_passphrase_into_keyring\<close> returns without an error for a
  file made by \<open>ecryptfs_wrap_passphrase\<close>, the keyring holds a token for the passphrase
  under both salts, and the signature handed to the caller is that of the second.
\<close>

theorem insert_wrapped_passphrase_adds_both:
  assumes "io_ok io" "nss_ok nss" "hash_total hash" "SALT_SIZE \<le> length salt"
    and "length wp \<le> MAX_PASSPHRASE_BYTES" "p \<noteq> []" "length p \<le> MAX_PASSPHRASE_BYTES" "0 \<notin> set p"
    and "keyring_finds_added kr" "keyring_keeps kr" "keyring_errnos kr"
    and "ecryptfs_wrap_passphrase io nss hash files f wp salt p = Some (rc, files')"
    and "ecryptfs_insert_wrapped_passphrase_into_keyring io nss hash kr files' k f wp salt []
           = Some (rc', sg, k', mem)"
    and "0 \<le> rc'"
  shows "(\<exists>s n. sg = Some s \<and> passphrase_sig hash salt p = Some s \<and> kr_search kr k' s = Inr n)
      \<and> (\<exists>s n. passphrase_sig hash default_salt_fnek_hex p = Some s \<and> kr_search kr k' s = Inr n)"
proof -
  obtain buf where buf: "ecryptfs_unwrap_passphrase io nss hash files' f wp salt = Some (0, Some buf)"
    "c_string buf = Some p"
    using wrap_unwrap_result [OF assms(1-8), of files f] assms(12) by auto
  obtain s1 where s1: "passphrase_sig hash default_salt_fnek_hex p = Some s1"
    using passphrase_key_total [OF assms(3)] by metis
  obtain s2 where s2: "passphrase_sig hash salt p = Some s2"
    using passphrase_key_total [OF assms(3)] by metis
  have fnek: "SALT_SIZE \<le> length default_salt_fnek_hex" by (simp add: default_salt_fnek_hex_def)
  obtain rc1 sg1 k1 mem1 where
    one: "ecryptfs_add_passphrase_key_to_keyring hash kr k p default_salt_fnek_hex []
        = Some (rc1, sg1, k1, mem1)"
    and two: "\<not> rc1 < 0 \<Longrightarrow> ecryptfs_add_passphrase_key_to_keyring hash kr k1 p salt mem1
        = Some (rc', sg, k', mem)" and "rc1 < 0 \<Longrightarrow> rc' = rc1"
    using assms(13) buf
    by (auto simp: ecryptfs_insert_wrapped_passphrase_into_keyring_def bind_eq_Some_conv
        split: if_splits)
  then have rc1: "0 \<le> rc1" using assms(14) by fastforce
  from add_passphrase_key_ok [OF assms(3) fnek assms(7) s1 one]
  obtain t1 where t1: "mem1 = []" "ecryptfs_add_auth_tok_to_keyring kr k t1 s1 = (rc1, k1)" by blast
  with two rc1 add_passphrase_key_ok [OF assms(3,4,7) s2, of kr k1]
  obtain t2 where t2: "sg = Some s2" "ecryptfs_add_auth_tok_to_keyring kr k1 t2 s2 = (rc', k')"
    by fastforce
  note err = assms(11) [unfolded keyring_errnos_def]
  from add_auth_tok_found [OF assms(9) t1(2) rc1] err
  obtain n where "kr_search kr k1 s1 = Inr n" by blast
  from add_auth_tok_keeps [OF assms(10) this t2(2)]
  have "\<exists>m. kr_search kr k' s1 = Inr m" .
  moreover have "\<exists>m. kr_search kr k' s2 = Inr m"
    using add_auth_tok_found [OF assms(9) t2(2) assms(14)] err by blast
  ultimately show ?thesis using s1 s2 t2(1) by blast
qed

theorem insert_wrapped_passphrase_adds_both_witness:
  "\<exists>files' rc' s k'. ecryptfs_wrap_passphrase plain_io plain_nss toy_hash Map.empty ''w''
        [119] [1, 2, 3, 4, 5, 6, 7, 8] [115, 101, 99] = Some (0, files')
      \<and> ecryptfs_insert_wrapped_passphrase_into_keyring plain_io plain_nss toy_hash list_keyring
          files' [] ''w'' [119] [1, 2, 3, 4, 5, 6, 7, 8] [] = Some (rc', Some s, k', [])
      \<and> s = to_hex (1 # replicate 7 0) \<and> (\<exists>n. kr_search list_keyring k' s = Inr n)"
proof -
  define salt where "salt = [1 :: byte, 2, 3, 4, 5, 6, 7, 8]"
  have p: "[115, 101, 99] \<noteq> ([] :: byte list)" "length [115, 101, 99 :: byte] \<le> 64"
    "0 \<notin> set [115, 101, 99 :: byte]" "length [119 :: byte] \<le> 64" "8 \<le> length salt"
    by (simp_all add: salt_def)
  note laws = plain_io_ok plain_nss_ok toy_hash_total
  from wrap_unwrap_result [OF laws p(5,4,1-3), of Map.empty "''w''"] obtain files' buf where
    w: "ecryptfs_wrap_passphrase plain_io plain_nss toy_hash Map.empty ''w'' [119] salt
         [115, 101, 99] = Some (0, files')"
      "ecryptfs_unwrap_passphrase plain_io plain_nss toy_hash files' ''w'' [119] salt
         = Some (0, Some buf)"
      "c_string buf = Some [115, 101, 99]" by blast
  have "\<exists>rc sg k'. ecryptfs_insert_wrapped_passphrase_into_keyring plain_io plain_nss toy_hash
      list_keyring files' [] ''w'' [119] salt [] = Some (rc, sg, k', []) \<and> 0 \<le> rc"
    using w list_keyring_add [OF toy_hash_total _ p(2), of default_salt_fnek_hex "[]"]
      list_keyring_add [OF toy_hash_total p(5,2)]
    by (fastforce simp: ecryptfs_insert_wrapped_passphrase_into_keyring_def default_salt_fnek_hex_def)
  then obtain rc sg k' where i: "ecryptfs_insert_wrapped_passphrase_into_keyring plain_io plain_nss
      toy_hash list_keyring files' [] ''w'' [119] salt [] = Some (rc, sg, k', [])" "0 \<le> rc"
    by blast
  from insert_wrapped_passphrase_adds_both [OF laws p(5,4,1-3) list_keyring_laws w(1) i]
  show ?thesis using w(1) i by (auto simp: salt_def toy_passphrase_sig)
qed

end
