(* ===== verification/Mount_Private.thy ===== *)
theory Mount_Private
  imports Mounts Key_Management
begin

text \<open>
  The set-user-id program \<open>src/utils/mount.ecryptfs_private.c\<close>, which mounts and unmounts a
  user's private directory.

  What the system answers is the record \<open>priv_env\<close>; what the program changes is the record
  \<open>priv_state\<close>. The keyring is the one of \<open>Key_Management\<close>. The outcomes of the remaining calls
  that can fail (allocations, \<open>setreuid\<close>, the calls on \<open>/etc/mtab\<close>) come from a schedule.
\<close>

abbreviation (input) PRIV_KEY_BYTES :: nat where "PRIV_KEY_BYTES \<equiv> 16"

abbreviation (input) str :: "string \<Rightarrow> byte list" where "str \<equiv> bytes_of_string"

record stat_info =
  st_is_reg :: bool
  st_is_dir :: bool
  st_uid :: nat

record priv_env =
  pe_uid :: nat
  pe_seteuid_ok :: bool
  pe_passwd :: "(byte list \<times> byte list) option"
  pe_argv :: "byte list list"
  pe_stat :: "byte list \<Rightarrow> stat_info option"
  pe_conf :: "byte list \<Rightarrow> mntent option option"
  pe_files :: "byte list \<rightharpoonup> byte list"
  pe_counter :: "byte list \<Rightarrow> stat_info option"
  pe_chdir :: "byte list \<Rightarrow> bool"
  pe_dot :: "byte list \<Rightarrow> stat_info option"
  pe_cwd :: "byte list \<Rightarrow> byte list option"
  pe_proc_mounts :: "mntent list option"
  pe_mtab_symlink :: bool
  pe_mount_ok :: bool
  pe_exec_ok :: bool

text \<open>A successful call of \<open>mount\<close>; \<open>mc_dir\<close> is the current directory.\<close>

record mount_call =
  mc_src :: "byte list"
  mc_dir :: "byte list"
  mc_type :: "byte list"
  mc_nosuid :: bool
  mc_nodev :: bool
  mc_opts :: "byte list"

record 'k priv_state =
  pv_counters :: "byte list \<rightharpoonup> byte list"
  pv_keys :: 'k
  pv_mtab :: "mntent list"
  pv_mtab_lock :: bool
  pv_mounts :: "mount_call list"
  pv_unmounts :: "byte list list"

subsection \<open>Configuration\<close>

text \<open>\<open>read_config\<close>: an error, or source, destination and options.\<close>

definition read_config ::
  "priv_env \<Rightarrow> byte list \<Rightarrow> byte list \<Rightarrow> schedule
   \<Rightarrow> (int + byte list \<times> byte list \<times> byte list) \<times> schedule" where
  "read_config env pw_dir alias calls =
     (case malloc_ok calls of
        (False, calls) \<Rightarrow> (Inl (- 1), calls)
      | (True, calls) \<Rightarrow>
          let fnam = pw_dir @ str ''/.ecryptfs/'' @ alias @ str ''.conf'' in
          (case pe_stat env fnam of
             None \<Rightarrow> (Inl (- 1), calls)
           | Some s \<Rightarrow>
               if \<not> st_is_reg s \<or> st_uid s \<noteq> pe_uid env then (Inl (- 1), calls)
               else (case pe_conf env fnam of
                   None \<Rightarrow> (Inl (- 1), calls)
                 | Some None \<Rightarrow> (Inl (- 1), calls)
                 | Some (Some e) \<Rightarrow>
                     if mnt_type e \<noteq> str ''ecryptfs'' then (Inl (- 1), calls)
                     else (case malloc_ok calls of
                         (False, calls) \<Rightarrow> (Inl (- 2), calls)
                       | (True, calls) \<Rightarrow>
                           (case malloc_ok calls of
                              (False, calls) \<Rightarrow> (Inl (- 2), calls)
                            | (True, calls) \<Rightarrow>
                                (case malloc_ok calls of
                                   (False, calls) \<Rightarrow> (Inl (- 2), calls)
                                 | (True, calls) \<Rightarrow>
                                     (Inr (mnt_fsname e, mnt_dir e, mnt_opts e), calls)))))))"

subsection \<open>User names\<close>

definition username_char :: "nat \<Rightarrow> nat \<Rightarrow> byte \<Rightarrow> bool" where
  "username_char len i c \<longleftrightarrow>
     97 \<le> c \<and> c \<le> 122 \<or> 65 \<le> c \<and> c \<le> 90 \<or> 48 \<le> c \<and> c \<le> 57
     \<or> c = 95 \<or> c = 46 \<or> c = 64 \<or> c = 45 \<and> i \<noteq> 0 \<or> c = 36 \<and> i = len - 1"

fun check_chars :: "nat \<Rightarrow> nat \<Rightarrow> byte list \<Rightarrow> int" where
  "check_chars len i [] = 0"
| "check_chars len i (c # cs) = (if \<not> username_char len i c then 1 else check_chars len (Suc i) cs)"

definition check_username :: "byte list \<Rightarrow> int" where
  "check_username u = (if length u = 0 then 1 else check_chars (length u) 0 u)"

subsection \<open>Signatures\<close>

text \<open>
  The validation loop: digits up to the first white space, where the text is cut;
  \<^term>\<open>None\<close> for another character.
\<close>

fun valid_hex :: "byte list \<Rightarrow> byte list option" where
  "valid_hex [] = Some []"
| "valid_hex (c # cs) =
     (if \<not> is_digit_of 16 c \<and> \<not> c_isspace c then None
      else if c_isspace c then Some []
      else map_option (Cons c) (valid_hex cs))"

datatype sig_line = Sig_Eof | Sig_Error | Sig "byte list" "byte list"

text \<open>One round of the loop: end of file, an error, or the signature and the rest of the file.\<close>

definition read_sig :: "'k keyring \<Rightarrow> 'k \<Rightarrow> byte list \<Rightarrow> schedule \<Rightarrow> sig_line \<times> schedule" where
  "read_sig kr keys content calls =
     (case malloc_ok calls of
        (False, calls) \<Rightarrow> (Sig_Error, calls)
      | (True, calls) \<Rightarrow>
          (case c_fgets (PRIV_KEY_BYTES + 2) content of
             None \<Rightarrow> (Sig_Eof, calls)
           | Some (l, rest) \<Rightarrow>
               (case valid_hex (text_in l) of
                  None \<Rightarrow> (Sig_Error, calls)
                | Some s \<Rightarrow>
                    if length s > 0 \<and> length s \<noteq> PRIV_KEY_BYTES then (Sig_Error, calls)
                    else (case kr_search kr keys s of
                        Inl e \<Rightarrow> (Sig_Error, calls)
                      | Inr n \<Rightarrow> (Sig s rest, calls)))))"

definition fetch_sig ::
  "priv_env \<Rightarrow> 'k keyring \<Rightarrow> 'k \<Rightarrow> byte list \<Rightarrow> byte list \<Rightarrow> schedule
   \<Rightarrow> (byte list \<times> byte list option) option \<times> schedule" where
  "fetch_sig env kr keys pw_dir alias calls =
     (case malloc_ok calls of
        (False, calls) \<Rightarrow> (None, calls)
      | (True, calls) \<Rightarrow>
          (case pe_files env (pw_dir @ str ''/.ecryptfs/'' @ alias @ str ''.sig'') of
             None \<Rightarrow> (None, calls)
           | Some content \<Rightarrow>
               (case malloc_ok calls of
                  (False, calls) \<Rightarrow> (None, calls)
                | (True, calls) \<Rightarrow>
                    (case read_sig kr keys content calls of
                       (Sig s0 rest, calls) \<Rightarrow>
                         (case read_sig kr keys rest calls of
                            (Sig s1 _, calls) \<Rightarrow> (Some (s0, Some s1), calls)
                          | (Sig_Eof, calls) \<Rightarrow> (Some (s0, None), calls)
                          | (Sig_Error, calls) \<Rightarrow> (None, calls))
                     | (_, calls) \<Rightarrow> (None, calls)))))"

subsection \<open>Ownership\<close>

text \<open>\<open>check_ownership_mnt\<close>: the status and the canonical path.\<close>

definition check_ownership_mnt ::
  "priv_env \<Rightarrow> byte list \<Rightarrow> int \<times> byte list" where
  "check_ownership_mnt env mnt =
     (if \<not> pe_chdir env mnt then (1, mnt)
      else case pe_dot env mnt of
        None \<Rightarrow> (1, mnt)
      | Some s \<Rightarrow>
          if \<not> st_is_dir s then (1, mnt)
          else if st_uid s \<noteq> pe_uid env then (1, mnt)
          else (case pe_cwd env mnt of
              None \<Rightarrow> (1, mnt)
            | Some cwd \<Rightarrow> (0, cwd)))"

text \<open>\<open>check_ownerships\<close> has no caller.\<close>

definition check_ownerships :: "priv_env \<Rightarrow> byte list \<Rightarrow> int" where
  "check_ownerships env path =
     (case pe_stat env path of
        None \<Rightarrow> 1
      | Some s \<Rightarrow> if \<not> st_is_dir s then 1 else if st_uid s \<noteq> pe_uid env then 1 else 0)"

subsection \<open>The mount table\<close>

text \<open>The loop that copies the entries: whether every \<open>addmntent\<close> succeeded.\<close>

fun copy_entries :: "mntent list \<Rightarrow> schedule \<Rightarrow> bool \<times> schedule" where
  "copy_entries [] calls = (True, calls)"
| "copy_entries (e # es) calls =
     (case malloc_ok calls of
        (False, calls) \<Rightarrow> (False, calls)
      | (True, calls) \<Rightarrow> copy_entries es calls)"

text \<open>
  \<open>update_mtab\<close>. After the copy \<open>old_mtab\<close> is closed; the error exits from then on close it a
  second time.
\<close>

definition update_mtab ::
  "priv_env \<Rightarrow> byte list \<Rightarrow> byte list \<Rightarrow> byte list \<Rightarrow> 'k priv_state \<Rightarrow> schedule
   \<Rightarrow> (int \<times> 'k priv_state \<times> schedule) option" where
  "update_mtab env dev mnt opt st calls =
     (if pe_mtab_symlink env then Some (0, st, calls)
      else case malloc_ok calls of
        (open_ok, calls) \<Rightarrow>
          if \<not> open_ok \<or> pv_mtab_lock st then Some (1, st, calls)
          else (case malloc_ok calls of
              (False, calls) \<Rightarrow> Some (1, st\<lparr>pv_mtab_lock := True\<rparr>, calls)
            | (True, calls) \<Rightarrow>
                (case malloc_ok calls of
                   (False, calls) \<Rightarrow> Some (1, st\<lparr>pv_mtab_lock := False\<rparr>, calls)
                 | (True, calls) \<Rightarrow>
                     (case copy_entries (pv_mtab st) calls of
                        (False, calls) \<Rightarrow> Some (1, st\<lparr>pv_mtab_lock := False\<rparr>, calls)
                      | (True, calls) \<Rightarrow>
                          (case malloc_ok calls of
                             (False, calls) \<Rightarrow> None
                           | (True, calls) \<Rightarrow>
                               (case malloc_ok calls of
                                  (False, calls) \<Rightarrow> None
                                | (True, calls) \<Rightarrow>
                                    (case malloc_ok calls of
                                       (False, calls) \<Rightarrow> None
                                     | (True, calls) \<Rightarrow>
                                         Some (0, st\<lparr>pv_mtab_lock := False,
                                           pv_mtab := pv_mtab st @ [\<lparr>mnt_fsname = dev, mnt_dir = mnt,
                                             mnt_type = str ''ecryptfs'', mnt_opts = opt\<rparr>]\<rparr>, calls))))))))"

subsection \<open>The session counter\<close>

text \<open>Decimal numbers, as \<open>%d\<close> prints those that are not negative.\<close>

fun dec_digits :: "nat \<Rightarrow> byte list" where
  "dec_digits n =
     (if n < 10 then [word_of_nat (48 + n)] else dec_digits (n div 10) @ [word_of_nat (48 + n mod 10)])"

declare dec_digits.simps [simp del]

definition counter_name :: "byte list \<Rightarrow> byte list \<Rightarrow> byte list" where
  "counter_name u alias = str ''/dev/shm/ecryptfs-'' @ u @ str ''-'' @ alias"

definition counter_usable :: "priv_env \<Rightarrow> byte list \<Rightarrow> bool" where
  "counter_usable env f =
     (case pe_counter env f of None \<Rightarrow> False | Some s \<Rightarrow> st_is_reg s \<and> st_uid s = pe_uid env)"

text \<open>
  The loop of \<open>lock_counter\<close>: \<open>f\<close> is tried, and then the name with the next number appended.
  A descriptor of the last attempt is already closed when the loop runs out.
\<close>

function counter_loop :: "priv_env \<Rightarrow> byte list \<Rightarrow> byte list \<Rightarrow> nat \<Rightarrow> schedule \<Rightarrow> byte list option \<times> schedule" where
  "counter_loop env base f i calls =
     (if 50 \<le> i then (None, calls)
      else if counter_usable env f then (Some f, calls)
      else case malloc_ok calls of
        (False, calls) \<Rightarrow> (None, calls)
      | (True, calls) \<Rightarrow> counter_loop env base (base @ str ''-'' @ dec_digits i) (Suc i) calls)"
  by pat_completeness auto
termination
  by (relation "measure (\<lambda>(env, base, f, i, calls). 50 - i)") auto

declare counter_loop.simps [simp del]

definition lock_counter ::
  "priv_env \<Rightarrow> byte list \<Rightarrow> byte list \<Rightarrow> schedule \<Rightarrow> byte list option \<times> schedule" where
  "lock_counter env u alias calls =
     (case malloc_ok calls of
        (False, calls) \<Rightarrow> (None, calls)
      | (True, calls) \<Rightarrow>
          (case counter_loop env (counter_name u alias) (counter_name u alias) 1 calls of
             (None, calls) \<Rightarrow> (None, calls)
           | (Some f, calls) \<Rightarrow>
               (case malloc_ok calls of
                  (False, calls) \<Rightarrow> (None, calls)
                | (True, calls) \<Rightarrow> (Some f, calls))))"

text \<open>\<open>fscanf(fh, "%d\n", &count)\<close>: the number, or \<^term>\<open>None\<close> when no number was read.\<close>

definition c_scan_int :: "byte list \<Rightarrow> int option" where
  "c_scan_int content =
     (let s = dropWhile c_isspace content;
          s = (case s of b # bs \<Rightarrow> if b = 45 \<or> b = 43 then bs else s | [] \<Rightarrow> [])
      in case s of
           d # _ \<Rightarrow> if is_digit_of 10 d then Some (c_strtol 10 content) else None
         | [] \<Rightarrow> None)"

definition int_range :: "int \<Rightarrow> bool" where
  "int_range n \<longleftrightarrow> - (2 ^ 31) \<le> n \<and> n < 2 ^ 31"

text \<open>
  \<open>bump_counter\<close>: the count and the new content. The file is rewritten from its start and not
  cut; a number or a sum outside the range of \<open>int\<close> is undefined.
\<close>

definition bump_counter :: "byte list \<Rightarrow> int \<Rightarrow> (int \<times> byte list) option" where
  "bump_counter content delta =
     (let count = (case c_scan_int content of None \<Rightarrow> 0 | Some n \<Rightarrow> n) in
      if \<not> int_range count \<or> \<not> int_range (count + delta) then None
      else let count = count + delta;
               count = (if count < 0 then 0 else count);
               new = dec_digits (nat count) @ [10]
           in Some (count, new @ drop (length new) content))"

definition increment :: "byte list \<Rightarrow> (int \<times> byte list) option" where
  "increment content = bump_counter content 1"

definition decrement :: "byte list \<Rightarrow> (int \<times> byte list) option" where
  "decrement content = bump_counter content (- 1)"

definition zero_counter :: "byte list \<Rightarrow> (int \<times> byte list) option" where
  "zero_counter content = bump_counter content (- 2147483647 + 1)"

definition counter_content :: "'k priv_state \<Rightarrow> byte list \<Rightarrow> byte list" where
  "counter_content st f = (case pv_counters st f of None \<Rightarrow> [] | Some c \<Rightarrow> c)"

subsection \<open>The program\<close>

text \<open>\<open>strstr\<close>\<close>

fun contains :: "byte list \<Rightarrow> byte list \<Rightarrow> bool" where
  "contains p [] \<longleftrightarrow> p = []"
| "contains p (c # cs) \<longleftrightarrow> take (length p) (c # cs) = p \<or> contains p cs"

definition mount_options :: "byte list option \<Rightarrow> byte list option \<Rightarrow> byte list" where
  "mount_options sig_fekek sig_fnek =
     str ''ecryptfs_check_dev_ruid,ecryptfs_cipher=aes,ecryptfs_key_bytes=16,ecryptfs_unlink_sigs''
     @ (case sig_fekek of None \<Rightarrow> [] | Some s \<Rightarrow> str '',ecryptfs_sig='' @ s)
     @ (case sig_fnek of None \<Rightarrow> [] | Some s \<Rightarrow> str '',ecryptfs_fnek_sig='' @ s)"

text \<open>Alias, source and destination, from the arguments; \<open>Inl\<close> for an exit with status 1.\<close>

definition main_config ::
  "priv_env \<Rightarrow> byte list \<Rightarrow> schedule \<Rightarrow> (byte list \<times> byte list \<times> byte list) option \<times> schedule" where
  "main_config env pw_dir calls =
     (case pe_argv env of
        [_] \<Rightarrow>
          (case malloc_ok calls of
             (False, calls) \<Rightarrow> (None, calls)
           | (True, calls) \<Rightarrow>
               (case ecryptfs_fetch_private_mnt (pe_files env) pw_dir calls of
                  (None, calls) \<Rightarrow> (None, calls)
                | (Some dest, calls) \<Rightarrow> (Some (str ''Private'', pw_dir @ str ''/.Private'', dest), calls)))
      | [_, alias] \<Rightarrow>
          (case read_config env pw_dir alias calls of
             (Inl rc, calls) \<Rightarrow> (None, calls)
           | (Inr (src, dest, opts2), calls) \<Rightarrow>
               if opts2 \<noteq> [] \<and> opts2 \<noteq> str ''none'' then (None, calls)
               else (Some (alias, src, dest), calls))
      | _ \<Rightarrow> (None, calls))"

definition main_mount ::
  "priv_env \<Rightarrow> byte list \<Rightarrow> byte list \<Rightarrow> byte list \<Rightarrow> byte list \<Rightarrow> byte list option \<Rightarrow> 'k priv_state \<Rightarrow> schedule
   \<Rightarrow> (int \<times> 'k priv_state \<times> schedule) option" where
  "main_mount env fh src dest opt sig_fekek st calls = do {
     (_, content) \<leftarrow> increment (counter_content st fh);
     let st = st\<lparr>pv_counters := (pv_counters st)(fh \<mapsto> content)\<rparr>;
     (mounted, calls) \<leftarrow>
       ecryptfs_private_is_mounted (pe_proc_mounts env) (Some src) (Some dest) sig_fekek True calls;
     if mounted = 1 then Some (0, st, calls)
     else (case malloc_ok calls of
         (False, calls) \<Rightarrow> Some (1, st, calls)
       | (True, calls) \<Rightarrow>
           (case malloc_ok calls of
              (False, calls) \<Rightarrow> Some (1, st, calls)
            | (True, calls) \<Rightarrow>
                if pe_mount_ok env then do {
                  let st = st\<lparr>pv_mounts := pv_mounts st @ [\<lparr>mc_src = src, mc_dir = dest,
                    mc_type = str ''ecryptfs'', mc_nosuid = True, mc_nodev = True, mc_opts = opt\<rparr>]\<rparr>;
                  (rc, st, calls) \<leftarrow> update_mtab env src dest opt st calls;
                  Some (if rc \<noteq> 0 then 1 else 0, st, calls) }
                else Some (1, st, calls))) }"

definition remove_sig :: "'k keyring \<Rightarrow> byte list option \<Rightarrow> 'k \<Rightarrow> 'k" where
  "remove_sig kr sig keys =
     (case sig of None \<Rightarrow> keys | Some s \<Rightarrow> snd (ecryptfs_remove_auth_tok_from_keyring kr keys s))"

definition main_umount ::
  "priv_env \<Rightarrow> 'k keyring \<Rightarrow> bool \<Rightarrow> byte list \<Rightarrow> byte list \<Rightarrow> byte list \<Rightarrow> byte list option
   \<Rightarrow> byte list option \<Rightarrow> 'k priv_state \<Rightarrow> schedule \<Rightarrow> (int \<times> 'k priv_state \<times> schedule) option" where
  "main_umount env kr force fh src dest sig_fekek sig_fnek st calls = do {
     (count, content) \<leftarrow> (if force then zero_counter (counter_content st fh)
                            else decrement (counter_content st fh));
     let st = st\<lparr>pv_counters := (pv_counters st)(fh \<mapsto> content)\<rparr>;
     if \<not> force \<and> 0 < count then Some (1, st, calls)
     else do {
       let st = st\<lparr>pv_keys := remove_sig kr sig_fnek (remove_sig kr sig_fekek (pv_keys st))\<rparr>;
       (mounted, calls) \<leftarrow>
         ecryptfs_private_is_mounted (pe_proc_mounts env) (Some src) (Some dest) sig_fekek False calls;
       if mounted = 0 then Some (1, st, calls)
       else if pe_exec_ok env then Some (0, st\<lparr>pv_unmounts := pv_unmounts st @ [dest]\<rparr>, calls)
       else Some (1, st, calls) } }"

text \<open>
  The part of \<open>main\<close> after the counter is locked; \<open>Some\<close> of the exit status and the state.
\<close>

definition main_locked ::
  "priv_env \<Rightarrow> 'k keyring \<Rightarrow> byte list \<Rightarrow> byte list \<Rightarrow> byte list \<Rightarrow> byte list \<Rightarrow> byte list \<Rightarrow> byte list
   \<Rightarrow> 'k priv_state \<Rightarrow> schedule \<Rightarrow> (int \<times> 'k priv_state \<times> schedule) option" where
  "main_locked env kr pw_name pw_dir alias src dest fh st calls =
     (if check_username pw_name \<noteq> 0 then Some (1, st, calls)
      else
        let mounting = \<not> contains (str ''umount'') (hd (pe_argv env));
            force = (\<not> mounting \<and> (case pe_argv env of
                       _ # a # _ \<Rightarrow> take 2 a = str ''-f'' | _ \<Rightarrow> False))
        in case fetch_sig env kr (pv_keys st) pw_dir alias calls of
          (sigs, calls) \<Rightarrow>
            if sigs = None \<and> mounting then Some (1, st, calls)
            else
              let sig_fekek = map_option fst sigs;
                  sig_fnek = (case sigs of None \<Rightarrow> None | Some s \<Rightarrow> snd s)
              in (case malloc_ok calls of
                    (False, calls) \<Rightarrow> Some (1, st, calls)
                  | (True, calls) \<Rightarrow>
                      let opt = mount_options sig_fekek sig_fnek in
                      (case check_ownership_mnt env dest of
                         (rc, dest) \<Rightarrow>
                           if rc \<noteq> 0 then Some (1, st, calls)
                           else if mounting then main_mount env fh src dest opt sig_fekek st calls
                           else main_umount env kr force fh src dest sig_fekek sig_fnek st calls)))"

definition mount_private_main ::
  "priv_env \<Rightarrow> 'k keyring \<Rightarrow> 'k priv_state \<Rightarrow> schedule \<Rightarrow> (int \<times> 'k priv_state \<times> schedule) option" where
  "mount_private_main env kr st calls =
     (if \<not> pe_seteuid_ok env then Some (1, st, calls)
      else case pe_passwd env of
        None \<Rightarrow> Some (1, st, calls)
      | Some (pw_name, pw_dir) \<Rightarrow>
          (case main_config env pw_dir calls of
             (None, calls) \<Rightarrow> Some (1, st, calls)
           | (Some (alias, src, dest), calls) \<Rightarrow>
               if contains (str ''..'') alias then Some (1, st, calls)
               else (case lock_counter env pw_name alias calls of
                   (None, calls) \<Rightarrow> Some (1, st, calls)
                 | (Some fh, calls) \<Rightarrow> main_locked env kr pw_name pw_dir alias src dest fh st calls)))"

subsection \<open>Lemmas on the counter\<close>

lemma digits_nat_append:
  "list_all (is_digit_of base) xs \<Longrightarrow>
   digits_nat base acc (xs @ ys) = digits_nat base (digits_nat base acc xs) ys"
proof (induction xs arbitrary: acc)
  case (Cons x xs)
  then show ?case by (cases "digit_val x") (auto simp: is_digit_of_def)
qed simp

lemma dec_digit: "n < 10 \<Longrightarrow> word_of_nat (48 + n) = hex_digit n"
  by (simp add: hex_digit_def)

lemma dec_digit_val: "n < 10 \<Longrightarrow> digit_val (word_of_nat (48 + n)) = Some n"
  by (simp only: dec_digit digit_val_hex_digit)

lemma dec_digits_ok:
  "dec_digits n \<noteq> [] \<and> list_all (is_digit_of 10) (dec_digits n) \<and> digits_nat 10 0 (dec_digits n) = n
   \<and> (\<exists>d. d < 10 \<and> hd (dec_digits n) = hex_digit d)"
proof (induction n rule: dec_digits.induct)
  case (1 n)
  show ?case
  proof (cases "n < 10")
    case True
    have v: "digit_val (word_of_nat (48 + n)) = Some n" using True by (rule dec_digit_val)
    have "dec_digits n = [word_of_nat (48 + n)]" using True by (subst dec_digits.simps) simp
    moreover have "(word_of_nat (48 + n) :: byte) = hex_digit n" using True by (rule dec_digit)
    ultimately show ?thesis using True v by (simp add: is_digit_of_def) metis
  next
    case False
    have v: "digit_val (word_of_nat (48 + n mod 10)) = Some (n mod 10)" by (rule dec_digit_val) simp
    have d: "dec_digits n = dec_digits (n div 10) @ [word_of_nat (48 + n mod 10)]"
      using False by (subst dec_digits.simps) simp
    have ih: "dec_digits (n div 10) \<noteq> []" "list_all (is_digit_of 10) (dec_digits (n div 10))"
      "digits_nat 10 0 (dec_digits (n div 10)) = n div 10"
      "\<exists>d. d < 10 \<and> hd (dec_digits (n div 10)) = hex_digit d"
      using 1 False by auto
    have "digits_nat 10 0 (dec_digits n) = n"
      unfolding d digits_nat_append [OF ih(2)] ih(3) using v by simp
    moreover have "is_digit_of 10 (word_of_nat (48 + n mod 10))" using v by (simp add: is_digit_of_def)
    ultimately show ?thesis using ih by (simp add: d)
  qed
qed

lemma strtol_decimal:
  assumes "\<not> c_isspace c" "c \<noteq> 45" "c \<noteq> 43"
  shows "c_strtol 10 (c # t) = int (digits_nat 10 0 (c # t))"
  using assms by (cases t; cases "tl t") (simp_all add: c_strtol_def Let_def del: digits_nat.simps)

lemma scan_written:
  "c_scan_int (dec_digits n @ 10 # rest) = Some (int n)"
proof -
  obtain d ds where d: "dec_digits n = hex_digit d # ds" "d < 10"
    using dec_digits_ok [of n] by (cases "dec_digits n") auto
  have plain: "\<not> c_isspace (hex_digit d)" "hex_digit d \<noteq> 45" "hex_digit d \<noteq> 43"
    using hex_digit_plain [of d] d(2) by auto
  have "is_digit_of 10 (hex_digit d)"
    using d(2) digit_val_hex_digit [of d] by (simp add: is_digit_of_def)
  moreover have "digits_nat 10 0 (dec_digits n @ 10 # rest) = n"
    using dec_digits_ok [of n] by (subst digits_nat_append) (auto simp: digit_val_def)
  ultimately show ?thesis
    using plain strtol_decimal [OF plain, of "ds @ 10 # rest"]
    by (simp add: c_scan_int_def d Let_def del: digits_nat.simps)
qed

subsection \<open>The contract of a counter\<close>



definition read_counter :: "byte list \<Rightarrow> int" where
  "read_counter content = (case c_scan_int content of None \<Rightarrow> 0 | Some n \<Rightarrow> n)"

lemma bump_counter_result:
  assumes "bump_counter content d = Some (n, content')"
  shows "n = max 0 (read_counter content + d) \<and> read_counter content' = n"
proof -
  define k where "k = nat n"
  have n: "n = max 0 (read_counter content + d)"
    and c: "content' = dec_digits k @ 10 # drop (Suc (length (dec_digits k))) content"
    using assms by (auto simp: bump_counter_def read_counter_def Let_def k_def split: if_splits)
  have "0 \<le> n" using n by simp
  then have "read_counter content' = n"
    by (simp add: c read_counter_def scan_written k_def)
  with n show ?thesis by blast
qed


subsection \<open>Lemmas on the mount\<close>

definition hex_sig :: "byte list \<Rightarrow> bool" where
  "hex_sig s \<longleftrightarrow> list_all (is_digit_of 16) s \<and> (length s = 0 \<or> length s = PRIV_KEY_BYTES)"

lemma valid_hex_digits: "valid_hex t = Some s \<Longrightarrow> list_all (is_digit_of 16) s"
  by (induction t arbitrary: s) (auto split: if_splits)

lemma read_sig_ok:
  "read_sig kr keys content calls = (Sig s rest, calls') \<Longrightarrow>
   hex_sig s \<and> (\<exists>n. kr_search kr keys s = Inr n)"
  by (auto simp: read_sig_def hex_sig_def
      split: prod.splits bool.splits option.splits if_splits sum.splits dest: valid_hex_digits)

lemma fetch_sig_ok:
  assumes "fetch_sig env kr keys pw_dir alias calls = (Some (s0, s1), calls')"
  shows "hex_sig s0 \<and> (\<exists>n. kr_search kr keys s0 = Inr n)
    \<and> (case s1 of None \<Rightarrow> True | Some s \<Rightarrow> hex_sig s \<and> (\<exists>n. kr_search kr keys s = Inr n))"
  using assms
  by (auto simp: fetch_sig_def split: prod.splits bool.splits option.splits sig_line.splits
      dest: read_sig_ok)

lemma hex_no_comma: "hex_sig s \<Longrightarrow> 44 \<notin> set s"
  by (auto simp: hex_sig_def list_all_iff is_digit_of_def digit_val_def)

text \<open>The fields of the mount options: nothing in a signature adds one.\<close>

lemma mount_options_fields:
  assumes "hex_sig s0" "case s1 of None \<Rightarrow> True | Some s \<Rightarrow> hex_sig s"
  shows "split_commas (mount_options (Some s0) s1) =
    [str ''ecryptfs_check_dev_ruid'', str ''ecryptfs_cipher=aes'', str ''ecryptfs_key_bytes=16'',
     str ''ecryptfs_unlink_sigs'', str ''ecryptfs_sig='' @ s0]
    @ (case s1 of None \<Rightarrow> [] | Some s \<Rightarrow> [str ''ecryptfs_fnek_sig='' @ s])"
proof -
  have head: "split_commas (str ''ecryptfs_check_dev_ruid,ecryptfs_cipher=aes,ecryptfs_key_bytes=16,ecryptfs_unlink_sigs'')
    = [str ''ecryptfs_check_dev_ruid'', str ''ecryptfs_cipher=aes'', str ''ecryptfs_key_bytes=16'',
     str ''ecryptfs_unlink_sigs'']"
    by (simp add: bytes_of_string_def)
  have c: "str (CHR '','' # s) = 44 # str s" for s by (simp add: bytes_of_string_def)
  have f: "split_commas (str ''ecryptfs_sig='' @ s0) = [str ''ecryptfs_sig='' @ s0]"
    by (rule split_commas_single) (use hex_no_comma [OF assms(1)] in \<open>simp add: bytes_of_string_def\<close>)
  have g: "split_commas (str ''ecryptfs_fnek_sig='' @ s) = [str ''ecryptfs_fnek_sig='' @ s]"
    if "s1 = Some s" for s
    by (rule split_commas_single)
      (use hex_no_comma [of s] assms(2) that in \<open>simp add: bytes_of_string_def\<close>)
  show ?thesis
    unfolding mount_options_def c option.case append_Cons
    by (cases s1) (simp_all only: c split_commas_append head f g append_Cons append_Nil append.assoc
        option.case list.simps append_Nil2 split_commas_append [of "_ @ _", unfolded append.assoc])
qed

lemma update_mtab_mounts:
  "update_mtab env dev mnt opt st calls = Some (rc, st', calls') \<Longrightarrow> pv_mounts st' = pv_mounts st"
  by (auto simp: update_mtab_def split: if_splits prod.splits bool.splits)

lemma main_mount_mounts:
  assumes "main_mount env fh src dest opt sig st calls = Some (rc, st', calls')"
  shows "pv_mounts st' = pv_mounts st
    \<or> pv_mounts st' = pv_mounts st @ [\<lparr>mc_src = src, mc_dir = dest, mc_type = str ''ecryptfs'',
        mc_nosuid = True, mc_nodev = True, mc_opts = opt\<rparr>]"
  using assms
  by (auto simp: main_mount_def bind_eq_Some_conv Let_def split: if_splits prod.splits bool.splits
      dest!: update_mtab_mounts)

lemma main_umount_mounts:
  "main_umount env kr force fh src dest s0 s1 st calls = Some (rc, st', calls') \<Longrightarrow>
   pv_mounts st' = pv_mounts st"
  by (auto simp: main_umount_def bind_eq_Some_conv Let_def split: if_splits)

lemma check_ownership_mnt_ok:
  "check_ownership_mnt env mnt = (0, dest) \<Longrightarrow>
   pe_cwd env mnt = Some dest \<and> (\<exists>s. pe_dot env mnt = Some s \<and> st_is_dir s \<and> st_uid s = pe_uid env)"
  by (auto simp: check_ownership_mnt_def split: if_splits option.splits)

lemma main_locked_mounts:
  assumes "main_locked env kr pw_name pw_dir alias src mnt fh st calls = Some (rc, st', calls')"
    and "pv_mounts st' \<noteq> pv_mounts st"
  shows "\<exists>s0 s1 dest calls1 calls2. check_username pw_name = 0
    \<and> \<not> contains (str ''umount'') (hd (pe_argv env))
    \<and> fetch_sig env kr (pv_keys st) pw_dir alias calls = (Some (s0, s1), calls1)
    \<and> check_ownership_mnt env mnt = (0, dest)
    \<and> main_mount env fh src dest (mount_options (Some s0) s1) (Some s0) st calls2
        = Some (rc, st', calls')"
proof -
  obtain sigs calls1 where f: "fetch_sig env kr (pv_keys st) pw_dir alias calls = (sigs, calls1)"
    by (cases "fetch_sig env kr (pv_keys st) pw_dir alias calls")
  obtain ok calls2 where m: "malloc_ok calls1 = (ok, calls2)" by (cases "malloc_ok calls1")
  obtain rc0 dest where o: "check_ownership_mnt env mnt = (rc0, dest)"
    by (cases "check_ownership_mnt env mnt")
  have u: "check_username pw_name = 0"
    using assms by (auto simp: main_locked_def split: if_splits)
  have mounting: "\<not> contains (str ''umount'') (hd (pe_argv env))"
    using assms u f m o
    by (auto simp: main_locked_def Let_def split: if_splits bool.splits dest: main_umount_mounts)
  then have s: "sigs \<noteq> None" and ok: "ok" and rc0: "rc0 = 0"
    using assms u f m o by (auto simp: main_locked_def Let_def split: if_splits bool.splits)
  then obtain s0 s1 where s01: "sigs = Some (s0, s1)" by auto
  have "main_mount env fh src dest (mount_options (Some s0) s1) (Some s0) st calls2
        = Some (rc, st', calls')"
    using assms(1) u mounting f m o ok rc0 s01 by (simp add: main_locked_def Let_def)
  with u mounting f o rc0 s01 show ?thesis by blast
qed

subsection \<open>Properties\<close>

text \<open>
  C1. When the program mounts something, it was called to mount by a user whose name is
  acceptable, it makes exactly one mount, of type \<open>ecryptfs\<close>, without set-user-id programs and
  devices, on a directory that this user owns; the signatures come from the user's file, are
  hexadecimal, and their keys are in the user's keyring; and the options are exactly the
  expected fields, the first of which makes the kernel check the owner of the source. This
  holds for every outcome of the system calls.
\<close>

theorem mount_private_safe:
  assumes "mount_private_main env kr st calls = Some (rc, st', calls')"
    and "pv_mounts st' \<noteq> pv_mounts st"
  shows "\<exists>name dir mc mnt s s0 s1. pe_passwd env = Some (name, dir) \<and> check_username name = 0
    \<and> \<not> contains (str ''umount'') (hd (pe_argv env))
    \<and> pv_mounts st' = pv_mounts st @ [mc] \<and> mc_type mc = str ''ecryptfs'' \<and> mc_nosuid mc \<and> mc_nodev mc
    \<and> pe_cwd env mnt = Some (mc_dir mc) \<and> pe_dot env mnt = Some s \<and> st_is_dir s \<and> st_uid s = pe_uid env
    \<and> hex_sig s0 \<and> (\<exists>n. kr_search kr (pv_keys st) s0 = Inr n)
    \<and> (case s1 of None \<Rightarrow> True | Some t \<Rightarrow> hex_sig t \<and> (\<exists>n. kr_search kr (pv_keys st) t = Inr n))
    \<and> split_commas (mc_opts mc) =
        [str ''ecryptfs_check_dev_ruid'', str ''ecryptfs_cipher=aes'', str ''ecryptfs_key_bytes=16'',
         str ''ecryptfs_unlink_sigs'', str ''ecryptfs_sig='' @ s0]
        @ (case s1 of None \<Rightarrow> [] | Some t \<Rightarrow> [str ''ecryptfs_fnek_sig='' @ t])"
proof -
  from assms obtain name dir al src mnt fh calls1 where
    pw: "pe_passwd env = Some (name, dir)"
    and lk: "main_locked env kr name dir al src mnt fh st calls1 = Some (rc, st', calls')"
    by (auto simp: mount_private_main_def split: if_splits option.splits prod.splits)
  from main_locked_mounts [OF lk assms(2)] obtain s0 s1 dest calls2 calls3 where
    u: "check_username name = 0" "\<not> contains (str ''umount'') (hd (pe_argv env))"
    and f: "fetch_sig env kr (pv_keys st) dir al calls1 = (Some (s0, s1), calls2)"
    and o: "check_ownership_mnt env mnt = (0, dest)"
    and m: "main_mount env fh src dest (mount_options (Some s0) s1) (Some s0) st calls3
      = Some (rc, st', calls')" by blast
  note fetch = fetch_sig_ok [OF f] and own = check_ownership_mnt_ok [OF o]
  have "split_commas (mount_options (Some s0) s1) =
        [str ''ecryptfs_check_dev_ruid'', str ''ecryptfs_cipher=aes'', str ''ecryptfs_key_bytes=16'',
         str ''ecryptfs_unlink_sigs'', str ''ecryptfs_sig='' @ s0]
        @ (case s1 of None \<Rightarrow> [] | Some t \<Rightarrow> [str ''ecryptfs_fnek_sig='' @ t])"
    by (rule mount_options_fields) (use fetch in \<open>auto split: option.splits\<close>)
  moreover have "pv_mounts st' = pv_mounts st @ [\<lparr>mc_src = src, mc_dir = dest,
      mc_type = str ''ecryptfs'', mc_nosuid = True, mc_nodev = True,
      mc_opts = mount_options (Some s0) s1\<rparr>]"
    using main_mount_mounts [OF m] assms(2) by blast
  moreover obtain s where "pe_dot env mnt = Some s" "st_is_dir s" "st_uid s = pe_uid env"
    using own by blast
  ultimately show ?thesis using pw u fetch own
    by (intro exI [of _ name] exI [of _ dir] exI [of _ "\<lparr>mc_src = src, mc_dir = dest,
        mc_type = str ''ecryptfs'', mc_nosuid = True, mc_nodev = True,
        mc_opts = mount_options (Some s0) s1\<rparr>"] exI [of _ mnt] exI [of _ s] exI [of _ s0]
        exI [of _ s1]) simp
qed

text \<open>A user with a key, calling the program to mount the default directory.\<close>

definition user_keys :: "unit keyring" where
  "user_keys = \<lparr>kr_search = \<lambda>k s. Inr 1, kr_add = \<lambda>k s t. (Inr 1, ()), kr_unlink = \<lambda>k n. (Inr (), ())\<rparr>"

definition user_env :: priv_env where
  "user_env = \<lparr>pe_uid = 1000, pe_seteuid_ok = True, pe_passwd = Some (str ''u'', str ''/h''),
     pe_argv = [str ''mount''], pe_stat = \<lambda>_. None, pe_conf = \<lambda>_. None,
     pe_files = [str ''/h/.ecryptfs/Private.sig'' \<mapsto> str ''0123456789abcdef'' @ [10]],
     pe_counter = \<lambda>_. Some \<lparr>st_is_reg = True, st_is_dir = False, st_uid = 1000\<rparr>,
     pe_chdir = \<lambda>_. True, pe_dot = \<lambda>_. Some \<lparr>st_is_reg = False, st_is_dir = True, st_uid = 1000\<rparr>,
     pe_cwd = Some, pe_proc_mounts = Some [], pe_mtab_symlink = True, pe_mount_ok = True,
     pe_exec_ok = True\<rparr>"

definition user_state :: "unit priv_state" where
  "user_state = \<lparr>pv_counters = Map.empty, pv_keys = (), pv_mtab = [], pv_mtab_lock = False,
     pv_mounts = [], pv_unmounts = []\<rparr>"

theorem mount_private_safe_witness:
  "\<exists>st' mc. mount_private_main user_env user_keys user_state [] = Some (0, st', [])
     \<and> pv_mounts st' = [mc] \<and> mc_nosuid mc \<and> mc_nodev mc"
proof -
  have "map_option (\<lambda>(rc, st, calls). (rc, calls, map mc_nosuid (pv_mounts st)))
      (mount_private_main user_env user_keys user_state []) = Some (0, [], [True])"
    by code_simp
  then obtain st' where st': "mount_private_main user_env user_keys user_state [] = Some (0, st', [])"
    "pv_mounts st' \<noteq> pv_mounts user_state"
    by (auto simp: user_state_def)
  from mount_private_safe [OF st'] st'(1) show ?thesis
    by (auto simp: user_state_def)
qed



text \<open>
  A forced unmount is not possible in the documented way: called with the argument \<open>-f\<close>,
  the program takes it for the alias of a configuration, and ends with status 1 and nothing
  changed unless the user has a file \<open>.ecryptfs/-f.conf\<close>.
\<close>

theorem force_is_taken_for_alias:
  assumes "pe_argv env = [prog, str ''-f'']" "pe_passwd env = Some (name, dir)"
    and "pe_stat env (dir @ str ''/.ecryptfs/-f.conf'') = None"
  shows "\<exists>calls'. mount_private_main env kr st calls = Some (1, st, calls')"
proof -
  have "dir @ str ''/.ecryptfs/'' @ str ''-f'' @ str ''.conf'' = dir @ str ''/.ecryptfs/-f.conf''"
    by (simp add: bytes_of_string_def)
  then show ?thesis
    using assms
    by (auto simp: mount_private_main_def main_config_def read_config_def Let_def
        split: prod.split bool.split)
qed

theorem force_is_taken_for_alias_witness:
  "\<exists>calls'. mount_private_main (user_env\<lparr>pe_argv := [str ''umount'', str ''-f'']\<rparr>) user_keys
     user_state [] = Some (1, user_state, calls')"
  by (rule force_is_taken_for_alias) (simp_all add: user_env_def)

text \<open>
  While other sessions are open, an unmount changes nothing but the counter: no key is
  removed and nothing is unmounted.
\<close>

theorem umount_with_open_sessions:
  assumes "main_umount env kr False fh src dest s0 s1 st calls = Some (rc, st', calls')"
    and "1 < read_counter (counter_content st fh)"
  shows "rc = 1 \<and> pv_keys st' = pv_keys st \<and> pv_unmounts st' = pv_unmounts st
    \<and> read_counter (counter_content st' fh) = read_counter (counter_content st fh) - 1"
proof -
  from assms(1) obtain n content where n: "decrement (counter_content st fh) = Some (n, content)"
    by (auto simp: main_umount_def bind_eq_Some_conv)
  note r = bump_counter_result [OF n [unfolded decrement_def]]
  then have "0 < n" using assms(2) by simp
  then show ?thesis using assms n r
    by (auto simp: main_umount_def counter_content_def)
qed

theorem umount_with_open_sessions_witness:
  "\<exists>st'. main_umount user_env user_keys False [102] [97] [98] None None
      (user_state\<lparr>pv_counters := [[102] \<mapsto> [50, 10]]\<rparr>) [] = Some (1, st', [])
    \<and> pv_unmounts st' = [] \<and> read_counter (counter_content st' [102]) = 1"
proof -
  let ?st = "user_state\<lparr>pv_counters := [[102] \<mapsto> [50, 10]]\<rparr>"
  have d: "decrement [50, 10] = Some (1, [49, 10])" by code_simp
  have r: "read_counter [50, 10] = 2" by code_simp
  obtain st' where st': "main_umount user_env user_keys False [102] [97] [98] None None ?st []
      = Some (1, st', [])"
    by (simp add: main_umount_def counter_content_def d)
  from umount_with_open_sessions [OF st'] st' show ?thesis
    by (simp add: r counter_content_def user_state_def)
qed

text \<open>
  When the last entry cannot be written, the mode cannot be changed or the new table
  cannot be renamed, \<open>update_mtab\<close> closes the old table a second time: undefined behaviour.
\<close>

theorem update_mtab_double_close:
  assumes "\<not> pe_mtab_symlink env" "\<not> pv_mtab_lock st" "k \<in> {3, 4, 5}"
  shows "update_mtab env dev mnt opt st (replicate (k + length (pv_mtab st)) True @ False # calls) = None"
proof -
  have copy: "copy_entries es (replicate (length es) True @ rest) = (True, rest)" for es rest
    by (induction es) auto
  have r: "replicate (3 + (length (pv_mtab st) + j)) True @ rest
      = True # True # True # replicate (length (pv_mtab st)) True @ replicate j True @ rest" for j rest
    by (simp add: replicate_add eval_nat_numeral)
  obtain j where j: "k = 3 + j" "j \<in> {0, 1, 2}" using assms(3) by auto
  then have "replicate (k + length (pv_mtab st)) True @ False # calls
      = True # True # True # replicate (length (pv_mtab st)) True @ replicate j True @ False # calls"
    using r [of j "False # calls"] by (simp add: add.commute add.left_commute)
  then show ?thesis
    using assms(1,2) j(2) by (auto simp: update_mtab_def copy eval_nat_numeral)
qed

theorem update_mtab_double_close_witness:
  "update_mtab (user_env\<lparr>pe_mtab_symlink := False\<rparr>) [97] [98] [99] user_state
     [True, True, True, True, True, False] = None"
  using update_mtab_double_close [of "user_env\<lparr>pe_mtab_symlink := False\<rparr>" user_state 5
      "[97]" "[98]" "[99]" "[]"]
  by (simp add: user_env_def user_state_def eval_nat_numeral)

end
