(* ===== verification/Decision_Graph.thy ===== *)
theory Decision_Graph
  imports Nv_List Hex
begin

text \<open>
  The decision graph, from \<open>src/libecryptfs/decision_graph.c\<close> and \<open>src/include/decision_graph.h\<close>:
  parameter nodes whose values come from the option list, from a default or from the user, and
  transitions between them with callbacks.

  A graph is a store of nodes by number, so that callbacks can rewire it while it is
  evaluated. A callback is named by a value of the type parameter \<open>'f\<close>, the way the code
  holds a function pointer, and what it does is an argument of the evaluation (type \<open>calls\<close>).
  What callbacks keep in \<open>*foo\<close> and in the library context are the type parameters \<open>'foo\<close> and
  \<open>'s\<close>. The result \<^term>\<open>None\<close> is a run that does not come back: it reads an invalid pointer, or
  a callback leaves the process.

  The answers of \<open>ctx->get_string\<close> are a list of its return codes and the values it leaves in
  \<open>*val\<close>; an exhausted list answers as \<open>get_string_stdin\<close> does at the end of the input. When
  \<open>asprintf\<close> fails, its target keeps the value it had.
\<close>

abbreviation (input) NULL_TOK :: int where "NULL_TOK \<equiv> 1"
abbreviation (input) DEFAULT_TOK :: int where "DEFAULT_TOK \<equiv> 2"
abbreviation (input) MOUNT_ERROR :: int where "MOUNT_ERROR \<equiv> 3"
abbreviation (input) WRONG_VALUE :: int where "WRONG_VALUE \<equiv> 4"
abbreviation (input) MAX_NUM_TRANSITIONS :: nat where "MAX_NUM_TRANSITIONS \<equiv> 64"

abbreviation (input) NV_PROCESSED :: u32 where "NV_PROCESSED \<equiv> 0x00000008"

abbreviation (input) ALLOW_IMPLICIT_TRANSITION :: u32 where "ALLOW_IMPLICIT_TRANSITION \<equiv> 0x0004"
abbreviation (input) PARAM_FLAG_NO_VALUE :: u32 where "PARAM_FLAG_NO_VALUE \<equiv> 0x0008"
abbreviation (input) DISPLAY_TRANSITION_NODE_VALS :: u32 where "DISPLAY_TRANSITION_NODE_VALS \<equiv> 0x0010"
abbreviation (input) VERIFY_VALUE :: u32 where "VERIFY_VALUE \<equiv> 0x0020"
abbreviation (input) STDIN_REQUIRED :: u32 where "STDIN_REQUIRED \<equiv> 0x0040"
abbreviation (input) PARAMETER_SET :: u32 where "PARAMETER_SET \<equiv> 0x0080"
abbreviation (input) FORCE_DISPLAY_NODES :: u32 where "FORCE_DISPLAY_NODES \<equiv> 0x0200"
abbreviation (input) NO_AUTO_TRANSITION :: u32 where "NO_AUTO_TRANSITION \<equiv> 0x0800"
abbreviation (input) IMPLICIT_OVERRIDE_DEFAULT :: u32 where "IMPLICIT_OVERRIDE_DEFAULT \<equiv> 0x1000"
abbreviation (input) NONEMPTY_VALUE_REQUIRED :: u32 where "NONEMPTY_VALUE_REQUIRED \<equiv> 0x2000"

subsection \<open>Nodes\<close>

record 'f transition_node =
  tn_flags :: u32
  tn_val :: "byte list option"
  tn_pretty_val :: "byte list option"
  tn_next_token :: "nat option"
  tn_trans_func :: "'f option"

text \<open>The list \<open>pn_tl\<close> holds the first \<open>num_transitions\<close> entries of the array \<open>tl\<close>.\<close>

record 'f param_node =
  pn_mnt_opt_names :: "byte list list"
  pn_prompt :: "byte list option"
  pn_val :: "byte list option"
  pn_default_val :: "byte list option"
  pn_suggested_val :: "byte list option"
  pn_flags :: u32
  pn_tl :: "'f transition_node list"

type_synonym 'f graph = "nat \<rightharpoonup> 'f param_node"

definition zero_tn :: "'f transition_node" where
  "zero_tn = \<lparr>tn_flags = 0, tn_val = None, tn_pretty_val = None, tn_next_token = None,
     tn_trans_func = None\<rparr>"

definition zero_pn :: "'f param_node" where
  "zero_pn = \<lparr>pn_mnt_opt_names = [], pn_prompt = None, pn_val = None, pn_default_val = None,
     pn_suggested_val = None, pn_flags = 0, pn_tl = []\<rparr>"

record ('f, 'foo, 's) eval_state =
  es_graph :: "'f graph"
  es_nvps :: nv_list
  es_mnt_params :: "byte list option list"
  es_foo :: "'foo option"
  es_ctx :: 's
  es_verbosity :: int
  es_get_string :: bool
  es_inputs :: "(int \<times> byte list option) list"
  es_repeated :: int
  es_lastnode :: "nat option"
  es_mem :: schedule

type_synonym ('f, 'foo, 's) calls =
  "'f \<Rightarrow> nat \<Rightarrow> ('f, 'foo, 's) eval_state \<Rightarrow> (int \<times> ('f, 'foo, 's) eval_state) option"

definition has_flag :: "u32 \<Rightarrow> u32 \<Rightarrow> bool" where
  "has_flag flags f \<longleftrightarrow> flags AND f \<noteq> 0"

definition set_node ::
  "nat \<Rightarrow> 'f param_node \<Rightarrow> ('f, 'foo, 's) eval_state \<Rightarrow> ('f, 'foo, 's) eval_state" where
  "set_node k n st = st\<lparr>es_graph := (es_graph st)(k \<mapsto> n)\<rparr>"

text \<open>One allocation: whether it succeeds.\<close>

definition es_malloc :: "('f, 'foo, 's) eval_state \<Rightarrow> bool \<times> ('f, 'foo, 's) eval_state" where
  "es_malloc st = (case malloc_ok (es_mem st) of (ok, mem) \<Rightarrow> (ok, st\<lparr>es_mem := mem\<rparr>))"

text \<open>Allocations of which each must succeed.\<close>

fun mallocs :: "nat \<Rightarrow> schedule \<Rightarrow> bool \<times> schedule" where
  "mallocs 0 mem = (True, mem)"
| "mallocs (Suc n) mem =
     (case malloc_ok mem of (False, mem) \<Rightarrow> (False, mem) | (True, mem) \<Rightarrow> mallocs n mem)"

definition es_mallocs ::
  "nat \<Rightarrow> ('f, 'foo, 's) eval_state \<Rightarrow> bool \<times> ('f, 'foo, 's) eval_state" where
  "es_mallocs n st = (case mallocs n (es_mem st) of (ok, mem) \<Rightarrow> (ok, st\<lparr>es_mem := mem\<rparr>))"

text \<open>\<open>asprintf(&node->val, "%s", s)\<close> for the node \<open>k\<close>; a null pointer prints as \<open>(null)\<close>.\<close>

definition set_val ::
  "nat \<Rightarrow> byte list option \<Rightarrow> ('f, 'foo, 's) eval_state \<Rightarrow> (int \<times> ('f, 'foo, 's) eval_state) option"
where
  "set_val k s st = do {
     n \<leftarrow> es_graph st k;
     (case es_malloc st of
        (False, st) \<Rightarrow> Some (- ENOMEM, st)
      | (True, st) \<Rightarrow> Some (0, set_node k (n\<lparr>pn_val := Some (case s of
            None \<Rightarrow> bytes_of_string ''(null)'' | Some s \<Rightarrow> s)\<rparr>) st)) }"

subsection \<open>Stacks and lists\<close>

definition stack_push ::
  "byte list option \<Rightarrow> byte list option list \<Rightarrow> schedule \<Rightarrow> int \<times> byte list option list \<times> schedule" where
  "stack_push val head mem =
     (case malloc_ok mem of
        (False, mem) \<Rightarrow> (- ENOMEM, head, mem)
      | (True, mem) \<Rightarrow> (0, val # head, mem))"

fun stack_pop :: "byte list option list \<Rightarrow> (int \<times> byte list option list) option" where
  "stack_pop [] = None"
| "stack_pop (v # head) = Some (0, head)"

fun stack_pop_val ::
  "byte list option list \<Rightarrow> int \<times> byte list option option \<times> byte list option list" where
  "stack_pop_val [] = (-1, None, [])"
| "stack_pop_val (v # head) = (0, Some v, head)"

text \<open>\<open>ecryptfs_delete_nvp\<close>: the node to be taken out is given by its position.\<close>

definition ecryptfs_delete_nvp :: "nv_list \<Rightarrow> nat \<Rightarrow> int \<times> nv_list" where
  "ecryptfs_delete_nvp nvps k =
     (if k < length nvps then (0, take k nvps @ drop (Suc k) nvps) else (- EINVAL, nvps))"

subsection \<open>Building graphs\<close>

definition add_transition_node_to_param_node ::
  "'f param_node \<Rightarrow> 'f transition_node \<Rightarrow> int \<times> 'f param_node" where
  "add_transition_node_to_param_node n tn =
     (if MAX_NUM_TRANSITIONS \<le> length (pn_tl n) then (- ENOMEM, n)
      else (0, n\<lparr>pn_tl := pn_tl n @ [tn]\<rparr>))"

definition update_tn ::
  "nat \<Rightarrow> nat \<Rightarrow> ('f transition_node \<Rightarrow> 'f transition_node) \<Rightarrow> 'f graph \<Rightarrow> 'f graph" where
  "update_tn k i f g = (case g k of
     None \<Rightarrow> g
   | Some n \<Rightarrow> g(k \<mapsto> n\<lparr>pn_tl := (pn_tl n)[i := f (pn_tl n ! i)]\<rparr>))"

definition exit_tn :: "nat \<Rightarrow> 'f transition_node \<Rightarrow> 'f transition_node" where
  "exit_tn exit_param_node tn =
     tn\<lparr>tn_val := Some (bytes_of_string ''default''),
        tn_pretty_val := Some (bytes_of_string ''default''),
        tn_next_token := Some exit_param_node\<rparr>"

text \<open>
  \<open>set_exit_param_node_for_node\<close>, the loop over the transitions of the node \<open>k\<close>. The recursion
  follows the edges of the graph and does not end on a cycle; the first number bounds its
  depth, and \<open>Some None\<close> is the result when it is reached.
\<close>

fun set_exit_slots ::
  "nat \<Rightarrow> bool \<Rightarrow> nat \<Rightarrow> nat \<Rightarrow> nat list \<Rightarrow> 'f graph \<Rightarrow> 'f graph option option" where
  "set_exit_slots depth recursive exit_node k [] g = Some (Some g)"
| "set_exit_slots depth recursive exit_node k (i # is) g =
     (case g k of
        None \<Rightarrow> None
      | Some n \<Rightarrow>
          if length (pn_tl n) \<le> i then Some (Some g)
          else (case tn_next_token (pn_tl n ! i) of
             None \<Rightarrow>
               set_exit_slots depth recursive exit_node k is (update_tn k i (exit_tn exit_node) g)
           | Some m \<Rightarrow>
               if \<not> recursive then set_exit_slots depth recursive exit_node k is g
               else (case depth of
                  0 \<Rightarrow> Some None
                | Suc depth' \<Rightarrow>
                    (case set_exit_slots depth' recursive exit_node m [0..<MAX_NUM_TRANSITIONS] g of
                       None \<Rightarrow> None
                     | Some None \<Rightarrow> Some None
                     | Some (Some g) \<Rightarrow> set_exit_slots depth recursive exit_node k is g))))"

definition set_exit_param_node_for_node ::
  "nat \<Rightarrow> nat \<Rightarrow> nat \<Rightarrow> bool \<Rightarrow> 'f graph \<Rightarrow> 'f graph option option" where
  "set_exit_param_node_for_node depth k exit_node recursive g =
     set_exit_slots depth recursive exit_node k [0..<MAX_NUM_TRANSITIONS] g"

definition ecryptfs_set_exit_param_on_graph ::
  "nat \<Rightarrow> nat \<Rightarrow> nat \<Rightarrow> 'f graph \<Rightarrow> 'f graph option option" where
  "ecryptfs_set_exit_param_on_graph depth k exit_node g =
     set_exit_param_node_for_node depth k exit_node True g"

text \<open>
  \<open>ecryptfs_insert_params\<close> appends a pair for every name of a node and of the nodes after it.
  Only the name and the link of a new pair are set; \<open>junk_nv\<close> is what the fresh memory holds.
  The depth bounds the recursion as above.
\<close>

fun insert_names ::
  "ecryptfs_name_val_pair \<Rightarrow> byte list list \<Rightarrow> nv_list \<Rightarrow> schedule \<Rightarrow> int \<times> nv_list \<times> schedule" where
  "insert_names junk_nv [] nvps mem = (0, nvps, mem)"
| "insert_names junk_nv (name # names) nvps mem =
     (case malloc_ok mem of
        (False, mem) \<Rightarrow> (- ENOMEM, nvps, mem)
      | (True, mem) \<Rightarrow>
          (case malloc_ok mem of
             (False, mem) \<Rightarrow> (- ENOMEM, nvps @ [junk_nv], mem)
           | (True, mem) \<Rightarrow>
               insert_names junk_nv names (nvps @ [junk_nv\<lparr>nv_name := Live name\<rparr>]) mem))"

fun insert_params_tl ::
  "nat \<Rightarrow> ecryptfs_name_val_pair \<Rightarrow> 'f graph \<Rightarrow> 'f transition_node list \<Rightarrow> nv_list \<Rightarrow> schedule
   \<Rightarrow> (int \<times> nv_list \<times> schedule) option option" where
  "insert_params_tl depth junk_nv g [] nvps mem = Some (Some (0, nvps, mem))"
| "insert_params_tl depth junk_nv g (tn # tns) nvps mem =
     (case tn_next_token tn of
        None \<Rightarrow> insert_params_tl depth junk_nv g tns nvps mem
      | Some m \<Rightarrow>
          (case (g m, depth) of
             (None, _) \<Rightarrow> None
           | (Some n, 0) \<Rightarrow> Some None
           | (Some n, Suc depth') \<Rightarrow>
               (case insert_names junk_nv (pn_mnt_opt_names n) nvps mem of
                  (rc, nvps, mem) \<Rightarrow>
                    if rc \<noteq> 0 then Some (Some (rc, nvps, mem))
                    else (case insert_params_tl depth' junk_nv g (pn_tl n) nvps mem of
                       None \<Rightarrow> None
                     | Some None \<Rightarrow> Some None
                     | Some (Some (rc, nvps, mem)) \<Rightarrow>
                         if rc \<noteq> 0 then Some (Some (rc, nvps, mem))
                         else insert_params_tl depth junk_nv g tns nvps mem))))"

definition ecryptfs_insert_params_in_subgraph ::
  "nat \<Rightarrow> ecryptfs_name_val_pair \<Rightarrow> 'f graph \<Rightarrow> 'f transition_node \<Rightarrow> nv_list \<Rightarrow> schedule
   \<Rightarrow> (int \<times> nv_list \<times> schedule) option option" where
  "ecryptfs_insert_params_in_subgraph depth junk_nv g trans_node nvps mem =
     insert_params_tl depth junk_nv g [trans_node] nvps mem"

subsection \<open>Transitions\<close>

definition trans_at :: "nat \<Rightarrow> nat \<Rightarrow> ('f, 'foo, 's) eval_state \<Rightarrow> 'f transition_node option" where
  "trans_at cur i st = do {
     n \<leftarrow> es_graph st cur;
     if i < length (pn_tl n) then Some (pn_tl n ! i) else None }"

text \<open>The callback of a transition, or the given status when it has none.\<close>

definition run_trans ::
  "('f, 'foo, 's) calls \<Rightarrow> nat \<Rightarrow> 'f transition_node \<Rightarrow> int \<Rightarrow> ('f, 'foo, 's) eval_state
   \<Rightarrow> (int \<times> ('f, 'foo, 's) eval_state) option" where
  "run_trans call cur tn d st =
     (case tn_trans_func tn of None \<Rightarrow> Some (d, st) | Some f \<Rightarrow> call f cur st)"

text \<open>
  The loop over the option list for the transition \<open>i\<close>: \<^term>\<open>None\<close> inside when it runs to its
  end, otherwise the status and the next node. The next node is read after the callback,
  which may have changed it.
\<close>

fun trans_nvps ::
  "('f, 'foo, 's) calls \<Rightarrow> nat \<Rightarrow> nat \<Rightarrow> nv_list \<Rightarrow> ('f, 'foo, 's) eval_state
   \<Rightarrow> ((int \<times> nat option) option \<times> ('f, 'foo, 's) eval_state) option" where
  "trans_nvps call cur i [] st = Some (None, st)"
| "trans_nvps call cur i (p # ps) st = do {
     tn \<leftarrow> trans_at cur i st;
     follow \<leftarrow> (case tn_val tn of
                 None \<Rightarrow> Some True
               | Some v \<Rightarrow> (case nv_name p of Live n \<Rightarrow> Some (n = v) | _ \<Rightarrow> None));
     if \<not> follow then trans_nvps call cur i ps st
     else do {
       (tok, st) \<leftarrow> run_trans call cur tn NULL_TOK st;
       tn \<leftarrow> trans_at cur i st;
       if tok = MOUNT_ERROR then Some (Some (tok, None), st)
       else if tok = DEFAULT_TOK \<or> tok = NULL_TOK then
         Some (Some (if tn_next_token tn = None then - EINVAL else 0, tn_next_token tn), st)
       else trans_nvps call cur i ps st } }"

fun trans_first ::
  "('f, 'foo, 's) calls \<Rightarrow> nat \<Rightarrow> nat list \<Rightarrow> ('f, 'foo, 's) eval_state
   \<Rightarrow> ((int \<times> nat option) option \<times> ('f, 'foo, 's) eval_state) option" where
  "trans_first call cur [] st = Some (None, st)"
| "trans_first call cur (i # is) st = do {
     n \<leftarrow> es_graph st cur;
     if length (pn_tl n) \<le> i then Some (None, st)
     else let tn = pn_tl n ! i in
     if tn_val tn \<noteq> None \<and> pn_val n = tn_val tn then do {
       (rc, st) \<leftarrow> run_trans call cur tn 0 st;
       tn \<leftarrow> trans_at cur i st;
       Some (Some (if tn_next_token tn = None then EINVAL else rc, tn_next_token tn), st) }
     else do {
       (r, st) \<leftarrow> trans_nvps call cur i (es_nvps st) st;
       (case r of Some x \<Rightarrow> Some (Some x, st) | None \<Rightarrow> trans_first call cur is st) } }"

fun trans_default ::
  "('f, 'foo, 's) calls \<Rightarrow> nat \<Rightarrow> nat list \<Rightarrow> ('f, 'foo, 's) eval_state
   \<Rightarrow> ((int \<times> nat option) option \<times> ('f, 'foo, 's) eval_state) option" where
  "trans_default call cur [] st = Some (None, st)"
| "trans_default call cur (i # is) st = do {
     n \<leftarrow> es_graph st cur;
     if length (pn_tl n) \<le> i then Some (None, st)
     else let tn = pn_tl n ! i in
     if tn_val tn \<noteq> Some (bytes_of_string ''default'') then trans_default call cur is st
     else do {
       (tok, st) \<leftarrow> run_trans call cur tn NULL_TOK st;
       n \<leftarrow> es_graph st cur;
       tn \<leftarrow> trans_at cur i st;
       if tok = WRONG_VALUE then
         (if es_verbosity st \<noteq> 0 \<or> has_flag (pn_flags n) STDIN_REQUIRED then
            let st = st\<lparr>es_repeated := es_repeated st + 1\<rparr> in
            (if 5 \<le> es_repeated st then Some (Some (- EINVAL, None), st)
             else Some (Some (0, Some cur), st))
          else Some (Some (- EINVAL, None), st))
       else if tok = MOUNT_ERROR \<or> tok < 0 then Some (Some (tok, None), st)
       else Some (Some (if tn_next_token tn = None then - EINVAL else 0, tn_next_token tn), st) } }"

definition do_transition ::
  "('f, 'foo, 's) calls \<Rightarrow> nat \<Rightarrow> ('f, 'foo, 's) eval_state
   \<Rightarrow> ((int \<times> nat option) \<times> ('f, 'foo, 's) eval_state) option" where
  "do_transition call cur st = do {
     let st = (if es_lastnode st \<noteq> Some cur then st\<lparr>es_repeated := 0\<rparr> else st);
     let st = st\<lparr>es_lastnode := Some cur\<rparr>;
     (r, st) \<leftarrow> trans_first call cur [0..<MAX_NUM_TRANSITIONS] st;
     (case r of
        Some x \<Rightarrow> Some (x, st)
      | None \<Rightarrow> do {
          (r, st) \<leftarrow> trans_default call cur [0..<MAX_NUM_TRANSITIONS] st;
          n \<leftarrow> es_graph st cur;
          (case r of
             Some x \<Rightarrow> Some (x, st)
           | None \<Rightarrow> Some ((if pn_tl n \<noteq> [] then MOUNT_ERROR else NULL_TOK, None), st)) }) }"

subsection \<open>Values\<close>

text \<open>
  The first pair with this name that was not used before: its value and the list with the
  pair marked as used.
\<close>

fun consume_nvp :: "byte list \<Rightarrow> nv_list \<Rightarrow> (heap_ptr \<times> nv_list) option option" where
  "consume_nvp name [] = Some None"
| "consume_nvp name (p # ps) =
     (case nv_name p of
        Live n \<Rightarrow>
          if n = name \<and> \<not> has_flag (nv_flags p) NV_PROCESSED
          then Some (Some (nv_value p, p\<lparr>nv_flags := nv_flags p OR NV_PROCESSED\<rparr> # ps))
          else (case consume_nvp name ps of
              None \<Rightarrow> None
            | Some None \<Rightarrow> Some None
            | Some (Some (v, ps)) \<Rightarrow> Some (Some (v, p # ps)))
      | _ \<Rightarrow> None)"

text \<open>The names of the node, from the last to the first.\<close>

fun retrieve_names ::
  "byte list list \<Rightarrow> nv_list \<Rightarrow> (heap_ptr \<times> nv_list) option option" where
  "retrieve_names [] nvps = Some None"
| "retrieve_names (name # names) nvps =
     (case consume_nvp name nvps of
        None \<Rightarrow> None
      | Some (Some r) \<Rightarrow> Some (Some r)
      | Some None \<Rightarrow> retrieve_names names nvps)"

text \<open>\<open>retrieve_val\<close>: the status, \<open>*value_retrieved\<close> and the state.\<close>

definition retrieve_val :: "nat \<Rightarrow> ('f, 'foo, 's) eval_state \<Rightarrow> (int \<times> bool \<times> ('f, 'foo, 's) eval_state) option" where
  "retrieve_val k st = do {
     n \<leftarrow> es_graph st k;
     r \<leftarrow> retrieve_names (rev (pn_mnt_opt_names n)) (es_nvps st);
     (case r of
        Some (v, nvps) \<Rightarrow>
          let st = st\<lparr>es_nvps := nvps\<rparr> in
          (case v of
             Dangling \<Rightarrow> None
           | Null \<Rightarrow> Some (0, True, set_node k (n\<lparr>pn_flags := pn_flags n OR PARAMETER_SET\<rparr>) st)
           | Live s \<Rightarrow>
               if s = bytes_of_string ''(null)''
               then Some (0, True, set_node k (n\<lparr>pn_flags := pn_flags n OR PARAMETER_SET\<rparr>) st)
               else do {
                 (rc, st) \<leftarrow> set_val k (Some s) st;
                 Some (rc, rc = 0, st) })
      | None \<Rightarrow>
          (case pn_default_val n of
             None \<Rightarrow> Some (0, False, st)
           | Some d \<Rightarrow>
               if d = bytes_of_string ''NULL'' then Some (0, False, st)
               else do {
                 (rc, st) \<leftarrow> set_val k (Some d) st;
                 Some (rc, rc = 0, st) })) }"

text \<open>
  The implicit transitions: the values of the nodes after this one are looked up. When a slot
  has no next node, \<open>value_retrieved\<close> keeps what it was.
\<close>

fun implicit_vals ::
  "nat \<Rightarrow> 'f transition_node list \<Rightarrow> bool \<Rightarrow> ('f, 'foo, 's) eval_state \<Rightarrow> ((int option) \<times> ('f, 'foo, 's) eval_state) option" where
  "implicit_vals k [] got st = Some (None, st)"
| "implicit_vals k (tn # tns) got st = do {
     (rc, got, st) \<leftarrow> (case tn_next_token tn of
                        None \<Rightarrow> Some (0, got, st)
                      | Some m \<Rightarrow> retrieve_val m st);
     if rc \<noteq> 0 then Some (Some rc, st)
     else if got then do {
       m \<leftarrow> tn_next_token tn;
       next_node \<leftarrow> es_graph st m;
       (rc, st) \<leftarrow> set_val k (case pn_mnt_opt_names next_node of [] \<Rightarrow> None | s # _ \<Rightarrow> Some s) st;
       Some (Some rc, st) }
     else implicit_vals k tns got st }"

text \<open>The comparison of the answer with the values of the transitions.\<close>

fun valid_val :: "byte list \<Rightarrow> 'f transition_node list \<Rightarrow> bool option" where
  "valid_val v [] = Some False"
| "valid_val v (tn # tns) =
     (case tn_val tn of None \<Rightarrow> None | Some t \<Rightarrow> if v = t then Some True else valid_val v tns)"

text \<open>
  The loop at \<open>get_value\<close>: a number, a value, or nothing for the suggested value. The call
  overwrites the value of the node, also when it fails.
\<close>

fun get_value ::
  "nat \<Rightarrow> 'f param_node \<Rightarrow> (int \<times> byte list option) list \<Rightarrow> ('f, 'foo, 's) eval_state
   \<Rightarrow> (int \<times> ('f, 'foo, 's) eval_state) option" where
  "get_value k n [] st = Some (- EIO, set_node k (n\<lparr>pn_val := None\<rparr>) (st\<lparr>es_inputs := []\<rparr>))"
| "get_value k n ((rc, v) # inputs) st =
     (let st = set_node k (n\<lparr>pn_val := v\<rparr>) (st\<lparr>es_inputs := inputs\<rparr>) in
      if rc \<noteq> 0 then Some (rc, st)
      else do {
        text \<leftarrow> v;
        let num = c_strtol 10 text;
        if 0 < num \<and> num \<le> int (length (pn_tl n))
        then set_val k (tn_val (pn_tl n ! nat (num - 1))) st
        else if text = [] \<and> pn_suggested_val n = None then get_value k n inputs st
        else do {
          (rc, st) \<leftarrow> (if text = [] then set_val k (pn_suggested_val n) st else Some (0, st));
          if rc \<noteq> 0 then Some (rc, st)
          else do {
            valid \<leftarrow> valid_val (if text = [] then the (pn_suggested_val n) else text) (pn_tl n);
            if valid then Some (0, st) else get_value k n inputs st } } })"

text \<open>\<open>ctx->get_string\<close>: the next answer.\<close>

definition next_input ::
  "('f, 'foo, 's) eval_state \<Rightarrow> (int \<times> byte list option) \<times> ('f, 'foo, 's) eval_state" where
  "next_input st = (case es_inputs st of
     [] \<Rightarrow> ((- EIO, None), st) | i # is \<Rightarrow> (i, st\<lparr>es_inputs := is\<rparr>))"

text \<open>
  The loop at \<open>obtain_value\<close>; \<open>tries\<close> is the number of attempts left. The status after three
  attempts is the positive \<open>EINVAL\<close>.
\<close>

fun obtain_value ::
  "nat \<Rightarrow> 'f param_node \<Rightarrow> nat \<Rightarrow> ('f, 'foo, 's) eval_state
   \<Rightarrow> (int \<times> ('f, 'foo, 's) eval_state) option" where
  "obtain_value k n 0 st = Some (EINVAL, st)"
| "obtain_value k n (Suc tries) st =
     (case es_malloc st of
        (False, st) \<Rightarrow> Some (- ENOMEM, st)
      | (True, st) \<Rightarrow>
          (case next_input st of ((rc, v), st) \<Rightarrow>
             let st = set_node k (n\<lparr>pn_val := v\<rparr>) st in
             if rc \<noteq> 0 then Some (rc, st)
             else do {
               text \<leftarrow> v;
               if text = [] \<and> has_flag (pn_flags n) NONEMPTY_VALUE_REQUIRED
               then obtain_value k n tries st
               else
                 let finish = (\<lambda>st. Some (0, if text = []
                       then set_node k (n\<lparr>pn_val := pn_suggested_val n\<rparr>) st else st))
                 in if \<not> has_flag (pn_flags n) VERIFY_VALUE then finish st
                 else (case es_malloc st of
                    (False, st) \<Rightarrow> Some (- ENOMEM, st)
                  | (True, st) \<Rightarrow>
                      (case next_input st of ((rc, verify), st) \<Rightarrow>
                         if rc \<noteq> 0 then Some (- EIO, st)
                         else do {
                           verify \<leftarrow> verify;
                           if verify \<noteq> text
                           then obtain_value k n tries (set_node k (n\<lparr>pn_val := None\<rparr>) st)
                           else finish st })) }))"

text \<open>The part of \<open>alloc_and_get_val\<close> that asks the user.\<close>

definition ask_val :: "nat \<Rightarrow> 'f param_node \<Rightarrow> ('f, 'foo, 's) eval_state \<Rightarrow> (int \<times> ('f, 'foo, 's) eval_state) option" where
  "ask_val k n st =
     (if \<not> es_get_string st then Some (MOUNT_ERROR, st)
      else if has_flag (pn_flags n) DISPLAY_TRANSITION_NODE_VALS then
        (if length (pn_tl n) = 1 \<and> \<not> has_flag (pn_flags n) FORCE_DISPLAY_NODES
         then set_val k (tn_val (pn_tl n ! 0)) st
         else (case es_mallocs (2 * length (pn_tl n) + 5) st of
             (False, st) \<Rightarrow> Some (- ENOMEM, st)
           | (True, st) \<Rightarrow> get_value k n (es_inputs st) st))
      else obtain_value k n 3 st)"

definition alloc_and_get_val :: "nat \<Rightarrow> ('f, 'foo, 's) eval_state \<Rightarrow> (int \<times> ('f, 'foo, 's) eval_state) option" where
  "alloc_and_get_val k st = do {
     n \<leftarrow> es_graph st k;
     if pn_val n \<noteq> None then Some (0, st)
     else do {
       (rc, got, st) \<leftarrow> retrieve_val k st;
       n \<leftarrow> es_graph st k;
       if rc \<noteq> 0 then Some (rc, st)
       else if got \<and> \<not> (has_flag (pn_flags n) ALLOW_IMPLICIT_TRANSITION
                          \<and> has_flag (pn_flags n) IMPLICIT_OVERRIDE_DEFAULT) then Some (0, st)
       else do {
         (r, st) \<leftarrow> (if has_flag (pn_flags n) ALLOW_IMPLICIT_TRANSITION
                         \<and> \<not> has_flag (pn_flags n) NO_AUTO_TRANSITION
                       then implicit_vals k (pn_tl n) got st else Some (None, st));
         n \<leftarrow> es_graph st k;
         (case r of
            Some rc \<Rightarrow> Some (rc, st)
          | None \<Rightarrow>
              if has_flag (pn_flags n) PARAM_FLAG_NO_VALUE then Some (0, st)
              else if es_verbosity st = 0 \<and> \<not> has_flag (pn_flags n) STDIN_REQUIRED then Some (0, st)
              else if has_flag (pn_flags n) PARAMETER_SET \<and> \<not> has_flag (pn_flags n) STDIN_REQUIRED
              then Some (0, st)
              else ask_val k n st) } } }"

subsection \<open>Evaluation\<close>

text \<open>\<open>get_verbosity\<close>: \<open>atoi\<close> of a missing value is a null dereference.\<close>

fun get_verbosity :: "nv_list \<Rightarrow> int option" where
  "get_verbosity [] = Some 1"
| "get_verbosity (p # ps) =
     (case nv_name p of
        Live n \<Rightarrow>
          if n = bytes_of_string ''verbosity''
          then (case nv_value p of Live v \<Rightarrow> Some (c_strtol 10 v) | _ \<Rightarrow> None)
          else get_verbosity ps
      | _ \<Rightarrow> None)"

text \<open>
  The loop of \<open>eval_param_tree\<close>, which need not end. The number bounds its rounds; \<open>Some None\<close>
  is the result when the bound is reached.
\<close>

fun eval_loop ::
  "('f, 'foo, 's) calls \<Rightarrow> nat \<Rightarrow> nat \<Rightarrow> ('f, 'foo, 's) eval_state
   \<Rightarrow> (int \<times> ('f, 'foo, 's) eval_state) option option" where
  "eval_loop call 0 k st = Some None"
| "eval_loop call (Suc fuel) k st = do {
     (rc, st) \<leftarrow> alloc_and_get_val k st;
     if rc \<noteq> 0 then Some (Some (rc, st))
     else do {
       ((rc, next), st) \<leftarrow> do_transition call k st;
       if rc \<noteq> 0 then Some (Some (rc, st))
       else do {
         m \<leftarrow> next;
         eval_loop call fuel m st } } }"

definition eval_param_tree ::
  "('f, 'foo, 's) calls \<Rightarrow> nat \<Rightarrow> nat \<Rightarrow> ('f, 'foo, 's) eval_state
   \<Rightarrow> (int \<times> ('f, 'foo, 's) eval_state) option option" where
  "eval_param_tree call fuel root st = do {
     v \<leftarrow> get_verbosity (es_nvps st);
     eval_loop call fuel root (st\<lparr>es_foo := None, es_verbosity := v\<rparr>) }"

text \<open>The head of the stack is cleared, so what was on it is lost.\<close>

definition ecryptfs_eval_decision_graph ::
  "('f, 'foo, 's) calls \<Rightarrow> nat \<Rightarrow> nat \<Rightarrow> ('f, 'foo, 's) eval_state
   \<Rightarrow> (int \<times> ('f, 'foo, 's) eval_state) option option" where
  "ecryptfs_eval_decision_graph call fuel root st =
     (if es_mnt_params st = [] then None
      else map_option (map_option (\<lambda>(rc, st). (if 0 < rc \<and> rc \<noteq> MOUNT_ERROR then 0 else rc, st)))
        (eval_param_tree call fuel root (st\<lparr>es_mnt_params := [None]\<rparr>)))"

subsection \<open>Taking values from the options\<close>

named_theorems es_defs \<open>state helpers of the evaluation\<close>

lemmas [es_defs] = set_node_def es_malloc_def set_val_def

definition unused :: "byte list \<Rightarrow> ecryptfs_name_val_pair \<Rightarrow> bool" where
  "unused name p \<longleftrightarrow> nv_name p = Live name \<and> \<not> has_flag (nv_flags p) NV_PROCESSED"

definition mark_used :: "ecryptfs_name_val_pair \<Rightarrow> ecryptfs_name_val_pair" where
  "mark_used p = p\<lparr>nv_flags := nv_flags p OR NV_PROCESSED\<rparr>"

definition names_live :: "nv_list \<Rightarrow> bool" where
  "names_live nvps \<longleftrightarrow> (\<forall>p \<in> set nvps. \<exists>n. nv_name p = Live n)"

lemma names_live_simps [simp]:
  "names_live []"
  "names_live (p # ps) \<longleftrightarrow> (\<exists>n. nv_name p = Live n) \<and> names_live ps"
  "names_live (ps @ qs) \<longleftrightarrow> names_live ps \<and> names_live qs"
  by (auto simp: names_live_def)

lemma has_flag_or [simp]: "has_flag (a OR b) c \<longleftrightarrow> has_flag a c \<or> has_flag b c"
proof -
  have "(x OR y :: u32) = 0 \<longleftrightarrow> x = 0 \<and> y = 0" for x y
    by (auto simp: bit_eq_iff bit_simps)
  then show ?thesis by (simp add: has_flag_def bit.conj_disj_distrib2)
qed

lemma mark_used_simps [simp]:
  "nv_name (mark_used p) = nv_name p" "nv_value (mark_used p) = nv_value p"
  "\<not> unused a (mark_used p)"
  by (simp_all add: mark_used_def unused_def) (simp add: has_flag_def)

lemma consume_nvp_found:
  assumes "names_live xs" and "\<forall>q \<in> set xs. \<not> unused a q" and "unused a p"
  shows "consume_nvp a (xs @ p # ys) = Some (Some (nv_value p, xs @ mark_used p # ys))"
  using assms by (induction xs) (auto simp: unused_def mark_used_def)

lemma consume_nvp_missing:
  assumes "names_live nvps" and "\<forall>q \<in> set nvps. \<not> unused a q"
  shows "consume_nvp a nvps = Some None"
  using assms by (induction nvps) (auto simp: unused_def)

lemma retrieve_names_found:
  assumes "names_live nvps" and "\<forall>a \<in> set as. \<forall>q \<in> set nvps. \<not> unused a q"
  shows "retrieve_names (as @ bs) nvps = retrieve_names bs nvps"
  using assms by (induction as) (auto simp: consume_nvp_missing)

lemma find_split:
  "List.find P xs = Some x \<longleftrightarrow> (\<exists>us vs. xs = us @ x # vs \<and> P x \<and> (\<forall>u \<in> set us. \<not> P u))"
proof (induction xs)
  case (Cons y ys)
  show ?case
  proof (cases "P y")
    case True
    then show ?thesis by (auto simp: Cons_eq_append_conv)
  next
    case False
    then show ?thesis using Cons.IH
      by (auto simp: Cons_eq_append_conv) (metis append_Cons set_ConsD)+
  qed
qed auto

text \<open>
  \<open>retrieve_val\<close> takes the value of the first option that carries one of the names of the node
  and was not taken before, the last name of the node first, and marks exactly that option as
  taken.
\<close>

theorem retrieve_val_takes_first_unused:
  assumes "es_graph st k = Some n" and "pn_mnt_opt_names n = later @ a # earlier"
    and "es_nvps st = xs @ p # ys" and "names_live (es_nvps st)"
    and "\<forall>b \<in> set earlier. \<forall>q \<in> set (es_nvps st). \<not> unused b q"
    and "\<forall>q \<in> set xs. \<not> unused a q" and "unused a p"
    and "nv_value p = Live v" and "v \<noteq> bytes_of_string ''(null)''" and "es_mem st = []"
  shows "retrieve_val k st = Some (0, True,
    st\<lparr>es_nvps := xs @ mark_used p # ys, es_graph := (es_graph st)(k \<mapsto> n\<lparr>pn_val := Some v\<rparr>)\<rparr>)"
proof -
  have "retrieve_names (rev (pn_mnt_opt_names n)) (es_nvps st)
      = retrieve_names (a # rev later) (es_nvps st)"
    using retrieve_names_found [of "es_nvps st" "rev earlier" "a # rev later"] assms(2,4,5) by simp
  moreover have "consume_nvp a (es_nvps st) = Some (Some (Live v, xs @ mark_used p # ys))"
    using consume_nvp_found [of xs a p ys] assms by simp
  ultimately have "retrieve_names (rev (pn_mnt_opt_names n)) (es_nvps st)
      = Some (Some (Live v, xs @ mark_used p # ys))" by simp
  then show ?thesis
    using assms(1,9,10) by (simp add: retrieve_val_def es_defs)
qed

definition sample_pair :: "string \<Rightarrow> string \<Rightarrow> ecryptfs_name_val_pair" where
  "sample_pair n v =
     zero_nv\<lparr>nv_name := Live (bytes_of_string n), nv_value := Live (bytes_of_string v)\<rparr>"

definition sample_state :: "unit param_node \<Rightarrow> nv_list \<Rightarrow> (int \<times> byte list option) list
   \<Rightarrow> (unit, unit, unit) eval_state" where
  "sample_state n nvps inputs = \<lparr>es_graph = [0 \<mapsto> n], es_nvps = nvps, es_mnt_params = [None],
     es_foo = None, es_ctx = (), es_verbosity = 1, es_get_string = True, es_inputs = inputs,
     es_repeated = 0, es_lastnode = None, es_mem = []\<rparr>"

theorem retrieve_val_takes_first_unused_witness:
  "retrieve_val 0 (sample_state (zero_pn\<lparr>pn_mnt_opt_names := [bytes_of_string ''k'', bytes_of_string ''key'']\<rparr>)
      [sample_pair ''k'' ''a'', sample_pair ''k'' ''b''] [])
   = Some (0, True, (sample_state (zero_pn\<lparr>pn_mnt_opt_names := [bytes_of_string ''k'', bytes_of_string ''key'']\<rparr>)
      [sample_pair ''k'' ''a'', sample_pair ''k'' ''b''] [])
     \<lparr>es_nvps := [mark_used (sample_pair ''k'' ''a''), sample_pair ''k'' ''b''],
      es_graph := [0 \<mapsto> zero_pn\<lparr>pn_mnt_opt_names := [bytes_of_string ''k'', bytes_of_string ''key''],
                               pn_val := Some (bytes_of_string ''a'')\<rparr>]\<rparr>)"
proof -
  let ?n = "zero_pn\<lparr>pn_mnt_opt_names := [bytes_of_string ''k'', bytes_of_string ''key'']\<rparr>"
  let ?ps = "[sample_pair ''k'' ''a'', sample_pair ''k'' ''b'']"
  have "unused (bytes_of_string ''k'') (sample_pair ''k'' ''a'')" by code_simp
  moreover have "\<not> unused (bytes_of_string ''key'') q" if "q \<in> set ?ps" for q
    using that by (auto simp: unused_def sample_pair_def bytes_of_string_def)
  moreover have "bytes_of_string ''a'' \<noteq> bytes_of_string ''(null)''" by code_simp
  ultimately show ?thesis
    using retrieve_val_takes_first_unused [of "sample_state ?n ?ps []" 0 ?n "[]" "bytes_of_string ''k''"
        "[bytes_of_string ''key'']" "[]" "sample_pair ''k'' ''a''" "[sample_pair ''k'' ''b'']"
        "bytes_of_string ''a''"]
    by (simp add: sample_state_def) (simp add: sample_pair_def zero_nv_def)
qed

subsection \<open>Asking the user\<close>

lemma obtain_value_mismatch:
  assumes "es_mem st = []" and "es_inputs st = (0, Some a) # (0, Some b) # inputs" and "a \<noteq> b"
    and "has_flag (pn_flags n) VERIFY_VALUE"
    and "a \<noteq> [] \<or> \<not> has_flag (pn_flags n) NONEMPTY_VALUE_REQUIRED"
  shows "obtain_value k n (Suc tries) st = obtain_value k n tries
     (st\<lparr>es_inputs := inputs, es_graph := (es_graph st)(k \<mapsto> n\<lparr>pn_val := None\<rparr>)\<rparr>)"
proof -
  have "b \<noteq> a" "\<not> (a = [] \<and> has_flag (pn_flags n) NONEMPTY_VALUE_REQUIRED)"
    using assms by auto
  then show ?thesis using assms(1,2,4)
    by (cases st) (auto simp: es_defs next_input_def Let_def)
qed

text \<open>
  When the repetition of a value differs from the value three times, the node keeps no value
  and the evaluation stops there, but its status is success: the positive \<open>EINVAL\<close> of the third
  attempt is turned into 0.
\<close>

theorem verification_failure_reported_as_success:
  assumes "es_graph st k = Some n" and "pn_val n = None" and "pn_default_val n = None"
    and "names_live (es_nvps st)"
    and "\<forall>a \<in> set (pn_mnt_opt_names n). \<forall>q \<in> set (es_nvps st). \<not> unused a q"
    and "has_flag (pn_flags n) VERIFY_VALUE"
    and "has_flag (pn_flags n) STDIN_REQUIRED \<or> vb \<noteq> 0 \<and> \<not> has_flag (pn_flags n) PARAMETER_SET"
    and "\<not> has_flag (pn_flags n) ALLOW_IMPLICIT_TRANSITION"
    and "\<not> has_flag (pn_flags n) PARAM_FLAG_NO_VALUE"
    and "\<not> has_flag (pn_flags n) DISPLAY_TRANSITION_NODE_VALS"
    and "get_verbosity (es_nvps st) = Some vb" and "es_get_string st" and "es_mem st = []"
    and "es_mnt_params st \<noteq> []"
    and "es_inputs st = [(0, Some a1), (0, Some b1), (0, Some a2), (0, Some b2), (0, Some a3), (0, Some b3)]"
    and "a1 \<noteq> b1" "a2 \<noteq> b2" "a3 \<noteq> b3" and "a1 \<noteq> []" "a2 \<noteq> []" "a3 \<noteq> []"
  shows "ecryptfs_eval_decision_graph call (Suc fuel) k st = Some (Some (0,
    st\<lparr>es_mnt_params := [None], es_foo := None, es_verbosity := vb, es_inputs := []\<rparr>))"
proof -
  let ?st = "st\<lparr>es_mnt_params := [None], es_foo := None, es_verbosity := vb\<rparr>"
  have n: "n\<lparr>pn_val := None\<rparr> = n" using assms(2) by simp
  have g: "(es_graph st)(k \<mapsto> n) = es_graph st" using assms(1) by auto
  have r: "retrieve_names (rev (pn_mnt_opt_names n)) (es_nvps st) = Some None"
    using retrieve_names_found [of "es_nvps st" "rev (pn_mnt_opt_names n)" "[]"] assms(4,5) by simp
  have o: "obtain_value k n 3 ?st = Some (EINVAL, ?st\<lparr>es_inputs := []\<rparr>)"
    using obtain_value_mismatch [of ?st a1 b1 "[(0, Some a2), (0, Some b2), (0, Some a3), (0, Some b3)]" n k 2]
      obtain_value_mismatch [of "?st\<lparr>es_inputs := [(0, Some a2), (0, Some b2), (0, Some a3), (0, Some b3)]\<rparr>"
        a2 b2 "[(0, Some a3), (0, Some b3)]" n k 1]
      obtain_value_mismatch [of "?st\<lparr>es_inputs := [(0, Some a3), (0, Some b3)]\<rparr>" a3 b3 "[]" n k 0]
      assms(6,13,15-21) g
    by (simp add: numeral_3_eq_3 numeral_2_eq_2 n del: obtain_value.simps(2))
  have "alloc_and_get_val k ?st = Some (EINVAL, ?st\<lparr>es_inputs := []\<rparr>)"
    using assms(1,2,3,7-10,12) r o by (auto simp: alloc_and_get_val_def retrieve_val_def ask_val_def)
  then show ?thesis
    using assms(11,14) by (simp add: ecryptfs_eval_decision_graph_def eval_param_tree_def)
qed

text \<open>A node with the flags of the passphrase node of the OpenSSL module.\<close>

definition sample_pass :: "unit param_node" where
  "sample_pass = zero_pn\<lparr>pn_mnt_opt_names := [bytes_of_string ''passphrase''],
     pn_prompt := Some (bytes_of_string ''Passphrase''), pn_flags := 0x22\<rparr>"

definition sample_typos :: "(int \<times> byte list option) list" where
  "sample_typos = concat (replicate 3 [(0, Some (bytes_of_string ''a'')), (0, Some (bytes_of_string ''b''))])"

theorem verification_failure_reported_as_success_witness:
  "ecryptfs_eval_decision_graph (\<lambda>_ _ _. None) 1 0 (sample_state sample_pass [] sample_typos)
   = Some (Some (0, (sample_state sample_pass [] sample_typos)\<lparr>es_mnt_params := [None], es_foo := None,
       es_verbosity := 1, es_inputs := []\<rparr>))"
proof -
  let ?a = "bytes_of_string ''a''" and ?b = "bytes_of_string ''b''"
  have i: "sample_typos = [(0, Some ?a), (0, Some ?b), (0, Some ?a), (0, Some ?b), (0, Some ?a), (0, Some ?b)]"
    by (simp add: sample_typos_def numeral_3_eq_3)
  have f: "has_flag (pn_flags sample_pass) VERIFY_VALUE" "\<not> has_flag (pn_flags sample_pass) PARAMETER_SET"
    "\<not> has_flag (pn_flags sample_pass) ALLOW_IMPLICIT_TRANSITION"
    "\<not> has_flag (pn_flags sample_pass) PARAM_FLAG_NO_VALUE"
    "\<not> has_flag (pn_flags sample_pass) DISPLAY_TRANSITION_NODE_VALS"
    by (simp_all add: sample_pass_def has_flag_def)
  have ab: "?a \<noteq> ?b" "?a \<noteq> []" by (simp_all add: bytes_of_string_def)
  have n: "pn_val sample_pass = None" "pn_default_val sample_pass = None"
    by (simp_all add: sample_pass_def zero_pn_def)
  show ?thesis
    using verification_failure_reported_as_success [of "sample_state sample_pass [] sample_typos" 0
        sample_pass 1 ?a ?b ?a ?b ?a ?b "\<lambda>_ _ _. None" 0] i f ab n
    by (simp add: sample_state_def)
qed

subsection \<open>Evaluation without allocation failures\<close>

lemma mallocs_ok [simp]: "mallocs n [] = (True, [])"
  by (induction n) auto

lemma es_malloc_ok [simp]: "es_mem st = [] \<Longrightarrow> es_malloc st = (True, st)"
  by (cases st) (simp add: es_malloc_def)

lemma es_mallocs_ok [simp]: "es_mem st = [] \<Longrightarrow> es_mallocs n st = (True, st)"
  by (cases st) (simp add: es_mallocs_def)

lemma slots_64: "[0..<MAX_NUM_TRANSITIONS] = 0 # 1 # [2..<MAX_NUM_TRANSITIONS]"
  by (simp add: upt_conv_Cons)

lemma trans_nvps_no_match:
  assumes "trans_at cur i st = Some tn" and "tn_val tn = Some v"
    and "names_live ps" and "Live v \<notin> nv_name ` set ps"
  shows "trans_nvps call cur i ps st = Some (None, st)"
  using assms(3,4) by (induction ps) (auto simp: assms(1,2))

lemma do_transition_default:
  assumes "es_graph st b = Some n" and "pn_tl n = [tn]"
    and tn: "tn_val tn = Some (bytes_of_string ''default'')" "tn_trans_func tn = Some f"
    and "names_live (es_nvps st)" and "Live (bytes_of_string ''default'') \<notin> nv_name ` set (es_nvps st)"
    and st1: "st1 = st\<lparr>es_repeated := (if es_lastnode st = Some b then es_repeated st else 0),
                 es_lastnode := Some b\<rparr>"
    and call: "call f b st1 = Some (tok, st2)" "0 \<le> tok" "tok \<noteq> WRONG_VALUE" "tok \<noteq> MOUNT_ERROR"
    and "pn_val n = Some (bytes_of_string ''default'') \<longrightarrow> tok = 0"
    and n': "es_graph st2 b = Some n'" "pn_tl n' = [tn']" "tn_next_token tn' = Some m"
  shows "do_transition call b st = Some ((0, Some m), st2)"
proof -
  have upd: "(if es_lastnode st \<noteq> Some b then st\<lparr>es_repeated := 0\<rparr> else st)\<lparr>es_lastnode := Some b\<rparr> = st1"
    using st1 by (cases st) auto
  have g1: "es_graph st1 b = Some n" and n1: "es_nvps st1 = es_nvps st" using assms(1) st1 by simp_all
  have t1: "trans_at b 0 st1 = Some tn" using g1 assms(2) by (simp add: trans_at_def)
  have t2: "trans_at b 0 st2 = Some tn'" using n' by (simp add: trans_at_def)
  have run: "run_trans call b tn d st1 = Some (tok, st2)" for d
    using call(1) tn by (simp add: run_trans_def)
  have scan: "trans_nvps call b 0 (es_nvps st1) st1 = Some (None, st1)"
    using trans_nvps_no_match [OF t1 tn(1) assms(5,6), of call] n1 by simp
  show ?thesis
  proof (cases "pn_val n = Some (bytes_of_string ''default'')")
    case True
    then have "trans_first call b [0..<MAX_NUM_TRANSITIONS] st1 = Some (Some (0, Some m), st2)"
      unfolding slots_64 using g1 assms(2) tn run t2 n' assms(12) by (simp add: Let_def)
    then show ?thesis unfolding do_transition_def Let_def upd by simp
  next
    case False
    then have "trans_first call b [0..<MAX_NUM_TRANSITIONS] st1 = Some (None, st1)"
      unfolding slots_64 using g1 assms(2) tn scan by (simp add: Let_def)
    moreover have "trans_default call b [0..<MAX_NUM_TRANSITIONS] st1 = Some (Some (0, Some m), st2)"
      unfolding slots_64 using g1 assms(2) tn run t2 n' call(2-4) by (simp add: Let_def)
    ultimately show ?thesis unfolding do_transition_def Let_def upd using n' by simp
  qed
qed

subsection \<open>What evaluation does to the options\<close>

text \<open>Options are only marked as taken: none is added, dropped, renamed or unmarked.\<close>

definition only_marked :: "nv_list \<Rightarrow> nv_list \<Rightarrow> bool" where
  "only_marked = list_all2 (\<lambda>p q. q = p \<or> q = mark_used p)"

lemma mark_used_twice [simp]: "mark_used (mark_used p) = mark_used p"
  by (cases p) (simp add: mark_used_def or.assoc)

lemma only_marked_refl [simp]: "only_marked nvps nvps"
  by (simp add: only_marked_def list_all2_refl)

lemma only_marked_trans [trans]:
  "only_marked xs ys \<Longrightarrow> only_marked ys zs \<Longrightarrow> only_marked xs zs"
  unfolding only_marked_def list_all2_conv_all_nth by (metis mark_used_twice)

lemma only_marked_names: "only_marked xs ys \<Longrightarrow> nv_name ` set ys = nv_name ` set xs"
proof -
  assume "only_marked xs ys"
  then have "map nv_name ys = map nv_name xs"
    unfolding only_marked_def by (induction rule: list_all2_induct) auto
  then show ?thesis by (metis list.set_map)
qed

lemma consume_nvp_marks: "consume_nvp a nvps = Some (Some (v, nvps')) \<Longrightarrow> only_marked nvps nvps'"
proof (induction nvps arbitrary: nvps')
  case (Cons p ps)
  then show ?case
    by (auto simp: only_marked_def mark_used_def list_all2_refl split: heap_ptr.splits if_splits option.splits)
qed simp

lemma retrieve_names_marks:
  "retrieve_names as nvps = Some (Some (v, nvps')) \<Longrightarrow> only_marked nvps nvps'"
  by (induction as) (auto split: option.splits dest: consume_nvp_marks)

lemma set_node_nvps [simp]: "es_nvps (set_node k n st) = es_nvps st"
  by (simp add: set_node_def)

lemma es_malloc_nvps: "es_malloc st = (ok, st') \<Longrightarrow> es_nvps st' = es_nvps st"
  by (auto simp: es_malloc_def split: prod.splits)

lemma es_mallocs_nvps: "es_mallocs n st = (ok, st') \<Longrightarrow> es_nvps st' = es_nvps st"
  by (auto simp: es_mallocs_def split: prod.splits)

text \<open>
  Invariants of the evaluation. What a round does to the state, besides the callbacks, is to
  take options, to change values and flags of nodes, and to move on in its inputs. The locale
  states these changes once: \<open>I\<close> is the invariant and \<open>N\<close> what it says of a node, which must not
  depend on the value and the flags of the node.
\<close>

locale eval_invariant =
  fixes call :: "('f, 'foo, 's) calls" and I :: "('f, 'foo, 's) eval_state \<Rightarrow> bool"
    and N :: "nat \<Rightarrow> 'f param_node \<Rightarrow> bool"
  assumes call_keeps: "I st \<Longrightarrow> call f k st = Some (rc, st') \<Longrightarrow> I st'"
    and node: "I st \<Longrightarrow> es_graph st k = Some n \<Longrightarrow> N k n"
    and node_val: "N k n \<Longrightarrow> N k (n\<lparr>pn_val := v\<rparr>)"
    and node_flags: "N k n \<Longrightarrow> N k (n\<lparr>pn_flags := fl\<rparr>)"
    and set_node: "I st \<Longrightarrow> N k n \<Longrightarrow> I (set_node k n st)"
    and used: "I st \<Longrightarrow> retrieve_names as (es_nvps st) = Some (Some (w, nvps)) \<Longrightarrow> I (st\<lparr>es_nvps := nvps\<rparr>)"
    and mem: "I st \<Longrightarrow> I (st\<lparr>es_mem := mem\<rparr>)"
    and inputs: "I st \<Longrightarrow> I (st\<lparr>es_inputs := xs\<rparr>)"
    and repeated: "I st \<Longrightarrow> I (st\<lparr>es_repeated := r\<rparr>)"
    and lastnode: "I st \<Longrightarrow> I (st\<lparr>es_lastnode := l\<rparr>)"
    and start: "I st \<Longrightarrow> I (st\<lparr>es_mnt_params := ps, es_foo := fo, es_verbosity := vb\<rparr>)"
begin

lemma malloc_inv: "I st \<Longrightarrow> es_malloc st = (ok, st') \<Longrightarrow> I st'"
  by (auto simp: es_malloc_def mem split: prod.splits)

lemma mallocs_inv: "I st \<Longrightarrow> es_mallocs m st = (ok, st') \<Longrightarrow> I st'"
  by (auto simp: es_mallocs_def mem split: prod.splits)

lemma next_input_inv: "I st \<Longrightarrow> next_input st = (x, st') \<Longrightarrow> I st'"
  by (auto simp: next_input_def inputs split: list.splits)

lemma set_val_inv:
  assumes "I st" and "set_val k s st = Some (rc, st')"
  shows "I st'"
proof -
  obtain ok st1 where 1: "es_malloc st = (ok, st1)" by fastforce
  then show ?thesis using assms node [OF assms(1)] malloc_inv [OF assms(1) 1]
    by (cases ok) (auto simp: set_val_def bind_eq_Some_conv intro: set_node node_val)
qed

lemma retrieve_val_inv:
  assumes "I st" and "retrieve_val k st = Some (rc, got, st')"
  shows "I st'"
proof -
  obtain n r where n: "es_graph st k = Some n"
    and r: "retrieve_names (rev (pn_mnt_opt_names n)) (es_nvps st) = Some r"
    using assms(2) by (auto simp: retrieve_val_def bind_eq_Some_conv)
  show ?thesis
  proof (cases r)
    case None
    then show ?thesis using assms n r
      by (auto simp: retrieve_val_def bind_eq_Some_conv split: option.splits if_splits dest: set_val_inv)
  next
    case (Some x)
    obtain v nvps where x: "x = (v, nvps)" by fastforce
    have i: "I (st\<lparr>es_nvps := nvps\<rparr>)" using used assms(1) r Some x by blast
    show ?thesis using assms(2) n r Some x i
      by (auto simp: retrieve_val_def bind_eq_Some_conv Let_def split: heap_ptr.splits if_splits
          intro: set_node node_flags node [OF assms(1)] dest: set_val_inv)
  qed
qed

lemma implicit_vals_inv: "I st \<Longrightarrow> implicit_vals k tns got st = Some (r, st') \<Longrightarrow> I st'"
proof (induction tns arbitrary: got st)
  case (Cons tn tns)
  obtain rc got' st1 where 1: "(case tn_next_token tn of None \<Rightarrow> Some (0, got, st)
      | Some m \<Rightarrow> retrieve_val m st) = Some (rc, got', st1)"
    using Cons.prems by (auto simp: bind_eq_Some_conv)
  then have m: "I st1" using Cons.prems(1) by (auto split: option.splits dest: retrieve_val_inv)
  show ?case
  proof (cases "rc \<noteq> 0 \<or> got'")
    case True
    then show ?thesis
      using Cons.prems(2) 1 m by (auto simp: bind_eq_Some_conv split: if_splits dest: set_val_inv)
  next
    case False
    then have "implicit_vals k tns got' st1 = Some (r, st')" using Cons.prems(2) 1 by simp
    then show ?thesis using Cons.IH m by blast
  qed
qed simp

lemma get_value_inv: "I st \<Longrightarrow> N k n \<Longrightarrow> get_value k n is st = Some (rc, st') \<Longrightarrow> I st'"
proof (induction "is" arbitrary: st)
  case Nil
  then show ?case by (auto intro: set_node node_val inputs)
next
  case (Cons i "is")
  obtain rc0 v where i: "i = (rc0, v)" by fastforce
  define st1 where "st1 = set_node k (n\<lparr>pn_val := v\<rparr>) (st\<lparr>es_inputs := is\<rparr>)"
  have st1: "I st1" unfolding st1_def using Cons.prems(1,2) by (intro set_node node_val inputs)
  show ?case
  proof (cases "rc0 = 0")
    case False
    then show ?thesis using Cons.prems(3) st1 unfolding i st1_def by (simp add: Let_def)
  next
    case True
    then obtain ans where v: "v = Some ans"
      using Cons.prems(3) i by (auto simp: Let_def bind_eq_Some_conv)
    note u = Cons.prems(3) [unfolded i get_value.simps Let_def True v, folded st1_def [unfolded v], simplified]
    consider (num) s where "set_val k s st1 = Some (rc, st')"
      | (again) "get_value k n is st1 = Some (rc, st')"
      | (val) rc1 st2 where "set_val k (pn_suggested_val n) st1 = Some (rc1, st2) \<or> st2 = st1"
          "st' = st2 \<or> get_value k n is st2 = Some (rc, st')"
      using u by (auto simp: bind_eq_Some_conv split: if_splits)
    then show ?thesis
    proof cases
      case val
      then have "I st2" using set_val_inv st1 by blast
      then show ?thesis using val(2) Cons.IH [of st2] Cons.prems(2) by auto
    qed (use st1 Cons.IH Cons.prems(2) in \<open>auto dest: set_val_inv\<close>)
  qed
qed

lemma obtain_value_inv: "I st \<Longrightarrow> N k n \<Longrightarrow> obtain_value k n tries st = Some (rc, st') \<Longrightarrow> I st'"
proof (induction tries arbitrary: st)
  case (Suc tries)
  obtain ok st1 where 1: "es_malloc st = (ok, st1)" by fastforce
  obtain rc1 v st2 where 2: "next_input st1 = ((rc1, v), st2)" by (metis surj_pair)
  obtain ok3 st3 where 3: "es_malloc (set_node k (n\<lparr>pn_val := v\<rparr>) st2) = (ok3, st3)" by fastforce
  obtain rc4 w st4 where 4: "next_input st3 = ((rc4, w), st4)" by (metis surj_pair)
  have N: "N k (n\<lparr>pn_val := x\<rparr>)" for x using Suc.prems(2) by (rule node_val)
  have e: "I st1" "I st2" using malloc_inv [OF Suc.prems(1) 1] next_input_inv [OF _ 2] by simp_all
  have f: "I (set_node k (n\<lparr>pn_val := x\<rparr>) st2)" for x using set_node [OF e(2) N] .
  have g: "I st3" "I st4" using malloc_inv [OF f 3] next_input_inv [OF _ 4] by simp_all
  have h: "I (set_node k (n\<lparr>pn_val := x\<rparr>) st4)" for x using set_node [OF g(2) N] .
  note IH = Suc.IH [OF f [of v] Suc.prems(2)] Suc.IH [OF h [of None] Suc.prems(2)]
  have j: "I (set_node k (n\<lparr>pn_val := x\<rparr>) (set_node k (n\<lparr>pn_val := v\<rparr>) st2))" for x
    using set_node [OF f N] .
  show ?case
  proof (cases "ok \<and> rc1 = 0")
    case False
    then show ?thesis using Suc.prems(3) 1 2 e f by (auto simp: Let_def split: bool.splits)
  next
    case True
    then obtain ans where v: "v = Some ans"
      using Suc.prems(3) 1 2 by (auto simp: Let_def bind_eq_Some_conv)
    show ?thesis
      using Suc.prems(3) True v 1 2 3 4 e f [of v] g h j IH
      by (cases ok3; cases "rc4 = 0"; cases w) (auto simp: Let_def split: if_splits)
  qed
qed simp

lemma ask_val_inv: "I st \<Longrightarrow> N k n \<Longrightarrow> ask_val k n st = Some (rc, st') \<Longrightarrow> I st'"
  by (auto simp: ask_val_def split: if_splits prod.splits bool.splits
      dest: set_val_inv get_value_inv obtain_value_inv mallocs_inv)

lemma alloc_and_get_val_inv:
  assumes "I st" and "alloc_and_get_val k st = Some (rc, st')"
  shows "I st'"
proof -
  obtain n where n: "es_graph st k = Some n" using assms(2) by (auto simp: alloc_and_get_val_def bind_eq_Some_conv)
  show ?thesis
  proof (cases "pn_val n")
    case (Some v)
    then show ?thesis using assms n by (simp add: alloc_and_get_val_def)
  next
    case None
    then obtain rc1 got st1 n1 where 1: "retrieve_val k st = Some (rc1, got, st1)" "es_graph st1 k = Some n1"
      using assms(2) n by (auto simp: alloc_and_get_val_def bind_eq_Some_conv)
    have st1: "I st1" by (rule retrieve_val_inv [OF assms(1) 1(1)])
    consider (ret) "st' = st1"
      | (on) r st2 n2 where "implicit_vals k (pn_tl n1) got st1 = Some (r, st2) \<or> st2 = st1"
          "es_graph st2 k = Some n2" "st' = st2 \<or> ask_val k n2 st2 = Some (rc, st')"
      using assms(2) n None 1
      by (auto simp: alloc_and_get_val_def bind_eq_Some_conv split: if_splits option.splits)
    then show ?thesis
    proof cases
      case on
      then have "I st2" using implicit_vals_inv st1 by blast
      then show ?thesis using on(2,3) ask_val_inv node by blast
    qed (use st1 in simp)
  qed
qed

lemma run_trans_inv: "I st \<Longrightarrow> run_trans call cur tn d st = Some (rc, st') \<Longrightarrow> I st'"
  by (auto simp: run_trans_def split: option.splits dest: call_keeps)

lemma trans_nvps_inv: "I st \<Longrightarrow> trans_nvps call cur i ps st = Some (r, st') \<Longrightarrow> I st'"
proof (induction ps arbitrary: st)
  case (Cons p ps)
  consider (skip) "trans_nvps call cur i ps st = Some (r, st')"
    | (run) tn tok st1 where "run_trans call cur tn NULL_TOK st = Some (tok, st1)"
        "st' = st1 \<or> trans_nvps call cur i ps st1 = Some (r, st')"
    using Cons.prems(2) by (auto simp: bind_eq_Some_conv split: if_splits)
  then show ?case using Cons.IH Cons.prems(1) run_trans_inv by cases blast+
qed simp

lemma trans_first_inv: "I st \<Longrightarrow> trans_first call cur is st = Some (r, st') \<Longrightarrow> I st'"
proof (induction "is" arbitrary: st)
  case (Cons i "is")
  consider (stop) "st' = st"
    | (match) tn rc where "run_trans call cur tn 0 st = Some (rc, st')"
    | (scan) r1 st1 where "trans_nvps call cur i (es_nvps st) st = Some (r1, st1)"
        "st' = st1 \<or> trans_first call cur is st1 = Some (r, st')"
    using Cons.prems(2) by (auto simp: bind_eq_Some_conv Let_def split: if_splits option.splits)
  then show ?case using Cons.IH Cons.prems(1) run_trans_inv trans_nvps_inv by cases blast+
qed simp

lemma trans_default_inv: "I st \<Longrightarrow> trans_default call cur is st = Some (r, st') \<Longrightarrow> I st'"
proof (induction "is" arbitrary: st)
  case (Cons i "is")
  obtain n where n: "es_graph st cur = Some n" using Cons.prems(2) by (auto simp: bind_eq_Some_conv)
  let ?tn = "pn_tl n ! i"
  show ?case
  proof (cases "length (pn_tl n) \<le> i \<or> tn_val ?tn \<noteq> Some (bytes_of_string ''default'')")
    case True
    then show ?thesis using Cons n by (auto simp: Let_def split: if_splits)
  next
    case False
    note u = Cons.prems(2) [unfolded trans_default.simps n, simplified, unfolded Let_def]
    obtain tok st1 where 1: "run_trans call cur ?tn NULL_TOK st = Some (tok, st1)"
      using u False by (auto simp: bind_eq_Some_conv)
    obtain n1 tn1 where 2: "es_graph st1 cur = Some n1" "trans_at cur i st1 = Some tn1"
      using u False 1 by (auto simp: bind_eq_Some_conv)
    have "st' = st1 \<or> st' = st1\<lparr>es_repeated := es_repeated st1 + 1\<rparr>"
      using u False 1 2 by (auto split: if_splits)
    then show ?thesis using run_trans_inv [OF Cons.prems(1) 1] repeated by blast
  qed
qed simp

lemma do_transition_inv:
  assumes "I st" and "do_transition call cur st = Some (r, st')"
  shows "I st'"
proof -
  define st1 where "st1 = (if es_lastnode st \<noteq> Some cur then st\<lparr>es_repeated := 0\<rparr> else st)\<lparr>es_lastnode := Some cur\<rparr>"
  have st1: "I st1" unfolding st1_def using assms(1) by (simp add: repeated lastnode)
  obtain r1 st2 where 2: "trans_first call cur [0..<MAX_NUM_TRANSITIONS] st1 = Some (r1, st2)"
    using assms(2) by (auto simp: do_transition_def bind_eq_Some_conv Let_def st1_def)
  have st2: "I st2" by (rule trans_first_inv [OF st1 2])
  show ?thesis
  proof (cases r1)
    case None
    then obtain r3 st3 where "trans_default call cur [0..<MAX_NUM_TRANSITIONS] st2 = Some (r3, st3)" "st' = st3"
      using assms(2) 2
      by (auto simp: do_transition_def bind_eq_Some_conv Let_def st1_def split: option.splits)
    then show ?thesis using trans_default_inv st2 by blast
  next
    case (Some x)
    then show ?thesis using assms(2) 2 st2
      by (auto simp: do_transition_def bind_eq_Some_conv Let_def st1_def)
  qed
qed

lemma eval_loop_inv: "I st \<Longrightarrow> eval_loop call fuel k st = Some (Some (rc, st')) \<Longrightarrow> I st'"
proof (induction fuel arbitrary: k st)
  case (Suc fuel)
  obtain rc1 st1 where 1: "alloc_and_get_val k st = Some (rc1, st1)"
    using Suc.prems(2) by (auto simp: bind_eq_Some_conv)
  have st1: "I st1" by (rule alloc_and_get_val_inv [OF Suc.prems(1) 1])
  consider (ret) "st' = st1"
    | (on) rc2 m2 st2 where "do_transition call k st1 = Some ((rc2, m2), st2)"
        "st' = st2 \<or> (\<exists>j. eval_loop call fuel j st2 = Some (Some (rc, st')))"
    using Suc.prems(2) 1 by (auto simp: bind_eq_Some_conv split: if_splits)
  then show ?case using Suc.IH st1 do_transition_inv by cases blast+
qed simp

lemma eval_decision_graph_inv:
  assumes "I st" and "ecryptfs_eval_decision_graph call fuel root st = Some (Some (rc, st'))"
  shows "I st'"
proof -
  obtain v rc' where "eval_loop call fuel root (st\<lparr>es_mnt_params := [None], es_foo := None, es_verbosity := v\<rparr>)
      = Some (Some (rc', st'))"
    using assms(2) by (auto simp: ecryptfs_eval_decision_graph_def eval_param_tree_def bind_eq_Some_conv
        split: if_splits)
  then show ?thesis using eval_loop_inv start [OF assms(1)] by blast
qed

end

text \<open>
  The contract of callbacks that leave the option list alone. The evaluation then does no more
  to it than the retrieval of values.
\<close>

locale option_keeping =
  fixes call :: "('f, 'foo, 's) calls"
  assumes keeps: "call f k st = Some (rc, st') \<Longrightarrow> es_nvps st' = es_nvps st"

sublocale option_keeping \<subseteq> marks: eval_invariant call "\<lambda>st. only_marked nvps (es_nvps st)" "\<lambda>_ _. True"
  for nvps
  by unfold_locales (auto dest: keeps retrieve_names_marks intro: only_marked_trans)

context option_keeping
begin

lemma eval_decision_graph_marks:
  assumes "ecryptfs_eval_decision_graph call fuel root st = Some (Some (rc, st'))"
  shows "only_marked (es_nvps st) (es_nvps st')"
  using marks.eval_decision_graph_inv [OF _ assms, of "es_nvps st"] by simp

end

end
