(* ===== verification/Linear_Subgraph.thy ===== *)
theory Linear_Subgraph
  imports Decision_Graph Key_Management
begin

text \<open>
  The subgraph that is generated from the parameter list of a key module, from the second
  half of \<open>src/libecryptfs/decision_graph.c\<close>: one node per parameter, a last node whose
  callback turns the collected values into the parameter array of the module and adds the
  key of the module to the keyring.

  \<open>*foo\<close> points to the structure that collects the values; the module it names is given by
  its position in the registry.
\<close>

abbreviation (input) PARAM_FLAG_ECHO_INPUT :: u32 where "PARAM_FLAG_ECHO_INPUT \<equiv> 0x0001"

subsection \<open>State\<close>

record ecryptfs_subgraph_ctx =
  sg_key_mod :: nat
  sg_vals :: "byte list list"

datatype sg_ptr = Sg_Live ecryptfs_subgraph_ctx | Sg_Freed

text \<open>
  The registry and the keyring. The number of parameter values is set before the array is
  allocated, so it is kept apart from the array in \<open>km_param_vals\<close>.
\<close>

record ('tn, 'k) lib_ctx =
  lc_key_mods :: "'tn ecryptfs_key_mod list"
  lc_num_param_vals :: "nat \<Rightarrow> nat"
  lc_keys :: 'k

type_synonym ('f, 'tn, 'k) sg_state = "('f, sg_ptr, ('tn, 'k) lib_ctx) eval_state"

subsection \<open>Callbacks\<close>

definition ecryptfs_enter_linear_subgraph_tf ::
  "nat \<Rightarrow> ('f, 'tn, 'k) sg_state \<Rightarrow> (int \<times> ('f, 'tn, 'k) sg_state) option" where
  "ecryptfs_enter_linear_subgraph_tf cur st = do {
     n \<leftarrow> es_graph st cur;
     (case es_malloc st of
        (False, st) \<Rightarrow> Some (- ENOMEM, st)
      | (True, st) \<Rightarrow>
          let ms = lc_key_mods (es_ctx st) in
          (case pn_val n of
             None \<Rightarrow> if ms = [] then Some (1, st) else None
           | Some v \<Rightarrow> do {
               (rc, m) \<leftarrow> ecryptfs_find_key_mod ms (string_of_bytes v);
               if rc \<noteq> 0 then Some (rc, st)
               else Some (0, st\<lparr>es_foo := Some (Sg_Live
                 \<lparr>sg_key_mod = length (takeWhile (\<lambda>m.
                     ecryptfs_find_key_mod [m] (string_of_bytes v) \<noteq> Some (0, Some m)) ms),
                  sg_vals = []\<rparr>)\<rparr>) })) }"

definition ecryptfs_linear_subgraph_val_tf ::
  "nat \<Rightarrow> ('f, 'tn, 'k) sg_state \<Rightarrow> (int \<times> ('f, 'tn, 'k) sg_state) option" where
  "ecryptfs_linear_subgraph_val_tf cur st = do {
     n \<leftarrow> es_graph st cur;
     (case pn_val n of
        None \<Rightarrow> Some (0, st)
      | Some v \<Rightarrow>
          (case es_mallocs 2 st of
             (False, st) \<Rightarrow> Some (- ENOMEM, st)
           | (True, st) \<Rightarrow>
               (case es_foo st of
                  Some (Sg_Live c) \<Rightarrow>
                    Some (0, st\<lparr>es_foo := Some (Sg_Live (c\<lparr>sg_vals := sg_vals c @ [v]\<rparr>))\<rparr>)
                | _ \<Rightarrow> None))) }"

text \<open>
  The end of the last callback: the key of the module goes to the keyring and its signature
  on the stack of mount options. The keyring is given by its operations, the uninitialised
  signature buffer by \<open>junk\<close>.
\<close>

definition push_sig_opt ::
  "byte list \<Rightarrow> ('f, 'tn, 'k) sg_state \<Rightarrow> (int \<times> ('f, 'tn, 'k) sg_state) option" where
  "push_sig_opt sig st =
     (case es_malloc st of
        (False, st) \<Rightarrow> Some (- ENOMEM, st)
      | (True, st) \<Rightarrow> do {
          s \<leftarrow> c_string sig;
          (case stack_push (Some (bytes_of_string ''ecryptfs_sig='' @ s)) (es_mnt_params st) (es_mem st) of
             (rc, params, mem) \<Rightarrow> Some (rc, st\<lparr>es_mnt_params := params, es_mem := mem\<rparr>)) })"

definition add_module_key ::
  "(nat \<Rightarrow> byte) \<Rightarrow> 'k keyring \<Rightarrow> 'tn ecryptfs_key_mod \<Rightarrow> ('f, 'tn, 'k) sg_state
   \<Rightarrow> (int \<times> ('f, 'tn, 'k) sg_state) option" where
  "add_module_key junk kr m st = do {
     r \<leftarrow> ecryptfs_add_key_module_key_to_keyring junk kr (lc_keys (es_ctx st)) m
            (fresh junk (SIG_SIZE_HEX + 1)) (es_mem st);
     (case r of
        Process_Exit _ \<Rightarrow> None
      | Returned (rc, sig, keys, mem) \<Rightarrow>
          let st = st\<lparr>es_ctx := (es_ctx st)\<lparr>lc_keys := keys\<rparr>, es_mem := mem\<rparr> in
          if rc < 0 then Some (rc, st) else push_sig_opt sig st) }"

text \<open>
  The last callback frees the structure on every path; \<open>*foo\<close> keeps pointing to it.
\<close>

definition ecryptfs_exit_linear_subgraph_tf ::
  "(nat \<Rightarrow> byte) \<Rightarrow> 'k keyring \<Rightarrow> nat \<Rightarrow> ('f, 'tn, 'k) sg_state
   \<Rightarrow> (int \<times> ('f, 'tn, 'k) sg_state) option" where
  "ecryptfs_exit_linear_subgraph_tf junk kr cur st =
     (case es_foo st of
        Some (Sg_Live c) \<Rightarrow>
          let k = sg_key_mod c; num = length (sg_vals c); ctx = es_ctx st; mods = lc_key_mods ctx;
              st = st\<lparr>es_foo := Some Sg_Freed,
                      es_ctx := ctx\<lparr>lc_num_param_vals := (lc_num_param_vals ctx)(k := num)\<rparr>\<rparr>;
              m = (mods ! k)\<lparr>km_param_vals := map (\<lambda>v. Some (string_of_bytes v)) (sg_vals c)\<rparr>
          in if length mods \<le> k then None
          else if num = 0 then Some (0, st\<lparr>es_ctx := (es_ctx st)\<lparr>lc_key_mods := mods[k := m]\<rparr>\<rparr>)
          else (case es_mallocs (1 + num) st of
             (False, st) \<Rightarrow> Some (- ENOMEM, st)
           | (True, st) \<Rightarrow>
               add_module_key junk kr m (st\<lparr>es_ctx := (es_ctx st)\<lparr>lc_key_mods := mods[k := m]\<rparr>\<rparr>))
      | _ \<Rightarrow> None)"

datatype subgraph_fn = Enter_Linear_Subgraph | Linear_Subgraph_Val | Exit_Linear_Subgraph

fun subgraph_call ::
  "(nat \<Rightarrow> byte) \<Rightarrow> 'k keyring \<Rightarrow> subgraph_fn \<Rightarrow> nat \<Rightarrow> ('f, 'tn, 'k) sg_state
   \<Rightarrow> (int \<times> ('f, 'tn, 'k) sg_state) option" where
  "subgraph_call junk kr Enter_Linear_Subgraph cur st = ecryptfs_enter_linear_subgraph_tf cur st"
| "subgraph_call junk kr Linear_Subgraph_Val cur st = ecryptfs_linear_subgraph_val_tf cur st"
| "subgraph_call junk kr Exit_Linear_Subgraph cur st = ecryptfs_exit_linear_subgraph_tf junk kr cur st"

subsection \<open>Building the subgraph\<close>

definition ecryptfs_map_flags :: "u32 \<Rightarrow> u32 \<Rightarrow> u32" where
  "ecryptfs_map_flags param_flags nvp_flags =
     (if has_flag nvp_flags PARAM_FLAG_ECHO_INPUT then param_flags OR PARAM_FLAG_ECHO_INPUT
      else param_flags)"

definition param_node_of :: "key_mod_param \<Rightarrow> 'f param_node" where
  "param_node_of p = zero_pn\<lparr>
     pn_mnt_opt_names := [bytes_of_string (p_option p)],
     pn_prompt := Some (bytes_of_string (case p_description p of None \<Rightarrow> p_option p | Some d \<Rightarrow> d)),
     pn_default_val := map_option bytes_of_string (p_default_val p),
     pn_suggested_val := map_option bytes_of_string (p_suggested_val p),
     pn_flags := ecryptfs_map_flags 0 (p_flags p)\<rparr>"

text \<open>The allocations for a node before it is linked: the node, its name, its prompt and its values.\<close>

definition param_allocs :: "key_mod_param \<Rightarrow> nat" where
  "param_allocs p = 3 + (if p_default_val p = None then 0 else 1)
     + (if p_suggested_val p = None then 0 else 1)"

text \<open>
  Where the next node is linked: into the transition that enters the subgraph, or into the
  first transition of the last node. Callbacks are wrapped by \<open>fn\<close>, so that the subgraph
  fits into graphs with other callbacks.
\<close>

datatype slot = Entry | Slot nat

fun link_next ::
  "slot \<Rightarrow> nat \<Rightarrow> 'f transition_node \<times> 'f graph \<Rightarrow> 'f transition_node \<times> 'f graph" where
  "link_next Entry m (tn, g) = (tn\<lparr>tn_next_token := Some m\<rparr>, g)"
| "link_next (Slot k) m (tn, g) = (tn, update_tn k 0 (\<lambda>t. t\<lparr>tn_next_token := Some m\<rparr>) g)"

definition default_tn :: "'f \<Rightarrow> 'f transition_node" where
  "default_tn f = zero_tn\<lparr>tn_val := Some (bytes_of_string ''default''), tn_trans_func := Some f\<rparr>"

fun build_params ::
  "(subgraph_fn \<Rightarrow> 'f) \<Rightarrow> nat \<Rightarrow> slot \<Rightarrow> key_mod_param list \<Rightarrow> 'f transition_node \<times> 'f graph \<Rightarrow> schedule
   \<Rightarrow> int \<times> slot \<times> ('f transition_node \<times> 'f graph) \<times> schedule" where
  "build_params fn b slot [] tg mem = (0, slot, tg, mem)"
| "build_params fn b slot (p # ps) tg mem =
     (case mallocs (param_allocs p) mem of
        (False, mem) \<Rightarrow> (- ENOMEM, slot, tg, mem)
      | (True, mem) \<Rightarrow>
          (case link_next slot b tg of (tn, g) \<Rightarrow>
             (case malloc_ok mem of
                (False, mem) \<Rightarrow> (- ENOMEM, Slot b, (tn, g(b \<mapsto> param_node_of p)), mem)
              | (True, mem) \<Rightarrow>
                  build_params fn (Suc b) (Slot b) ps
                    (tn, g(b \<mapsto> (param_node_of p)\<lparr>pn_tl := [default_tn (fn Linear_Subgraph_Val)]\<rparr>)) mem)))"

definition exit_dummy_node :: "'f param_node" where
  "exit_dummy_node = zero_pn\<lparr>
     pn_mnt_opt_names := [bytes_of_string ''linear_subgraph_exit_dummy_node''],
     pn_flags := PARAM_FLAG_NO_VALUE\<rparr>"

text \<open>
  \<open>ecryptfs_build_linear_subgraph\<close>: the status, \<open>*trans_node\<close>, and the graph with the new nodes
  from number \<open>b\<close> on. An empty parameter list sets the status to \<open>-EINVAL\<close>, which is overwritten
  right after.
\<close>

definition ecryptfs_build_linear_subgraph ::
  "(subgraph_fn \<Rightarrow> 'f) \<Rightarrow> nat \<Rightarrow> 'tn ecryptfs_key_mod \<Rightarrow> 'f graph \<Rightarrow> schedule
   \<Rightarrow> (int \<times> 'f transition_node option \<times> 'f graph \<times> schedule) option" where
  "ecryptfs_build_linear_subgraph fn b key_mod g mem = do {
     get_params \<leftarrow> op_get_params (km_ops key_mod);
     (case get_params () of (rc, params) \<Rightarrow>
        if rc \<noteq> 0 then Some (rc, None, g, mem)
        else (case malloc_ok mem of
           (False, mem) \<Rightarrow> Some (- ENOMEM, None, g, mem)
         | (True, mem) \<Rightarrow>
             let name = Some (bytes_of_string (case km_alias key_mod of None \<Rightarrow> ''(null)'' | Some a \<Rightarrow> a)) in
             (case malloc_ok mem of
                (False, mem) \<Rightarrow> Some (- ENOMEM, Some zero_tn, g, mem)
              | (True, mem) \<Rightarrow>
             (case malloc_ok mem of
                (False, mem) \<Rightarrow> Some (- ENOMEM, Some (zero_tn\<lparr>tn_val := name\<rparr>), g, mem)
              | (True, mem) \<Rightarrow>
                  let tn = zero_tn\<lparr>tn_val := name, tn_pretty_val := name,
                                   tn_trans_func := Some (fn Enter_Linear_Subgraph)\<rparr> in
                  (case build_params fn b Entry params (tn, g) mem of
                     (rc, slot, (tn, g), mem) \<Rightarrow>
                       if rc \<noteq> 0 then Some (rc, Some tn, g, mem)
                       else (case mallocs 2 mem of
                          (False, mem) \<Rightarrow> Some (- ENOMEM, Some tn, g, mem)
                        | (True, mem) \<Rightarrow>
                            let e = b + length params in
                            (case link_next slot e (tn, g) of (tn, g) \<Rightarrow>
                               (case malloc_ok mem of
                                  (False, mem) \<Rightarrow> Some (- ENOMEM, Some tn, g(e \<mapsto> exit_dummy_node), mem)
                                | (True, mem) \<Rightarrow> Some (0, Some tn,
                                    g(e \<mapsto> exit_dummy_node\<lparr>pn_tl := [default_tn (fn Exit_Linear_Subgraph)]\<rparr>),
                                    mem))))))))) }"

subsection \<open>Shape of the subgraph\<close>

definition lin_node :: "(subgraph_fn \<Rightarrow> 'f) \<Rightarrow> key_mod_param \<Rightarrow> nat \<Rightarrow> 'f param_node" where
  "lin_node fn p m = (param_node_of p)\<lparr>pn_tl :=
     [(default_tn (fn Linear_Subgraph_Val))\<lparr>tn_next_token := Some m\<rparr>]\<rparr>"

fun chain :: "(subgraph_fn \<Rightarrow> 'f) \<Rightarrow> 'f graph \<Rightarrow> nat \<Rightarrow> key_mod_param list \<Rightarrow> bool" where
  "chain fn g b [] \<longleftrightarrow> True"
| "chain fn g b (p # ps) \<longleftrightarrow> g b = Some (lin_node fn p (Suc b)) \<and> chain fn g (Suc b) ps"

lemma chain_cong: "\<forall>k. b \<le> k \<and> k < b + length ps \<longrightarrow> g k = h k \<Longrightarrow> chain fn g b ps = chain fn h b ps"
  by (induction ps arbitrary: b) auto

lemma chain_upd: "k < b \<or> b + length ps \<le> k \<Longrightarrow> chain fn (g(k := x)) b ps = chain fn g b ps"
  by (rule chain_cong) auto

fun slot_below :: "nat \<Rightarrow> slot \<Rightarrow> bool" where
  "slot_below b Entry \<longleftrightarrow> True"
| "slot_below b (Slot k) \<longleftrightarrow> k < b"

lemma link_next_other:
  "slot_below b slot \<Longrightarrow> b \<le> k \<Longrightarrow> snd (link_next slot m tg) k = snd tg k"
  by (cases slot; cases tg) (auto simp: update_tn_def split: option.splits)

text \<open>
  Closing what \<open>build_params\<close> built gives the chain; below it the graph is the old one with
  the first node linked in.
\<close>

lemma build_params_chain:
  assumes "slot_below b slot" and "build_params fn b slot ps tg [] = (rc, slot', tg', mem')"
  shows "rc = 0 \<and> mem' = [] \<and> slot_below (b + length ps) slot'
    \<and> chain fn (snd (link_next slot' (b + length ps) tg')) b ps
    \<and> fst (link_next slot' (b + length ps) tg') = fst (link_next slot b tg)
    \<and> (\<forall>k. k < b \<or> b + length ps \<le> k \<longrightarrow>
        snd (link_next slot' (b + length ps) tg') k = snd (link_next slot b tg) k)"
  using assms
proof (induction ps arbitrary: b slot tg)
  case (Cons p ps)
  obtain tn g where l: "link_next slot b tg = (tn, g)" by fastforce
  let ?n = "(param_node_of p)\<lparr>pn_tl := [default_tn (fn Linear_Subgraph_Val)]\<rparr>"
  have r: "build_params fn (Suc b) (Slot b) ps (tn, g(b \<mapsto> ?n)) [] = (rc, slot', tg', mem')"
    using Cons.prems(2) l by simp
  let ?l = "link_next slot' (Suc b + length ps) tg'"
  note IH = Cons.IH [of "Suc b" "Slot b", OF _ r, simplified]
  have first: "link_next (Slot b) (Suc b) (tn, g(b \<mapsto> ?n)) = (tn, g(b \<mapsto> lin_node fn p (Suc b)))"
    by (simp add: update_tn_def lin_node_def)
  have at: "snd ?l k = (g(b \<mapsto> lin_node fn p (Suc b))) k" if "k \<le> b \<or> Suc b + length ps \<le> k" for k
    using IH first that by (auto simp: less_Suc_eq_le)
  show ?case using IH first at [of b] at l by (auto simp: less_Suc_eq_le)
qed auto

lemma build_linear_subgraph_shape:
  assumes "op_get_params (km_ops km) = Some get_params" and "get_params () = (0, ps)"
  obtains tn g' where "ecryptfs_build_linear_subgraph fn b km g [] = Some (0, Some tn, g', [])"
    and "tn_next_token tn = Some b" and "tn_trans_func tn = Some (fn Enter_Linear_Subgraph)"
    and "\<And>a. km_alias km = Some a \<Longrightarrow> tn_val tn = Some (bytes_of_string a)"
    and "chain fn g' b ps"
    and "g' (b + length ps) = Some (exit_dummy_node\<lparr>pn_tl := [default_tn (fn Exit_Linear_Subgraph)]\<rparr>)"
    and "\<And>k. k < b \<or> b + length ps < k \<Longrightarrow> g' k = g k"
proof -
  let ?name = "Some (bytes_of_string (case km_alias km of None \<Rightarrow> ''(null)'' | Some a \<Rightarrow> a))"
  let ?tn = "zero_tn\<lparr>tn_val := ?name, tn_pretty_val := ?name,
               tn_trans_func := Some (fn Enter_Linear_Subgraph)\<rparr>"
  let ?e = "b + length ps"
  obtain rc slot tg mem where r: "build_params fn b Entry ps (?tn, g) [] = (rc, slot, tg, mem)"
    by (metis prod_cases4)
  note B = build_params_chain [OF _ r, simplified]
  obtain tn g1 where l: "link_next slot ?e tg = (tn, g1)" by fastforce
  obtain tn0 g0 where tg: "tg = (tn0, g0)" by fastforce
  let ?g' = "g1(?e \<mapsto> exit_dummy_node\<lparr>pn_tl := [default_tn (fn Exit_Linear_Subgraph)]\<rparr>)"
  show thesis
  proof (rule that)
    show "ecryptfs_build_linear_subgraph fn b km g [] = Some (0, Some tn, ?g', [])"
      using assms r B l tg by (simp add: ecryptfs_build_linear_subgraph_def Let_def)
    show "chain fn ?g' b ps" using B l by (simp add: chain_upd)
  qed (use B l in \<open>auto simp: zero_tn_def\<close>)
qed

subsection \<open>The values the options give\<close>

fun mark_first :: "byte list \<Rightarrow> nv_list \<Rightarrow> nv_list" where
  "mark_first a [] = []"
| "mark_first a (p # ps) = (if unused a p then mark_used p # ps else p # mark_first a ps)"

lemma consume_nvp_eq:
  "names_live nvps \<Longrightarrow> consume_nvp a nvps
     = Some (map_option (\<lambda>p. (nv_value p, mark_first a nvps)) (List.find (unused a) nvps))"
  by (induction nvps) (auto simp: unused_def mark_used_def split: option.splits)

lemma unused_other: "nv_name p = Live a \<Longrightarrow> a \<noteq> b \<Longrightarrow> \<not> unused b p"
  by (simp add: unused_def)

lemma find_mark_first: "a \<noteq> b \<Longrightarrow> List.find (unused b) (mark_first a nvps) = List.find (unused b) nvps"
  by (induction nvps) (auto simp: unused_def)

lemma mark_first_names:
  "map nv_name (mark_first a nvps) = map nv_name nvps"
  "map nv_value (mark_first a nvps) = map nv_value nvps"
  by (induction nvps) auto

lemma mark_first_name_set:
  "nv_name ` set (mark_first a nvps) = nv_name ` set nvps"
  "nv_value ` set (mark_first a nvps) = nv_value ` set nvps"
  using mark_first_names [of a nvps] by (metis list.set_map)+

lemma mark_first_none: "List.find (unused a) nvps = None \<Longrightarrow> mark_first a nvps = nvps"
  by (induction nvps) (auto split: if_splits)

text \<open>
  The value of a parameter: of the first option with its name that is not taken, or its
  default. An option without a value, or with the text \<open>(null)\<close>, counts as given and gives no
  value; the default \<open>NULL\<close> gives none either.
\<close>

definition param_value :: "nv_list \<Rightarrow> key_mod_param \<Rightarrow> byte list option" where
  "param_value nvps p =
     (case List.find (unused (bytes_of_string (p_option p))) nvps of
        Some q \<Rightarrow> (case nv_value q of
           Live v \<Rightarrow> if v = bytes_of_string ''(null)'' then None else Some v
         | _ \<Rightarrow> None)
      | None \<Rightarrow> (case p_default_val p of
           None \<Rightarrow> None
         | Some d \<Rightarrow> if d = ''NULL'' then None else Some (bytes_of_string d)))"

definition param_values :: "nv_list \<Rightarrow> key_mod_param list \<Rightarrow> byte list list" where
  "param_values nvps ps = List.map_filter (param_value nvps) ps"

lemma param_values_simps [simp]:
  "param_values nvps [] = []"
  "param_values nvps (p # ps)
     = (case param_value nvps p of None \<Rightarrow> [] | Some v \<Rightarrow> [v]) @ param_values nvps ps"
  by (auto simp: param_values_def map_filter_simps split: option.splits)

lemma param_values_mark_first:
  assumes "\<forall>q \<in> set ps. p_option q \<noteq> a"
  shows "param_values (mark_first (bytes_of_string a) nvps) ps = param_values nvps ps"
  using assms by (induction ps) (auto simp: param_value_def find_mark_first)

subsection \<open>Evaluating the subgraph\<close>

text \<open>Options the subgraph reads: every name and value is a valid pointer, and none has the
  name of a transition or node of the subgraph itself.\<close>

definition options_ok :: "nv_list \<Rightarrow> bool" where
  "options_ok nvps \<longleftrightarrow> names_live nvps \<and> Dangling \<notin> nv_value ` set nvps
     \<and> Live (bytes_of_string ''default'') \<notin> nv_name ` set nvps
     \<and> Live (bytes_of_string ''linear_subgraph_exit_dummy_node'') \<notin> nv_name ` set nvps"

lemma names_live_image: "names_live nvps \<longleftrightarrow> (\<forall>x \<in> nv_name ` set nvps. \<exists>n. x = Live n)"
  by (auto simp: names_live_def)

lemma options_ok_mark_first [simp]: "options_ok (mark_first a nvps) = options_ok nvps"
  by (simp add: options_ok_def names_live_image mark_first_name_set)

lemma map_flags_plain:
  "f AND 1 = 0 \<Longrightarrow> \<not> has_flag (ecryptfs_map_flags 0 x) f"
  by (simp add: ecryptfs_map_flags_def has_flag_def and.commute)

lemma lin_node_simps [simp]:
  "pn_mnt_opt_names (lin_node fn p m) = [bytes_of_string (p_option p)]"
  "pn_val (lin_node fn p m) = None"
  "pn_default_val (lin_node fn p m) = map_option bytes_of_string (p_default_val p)"
  "pn_flags (lin_node fn p m) = ecryptfs_map_flags 0 (p_flags p)"
  "pn_tl (lin_node fn p m) = [(default_tn (fn Linear_Subgraph_Val))\<lparr>tn_next_token := Some m\<rparr>]"
  by (simp_all add: lin_node_def param_node_of_def zero_pn_def)

lemma default_tn_simps [simp]:
  "tn_val (default_tn f) = Some (bytes_of_string ''default'')"
  "tn_trans_func (default_tn f) = Some f" "tn_next_token (default_tn f) = None"
  by (simp_all add: default_tn_def zero_tn_def)

lemma retrieve_lin_node:
  assumes "es_graph st b = Some (lin_node fn p m)" and "options_ok (es_nvps st)" and "es_mem st = []"
  obtains got fl where "retrieve_val b st = Some (0, got, st\<lparr>
      es_nvps := mark_first (bytes_of_string (p_option p)) (es_nvps st),
      es_graph := (es_graph st)(b \<mapsto> (lin_node fn p m)\<lparr>
        pn_val := param_value (es_nvps st) p, pn_flags := ecryptfs_map_flags 0 (p_flags p) OR fl\<rparr>)\<rparr>)"
    and "fl = 0 \<or> fl = PARAMETER_SET"
proof -
  let ?a = "bytes_of_string (p_option p)" and ?n = "lin_node fn p m"
  have c: "consume_nvp ?a (es_nvps st)
      = Some (map_option (\<lambda>q. (nv_value q, mark_first ?a (es_nvps st))) (List.find (unused ?a) (es_nvps st)))"
    using assms(2) by (simp add: consume_nvp_eq options_ok_def)
  have same: "?n\<lparr>pn_val := None, pn_flags := ecryptfs_map_flags 0 (p_flags p)\<rparr> = ?n"
    by (simp add: lin_node_def param_node_of_def zero_pn_def)
  have nf: "n\<lparr>pn_val := v, pn_flags := pn_flags n\<rparr> = n\<lparr>pn_val := v\<rparr>" for n :: "'a param_node" and v
    by simp
  show thesis
  proof (cases "List.find (unused ?a) (es_nvps st)")
    case None
    show thesis
    proof (rule that [of "param_value (es_nvps st) p \<noteq> None" 0])
      show "retrieve_val b st = Some (0, param_value (es_nvps st) p \<noteq> None, st\<lparr>
          es_nvps := mark_first ?a (es_nvps st),
          es_graph := (es_graph st)(b \<mapsto> ?n\<lparr>pn_val := param_value (es_nvps st) p,
            pn_flags := ecryptfs_map_flags 0 (p_flags p) OR 0\<rparr>)\<rparr>)"
        using None c assms same mark_first_none [OF None] nf [of ?n]
        by (cases st; cases "p_default_val p")
          (auto simp: retrieve_val_def param_value_def es_defs fun_upd_idem)
    qed simp
  next
    case (Some q)
    have "q \<in> set (es_nvps st)" using Some by (auto simp: find_split)
    then have "nv_value q \<noteq> Dangling" using assms(2) by (force simp: options_ok_def)
    then have "retrieve_val b st = Some (0, True, st\<lparr>
        es_nvps := mark_first ?a (es_nvps st),
        es_graph := (es_graph st)(b \<mapsto> ?n\<lparr>pn_val := param_value (es_nvps st) p,
          pn_flags := ecryptfs_map_flags 0 (p_flags p)
            OR (if param_value (es_nvps st) p = None then PARAMETER_SET else 0)\<rparr>)\<rparr>)"
      using c assms Some
      by (cases st; cases "nv_value q")
        (auto simp: retrieve_val_def param_value_def es_defs Let_def lin_node_def param_node_of_def zero_pn_def)
    then show thesis by (rule that) simp
  qed
qed

lemma alloc_lin_node:
  assumes "es_graph st b = Some (lin_node fn p m)" and "options_ok (es_nvps st)" and "es_mem st = []"
    and "es_verbosity st = 0"
  obtains fl where "alloc_and_get_val b st = Some (0, st\<lparr>
      es_nvps := mark_first (bytes_of_string (p_option p)) (es_nvps st),
      es_graph := (es_graph st)(b \<mapsto> (lin_node fn p m)\<lparr>
        pn_val := param_value (es_nvps st) p, pn_flags := fl\<rparr>)\<rparr>)"
proof -
  obtain got fl where r: "retrieve_val b st = Some (0, got, st\<lparr>
      es_nvps := mark_first (bytes_of_string (p_option p)) (es_nvps st),
      es_graph := (es_graph st)(b \<mapsto> (lin_node fn p m)\<lparr>
        pn_val := param_value (es_nvps st) p, pn_flags := ecryptfs_map_flags 0 (p_flags p) OR fl\<rparr>)\<rparr>)"
    and fl: "fl = 0 \<or> fl = PARAMETER_SET"
    using assms(1-3) by (rule retrieve_lin_node)
  have f: "\<not> has_flag fl ALLOW_IMPLICIT_TRANSITION" "\<not> has_flag fl PARAM_FLAG_NO_VALUE"
    "\<not> has_flag fl STDIN_REQUIRED"
    using fl by (auto simp: has_flag_def)
  show thesis
    by (rule that [of "ecryptfs_map_flags 0 (p_flags p) OR fl"])
      (use assms(1,4) r f in \<open>simp add: alloc_and_get_val_def map_flags_plain\<close>)
qed

text \<open>
  The interface between the subgraph and the graph it is part of: its three callbacks are
  reached through \<open>fn\<close>.
\<close>

locale linear_calls =
  fixes call :: "('f, sg_ptr, ('tn, 'k) lib_ctx) calls"
    and fn :: "subgraph_fn \<Rightarrow> 'f" and junk :: "nat \<Rightarrow> byte" and kr :: "'k keyring"
  assumes call_fn: "call (fn f) cur st = subgraph_call junk kr f cur st"
begin

lemma lin_step:
  assumes "es_graph st b = Some (lin_node fn p m)" and "options_ok (es_nvps st)" and "es_mem st = []"
    and "es_verbosity st = 0" and "es_foo st = Some (Sg_Live c)"
  obtains n r where "\<And>fuel. eval_loop call (Suc fuel) b st = eval_loop call fuel m
     (st\<lparr>es_nvps := mark_first (bytes_of_string (p_option p)) (es_nvps st),
         es_graph := (es_graph st)(b \<mapsto> n), es_repeated := r, es_lastnode := Some b,
         es_foo := Some (Sg_Live (c\<lparr>sg_vals := sg_vals c
           @ (case param_value (es_nvps st) p of None \<Rightarrow> [] | Some v \<Rightarrow> [v])\<rparr>))\<rparr>)"
proof -
  obtain fl where a: "alloc_and_get_val b st = Some (0, st\<lparr>
      es_nvps := mark_first (bytes_of_string (p_option p)) (es_nvps st),
      es_graph := (es_graph st)(b \<mapsto> (lin_node fn p m)\<lparr>
        pn_val := param_value (es_nvps st) p, pn_flags := fl\<rparr>)\<rparr>)" (is "_ = Some (0, ?st)")
    using assms(1-4) by (rule alloc_lin_node)
  let ?n = "(lin_node fn p m)\<lparr>pn_val := param_value (es_nvps st) p, pn_flags := fl\<rparr>"
  define r where "r = (if es_lastnode st = Some b then es_repeated st else 0)"
  define st1 where "st1 = ?st\<lparr>es_repeated := r, es_lastnode := Some b\<rparr>"
  define st2 where "st2 = st1\<lparr>es_foo := Some (Sg_Live (c\<lparr>sg_vals := sg_vals c
           @ (case param_value (es_nvps st) p of None \<Rightarrow> [] | Some v \<Rightarrow> [v])\<rparr>))\<rparr>"
  have ok: "options_ok (es_nvps ?st)" using assms(2) by simp
  have v: "subgraph_call junk kr Linear_Subgraph_Val b st1 = Some (0, st2)"
    using assms(3,5)
    by (cases st) (simp add: ecryptfs_linear_subgraph_val_tf_def st1_def st2_def split: option.split)
  have "do_transition call b ?st = Some ((0, Some m), st2)"
    by (rule do_transition_default [where n = ?n and ?n' = ?n and f = "fn Linear_Subgraph_Val" and ?st1.0 = st1
        and tn = "(default_tn (fn Linear_Subgraph_Val))\<lparr>tn_next_token := Some m\<rparr>" and tok = 0
        and tn' = "(default_tn (fn Linear_Subgraph_Val))\<lparr>tn_next_token := Some m\<rparr>"])
      (use ok v in \<open>simp_all add: options_ok_def st1_def st2_def r_def call_fn\<close>)
  then have "eval_loop call (Suc fuel) b st = eval_loop call fuel m st2" for fuel
    using a by simp
  then show thesis
    by (intro that [where n = ?n and r = r]) (simp add: st2_def st1_def)
qed

text \<open>The nodes of the parameters collect exactly the values the options give, in order.\<close>

lemma chain_collects:
  assumes "chain fn (es_graph st) b ps" and "options_ok (es_nvps st)" and "es_mem st = []"
    and "es_verbosity st = 0" and "es_foo st = Some (Sg_Live c)" and "distinct (map p_option ps)"
  shows "\<exists>st'. (\<forall>fuel. eval_loop call (length ps + fuel) b st = eval_loop call fuel (b + length ps) st')
    \<and> es_foo st' = Some (Sg_Live (c\<lparr>sg_vals := sg_vals c @ param_values (es_nvps st) ps\<rparr>))
    \<and> (\<forall>k. k < b \<or> b + length ps \<le> k \<longrightarrow> es_graph st' k = es_graph st k)
    \<and> options_ok (es_nvps st') \<and> es_mem st' = [] \<and> es_verbosity st' = 0
    \<and> es_ctx st' = es_ctx st \<and> es_mnt_params st' = es_mnt_params st"
  using assms
proof (induction ps arbitrary: b st c)
  case Nil
  then show ?case by (intro exI [of _ st]) auto
next
  case (Cons p ps)
  let ?a = "bytes_of_string (p_option p)"
  let ?c = "c\<lparr>sg_vals := sg_vals c @ (case param_value (es_nvps st) p of None \<Rightarrow> [] | Some v \<Rightarrow> [v])\<rparr>"
  have n: "es_graph st b = Some (lin_node fn p (Suc b))" using Cons.prems(1) by simp
  obtain n r where 1: "\<And>fuel. eval_loop call (Suc fuel) b st = eval_loop call fuel (Suc b)
     (st\<lparr>es_nvps := mark_first ?a (es_nvps st), es_graph := (es_graph st)(b \<mapsto> n),
         es_repeated := r, es_lastnode := Some b, es_foo := Some (Sg_Live ?c)\<rparr>)"
    using n Cons.prems(2-5) by (rule lin_step) blast
  let ?st = "st\<lparr>es_nvps := mark_first ?a (es_nvps st), es_graph := (es_graph st)(b \<mapsto> n),
         es_repeated := r, es_lastnode := Some b, es_foo := Some (Sg_Live ?c)\<rparr>"
  have ch: "chain fn (es_graph ?st) (Suc b) ps" using Cons.prems(1) by (simp add: chain_upd)
  have pv: "param_values (es_nvps ?st) ps = param_values (es_nvps st) ps"
  proof -
    have "p_option p \<notin> p_option ` set ps" using Cons.prems(6) by simp
    then have "\<forall>q \<in> set ps. p_option q \<noteq> p_option p" by (metis imageI)
    then show ?thesis by (simp add: param_values_mark_first)
  qed
  obtain st' where 2: "\<forall>fuel. eval_loop call (length ps + fuel) (Suc b) ?st = eval_loop call fuel (Suc b + length ps) st'"
    "es_foo st' = Some (Sg_Live (?c\<lparr>sg_vals := sg_vals ?c @ param_values (es_nvps ?st) ps\<rparr>))"
    "\<forall>k. k < Suc b \<or> Suc b + length ps \<le> k \<longrightarrow> es_graph st' k = es_graph ?st k"
    "options_ok (es_nvps st')" "es_mem st' = []" "es_verbosity st' = 0"
    "es_ctx st' = es_ctx ?st" "es_mnt_params st' = es_mnt_params ?st"
    using Cons.IH [of ?st "Suc b" ?c, OF ch] Cons.prems(2-6) by auto
  have foo: "es_foo st' = Some (Sg_Live (c\<lparr>sg_vals := sg_vals c @ param_values (es_nvps st) (p # ps)\<rparr>))"
    using 2(2) pv by simp
  have gr: "\<forall>k. k < b \<or> b + length (p # ps) \<le> k \<longrightarrow> es_graph st' k = es_graph st k"
    using 2(3) by auto
  have ev: "\<forall>fuel. eval_loop call (length (p # ps) + fuel) b st = eval_loop call fuel (b + length (p # ps)) st'"
    using 1 2(1) by simp
  show ?case using ev foo gr 2(4-) by (intro exI [of _ st']) simp
qed

lemma exit_step:
  assumes "es_graph st b = Some (exit_dummy_node\<lparr>pn_tl := [exit_tn e (default_tn (fn Exit_Linear_Subgraph))]\<rparr>)"
    and "options_ok (es_nvps st)" and "es_mem st = []"
    and "es_foo st = Some (Sg_Live c)" and "sg_key_mod c < length (lc_key_mods (es_ctx st))" and "sg_vals c \<noteq> []"
    and "m = (lc_key_mods (es_ctx st) ! sg_key_mod c)\<lparr>km_param_vals := map (\<lambda>v. Some (string_of_bytes v)) (sg_vals c)\<rparr>"
    and "ecryptfs_add_key_module_key_to_keyring junk kr (lc_keys (es_ctx st)) m
           (fresh junk (SIG_SIZE_HEX + 1)) [] = Some (Returned (rc, sig, keys, []))"
    and "0 \<le> rc" and "c_string sig = Some s"
  shows "\<exists>st'. (\<forall>fuel. eval_loop call (Suc fuel) b st = eval_loop call fuel e st')
    \<and> es_mnt_params st' = Some (bytes_of_string ''ecryptfs_sig='' @ s) # es_mnt_params st
    \<and> lc_keys (es_ctx st') = keys
    \<and> lc_key_mods (es_ctx st') = (lc_key_mods (es_ctx st))[sg_key_mod c := m]"
proof -
  let ?n = "exit_dummy_node\<lparr>pn_tl := [exit_tn e (default_tn (fn Exit_Linear_Subgraph))]\<rparr> :: 'f param_node"
  have "\<forall>q \<in> set (es_nvps st). \<not> unused (bytes_of_string ''linear_subgraph_exit_dummy_node'') q"
    using assms(2) by (force simp: options_ok_def unused_def)
  then have "retrieve_names [bytes_of_string ''linear_subgraph_exit_dummy_node''] (es_nvps st) = Some None"
    using assms(2) by (simp add: consume_nvp_missing options_ok_def)
  then have "retrieve_val b st = Some (0, False, st)"
    using assms(1) by (simp add: retrieve_val_def exit_dummy_node_def zero_pn_def)
  then have a: "alloc_and_get_val b st = Some (0, st)"
    using assms(1) by (simp add: alloc_and_get_val_def exit_dummy_node_def zero_pn_def has_flag_def)
  define st1 where "st1 = st\<lparr>es_repeated := (if es_lastnode st = Some b then es_repeated st else 0),
                 es_lastnode := Some b\<rparr>"
  define ctx where "ctx = es_ctx st"
  define st2 where "st2 = st1\<lparr>es_foo := Some Sg_Freed,
     es_ctx := ctx\<lparr>lc_num_param_vals := (lc_num_param_vals ctx)(sg_key_mod c := length (sg_vals c)),
       lc_key_mods := (lc_key_mods ctx)[sg_key_mod c := m], lc_keys := keys\<rparr>,
     es_mnt_params := Some (bytes_of_string ''ecryptfs_sig='' @ s) # es_mnt_params st\<rparr>"
  have v: "subgraph_call junk kr Exit_Linear_Subgraph b st1 = Some (0, st2)"
    using assms(3-) by (cases st)
      (simp add: ecryptfs_exit_linear_subgraph_tf_def add_module_key_def push_sig_opt_def st1_def st2_def
        ctx_def Let_def stack_push_def)
  have t: "do_transition call b st = Some ((0, Some e), st2)"
    by (rule do_transition_default [where n = ?n and ?n' = ?n and f = "fn Exit_Linear_Subgraph" and ?st1.0 = st1
        and tn = "exit_tn e (default_tn (fn Exit_Linear_Subgraph))" and tok = 0
        and tn' = "exit_tn e (default_tn (fn Exit_Linear_Subgraph))"])
      (use assms(1,2) v in \<open>simp_all add: options_ok_def st1_def st2_def exit_tn_def call_fn\<close>)
  show ?thesis
    by (intro exI [of _ st2]) (use a t in \<open>simp add: st2_def st1_def ctx_def\<close>)
qed

lemma set_exit_on_subgraph:
  assumes "g k = Some (exit_dummy_node\<lparr>pn_tl := [default_tn (fn Exit_Linear_Subgraph)]\<rparr>)"
  shows "set_exit_param_node_for_node 0 k e False g
    = Some (Some (g(k \<mapsto> exit_dummy_node\<lparr>pn_tl := [exit_tn e (default_tn (fn Exit_Linear_Subgraph))]\<rparr>)))"
  unfolding set_exit_param_node_for_node_def slots_64
  using assms by (simp add: update_tn_def)

lemma subgraph_adds_key:
  assumes "op_get_params (km_ops km) = Some get_params" and "get_params () = (0, ps)"
    and "ecryptfs_build_linear_subgraph fn b km g [] = Some (0, Some tn, g1, [])"
    and "set_exit_param_node_for_node 0 (b + length ps) e False g1 = Some (Some (es_graph st))"
    and "distinct (map p_option ps)" and "options_ok (es_nvps st)" and "es_verbosity st = 0"
    and "es_mem st = []" and "es_foo st = Some (Sg_Live \<lparr>sg_key_mod = k, sg_vals = []\<rparr>)"
    and "k < length (lc_key_mods (es_ctx st))" and "param_values (es_nvps st) ps \<noteq> []"
    and "m = (lc_key_mods (es_ctx st) ! k)\<lparr>km_param_vals :=
           map (\<lambda>v. Some (string_of_bytes v)) (param_values (es_nvps st) ps)\<rparr>"
    and "ecryptfs_add_key_module_key_to_keyring junk kr (lc_keys (es_ctx st)) m
           (fresh junk (SIG_SIZE_HEX + 1)) [] = Some (Returned (rc, sig, keys, []))"
    and "0 \<le> rc" and "c_string sig = Some s"
  shows "\<exists>st'. (\<forall>fuel. eval_loop call (length ps + Suc fuel) b st = eval_loop call fuel e st')
    \<and> es_mnt_params st' = Some (bytes_of_string ''ecryptfs_sig='' @ s) # es_mnt_params st
    \<and> lc_keys (es_ctx st') = keys
    \<and> lc_key_mods (es_ctx st') = (lc_key_mods (es_ctx st))[k := m]"
proof -
  obtain tn' g' where b: "ecryptfs_build_linear_subgraph fn b km g [] = Some (0, Some tn', g', [])"
    and c: "chain fn g' b ps"
    and x: "g' (b + length ps) = Some (exit_dummy_node\<lparr>pn_tl := [default_tn (fn Exit_Linear_Subgraph)]\<rparr>)"
    by (rule build_linear_subgraph_shape [OF assms(1,2), of fn b g])
  have g: "es_graph st = g1(b + length ps \<mapsto>
      exit_dummy_node\<lparr>pn_tl := [exit_tn e (default_tn (fn Exit_Linear_Subgraph))]\<rparr>)"
    using set_exit_on_subgraph [of g' "b + length ps" e] x assms(3,4) b by simp
  have ch: "chain fn (es_graph st) b ps" using c assms(3) b by (simp add: g chain_upd)
  obtain st1 where 1: "\<forall>fuel. eval_loop call (length ps + fuel) b st = eval_loop call fuel (b + length ps) st1"
    "es_foo st1 = Some (Sg_Live \<lparr>sg_key_mod = k, sg_vals = param_values (es_nvps st) ps\<rparr>)"
    "es_graph st1 (b + length ps) = es_graph st (b + length ps)"
    "options_ok (es_nvps st1)" "es_mem st1 = []" "es_ctx st1 = es_ctx st" "es_mnt_params st1 = es_mnt_params st"
    using chain_collects [OF ch assms(6,8,7,9,5)] by auto
  have "\<exists>st'. (\<forall>fuel. eval_loop call (Suc fuel) (b + length ps) st1 = eval_loop call fuel e st')
    \<and> es_mnt_params st' = Some (bytes_of_string ''ecryptfs_sig='' @ s) # es_mnt_params st1
    \<and> lc_keys (es_ctx st') = keys
    \<and> lc_key_mods (es_ctx st') = (lc_key_mods (es_ctx st1))[k := m]"
    using exit_step [OF _ 1(4,5,2), where e = e and m = m and rc = rc and sig = sig and keys = keys and s = s]
      1(3,6) g assms(10-15) by simp
  then show ?thesis using 1(1,6,7) by metis
qed

end

interpretation subgraph: linear_calls "subgraph_call junk kr" "\<lambda>f. f" junk kr
  by unfold_locales simp

subsection \<open>What the callbacks leave alone\<close>

lemma enter_nvps: "ecryptfs_enter_linear_subgraph_tf cur st = Some (rc, st') \<Longrightarrow> es_nvps st' = es_nvps st"
proof -
  assume a: "ecryptfs_enter_linear_subgraph_tf cur st = Some (rc, st')"
  obtain ok st1 where 1: "es_malloc st = (ok, st1)" by fastforce
  obtain n where n: "es_graph st cur = Some n"
    using a by (auto simp: ecryptfs_enter_linear_subgraph_tf_def bind_eq_Some_conv)
  have "es_nvps st' = es_nvps st1"
    using a 1 n by (cases ok; cases "pn_val n")
      (auto simp: ecryptfs_enter_linear_subgraph_tf_def bind_eq_Some_conv Let_def split: if_splits)
  then show ?thesis using es_malloc_nvps [OF 1] by simp
qed

lemma val_nvps: "ecryptfs_linear_subgraph_val_tf cur st = Some (rc, st') \<Longrightarrow> es_nvps st' = es_nvps st"
proof -
  assume a: "ecryptfs_linear_subgraph_val_tf cur st = Some (rc, st')"
  obtain ok st1 where 1: "es_mallocs 2 st = (ok, st1)" by fastforce
  obtain n where n: "es_graph st cur = Some n"
    using a by (auto simp: ecryptfs_linear_subgraph_val_tf_def bind_eq_Some_conv)
  show ?thesis
    using a 1 n es_mallocs_nvps [OF 1] by (cases ok; cases "pn_val n")
      (auto simp: ecryptfs_linear_subgraph_val_tf_def split: option.splits sg_ptr.splits)
qed

lemma push_sig_opt_nvps: "push_sig_opt sig st = Some (rc, st') \<Longrightarrow> es_nvps st' = es_nvps st"
  by (auto simp: push_sig_opt_def bind_eq_Some_conv stack_push_def split: prod.splits bool.splits
      dest!: es_malloc_nvps)

lemma add_module_key_nvps: "add_module_key junk kr m st = Some (rc, st') \<Longrightarrow> es_nvps st' = es_nvps st"
proof -
  assume a: "add_module_key junk kr m st = Some (rc, st')"
  then obtain r where "ecryptfs_add_key_module_key_to_keyring junk kr (lc_keys (es_ctx st)) m
      (fresh junk (SIG_SIZE_HEX + 1)) (es_mem st) = Some r"
    by (auto simp: add_module_key_def bind_eq_Some_conv)
  then show ?thesis using a
    by (cases r) (auto simp: add_module_key_def Let_def split: if_splits prod.splits dest!: push_sig_opt_nvps)
qed

lemma exit_nvps:
  assumes "ecryptfs_exit_linear_subgraph_tf junk kr cur st = Some (rc, st')"
  shows "es_nvps st' = es_nvps st"
proof -
  obtain c where c: "es_foo st = Some (Sg_Live c)"
    using assms by (auto simp: ecryptfs_exit_linear_subgraph_tf_def split: option.splits sg_ptr.splits)
  then show ?thesis
    using assms
    by (auto simp: ecryptfs_exit_linear_subgraph_tf_def Let_def split: if_splits prod.splits bool.splits
        dest!: es_mallocs_nvps add_module_key_nvps)
qed

interpretation subgraph: option_keeping "subgraph_call junk kr"
proof
  show "es_nvps st' = es_nvps st" if "subgraph_call junk kr f k st = Some (rc, st')"
    for f k st rc and st' :: "(subgraph_fn, 'b, 'a) sg_state"
    using that by (cases f) (auto dest: enter_nvps val_nvps exit_nvps)
qed

subsection \<open>Properties of the generated subgraph\<close>

text \<open>
  C19. Evaluating the subgraph that \<open>ecryptfs_build_linear_subgraph\<close> generates for a key module,
  once its exit is set to the node \<open>e\<close> and with \<open>verbosity=0\<close>, takes one round per parameter and
  one more, and arrives at \<open>e\<close>: the node for the exit is the dummy node whose transition is set, so
  the subgraph has one node more than there are parameters, where the comment above the function
  speaks of two. The options have distinct names and there is at least one value. The module then holds, in the order of its parameter list, the
  values the options and defaults give; the keyring is what
  \<open>ecryptfs_add_key_module_key_to_keyring\<close> makes of these values; and the signature it returned is
  on top of the mount options as \<open>ecryptfs_sig=\<close>.
\<close>

theorem linear_subgraph_adds_key:
  assumes "op_get_params (km_ops km) = Some get_params" and "get_params () = (0, ps)"
    and "ecryptfs_build_linear_subgraph (\<lambda>f. f) b km g [] = Some (0, Some tn, g1, [])"
    and "set_exit_param_node_for_node 0 (b + length ps) e False g1 = Some (Some (es_graph st))"
    and "distinct (map p_option ps)" and "options_ok (es_nvps st)" and "es_verbosity st = 0"
    and "es_mem st = []" and "es_foo st = Some (Sg_Live \<lparr>sg_key_mod = k, sg_vals = []\<rparr>)"
    and "k < length (lc_key_mods (es_ctx st))" and "param_values (es_nvps st) ps \<noteq> []"
    and "m = (lc_key_mods (es_ctx st) ! k)\<lparr>km_param_vals :=
           map (\<lambda>v. Some (string_of_bytes v)) (param_values (es_nvps st) ps)\<rparr>"
    and "ecryptfs_add_key_module_key_to_keyring junk kr (lc_keys (es_ctx st)) m
           (fresh junk (SIG_SIZE_HEX + 1)) [] = Some (Returned (rc, sig, keys, []))"
    and "0 \<le> rc" and "c_string sig = Some s"
  shows "\<exists>st'. (\<forall>fuel. eval_loop (subgraph_call junk kr) (length ps + Suc fuel) b st
                     = eval_loop (subgraph_call junk kr) fuel e st')
    \<and> es_mnt_params st' = Some (bytes_of_string ''ecryptfs_sig='' @ s) # es_mnt_params st
    \<and> lc_keys (es_ctx st') = keys
    \<and> lc_key_mods (es_ctx st') = (lc_key_mods (es_ctx st))[k := m]"
  using assms by (rule subgraph.subgraph_adds_key)

definition sample_params :: "key_mod_param list" where
  "sample_params =
     [\<lparr>p_option = ''keyfile'', p_flags = 1, p_description = None, p_suggested_val = None, p_default_val = None\<rparr>,
      \<lparr>p_option = ''passwd'', p_flags = 0, p_description = Some ''Passphrase'', p_suggested_val = None,
       p_default_val = Some ''none''\<rparr>]"

definition sample_mod :: "unit ecryptfs_key_mod" where
  "sample_mod = new_key_mod (Some ''m'') None ((ecryptfs_passphrase_ops ())\<lparr>
     op_get_params := Some (\<lambda>_. (0, sample_params)),
     op_get_blob := Some (\<lambda>buf vals. (0, length vals, replicate (length vals) 7)),
     op_get_key_data := Some (\<lambda>buf blob. (0, 0, [])),
     op_get_key_sig := Some (\<lambda>blob. (0, replicate 16 48 @ [0]))\<rparr>)"

definition sample_keyring :: "byte list list keyring" where
  "sample_keyring = \<lparr>kr_search = (\<lambda>k s. if s \<in> set k then Inr 1 else Inl ENOKEY),
     kr_add = (\<lambda>k s tok. (Inr 1, s # k)), kr_unlink = (\<lambda>k n. (Inl ENOKEY, k))\<rparr>"

definition sample_subgraph :: "subgraph_fn graph" where
  "sample_subgraph =
     (case ecryptfs_build_linear_subgraph (\<lambda>f. f) 1 sample_mod Map.empty [] of
        Some (rc, tn, g, mem) \<Rightarrow>
          (case set_exit_param_node_for_node 0 3 0 False g of Some (Some g) \<Rightarrow> g | _ \<Rightarrow> Map.empty)
      | None \<Rightarrow> Map.empty)"

definition sample_sg_state :: "(subgraph_fn, unit, byte list list) sg_state" where
  "sample_sg_state = \<lparr>es_graph = sample_subgraph, es_nvps = [sample_pair ''keyfile'' ''/k''],
     es_mnt_params = [None], es_foo = Some (Sg_Live \<lparr>sg_key_mod = 0, sg_vals = []\<rparr>),
     es_ctx = \<lparr>lc_key_mods = [sample_mod], lc_num_param_vals = (\<lambda>_. 0), lc_keys = []\<rparr>,
     es_verbosity = 0, es_get_string = False, es_inputs = [], es_repeated = 0, es_lastnode = None,
     es_mem = []\<rparr>"

lemma sample_add_key:
  "ecryptfs_add_key_module_key_to_keyring (\<lambda>_. 0) sample_keyring [] (sample_mod\<lparr>km_param_vals := [Some a, Some b]\<rparr>)
     (fresh (\<lambda>_. 0) (SIG_SIZE_HEX + 1)) [] = Some (Returned (0, replicate 16 48 @ [0], [replicate 16 48], []))"
proof -
  have "c_string (replicate 16 48 @ [0]) = Some (replicate 16 48)" by (rule c_string_append) simp
  then show ?thesis
    by (simp add: ecryptfs_add_key_module_key_to_keyring_def sample_mod_def new_key_mod_def
        sample_keyring_def ecryptfs_generate_key_payload_def payload_blob_def payload_sig_def rd_bytes_def)
qed

lemma sample_values: "param_values [sample_pair ''keyfile'' ''/k''] sample_params
    = [bytes_of_string ''/k'', bytes_of_string ''none'']"
  by (simp add: sample_params_def param_value_def sample_pair_def zero_nv_def unused_def has_flag_def)

theorem linear_subgraph_adds_key_witness:
  "\<exists>st'. (\<forall>fuel. eval_loop (subgraph_call (\<lambda>_. 0) sample_keyring) (2 + Suc fuel) 1 sample_sg_state
                 = eval_loop (subgraph_call (\<lambda>_. 0) sample_keyring) fuel 0 st')
    \<and> es_mnt_params st' = [Some (bytes_of_string ''ecryptfs_sig='' @ replicate 16 48), None]
    \<and> lc_keys (es_ctx st') = [replicate 16 48]
    \<and> lc_key_mods (es_ctx st') = [sample_mod\<lparr>km_param_vals := [Some ''/k'', Some ''none'']\<rparr>]"
proof -
  have p: "op_get_params (km_ops sample_mod) = Some (\<lambda>_. (0, sample_params))" "length sample_params = 2"
    by (simp_all add: sample_mod_def new_key_mod_def sample_params_def)
  obtain tn g where b: "ecryptfs_build_linear_subgraph (\<lambda>f. f) 1 sample_mod Map.empty [] = Some (0, Some tn, g, [])"
    and x: "g (1 + length sample_params) = Some (exit_dummy_node\<lparr>pn_tl := [default_tn Exit_Linear_Subgraph]\<rparr>)"
    by (rule build_linear_subgraph_shape [OF p(1) refl, of "\<lambda>f. f" 1 Map.empty])
  have e: "set_exit_param_node_for_node 0 (1 + length sample_params) 0 False g = Some (Some sample_subgraph)"
    using subgraph.set_exit_on_subgraph [of g "1 + length sample_params" 0] x b p(2)
    by (simp add: sample_subgraph_def numeral_3_eq_3)
  have o: "options_ok [sample_pair ''keyfile'' ''/k'']"
    by (simp add: options_ok_def sample_pair_def zero_nv_def)
  have s: "c_string (replicate 16 48 @ [0]) = Some (replicate 16 48)" by (rule c_string_append) simp
  show ?thesis
    using linear_subgraph_adds_key [where km = sample_mod and b = 1 and g = Map.empty and tn = tn and ?g1.0 = g
        and e = 0 and st = sample_sg_state and k = 0 and junk = "\<lambda>_. 0" and kr = sample_keyring and rc = 0
        and sig = "replicate 16 48 @ [0]" and s = "replicate 16 48" and keys = "[replicate 16 48]"
        and m = "sample_mod\<lparr>km_param_vals := [Some ''/k'', Some ''none'']\<rparr>", OF p(1) refl b]
      e o s p(2) sample_values sample_add_key
    by (simp add: sample_sg_state_def) (simp add: sample_params_def)
qed

end
