(* ===== verification/Passphrase_Mod.thy ===== *)
theory Passphrase_Mod
  imports Linear_Subgraph
begin

text \<open>
  The graph of the built-in passphrase module, from
  \<open>src/key_mod/ecryptfs_key_mod_passphrase.c\<close>: where the passphrase comes from (an option, a
  file, a file descriptor), its salt, and the callbacks that push the passphrase, read it from
  a file, and turn passphrase and salt into a key.

  Files are opened through a parameter; a descriptor that is not open is a file whose
  \<open>fstat\<close> fails.
\<close>

abbreviation (input) EFAULT :: int where "EFAULT \<equiv> 14"

datatype pass_fn = Tf_Passwd | Tf_Pass_File | Tf_Salt

text \<open>What the callbacks use of the system.\<close>

record 'k pass_env =
  pe_open :: "string \<Rightarrow> int + open_file"
  pe_fd :: "int \<Rightarrow> open_file"
  pe_hash :: hash
  pe_keyring :: "'k keyring"

subsection \<open>Numbers in any base\<close>

text \<open>\<open>strtol\<close> with base 0: the base is 16 after \<open>0x\<close>, 8 after \<open>0\<close>, and 10 otherwise.\<close>

definition c_strtol_any :: "byte list \<Rightarrow> int" where
  "c_strtol_any s =
     (let t = dropWhile c_isspace s;
          t = (case t of b # bs \<Rightarrow> if b = 45 \<or> b = 43 then bs else t | [] \<Rightarrow> []);
          base = (case t of
             z # x # _ \<Rightarrow> if z = 48 \<and> (x = 120 \<or> x = 88) then 16 else if z = 48 then 8 else 10
           | [z] \<Rightarrow> if z = 48 then 8 else 10
           | [] \<Rightarrow> 10)
      in c_strtol base s)"

subsection \<open>Callbacks\<close>

definition push_param ::
  "byte list option \<Rightarrow> ('f, 'foo, 's) eval_state \<Rightarrow> int \<times> ('f, 'foo, 's) eval_state" where
  "push_param v st =
     (case stack_push v (es_mnt_params st) (es_mem st) of
        (rc, params, mem) \<Rightarrow> (rc, st\<lparr>es_mnt_params := params, es_mem := mem\<rparr>))"

definition tf_passwd ::
  "nat \<Rightarrow> ('f, 'foo, 's) eval_state \<Rightarrow> (int \<times> ('f, 'foo, 's) eval_state) option" where
  "tf_passwd cur st = do {
     n \<leftarrow> es_graph st cur;
     if pn_val n = None then Some (- EINVAL, st)
     else (case push_param (pn_val n) st of
        (rc, st) \<Rightarrow>
          if rc \<noteq> 0 then Some (rc, st)
          else Some (DEFAULT_TOK, set_node cur (n\<lparr>pn_val := None\<rparr>) st)) }"

text \<open>The first \<open>passphrase_passwd\<close> or \<open>passwd\<close> of a list.\<close>

fun find_passwd :: "nv_list \<Rightarrow> heap_ptr option option" where
  "find_passwd [] = Some None"
| "find_passwd (p # ps) =
     (case nv_name p of
        Live n \<Rightarrow>
          if n = bytes_of_string ''passphrase_passwd'' \<or> n = bytes_of_string ''passwd''
          then Some (Some (nv_value p)) else find_passwd ps
      | _ \<Rightarrow> None)"

text \<open>
  The file is read as an option list. The value of the node is freed on every path, and the
  status of a success is 0.
\<close>

definition tf_pass_file ::
  "(nat \<Rightarrow> byte) \<Rightarrow> 'k pass_env \<Rightarrow> nat \<Rightarrow> ('f, 'foo, 's) eval_state
   \<Rightarrow> (int \<times> ('f, 'foo, 's) eval_state) option" where
  "tf_pass_file junk env cur st = do {
     n \<leftarrow> es_graph st cur;
     let done = (\<lambda>rc st. Some (rc, set_node cur (n\<lparr>pn_val := None\<rparr>) st));
     (case es_malloc st of
        (False, st) \<Rightarrow> done (- ENOMEM) st
      | (True, st) \<Rightarrow> do {
          name \<leftarrow> (case pn_mnt_opt_names n of [] \<Rightarrow> None | s # _ \<Rightarrow> Some s);
          fd \<leftarrow> (if name = bytes_of_string ''passphrase_passwd_file'' then
                  Some (case pn_val n of
                     None \<Rightarrow> Inl (- EFAULT)
                   | Some v \<Rightarrow> (case pe_open env (string_of_bytes v) of Inl e \<Rightarrow> Inl (- e) | Inr f \<Rightarrow> Inr f))
                else if name = bytes_of_string ''passphrase_passwd_fd'' then
                  map_option (\<lambda>v. Inr (pe_fd env (sint (word_of_int (c_strtol_any v) :: u32)))) (pn_val n)
                else Some (Inl MOUNT_ERROR));
          (case fd of
             Inl rc \<Rightarrow> done rc st
           | Inr f \<Rightarrow> do {
               (rc, nvps, mem) \<leftarrow> parse_options_file junk f [] (es_mem st);
               let st = st\<lparr>es_mem := mem\<rparr>;
               if rc \<noteq> 0 then done rc st
               else do {
                 r \<leftarrow> find_passwd nvps;
                 (case r of
                    None \<Rightarrow> done MOUNT_ERROR st
                  | Some v \<Rightarrow> do {
                      (t, mem) \<leftarrow> asprintf_s v (es_mem st);
                      let st = st\<lparr>es_mem := mem\<rparr>;
                      (case t of
                         None \<Rightarrow> done (- ENOMEM) st
                       | Some t \<Rightarrow> done 0 (snd (push_param (Some t) st))) }) } }) }) }"

text \<open>
  \<open>tf_salt\<close>: the salt goes on the stack and is taken off again, then the passphrase. The
  results of these calls are not looked at.
\<close>

definition tf_salt ::
  "'k pass_env \<Rightarrow> nat \<Rightarrow> ('f, 'foo, ('tn, 'k) lib_ctx) eval_state
   \<Rightarrow> (int \<times> ('f, 'foo, ('tn, 'k) lib_ctx) eval_state) option" where
  "tf_salt env cur st = do {
     n \<leftarrow> es_graph st cur;
     (rc, st) \<leftarrow> (if pn_val n = None then set_val cur (pn_default_val n) st else Some (0, st));
     if rc \<noteq> 0 then Some (- ENOMEM, st)
     else do {
       n \<leftarrow> es_graph st cur;
       let st = set_node cur (n\<lparr>pn_val := None\<rparr>) (snd (push_param (pn_val n) st));
       (salt_hex, params) \<leftarrow> (case es_mnt_params st of v # vs \<Rightarrow> Some (v, vs) | [] \<Rightarrow> None);
       (passwd, params) \<leftarrow> (case params of v # vs \<Rightarrow> Some (v, vs) | [] \<Rightarrow> None);
       let st = st\<lparr>es_mnt_params := params\<rparr>;
       (case es_malloc st of
          (False, st) \<Rightarrow> Some (- ENOMEM, st)
        | (True, st) \<Rightarrow> do {
            salt_hex \<leftarrow> salt_hex;
            passwd \<leftarrow> passwd;
            salt \<leftarrow> from_hex (salt_hex @ [0]) SIG_SIZE;
            (rc, sig, keys, mem) \<leftarrow> ecryptfs_add_passphrase_key_to_keyring (pe_hash env)
               (pe_keyring env) (lc_keys (es_ctx st)) passwd salt (es_mem st);
            let st = st\<lparr>es_ctx := (es_ctx st)\<lparr>lc_keys := keys\<rparr>, es_mem := mem\<rparr>;
            if rc < 0 then Some (rc, st)
            else (case es_malloc st of
               (False, st) \<Rightarrow> Some (- ENOMEM, st)
             | (True, st) \<Rightarrow> do {
                 sig \<leftarrow> sig;
                 (case push_param (Some (bytes_of_string ''ecryptfs_sig='' @ sig)) st of
                    (rc, st) \<Rightarrow> Some (if rc \<noteq> 0 then rc else DEFAULT_TOK, st)) }) }) } }"

fun pass_call ::
  "(nat \<Rightarrow> byte) \<Rightarrow> 'k pass_env \<Rightarrow> pass_fn \<Rightarrow> nat \<Rightarrow> ('f, 'foo, ('tn, 'k) lib_ctx) eval_state
   \<Rightarrow> (int \<times> ('f, 'foo, ('tn, 'k) lib_ctx) eval_state) option" where
  "pass_call junk env Tf_Passwd cur st = tf_passwd cur st"
| "pass_call junk env Tf_Pass_File cur st = tf_pass_file junk env cur st"
| "pass_call junk env Tf_Salt cur st = tf_salt env cur st"

subsection \<open>Nodes\<close>

text \<open>The five nodes, from number \<open>b\<close> on; callbacks are wrapped by \<open>fn\<close>.\<close>

abbreviation (input) PASSPHRASE_TOK :: nat where "PASSPHRASE_TOK \<equiv> 0"
abbreviation (input) PASSWD_TOK :: nat where "PASSWD_TOK \<equiv> 1"
abbreviation (input) PASS_FILE_TOK :: nat where "PASS_FILE_TOK \<equiv> 2"
abbreviation (input) PASS_FD_TOK :: nat where "PASS_FD_TOK \<equiv> 3"
abbreviation (input) SALT_TOK :: nat where "SALT_TOK \<equiv> 4"

definition mk_tn :: "string \<Rightarrow> string \<Rightarrow> nat option \<Rightarrow> 'f option \<Rightarrow> 'f transition_node" where
  "mk_tn v pretty next f = \<lparr>tn_flags = 0, tn_val = Some (bytes_of_string v),
     tn_pretty_val = Some (bytes_of_string pretty), tn_next_token = next, tn_trans_func = f\<rparr>"

definition mk_node ::
  "string list \<Rightarrow> string \<Rightarrow> string option \<Rightarrow> u32 \<Rightarrow> 'f transition_node list \<Rightarrow> 'f param_node" where
  "mk_node names prompt dflt flags tns = \<lparr>pn_mnt_opt_names = map bytes_of_string names,
     pn_prompt = Some (bytes_of_string prompt), pn_val = None,
     pn_default_val = map_option bytes_of_string dflt, pn_suggested_val = None, pn_flags = flags,
     pn_tl = tns\<rparr>"

definition passphrase_param_nodes :: "(pass_fn \<Rightarrow> 'f) \<Rightarrow> nat \<Rightarrow> 'f param_node list" where
  "passphrase_param_nodes fn b =
    [mk_node [''passphrase_type''] ''Method for providing the passphrase'' (Some ''passphrase_passwd'')
       (PARAM_FLAG_NO_VALUE OR ALLOW_IMPLICIT_TRANSITION OR IMPLICIT_OVERRIDE_DEFAULT)
       [mk_tn ''passphrase_passwd'' ''Provide passphrase directly'' (Some (b + PASSWD_TOK)) None,
        mk_tn ''passphrase_passwd_file'' ''File containing passphrase (only use secure media)''
          (Some (b + PASS_FILE_TOK)) None,
        mk_tn ''passphrase_passwd_fd'' ''File descriptor for file containing passphrase''
          (Some (b + PASS_FD_TOK)) None],
     mk_node [''passphrase_passwd'', ''passwd''] ''Passphrase'' None
       (0x0002 OR NONEMPTY_VALUE_REQUIRED)
       [mk_tn ''passphrase_salt'' ''salt'' (Some (b + SALT_TOK)) (Some (fn Tf_Passwd)),
        mk_tn ''default'' ''default'' (Some (b + SALT_TOK)) (Some (fn Tf_Passwd))],
     mk_node [''passphrase_passwd_file'', ''passfile''] ''Passphrase File'' None
       (PARAM_FLAG_ECHO_INPUT OR NONEMPTY_VALUE_REQUIRED)
       [mk_tn ''passphrase_salt'' ''salt'' (Some (b + SALT_TOK)) (Some (fn Tf_Pass_File)),
        mk_tn ''default'' ''default'' (Some (b + SALT_TOK)) (Some (fn Tf_Pass_File))],
     mk_node [''passphrase_passwd_fd'', ''passfd''] ''Passphrase File Discriptor'' None
       (PARAM_FLAG_ECHO_INPUT OR NONEMPTY_VALUE_REQUIRED)
       [mk_tn ''salt'' ''salt'' (Some (b + SALT_TOK)) (Some (fn Tf_Pass_File)),
        mk_tn ''default'' ''default'' (Some (b + SALT_TOK)) (Some (fn Tf_Pass_File))],
     mk_node [''passphrase_salt'', ''salt''] ''Salt (hexadecimal representation)''
       (Some ''0011223344556677'') 0
       [zero_tn\<lparr>tn_trans_func := Some (fn Tf_Salt)\<rparr>]]"

definition passphrase_transition :: "nat \<Rightarrow> 'f transition_node" where
  "passphrase_transition b = mk_tn ''passphrase'' ''Passphrase'' (Some b) None"

subsection \<open>The subgraph in a graph\<close>

definition salt_node :: "(pass_fn \<Rightarrow> 'f) \<Rightarrow> nat \<Rightarrow> nat \<Rightarrow> 'f param_node" where
  "salt_node fn b e = (passphrase_param_nodes fn b ! SALT_TOK)\<lparr>pn_tl :=
     [exit_tn e (zero_tn\<lparr>tn_trans_func := Some (fn Tf_Salt)\<rparr>)]\<rparr>"

text \<open>The nodes of the module from \<open>b\<close> on, the exit of the last set to \<open>e\<close>.\<close>

definition pass_nodes_at :: "(pass_fn \<Rightarrow> 'f) \<Rightarrow> nat \<Rightarrow> nat \<Rightarrow> 'f graph \<Rightarrow> bool" where
  "pass_nodes_at fn b e g \<longleftrightarrow>
     g b = Some (passphrase_param_nodes fn b ! PASSPHRASE_TOK)
     \<and> g (b + 1) = Some (passphrase_param_nodes fn b ! PASSWD_TOK)
     \<and> g (b + 2) = Some (passphrase_param_nodes fn b ! PASS_FILE_TOK)
     \<and> g (b + 3) = Some (passphrase_param_nodes fn b ! PASS_FD_TOK)
     \<and> g (b + 4) = Some (salt_node fn b e)"

lemmas pass_node_defs = pass_nodes_at_def passphrase_param_nodes_def salt_node_def mk_node_def mk_tn_def
  exit_tn_def zero_tn_def

text \<open>The value an option list gives for a list of names, the last first.\<close>

definition given :: "string list \<Rightarrow> nv_list \<Rightarrow> byte list \<Rightarrow> nv_list \<Rightarrow> bool" where
  "given names nvps v nvps' \<longleftrightarrow>
     retrieve_names (rev (map bytes_of_string names)) nvps = Some (Some (Live v, nvps'))
     \<and> v \<noteq> bytes_of_string ''(null)''"

definition not_given :: "string list \<Rightarrow> nv_list \<Rightarrow> bool" where
  "not_given names nvps \<longleftrightarrow> retrieve_names (rev (map bytes_of_string names)) nvps = Some None"

lemma given_marks: "given names nvps v nvps' \<Longrightarrow> only_marked nvps nvps'"
  unfolding given_def by (blast intro: retrieve_names_marks)

lemma set_val_ok:
  "es_graph st k = Some n \<Longrightarrow> es_mem st = [] \<Longrightarrow>
     set_val k (Some v) st = Some (0, st\<lparr>es_graph := (es_graph st)(k \<mapsto> n\<lparr>pn_val := Some v\<rparr>)\<rparr>)"
  by (simp add: set_val_def set_node_def)

lemma retrieve_val_given:
  assumes "es_graph st k = Some n" and "pn_mnt_opt_names n = map bytes_of_string names"
    and "given names (es_nvps st) v nvps" and "es_mem st = []"
  shows "retrieve_val k st = Some (0, True,
     st\<lparr>es_nvps := nvps, es_graph := (es_graph st)(k \<mapsto> n\<lparr>pn_val := Some v\<rparr>)\<rparr>)"
  using assms by (simp add: retrieve_val_def given_def set_val_ok)

lemma retrieve_val_default:
  assumes "es_graph st k = Some n" and "pn_mnt_opt_names n = map bytes_of_string names"
    and "not_given names (es_nvps st)" and "pn_default_val n = Some (bytes_of_string d)" "d \<noteq> ''NULL''"
    and "es_mem st = []"
  shows "retrieve_val k st = Some (0, True,
     st\<lparr>es_graph := (es_graph st)(k \<mapsto> n\<lparr>pn_val := Some (bytes_of_string d)\<rparr>)\<rparr>)"
  using assms by (simp add: retrieve_val_def not_given_def set_val_ok)

lemma push_param_ok: "es_mem st = [] \<Longrightarrow> push_param v st = (0, st\<lparr>es_mnt_params := v # es_mnt_params st\<rparr>)"
  by (cases st) (simp add: push_param_def stack_push_def)

text \<open>The first node: a passphrase among the options selects the node that uses it, and fills it.\<close>

lemma alloc_type_node:
  assumes "pass_nodes_at fn b e (es_graph st)" and "es_mem st = []"
    and "not_given [''passphrase_type''] (es_nvps st)"
    and "given [''passphrase_passwd'', ''passwd''] (es_nvps st) p nvps"
  shows "alloc_and_get_val b st = Some (0, st\<lparr>es_nvps := nvps, es_graph := (es_graph st)
     (b \<mapsto> (passphrase_param_nodes fn b ! PASSPHRASE_TOK)\<lparr>pn_val := Some (bytes_of_string ''passphrase_passwd'')\<rparr>,
      b + 1 \<mapsto> (passphrase_param_nodes fn b ! PASSWD_TOK)\<lparr>pn_val := Some p\<rparr>)\<rparr>)"
proof -
  let ?n = "passphrase_param_nodes fn b ! PASSPHRASE_TOK" and ?p = "passphrase_param_nodes fn b ! PASSWD_TOK"
  let ?s = "Some (bytes_of_string ''passphrase_passwd'')"
  have g: "es_graph st b = Some ?n" "es_graph st (b + 1) = Some ?p"
    using assms(1) by (simp_all add: pass_nodes_at_def)
  let ?st1 = "st\<lparr>es_graph := (es_graph st)(b \<mapsto> ?n\<lparr>pn_val := ?s\<rparr>)\<rparr>"
  have r1: "retrieve_val b st = Some (0, True, ?st1)"
    by (rule retrieve_val_default [OF g(1) _ assms(3) _ _ assms(2)])
      (simp_all add: passphrase_param_nodes_def mk_node_def)
  let ?st2 = "?st1\<lparr>es_nvps := nvps, es_graph := (es_graph ?st1)(b + 1 \<mapsto> ?p\<lparr>pn_val := Some p\<rparr>)\<rparr>"
  have r2: "retrieve_val (b + 1) ?st1 = Some (0, True, ?st2)"
    by (rule retrieve_val_given [where names = "[''passphrase_passwd'', ''passwd'']"])
      (use assms g in \<open>simp_all add: passphrase_param_nodes_def mk_node_def\<close>)
  have fl: "has_flag (pn_flags ?n) ALLOW_IMPLICIT_TRANSITION" "has_flag (pn_flags ?n) IMPLICIT_OVERRIDE_DEFAULT"
    "\<not> has_flag (pn_flags ?n) NO_AUTO_TRANSITION"
    by (simp_all add: passphrase_param_nodes_def mk_node_def has_flag_def)
  have tl: "\<exists>tn tns. pn_tl ?n = tn # tns \<and> tn_next_token tn = Some (b + 1)"
    by (simp add: passphrase_param_nodes_def mk_node_def mk_tn_def)
  have sv: "set_val b (Some (bytes_of_string ''passphrase_passwd'')) ?st2 = Some (0, ?st2)"
    using assms(2) by (simp add: set_val_def set_node_def fun_upd_twist)
  have nm: "pn_mnt_opt_names ?p = [bytes_of_string ''passphrase_passwd'', bytes_of_string ''passwd'']"
    by (simp add: passphrase_param_nodes_def mk_node_def)
  have "implicit_vals b (pn_tl ?n) True ?st1 = Some (Some 0, ?st2)"
    using tl r2 sv nm by auto
  then show ?thesis
    using g(1) r1 fl by (simp add: alloc_and_get_val_def)
      (simp add: passphrase_param_nodes_def mk_node_def)
qed

subsection \<open>Evaluating the subgraph\<close>

lemma trans_first_match:
  assumes "es_graph st cur = Some n" and "i < length (pn_tl n)"
    and "pn_tl n ! i = tn" "tn_val tn = Some v" "pn_val n = Some v" "tn_trans_func tn = None"
    and "tn_next_token tn = Some m"
  shows "trans_first call cur (i # is) st = Some (Some (0, Some m), st)"
  using assms by (simp add: run_trans_def trans_at_def)

locale pass_calls =
  fixes call :: "('f, 'foo, ('tn, 'k) lib_ctx) calls"
    and fn :: "pass_fn \<Rightarrow> 'f" and junk :: "nat \<Rightarrow> byte" and env :: "'k pass_env"
  assumes call_fn: "call (fn f) cur st = pass_call junk env f cur st"
begin

lemma type_step:
  assumes "es_graph st b = Some ((passphrase_param_nodes fn b ! PASSPHRASE_TOK)
      \<lparr>pn_val := Some (bytes_of_string ''passphrase_passwd'')\<rparr>)"
  shows "do_transition call b st = Some ((0, Some (b + 1)),
     st\<lparr>es_repeated := (if es_lastnode st = Some b then es_repeated st else 0), es_lastnode := Some b\<rparr>)"
  unfolding do_transition_def slots_64 Let_def
  using assms by (cases st) (simp add: pass_node_defs run_trans_def trans_at_def)

text \<open>
  The node of the passphrase: whichever of its two transitions is followed, the passphrase
  is pushed once, unless it is the text of one of the transitions.
\<close>

lemma passwd_step:
  assumes "es_graph st c = Some n" and "n = (passphrase_param_nodes fn b ! PASSWD_TOK)\<lparr>pn_val := Some p\<rparr>"
    and "p \<noteq> bytes_of_string ''passphrase_salt''" "p \<noteq> bytes_of_string ''default''"
    and "names_live (es_nvps st)" and "Live (bytes_of_string ''default'') \<notin> nv_name ` set (es_nvps st)"
    and "es_mem st = []"
  shows "do_transition call c st = Some ((0, Some (b + 4)),
     st\<lparr>es_repeated := (if es_lastnode st = Some c then es_repeated st else 0), es_lastnode := Some c,
        es_mnt_params := Some p # es_mnt_params st, es_graph := (es_graph st)(c \<mapsto> n\<lparr>pn_val := None\<rparr>)\<rparr>)"
    (is "_ = Some (_, ?st2)")
proof -
  define st2 where "st2 = ?st2"
  define st1 where "st1 = st\<lparr>es_repeated := (if es_lastnode st = Some c then es_repeated st else 0),
      es_lastnode := Some c\<rparr>"
  have upd: "(if es_lastnode st \<noteq> Some c then st\<lparr>es_repeated := 0\<rparr> else st)\<lparr>es_lastnode := Some c\<rparr> = st1"
    by (cases st) (simp add: st1_def)
  define t0 t1 :: "'f transition_node" where
    "t0 = mk_tn ''passphrase_salt'' ''salt'' (Some (b + SALT_TOK)) (Some (fn Tf_Passwd))" and
    "t1 = mk_tn ''default'' ''default'' (Some (b + SALT_TOK)) (Some (fn Tf_Passwd))"
  have tl: "pn_tl n = [t0, t1]" and pv: "pn_val n = Some p"
    using assms(2) by (simp_all add: t0_def t1_def passphrase_param_nodes_def mk_node_def)
  have g1: "es_graph st1 c = Some n" and mem: "es_mem st1 = []" and nv: "es_nvps st1 = es_nvps st"
    using assms(1,7) by (simp_all add: st1_def)
  have call: "call (fn Tf_Passwd) c st1 = Some (DEFAULT_TOK, st2)"
    using g1 mem pv by (simp add: call_fn tf_passwd_def push_param_ok set_node_def) (simp add: st1_def st2_def)
  have run: "run_trans call c t0 d st1 = Some (DEFAULT_TOK, st2)" "run_trans call c t1 d st1 = Some (DEFAULT_TOK, st2)" for d
    using call by (simp_all add: run_trans_def t0_def t1_def mk_tn_def)
  have at1: "trans_at c 0 st1 = Some t0" "trans_at c 1 st1 = Some t1"
    using g1 tl by (simp_all add: trans_at_def)
  have at2: "trans_at c 0 st2 = Some t0" "trans_at c 1 st2 = Some t1"
    using tl by (simp_all add: trans_at_def st2_def)
  have g2: "es_graph st2 c = Some (n\<lparr>pn_val := None\<rparr>)" by (simp add: st2_def)
  have nx: "tn_next_token t0 = Some (b + 4)" "tn_next_token t1 = Some (b + 4)"
    "tn_val t0 = Some (bytes_of_string ''passphrase_salt'')" "tn_val t1 = Some (bytes_of_string ''default'')"
    by (simp_all add: t0_def t1_def mk_tn_def)
  have scan: "trans_nvps call c 0 ps st1 = Some (None, st1)
      \<or> trans_nvps call c 0 ps st1 = Some (Some (0, Some (b + 4)), st2)" if "names_live ps" for ps
    using that
  proof (induction ps)
    case (Cons q qs)
    obtain a where q: "nv_name q = Live a" and qs: "names_live qs" using Cons.prems by auto
    show ?case
      by (cases "a = bytes_of_string ''passphrase_salt''") (use Cons.IH [OF qs] at1 at2 nx run q in simp_all)
  qed simp
  have scan1: "trans_nvps call c 1 (es_nvps st) st1 = Some (None, st1)"
    by (rule trans_nvps_no_match [OF at1(2) nx(4) assms(5,6)])
  have df: "trans_default call c [0..<MAX_NUM_TRANSITIONS] st1 = Some (Some (0, Some (b + 4)), st2)"
    unfolding slots_64 using g1 g2 tl nx run at2 by (simp add: Let_def)
  have two: "[2..<MAX_NUM_TRANSITIONS] = 2 # [3..<MAX_NUM_TRANSITIONS]" by (simp add: upt_conv_Cons)
  have tf: "trans_first call c [0..<MAX_NUM_TRANSITIONS] st1 = Some (None, st1)
      \<or> trans_first call c [0..<MAX_NUM_TRANSITIONS] st1 = Some (Some (0, Some (b + 4)), st2)"
    unfolding slots_64 two using scan [of "es_nvps st1"] scan1 g1 tl nx pv assms(3-5) nv by auto
  show ?thesis
    unfolding do_transition_def Let_def upd st2_def [symmetric]
    using tf df g2 by auto
qed

lemma salt_step:
  assumes "es_graph st c = Some n" and "n = (salt_node fn b e)\<lparr>pn_val := Some s\<rparr>"
    and "s \<noteq> bytes_of_string ''default''"
    and "names_live (es_nvps st)" and "Live (bytes_of_string ''default'') \<notin> nv_name ` set (es_nvps st)"
    and "es_mem st = []" and "es_mnt_params st = Some p # params"
    and "from_hex (s @ [0]) SIG_SIZE = Some salt"
    and "ecryptfs_add_passphrase_key_to_keyring (pe_hash env) (pe_keyring env) (lc_keys (es_ctx st)) p salt []
           = Some (rc, Some sig, keys, [])" and "0 \<le> rc"
  shows "do_transition call c st = Some ((0, Some e),
     st\<lparr>es_repeated := (if es_lastnode st = Some c then es_repeated st else 0), es_lastnode := Some c,
        es_mnt_params := Some (bytes_of_string ''ecryptfs_sig='' @ sig) # params,
        es_ctx := (es_ctx st)\<lparr>lc_keys := keys\<rparr>,
        es_graph := (es_graph st)(c \<mapsto> n\<lparr>pn_val := None\<rparr>)\<rparr>)"
proof -
  define st1 where "st1 = st\<lparr>es_repeated := (if es_lastnode st = Some c then es_repeated st else 0),
      es_lastnode := Some c\<rparr>"
  let ?tn = "exit_tn e (zero_tn\<lparr>tn_trans_func := Some (fn Tf_Salt)\<rparr>)"
  let ?st2 = "st\<lparr>es_repeated := (if es_lastnode st = Some c then es_repeated st else 0), es_lastnode := Some c,
        es_mnt_params := Some (bytes_of_string ''ecryptfs_sig='' @ sig) # params,
        es_ctx := (es_ctx st)\<lparr>lc_keys := keys\<rparr>,
        es_graph := (es_graph st)(c \<mapsto> n\<lparr>pn_val := None\<rparr>)\<rparr>"
  have pv: "pn_val n = Some s" "pn_tl n = [?tn]" using assms(2) by (simp_all add: salt_node_def)
  have "call (fn Tf_Salt) c st1 = Some (DEFAULT_TOK, ?st2)"
    using assms(1,6-10) pv(1) by (cases st) (auto simp: call_fn tf_salt_def st1_def push_param_ok set_node_def)
  then show ?thesis
    by (intro do_transition_default [where n = n and n' = "n\<lparr>pn_val := None\<rparr>" and tn = ?tn and tn' = ?tn
          and f = "fn Tf_Salt" and tok = DEFAULT_TOK and ?st1.0 = st1])
      (use assms(1,3-5) pv in \<open>simp_all add: st1_def exit_tn_def zero_tn_def\<close>)
qed

lemma alloc_salt_node:
  assumes "es_graph st c = Some (salt_node fn b e)" and "es_mem st = []"
    and "given [''passphrase_salt'', ''salt''] (es_nvps st) s nvps
       \<or> not_given [''passphrase_salt'', ''salt''] (es_nvps st) \<and> s = bytes_of_string ''0011223344556677''
          \<and> nvps = es_nvps st"
  shows "alloc_and_get_val c st = Some (0, st\<lparr>es_nvps := nvps,
     es_graph := (es_graph st)(c \<mapsto> (salt_node fn b e)\<lparr>pn_val := Some s\<rparr>)\<rparr>)"
proof -
  have n: "pn_mnt_opt_names (salt_node fn b e) = map bytes_of_string [''passphrase_salt'', ''salt'']"
    "pn_default_val (salt_node fn b e) = Some (bytes_of_string ''0011223344556677'')"
    "pn_val (salt_node fn b e) = None" "pn_flags (salt_node fn b e) = 0"
    by (simp_all add: salt_node_def passphrase_param_nodes_def mk_node_def)
  have "retrieve_val c st = Some (0, True, st\<lparr>es_nvps := nvps,
     es_graph := (es_graph st)(c \<mapsto> (salt_node fn b e)\<lparr>pn_val := Some s\<rparr>)\<rparr>)"
    using assms(3)
  proof
    assume "given [''passphrase_salt'', ''salt''] (es_nvps st) s nvps"
    from retrieve_val_given [OF assms(1) n(1) this assms(2)] show ?thesis .
  next
    assume a: "not_given [''passphrase_salt'', ''salt''] (es_nvps st) \<and> s = bytes_of_string ''0011223344556677''
          \<and> nvps = es_nvps st"
    from retrieve_val_default [OF assms(1) n(1) _ n(2) _ assms(2)] a show ?thesis by (cases st) simp
  qed
  then show ?thesis using assms(1) n(3,4) by (simp add: alloc_and_get_val_def has_flag_def)
qed

lemma pass_subgraph_runs:
  assumes "pass_nodes_at fn b e (es_graph st)" and "es_mem st = []"
    and "names_live (es_nvps st)" and "Live (bytes_of_string ''default'') \<notin> nv_name ` set (es_nvps st)"
    and "not_given [''passphrase_type''] (es_nvps st)"
    and "given [''passphrase_passwd'', ''passwd''] (es_nvps st) p nvps1"
    and "p \<noteq> bytes_of_string ''passphrase_salt''" "p \<noteq> bytes_of_string ''default''"
    and "given [''passphrase_salt'', ''salt''] nvps1 s nvps2
       \<or> not_given [''passphrase_salt'', ''salt''] nvps1 \<and> s = bytes_of_string ''0011223344556677'' \<and> nvps2 = nvps1"
    and "s \<noteq> bytes_of_string ''default''" and "from_hex (s @ [0]) SIG_SIZE = Some salt"
    and "ecryptfs_add_passphrase_key_to_keyring (pe_hash env) (pe_keyring env) (lc_keys (es_ctx st)) p salt []
           = Some (rc, Some sig, keys, [])" and "0 \<le> rc"
  shows "\<exists>st'. (\<forall>fuel. eval_loop call (Suc (Suc (Suc fuel))) b st = eval_loop call fuel e st')
    \<and> es_mnt_params st' = Some (bytes_of_string ''ecryptfs_sig='' @ sig) # es_mnt_params st
    \<and> lc_keys (es_ctx st') = keys \<and> es_nvps st' = nvps2
    \<and> es_verbosity st' = es_verbosity st \<and> es_mem st' = []
    \<and> (\<forall>k. k \<noteq> b \<and> k \<noteq> b + 1 \<and> k \<noteq> b + 4 \<longrightarrow> es_graph st' k = es_graph st k)"
proof -
  let ?t = "(passphrase_param_nodes fn b ! PASSPHRASE_TOK)\<lparr>pn_val := Some (bytes_of_string ''passphrase_passwd'')\<rparr>"
  let ?p = "(passphrase_param_nodes fn b ! PASSWD_TOK)\<lparr>pn_val := Some p\<rparr>"
  define st1 where "st1 = st\<lparr>es_nvps := nvps1, es_graph := (es_graph st)(b \<mapsto> ?t, b + 1 \<mapsto> ?p)\<rparr>"
  have a1: "alloc_and_get_val b st = Some (0, st1)"
    using alloc_type_node [OF assms(1,2,5,6)] by (simp add: st1_def)
  have g1: "es_graph st1 b = Some ?t" by (simp add: st1_def)
  define st2 where "st2 = st1\<lparr>es_repeated := (if es_lastnode st1 = Some b then es_repeated st1 else 0),
     es_lastnode := Some b\<rparr>"
  have t1: "do_transition call b st1 = Some ((0, Some (b + 1)), st2)"
    using type_step [OF g1] by (simp add: st2_def)
  have g2: "es_graph st2 (b + 1) = Some ?p" by (simp add: st2_def st1_def)
  have a2: "alloc_and_get_val (b + 1) st2 = Some (0, st2)" using g2 by (simp add: alloc_and_get_val_def)
  have "only_marked (es_nvps st) nvps1"
    using assms(6) by (rule given_marks)
  then have nm: "names_live (es_nvps st2)" "Live (bytes_of_string ''default'') \<notin> nv_name ` set (es_nvps st2)"
    using assms(3,4) only_marked_names [of "es_nvps st" nvps1] by (simp_all add: st2_def st1_def names_live_image)
  define st3 where "st3 = st2\<lparr>es_repeated := (if es_lastnode st2 = Some (b + 1) then es_repeated st2 else 0),
     es_lastnode := Some (b + 1), es_mnt_params := Some p # es_mnt_params st2,
     es_graph := (es_graph st2)(b + 1 \<mapsto> ?p\<lparr>pn_val := None\<rparr>)\<rparr>"
  have m2: "es_mem st2 = []" using assms(2) by (simp add: st2_def st1_def)
  have t2: "do_transition call (b + 1) st2 = Some ((0, Some (b + 4)), st3)"
    using passwd_step [OF g2 refl assms(7,8) nm m2] unfolding st3_def .
  have g3: "es_graph st3 (b + 4) = Some (salt_node fn b e)"
    using assms(1) by (simp add: st3_def st2_def st1_def pass_nodes_at_def)
  define st4 where "st4 = st3\<lparr>es_nvps := nvps2,
     es_graph := (es_graph st3)(b + 4 \<mapsto> (salt_node fn b e)\<lparr>pn_val := Some s\<rparr>)\<rparr>"
  have st3: "es_nvps st3 = nvps1" "es_mem st3 = []" "es_mnt_params st3 = Some p # es_mnt_params st"
    "es_ctx st3 = es_ctx st"
    using m2 by (simp_all add: st3_def st2_def st1_def)
  have a3: "alloc_and_get_val (b + 4) st3 = Some (0, st4)"
    using alloc_salt_node [OF g3 st3(2)] assms(9) by (simp add: st3 st4_def)
  have "only_marked nvps1 nvps2"
    using assms(9) given_marks by fastforce
  then have nm4: "names_live (es_nvps st4)" "Live (bytes_of_string ''default'') \<notin> nv_name ` set (es_nvps st4)"
    using nm only_marked_names [of nvps1 nvps2] by (simp_all add: st4_def st2_def st1_def names_live_image)
  have g4: "es_graph st4 (b + 4) = Some ((salt_node fn b e)\<lparr>pn_val := Some s\<rparr>)" by (simp add: st4_def)
  obtain st5 where t3: "do_transition call (b + 4) st4 = Some ((0, Some e), st5)"
    and st5: "es_mnt_params st5 = Some (bytes_of_string ''ecryptfs_sig='' @ sig) # es_mnt_params st"
      "lc_keys (es_ctx st5) = keys" "es_nvps st5 = nvps2" "es_verbosity st5 = es_verbosity st" "es_mem st5 = []"
      "\<forall>k. k \<noteq> b \<and> k \<noteq> b + 1 \<and> k \<noteq> b + 4 \<longrightarrow> es_graph st5 k = es_graph st k"
    using salt_step [OF g4 refl assms(10) nm4, of p "es_mnt_params st" salt rc sig keys] assms(11-13) st3
    by (simp add: st4_def) (simp add: st3_def st2_def st1_def)
  have "eval_loop call (Suc (Suc (Suc fuel))) b st = eval_loop call fuel e st5" for fuel
    using a1 t1 a2 t2 a3 t3 by simp
  then show ?thesis using st5 by (intro exI [of _ st5]) simp
qed

text \<open>A passphrase that is the text of the second transition.\<close>

lemma passwd_default_step:
  assumes "es_graph st c = Some n" and "n = (passphrase_param_nodes fn b ! PASSWD_TOK)
      \<lparr>pn_val := Some (bytes_of_string ''default'')\<rparr>"
    and "names_live (es_nvps st)" and "Live (bytes_of_string ''passphrase_salt'') \<notin> nv_name ` set (es_nvps st)"
    and "es_mem st = []"
  shows "do_transition call c st = Some ((DEFAULT_TOK, Some (b + 4)),
     st\<lparr>es_repeated := (if es_lastnode st = Some c then es_repeated st else 0), es_lastnode := Some c,
        es_mnt_params := Some (bytes_of_string ''default'') # es_mnt_params st,
        es_graph := (es_graph st)(c \<mapsto> n\<lparr>pn_val := None\<rparr>)\<rparr>)"
    (is "_ = Some (_, ?st2)")
proof -
  define st1 where "st1 = st\<lparr>es_repeated := (if es_lastnode st = Some c then es_repeated st else 0),
      es_lastnode := Some c\<rparr>"
  have upd: "(if es_lastnode st \<noteq> Some c then st\<lparr>es_repeated := 0\<rparr> else st)\<lparr>es_lastnode := Some c\<rparr> = st1"
    by (cases st) (simp add: st1_def)
  define t0 t1 :: "'f transition_node" where
    "t0 = mk_tn ''passphrase_salt'' ''salt'' (Some (b + SALT_TOK)) (Some (fn Tf_Passwd))" and
    "t1 = mk_tn ''default'' ''default'' (Some (b + SALT_TOK)) (Some (fn Tf_Passwd))"
  have tl: "pn_tl n = [t0, t1]" and pv: "pn_val n = Some (bytes_of_string ''default'')"
    using assms(2) by (simp_all add: t0_def t1_def passphrase_param_nodes_def mk_node_def)
  have g1: "es_graph st1 c = Some n" and mem: "es_mem st1 = []" and nv: "es_nvps st1 = es_nvps st"
    using assms(1,5) by (simp_all add: st1_def)
  have call: "call (fn Tf_Passwd) c st1 = Some (DEFAULT_TOK, ?st2)"
    using g1 mem pv by (simp add: call_fn tf_passwd_def push_param_ok set_node_def) (simp add: st1_def)
  have run: "run_trans call c t1 0 st1 = Some (DEFAULT_TOK, ?st2)"
    using call by (simp add: run_trans_def t1_def mk_tn_def)
  have at1: "trans_at c 0 st1 = Some t0" using g1 tl by (simp add: trans_at_def)
  have at2: "trans_at c 1 ?st2 = Some t1" using tl by (simp add: trans_at_def)
  have nx: "tn_next_token t1 = Some (b + 4)"
    "tn_val t0 = Some (bytes_of_string ''passphrase_salt'')" "tn_val t1 = Some (bytes_of_string ''default'')"
    by (simp_all add: t0_def t1_def mk_tn_def)
  have scan: "trans_nvps call c 0 (es_nvps st) st1 = Some (None, st1)"
    by (rule trans_nvps_no_match [OF at1 nx(2) assms(3,4)])
  have "trans_first call c [0..<MAX_NUM_TRANSITIONS] st1 = Some (Some (DEFAULT_TOK, Some (b + 4)), ?st2)"
    unfolding slots_64 using scan g1 tl nx pv nv run at2 by simp
  then show ?thesis unfolding do_transition_def Let_def upd by simp
qed

lemma passphrase_default_stops:
  assumes "pass_nodes_at fn b e (es_graph st)" and "es_mem st = []" and "names_live (es_nvps st)"
    and "Live (bytes_of_string ''passphrase_salt'') \<notin> nv_name ` set (es_nvps st)"
    and "not_given [''passphrase_type''] (es_nvps st)"
    and "given [''passphrase_passwd'', ''passwd''] (es_nvps st) (bytes_of_string ''default'') nvps"
  shows "\<exists>st'. eval_loop call (Suc (Suc fuel)) b st = Some (Some (DEFAULT_TOK, st'))
    \<and> es_ctx st' = es_ctx st
    \<and> es_mnt_params st' = Some (bytes_of_string ''default'') # es_mnt_params st"
proof -
  let ?t = "(passphrase_param_nodes fn b ! PASSPHRASE_TOK)\<lparr>pn_val := Some (bytes_of_string ''passphrase_passwd'')\<rparr>"
  let ?p = "(passphrase_param_nodes fn b ! PASSWD_TOK)\<lparr>pn_val := Some (bytes_of_string ''default'')\<rparr>"
  define st1 where "st1 = st\<lparr>es_nvps := nvps, es_graph := (es_graph st)(b \<mapsto> ?t, b + 1 \<mapsto> ?p)\<rparr>"
  have a1: "alloc_and_get_val b st = Some (0, st1)"
    using alloc_type_node [OF assms(1,2,5,6)] by (simp add: st1_def)
  define st2 where "st2 = st1\<lparr>es_repeated := (if es_lastnode st1 = Some b then es_repeated st1 else 0),
     es_lastnode := Some b\<rparr>"
  have t1: "do_transition call b st1 = Some ((0, Some (b + 1)), st2)"
    using type_step [of st1 b] by (simp add: st1_def st2_def)
  have g2: "es_graph st2 (b + 1) = Some ?p" by (simp add: st2_def st1_def)
  have a2: "alloc_and_get_val (b + 1) st2 = Some (0, st2)" using g2 by (simp add: alloc_and_get_val_def)
  have nm: "names_live (es_nvps st2)" "Live (bytes_of_string ''passphrase_salt'') \<notin> nv_name ` set (es_nvps st2)"
    using assms(3,4) only_marked_names [OF given_marks [OF assms(6)]]
    by (simp_all add: st2_def st1_def names_live_image)
  have m2: "es_mem st2 = []" using assms(2) by (simp add: st2_def st1_def)
  from passwd_default_step [OF g2 refl nm m2] obtain st3 where
    t2: "do_transition call (b + 1) st2 = Some ((DEFAULT_TOK, Some (b + 4)), st3)"
    and st3: "es_ctx st3 = es_ctx st2" "es_mnt_params st3 = Some (bytes_of_string ''default'') # es_mnt_params st2"
    by simp
  have "eval_loop call (Suc (Suc fuel)) b st = Some (Some (DEFAULT_TOK, st3))"
    using a1 t1 a2 t2 by simp
  then show ?thesis using st3 by (intro exI [of _ st3]) (simp add: st2_def st1_def)
qed

end

interpretation passphrase: pass_calls "pass_call junk env" "\<lambda>f. f" junk env
  by unfold_locales simp

subsection \<open>Properties\<close>

text \<open>
  With a passphrase among the options, and a salt or the default salt, three rounds of the
  evaluation lead from the first node of the passphrase module to the node its exit was set
  to. The key of passphrase and salt is then in the keyring, its signature on top of the mount
  options as \<open>ecryptfs_sig=\<close>, the passphrase is off the stack again, and exactly the options
  read are marked as taken.
\<close>

theorem passphrase_subgraph_adds_key:
  assumes "pass_nodes_at (\<lambda>f. f) b e (es_graph st)" and "es_mem st = []"
    and "names_live (es_nvps st)" and "Live (bytes_of_string ''default'') \<notin> nv_name ` set (es_nvps st)"
    and "not_given [''passphrase_type''] (es_nvps st)"
    and "given [''passphrase_passwd'', ''passwd''] (es_nvps st) p nvps1"
    and "p \<noteq> bytes_of_string ''passphrase_salt''" "p \<noteq> bytes_of_string ''default''"
    and "given [''passphrase_salt'', ''salt''] nvps1 s nvps2
       \<or> not_given [''passphrase_salt'', ''salt''] nvps1 \<and> s = bytes_of_string ''0011223344556677'' \<and> nvps2 = nvps1"
    and "s \<noteq> bytes_of_string ''default''" and "from_hex (s @ [0]) SIG_SIZE = Some salt"
    and "ecryptfs_add_passphrase_key_to_keyring (pe_hash env) (pe_keyring env) (lc_keys (es_ctx st)) p salt []
           = Some (rc, Some sig, keys, [])" and "0 \<le> rc"
  shows "\<exists>st'. (\<forall>fuel. eval_loop (pass_call junk env) (Suc (Suc (Suc fuel))) b st
                     = eval_loop (pass_call junk env) fuel e st')
    \<and> es_mnt_params st' = Some (bytes_of_string ''ecryptfs_sig='' @ sig) # es_mnt_params st
    \<and> lc_keys (es_ctx st') = keys \<and> es_nvps st' = nvps2"
  using passphrase.pass_subgraph_runs [OF assms] by blast

definition sample_env :: "(byte list \<times> ecryptfs_auth_tok) list pass_env" where
  "sample_env = \<lparr>pe_open = (\<lambda>_. Inl ENOENT), pe_fd = (\<lambda>_. \<lparr>of_fstat = -1, of_kind = Directory, of_size = 0,
     of_content = [], of_end = None\<rparr>), pe_hash = toy_hash, pe_keyring = list_keyring\<rparr>"

definition sample_pass_graph :: "pass_fn graph" where
  "sample_pass_graph = (\<lambda>k. if k < 4 then Some (passphrase_param_nodes (\<lambda>f. f) 0 ! k)
     else if k = 4 then Some (salt_node (\<lambda>f. f) 0 5) else None)"

definition sample_pass_state ::
  "nv_list \<Rightarrow> (pass_fn, unit, (unit, (byte list \<times> ecryptfs_auth_tok) list) lib_ctx) eval_state" where
  "sample_pass_state nvps = \<lparr>es_graph = sample_pass_graph, es_nvps = nvps, es_mnt_params = [None],
     es_foo = None, es_ctx = \<lparr>lc_key_mods = [], lc_num_param_vals = (\<lambda>_. 0), lc_keys = []\<rparr>,
     es_verbosity = 1, es_get_string = True, es_inputs = [], es_repeated = 0, es_lastnode = None, es_mem = []\<rparr>"

lemma sample_pass_nodes: "pass_nodes_at (\<lambda>f. f) 0 5 (es_graph (sample_pass_state nvps))"
  by (simp add: pass_nodes_at_def sample_pass_state_def sample_pass_graph_def numeral_2_eq_2)

lemma sample_given:
  "given [''passphrase_passwd'', ''passwd''] [sample_pair ''passwd'' ''abc''] (bytes_of_string ''abc'')
     [mark_used (sample_pair ''passwd'' ''abc'')]"
  "not_given [''passphrase_type''] [sample_pair ''passwd'' ''abc'']"
  "not_given [''passphrase_salt'', ''salt''] [mark_used (sample_pair ''passwd'' ''abc'')]"
  by (simp_all add: given_def not_given_def sample_pair_def zero_nv_def has_flag_def mark_used_def)

theorem passphrase_subgraph_adds_key_witness:
  "\<exists>st' sig. (\<forall>fuel. eval_loop (pass_call (\<lambda>_. 0) sample_env) (Suc (Suc (Suc fuel))) 0
         (sample_pass_state [sample_pair ''passwd'' ''abc''])
       = eval_loop (pass_call (\<lambda>_. 0) sample_env) fuel 5 st')
    \<and> es_mnt_params st' = [Some (bytes_of_string ''ecryptfs_sig='' @ sig), None]"
proof -
  let ?st = "sample_pass_state [sample_pair ''passwd'' ''abc'']"
  let ?salt = "[0, 0x11, 0x22, 0x33, 0x44, 0x55, 0x66, 0x77] :: byte list"
  have st: "es_mem ?st = []" "es_nvps ?st = [sample_pair ''passwd'' ''abc'']" "es_mnt_params ?st = [None]"
    "lc_keys (es_ctx ?st) = []"
    by (simp_all add: sample_pass_state_def)
  have live: "names_live (es_nvps ?st)" "Live (bytes_of_string ''default'') \<notin> nv_name ` set (es_nvps ?st)"
    unfolding st by (simp_all add: sample_pair_def)
  have hex: "from_hex (bytes_of_string ''0011223344556677'' @ [0]) SIG_SIZE = Some ?salt" by code_simp
  obtain rc sig keys where k: "ecryptfs_add_passphrase_key_to_keyring (pe_hash sample_env) (pe_keyring sample_env)
      (lc_keys (es_ctx ?st)) (bytes_of_string ''abc'') ?salt [] = Some (rc, Some sig, keys, [])" "0 \<le> rc"
    using list_keyring_add [OF toy_hash_total, of ?salt "bytes_of_string ''abc''" "[]"]
    by (auto simp: sample_env_def st)
  have "\<exists>st'. (\<forall>fuel. eval_loop (pass_call (\<lambda>_. 0) sample_env) (Suc (Suc (Suc fuel))) 0 ?st
       = eval_loop (pass_call (\<lambda>_. 0) sample_env) fuel 5 st')
    \<and> es_mnt_params st' = Some (bytes_of_string ''ecryptfs_sig='' @ sig) # es_mnt_params ?st
    \<and> lc_keys (es_ctx st') = keys \<and> es_nvps st' = [mark_used (sample_pair ''passwd'' ''abc'')]"
    by (rule passphrase_subgraph_adds_key [where ?nvps1.0 = "[mark_used (sample_pair ''passwd'' ''abc'')]",
        OF sample_pass_nodes st(1) live _ _ _ _ _ _ hex k])
      (use sample_given in \<open>simp_all add: st\<close>)
  then show ?thesis unfolding st by blast
qed

text \<open>
  The passphrase \<open>default\<close> given as an option makes no key: the callback runs for the
  transition of that name, its token \<open>DEFAULT_TOK\<close> is taken for a final status, and the
  evaluation reports success. The keyring is as before, and the passphrase itself is left among
  the mount options.
\<close>

theorem passphrase_default_makes_no_key:
  assumes "pass_nodes_at (\<lambda>f. f) b e (es_graph st)" and "es_mem st = []" and "names_live (es_nvps st)"
    and "Live (bytes_of_string ''passphrase_salt'') \<notin> nv_name ` set (es_nvps st)"
    and "not_given [''passphrase_type''] (es_nvps st)"
    and "given [''passphrase_passwd'', ''passwd''] (es_nvps st) (bytes_of_string ''default'') nvps"
    and "es_mnt_params st \<noteq> []" and "get_verbosity (es_nvps st) = Some vb"
  shows "\<exists>st'. ecryptfs_eval_decision_graph (pass_call junk env) (Suc (Suc fuel)) b st = Some (Some (0, st'))
    \<and> es_ctx st' = es_ctx st \<and> es_mnt_params st' = [Some (bytes_of_string ''default''), None]"
proof -
  let ?st = "st\<lparr>es_mnt_params := [None], es_foo := None, es_verbosity := vb\<rparr>"
  obtain st' where "eval_loop (pass_call junk env) (Suc (Suc fuel)) b ?st = Some (Some (DEFAULT_TOK, st'))"
    "es_ctx st' = es_ctx st" "es_mnt_params st' = [Some (bytes_of_string ''default''), None]"
    using passphrase.passphrase_default_stops [of b e ?st nvps junk env fuel] assms(1-6) by auto
  then show ?thesis using assms(7,8)
    by (simp add: ecryptfs_eval_decision_graph_def eval_param_tree_def del: eval_loop.simps)
qed

theorem passphrase_default_makes_no_key_witness:
  "\<exists>st'. ecryptfs_eval_decision_graph (pass_call (\<lambda>_. 0) sample_env) 2 0
       (sample_pass_state [sample_pair ''passwd'' ''default'']) = Some (Some (0, st'))
    \<and> lc_keys (es_ctx st') = [] \<and> es_mnt_params st' = [Some (bytes_of_string ''default''), None]"
proof -
  let ?st = "sample_pass_state [sample_pair ''passwd'' ''default'']"
  have st: "es_mem ?st = []" "es_nvps ?st = [sample_pair ''passwd'' ''default'']" "es_mnt_params ?st \<noteq> []"
    "lc_keys (es_ctx ?st) = []"
    by (simp_all add: sample_pass_state_def)
  have o: "names_live (es_nvps ?st)" "Live (bytes_of_string ''passphrase_salt'') \<notin> nv_name ` set (es_nvps ?st)"
    "not_given [''passphrase_type''] (es_nvps ?st)"
    "given [''passphrase_passwd'', ''passwd''] (es_nvps ?st) (bytes_of_string ''default'')
       [mark_used (sample_pair ''passwd'' ''default'')]" "get_verbosity (es_nvps ?st) = Some 1"
    unfolding st by (simp_all add: given_def not_given_def sample_pair_def zero_nv_def has_flag_def mark_used_def)
  show ?thesis
    using passphrase_default_makes_no_key [OF sample_pass_nodes st(1) o(1-4) st(3) o(5), of "\<lambda>_. 0" sample_env 0] st(4)
    by (auto simp: numeral_2_eq_2)
qed

subsection \<open>Passphrase files with a salt\<close>

text \<open>Once the value of the node is freed, the callback fails to open the null path.\<close>

lemma tf_pass_file_again:
  assumes "es_graph st c = Some n" and "pn_val n = None" and "es_mem st = []"
    and "pn_mnt_opt_names n = bytes_of_string ''passphrase_passwd_file'' # names"
  shows "tf_pass_file junk env c st = Some (- EFAULT, st)"
proof -
  have "n\<lparr>pn_val := None\<rparr> = n" using assms(2) by simp
  then show ?thesis
    using assms by (cases st) (auto simp: tf_pass_file_def set_node_def Let_def)
qed

lemma tf_pass_file_first:
  assumes "es_graph st c = Some n" and "pn_val n = Some path" and "es_mem st = []"
    and "pn_mnt_opt_names n = bytes_of_string ''passphrase_passwd_file'' # names"
    and "pe_open env (string_of_bytes path) = Inr f"
    and "parse_options_file junk f [] [] = Some (0, nvps, [])" and "find_passwd nvps = Some (Some (Live p))"
  shows "tf_pass_file junk env c st = Some (0, st\<lparr>es_mnt_params := Some p # es_mnt_params st,
     es_graph := (es_graph st)(c \<mapsto> n\<lparr>pn_val := None\<rparr>)\<rparr>)"
  using assms by (cases st) (auto simp: tf_pass_file_def set_node_def Let_def asprintf_s_def push_param_ok)

text \<open>
  A passphrase file together with the option \<open>passphrase_salt\<close> can never be mounted. The
  option selects the first transition of the node, whose callback reads the file; since its
  status 0 is no token, the search goes on and the callback runs again for the default
  transition, now without a path, and the evaluation ends with \<open>-EFAULT\<close>.
\<close>

theorem passphrase_file_with_salt_fails:
  assumes "es_graph st c = Some n"
    and "n = (passphrase_param_nodes (\<lambda>f. f) b ! PASS_FILE_TOK)\<lparr>pn_val := Some path\<rparr>"
    and "path \<noteq> bytes_of_string ''passphrase_salt''" "path \<noteq> bytes_of_string ''default''"
    and "names_live (es_nvps st)" and "Live (bytes_of_string ''default'') \<notin> nv_name ` set (es_nvps st)"
    and "Live (bytes_of_string ''passphrase_salt'') \<in> nv_name ` set (es_nvps st)"
    and "es_mem st = []"
    and "pe_open env (string_of_bytes path) = Inr f"
    and "parse_options_file junk f [] [] = Some (0, nvps, [])" and "find_passwd nvps = Some (Some (Live p))"
  shows "\<exists>st'. eval_loop (pass_call junk env) (Suc fuel) c st = Some (Some (- EFAULT, st'))
    \<and> es_ctx st' = es_ctx st"
proof -
  let ?call = "pass_call junk env"
  define st1 where "st1 = st\<lparr>es_repeated := (if es_lastnode st = Some c then es_repeated st else 0),
      es_lastnode := Some c\<rparr>"
  have upd: "(if es_lastnode st \<noteq> Some c then st\<lparr>es_repeated := 0\<rparr> else st)\<lparr>es_lastnode := Some c\<rparr> = st1"
    by (cases st) (simp add: st1_def)
  define st2 where "st2 = st1\<lparr>es_mnt_params := Some p # es_mnt_params st1,
     es_graph := (es_graph st1)(c \<mapsto> n\<lparr>pn_val := None\<rparr>)\<rparr>"
  define t0 t1 :: "pass_fn transition_node" where
    "t0 = mk_tn ''passphrase_salt'' ''salt'' (Some (b + SALT_TOK)) (Some Tf_Pass_File)" and
    "t1 = mk_tn ''default'' ''default'' (Some (b + SALT_TOK)) (Some Tf_Pass_File)"
  have n: "pn_tl n = [t0, t1]" "pn_val n = Some path"
    "pn_mnt_opt_names n = bytes_of_string ''passphrase_passwd_file'' # [bytes_of_string ''passfile'']"
    using assms(2) by (simp_all add: t0_def t1_def passphrase_param_nodes_def mk_node_def)
  have g: "es_graph st1 c = Some n" "es_graph st2 c = Some (n\<lparr>pn_val := None\<rparr>)"
    and m: "es_mem st1 = []" "es_mem st2 = []" and nv: "es_nvps st1 = es_nvps st" "es_nvps st2 = es_nvps st"
    using assms(1,8) by (simp_all add: st1_def st2_def)
  have first: "tf_pass_file junk env c st1 = Some (0, st2)"
    using tf_pass_file_first [OF g(1) n(2) m(1) n(3) assms(9-11)] by (simp add: st2_def)
  have again: "tf_pass_file junk env c st2 = Some (- EFAULT, st2)"
    by (rule tf_pass_file_again [OF g(2) _ m(2)]) (simp_all add: n(3))
  have run: "run_trans ?call c t d st1 = Some (0, st2)" "run_trans ?call c t d st2 = Some (- EFAULT, st2)"
    if "t \<in> {t0, t1}" for t d
    using that first again by (auto simp: run_trans_def t0_def t1_def mk_tn_def)
  have v: "tn_val t0 = Some (bytes_of_string ''passphrase_salt'')" "tn_val t1 = Some (bytes_of_string ''default'')"
    by (simp_all add: t0_def t1_def mk_tn_def)
  have at: "trans_at c 0 st1 = Some t0" "trans_at c 0 st2 = Some t0" "trans_at c 1 st2 = Some t1"
    using g n by (simp_all add: trans_at_def)
  have scan2: "trans_nvps ?call c 0 ps st2 = Some (None, st2)" if "names_live ps" for ps
    using that by (induction ps) (use at v run in auto)
  have scan: "trans_nvps ?call c 0 ps st1 = Some (None, st2)"
    if "names_live ps" "Live (bytes_of_string ''passphrase_salt'') \<in> nv_name ` set ps" for ps
    using that
  proof (induction ps)
    case (Cons q qs)
    obtain a where q: "nv_name q = Live a" and qs: "names_live qs" using Cons.prems by auto
    show ?case
      by (cases "a = bytes_of_string ''passphrase_salt''")
        (use Cons.IH Cons.prems(2) qs at v run scan2 [OF qs] q in auto)
  qed simp
  have scan1: "trans_nvps ?call c 1 (es_nvps st) st2 = Some (None, st2)"
    by (rule trans_nvps_no_match [OF at(3) v(2) assms(5,6)])
  have two: "[2..<MAX_NUM_TRANSITIONS] = 2 # [3..<MAX_NUM_TRANSITIONS]" by (simp add: upt_conv_Cons)
  have "trans_first ?call c [0..<MAX_NUM_TRANSITIONS] st1 = Some (None, st2)"
    unfolding slots_64 two using g n v assms(3,4) scan [OF assms(5,7)] scan1 nv by simp
  moreover have "trans_default ?call c [0..<MAX_NUM_TRANSITIONS] st2 = Some (Some (- EFAULT, None), st2)"
    unfolding slots_64 using g n v run at by (simp add: Let_def)
  ultimately have "do_transition ?call c st = Some ((- EFAULT, None), st2)"
    unfolding do_transition_def Let_def upd using g(2) by simp
  moreover have "alloc_and_get_val c st = Some (0, st)" using assms(1) n(2) by (simp add: alloc_and_get_val_def)
  ultimately have "eval_loop ?call (Suc fuel) c st = Some (Some (- EFAULT, st2))" by simp
  then show ?thesis by (intro exI [of _ st2]) (simp add: st2_def st1_def del: eval_loop.simps)
qed

definition sample_file :: open_file where
  "sample_file = \<lparr>of_fstat = 0, of_kind = Regular_File, of_size = length (bytes_of_string ''passwd=abc''),
     of_content = bytes_of_string ''passwd=abc'', of_end = None\<rparr>"

lemma sample_file_read:
  "\<exists>nvps. parse_options_file (\<lambda>_. 0) sample_file [] [] = Some (0, nvps, [])
     \<and> find_passwd nvps = Some (Some (Live (bytes_of_string ''abc'')))"
proof -
  let ?o = "(bytes_of_string ''passwd'', Some (bytes_of_string ''abc''))"
  have ok: "list_all opt_ok [?o]" and jn: "join_with 44 (map nv_text [?o]) = bytes_of_string ''passwd=abc''"
    by (simp_all add: opt_ok_def nv_plain_def nv_text_def bytes_of_string_def is_colon_list_def)
  have "generate_nv_list [] (Some (bytes_of_string ''passwd=abc'')) [] = Some (0, map opt_node [?o], [])"
    using nv_list_loop_opts [OF ok, of "([], [])"] jn by (simp add: generate_nv_list_def)
  moreover have "parse_options_file (\<lambda>_. 0) sample_file [] []
      = generate_nv_list [] (Some (bytes_of_string ''passwd=abc'')) []"
    using parse_regular_file [of "bytes_of_string ''passwd=abc''" "\<lambda>_. 0" "[]"]
    by (simp add: sample_file_def bytes_of_string_def)
  ultimately show ?thesis by (simp add: nv_node_def)
qed

theorem passphrase_file_with_salt_fails_witness:
  "\<exists>st'. eval_loop (pass_call (\<lambda>_. 0) (sample_env\<lparr>pe_open := (\<lambda>_. Inr sample_file)\<rparr>)) 1 2
      ((sample_pass_state [sample_pair ''passphrase_salt'' ''0011223344556677''])\<lparr>es_graph :=
        [2 \<mapsto> (passphrase_param_nodes (\<lambda>f. f) 0 ! PASS_FILE_TOK)\<lparr>pn_val := Some (bytes_of_string ''/p'')\<rparr>]\<rparr>)
    = Some (Some (- EFAULT, st')) \<and> lc_keys (es_ctx st') = []"
proof -
  let ?p = "sample_pair ''passphrase_salt'' ''0011223344556677''"
  let ?n = "(passphrase_param_nodes (\<lambda>f. f) 0 ! PASS_FILE_TOK)\<lparr>pn_val := Some (bytes_of_string ''/p'')\<rparr>"
  let ?st = "(sample_pass_state [?p])\<lparr>es_graph := [2 \<mapsto> ?n]\<rparr>"
  let ?env = "sample_env\<lparr>pe_open := (\<lambda>_. Inr sample_file)\<rparr>"
  obtain nvps where f: "parse_options_file (\<lambda>_. 0) sample_file [] [] = Some (0, nvps, [])"
    "find_passwd nvps = Some (Some (Live (bytes_of_string ''abc'')))"
    using sample_file_read by blast
  have st: "es_nvps ?st = [?p]" "es_mem ?st = []" "es_graph ?st 2 = Some ?n" "lc_keys (es_ctx ?st) = []"
    by (simp_all add: sample_pass_state_def)
  have o: "names_live (es_nvps ?st)" "Live (bytes_of_string ''default'') \<notin> nv_name ` set (es_nvps ?st)"
    "Live (bytes_of_string ''passphrase_salt'') \<in> nv_name ` set (es_nvps ?st)"
    unfolding st by (simp_all add: sample_pair_def)
  show ?thesis
    using passphrase_file_with_salt_fails [where env = ?env and fuel = 0, OF st(3) refl _ _ o st(2) _ f] st(4)
    by (auto simp del: eval_loop.simps)
qed

end
