(* ===== verification/Module_Mgr.thy ===== *)
theory Module_Mgr
  imports Passphrase_Mod Mounts
begin

text \<open>
  The mount options, from \<open>src/libecryptfs/module_mgr.c\<close>: the static nodes of the decision
  graph, their callbacks, some of which rewire the graph while it is evaluated, the selection
  of cipher and key size, and the two entry points that build the graph from the registered
  key modules and evaluate it.

  The static nodes have fixed numbers, the nodes of the passphrase module follow, and nodes
  that are allocated come after those. A key module from a shared object may bring its own
  nodes and callbacks; the latter are the type parameter \<open>'x\<close>.
\<close>

datatype 'x graph_fn =
    Sig_Param_Node
  | Get_Hmac
  | Get_Passthrough
  | Get_Xattr
  | Get_Encrypted_Passthrough
  | Filename_Crypto_Fnek_Sig
  | Get_Enable_Filename_Crypto
  | Tf_Ecryptfs_Key_Bytes
  | Tf_Ecryptfs_Cipher
  | Another_Key_Param_Node
  | Linear subgraph_fn
  | Passphrase pass_fn
  | Foreign 'x

type_synonym 'x mgr_tn = "'x graph_fn transition_node"
type_synonym ('x, 'k) mgr_state =
  "('x graph_fn, sg_ptr, ('x mgr_tn, 'k) lib_ctx) eval_state"

subsection \<open>Static nodes\<close>

abbreviation (input) KEY_MODULE_SELECT :: nat where "KEY_MODULE_SELECT \<equiv> 0"
abbreviation (input) ROOT_PARAM :: nat where "ROOT_PARAM \<equiv> 1"
abbreviation (input) END_PARAM :: nat where "END_PARAM \<equiv> 2"
abbreviation (input) FNEK_SIG :: nat where "FNEK_SIG \<equiv> 3"
abbreviation (input) ENABLE_FILENAME_CRYPTO :: nat where "ENABLE_FILENAME_CRYPTO \<equiv> 4"
abbreviation (input) VERSION_SUPPORT :: nat where "VERSION_SUPPORT \<equiv> 5"
abbreviation (input) ENCRYPTED_PASSTHROUGH :: nat where "ENCRYPTED_PASSTHROUGH \<equiv> 6"
abbreviation (input) XATTR_PARAM :: nat where "XATTR_PARAM \<equiv> 7"
abbreviation (input) PASSTHROUGH :: nat where "PASSTHROUGH \<equiv> 8"
abbreviation (input) HMAC_PARAM :: nat where "HMAC_PARAM \<equiv> 9"
abbreviation (input) KEY_BYTES :: nat where "KEY_BYTES \<equiv> 10"
abbreviation (input) CIPHER_PARAM :: nat where "CIPHER_PARAM \<equiv> 11"
abbreviation (input) ANOTHER_KEY :: nat where "ANOTHER_KEY \<equiv> 12"
abbreviation (input) DUMMY_PARAM :: nat where "DUMMY_PARAM \<equiv> 13"
abbreviation (input) PASS_NODES :: nat where "PASS_NODES \<equiv> 14"

definition one_tn :: "nat option \<Rightarrow> 'x graph_fn option \<Rightarrow> 'x mgr_tn list" where
  "one_tn next f = [mk_tn ''default'' ''default'' next f]"

definition key_module_select_node :: "'x graph_fn param_node" where
  "key_module_select_node = mk_node [''key''] ''Select key type to use for newly created files'' None
     (DISPLAY_TRANSITION_NODE_VALS OR PARAM_FLAG_ECHO_INPUT) []"

definition root_param_node :: "'x graph_fn param_node" where
  "root_param_node = mk_node [''sig''] ''Existing key signature'' (Some ''NULL'')
     (PARAM_FLAG_NO_VALUE OR NO_AUTO_TRANSITION) (one_tn (Some CIPHER_PARAM) (Some Sig_Param_Node))"

text \<open>The number of transitions is 0 here, although the array has an entry.\<close>

definition end_param_node :: "'x graph_fn param_node" where
  "end_param_node = mk_node [''end''] ''end'' None PARAM_FLAG_NO_VALUE []"

definition filename_crypto_fnek_sig_param_node :: "'x graph_fn param_node" where
  "filename_crypto_fnek_sig_param_node =
     mk_node [''ecryptfs_fnek_sig''] ''Filename Encryption Key (FNEK) Signature'' None
       (PARAM_FLAG_NO_VALUE OR NO_AUTO_TRANSITION) (one_tn (Some END_PARAM) (Some Filename_Crypto_Fnek_Sig))"

definition enable_filename_crypto_param_node :: "'x graph_fn param_node" where
  "enable_filename_crypto_param_node =
     mk_node [''ecryptfs_enable_filename_crypto''] ''Enable filename encryption (y/n)'' None
       PARAM_FLAG_ECHO_INPUT (one_tn (Some FNEK_SIG) (Some Get_Enable_Filename_Crypto))"

definition ecryptfs_version_support_node :: "'x graph_fn param_node" where
  "ecryptfs_version_support_node = mk_node [''end''] ''end'' None PARAM_FLAG_NO_VALUE (one_tn None None)"

definition encrypted_passthrough_param_node :: "'x graph_fn param_node" where
  "encrypted_passthrough_param_node =
     mk_node [''ecryptfs_encrypted_view''] ''Pass through encrypted versions of all files (y/N)''
       (Some ''n'') PARAM_FLAG_ECHO_INPUT (one_tn (Some END_PARAM) (Some Get_Encrypted_Passthrough))"

definition xattr_param_node :: "'x graph_fn param_node" where
  "xattr_param_node =
     mk_node [''ecryptfs_xattr''] ''Write metadata to extended attribute region (y/N)'' (Some ''n'')
       PARAM_FLAG_ECHO_INPUT (one_tn (Some END_PARAM) (Some Get_Xattr))"

definition passthrough_param_node :: "'x graph_fn param_node" where
  "passthrough_param_node =
     mk_node [''ecryptfs_passthrough''] ''Enable plaintext passthrough (y/n)'' None
       PARAM_FLAG_ECHO_INPUT (one_tn (Some END_PARAM) (Some Get_Passthrough))"

definition hmac_param_node :: "'x graph_fn param_node" where
  "hmac_param_node =
     mk_node [''ecryptfs_hmac''] ''Enable HMAC integrity verification (y/N)'' None
       PARAM_FLAG_ECHO_INPUT (one_tn (Some END_PARAM) (Some Get_Hmac))"

definition ecryptfs_key_bytes_param_node :: "'x graph_fn param_node" where
  "ecryptfs_key_bytes_param_node = mk_node [''ecryptfs_key_bytes''] ''Select key bytes'' None
     (DISPLAY_TRANSITION_NODE_VALS OR FORCE_DISPLAY_NODES OR PARAM_FLAG_ECHO_INPUT) []"

definition ecryptfs_cipher_param_node :: "'x graph_fn param_node" where
  "ecryptfs_cipher_param_node = mk_node [''ecryptfs_cipher''] ''Select cipher'' None
     (DISPLAY_TRANSITION_NODE_VALS OR 0x0400 OR PARAM_FLAG_ECHO_INPUT) []"

definition another_key_param_node :: "'x graph_fn param_node" where
  "another_key_param_node = mk_node [''another_key''] ''Internal check for another key'' (Some ''NULL'')
     (PARAM_FLAG_NO_VALUE OR NO_AUTO_TRANSITION) (one_tn (Some CIPHER_PARAM) (Some Another_Key_Param_Node))"

definition dummy_param_node :: "'x graph_fn param_node" where
  "dummy_param_node = mk_node [''dummy''] ''dummy'' None PARAM_FLAG_NO_VALUE []"

definition static_nodes :: "'x graph_fn param_node list" where
  "static_nodes =
     [key_module_select_node, root_param_node, end_param_node, filename_crypto_fnek_sig_param_node,
      enable_filename_crypto_param_node, ecryptfs_version_support_node, encrypted_passthrough_param_node,
      xattr_param_node, passthrough_param_node, hmac_param_node, ecryptfs_key_bytes_param_node,
      ecryptfs_cipher_param_node, another_key_param_node, dummy_param_node]
     @ passphrase_param_nodes Passphrase PASS_NODES"

abbreviation (input) FIRST_FREE :: nat where "FIRST_FREE \<equiv> 19"

definition static_graph :: "'x graph_fn graph" where
  "static_graph k = (let ns = static_nodes in if k < length ns then Some (ns ! k) else None)"

subsection \<open>Callbacks\<close>

definition set_next :: "nat \<Rightarrow> nat option \<Rightarrow> ('x, 'k) mgr_state \<Rightarrow> ('x, 'k) mgr_state" where
  "set_next k m st = st\<lparr>es_graph := update_tn k 0 (\<lambda>t. t\<lparr>tn_next_token := m\<rparr>) (es_graph st)\<rparr>"

text \<open>The next node of the first transition; the array has one even when it is not in use.\<close>

definition next_of :: "nat \<Rightarrow> ('x, 'k) mgr_state \<Rightarrow> nat option option" where
  "next_of k st = do {
     n \<leftarrow> es_graph st k;
     (case pn_tl n of [] \<Rightarrow> None | tn # _ \<Rightarrow> Some (tn_next_token tn)) }"

text \<open>\<open>asprintf(&param, \<dots>)\<close> and \<open>stack_push\<close>.\<close>

definition push_opt ::
  "string \<Rightarrow> byte list \<Rightarrow> ('x, 'k) mgr_state \<Rightarrow> int \<times> ('x, 'k) mgr_state" where
  "push_opt name v st =
     (case es_malloc st of
        (False, st) \<Rightarrow> (- ENOMEM, st)
      | (True, st) \<Rightarrow> push_param (Some (bytes_of_string name @ v)) st)"

definition unset_val :: "byte list option \<Rightarrow> bool" where
  "unset_val v \<longleftrightarrow> v = None \<or> v = Some (bytes_of_string ''NULL'')"

definition sig_param_node_callback ::
  "nat \<Rightarrow> ('x, 'k) mgr_state \<Rightarrow> (int \<times> ('x, 'k) mgr_state) option" where
  "sig_param_node_callback cur st = do {
     n \<leftarrow> es_graph st cur;
     if unset_val (pn_val n) then Some (0, set_next cur (Some KEY_MODULE_SELECT) st)
     else Some (push_opt ''ecryptfs_sig='' (the (pn_val n)) st) }"

definition is_yes :: "byte list option \<Rightarrow> int \<Rightarrow> int" where
  "is_yes s on_null =
     (case s of
        None \<Rightarrow> on_null
      | Some s \<Rightarrow>
          if s = bytes_of_string ''y'' \<or> s = bytes_of_string ''yes'' then 1
          else if s = bytes_of_string ''no'' \<or> s = bytes_of_string ''n'' then 0 else -1)"

definition stack_push_if_yes ::
  "nat \<Rightarrow> string \<Rightarrow> ('x, 'k) mgr_state \<Rightarrow> (int \<times> ('x, 'k) mgr_state) option" where
  "stack_push_if_yes cur opt_name st = do {
     n \<leftarrow> es_graph st cur;
     let rc = is_yes (pn_val n) 0;
     let (rc, st) = (if rc = 1 \<or> has_flag (pn_flags n) PARAMETER_SET
                     then push_param (Some (bytes_of_string opt_name)) st
                     else if rc = -1 then (WRONG_VALUE, st) else (rc, st));
     Some (rc, set_node cur (n\<lparr>pn_val := None\<rparr>) st) }"

definition filename_crypto_fnek_sig_callback ::
  "nat \<Rightarrow> ('x, 'k) mgr_state \<Rightarrow> (int \<times> ('x, 'k) mgr_state) option" where
  "filename_crypto_fnek_sig_callback cur st = do {
     n \<leftarrow> es_graph st cur;
     if unset_val (pn_val n) then do {
       m \<leftarrow> next_of cur st;
       let st = set_node cur (n\<lparr>pn_flags := PARAM_FLAG_ECHO_INPUT\<rparr>) st;
       Some (0, set_next cur (Some ENABLE_FILENAME_CRYPTO) (set_next ENABLE_FILENAME_CRYPTO m st)) }
     else Some (push_opt ''ecryptfs_fnek_sig='' (the (pn_val n)) st) }"

text \<open>
  The first option of the stack that starts with \<open>ecryptfs_sig=\<close>. The comparison reads every
  string on the way; the string at the bottom of the stack is a null pointer.
\<close>

fun find_sig :: "byte list option list \<Rightarrow> byte list option option" where
  "find_sig [] = Some None"
| "find_sig (None # vs) = None"
| "find_sig (Some v # vs) =
     (if take 13 v = bytes_of_string ''ecryptfs_sig='' then Some (Some (drop 13 v)) else find_sig vs)"

definition get_enable_filename_crypto ::
  "nat \<Rightarrow> ('x, 'k) mgr_state \<Rightarrow> (int \<times> ('x, 'k) mgr_state) option" where
  "get_enable_filename_crypto cur st = do {
     n \<leftarrow> es_graph st cur;
     let yn = is_yes (pn_val n) 0;
     let done = (\<lambda>rc st. do {
           n \<leftarrow> es_graph st cur;
           Some (rc, set_node cur (n\<lparr>pn_val := None\<rparr>) st) });
     if 0 < yn \<or> has_flag (pn_flags n) PARAMETER_SET then do {
       m \<leftarrow> next_of cur st;
       fnek \<leftarrow> es_graph st FNEK_SIG;
       let fnek = fnek\<lparr>pn_tl := map (\<lambda>t. t\<lparr>tn_next_token := m\<rparr>) (pn_tl fnek)\<rparr>;
       let st = set_next cur (Some FNEK_SIG) (set_node FNEK_SIG fnek st);
       s \<leftarrow> find_sig (es_mnt_params st);
       (case s of
          None \<Rightarrow> done 0 st
        | Some s \<Rightarrow>
            (case es_malloc st of
               (False, st) \<Rightarrow> done (- ENOMEM) st
             | (True, st) \<Rightarrow> do {
                 fnek \<leftarrow> es_graph st FNEK_SIG;
                 done 0 (set_node FNEK_SIG (fnek\<lparr>pn_suggested_val := Some s\<rparr>) st) })) }
     else done (if pn_val n \<noteq> None \<and> yn < 0 then WRONG_VALUE else 0) st }"

subsection \<open>Ciphers and key sizes\<close>

definition supported_key_bytes :: "(string \<times> nat) list" where
  "supported_key_bytes =
     [(''aes'', 16), (''aes'', 32), (''aes'', 24), (''anubis'', 16), (''anubis'', 32), (''des3_ede'', 24),
      (''serpent'', 16), (''serpent'', 32), (''tnepres'', 16), (''tnepres'', 32), (''tea'', 16), (''xeta'', 16),
      (''xtea'', 16), (''cast5'', 16), (''cast6'', 16), (''cast6'', 32), (''twofish'', 16), (''twofish'', 32),
      (''blowfish'', 16), (''blowfish'', 32), (''blowfish'', 56), (''khazad'', 16), (''arc4'', 16),
      (''arc4'', 32)]"

definition cipher_descriptors :: "(string \<times> nat \<times> nat \<times> nat) list" where
  "cipher_descriptors =
     [(''aes'', 16, 16, 32), (''blowfish'', 8, 16, 56), (''des3_ede'', 8, 24, 24), (''twofish'', 16, 16, 32),
      (''cast6'', 16, 16, 32), (''cast5'', 8, 5, 16)]"

text \<open>A number in decimal.\<close>

fun decimal :: "nat \<Rightarrow> string" where
  "decimal n = (if n < 10 then [char_of (48 + n)] else decimal (n div 10) @ [char_of (48 + n mod 10)])"

definition tf_ecryptfs_key_bytes ::
  "nat \<Rightarrow> ('x, 'k) mgr_state \<Rightarrow> (int \<times> ('x, 'k) mgr_state) option" where
  "tf_ecryptfs_key_bytes cur st = do {
     n \<leftarrow> es_graph st cur;
     Some (push_opt ''ecryptfs_key_bytes='' (case pn_val n of None \<Rightarrow> bytes_of_string ''(null)'' | Some v \<Rightarrow> v)
       (set_node cur (n\<lparr>pn_val := None\<rparr>) st)) }"

text \<open>\<open>asprintf(&node.suggested_val, \<dots>)\<close> unless it is set.\<close>

definition suggest ::
  "string \<Rightarrow> 'f param_node \<Rightarrow> schedule \<Rightarrow> bool \<times> 'f param_node \<times> schedule" where
  "suggest v n mem =
     (if pn_suggested_val n \<noteq> None then (True, n, mem)
      else (case malloc_ok mem of
         (False, mem) \<Rightarrow> (False, n, mem)
       | (True, mem) \<Rightarrow> (True, n\<lparr>pn_suggested_val := Some (bytes_of_string v)\<rparr>, mem)))"

text \<open>
  The key sizes of the cipher that lie between \<open>min\<close> and \<open>max\<close>; these are compared as unsigned
  numbers. One transition is added for each.
\<close>

definition in_range :: "int \<Rightarrow> int \<Rightarrow> nat \<Rightarrow> bool" where
  "in_range mn mx k \<longleftrightarrow> (word_of_int mn :: u32) \<le> word_of_nat k \<and> word_of_nat k \<le> (word_of_int mx :: u32)"

definition key_bytes_tn :: "nat \<Rightarrow> 'x mgr_tn" where
  "key_bytes_tn k = zero_tn\<lparr>tn_val := Some (bytes_of_string (decimal k)),
     tn_next_token := Some VERSION_SUPPORT, tn_trans_func := Some Tf_Ecryptfs_Key_Bytes\<rparr>"

fun add_key_bytes ::
  "byte list \<Rightarrow> int \<Rightarrow> int \<Rightarrow> (string \<times> nat) list \<Rightarrow> 'x graph_fn param_node \<Rightarrow> schedule
   \<Rightarrow> int \<times> 'x graph_fn param_node \<times> schedule" where
  "add_key_bytes cipher mn mx [] n mem = (0, n, mem)"
| "add_key_bytes cipher mn mx ((c, k) # ks) n mem =
     (if in_range mn mx k \<and> cipher = bytes_of_string c then
        (case malloc_ok mem of
           (False, mem) \<Rightarrow> (- ENOMEM, n, mem)
         | (True, mem) \<Rightarrow>
             (case suggest (decimal k) n mem of
                (False, n, mem) \<Rightarrow> (- ENOMEM, n, mem)
              | (True, n, mem) \<Rightarrow>
                  add_key_bytes cipher mn mx ks (n\<lparr>pn_tl := pn_tl n @ [key_bytes_tn k]\<rparr>) mem))
      else add_key_bytes cipher mn mx ks n mem)"

text \<open>The array of transitions has no room for more than 64, which the code does not check.\<close>

definition init_ecryptfs_key_bytes_param_node ::
  "byte list \<Rightarrow> int \<Rightarrow> int \<Rightarrow> ('x, 'k) mgr_state \<Rightarrow> (int \<times> ('x, 'k) mgr_state) option" where
  "init_ecryptfs_key_bytes_param_node cipher mn mx st = do {
     n \<leftarrow> es_graph st KEY_BYTES;
     (case add_key_bytes cipher mn mx supported_key_bytes n (es_mem st) of
        (rc, n, mem) \<Rightarrow>
          let st = set_node KEY_BYTES n (st\<lparr>es_mem := mem\<rparr>) in
          if MAX_NUM_TRANSITIONS < length (pn_tl n) then None
          else Some (if rc = 0 \<and> pn_tl n = [] then - EINVAL else rc, st)) }"

text \<open>\<open>strtol(s, &end, 10)\<close> finds no digits.\<close>

definition no_number :: "byte list \<Rightarrow> bool" where
  "no_number s =
     (let t = dropWhile c_isspace s;
          t = (case t of b # bs \<Rightarrow> if b = 45 \<or> b = 43 then bs else t | [] \<Rightarrow> [])
      in (case t of [] \<Rightarrow> True | d # _ \<Rightarrow> \<not> is_digit_of 10 d))"

text \<open>
  A limit on the stack: an option in which the name occurs. The number stands after the first
  \<open>=\<close> of the option, and is cut to an \<open>int\<close>.
\<close>

definition limit_of :: "string \<Rightarrow> byte list option \<Rightarrow> (unit + int) option" where
  "limit_of name v =
     (case v of
        None \<Rightarrow> None
      | Some v \<Rightarrow>
          if sublist (bytes_of_string name) v then
            (let s = tl (dropWhile (\<lambda>b. b \<noteq> 61) v) in
             Some (if no_number s then Inl () else Inr (sint (word_of_int (c_strtol 10 s) :: u32))))
          else None)"

text \<open>
  The loop of \<open>tf_ecryptfs_cipher\<close> over the stack: limits are taken off it. After one is taken
  off, the entry below it is passed over; there must be one.
\<close>

fun strip_limits ::
  "byte list option list \<Rightarrow> int \<Rightarrow> int \<Rightarrow> (int \<times> byte list option list \<times> int \<times> int) option" where
  "strip_limits [] mn mx = Some (0, [], mn, mx)"
| "strip_limits (v # vs) mn mx =
     (let mxv = limit_of ''max_key_bytes='' v; mnv = limit_of ''min_key_bytes='' v in
      if mxv = Some (Inl ()) \<or> mnv = Some (Inl ()) then Some (- EINVAL, v # vs, mn, mx)
      else let mx = (case mxv of Some (Inr x) \<Rightarrow> x | _ \<Rightarrow> mx); mn = (case mnv of Some (Inr x) \<Rightarrow> x | _ \<Rightarrow> mn)
      in if mxv = None \<and> mnv = None
         then map_option (\<lambda>(rc, ws, r). (rc, v # ws, r)) (strip_limits vs mn mx)
         else (case vs of
            [] \<Rightarrow> None
          | w # ws \<Rightarrow> map_option (\<lambda>(rc, us, r). (rc, w # us, r)) (strip_limits ws mn mx)))"

definition tf_ecryptfs_cipher ::
  "nat \<Rightarrow> ('x, 'k) mgr_state \<Rightarrow> (int \<times> ('x, 'k) mgr_state) option" where
  "tf_ecryptfs_cipher cur st = do {
     (rc, params, mn, mx) \<leftarrow> strip_limits (es_mnt_params st) 0 999999;
     let st = st\<lparr>es_mnt_params := params\<rparr>;
     if rc \<noteq> 0 then Some (rc, st)
     else do {
       n \<leftarrow> es_graph st cur;
       cipher \<leftarrow> pn_val n;
       (rc, st) \<leftarrow> init_ecryptfs_key_bytes_param_node cipher mn mx st;
       if rc \<noteq> 0 then Some (rc, st)
       else do {
         n \<leftarrow> es_graph st cur;
         Some (push_opt ''ecryptfs_cipher='' cipher (set_node cur (n\<lparr>pn_val := None\<rparr>) st)) } } }"

definition cipher_tn :: "string \<times> nat \<times> nat \<times> nat \<Rightarrow> 'x mgr_tn" where
  "cipher_tn cd = (case cd of (name, blocksize, mn, mx) \<Rightarrow>
     mk_tn name (name @ '': blocksize = '' @ decimal blocksize @ ''; min keysize = '' @ decimal mn
       @ ''; max keysize = '' @ decimal mx) (Some KEY_BYTES) (Some Tf_Ecryptfs_Cipher))"

text \<open>The status is \<^term>\<open>None\<close> until the first entry is done: the variable has no initial value.\<close>

fun add_ciphers ::
  "(string \<times> nat \<times> nat \<times> nat) list \<Rightarrow> int option \<Rightarrow> 'x graph_fn param_node \<Rightarrow> schedule
   \<Rightarrow> int option \<times> 'x graph_fn param_node \<times> schedule" where
  "add_ciphers [] rc n mem = (rc, n, mem)"
| "add_ciphers (cd # cds) rc n mem =
     (if MAX_NUM_TRANSITIONS \<le> length (pn_tl n) then (rc, n, mem)
      else (case malloc_ok mem of
         (False, mem) \<Rightarrow> (Some (- ENOMEM), n, mem)
       | (True, mem) \<Rightarrow>
           (case suggest (fst cd) n mem of
              (False, n, mem) \<Rightarrow> (Some (- ENOMEM), n, mem)
            | (True, n, mem) \<Rightarrow>
                (case malloc_ok mem of
                   (False, mem) \<Rightarrow> (Some (- ENOMEM), n, mem)
                 | (True, mem) \<Rightarrow>
                     add_ciphers cds (Some 0) (n\<lparr>pn_tl := pn_tl n @ [cipher_tn cd]\<rparr>) mem))))"

definition init_ecryptfs_cipher_param_node ::
  "'x graph_fn graph \<Rightarrow> schedule \<Rightarrow> (int \<times> 'x graph_fn graph \<times> schedule) option" where
  "init_ecryptfs_cipher_param_node g mem = do {
     n \<leftarrow> g CIPHER_PARAM;
     (case add_ciphers cipher_descriptors None n mem of
        (rc, n, mem) \<Rightarrow> do {
          rc \<leftarrow> rc;
          Some (rc, g(CIPHER_PARAM \<mapsto> n), mem) }) }"

subsection \<open>More than one key\<close>

text \<open>An option \<open>key\<close> that was not taken and names a key type of the selection node.\<close>

fun names_key_type :: "byte list \<Rightarrow> 'x mgr_tn list \<Rightarrow> bool option" where
  "names_key_type v [] = Some False"
| "names_key_type v (tn # tns) =
     (case tn_val tn of None \<Rightarrow> None | Some t \<Rightarrow> if v = t then Some True else names_key_type v tns)"

fun find_another_key :: "'x mgr_tn list \<Rightarrow> nv_list \<Rightarrow> bool option" where
  "find_another_key tns [] = Some False"
| "find_another_key tns (p # ps) =
     (if has_flag (nv_flags p) NV_PROCESSED then find_another_key tns ps
      else (case nv_name p of
         Live n \<Rightarrow>
           if n \<noteq> bytes_of_string ''key'' then find_another_key tns ps
           else if tns = [] then find_another_key tns ps
           else (case nv_value p of
              Live v \<Rightarrow> (case names_key_type v tns of
                 None \<Rightarrow> None
               | Some True \<Rightarrow> Some True
               | Some False \<Rightarrow> find_another_key tns ps)
            | _ \<Rightarrow> None)
       | _ \<Rightarrow> None))"

definition another_key_param_node_callback ::
  "nat \<Rightarrow> ('x, 'k) mgr_state \<Rightarrow> (int \<times> ('x, 'k) mgr_state) option" where
  "another_key_param_node_callback cur st = do {
     sel \<leftarrow> es_graph st KEY_MODULE_SELECT;
     again \<leftarrow> find_another_key (pn_tl sel) (es_nvps st);
     Some (0, set_next cur (Some (if again then KEY_MODULE_SELECT else CIPHER_PARAM)) st) }"

text \<open>
  All callbacks. What the callbacks of modules from shared objects do is the parameter \<open>foreign\<close>.
\<close>

fun mgr_call ::
  "('x \<Rightarrow> nat \<Rightarrow> ('x, 'k) mgr_state \<Rightarrow> (int \<times> ('x, 'k) mgr_state) option) \<Rightarrow> (nat \<Rightarrow> byte) \<Rightarrow> 'k pass_env
   \<Rightarrow> 'x graph_fn \<Rightarrow> nat \<Rightarrow> ('x, 'k) mgr_state \<Rightarrow> (int \<times> ('x, 'k) mgr_state) option" where
  "mgr_call foreign junk env Sig_Param_Node cur st = sig_param_node_callback cur st"
| "mgr_call foreign junk env Get_Hmac cur st = stack_push_if_yes cur ''ecryptfs_hmac'' st"
| "mgr_call foreign junk env Get_Passthrough cur st = stack_push_if_yes cur ''ecryptfs_passthrough'' st"
| "mgr_call foreign junk env Get_Xattr cur st = stack_push_if_yes cur ''ecryptfs_xattr_metadata'' st"
| "mgr_call foreign junk env Get_Encrypted_Passthrough cur st = stack_push_if_yes cur ''ecryptfs_encrypted_view'' st"
| "mgr_call foreign junk env Filename_Crypto_Fnek_Sig cur st = filename_crypto_fnek_sig_callback cur st"
| "mgr_call foreign junk env Get_Enable_Filename_Crypto cur st = get_enable_filename_crypto cur st"
| "mgr_call foreign junk env Tf_Ecryptfs_Key_Bytes cur st = tf_ecryptfs_key_bytes cur st"
| "mgr_call foreign junk env Tf_Ecryptfs_Cipher cur st = tf_ecryptfs_cipher cur st"
| "mgr_call foreign junk env Another_Key_Param_Node cur st = another_key_param_node_callback cur st"
| "mgr_call foreign junk env (Linear f) cur st = subgraph_call junk (pe_keyring env) f cur st"
| "mgr_call foreign junk env (Passphrase f) cur st = pass_call junk env f cur st"
| "mgr_call foreign junk env (Foreign x) cur st = foreign x cur st"

interpretation mgr_linear: linear_calls "mgr_call foreign junk env" Linear junk "pe_keyring env"
  by unfold_locales simp

interpretation mgr_passphrase: pass_calls "mgr_call foreign junk env" Passphrase junk env
  by unfold_locales simp

subsection \<open>Building and evaluating the graph\<close>

text \<open>The loop that points every transition of \<open>last_param_node\<close> to another node.\<close>

definition point_to :: "nat \<Rightarrow> nat \<Rightarrow> 'f graph \<Rightarrow> 'f graph" where
  "point_to k m g = (case g k of
     None \<Rightarrow> g
   | Some n \<Rightarrow> g(k \<mapsto> n\<lparr>pn_tl := map (\<lambda>t. t\<lparr>tn_next_token := Some m\<rparr>) (pn_tl n)\<rparr>))"

definition suggest_n :: "nat \<Rightarrow> 'f graph \<Rightarrow> schedule \<Rightarrow> bool \<times> 'f graph \<times> schedule" where
  "suggest_n k g mem =
     (case malloc_ok mem of
        (False, mem) \<Rightarrow> (False, g, mem)
      | (True, mem) \<Rightarrow>
          (True, (case g k of None \<Rightarrow> g
             | Some n \<Rightarrow> g(k \<mapsto> n\<lparr>pn_suggested_val := Some (bytes_of_string ''n'')\<rparr>)), mem))"

text \<open>
  The chain of nodes behind the key size, by the features of the kernel module. It starts at
  \<open>ecryptfs_version_support_node\<close>.
\<close>

definition feature_chain ::
  "u32 \<Rightarrow> 'x graph_fn graph \<Rightarrow> schedule \<Rightarrow> int \<times> 'x graph_fn graph \<times> schedule" where
  "feature_chain version g mem =
     (let last = VERSION_SUPPORT;
          (ok, last, g, mem) =
            (if ecryptfs_supports_plaintext_passthrough version = 0 then (True, last, g, mem)
             else (case suggest_n PASSTHROUGH (point_to last PASSTHROUGH g) mem of
                (ok, g, mem) \<Rightarrow> (ok, PASSTHROUGH, g, mem)))
      in if \<not> ok then (- ENOMEM, g, mem)
      else let (last, g) =
            (if ecryptfs_supports_hmac version = 0 then (last, g) else (HMAC_PARAM, point_to last HMAC_PARAM g));
          (last, g) =
            (if ecryptfs_supports_xattr version = 0 then (last, g)
             else (ENCRYPTED_PASSTHROUGH, point_to XATTR_PARAM ENCRYPTED_PASSTHROUGH (point_to last XATTR_PARAM g)))
      in if ecryptfs_supports_filename_encryption version = 0 then (0, g, mem)
      else (case suggest_n ENABLE_FILENAME_CRYPTO g mem of
         (False, g, mem) \<Rightarrow> (- ENOMEM, g, mem)
       | (True, g, mem) \<Rightarrow> (0, point_to last FNEK_SIG g, mem)))"

text \<open>The recursion over the graph is bounded by \<open>depth\<close>; \<open>Some None\<close> means that it was not enough.\<close>

definition fill_in_decision_graph_based_on_version_support ::
  "nat \<Rightarrow> u32 \<Rightarrow> 'x graph_fn graph \<Rightarrow> schedule \<Rightarrow> (int \<times> 'x graph_fn graph \<times> schedule) option option" where
  "fill_in_decision_graph_based_on_version_support depth version g mem =
     (case ecryptfs_set_exit_param_on_graph depth KEY_MODULE_SELECT ANOTHER_KEY g of
        None \<Rightarrow> None
      | Some None \<Rightarrow> Some None
      | Some (Some g) \<Rightarrow>
          (case init_ecryptfs_cipher_param_node g mem of
             None \<Rightarrow> None
           | Some (rc, g, mem) \<Rightarrow>
               if rc \<noteq> 0 then Some (Some (rc, g, mem)) else Some (Some (feature_chain version g mem))))"

text \<open>
  The subgraph of one key module: its own, or the linear one. \<^term>\<open>None\<close> inside when the module
  is left out. New nodes are numbered from \<open>b\<close> on.
\<close>

definition module_subgraph ::
  "nat \<Rightarrow> u32 \<Rightarrow> 'x mgr_tn ecryptfs_key_mod \<Rightarrow> 'x graph_fn graph \<Rightarrow> schedule
   \<Rightarrow> ('x mgr_tn option \<times> 'x graph_fn graph \<times> schedule) option" where
  "module_subgraph b version km g mem = do {
     get \<leftarrow> op_get_param_subgraph_trans_node (km_ops km);
     (case get version of
        (rc, tn) \<Rightarrow>
          if rc = 0 \<and> tn \<noteq> None then Some (tn, g, mem)
          else do {
            (rc, tn, g, mem) \<leftarrow> ecryptfs_build_linear_subgraph Linear b km g mem;
            Some (if rc \<noteq> 0 then None else tn, g, mem) }) }"

definition num_params :: "'tn ecryptfs_key_mod \<Rightarrow> nat" where
  "num_params km = (case op_get_params (km_ops km) of None \<Rightarrow> 0 | Some f \<Rightarrow> length (snd (f ())))"

text \<open>The loop over the key modules; \<open>ad\<close> are the allowed duplicates.\<close>

fun add_modules ::
  "nat \<Rightarrow> ecryptfs_name_val_pair \<Rightarrow> u32 \<Rightarrow> nat \<Rightarrow> 'x mgr_tn ecryptfs_key_mod list \<Rightarrow> 'x graph_fn graph
   \<Rightarrow> nv_list \<Rightarrow> schedule \<Rightarrow> (int \<times> 'x graph_fn graph \<times> nv_list \<times> schedule) option option" where
  "add_modules depth junk_nv version b [] g ad mem = Some (Some (0, g, ad, mem))"
| "add_modules depth junk_nv version b (km # kms) g ad mem =
     (case module_subgraph b version km g mem of
        None \<Rightarrow> None
      | Some (None, g, mem) \<Rightarrow>
          add_modules depth junk_nv version (b + num_params km + 1) kms g ad mem
      | Some (Some tn, g, mem) \<Rightarrow>
          (case g KEY_MODULE_SELECT of
             None \<Rightarrow> None
           | Some sel \<Rightarrow>
               (case add_transition_node_to_param_node sel tn of
                  (rc, sel) \<Rightarrow>
                    let g = g(KEY_MODULE_SELECT \<mapsto> sel) in
                    if rc \<noteq> 0 then Some (Some (rc, g, ad, mem))
                    else (case ecryptfs_insert_params_in_subgraph depth junk_nv g tn ad mem of
                       None \<Rightarrow> None
                     | Some None \<Rightarrow> Some None
                     | Some (Some (rc, ad, mem)) \<Rightarrow>
                         if rc \<noteq> 0 then Some (Some (rc, g, ad, mem))
                         else add_modules depth junk_nv version (b + num_params km + 1) kms g ad mem))))"

text \<open>Freeing the names of the allowed duplicates.\<close>

fun free_names :: "nv_list \<Rightarrow> unit option" where
  "free_names [] = Some ()"
| "free_names (p # ps) = do { free_ptr (nv_name p); free_names ps }"

text \<open>What the entry points use of the system, besides what the callbacks use.\<close>

record ('x, 'k) mgr_env =
  me_dir :: string
  me_entries :: "string list option"
  me_dlopen :: "string \<Rightarrow> 'x mgr_tn lib"
  me_pw_dir :: "string option"
  me_pass :: "'k pass_env"
  me_foreign :: "'x \<Rightarrow> nat \<Rightarrow> ('x, 'k) mgr_state \<Rightarrow> (int \<times> ('x, 'k) mgr_state) option"
  me_junk :: "nat \<Rightarrow> byte"
  me_junk_nv :: ecryptfs_name_val_pair

definition register_modules ::
  "('x, 'k) mgr_env \<Rightarrow> ('x, 'k) mgr_state \<Rightarrow> (int \<times> ('x, 'k) mgr_state) option" where
  "register_modules env st = do {
     (rc, mods, mem) \<leftarrow> ecryptfs_register_key_modules (me_dir env) (me_entries env) (me_dlopen env)
        (builtin_get_key_mod_ops (passphrase_transition PASS_NODES)) (es_mem st)
        (lc_key_mods (es_ctx st));
     Some (rc, st\<lparr>es_ctx := (es_ctx st)\<lparr>lc_key_mods := mods\<rparr>, es_mem := mem\<rparr>) }"

text \<open>
  The graph is complete: the options of the \<open>.ecryptfsrc\<close> file are merged with those of the
  command line, and the graph is evaluated from its root. The results of the two parsers and
  of the union are not looked at.
\<close>

definition eval_options ::
  "('x, 'k) mgr_env \<Rightarrow> nat \<Rightarrow> byte list option \<Rightarrow> nv_list \<Rightarrow> ('x, 'k) mgr_state
   \<Rightarrow> (int \<times> ('x, 'k) mgr_state) option option" where
  "eval_options env fuel opts_str ad st = do {
     (_, rc_nvps, mem) \<leftarrow> ecryptfs_parse_rc_file (me_junk env) (pe_open (me_pass env)) (me_pw_dir env) [] (es_mem st);
     (_, nvps, mem) \<leftarrow> ecryptfs_parse_options opts_str [] mem;
     (_, nvps, mem) \<leftarrow> ecryptfs_nvp_list_union rc_nvps nvps ad mem;
     r \<leftarrow> ecryptfs_eval_decision_graph (mgr_call (me_foreign env) (me_junk env) (me_pass env)) fuel ROOT_PARAM
            (st\<lparr>es_nvps := nvps, es_mem := mem\<rparr>);
     free_names ad;
     Some r }"

text \<open>
  The first of the allowed duplicates gets its name by \<open>asprintf\<close>; when that fails, the name in the
  new block, which was never set, is freed.
\<close>

definition ecryptfs_process_decision_graph ::
  "('x, 'k) mgr_env \<Rightarrow> nat \<Rightarrow> nat \<Rightarrow> u32 \<Rightarrow> byte list option \<Rightarrow> bool \<Rightarrow> ('x, 'k) mgr_state
   \<Rightarrow> (int \<times> ('x, 'k) mgr_state) option option" where
  "ecryptfs_process_decision_graph env depth fuel version opts_str key_module_only st = do {
     (rc, st) \<leftarrow> register_modules env st;
     if rc \<noteq> 0 then Some (Some (rc, st))
     else (case malloc_ok (es_mem st) of
        (False, mem) \<Rightarrow> Some (Some (- ENOMEM, st\<lparr>es_mem := mem\<rparr>))
      | (True, mem) \<Rightarrow>
     (case malloc_ok mem of
        (False, mem) \<Rightarrow> do { free_names [me_junk_nv env]; Some (Some (- ENOMEM, st\<lparr>es_mem := mem\<rparr>)) }
      | (True, mem) \<Rightarrow> do {
          let ad = [(me_junk_nv env)\<lparr>nv_name := Live (bytes_of_string ''key'')\<rparr>];
          sel \<leftarrow> es_graph st KEY_MODULE_SELECT;
          let g = (es_graph st)(KEY_MODULE_SELECT \<mapsto> sel\<lparr>pn_tl := []\<rparr>);
          r \<leftarrow> add_modules depth (me_junk_nv env) version FIRST_FREE (lc_key_mods (es_ctx st)) g ad mem;
          (case r of
             None \<Rightarrow> Some None
           | Some (rc, g, ad, mem) \<Rightarrow>
               let st = st\<lparr>es_graph := g, es_mem := mem\<rparr> in
               if rc \<noteq> 0 then do { free_names ad; Some (Some (rc, st)) }
               else if key_module_only then
                 (case ecryptfs_set_exit_param_on_graph depth KEY_MODULE_SELECT DUMMY_PARAM g of
                    None \<Rightarrow> None
                  | Some None \<Rightarrow> Some None
                  | Some (Some g) \<Rightarrow> eval_options env fuel opts_str ad (st\<lparr>es_graph := g\<rparr>))
               else
                 (case fill_in_decision_graph_based_on_version_support depth version g mem of
                    None \<Rightarrow> None
                  | Some None \<Rightarrow> Some None
                  | Some (Some (rc, g, mem)) \<Rightarrow>
                      let st = st\<lparr>es_graph := g, es_mem := mem\<rparr> in
                      if rc \<noteq> 0 then Some (Some (rc, st))
                      else eval_options env fuel opts_str ad st)) })) }"

subsection \<open>Key generation\<close>

text \<open>The loop over the modules keeps the status of the last one that was asked.\<close>

fun add_gen_modules ::
  "u32 \<Rightarrow> int \<Rightarrow> 'x mgr_tn ecryptfs_key_mod list \<Rightarrow> 'x graph_fn param_node
   \<Rightarrow> (bool \<times> int \<times> 'x graph_fn param_node) option" where
  "add_gen_modules version rc [] sel = Some (True, rc, sel)"
| "add_gen_modules version rc (km # kms) sel = do {
     get \<leftarrow> op_get_gen_key_subgraph_trans_node (km_ops km);
     (case get version of
        (rc, tn) \<Rightarrow>
          if rc \<noteq> 0 then add_gen_modules version rc kms sel
          else (case tn of
             None \<Rightarrow> add_gen_modules version rc kms sel
           | Some tn \<Rightarrow>
               (case add_transition_node_to_param_node sel tn of
                  (rc, sel) \<Rightarrow>
                    if rc \<noteq> 0 then Some (False, rc, sel) else add_gen_modules version rc kms sel))) }"

definition ecryptfs_process_key_gen_decision_graph ::
  "('x, 'k) mgr_env \<Rightarrow> nat \<Rightarrow> nat \<Rightarrow> u32 \<Rightarrow> ('x, 'k) mgr_state \<Rightarrow> (int \<times> ('x, 'k) mgr_state) option option" where
  "ecryptfs_process_key_gen_decision_graph env depth fuel version st =
     (case es_malloc st of
        (False, st) \<Rightarrow> Some (Some (- ENOMEM, st))
      | (True, st) \<Rightarrow> do {
          (rc, st) \<leftarrow> register_modules env st;
          if rc \<noteq> 0 then Some (Some (rc, st))
          else do {
            sel \<leftarrow> es_graph st KEY_MODULE_SELECT;
            (ok, rc, sel) \<leftarrow> add_gen_modules version rc (lc_key_mods (es_ctx st)) (sel\<lparr>pn_tl := []\<rparr>);
            let st = set_node KEY_MODULE_SELECT sel st;
            if \<not> ok then Some (Some (rc, st))
            else (case ecryptfs_set_exit_param_on_graph depth KEY_MODULE_SELECT DUMMY_PARAM (es_graph st) of
               None \<Rightarrow> None
             | Some None \<Rightarrow> Some None
             | Some (Some g) \<Rightarrow> do {
                 sel \<leftarrow> g KEY_MODULE_SELECT;
                 r \<leftarrow> ecryptfs_eval_decision_graph (mgr_call (me_foreign env) (me_junk env) (me_pass env)) fuel
                        KEY_MODULE_SELECT
                        (st\<lparr>es_graph := g(KEY_MODULE_SELECT \<mapsto> sel\<lparr>pn_flags := pn_flags sel OR FORCE_DISPLAY_NODES\<rparr>),
                           es_nvps := [], es_mnt_params := [None]\<rparr>);
                 Some (map_option (\<lambda>(_, st). (rc, st)) r) }) } })"

end
