(* ===== verification/Mount_Options.thy ===== *)
theory Mount_Options
  imports Module_Mgr
begin

text \<open>
  What the decision graph makes of the mount options when nothing is asked: the evaluation
  of the static nodes of \<open>src/libecryptfs/module_mgr.c\<close> with verbosity 0, compared with a
  specification that reads the options directly.
\<close>

declare decimal.simps [simp del]

subsection \<open>Looking options up\<close>

definition opt_val :: "byte list \<Rightarrow> nv_list \<Rightarrow> heap_ptr option" where
  "opt_val a nvps = map_option nv_value (List.find (unused a) nvps)"

fun mark_opt :: "byte list \<Rightarrow> nv_list \<Rightarrow> nv_list" where
  "mark_opt a [] = []"
| "mark_opt a (p # ps) = (if unused a p then mark_used p # ps else p # mark_opt a ps)"

definition options_wf :: "nv_list \<Rightarrow> bool" where
  "options_wf nvps \<longleftrightarrow> names_live nvps \<and> (\<forall>p \<in> set nvps. nv_value p \<noteq> Dangling)"

lemma options_wf_simps [simp]:
  "options_wf []"
  "options_wf (p # ps) \<longleftrightarrow> (\<exists>n. nv_name p = Live n) \<and> nv_value p \<noteq> Dangling \<and> options_wf ps"
  by (auto simp: options_wf_def)

lemma unused_names_differ: "a \<noteq> b \<Longrightarrow> unused b p \<Longrightarrow> \<not> unused a p"
  by (auto simp: unused_def)

lemma consume_opt_val:
  "names_live nvps \<Longrightarrow>
   consume_nvp a nvps = Some (map_option (\<lambda>v. (v, mark_opt a nvps)) (opt_val a nvps))"
  by (induction nvps) (auto simp: opt_val_def unused_def mark_used_def split: option.splits)

lemma mark_opt_none: "opt_val a nvps = None \<Longrightarrow> mark_opt a nvps = nvps"
  by (induction nvps) (auto simp: opt_val_def split: if_splits)

lemma opt_val_mark_opt [simp]: "a \<noteq> b \<Longrightarrow> opt_val a (mark_opt b nvps) = opt_val a nvps"
  by (induction nvps) (auto simp: opt_val_def unused_names_differ)

lemma mark_opt_wf [simp]: "options_wf (mark_opt a nvps) = options_wf nvps"
  by (induction nvps) auto

lemma mark_opt_names [simp]: "nv_name ` set (mark_opt a nvps) = nv_name ` set nvps"
  by (induction nvps) auto

lemma opt_val_wf: "options_wf nvps \<Longrightarrow> opt_val a nvps \<noteq> Some Dangling"
  by (induction nvps) (auto simp: opt_val_def)

text \<open>No more than one option with this name.\<close>

definition once :: "byte list \<Rightarrow> nv_list \<Rightarrow> bool" where
  "once a nvps \<longleftrightarrow> opt_val a (mark_opt a nvps) = None"

lemma once_mark_opt [simp]: "a \<noteq> b \<Longrightarrow> once a (mark_opt b nvps) = once a nvps"
proof -
  assume "a \<noteq> b"
  then have "opt_val a (mark_opt a (mark_opt b nvps)) = opt_val a (mark_opt b (mark_opt a nvps))"
    by (induction nvps) (auto simp: opt_val_def unused_names_differ dest: unused_names_differ)
  then show ?thesis using \<open>a \<noteq> b\<close> by (simp add: once_def)
qed

lemma once_twice [simp]: "once a nvps \<Longrightarrow> opt_val a (mark_opt a nvps) = None"
  by (simp add: once_def)

subsection \<open>Nodes that do not ask\<close>

text \<open>What \<open>alloc_and_get_val\<close> does to a node with one name that needs no answer.\<close>

definition null_text :: "byte list" where "null_text = bytes_of_string ''(null)''"

definition retrieved :: "heap_ptr option \<Rightarrow> 'f param_node \<Rightarrow> 'f param_node" where
  "retrieved v n =
     (case v of
        None \<Rightarrow> (case pn_default_val n of
            None \<Rightarrow> n
          | Some d \<Rightarrow> if d = bytes_of_string ''NULL'' then n else n\<lparr>pn_val := Some d\<rparr>)
      | Some (Live s) \<Rightarrow>
          if s = null_text then n\<lparr>pn_flags := pn_flags n OR PARAMETER_SET\<rparr> else n\<lparr>pn_val := Some s\<rparr>
      | Some _ \<Rightarrow> n\<lparr>pn_flags := pn_flags n OR PARAMETER_SET\<rparr>)"

definition quiet :: "int \<Rightarrow> 'f param_node \<Rightarrow> bool" where
  "quiet verbosity n \<longleftrightarrow> pn_val n = None \<and> \<not> has_flag (pn_flags n) ALLOW_IMPLICIT_TRANSITION
     \<and> \<not> has_flag (pn_flags n) STDIN_REQUIRED \<and> (verbosity = 0 \<or> has_flag (pn_flags n) PARAM_FLAG_NO_VALUE)"

lemma has_flag_set: "has_flag PARAMETER_SET f \<Longrightarrow> f AND PARAMETER_SET \<noteq> 0"
  by (simp add: has_flag_def and.commute)

lemma alloc_quiet:
  assumes "es_graph st k = Some n" and "pn_mnt_opt_names n = [a]" and "quiet (es_verbosity st) n"
    and "options_wf (es_nvps st)" and "es_mem st = []"
  shows "alloc_and_get_val k st = Some (0, st\<lparr>es_nvps := mark_opt a (es_nvps st),
     es_graph := (es_graph st)(k \<mapsto> retrieved (opt_val a (es_nvps st)) n)\<rparr>)"
proof -
  have "names_live (es_nvps st)" using assms(4) by (simp add: options_wf_def)
  then have c: "retrieve_names (rev (pn_mnt_opt_names n)) (es_nvps st)
      = Some (map_option (\<lambda>v. (v, mark_opt a (es_nvps st))) (opt_val a (es_nvps st)))"
    using assms(2) by (simp add: consume_opt_val split: option.split)
  have g: "(es_graph st)(k \<mapsto> n) = es_graph st" using assms(1) by auto
  have d: "opt_val a (es_nvps st) \<noteq> Some Dangling" by (rule opt_val_wf [OF assms(4)])
  have r: "\<exists>got. retrieve_val k st = Some (0, got, st\<lparr>es_nvps := mark_opt a (es_nvps st),
     es_graph := (es_graph st)(k \<mapsto> retrieved (opt_val a (es_nvps st)) n)\<rparr>)"
    using assms(1,5) c d g mark_opt_none [of a "es_nvps st"]
    by (cases st) (auto simp: retrieve_val_def retrieved_def set_val_ok set_node_def null_text_def
        split: option.splits heap_ptr.splits)
  have f: "\<not> has_flag (pn_flags (retrieved v n)) ALLOW_IMPLICIT_TRANSITION"
      "\<not> has_flag (pn_flags (retrieved v n)) STDIN_REQUIRED"
      "es_verbosity st = 0 \<or> has_flag (pn_flags (retrieved v n)) PARAM_FLAG_NO_VALUE" for v
    using assms(3) by (auto simp: quiet_def retrieved_def has_flag_def [of PARAMETER_SET]
        split: option.splits heap_ptr.splits)
  obtain got where "retrieve_val k st = Some (0, got, st\<lparr>es_nvps := mark_opt a (es_nvps st),
     es_graph := (es_graph st)(k \<mapsto> retrieved (opt_val a (es_nvps st)) n)\<rparr>)" using r ..
  then show ?thesis
    using assms(1,3) f by (auto simp: alloc_and_get_val_def quiet_def)
qed

subsection \<open>Nodes that push a flag\<close>

text \<open>What the value of a yes-or-no option means; \<^term>\<open>None\<close> when it is neither.\<close>

definition flag_on :: "heap_ptr option \<Rightarrow> bool option" where
  "flag_on v =
     (case v of
        None \<Rightarrow> Some False
      | Some (Live s) \<Rightarrow>
          if s = null_text \<or> s = bytes_of_string ''y'' \<or> s = bytes_of_string ''yes'' then Some True
          else if s = bytes_of_string ''n'' \<or> s = bytes_of_string ''no'' then Some False else None
      | Some _ \<Rightarrow> Some True)"

text \<open>A node with one transition.\<close>

definition single_node ::
  "'f graph \<Rightarrow> nat \<Rightarrow> string \<Rightarrow> 'f option \<Rightarrow> nat \<Rightarrow> bool" where
  "single_node g k a f m \<longleftrightarrow>
     (\<exists>n tn. g k = Some n \<and> pn_mnt_opt_names n = [bytes_of_string a] \<and> quiet 0 n
        \<and> pn_default_val n \<in> {None, Some (bytes_of_string ''NULL''), Some (bytes_of_string ''n'')}
        \<and> pn_tl n = [tn] \<and> tn_val tn = Some (bytes_of_string ''default'')
        \<and> tn_trans_func tn = f \<and> tn_next_token tn = Some m)"

definition unflagged :: "'f graph \<Rightarrow> nat \<Rightarrow> bool" where
  "unflagged g k \<longleftrightarrow> (\<exists>n. g k = Some n \<and> \<not> has_flag (pn_flags n) PARAMETER_SET)"

lemma retrieved_tl [simp]: "pn_tl (retrieved v n) = pn_tl n"
  by (simp add: retrieved_def split: option.splits heap_ptr.splits)

abbreviation no_default :: "nv_list \<Rightarrow> bool" where
  "no_default nvps \<equiv> Live (bytes_of_string ''default'') \<notin> nv_name ` set nvps"

definition plain_options :: "nv_list \<Rightarrow> bool" where
  "plain_options nvps \<longleftrightarrow> options_wf nvps \<and> no_default nvps"

lemma plain_options_mark [simp]: "plain_options (mark_opt a nvps) = plain_options nvps"
  by (simp add: plain_options_def)

text \<open>The callbacks that push a flag, with the flag.\<close>

fun flag_text :: "'x graph_fn \<Rightarrow> string option" where
  "flag_text Get_Hmac = Some ''ecryptfs_hmac''"
| "flag_text Get_Passthrough = Some ''ecryptfs_passthrough''"
| "flag_text Get_Xattr = Some ''ecryptfs_xattr_metadata''"
| "flag_text Get_Encrypted_Passthrough = Some ''ecryptfs_encrypted_view''"
| "flag_text _ = None"

lemma flag_text_call:
  "flag_text f = Some s \<Longrightarrow> mgr_call fo ju en f cur st = stack_push_if_yes cur s st"
  by (cases f) auto

lemma bytes_texts [simp]:
  "bytes_of_string ''y'' \<noteq> null_text" "bytes_of_string ''yes'' \<noteq> null_text"
  "bytes_of_string ''n'' \<noteq> null_text" "bytes_of_string ''no'' \<noteq> null_text"
  by (simp_all add: null_text_def bytes_of_string_inject)

lemma stack_push_if_yes_retrieved:
  assumes "es_graph st k = Some (retrieved v n)" and "quiet 0 n" and "\<not> has_flag (pn_flags n) PARAMETER_SET"
    and "pn_default_val n \<in> {None, Some (bytes_of_string ''NULL''), Some (bytes_of_string ''n'')}"
    and "v \<noteq> Some Dangling" and "es_mem st = []"
  shows "stack_push_if_yes k s st = Some (case flag_on v of None \<Rightarrow> WRONG_VALUE | Some b \<Rightarrow> 0,
     st\<lparr>es_graph := (es_graph st)(k \<mapsto> (retrieved v n)\<lparr>pn_val := None\<rparr>),
        es_mnt_params := (if flag_on v = Some True then [Some (bytes_of_string s)] else []) @ es_mnt_params st\<rparr>)"
proof -
  have set: "has_flag PARAMETER_SET PARAMETER_SET" by (simp add: has_flag_def)
  have q: "pn_val n = None" using assms(2) by (simp add: quiet_def)
  show ?thesis
  proof (cases v)
    case None
    then show ?thesis using assms q
      by (cases st) (auto simp: stack_push_if_yes_def retrieved_def flag_on_def is_yes_def set_node_def Let_def)
  next
    case (Some h)
    then show ?thesis using assms q set
      by (cases st; cases h)
        (auto simp: stack_push_if_yes_def retrieved_def flag_on_def is_yes_def set_node_def Let_def push_param_ok
          split: if_splits)
  qed
qed

lemma eval_loop_step:
  assumes "alloc_and_get_val k st = Some (0, st1)" and "do_transition call k st1 = Some ((0, Some m), st2)"
  shows "eval_loop call (Suc fuel) k st = eval_loop call fuel m st2"
  using assms by (simp add: eval_loop.simps)

lemma eval_loop_stop:
  assumes "alloc_and_get_val k st = Some (0, st1)" and "do_transition call k st1 = Some ((rc, m), st2)"
    and "rc \<noteq> 0"
  shows "eval_loop call (Suc fuel) k st = Some (Some (rc, st2))"
  using assms by (simp add: eval_loop.simps)

declare eval_loop.simps [simp del]

text \<open>The state in which \<open>do_transition\<close> runs the callback of the node \<open>k\<close>.\<close>

definition entered :: "nat \<Rightarrow> ('f, 'foo, 's) eval_state \<Rightarrow> ('f, 'foo, 's) eval_state" where
  "entered k st = st\<lparr>es_repeated := (if es_lastnode st = Some k then es_repeated st else 0),
     es_lastnode := Some k\<rparr>"

lemma entered_simps [simp]:
  "es_graph (entered k st) = es_graph st" "es_nvps (entered k st) = es_nvps st"
  "es_mnt_params (entered k st) = es_mnt_params st" "es_verbosity (entered k st) = es_verbosity st"
  "es_mem (entered k st) = es_mem st" "es_ctx (entered k st) = es_ctx st" "es_lastnode (entered k st) = Some k"
  by (simp_all add: entered_def)

text \<open>The state after the node took its value from the options.\<close>

definition filled :: "nat \<Rightarrow> string \<Rightarrow> ('f, 'foo, 's) eval_state \<Rightarrow> ('f, 'foo, 's) eval_state" where
  "filled k a st = st\<lparr>es_nvps := mark_opt (bytes_of_string a) (es_nvps st),
     es_graph := (es_graph st)(k \<mapsto> retrieved (opt_val (bytes_of_string a) (es_nvps st)) (the (es_graph st k)))\<rparr>"

lemma filled_simps [simp]:
  "es_nvps (filled k a st) = mark_opt (bytes_of_string a) (es_nvps st)"
  "es_mnt_params (filled k a st) = es_mnt_params st" "es_verbosity (filled k a st) = es_verbosity st"
  "es_mem (filled k a st) = es_mem st" "es_ctx (filled k a st) = es_ctx st"
  "es_lastnode (filled k a st) = es_lastnode st"
  by (simp_all add: filled_def)

text \<open>Nodes with one transition and a callback.\<close>

lemma single_step:
  assumes node: "single_node (es_graph st) k a (Some f) m"
    and st: "es_verbosity st = 0" "plain_options (es_nvps st)" "es_mem st = []"
    and call: "call f k (entered k (filled k a st)) = Some (tok, st2)" "0 \<le> tok" "tok \<noteq> WRONG_VALUE"
      "tok \<noteq> MOUNT_ERROR"
    and "opt_val (bytes_of_string a) (es_nvps st) \<noteq> Some (Live (bytes_of_string ''default''))"
    and n': "es_graph st2 k = Some n'" "pn_tl n' = [tn']" "tn_next_token tn' = Some j"
  shows "eval_loop call (Suc fuel) k st = eval_loop call fuel j st2"
proof -
  let ?v = "opt_val (bytes_of_string a) (es_nvps st)"
  obtain n tn where n: "es_graph st k = Some n" "pn_mnt_opt_names n = [bytes_of_string a]" "quiet 0 n"
    "pn_default_val n \<in> {None, Some (bytes_of_string ''NULL''), Some (bytes_of_string ''n'')}"
    "pn_tl n = [tn]" "tn_val tn = Some (bytes_of_string ''default'')" "tn_trans_func tn = Some f"
    using node by (auto simp: single_node_def)
  have a: "alloc_and_get_val k st = Some (0, filled k a st)"
    using alloc_quiet [OF n(1,2)] n(1,3) st by (simp add: filled_def plain_options_def)
  have v: "pn_val (retrieved ?v n) \<noteq> Some (bytes_of_string ''default'')"
    using n(3,4) assms(9)
    by (auto simp: retrieved_def quiet_def split: option.splits heap_ptr.splits if_splits)
  have "do_transition call k (filled k a st) = Some ((0, Some j), st2)"
  proof (rule do_transition_default)
    show "es_graph (filled k a st) k = Some (retrieved ?v n)" using n(1) by (simp add: filled_def)
    show "pn_tl (retrieved ?v n) = [tn]" using n(5) by simp
    show "names_live (es_nvps (filled k a st))" "no_default (es_nvps (filled k a st))"
      using st(2) plain_options_mark [of "bytes_of_string a" "es_nvps st"]
      by (simp_all add: plain_options_def options_wf_def del: plain_options_mark)
    show "call f k (entered k (filled k a st)) = Some (tok, st2)" by fact
  qed (use n call n' v in \<open>simp_all add: entered_def\<close>)
  with a show ?thesis by (rule eval_loop_step)
qed

lemma do_transition_wrong:
  assumes "es_graph st b = Some n" and "pn_tl n = [tn]"
    and tn: "tn_val tn = Some (bytes_of_string ''default'')" "tn_trans_func tn = Some f"
    and "names_live (es_nvps st)" and "no_default (es_nvps st)"
    and call: "call f b (entered b st) = Some (WRONG_VALUE, st2)"
    and "pn_val n \<noteq> Some (bytes_of_string ''default'')"
    and n': "es_graph st2 b = Some n'" "pn_tl n' = [tn']"
    and "es_verbosity st2 = 0" and "\<not> has_flag (pn_flags n') STDIN_REQUIRED"
  shows "do_transition call b st = Some ((- EINVAL, None), st2)"
proof -
  have upd: "(if es_lastnode st \<noteq> Some b then st\<lparr>es_repeated := 0\<rparr> else st)\<lparr>es_lastnode := Some b\<rparr> = entered b st"
    by (cases st) (auto simp: entered_def)
  have t1: "trans_at b 0 (entered b st) = Some tn" using assms(1,2) by (simp add: trans_at_def)
  have t2: "trans_at b 0 st2 = Some tn'" using n' by (simp add: trans_at_def)
  have scan: "trans_nvps call b 0 (es_nvps (entered b st)) (entered b st) = Some (None, entered b st)"
    using trans_nvps_no_match [OF t1 tn(1) assms(5,6), of call] by simp
  have "trans_first call b [0..<MAX_NUM_TRANSITIONS] (entered b st) = Some (None, entered b st)"
    unfolding slots_64 using assms(1,2,8) tn scan by (simp add: Let_def)
  moreover have "trans_default call b [0..<MAX_NUM_TRANSITIONS] (entered b st) = Some (Some (- EINVAL, None), st2)"
    unfolding slots_64 using assms(1,2) tn call t2 n' assms(11,12) by (simp add: Let_def run_trans_def)
  ultimately show ?thesis unfolding do_transition_def Let_def upd using n' by simp
qed

text \<open>The state after a node that pushes a flag.\<close>

definition flagged :: "nat \<Rightarrow> string \<Rightarrow> string \<Rightarrow> ('f, 'foo, 's) eval_state \<Rightarrow> ('f, 'foo, 's) eval_state" where
  "flagged k a s st =
     (let v = opt_val (bytes_of_string a) (es_nvps st) in
      (entered k (filled k a st))\<lparr>
        es_graph := (es_graph st)(k \<mapsto> (retrieved v (the (es_graph st k)))\<lparr>pn_val := None\<rparr>),
        es_mnt_params := (if flag_on v = Some True then [Some (bytes_of_string s)] else []) @ es_mnt_params st\<rparr>)"

lemma flagged_simps [simp]:
  "es_nvps (flagged k a s st) = mark_opt (bytes_of_string a) (es_nvps st)"
  "es_mnt_params (flagged k a s st) = (if flag_on (opt_val (bytes_of_string a) (es_nvps st)) = Some True
     then [Some (bytes_of_string s)] else []) @ es_mnt_params st"
  "es_verbosity (flagged k a s st) = es_verbosity st"
  "es_mem (flagged k a s st) = es_mem st" "es_ctx (flagged k a s st) = es_ctx st"
  "j \<noteq> k \<Longrightarrow> es_graph (flagged k a s st) j = es_graph st j"
  by (simp_all add: flagged_def Let_def)

lemma flag_on_default: "flag_on v \<noteq> None \<Longrightarrow> v \<noteq> Some (Live (bytes_of_string ''default''))"
  by (auto simp: flag_on_def null_text_def bytes_of_string_inject)

lemma flag_call:
  assumes "single_node (es_graph st) k a (Some f) m" "unflagged (es_graph st) k" and "flag_text f = Some s"
    and "plain_options (es_nvps st)" and "es_mem st = []"
  shows "mgr_call fo ju en f k (entered k (filled k a st))
     = Some (case flag_on (opt_val (bytes_of_string a) (es_nvps st)) of None \<Rightarrow> WRONG_VALUE | Some b \<Rightarrow> 0,
             flagged k a s st)"
proof -
  let ?v = "opt_val (bytes_of_string a) (es_nvps st)"
  obtain n where n: "es_graph st k = Some n" "quiet 0 n" "\<not> has_flag (pn_flags n) PARAMETER_SET"
    "pn_default_val n \<in> {None, Some (bytes_of_string ''NULL''), Some (bytes_of_string ''n'')}"
    using assms(1,2) by (auto simp: single_node_def unflagged_def)
  have "?v \<noteq> Some Dangling" using assms(4) by (simp add: plain_options_def opt_val_wf)
  then show ?thesis
    using stack_push_if_yes_retrieved [of "entered k (filled k a st)" k ?v n s] n assms(5)
    by (simp add: flag_text_call [OF assms(3)] flagged_def Let_def) (simp add: filled_def)
qed

lemma flag_step:
  assumes "single_node (es_graph st) k a (Some f) m" "unflagged (es_graph st) k" and "flag_text f = Some s"
    and "es_verbosity st = 0" "plain_options (es_nvps st)" "es_mem st = []"
    and "flag_on (opt_val (bytes_of_string a) (es_nvps st)) = Some b"
  shows "eval_loop (mgr_call fo ju en) (Suc fuel) k st = eval_loop (mgr_call fo ju en) fuel m (flagged k a s st)"
proof -
  obtain n tn where n: "es_graph st k = Some n" "pn_tl n = [tn]" "tn_next_token tn = Some m"
    using assms(1) by (auto simp: single_node_def)
  show ?thesis
  proof (rule single_step [OF assms(1,4-6)])
    show "mgr_call fo ju en f k (entered k (filled k a st)) = Some (0, flagged k a s st)"
      using flag_call [OF assms(1,2,3,5,6)] assms(7) by simp
    show "es_graph (flagged k a s st) k
        = Some ((retrieved (opt_val (bytes_of_string a) (es_nvps st)) n)\<lparr>pn_val := None\<rparr>)"
      using n by (simp add: flagged_def Let_def)
  qed (use n assms(7) flag_on_default in auto)
qed

lemma flag_wrong:
  assumes "single_node (es_graph st) k a (Some f) m" "unflagged (es_graph st) k" and "flag_text f = Some s"
    and "es_verbosity st = 0" "plain_options (es_nvps st)" "es_mem st = []"
    and "flag_on (opt_val (bytes_of_string a) (es_nvps st)) = None"
    and "opt_val (bytes_of_string a) (es_nvps st) \<noteq> Some (Live (bytes_of_string ''default''))"
  shows "eval_loop (mgr_call fo ju en) (Suc fuel) k st = Some (Some (- EINVAL, flagged k a s st))"
proof -
  let ?v = "opt_val (bytes_of_string a) (es_nvps st)"
  obtain n tn where n: "es_graph st k = Some n" "pn_mnt_opt_names n = [bytes_of_string a]" "quiet 0 n"
    "pn_default_val n \<in> {None, Some (bytes_of_string ''NULL''), Some (bytes_of_string ''n'')}"
    "pn_tl n = [tn]" "tn_val tn = Some (bytes_of_string ''default'')" "tn_trans_func tn = Some f"
    using assms(1) by (auto simp: single_node_def)
  have a: "alloc_and_get_val k st = Some (0, filled k a st)"
    using alloc_quiet [OF n(1,2)] n(1,3) assms(4-6) by (simp add: filled_def plain_options_def)
  have v: "pn_val (retrieved ?v n) \<noteq> Some (bytes_of_string ''default'')"
    using n(3,4) assms(8) by (auto simp: retrieved_def quiet_def split: option.splits heap_ptr.splits if_splits)
  have f: "\<not> has_flag (pn_flags (retrieved ?v n)) STDIN_REQUIRED"
    using n(3) by (auto simp: quiet_def retrieved_def has_flag_def [of PARAMETER_SET]
        split: option.splits heap_ptr.splits)
  have "do_transition (mgr_call fo ju en) k (filled k a st) = Some ((- EINVAL, None), flagged k a s st)"
  proof (rule do_transition_wrong)
    show "es_graph (filled k a st) k = Some (retrieved ?v n)" using n(1) by (simp add: filled_def)
    show "es_graph (flagged k a s st) k = Some ((retrieved ?v n)\<lparr>pn_val := None\<rparr>)"
      using n by (simp add: flagged_def Let_def)
    show "mgr_call fo ju en f k (entered k (filled k a st)) = Some (WRONG_VALUE, flagged k a s st)"
      using flag_call [OF assms(1,2,3,5,6)] assms(7) by simp
    show "names_live (es_nvps (filled k a st))" "no_default (es_nvps (filled k a st))"
      using assms(5) plain_options_mark [of "bytes_of_string a" "es_nvps st"]
      by (simp_all add: plain_options_def options_wf_def del: plain_options_mark)
  qed (use n v f assms(4) in simp_all)
  then show ?thesis by (rule eval_loop_stop [OF a]) simp
qed

subsection \<open>Chains of flags\<close>

type_synonym 'x flag = "nat \<times> string \<times> 'x graph_fn \<times> string"

definition flag_name :: "'x flag \<Rightarrow> byte list" where
  "flag_name f = bytes_of_string (fst (snd f))"

lemma flag_name_simp [simp]: "flag_name (k, a, f, s) = bytes_of_string a"
  by (simp add: flag_name_def)

fun flag_chain :: "'x graph_fn graph \<Rightarrow> nat \<Rightarrow> 'x flag list \<Rightarrow> nat \<Rightarrow> bool" where
  "flag_chain g k [] e \<longleftrightarrow> k = e"
| "flag_chain g k ((j, a, f, s) # fs) e \<longleftrightarrow>
     k = j \<and> flag_text f = Some s \<and> unflagged g k \<and> (\<exists>m. single_node g k a (Some f) m \<and> flag_chain g m fs e)"

text \<open>The specification: the flags that are on are pushed in turn, up to a value that is neither
  yes nor no.\<close>

fun push_flags :: "'x flag list \<Rightarrow> nv_list \<Rightarrow> byte list option list \<Rightarrow> int \<times> byte list option list" where
  "push_flags [] nvps ps = (0, ps)"
| "push_flags ((k, a, f, s) # fs) nvps ps =
     (case flag_on (opt_val (bytes_of_string a) nvps) of
        None \<Rightarrow> (- EINVAL, ps)
      | Some b \<Rightarrow> push_flags fs nvps ((if b then [Some (bytes_of_string s)] else []) @ ps))"

lemma push_flags_mark [simp]:
  "b \<notin> flag_name ` set fs \<Longrightarrow> push_flags fs (mark_opt b nvps) ps = push_flags fs nvps ps"
  by (induction fs arbitrary: ps) (auto split: option.splits)

lemma flag_chain_other [simp]:
  "j \<notin> fst ` set fs \<Longrightarrow> g' = g(j := x) \<Longrightarrow> flag_chain g' k fs e = flag_chain g k fs e"
proof (induction fs arbitrary: k)
  case (Cons f fs)
  then show ?case by (cases f) (auto simp: single_node_def unflagged_def)
qed simp

definition flags_plain :: "'x flag list \<Rightarrow> nv_list \<Rightarrow> bool" where
  "flags_plain fs nvps \<longleftrightarrow> (\<forall>f \<in> set fs. opt_val (flag_name f) nvps \<noteq> Some (Live (bytes_of_string ''default'')))"

text \<open>What a part of the evaluation leaves alone: the nodes outside \<open>ks\<close> and the options whose
  names are not in \<open>as\<close>, among others.\<close>

definition kept ::
  "nat set \<Rightarrow> byte list set \<Rightarrow> ('f, 'foo, 's) eval_state \<Rightarrow> ('f, 'foo, 's) eval_state \<Rightarrow> bool" where
  "kept ks as st st' \<longleftrightarrow> es_verbosity st' = es_verbosity st \<and> es_mem st' = es_mem st
     \<and> es_ctx st' = es_ctx st \<and> plain_options (es_nvps st') = plain_options (es_nvps st)
     \<and> nv_name ` set (es_nvps st') = nv_name ` set (es_nvps st)
     \<and> (\<forall>j. j \<notin> ks \<longrightarrow> es_graph st' j = es_graph st j)
     \<and> (\<forall>b. b \<notin> as \<longrightarrow> opt_val b (es_nvps st') = opt_val b (es_nvps st)
          \<and> once b (es_nvps st') = once b (es_nvps st))"

lemma kept_refl [simp]: "kept ks as st st"
  by (simp add: kept_def)

lemma kept_trans [trans]: "kept ks as st st' \<Longrightarrow> kept ks as st' st'' \<Longrightarrow> kept ks as st st''"
  by (simp add: kept_def)

lemma kept_mono: "kept ks as st st' \<Longrightarrow> ks \<subseteq> ks' \<Longrightarrow> as \<subseteq> as' \<Longrightarrow> kept ks' as' st st'"
  by (auto simp: kept_def)

lemma kept_flagged: "k \<in> ks \<Longrightarrow> bytes_of_string a \<in> as \<Longrightarrow> kept ks as st (flagged k a s st)"
  unfolding kept_def
  by (intro conjI allI impI; simp?) (metis flagged_simps(6), (metis opt_val_mark_opt once_mark_opt)+)

lemma flag_chain_evaluates:
  assumes "flag_chain (es_graph st) k fs e" and "distinct (map fst fs)"
    and "distinct (map flag_name fs)" and "flags_plain fs (es_nvps st)"
    and "es_verbosity st = 0" "plain_options (es_nvps st)" "es_mem st = []"
  shows "\<exists>st'. eval_loop (mgr_call fo ju en) (length fs + fuel) k st =
       (if fst (push_flags fs (es_nvps st) (es_mnt_params st)) = 0
        then eval_loop (mgr_call fo ju en) fuel e st' else Some (Some (- EINVAL, st')))
     \<and> es_mnt_params st' = snd (push_flags fs (es_nvps st) (es_mnt_params st))
     \<and> kept (fst ` set fs) (flag_name ` set fs) st st'"
  using assms
proof (induction fs arbitrary: k st)
  case Nil
  then show ?case by (intro exI [of _ st]) simp
next
  case (Cons f fs)
  obtain j a c s where f: "f = (j, a, c, s)" by (cases f)
  obtain m where m: "k = j" "flag_text c = Some s" "single_node (es_graph st) k a (Some c) m"
    "flag_chain (es_graph st) m fs e" "unflagged (es_graph st) k" using Cons.prems(1) f by auto
  let ?st = "flagged k a s st" and ?v = "opt_val (bytes_of_string a) (es_nvps st)"
  show ?case
  proof (cases "flag_on ?v")
    case None
    have "?v \<noteq> Some (Live (bytes_of_string ''default''))" using Cons.prems(4) f by (auto simp: flags_plain_def)
    note w = flag_wrong [OF m(3,5,2) Cons.prems(5-7) None this, of fo ju en "length fs + fuel"]
    show ?thesis using w None f m(1) kept_flagged [of k "fst ` set (f # fs)" a "flag_name ` set (f # fs)" st s]
      by (intro exI [of _ ?st]) simp
  next
    case (Some b)
    note w = flag_step [OF m(3,5,2) Cons.prems(5-7) Some, of fo ju en "length fs + fuel"]
    have a: "bytes_of_string a \<notin> flag_name ` set fs"
      using Cons.prems(3) f by auto
    have ch: "flag_chain (es_graph ?st) m fs e"
      using m(1,4) Cons.prems(2) f by (subst flag_chain_other [where g = "es_graph st" and j = k])
        (auto simp: flagged_def Let_def)
    have fp: "flags_plain fs (es_nvps ?st)"
      unfolding flags_plain_def
    proof
      fix x assume x: "x \<in> set fs"
      then have "flag_name x \<noteq> bytes_of_string a" using a by (metis image_eqI)
      then show "opt_val (flag_name x) (es_nvps ?st) \<noteq> Some (Live (bytes_of_string ''default''))"
        using Cons.prems(4) x by (simp add: flags_plain_def)
    qed
    have p: "push_flags fs (es_nvps ?st) (es_mnt_params ?st)
        = push_flags (f # fs) (es_nvps st) (es_mnt_params st)"
      using a f Some by (cases b) simp_all
    obtain st' where st': "eval_loop (mgr_call fo ju en) (length fs + fuel) m ?st =
       (if fst (push_flags (f # fs) (es_nvps st) (es_mnt_params st)) = 0
        then eval_loop (mgr_call fo ju en) fuel e st' else Some (Some (- EINVAL, st')))"
      "es_mnt_params st' = snd (push_flags (f # fs) (es_nvps st) (es_mnt_params st))"
      "kept (fst ` set fs) (flag_name ` set fs) ?st st'"
      using Cons.IH [OF ch _ _ fp, unfolded p] Cons.prems by auto
    have "kept (fst ` set (f # fs)) (flag_name ` set (f # fs)) st ?st" using f m(1) by (intro kept_flagged) auto
    also have "kept (fst ` set (f # fs)) (flag_name ` set (f # fs)) ?st st'"
      by (rule kept_mono [OF st'(3)]) auto
    finally show ?thesis
      using st'(1,2) w f m(1) by (intro exI [of _ st']) (simp del: push_flags.simps)
  qed
qed

subsection \<open>Encrypted file names\<close>

definition FS :: string where "FS = ''ecryptfs_fnek_sig''"
definition EN :: string where "EN = ''ecryptfs_enable_filename_crypto''"

lemma FS_EN [simp]: "FS \<noteq> EN" "EN \<noteq> FS"
  by (simp_all add: FS_def EN_def)

text \<open>The two nodes, the first with the next node \<open>e\<close>.\<close>

definition fnek_nodes :: "'x graph_fn graph \<Rightarrow> nat \<Rightarrow> nat \<Rightarrow> bool" where
  "fnek_nodes g e e' \<longleftrightarrow> single_node g FNEK_SIG FS (Some Filename_Crypto_Fnek_Sig) e
     \<and> map_option pn_default_val (g FNEK_SIG) = Some None
     \<and> single_node g ENABLE_FILENAME_CRYPTO EN (Some Get_Enable_Filename_Crypto) e'"

lemma single_nodeE:
  assumes "single_node g k a f m"
  obtains n tn where "g k = Some n" "pn_mnt_opt_names n = [bytes_of_string a]" "quiet 0 n"
    "pn_default_val n \<in> {None, Some (bytes_of_string ''NULL''), Some (bytes_of_string ''n'')}"
    "pn_tl n = [tn]" "tn_val tn = Some (bytes_of_string ''default'')" "tn_trans_func tn = f"
    "tn_next_token tn = Some m"
  using assms by (auto simp: single_node_def)

lemma kept_marked:
  assumes "\<forall>j. j \<notin> ks \<longrightarrow> es_graph st' j = es_graph st j" and "bytes_of_string a \<in> as"
    and "es_nvps st' = mark_opt (bytes_of_string a) (es_nvps st)"
    and "es_verbosity st' = es_verbosity st" "es_mem st' = es_mem st" "es_ctx st' = es_ctx st"
  shows "kept ks as st st'"
  unfolding kept_def using assms by (metis mark_opt_names once_mark_opt opt_val_mark_opt plain_options_mark)

definition unset_text :: "byte list \<Rightarrow> bool" where
  "unset_text s \<longleftrightarrow> s \<in> {null_text, bytes_of_string ''NULL'', bytes_of_string ''default''}"

text \<open>A signature is given.\<close>

lemma fnek_given:
  assumes "fnek_nodes (es_graph st) e e'"
    and "es_verbosity st = 0" "plain_options (es_nvps st)" "es_mem st = []"
    and "opt_val (bytes_of_string FS) (es_nvps st) = Some (Live s)" and "\<not> unset_text s"
  shows "\<exists>st'. eval_loop (mgr_call fo ju en) (Suc fuel) FNEK_SIG st = eval_loop (mgr_call fo ju en) fuel e st'
     \<and> es_mnt_params st' = Some (bytes_of_string ''ecryptfs_fnek_sig='' @ s) # es_mnt_params st
     \<and> kept {FNEK_SIG} {bytes_of_string FS} st st'"
proof -
  have node: "single_node (es_graph st) FNEK_SIG FS (Some Filename_Crypto_Fnek_Sig) e"
    using assms(1) by (simp add: fnek_nodes_def)
  then obtain n tn where n: "es_graph st FNEK_SIG = Some n" "quiet 0 n" "pn_tl n = [tn]" "tn_next_token tn = Some e"
    by (blast elim: single_nodeE)
  let ?st1 = "entered FNEK_SIG (filled FNEK_SIG FS st)"
  let ?st2 = "?st1\<lparr>es_mnt_params := Some (bytes_of_string ''ecryptfs_fnek_sig='' @ s) # es_mnt_params st\<rparr>"
  have s: "s \<noteq> null_text" "s \<noteq> bytes_of_string ''NULL''" "s \<noteq> bytes_of_string ''default''"
    using assms(6) by (simp_all add: unset_text_def)
  have g: "es_graph ?st1 FNEK_SIG = Some (n\<lparr>pn_val := Some s\<rparr>)"
    using n(1) assms(5) s(1) by (simp add: filled_def retrieved_def)
  have "mgr_call fo ju en Filename_Crypto_Fnek_Sig FNEK_SIG ?st1 = Some (0, ?st2)"
    using g s assms(4) by (simp add: filename_crypto_fnek_sig_callback_def unset_val_def push_opt_def push_param_ok)
  then have "eval_loop (mgr_call fo ju en) (Suc fuel) FNEK_SIG st = eval_loop (mgr_call fo ju en) fuel e ?st2"
    by (rule single_step [where n' = "n\<lparr>pn_val := Some s\<rparr>", OF node assms(2-4)]) (use assms(5) s g n in auto)
  moreover have "kept {FNEK_SIG} {bytes_of_string FS} st ?st2"
    by (rule kept_marked [where a = FS]) (simp_all add: filled_def)
  ultimately show ?thesis by (intro exI [of _ ?st2]) simp
qed

text \<open>No signature is given: the node for the question follows, and goes on where this one would.\<close>

lemma fnek_missing:
  assumes "fnek_nodes (es_graph st) e e'"
    and "es_verbosity st = 0" "plain_options (es_nvps st)" "es_mem st = []"
    and "opt_val (bytes_of_string FS) (es_nvps st) = None"
  shows "\<exists>st'. eval_loop (mgr_call fo ju en) (Suc fuel) FNEK_SIG st
       = eval_loop (mgr_call fo ju en) fuel ENABLE_FILENAME_CRYPTO st'
     \<and> es_mnt_params st' = es_mnt_params st \<and> es_nvps st' = es_nvps st
     \<and> fnek_nodes (es_graph st') ENABLE_FILENAME_CRYPTO e
     \<and> unflagged (es_graph st') ENABLE_FILENAME_CRYPTO = unflagged (es_graph st) ENABLE_FILENAME_CRYPTO
     \<and> kept {FNEK_SIG, ENABLE_FILENAME_CRYPTO} {bytes_of_string FS} st st'"
proof -
  have node: "single_node (es_graph st) FNEK_SIG FS (Some Filename_Crypto_Fnek_Sig) e"
    and node': "single_node (es_graph st) ENABLE_FILENAME_CRYPTO EN (Some Get_Enable_Filename_Crypto) e'"
    using assms(1) by (simp_all add: fnek_nodes_def)
  from node obtain n tn where n: "es_graph st FNEK_SIG = Some n" "pn_mnt_opt_names n = [bytes_of_string FS]" "quiet 0 n"
    "pn_default_val n \<in> {None, Some (bytes_of_string ''NULL''), Some (bytes_of_string ''n'')}"
    "pn_tl n = [tn]" "tn_val tn = Some (bytes_of_string ''default'')"
    "tn_trans_func tn = Some Filename_Crypto_Fnek_Sig" "tn_next_token tn = Some e"
    by (blast elim: single_nodeE)
  from node' obtain q tq where q: "es_graph st ENABLE_FILENAME_CRYPTO = Some q"
    "pn_mnt_opt_names q = [bytes_of_string EN]" "quiet 0 q"
    "pn_default_val q \<in> {None, Some (bytes_of_string ''NULL''), Some (bytes_of_string ''n'')}"
    "pn_tl q = [tq]" "tn_val tq = Some (bytes_of_string ''default'')"
    "tn_trans_func tq = Some Get_Enable_Filename_Crypto" by (blast elim: single_nodeE)
  let ?st1 = "entered FNEK_SIG (filled FNEK_SIG FS st)"
  define n1 where "n1 = n\<lparr>pn_flags := PARAM_FLAG_ECHO_INPUT, pn_tl := [tn\<lparr>tn_next_token := Some ENABLE_FILENAME_CRYPTO\<rparr>]\<rparr>"
  define q1 where "q1 = q\<lparr>pn_tl := [tq\<lparr>tn_next_token := Some e\<rparr>]\<rparr>"
  let ?st2 = "?st1\<lparr>es_graph := (es_graph st)(FNEK_SIG \<mapsto> n1, ENABLE_FILENAME_CRYPTO \<mapsto> q1)\<rparr>"
  have d: "pn_default_val n = None" using assms(1) n(1) by (simp add: fnek_nodes_def)
  have nv: "mark_opt (bytes_of_string FS) (es_nvps st) = es_nvps st" by (rule mark_opt_none [OF assms(5)])
  have g: "es_graph ?st1 = es_graph st" using n(1) d assms(5) by (auto simp: filled_def retrieved_def)
  have "mgr_call fo ju en Filename_Crypto_Fnek_Sig FNEK_SIG ?st1 = Some (0, ?st2)"
    using n q g by (auto simp: filename_crypto_fnek_sig_callback_def unset_val_def quiet_def next_of_def set_next_def
        set_node_def update_tn_def n1_def q1_def fun_upd_twist)
  then have "eval_loop (mgr_call fo ju en) (Suc fuel) FNEK_SIG st
      = eval_loop (mgr_call fo ju en) fuel ENABLE_FILENAME_CRYPTO ?st2"
    by (rule single_step [where n' = n1, OF node assms(2-4)]) (use assms(5) in \<open>auto simp: n1_def\<close>)
  moreover have "kept {FNEK_SIG, ENABLE_FILENAME_CRYPTO} {bytes_of_string FS} st ?st2"
    by (rule kept_marked [where a = FS]) (simp_all add: filled_def)
  moreover have "fnek_nodes (es_graph ?st2) ENABLE_FILENAME_CRYPTO e"
    using n q d by (simp add: fnek_nodes_def single_node_def n1_def q1_def quiet_def has_flag_def)
  moreover have "unflagged (es_graph ?st2) ENABLE_FILENAME_CRYPTO = unflagged (es_graph st) ENABLE_FILENAME_CRYPTO"
    using q by (simp add: unflagged_def q1_def)
  ultimately show ?thesis using nv by (intro exI [of _ ?st2]) simp
qed

text \<open>An option without a value.\<close>

definition valueless :: "heap_ptr option \<Rightarrow> bool" where
  "valueless v \<longleftrightarrow> v = Some Null \<or> v = Some (Live null_text)"

lemma enable_call_off:
  assumes "es_graph st k = Some n" and "is_yes (pn_val n) 0 \<le> 0" and "\<not> has_flag (pn_flags n) PARAMETER_SET"
  shows "get_enable_filename_crypto k st
     = Some (if is_yes (pn_val n) 0 < 0 then WRONG_VALUE else 0, set_node k (n\<lparr>pn_val := None\<rparr>) st)"
  using assms by (auto simp: get_enable_filename_crypto_def is_yes_def split: option.splits)

lemma enable_call_on:
  assumes "es_graph st k = Some n" and "0 < is_yes (pn_val n) 0 \<or> has_flag (pn_flags n) PARAMETER_SET"
    and "pn_tl n = [tn]" and "es_graph st FNEK_SIG = Some q" and "k \<noteq> FNEK_SIG"
    and "find_sig (es_mnt_params st) = Some (Some s)" and "es_mem st = []"
  shows "get_enable_filename_crypto k st = Some (0, st\<lparr>es_graph := (es_graph st)
     (FNEK_SIG \<mapsto> q\<lparr>pn_tl := map (\<lambda>t. t\<lparr>tn_next_token := tn_next_token tn\<rparr>) (pn_tl q), pn_suggested_val := Some s\<rparr>,
      k \<mapsto> n\<lparr>pn_tl := [tn\<lparr>tn_next_token := Some FNEK_SIG\<rparr>], pn_val := None\<rparr>)\<rparr>)"
  using assms
  by (simp add: get_enable_filename_crypto_def Let_def next_of_def set_next_def set_node_def update_tn_def
      fun_upd_twist)

text \<open>File names are not to be encrypted.\<close>

lemma enable_off:
  assumes "fnek_nodes (es_graph st) e e'" and "unflagged (es_graph st) ENABLE_FILENAME_CRYPTO"
    and "es_verbosity st = 0" "plain_options (es_nvps st)" "es_mem st = []"
    and "flag_on (opt_val (bytes_of_string EN) (es_nvps st)) = Some False"
  shows "\<exists>st'. eval_loop (mgr_call fo ju en) (Suc fuel) ENABLE_FILENAME_CRYPTO st = eval_loop (mgr_call fo ju en) fuel e' st'
     \<and> es_mnt_params st' = es_mnt_params st \<and> kept {ENABLE_FILENAME_CRYPTO} {bytes_of_string EN} st st'"
proof -
  let ?v = "opt_val (bytes_of_string EN) (es_nvps st)" and ?k = ENABLE_FILENAME_CRYPTO
  have node: "single_node (es_graph st) ?k EN (Some Get_Enable_Filename_Crypto) e'"
    using assms(1) by (simp add: fnek_nodes_def)
  then obtain n tn where n: "es_graph st ?k = Some n" "quiet 0 n" "pn_tl n = [tn]" "tn_next_token tn = Some e'"
    "pn_default_val n \<in> {None, Some (bytes_of_string ''NULL''), Some (bytes_of_string ''n'')}"
    by (blast elim: single_nodeE)
  let ?st1 = "entered ?k (filled ?k EN st)"
  define n1 where "n1 = retrieved ?v n"
  have g: "es_graph ?st1 ?k = Some n1" using n(1) by (simp add: filled_def n1_def)
  have "pn_flags n1 = pn_flags n" "is_yes (pn_val n1) 0 = 0"
    using n assms(6) by (auto simp: n1_def retrieved_def flag_on_def is_yes_def quiet_def bytes_of_string_inject
        split: option.splits heap_ptr.splits if_splits)
  then have "mgr_call fo ju en Get_Enable_Filename_Crypto ?k ?st1 = Some (0, set_node ?k (n1\<lparr>pn_val := None\<rparr>) ?st1)"
    using enable_call_off [OF g] n(1) assms(2) by (auto simp: unflagged_def)
  then have "eval_loop (mgr_call fo ju en) (Suc fuel) ?k st
      = eval_loop (mgr_call fo ju en) fuel e' (set_node ?k (n1\<lparr>pn_val := None\<rparr>) ?st1)"
    by (rule single_step [where n' = "n1\<lparr>pn_val := None\<rparr>", OF node assms(3-5)])
      (use n flag_on_default [of ?v] assms(6) in \<open>auto simp: set_node_def n1_def\<close>)
  moreover have "kept {?k} {bytes_of_string EN} st (set_node ?k (n1\<lparr>pn_val := None\<rparr>) ?st1)"
    by (rule kept_marked [where a = EN]) (simp_all add: filled_def set_node_def)
  ultimately show ?thesis
    by (intro exI [of _ "set_node ?k (n1\<lparr>pn_val := None\<rparr>) ?st1"]) (simp add: set_node_def)
qed

lemma enable_on:
  assumes "fnek_nodes (es_graph st) e e'"
    and "es_verbosity st = 0" "plain_options (es_nvps st)" "es_mem st = []"
    and "flag_on (opt_val (bytes_of_string EN) (es_nvps st)) = Some True
       \<or> opt_val (bytes_of_string EN) (es_nvps st) = None \<and> \<not> unflagged (es_graph st) ENABLE_FILENAME_CRYPTO"
    and "find_sig (es_mnt_params st) = Some (Some s)"
  shows "\<exists>st'. eval_loop (mgr_call fo ju en) (Suc fuel) ENABLE_FILENAME_CRYPTO st
       = eval_loop (mgr_call fo ju en) fuel FNEK_SIG st'
     \<and> es_mnt_params st' = es_mnt_params st \<and> es_nvps st' = mark_opt (bytes_of_string EN) (es_nvps st)
     \<and> fnek_nodes (es_graph st') e' FNEK_SIG
     \<and> unflagged (es_graph st') ENABLE_FILENAME_CRYPTO
         = (unflagged (es_graph st) ENABLE_FILENAME_CRYPTO \<and> \<not> valueless (opt_val (bytes_of_string EN) (es_nvps st)))
     \<and> kept {FNEK_SIG, ENABLE_FILENAME_CRYPTO} {bytes_of_string EN} st st'"
proof -
  let ?v = "opt_val (bytes_of_string EN) (es_nvps st)" and ?k = ENABLE_FILENAME_CRYPTO
  have node: "single_node (es_graph st) ?k EN (Some Get_Enable_Filename_Crypto) e'"
    and node': "single_node (es_graph st) FNEK_SIG FS (Some Filename_Crypto_Fnek_Sig) e"
    using assms(1) by (simp_all add: fnek_nodes_def)
  from node obtain n tn where n: "es_graph st ?k = Some n" "pn_mnt_opt_names n = [bytes_of_string EN]" "quiet 0 n"
    "pn_default_val n \<in> {None, Some (bytes_of_string ''NULL''), Some (bytes_of_string ''n'')}"
    "pn_tl n = [tn]" "tn_val tn = Some (bytes_of_string ''default'')"
    "tn_trans_func tn = Some Get_Enable_Filename_Crypto" "tn_next_token tn = Some e'"
    by (blast elim: single_nodeE)
  from node' obtain q tq where q: "es_graph st FNEK_SIG = Some q"
    "pn_mnt_opt_names q = [bytes_of_string FS]" "quiet 0 q" "pn_tl q = [tq]"
    "tn_val tq = Some (bytes_of_string ''default'')" "tn_trans_func tq = Some Filename_Crypto_Fnek_Sig"
    by (blast elim: single_nodeE)
  have dq: "pn_default_val q = None" using assms(1) q(1) by (simp add: fnek_nodes_def)
  let ?st1 = "entered ?k (filled ?k EN st)"
  define n1 where "n1 = retrieved ?v n"
  have g: "es_graph ?st1 ?k = Some n1" "es_graph ?st1 FNEK_SIG = Some q" "pn_tl n1 = [tn]"
    using n q by (simp_all add: filled_def n1_def)
  have set: "has_flag PARAMETER_SET PARAMETER_SET" by (simp add: has_flag_def)
  have "?v \<noteq> Some Dangling" using assms(3) by (simp add: plain_options_def opt_val_wf)
  then have on: "0 < is_yes (pn_val n1) 0 \<or> has_flag (pn_flags n1) PARAMETER_SET"
    using n assms(5) set by (auto simp: n1_def retrieved_def flag_on_def is_yes_def unflagged_def quiet_def
        split: option.splits heap_ptr.splits if_splits)
  define q2 where "q2 = q\<lparr>pn_tl := [tq\<lparr>tn_next_token := Some e'\<rparr>], pn_suggested_val := Some s\<rparr>"
  define n2 where "n2 = n1\<lparr>pn_tl := [tn\<lparr>tn_next_token := Some FNEK_SIG\<rparr>], pn_val := None\<rparr>"
  let ?st2 = "?st1\<lparr>es_graph := (es_graph ?st1)(FNEK_SIG \<mapsto> q2, ?k \<mapsto> n2)\<rparr>"
  have "mgr_call fo ju en Get_Enable_Filename_Crypto ?k ?st1 = Some (0, ?st2)"
    using enable_call_on [OF g(1) on g(3,2), of s] assms(4,6) q(4) n(8) by (simp add: q2_def n2_def)
  then have "eval_loop (mgr_call fo ju en) (Suc fuel) ?k st = eval_loop (mgr_call fo ju en) fuel FNEK_SIG ?st2"
    by (rule single_step [where n' = n2, OF node assms(2-4)])
      (use flag_on_default [of ?v] assms(5) in \<open>auto simp: n2_def\<close>)
  moreover have "kept {FNEK_SIG, ?k} {bytes_of_string EN} st ?st2"
    by (rule kept_marked [where a = EN]) (simp_all add: filled_def)
  moreover have "quiet 0 n2" "pn_default_val n2 = pn_default_val n" "pn_mnt_opt_names n2 = pn_mnt_opt_names n"
    using n(3) by (auto simp: n2_def n1_def quiet_def retrieved_def has_flag_def [of PARAMETER_SET]
        split: option.splits heap_ptr.splits)
  then have "fnek_nodes (es_graph ?st2) e' FNEK_SIG"
    using n q dq by (simp add: fnek_nodes_def single_node_def) (simp add: q2_def n2_def quiet_def)
  moreover have "unflagged (es_graph ?st2) ?k = (unflagged (es_graph st) ?k \<and> \<not> valueless ?v)"
    using n(1) \<open>?v \<noteq> Some Dangling\<close> set
    by (auto simp: unflagged_def n2_def n1_def retrieved_def valueless_def split: option.splits heap_ptr.splits)
  ultimately show ?thesis by (intro exI [of _ ?st2]) simp
qed

lemma enable_wrong:
  assumes "fnek_nodes (es_graph st) e e'" and "unflagged (es_graph st) ENABLE_FILENAME_CRYPTO"
    and "es_verbosity st = 0" "plain_options (es_nvps st)" "es_mem st = []"
    and "flag_on (opt_val (bytes_of_string EN) (es_nvps st)) = None"
    and "opt_val (bytes_of_string EN) (es_nvps st) \<noteq> Some (Live (bytes_of_string ''default''))"
  shows "\<exists>st'. eval_loop (mgr_call fo ju en) (Suc fuel) ENABLE_FILENAME_CRYPTO st = Some (Some (- EINVAL, st'))
     \<and> es_mnt_params st' = es_mnt_params st \<and> es_ctx st' = es_ctx st \<and> es_mem st' = es_mem st"
proof -
  let ?v = "opt_val (bytes_of_string EN) (es_nvps st)" and ?k = ENABLE_FILENAME_CRYPTO
  obtain n tn where n: "es_graph st ?k = Some n" "pn_mnt_opt_names n = [bytes_of_string EN]" "quiet 0 n"
    "pn_tl n = [tn]" "tn_val tn = Some (bytes_of_string ''default'')"
    "tn_trans_func tn = Some Get_Enable_Filename_Crypto"
    using assms(1) by (auto simp: fnek_nodes_def elim!: single_nodeE)
  have a: "alloc_and_get_val ?k st = Some (0, filled ?k EN st)"
    using alloc_quiet [OF n(1,2)] n(1,3) assms(3-5) by (simp add: filled_def plain_options_def)
  obtain s where s: "?v = Some (Live s)" "s \<noteq> null_text"
    using assms(6) by (auto simp: flag_on_def split: option.splits heap_ptr.splits if_splits)
  let ?n1 = "n\<lparr>pn_val := Some s\<rparr>" and ?st1 = "entered ?k (filled ?k EN st)"
  let ?st2 = "set_node ?k (n\<lparr>pn_val := None\<rparr>) ?st1"
  have g: "es_graph ?st1 ?k = Some ?n1" using n(1) s by (simp add: filled_def retrieved_def)
  have "is_yes (Some s) 0 = -1" using assms(6) s
    by (auto simp: flag_on_def is_yes_def split: if_splits)
  then have c: "mgr_call fo ju en Get_Enable_Filename_Crypto ?k ?st1 = Some (WRONG_VALUE, ?st2)"
    using enable_call_off [OF g] n(1) assms(2) by (simp add: unflagged_def)
  have "do_transition (mgr_call fo ju en) ?k (filled ?k EN st) = Some ((- EINVAL, None), ?st2)"
  proof (rule do_transition_wrong)
    show "es_graph (filled ?k EN st) ?k = Some ?n1" using g by simp
    show "names_live (es_nvps (filled ?k EN st))" "no_default (es_nvps (filled ?k EN st))"
      using assms(4) plain_options_mark [of "bytes_of_string EN" "es_nvps st"]
      by (simp_all add: plain_options_def options_wf_def del: plain_options_mark)
    show "es_graph ?st2 ?k = Some (n\<lparr>pn_val := None\<rparr>)" by (simp add: set_node_def)
    show "mgr_call fo ju en Get_Enable_Filename_Crypto ?k (entered ?k (filled ?k EN st)) = Some (WRONG_VALUE, ?st2)"
      by (rule c)
  qed (use n assms(3,7) s in \<open>simp_all add: quiet_def set_node_def\<close>)
  then have "eval_loop (mgr_call fo ju en) (Suc fuel) ?k st = Some (Some (- EINVAL, ?st2))"
    by (rule eval_loop_stop [OF a]) simp
  then show ?thesis by (intro exI [of _ ?st2]) (simp add: set_node_def)
qed

text \<open>The end of the graph.\<close>

definition end_node :: "'f graph \<Rightarrow> nat \<Rightarrow> bool" where
  "end_node g k \<longleftrightarrow> (\<exists>n a. g k = Some n \<and> pn_mnt_opt_names n = [a] \<and> quiet 0 n \<and> pn_tl n = [])"

lemma end_stops:
  assumes "end_node (es_graph st) k" and "es_verbosity st = 0" "plain_options (es_nvps st)" "es_mem st = []"
  shows "\<exists>st'. eval_loop call (Suc fuel) k st = Some (Some (NULL_TOK, st'))
     \<and> es_mnt_params st' = es_mnt_params st \<and> es_ctx st' = es_ctx st \<and> es_mem st' = es_mem st"
proof -
  obtain n a where n: "es_graph st k = Some n" "pn_mnt_opt_names n = [a]" "quiet 0 n" "pn_tl n = []"
    using assms(1) by (auto simp: end_node_def)
  let ?st1 = "st\<lparr>es_nvps := mark_opt a (es_nvps st),
     es_graph := (es_graph st)(k \<mapsto> retrieved (opt_val a (es_nvps st)) n)\<rparr>"
  have a: "alloc_and_get_val k st = Some (0, ?st1)"
    using alloc_quiet [OF n(1,2)] n(3) assms by (simp add: plain_options_def)
  have upd: "(if es_lastnode ?st1 \<noteq> Some k then ?st1\<lparr>es_repeated := 0\<rparr> else ?st1)\<lparr>es_lastnode := Some k\<rparr>
      = entered k ?st1" by (cases st) (auto simp: entered_def)
  have "do_transition call k ?st1 = Some ((NULL_TOK, None), entered k ?st1)"
    unfolding do_transition_def Let_def upd slots_64 using n(4) by simp
  from eval_loop_stop [OF a this] show ?thesis by (intro exI [of _ "entered k ?st1"]) simp
qed

definition fnek_spec :: "nv_list \<Rightarrow> byte list option list \<Rightarrow> int \<times> byte list option list" where
  "fnek_spec nvps ps =
     (case opt_val (bytes_of_string FS) nvps of
        Some (Live s) \<Rightarrow> (NULL_TOK, Some (bytes_of_string ''ecryptfs_fnek_sig='' @ s) # ps)
      | _ \<Rightarrow> (if flag_on (opt_val (bytes_of_string EN) nvps) = None then - EINVAL else NULL_TOK, ps))"

text \<open>The options of encrypted file names as the specification reads them.\<close>

definition fnek_plain :: "nv_list \<Rightarrow> bool" where
  "fnek_plain nvps \<longleftrightarrow>
     (opt_val (bytes_of_string FS) nvps = None \<or>
        (\<exists>s. opt_val (bytes_of_string FS) nvps = Some (Live s) \<and> \<not> unset_text s))
     \<and> opt_val (bytes_of_string EN) nvps \<noteq> Some (Live (bytes_of_string ''default''))
     \<and> \<not> valueless (opt_val (bytes_of_string EN) nvps) \<and> once (bytes_of_string EN) nvps"

lemma fnek_nodes_kept: "kept ks as st st' \<Longrightarrow> FNEK_SIG \<notin> ks \<Longrightarrow> ENABLE_FILENAME_CRYPTO \<notin> ks \<Longrightarrow>
    fnek_nodes (es_graph st') e e' = fnek_nodes (es_graph st) e e'"
  by (simp add: kept_def fnek_nodes_def single_node_def)

lemma kept_state:
  "kept ks as st st' \<Longrightarrow> es_verbosity st' = es_verbosity st" "kept ks as st st' \<Longrightarrow> es_mem st' = es_mem st"
  "kept ks as st st' \<Longrightarrow> es_ctx st' = es_ctx st"
  "kept ks as st st' \<Longrightarrow> plain_options (es_nvps st') = plain_options (es_nvps st)"
  "kept ks as st st' \<Longrightarrow> j \<notin> ks \<Longrightarrow> es_graph st' j = es_graph st j"
  "kept ks as st st' \<Longrightarrow> b \<notin> as \<Longrightarrow> opt_val b (es_nvps st') = opt_val b (es_nvps st)"
  "kept ks as st st' \<Longrightarrow> b \<notin> as \<Longrightarrow> once b (es_nvps st') = once b (es_nvps st)"
  by (simp_all add: kept_def)

lemma fnek_evaluates:
  assumes "fnek_nodes (es_graph st) e e'" and "unflagged (es_graph st) ENABLE_FILENAME_CRYPTO"
    and "end_node (es_graph st) e" "e \<notin> {FNEK_SIG, ENABLE_FILENAME_CRYPTO}"
    and "es_verbosity st = 0" "plain_options (es_nvps st)" "es_mem st = []"
    and "fnek_plain (es_nvps st)" and "find_sig (es_mnt_params st) = Some (Some s)"
  shows "\<exists>st'. eval_loop (mgr_call fo ju en) (Suc (Suc (Suc (Suc (Suc fuel))))) FNEK_SIG st
       = Some (Some (fst (fnek_spec (es_nvps st) (es_mnt_params st)), st'))
     \<and> es_mnt_params st' = snd (fnek_spec (es_nvps st) (es_mnt_params st)) \<and> es_ctx st' = es_ctx st \<and> es_mem st' = es_mem st"
proof (cases "opt_val (bytes_of_string FS) (es_nvps st)")
  case (Some v)
  then obtain t where t: "v = Live t" "\<not> unset_text t" using assms(8) by (auto simp: fnek_plain_def)
  obtain st1 where 1: "eval_loop (mgr_call fo ju en) (Suc (Suc (Suc (Suc (Suc fuel))))) FNEK_SIG st = eval_loop (mgr_call fo ju en) (Suc (Suc (Suc (Suc fuel)))) e st1"
    "es_mnt_params st1 = Some (bytes_of_string ''ecryptfs_fnek_sig='' @ t) # es_mnt_params st"
    "kept {FNEK_SIG} {bytes_of_string FS} st st1"
    using fnek_given [OF assms(1,5-7) Some [unfolded t(1)] t(2), of fo ju en "Suc (Suc (Suc (Suc fuel)))"] by auto
  have "end_node (es_graph st1) e" using assms(3,4) kept_state(5) [OF 1(3), of e] by (simp add: end_node_def)
  from end_stops [OF this, of "mgr_call fo ju en" "Suc (Suc (Suc fuel))"] show ?thesis
    using 1 kept_state [OF 1(3)] assms(5-7) Some t(1) by (auto simp: fnek_spec_def)
next
  case None
  let ?en = "opt_val (bytes_of_string EN) (es_nvps st)"
  obtain st1 where 1: "eval_loop (mgr_call fo ju en) (Suc (Suc (Suc (Suc (Suc fuel))))) FNEK_SIG st
       = eval_loop (mgr_call fo ju en) (Suc (Suc (Suc (Suc fuel)))) ENABLE_FILENAME_CRYPTO st1"
    "es_mnt_params st1 = es_mnt_params st" "es_nvps st1 = es_nvps st"
    "fnek_nodes (es_graph st1) ENABLE_FILENAME_CRYPTO e" "unflagged (es_graph st1) ENABLE_FILENAME_CRYPTO"
    "kept {FNEK_SIG, ENABLE_FILENAME_CRYPTO} {bytes_of_string FS} st st1"
    using fnek_missing [OF assms(1,5-7) None, of fo ju en "Suc (Suc (Suc (Suc fuel)))"] assms(2) by auto
  have st1: "es_verbosity st1 = 0" "plain_options (es_nvps st1)" "es_mem st1 = []" "es_ctx st1 = es_ctx st"
    "end_node (es_graph st1) e"
    using kept_state [OF 1(6)] assms(3-7) by (simp_all add: end_node_def)
  have mem: "es_mem st = []" using kept_state(2) [OF 1(6)] st1(3) by simp
  consider (off) "flag_on ?en = Some False" | (wrong) "flag_on ?en = None" | (on) "flag_on ?en = Some True"
    by (metis (full_types) option.exhaust)
  then show ?thesis
  proof cases
    case off
    then obtain st2 where 2: "eval_loop (mgr_call fo ju en) (Suc (Suc (Suc (Suc fuel)))) ENABLE_FILENAME_CRYPTO st1
         = eval_loop (mgr_call fo ju en) (Suc (Suc (Suc fuel))) e st2"
      "es_mnt_params st2 = es_mnt_params st1" "kept {ENABLE_FILENAME_CRYPTO} {bytes_of_string EN} st1 st2"
      using enable_off [OF 1(4,5) st1(1-3), of fo ju en "Suc (Suc (Suc fuel))"] 1(3) by auto
    have "end_node (es_graph st2) e" using st1(5) assms(4) kept_state(5) [OF 2(3), of e] by (simp add: end_node_def)
    from end_stops [OF this, of "mgr_call fo ju en" "Suc (Suc fuel)"] show ?thesis
      using 1 2 kept_state [OF 2(3)] st1 mem None off by (auto simp: fnek_spec_def)
  next
    case wrong
    moreover have "?en \<noteq> Some (Live (bytes_of_string ''default''))" using assms(8) by (simp add: fnek_plain_def)
    ultimately show ?thesis
      using enable_wrong [OF 1(4,5) st1(1-3), of fo ju en "Suc (Suc (Suc fuel))"] 1 st1 mem None by (auto simp: fnek_spec_def)
  next
    case on
    then obtain st2 where 2: "eval_loop (mgr_call fo ju en) (Suc (Suc (Suc (Suc fuel)))) ENABLE_FILENAME_CRYPTO st1
         = eval_loop (mgr_call fo ju en) (Suc (Suc (Suc fuel))) FNEK_SIG st2"
      "es_mnt_params st2 = es_mnt_params st1" "es_nvps st2 = mark_opt (bytes_of_string EN) (es_nvps st1)"
      "fnek_nodes (es_graph st2) e FNEK_SIG" "unflagged (es_graph st2) ENABLE_FILENAME_CRYPTO"
      "kept {FNEK_SIG, ENABLE_FILENAME_CRYPTO} {bytes_of_string EN} st1 st2"
      using enable_on [OF 1(4) st1(1-3), of s fo ju en "Suc (Suc (Suc fuel))"] 1(2,3,5) assms(8,9) by (auto simp: fnek_plain_def)
    have st2: "es_verbosity st2 = 0" "plain_options (es_nvps st2)" "es_mem st2 = []" "es_ctx st2 = es_ctx st"
      "end_node (es_graph st2) e"
      using kept_state [OF 2(6)] assms(4) st1 by (simp_all add: end_node_def)
    have none: "opt_val (bytes_of_string FS) (es_nvps st2) = None" "opt_val (bytes_of_string EN) (es_nvps st2) = None"
      using None 1(3) 2(3) assms(8) by (simp_all add: fnek_plain_def)
    obtain st3 where 3: "eval_loop (mgr_call fo ju en) (Suc (Suc (Suc fuel))) FNEK_SIG st2
         = eval_loop (mgr_call fo ju en) (Suc (Suc fuel)) ENABLE_FILENAME_CRYPTO st3"
      "es_mnt_params st3 = es_mnt_params st2" "es_nvps st3 = es_nvps st2"
      "fnek_nodes (es_graph st3) ENABLE_FILENAME_CRYPTO e" "unflagged (es_graph st3) ENABLE_FILENAME_CRYPTO"
      "kept {FNEK_SIG, ENABLE_FILENAME_CRYPTO} {bytes_of_string FS} st2 st3"
      using fnek_missing [OF 2(4) st2(1-3) none(1), of fo ju en "Suc (Suc fuel)"] 2(5) by auto
    have st3: "es_verbosity st3 = 0" "plain_options (es_nvps st3)" "es_mem st3 = []" "es_ctx st3 = es_ctx st"
      "end_node (es_graph st3) e"
      using kept_state [OF 3(6)] assms(4) st2 by (simp_all add: end_node_def)
    obtain st4 where 4: "eval_loop (mgr_call fo ju en) (Suc (Suc fuel)) ENABLE_FILENAME_CRYPTO st3
         = eval_loop (mgr_call fo ju en) (Suc fuel) e st4"
      "es_mnt_params st4 = es_mnt_params st3" "kept {ENABLE_FILENAME_CRYPTO} {bytes_of_string EN} st3 st4"
      using enable_off [OF 3(4,5) st3(1-3), of fo ju en "Suc fuel"] 3(3) none(2) by (auto simp: flag_on_def)
    have "end_node (es_graph st4) e" using st3(5) assms(4) kept_state(5) [OF 4(3), of e] by (simp add: end_node_def)
    from end_stops [OF this, of "mgr_call fo ju en" fuel] show ?thesis
      using 1 2 3 4 kept_state [OF 4(3)] st3 mem None on by (auto simp: fnek_spec_def)
  qed
qed

subsection \<open>Nodes that select\<close>

definition vals_of :: "'f param_node \<Rightarrow> byte list option list" where
  "vals_of n = map tn_val (pn_tl n)"

text \<open>A node whose transitions are values to choose from; no option has one of them as its name.\<close>

definition choice_node :: "'f param_node \<Rightarrow> nv_list \<Rightarrow> bool" where
  "choice_node n nvps \<longleftrightarrow> length (pn_tl n) \<le> MAX_NUM_TRANSITIONS \<and> pn_tl n \<noteq> []
     \<and> None \<notin> set (vals_of n) \<and> Some (bytes_of_string ''default'') \<notin> set (vals_of n)
     \<and> (\<forall>v. Some v \<in> set (vals_of n) \<longrightarrow> Live v \<notin> nv_name ` set nvps)"

lemma choice_scan:
  assumes "choice_node n nvps" and "names_live nvps" and "es_graph st cur = Some n" and "i < length (pn_tl n)"
  shows "trans_nvps call cur i nvps st = Some (None, st)"
proof -
  have "tn_val (pn_tl n ! i) \<in> set (vals_of n)" using assms(4) by (simp add: vals_of_def)
  then obtain v where "tn_val (pn_tl n ! i) = Some v" "Live v \<notin> nv_name ` set nvps"
    using assms(1) unfolding choice_node_def by (metis option.exhaust)
  then show ?thesis
    using trans_nvps_no_match [of cur i st "pn_tl n ! i" v nvps call] assms by (simp add: trans_at_def)
qed

lemma choice_first:
  assumes "choice_node n (es_nvps st)" and "names_live (es_nvps st)" and "es_graph st cur = Some n"
    and "pn_val n = Some c" and "i < length (pn_tl n)" and "tn_val (pn_tl n ! i) = Some c"
    and "\<forall>h < i. tn_val (pn_tl n ! h) \<noteq> Some c" and "j \<le> i"
    and "run_trans call cur (pn_tl n ! i) 0 st = Some (rc, st')" and "trans_at cur i st' = Some tn'"
    and "tn_next_token tn' = Some m"
  shows "trans_first call cur [j..<MAX_NUM_TRANSITIONS] st = Some (Some (rc, Some m), st')"
  using assms(8)
proof (induction "i - j" arbitrary: j)
  case 0
  then have "j = i" by simp
  have "i < MAX_NUM_TRANSITIONS" using assms(1,5) by (simp add: choice_node_def)
  then show ?case using \<open>j = i\<close> assms by (simp add: upt_conv_Cons)
next
  case (Suc d)
  have j: "j < i" "j < MAX_NUM_TRANSITIONS" using Suc assms(1,5) by (auto simp: choice_node_def)
  then have "trans_first call cur [j..<MAX_NUM_TRANSITIONS] st = trans_first call cur [Suc j..<MAX_NUM_TRANSITIONS] st"
    using assms(3-5,7) choice_scan [OF assms(1-3), of j call] by (subst upt_conv_Cons) auto
  then show ?case using Suc j by simp
qed

lemma choice_none_first:
  assumes "choice_node n (es_nvps st)" and "names_live (es_nvps st)" and "es_graph st cur = Some n"
    and "pn_val n = None \<or> pn_val n \<notin> set (vals_of n)"
  shows "trans_first call cur [j..<MAX_NUM_TRANSITIONS] st = Some (None, st)"
proof (induction "MAX_NUM_TRANSITIONS - j" arbitrary: j)
  case (Suc d)
  then have s: "trans_first call cur [Suc j..<MAX_NUM_TRANSITIONS] st = Some (None, st)" by simp
  have j: "[j..<MAX_NUM_TRANSITIONS] = j # [Suc j..<MAX_NUM_TRANSITIONS]" using Suc(2) by (simp add: upt_conv_Cons)
  show ?case
  proof (cases "j < length (pn_tl n)")
    case True
    then have "tn_val (pn_tl n ! j) \<in> set (vals_of n)" by (simp add: vals_of_def)
    then have "\<not> (tn_val (pn_tl n ! j) \<noteq> None \<and> pn_val n = tn_val (pn_tl n ! j))" using assms(4) by auto
    then show ?thesis using s j True assms(3) choice_scan [OF assms(1-3) True, of call] by (auto simp: Let_def)
  next
    case False
    then show ?thesis using j assms(3) by simp
  qed
qed simp

lemma choice_none_default:
  assumes "choice_node n nvps" and "es_graph st cur = Some n"
  shows "trans_default call cur [j..<MAX_NUM_TRANSITIONS] st = Some (None, st)"
proof (induction "MAX_NUM_TRANSITIONS - j" arbitrary: j)
  case (Suc d)
  then have s: "trans_default call cur [Suc j..<MAX_NUM_TRANSITIONS] st = Some (None, st)" by simp
  have j: "[j..<MAX_NUM_TRANSITIONS] = j # [Suc j..<MAX_NUM_TRANSITIONS]" using Suc(2) by (simp add: upt_conv_Cons)
  show ?case
  proof (cases "j < length (pn_tl n)")
    case True
    then have "tn_val (pn_tl n ! j) \<in> set (vals_of n)" by (simp add: vals_of_def)
    then have "tn_val (pn_tl n ! j) \<noteq> Some (bytes_of_string ''default'')"
      using assms(1) by (metis choice_node_def)
    then show ?thesis using s j True assms(2) by simp
  next
    case False
    then show ?thesis using j assms(2) by simp
  qed
qed simp

lemma entered_upd:
  "(if es_lastnode st \<noteq> Some b then st\<lparr>es_repeated := 0\<rparr> else st)\<lparr>es_lastnode := Some b\<rparr> = entered b st"
  by (cases st) (auto simp: entered_def)

text \<open>The value of the option is one of the choices: its callback runs. Otherwise the mount fails.\<close>

lemma choice_step:
  assumes "es_graph st k = Some n" "pn_mnt_opt_names n = [bytes_of_string a]" "quiet 0 n"
    and "choice_node n (es_nvps st)" and "es_verbosity st = 0" "plain_options (es_nvps st)" "es_mem st = []"
    and v: "opt_val (bytes_of_string a) (es_nvps st) = Some (Live c)" "c \<noteq> null_text"
    and "i < length (pn_tl n)" "tn_val (pn_tl n ! i) = Some c" "\<forall>h < i. tn_val (pn_tl n ! h) \<noteq> Some c"
    and "tn_trans_func (pn_tl n ! i) = Some f" and "call f k (entered k (filled k a st)) = Some (0, st2)"
    and "trans_at k i st2 = Some tn'" "tn_next_token tn' = Some m"
  shows "eval_loop call (Suc fuel) k st = eval_loop call fuel m st2"
proof -
  have a: "alloc_and_get_val k st = Some (0, filled k a st)"
    using alloc_quiet [OF assms(1,2)] assms(1,3,5,6,7) by (simp add: filled_def plain_options_def)
  let ?st1 = "entered k (filled k a st)"
  have "trans_first call k [0..<MAX_NUM_TRANSITIONS] ?st1 = Some (Some (0, Some m), st2)"
  proof (rule choice_first)
    show "choice_node (n\<lparr>pn_val := Some c\<rparr>) (es_nvps ?st1)"
      using assms(4) by (simp add: choice_node_def vals_of_def)
    show "names_live (es_nvps ?st1)"
      using assms(6) plain_options_mark [of "bytes_of_string a" "es_nvps st"]
      by (simp add: plain_options_def options_wf_def del: plain_options_mark)
    show "es_graph ?st1 k = Some (n\<lparr>pn_val := Some c\<rparr>)" using assms(1) v by (simp add: filled_def retrieved_def)
    show "run_trans call k (pn_tl (n\<lparr>pn_val := Some c\<rparr>) ! i) 0 ?st1 = Some (0, st2)"
      using assms(13,14) by (simp add: run_trans_def)
  qed (use assms in simp_all)
  then have "do_transition call k (filled k a st) = Some ((0, Some m), st2)"
    unfolding do_transition_def Let_def entered_upd by simp
  with a show ?thesis by (rule eval_loop_step)
qed

lemma choice_fails:
  assumes "es_graph st k = Some n" "pn_mnt_opt_names n = [bytes_of_string a]" "quiet 0 n" "pn_default_val n = None"
    and "choice_node n (es_nvps st)" and "es_verbosity st = 0" "plain_options (es_nvps st)" "es_mem st = []"
    and v: "\<forall>c. opt_val (bytes_of_string a) (es_nvps st) = Some (Live c) \<and> c \<noteq> null_text \<longrightarrow> Some c \<notin> set (vals_of n)"
  shows "\<exists>st'. eval_loop call (Suc fuel) k st = Some (Some (MOUNT_ERROR, st'))
     \<and> es_mnt_params st' = es_mnt_params st \<and> es_ctx st' = es_ctx st \<and> es_mem st' = es_mem st"
proof -
  have a: "alloc_and_get_val k st = Some (0, filled k a st)"
    using alloc_quiet [OF assms(1,2)] assms(1,3,6,7,8) by (simp add: filled_def plain_options_def)
  let ?st1 = "entered k (filled k a st)"
  define n1 where "n1 = retrieved (opt_val (bytes_of_string a) (es_nvps st)) n"
  have g: "es_graph ?st1 k = Some n1" using assms(1) by (simp add: filled_def n1_def)
  have tl: "pn_tl n1 = pn_tl n" by (simp add: n1_def)
  have c: "choice_node n1 (es_nvps ?st1)" using assms(5) tl by (simp add: choice_node_def vals_of_def)
  have l: "names_live (es_nvps ?st1)"
    using assms(7) plain_options_mark [of "bytes_of_string a" "es_nvps st"]
    by (simp add: plain_options_def options_wf_def del: plain_options_mark)
  have "pn_val n1 = None \<or> pn_val n1 \<notin> set (vals_of n1)"
    using v assms(3,4) tl by (auto simp: n1_def retrieved_def quiet_def vals_of_def split: option.splits heap_ptr.splits)
  then have "do_transition call k (filled k a st) = Some ((MOUNT_ERROR, None), ?st1)"
    unfolding do_transition_def Let_def entered_upd
    using choice_none_first [OF c l g, of call 0] choice_none_default [OF c g, of call 0] g c
    by (simp add: choice_node_def)
  from eval_loop_stop [OF a this] show ?thesis by (intro exI [of _ ?st1]) simp
qed

subsection \<open>Cipher and key size\<close>

definition key_sizes :: "byte list \<Rightarrow> int \<Rightarrow> int \<Rightarrow> (string \<times> nat) list \<Rightarrow> nat list" where
  "key_sizes c mn mx ks = map snd (filter (\<lambda>(d, k). in_range mn mx k \<and> c = bytes_of_string d) ks)"

lemma add_key_bytes_spec:
  "add_key_bytes c mn mx ks n [] =
     (0, n\<lparr>pn_tl := pn_tl n @ map key_bytes_tn (key_sizes c mn mx ks),
           pn_suggested_val := (if pn_suggested_val n = None \<and> key_sizes c mn mx ks \<noteq> []
              then Some (bytes_of_string (decimal (hd (key_sizes c mn mx ks)))) else pn_suggested_val n)\<rparr>, [])"
proof (induction ks arbitrary: n)
  case Nil
  then show ?case by (cases n) (simp add: key_sizes_def)
next
  case (Cons dk ks)
  then show ?case
    by (cases dk; cases n) (auto simp: key_sizes_def suggest_def)
qed

lemma key_sizes_room: "length (key_sizes c mn mx supported_key_bytes) \<le> MAX_NUM_TRANSITIONS"
proof -
  have "length (key_sizes c mn mx supported_key_bytes) \<le> length supported_key_bytes"
    by (simp add: key_sizes_def)
  then show ?thesis by (simp add: supported_key_bytes_def)
qed

text \<open>Limits are taken off the stack; a stack without any stays.\<close>

lemma strip_limits_none:
  "\<forall>v \<in> set ps. limit_of ''max_key_bytes='' v = None \<and> limit_of ''min_key_bytes='' v = None \<Longrightarrow>
   strip_limits ps mn mx = Some (0, ps, mn, mx)"
  by (induction ps) (auto simp: Let_def)

lemma takeWhile_first: "b \<notin> set xs \<Longrightarrow> takeWhile (\<lambda>a. a \<noteq> b) (xs @ b # ys) = xs"
  by (induction xs) auto

lemma sublist_last_eq:
  assumes "sublist (x @ [b]) (p @ b # s)" and "b \<notin> set p" "b \<notin> set s"
  shows "length x \<le> length p"
proof -
  obtain us vs where e: "p @ b # s = us @ x @ b # vs" using assms(1) by (auto simp: sublist_def)
  have "count_list (p @ b # s) b = 1" using assms(2,3) by (simp add: count_list_0_iff)
  then have "b \<notin> set (us @ x)" unfolding e by (simp add: count_list_0_iff)
  then have "takeWhile (\<lambda>a. a \<noteq> b) ((us @ x) @ b # vs) = us @ x" by (rule takeWhile_first)
  then have "p = us @ x" using takeWhile_first [OF assms(2), of s] e by simp
  then show ?thesis by simp
qed

lemma sig_no_limit:
  assumes "61 \<notin> set s" and "name \<in> {''max_key_bytes='', ''min_key_bytes=''}"
  shows "limit_of name (Some (bytes_of_string ''ecryptfs_sig='' @ s)) = None"
proof -
  have "bytes_of_string ''ecryptfs_sig='' @ s = bytes_of_string ''ecryptfs_sig'' @ 61 # s"
    by (simp add: bytes_of_string_def)
  moreover have "bytes_of_string name = bytes_of_string (butlast name) @ [61]" "length (butlast name) = 13"
    using assms(2) by (auto simp: bytes_of_string_def)
  moreover have "61 \<notin> set (bytes_of_string ''ecryptfs_sig'')" by (simp add: bytes_of_string_def)
  ultimately have "\<not> sublist (bytes_of_string name) (bytes_of_string ''ecryptfs_sig='' @ s)"
    using sublist_last_eq [of "bytes_of_string (butlast name)" 61 "bytes_of_string ''ecryptfs_sig''" s] assms(1)
    by (auto simp: bytes_of_string_def)
  then show ?thesis by (simp add: limit_of_def)
qed

subsection \<open>The path of a mount with an existing key\<close>

definition CN :: string where "CN = ''ecryptfs_cipher''"
definition KN :: string where "KN = ''ecryptfs_key_bytes''"

text \<open>
  The nodes on the path: the root with the signature, the cipher, the key size and the node
  behind which the features of the kernel module follow.
\<close>

definition cipher_nodes :: "'x graph_fn graph \<Rightarrow> bool" where
  "cipher_nodes g \<longleftrightarrow>
     (\<exists>n. g CIPHER_PARAM = Some n \<and> pn_mnt_opt_names n = [bytes_of_string CN] \<and> quiet 0 n
          \<and> pn_default_val n = None \<and> pn_tl n = map cipher_tn cipher_descriptors)
     \<and> (\<exists>n. g KEY_BYTES = Some n \<and> pn_mnt_opt_names n = [bytes_of_string KN] \<and> quiet 0 n
          \<and> pn_default_val n = None \<and> pn_tl n = [])"

definition path_nodes :: "'x graph_fn graph \<Rightarrow> nat \<Rightarrow> bool" where
  "path_nodes g m \<longleftrightarrow>
     single_node g ROOT_PARAM ''sig'' (Some Sig_Param_Node) CIPHER_PARAM \<and> cipher_nodes g
     \<and> single_node g VERSION_SUPPORT ''end'' None m"

lemma sig_given:
  assumes "path_nodes (es_graph st) m"
    and "es_verbosity st = 0" "plain_options (es_nvps st)" "es_mem st = []"
    and "opt_val (bytes_of_string ''sig'') (es_nvps st) = Some (Live s)" and "\<not> unset_text s"
  shows "\<exists>st'. eval_loop (mgr_call fo ju en) (Suc fuel) ROOT_PARAM st = eval_loop (mgr_call fo ju en) fuel CIPHER_PARAM st'
     \<and> es_mnt_params st' = Some (bytes_of_string ''ecryptfs_sig='' @ s) # es_mnt_params st
     \<and> kept {ROOT_PARAM} {bytes_of_string ''sig''} st st'"
proof -
  let ?k = ROOT_PARAM
  have node: "single_node (es_graph st) ?k ''sig'' (Some Sig_Param_Node) CIPHER_PARAM"
    using assms(1) by (simp add: path_nodes_def)
  then obtain n tn where n: "es_graph st ?k = Some n" "quiet 0 n" "pn_tl n = [tn]" "tn_next_token tn = Some CIPHER_PARAM"
    by (blast elim: single_nodeE)
  let ?st1 = "entered ?k (filled ?k ''sig'' st)"
  let ?st2 = "?st1\<lparr>es_mnt_params := Some (bytes_of_string ''ecryptfs_sig='' @ s) # es_mnt_params st\<rparr>"
  have s: "s \<noteq> null_text" "s \<noteq> bytes_of_string ''NULL''" "s \<noteq> bytes_of_string ''default''"
    using assms(6) by (simp_all add: unset_text_def)
  have g: "es_graph ?st1 ?k = Some (n\<lparr>pn_val := Some s\<rparr>)"
    using n(1) assms(5) s(1) by (simp add: filled_def retrieved_def)
  have "mgr_call fo ju en Sig_Param_Node ?k ?st1 = Some (0, ?st2)"
    using g s assms(4) by (simp add: sig_param_node_callback_def unset_val_def push_opt_def push_param_ok)
  then have "eval_loop (mgr_call fo ju en) (Suc fuel) ?k st = eval_loop (mgr_call fo ju en) fuel CIPHER_PARAM ?st2"
    by (rule single_step [where n' = "n\<lparr>pn_val := Some s\<rparr>", OF node assms(2-4)]) (use assms(5) s g n in auto)
  moreover have "kept {?k} {bytes_of_string ''sig''} st ?st2"
    by (rule kept_marked [where a = "''sig''"]) (simp_all add: filled_def)
  ultimately show ?thesis by (intro exI [of _ ?st2]) simp
qed

abbreviation sizes_of :: "byte list \<Rightarrow> nat list" where
  "sizes_of c \<equiv> key_sizes c 0 999999 supported_key_bytes"

text \<open>No option has the name of a cipher or of a key size.\<close>

definition choice_free :: "nv_list \<Rightarrow> bool" where
  "choice_free nvps \<longleftrightarrow>
     (\<forall>v \<in> set (map fst cipher_descriptors) \<union> set (map (decimal \<circ> snd) supported_key_bytes).
        Live (bytes_of_string v) \<notin> nv_name ` set nvps)"

lemma choice_free_kept: "kept ks as st st' \<Longrightarrow> choice_free (es_nvps st') = choice_free (es_nvps st)"
  by (simp add: choice_free_def kept_def)

lemma cipher_names_distinct: "distinct (map fst cipher_descriptors)" "''default'' \<notin> set (map fst cipher_descriptors)"
  by (simp_all add: cipher_descriptors_def)

lemma key_bytes_tn_simps [simp]:
  "tn_val (key_bytes_tn k) = Some (bytes_of_string (decimal k))"
  "tn_next_token (key_bytes_tn k) = Some VERSION_SUPPORT"
  "tn_trans_func (key_bytes_tn k) = Some Tf_Ecryptfs_Key_Bytes"
  by (simp_all add: key_bytes_tn_def)

lemma cipher_tn_simps [simp]:
  "tn_val (cipher_tn cd) = Some (bytes_of_string (fst cd))"
  "tn_next_token (cipher_tn cd) = Some KEY_BYTES"
  "tn_trans_func (cipher_tn cd) = Some Tf_Ecryptfs_Cipher"
  by (simp_all add: cipher_tn_def mk_tn_def split: prod.splits)

lemma choice_ciphers:
  assumes "pn_tl n = map cipher_tn cipher_descriptors" and "choice_free nvps"
  shows "choice_node n nvps"
proof -
  have v: "vals_of n = map (Some \<circ> bytes_of_string \<circ> fst) cipher_descriptors"
    using assms(1) by (simp add: vals_of_def)
  have "length cipher_descriptors = 6" by (simp add: cipher_descriptors_def)
  then show ?thesis
    using assms cipher_names_distinct(2) unfolding choice_node_def v choice_free_def by (auto simp: image_iff)
qed

lemma supported_sizes: "snd ` set supported_key_bytes = {16, 24, 32, 56}"
  by code_simp

lemma decimal_sizes:
  "decimal 16 = ''16''" "decimal 24 = ''24''" "decimal 32 = ''32''" "decimal 56 = ''56''"
  by code_simp+

lemma in_range_supported: "(d, k) \<in> set supported_key_bytes \<Longrightarrow> in_range 0 999999 k"
proof -
  assume "(d, k) \<in> set supported_key_bytes"
  then have "k \<in> {16, 24, 32, 56}" unfolding supported_sizes [symmetric] by force
  then show ?thesis by (auto simp: in_range_def)
qed

lemma sizes_nonempty: "i < length cipher_descriptors \<Longrightarrow> sizes_of (bytes_of_string (fst (cipher_descriptors ! i))) \<noteq> []"
proof -
  assume "i < length cipher_descriptors"
  then have "fst (cipher_descriptors ! i) \<in> set (map fst cipher_descriptors)" by simp
  moreover have "set (map fst cipher_descriptors) \<subseteq> fst ` set supported_key_bytes"
    by code_simp
  ultimately have "fst (cipher_descriptors ! i) \<in> fst ` set supported_key_bytes" by (rule subsetD [rotated])
  then obtain k where "(fst (cipher_descriptors ! i), k) \<in> set supported_key_bytes" by (metis imageE prod.collapse)
  then show ?thesis using in_range_supported by (auto simp: key_sizes_def filter_empty_conv)
qed

lemma cipher_given:
  assumes "cipher_nodes (es_graph st)"
    and "es_verbosity st = 0" "plain_options (es_nvps st)" "es_mem st = []"
    and "opt_val (bytes_of_string CN) (es_nvps st) = Some (Live c)" "c \<noteq> null_text"
    and c: "c = bytes_of_string (fst (cipher_descriptors ! i))" "i < length cipher_descriptors"
    and "choice_free (es_nvps st)"
    and "\<forall>v \<in> set (es_mnt_params st). limit_of ''max_key_bytes='' v = None \<and> limit_of ''min_key_bytes='' v = None"
  shows "\<exists>st' n. eval_loop (mgr_call fo ju en) (Suc fuel) CIPHER_PARAM st = eval_loop (mgr_call fo ju en) fuel KEY_BYTES st'
     \<and> es_mnt_params st' = Some (bytes_of_string ''ecryptfs_cipher='' @ c) # es_mnt_params st
     \<and> es_graph st' KEY_BYTES = Some n \<and> pn_tl n = map key_bytes_tn (sizes_of c)
     \<and> pn_mnt_opt_names n = [bytes_of_string KN] \<and> quiet 0 n \<and> pn_default_val n = None
     \<and> kept {CIPHER_PARAM, KEY_BYTES} {bytes_of_string CN} st st'"
proof -
  let ?k = CIPHER_PARAM and ?sz = "sizes_of c"
  obtain n where n: "es_graph st ?k = Some n" "pn_mnt_opt_names n = [bytes_of_string CN]" "quiet 0 n"
    "pn_tl n = map cipher_tn cipher_descriptors" using assms(1) by (auto simp: cipher_nodes_def)
  obtain q where q: "es_graph st KEY_BYTES = Some q" "pn_mnt_opt_names q = [bytes_of_string KN]" "quiet 0 q"
    "pn_default_val q = None" "pn_tl q = []" using assms(1) by (auto simp: cipher_nodes_def)
  have sz: "?sz \<noteq> []" using sizes_nonempty c by simp
  let ?st1 = "entered ?k (filled ?k CN st)"
  define q1 where "q1 = fst (snd (add_key_bytes c 0 999999 supported_key_bytes q []))"
  have q1: "add_key_bytes c 0 999999 supported_key_bytes q [] = (0, q1, [])" "pn_tl q1 = map key_bytes_tn ?sz"
    "pn_mnt_opt_names q1 = pn_mnt_opt_names q" "quiet 0 q1" "pn_default_val q1 = None"
    using q(3-5) by (simp_all add: q1_def add_key_bytes_spec quiet_def)
  have g: "es_graph ?st1 ?k = Some (n\<lparr>pn_val := Some c\<rparr>)" "es_graph ?st1 KEY_BYTES = Some q"
    using n(1) q(1) assms(5,6) by (simp_all add: filled_def retrieved_def)
  let ?st2 = "?st1\<lparr>es_graph := (es_graph ?st1)(KEY_BYTES \<mapsto> q1, ?k \<mapsto> n\<lparr>pn_val := None\<rparr>),
     es_mnt_params := Some (bytes_of_string ''ecryptfs_cipher='' @ c) # es_mnt_params st\<rparr>"
  have i: "init_ecryptfs_key_bytes_param_node c 0 999999 ?st1 = Some (0, set_node KEY_BYTES q1 ?st1)"
    using g(2) q1(1,2) sz assms(4) key_sizes_room [of c 0 999999]
    by (simp add: init_ecryptfs_key_bytes_param_node_def Let_def set_node_def)
  have call: "mgr_call fo ju en Tf_Ecryptfs_Cipher ?k ?st1 = Some (0, ?st2)"
  proof -
    have sl: "strip_limits (es_mnt_params ?st1) 0 999999 = Some (0, es_mnt_params ?st1, 0, 999999)"
      by (rule strip_limits_none) (use assms(10) in simp)
    have u: "?st1\<lparr>es_mnt_params := es_mnt_params st\<rparr> = ?st1" by (cases st) (simp add: entered_def filled_def)
    show ?thesis using g(1) i assms(4)
      unfolding mgr_call.simps tf_ecryptfs_cipher_def sl
      by (simp add: Let_def set_node_def push_opt_def push_param_ok u)
  qed
  have ch: "choice_node n (es_nvps st)" using choice_ciphers n(4) assms(9) by blast
  have nth: "pn_tl n ! i = cipher_tn (cipher_descriptors ! i)" "i < length (pn_tl n)" using c(2) n(4) by simp_all
  have fi: "\<forall>h < i. tn_val (pn_tl n ! h) \<noteq> Some c"
    using c n(4) cipher_names_distinct(1) by (auto simp: distinct_conv_nth)
  have "eval_loop (mgr_call fo ju en) (Suc fuel) ?k st = eval_loop (mgr_call fo ju en) fuel KEY_BYTES ?st2"
    by (rule choice_step [where tn' = "cipher_tn (cipher_descriptors ! i)" and i = i and f = Tf_Ecryptfs_Cipher
          and call = "mgr_call fo ju en",
          OF n(1-3) ch assms(2-6) nth(2) _ fi _ call])
      (use nth c n(4) in \<open>simp_all add: trans_at_def\<close>)
  moreover have "kept {?k, KEY_BYTES} {bytes_of_string CN} st ?st2"
    by (rule kept_marked [where a = CN]) (simp_all add: filled_def)
  ultimately show ?thesis using q1 q(2) by (intro exI [of _ ?st2] exI [of _ q1]) simp
qed

lemma choice_sizes:
  assumes "pn_tl n = map key_bytes_tn (sizes_of c)" "sizes_of c \<noteq> []" and "choice_free nvps"
  shows "choice_node n nvps"
proof -
  have v: "vals_of n = map (Some \<circ> bytes_of_string \<circ> decimal) (sizes_of c)"
    using assms(1) by (simp add: vals_of_def)
  have "length (sizes_of c) \<le> length supported_key_bytes" by (simp add: key_sizes_def)
  then have l: "length (pn_tl n) \<le> MAX_NUM_TRANSITIONS" using assms(1) by (simp add: supported_key_bytes_def)
  have sub: "set (sizes_of c) \<subseteq> snd ` set supported_key_bytes" by (auto simp: key_sizes_def)
  have "decimal k \<noteq> ''default''" if "k \<in> set (sizes_of c)" for k
    using that sub unfolding supported_sizes by (auto simp: decimal_sizes)
  then show ?thesis using assms(1,2,3) l sub unfolding choice_node_def v choice_free_def by fastforce
qed

lemma sizes_distinct: "distinct (map decimal (sizes_of c))"
proof -
  have "distinct supported_key_bytes" by code_simp
  then have "distinct (sizes_of c)" by (auto simp: key_sizes_def distinct_map inj_on_def)
  moreover have "set (sizes_of c) \<subseteq> {16, 24, 32, 56}"
    unfolding supported_sizes [symmetric] by (auto simp: key_sizes_def)
  moreover have "inj_on decimal {16, 24, 32, 56}" by (auto simp: inj_on_def decimal_sizes)
  ultimately show ?thesis by (metis distinct_map inj_on_subset)
qed

lemma size_given:
  assumes "es_graph st KEY_BYTES = Some n" "pn_tl n = map key_bytes_tn (sizes_of c)"
    "pn_mnt_opt_names n = [bytes_of_string KN]" "quiet 0 n"
    and "es_verbosity st = 0" "plain_options (es_nvps st)" "es_mem st = []" "choice_free (es_nvps st)"
    and "opt_val (bytes_of_string KN) (es_nvps st) = Some (Live v)" "v \<noteq> null_text"
    and "k \<in> set (sizes_of c)" "v = bytes_of_string (decimal k)"
  shows "\<exists>st'. eval_loop (mgr_call fo ju en) (Suc fuel) KEY_BYTES st = eval_loop (mgr_call fo ju en) fuel VERSION_SUPPORT st'
     \<and> es_mnt_params st' = Some (bytes_of_string ''ecryptfs_key_bytes='' @ v) # es_mnt_params st
     \<and> kept {KEY_BYTES} {bytes_of_string KN} st st'"
proof -
  obtain i where i: "i < length (sizes_of c)" "sizes_of c ! i = k" using assms(11) by (auto simp: in_set_conv_nth)
  have ch: "choice_node n (es_nvps st)" using choice_sizes [OF assms(2) _ assms(8)] assms(11) by force
  have nth: "pn_tl n ! i = key_bytes_tn k" "i < length (pn_tl n)" using i assms(2) by simp_all
  have fi: "\<forall>h < i. tn_val (pn_tl n ! h) \<noteq> Some v"
  proof (intro allI impI)
    fix h assume "h < i"
    then have "map decimal (sizes_of c) ! h \<noteq> map decimal (sizes_of c) ! i"
      using sizes_distinct [of c] i(1) by (simp add: distinct_conv_nth)
    then show "tn_val (pn_tl n ! h) \<noteq> Some v" using \<open>h < i\<close> i assms(2,12) by simp
  qed
  let ?st1 = "entered KEY_BYTES (filled KEY_BYTES KN st)"
  let ?st2 = "?st1\<lparr>es_graph := (es_graph ?st1)(KEY_BYTES \<mapsto> n\<lparr>pn_val := None\<rparr>),
     es_mnt_params := Some (bytes_of_string ''ecryptfs_key_bytes='' @ v) # es_mnt_params st\<rparr>"
  have g: "es_graph ?st1 KEY_BYTES = Some (n\<lparr>pn_val := Some v\<rparr>)"
    using assms(1,9,10) by (simp add: filled_def retrieved_def)
  have call: "mgr_call fo ju en Tf_Ecryptfs_Key_Bytes KEY_BYTES ?st1 = Some (0, ?st2)"
    using g assms(7) by (simp add: tf_ecryptfs_key_bytes_def set_node_def push_opt_def push_param_ok)
  have "eval_loop (mgr_call fo ju en) (Suc fuel) KEY_BYTES st = eval_loop (mgr_call fo ju en) fuel VERSION_SUPPORT ?st2"
    by (rule choice_step [where tn' = "key_bytes_tn k" and i = i and f = Tf_Ecryptfs_Key_Bytes
          and call = "mgr_call fo ju en", OF assms(1,3,4) ch assms(5-7,9,10) nth(2) _ fi _ call])
      (use nth assms(12) in \<open>simp_all add: trans_at_def\<close>)
  moreover have "kept {KEY_BYTES} {bytes_of_string KN} st ?st2"
    by (rule kept_marked [where a = KN]) (simp_all add: filled_def)
  ultimately show ?thesis by (intro exI [of _ ?st2]) simp
qed

text \<open>A node without a callback.\<close>

lemma plain_step:
  assumes node: "single_node (es_graph st) k a None m"
    and st: "es_verbosity st = 0" "plain_options (es_nvps st)" "es_mem st = []"
    and "opt_val (bytes_of_string a) (es_nvps st) = None"
  shows "\<exists>st'. eval_loop call (Suc fuel) k st = eval_loop call fuel m st'
     \<and> es_mnt_params st' = es_mnt_params st \<and> kept {k} {bytes_of_string a} st st'"
proof -
  obtain n tn where n: "es_graph st k = Some n" "pn_mnt_opt_names n = [bytes_of_string a]" "quiet 0 n"
    "pn_default_val n \<in> {None, Some (bytes_of_string ''NULL''), Some (bytes_of_string ''n'')}"
    "pn_tl n = [tn]" "tn_val tn = Some (bytes_of_string ''default'')" "tn_trans_func tn = None"
    "tn_next_token tn = Some m" using node by (blast elim: single_nodeE)
  let ?st1 = "entered k (filled k a st)"
  have a: "alloc_and_get_val k st = Some (0, filled k a st)"
    using alloc_quiet [OF n(1,2)] n(1,3) st by (simp add: filled_def plain_options_def)
  define n1 where "n1 = retrieved (opt_val (bytes_of_string a) (es_nvps st)) n"
  have g: "es_graph ?st1 k = Some n1" "pn_tl n1 = [tn]" using n by (simp_all add: filled_def n1_def)
  have v: "pn_val n1 \<noteq> Some (bytes_of_string ''default'')"
    using n(3,4) assms(5) by (auto simp: n1_def retrieved_def quiet_def)
  have l: "names_live (es_nvps ?st1)" "no_default (es_nvps ?st1)"
    using st(2) plain_options_mark [of "bytes_of_string a" "es_nvps st"]
    by (simp_all add: plain_options_def options_wf_def del: plain_options_mark)
  have t: "trans_at k 0 ?st1 = Some tn" using g by (simp add: trans_at_def)
  have "trans_first call k [0..<MAX_NUM_TRANSITIONS] ?st1 = Some (None, ?st1)"
    unfolding slots_64 using g n(6) v trans_nvps_no_match [OF t n(6) l, of call] by (simp add: Let_def)
  moreover have "trans_default call k [0..<MAX_NUM_TRANSITIONS] ?st1 = Some (Some (0, Some m), ?st1)"
    unfolding slots_64 using g n(6-8) t by (simp add: Let_def run_trans_def)
  ultimately have "do_transition call k (filled k a st) = Some ((0, Some m), ?st1)"
    unfolding do_transition_def Let_def entered_upd using g by simp
  moreover have "kept {k} {bytes_of_string a} st ?st1"
    by (rule kept_marked [where a = a]) (simp_all add: filled_def)
  ultimately show ?thesis using eval_loop_step [OF a] by (intro exI [of _ ?st1]) simp
qed

subsection \<open>Specification of the mount options\<close>

text \<open>
  The options of a mount with an existing key, read directly: signature, cipher, key size,
  the flags of the kernel module's features and the signature for file names, with the status
  of the evaluation.
\<close>

definition features_spec ::
  "'x flag list \<Rightarrow> bool \<Rightarrow> nv_list \<Rightarrow> byte list option list \<Rightarrow> int \<times> byte list option list" where
  "features_spec fs fnek nvps ps =
     (case push_flags fs nvps ps of
        (rc, ps) \<Rightarrow> if rc \<noteq> 0 then (rc, ps) else if fnek then fnek_spec nvps ps else (NULL_TOK, ps))"

definition size_spec ::
  "'x flag list \<Rightarrow> bool \<Rightarrow> byte list \<Rightarrow> nv_list \<Rightarrow> byte list option list \<Rightarrow> int \<times> byte list option list" where
  "size_spec fs fnek c nvps ps =
     (case opt_val (bytes_of_string KN) nvps of
        Some (Live k) \<Rightarrow>
          if k \<notin> set (map (bytes_of_string \<circ> decimal) (sizes_of c)) then (MOUNT_ERROR, ps)
          else features_spec fs fnek nvps (Some (bytes_of_string ''ecryptfs_key_bytes='' @ k) # ps)
      | _ \<Rightarrow> (MOUNT_ERROR, ps))"

definition mount_spec ::
  "'x flag list \<Rightarrow> bool \<Rightarrow> byte list \<Rightarrow> nv_list \<Rightarrow> int \<times> byte list option list" where
  "mount_spec fs fnek s nvps =
     (let ps = [Some (bytes_of_string ''ecryptfs_sig='' @ s), None] in
      case opt_val (bytes_of_string CN) nvps of
        Some (Live c) \<Rightarrow>
          if c \<notin> set (map (bytes_of_string \<circ> fst) cipher_descriptors) then (MOUNT_ERROR, ps)
          else size_spec fs fnek c nvps (Some (bytes_of_string ''ecryptfs_cipher='' @ c) # ps)
      | _ \<Rightarrow> (MOUNT_ERROR, ps))"

lemma push_flags_rc: "fst (push_flags fs nvps ps) \<in> {0, - EINVAL}"
  by (induction fs nvps ps rule: push_flags.induct) (auto split: option.split)

lemma find_sig_flags:
  "\<forall>(k, a, f, t) \<in> set fs. take 13 (bytes_of_string t) \<noteq> bytes_of_string ''ecryptfs_sig='' \<Longrightarrow>
   find_sig (snd (push_flags fs nvps ps)) = find_sig ps"
  by (induction fs arbitrary: ps) (auto split: option.splits)

lemma push_flags_cong:
  "\<forall>f \<in> set fs. opt_val (flag_name f) nvps = opt_val (flag_name f) nvps' \<Longrightarrow>
   push_flags fs nvps ps = push_flags fs nvps' ps"
proof (induction fs arbitrary: ps)
  case (Cons f fs)
  then show ?case by (cases f) (auto split: option.splits)
qed simp

lemma fnek_spec_cong:
  "opt_val (bytes_of_string FS) nvps = opt_val (bytes_of_string FS) nvps' \<Longrightarrow>
   opt_val (bytes_of_string EN) nvps = opt_val (bytes_of_string EN) nvps' \<Longrightarrow> fnek_spec nvps ps = fnek_spec nvps' ps"
  unfolding fnek_spec_def by presburger

text \<open>The nodes behind the key size: the flags \<open>fs\<close>, then, with \<open>fnek\<close>, the nodes for file names.\<close>

definition feature_nodes :: "'x graph_fn graph \<Rightarrow> nat \<Rightarrow> 'x flag list \<Rightarrow> bool \<Rightarrow> bool" where
  "feature_nodes g m fs fnek \<longleftrightarrow>
     flag_chain g m fs (if fnek then FNEK_SIG else END_PARAM) \<and> end_node g END_PARAM
     \<and> (fnek \<longrightarrow> (\<exists>e'. fnek_nodes g END_PARAM e') \<and> unflagged g ENABLE_FILENAME_CRYPTO)"

definition feature_flags :: "'x flag list" where
  "feature_flags =
    [(PASSTHROUGH, ''ecryptfs_passthrough'', Get_Passthrough, ''ecryptfs_passthrough''),
     (HMAC_PARAM, ''ecryptfs_hmac'', Get_Hmac, ''ecryptfs_hmac''),
     (XATTR_PARAM, ''ecryptfs_xattr'', Get_Xattr, ''ecryptfs_xattr_metadata''),
     (ENCRYPTED_PASSTHROUGH, ''ecryptfs_encrypted_view'', Get_Encrypted_Passthrough, ''ecryptfs_encrypted_view'')]"

lemma feature_flags_facts:
  "fst ` set (feature_flags :: 'x flag list) \<subseteq> {6, 7, 8, 9}"
  "\<forall>(k, a, f, t) \<in> set (feature_flags :: 'x flag list). take 13 (bytes_of_string t) \<noteq> bytes_of_string ''ecryptfs_sig=''"
  "flag_name ` set (feature_flags :: 'x flag list) \<inter> bytes_of_string ` {''sig'', CN, KN, ''end'', FS, EN} = {}"
  by (auto simp: feature_flags_def bytes_of_string_def CN_def KN_def FS_def EN_def)

lemma features_evaluate:
  assumes "feature_nodes (es_graph st) m fs fnek" and "set fs \<subseteq> set feature_flags"
    "distinct (map fst fs)" "distinct (map flag_name fs)" "flags_plain fs (es_nvps st)"
    and "es_verbosity st = 0" "plain_options (es_nvps st)" "es_mem st = []"
    and "fnek \<Longrightarrow> fnek_plain (es_nvps st)" and "find_sig (es_mnt_params st) = Some (Some s)"
  shows "\<exists>st'. eval_loop (mgr_call fo ju en) (length fs + Suc (Suc (Suc (Suc (Suc fuel))))) m st =
       Some (Some (fst (features_spec fs fnek (es_nvps st) (es_mnt_params st)), st'))
     \<and> es_mnt_params st' = snd (features_spec fs fnek (es_nvps st) (es_mnt_params st)) \<and> es_ctx st' = es_ctx st \<and> es_mem st' = es_mem st"
proof -
  let ?e = "if fnek then FNEK_SIG else END_PARAM" and ?pf = "push_flags fs (es_nvps st) (es_mnt_params st)"
  let ?f = "Suc (Suc (Suc (Suc (Suc fuel))))"
  have ks: "fst ` set fs \<subseteq> {6, 7, 8, 9}" using assms(2) feature_flags_facts(1) by blast
  have as: "flag_name ` set fs \<inter> bytes_of_string ` {''sig'', CN, KN, ''end'', FS, EN} = {}"
    using assms(2) feature_flags_facts(3) by blast
  obtain st1 where 1: "eval_loop (mgr_call fo ju en) (length fs + ?f) m st =
       (if fst ?pf = 0 then eval_loop (mgr_call fo ju en) ?f ?e st1 else Some (Some (- EINVAL, st1)))"
    "es_mnt_params st1 = snd ?pf" "kept (fst ` set fs) (flag_name ` set fs) st st1"
    using flag_chain_evaluates [of st m fs ?e fo ju en ?f] assms(1,3-8) by (auto simp: feature_nodes_def)
  note k = kept_state [OF 1(3)]
  show ?thesis
  proof (cases "fst ?pf = 0")
    case False
    then show ?thesis using 1 k push_flags_rc [of fs "es_nvps st" "es_mnt_params st"]
      by (intro exI [of _ st1]) (auto simp: features_spec_def split: prod.splits)
  next
    case True
    have endn: "end_node (es_graph st1) END_PARAM"
    proof -
      have "END_PARAM \<notin> fst ` set fs" using ks by auto
      then show ?thesis using assms(1) k(5) [of END_PARAM] by (simp add: feature_nodes_def end_node_def)
    qed
    show ?thesis
    proof (cases fnek)
      case False
      from end_stops [OF endn, of "mgr_call fo ju en" "Suc (Suc (Suc (Suc fuel)))"]
      show ?thesis using 1 k assms(6-8) True False by (auto simp: features_spec_def split: prod.splits)
    next
      case fn: True
      then obtain e' where "fnek_nodes (es_graph st) END_PARAM e'" using assms(1) by (auto simp: feature_nodes_def)
      have kf: "FNEK_SIG \<notin> fst ` set fs" "ENABLE_FILENAME_CRYPTO \<notin> fst ` set fs" using ks by auto
      have fnn: "fnek_nodes (es_graph st1) END_PARAM e'"
        using fnek_nodes_kept [OF 1(3) kf] \<open>fnek_nodes (es_graph st) END_PARAM e'\<close> by simp
      have un: "unflagged (es_graph st1) ENABLE_FILENAME_CRYPTO"
        using assms(1) fn k(5) [OF kf(2)] by (simp add: feature_nodes_def unflagged_def)
      have ov: "opt_val (bytes_of_string FS) (es_nvps st1) = opt_val (bytes_of_string FS) (es_nvps st)"
        "opt_val (bytes_of_string EN) (es_nvps st1) = opt_val (bytes_of_string EN) (es_nvps st)"
        "once (bytes_of_string EN) (es_nvps st1) = once (bytes_of_string EN) (es_nvps st)"
        by (rule k(6,7), use as in blast)+
      have fp: "fnek_plain (es_nvps st1)" using assms(9) [OF fn] ov by (simp add: fnek_plain_def)
      have fs: "find_sig (es_mnt_params st1) = Some (Some s)"
      proof -
        have "\<forall>(k, a, f, t) \<in> set fs. take 13 (bytes_of_string t) \<noteq> bytes_of_string ''ecryptfs_sig=''"
          by (rule ballI, rule bspec [OF feature_flags_facts(2)], rule subsetD [OF assms(2)])
        from find_sig_flags [OF this] show ?thesis using 1(2) assms(10) by simp
      qed
      obtain st2 where 2: "eval_loop (mgr_call fo ju en) ?f FNEK_SIG st1
           = Some (Some (fst (fnek_spec (es_nvps st1) (es_mnt_params st1)), st2))"
        "es_mnt_params st2 = snd (fnek_spec (es_nvps st1) (es_mnt_params st1))" "es_ctx st2 = es_ctx st1"
        "es_mem st2 = es_mem st1"
        using fnek_evaluates [OF fnn un endn _ _ _ _ fp fs, of fo ju en fuel] k assms(6-8) by auto
      have "fnek_spec (es_nvps st1) (es_mnt_params st1) = fnek_spec (es_nvps st) (snd ?pf)"
        using fnek_spec_cong [OF ov(1,2)] 1(2) by simp
      then show ?thesis using 1 2 k True fn by (intro exI [of _ st2]) (auto simp: features_spec_def split: prod.splits)
    qed
  qed
qed

text \<open>Options that the specification reads: none is named like a value, and no value like a default.\<close>

definition spec_plain :: "'x flag list \<Rightarrow> bool \<Rightarrow> nv_list \<Rightarrow> bool" where
  "spec_plain fs fnek nvps \<longleftrightarrow> plain_options nvps \<and> choice_free nvps \<and> flags_plain fs nvps
     \<and> (fnek \<longrightarrow> fnek_plain nvps) \<and> opt_val (bytes_of_string ''end'') nvps = None"

definition mount_plain :: "'x flag list \<Rightarrow> bool \<Rightarrow> byte list \<Rightarrow> nv_list \<Rightarrow> bool" where
  "mount_plain fs fnek s nvps \<longleftrightarrow> spec_plain fs fnek nvps
     \<and> opt_val (bytes_of_string ''sig'') nvps = Some (Live s) \<and> \<not> unset_text s \<and> 61 \<notin> set s"

lemma no_null_choice:
  "null_text \<notin> set (map (bytes_of_string \<circ> fst) cipher_descriptors)"
  "null_text \<notin> set (map (bytes_of_string \<circ> decimal) (sizes_of c))"
proof -
  show "null_text \<notin> set (map (bytes_of_string \<circ> fst) cipher_descriptors)"
    by (simp add: null_text_def cipher_descriptors_def)
  have "set (sizes_of c) \<subseteq> {16, 24, 32, 56}"
    unfolding supported_sizes [symmetric] by (auto simp: key_sizes_def)
  then show "null_text \<notin> set (map (bytes_of_string \<circ> decimal) (sizes_of c))"
    by (auto simp: null_text_def decimal_sizes)
qed

lemma names_distinct [simp]: "CN \<noteq> ''sig''" "KN \<noteq> ''sig''" "KN \<noteq> CN" "''end'' \<noteq> CN" "''end'' \<noteq> KN"
  by (auto simp: CN_def KN_def)

lemma names_differ:
  "bytes_of_string CN \<noteq> bytes_of_string ''sig''" "bytes_of_string KN \<noteq> bytes_of_string ''sig''"
  "bytes_of_string KN \<noteq> bytes_of_string CN" "bytes_of_string ''end'' \<notin> bytes_of_string ` {''sig'', CN, KN}"
  "bytes_of_string FS \<notin> bytes_of_string ` {''sig'', CN, KN, ''end''}"
  "bytes_of_string EN \<notin> bytes_of_string ` {''sig'', CN, KN, ''end''}"
  by (auto simp: CN_def KN_def FS_def EN_def)

lemma single_node_kept:
  "kept ks as st st' \<Longrightarrow> k \<notin> ks \<Longrightarrow> single_node (es_graph st') k a f m = single_node (es_graph st) k a f m"
  by (simp add: kept_def single_node_def)

lemma flag_chain_kept:
  "kept ks as st st' \<Longrightarrow> fst ` set fs \<inter> ks = {} \<Longrightarrow> flag_chain (es_graph st') k fs e = flag_chain (es_graph st) k fs e"
proof (induction fs arbitrary: k)
  case (Cons f fs)
  then show ?case
    by (cases f) (auto simp: single_node_kept kept_state(5) unflagged_def)
qed simp

lemma feature_nodes_kept:
  assumes "kept ks as st st'" and "set fs \<subseteq> set feature_flags" and "ks \<subseteq> {1, 5, 10, 11}"
  shows "feature_nodes (es_graph st') m fs fnek = feature_nodes (es_graph st) m fs fnek"
proof -
  have "fst ` set fs \<subseteq> {6, 7, 8, 9}"
    by (rule subset_trans [OF image_mono [OF assms(2)] feature_flags_facts(1)])
  moreover have "({6, 7, 8, 9} :: nat set) \<inter> {1, 5, 10, 11} = {}" by simp
  ultimately have ks: "fst ` set fs \<inter> ks = {}" using assms(3) by (meson disjoint_iff subsetD)
  have n: "FNEK_SIG \<notin> ks" "ENABLE_FILENAME_CRYPTO \<notin> ks" "END_PARAM \<notin> ks" using assms(3) by auto
  show ?thesis
    unfolding feature_nodes_def flag_chain_kept [OF assms(1) ks] fnek_nodes_kept [OF assms(1) n(1,2)]
    by (simp add: end_node_def unflagged_def kept_state(5) [OF assms(1) n(2)] kept_state(5) [OF assms(1) n(3)])
qed

lemma flags_plain_kept:
  assumes "kept ks as st st'" and "flag_name ` set fs \<inter> as = {}"
  shows "flags_plain fs (es_nvps st') = flags_plain fs (es_nvps st)"
    "push_flags fs (es_nvps st') ps = push_flags fs (es_nvps st) ps"
proof -
  have e: "\<forall>f \<in> set fs. opt_val (flag_name f) (es_nvps st') = opt_val (flag_name f) (es_nvps st)"
    using kept_state(6) [OF assms(1)] assms(2) by blast
  then show "flags_plain fs (es_nvps st') = flags_plain fs (es_nvps st)" by (simp add: flags_plain_def)
  from e show "push_flags fs (es_nvps st') ps = push_flags fs (es_nvps st) ps" by (rule push_flags_cong)
qed

lemma fnek_plain_kept:
  assumes "kept ks as st st'" and "as \<subseteq> bytes_of_string ` {''sig'', CN, KN, ''end''}"
  shows "fnek_plain (es_nvps st') = fnek_plain (es_nvps st)"
    "fnek_spec (es_nvps st') ps = fnek_spec (es_nvps st) ps"
proof -
  have n: "bytes_of_string FS \<notin> as" "bytes_of_string EN \<notin> as" using assms(2) names_differ(5,6) by blast+
  note e = kept_state(6) [OF assms(1) n(1)] kept_state(6) [OF assms(1) n(2)] kept_state(7) [OF assms(1) n(2)]
  show "fnek_plain (es_nvps st') = fnek_plain (es_nvps st)" by (simp add: fnek_plain_def e)
  show "fnek_spec (es_nvps st') ps = fnek_spec (es_nvps st) ps" by (rule fnek_spec_cong) (simp_all add: e)
qed

lemma features_spec_kept:
  assumes "kept ks as st st'" and "flag_name ` set fs \<inter> as = {}" "as \<subseteq> bytes_of_string ` {''sig'', CN, KN, ''end''}"
  shows "features_spec fs fnek (es_nvps st') ps = features_spec fs fnek (es_nvps st) ps"
  by (simp only: features_spec_def flags_plain_kept(2) [OF assms(1,2)] fnek_plain_kept(2) [OF assms(1,3)])

text \<open>From the key size on.\<close>

lemma tail_evaluates:
  assumes "es_graph st KEY_BYTES = Some n" "pn_tl n = map key_bytes_tn (sizes_of c)" "sizes_of c \<noteq> []"
    "pn_mnt_opt_names n = [bytes_of_string KN]" "quiet 0 n" "pn_default_val n = None"
    and "single_node (es_graph st) VERSION_SUPPORT ''end'' None m" "feature_nodes (es_graph st) m fs fnek"
    and "set fs \<subseteq> set feature_flags" "distinct (map fst fs)" "distinct (map flag_name fs)"
    and "es_verbosity st = 0" "plain_options (es_nvps st)" "es_mem st = []" "choice_free (es_nvps st)"
    "flags_plain fs (es_nvps st)" "fnek \<Longrightarrow> fnek_plain (es_nvps st)"
    "opt_val (bytes_of_string ''end'') (es_nvps st) = None" and "find_sig (es_mnt_params st) = Some (Some s)"
  shows "\<exists>st'. eval_loop (mgr_call fo ju en) (Suc (Suc (length fs + Suc (Suc (Suc (Suc (Suc fuel))))))) KEY_BYTES st
       = Some (Some (fst (size_spec fs fnek c (es_nvps st) (es_mnt_params st)), st'))
     \<and> es_mnt_params st' = snd (size_spec fs fnek c (es_nvps st) (es_mnt_params st)) \<and> es_ctx st' = es_ctx st \<and> es_mem st' = es_mem st"
proof (cases "\<exists>v. opt_val (bytes_of_string KN) (es_nvps st) = Some (Live v)
    \<and> v \<in> set (map (bytes_of_string \<circ> decimal) (sizes_of c))")
  case False
  have ch: "choice_node n (es_nvps st)" by (rule choice_sizes [OF assms(2,3,15)])
  have "vals_of n = map (Some \<circ> bytes_of_string \<circ> decimal) (sizes_of c)" using assms(2) by (simp add: vals_of_def)
  then have "\<forall>v. opt_val (bytes_of_string KN) (es_nvps st) = Some (Live v) \<and> v \<noteq> null_text
      \<longrightarrow> Some v \<notin> set (vals_of n)" using False by auto
  moreover have "size_spec fs fnek c (es_nvps st) (es_mnt_params st) = (MOUNT_ERROR, es_mnt_params st)"
    using False by (auto simp: size_spec_def split: option.splits heap_ptr.splits)
  ultimately show ?thesis using choice_fails [OF assms(1,4-6) ch assms(12-14)] by simp
next
  case True
  then obtain k where k: "k \<in> set (sizes_of c)"
    "opt_val (bytes_of_string KN) (es_nvps st) = Some (Live (bytes_of_string (decimal k)))" by auto
  let ?v = "bytes_of_string (decimal k)" and ?f = "length fs + Suc (Suc (Suc (Suc (Suc fuel))))"
  have nn: "?v \<noteq> null_text" using no_null_choice(2) [of c] k(1) by (auto simp: image_iff)
  obtain st1 where 1: "eval_loop (mgr_call fo ju en) (Suc (Suc ?f)) KEY_BYTES st
       = eval_loop (mgr_call fo ju en) (Suc ?f) VERSION_SUPPORT st1"
    "es_mnt_params st1 = Some (bytes_of_string ''ecryptfs_key_bytes='' @ ?v) # es_mnt_params st"
    "kept {KEY_BYTES} {bytes_of_string KN} st st1"
    using size_given [OF assms(1,2,4,5,12-15) k(2) nn k(1) refl, of fo ju en "Suc ?f"] by blast
  note k1 = kept_state [OF 1(3)]
  have vs: "single_node (es_graph st1) VERSION_SUPPORT ''end'' None m"
    using assms(7) single_node_kept [OF 1(3)] by simp
  obtain st2 where 2: "eval_loop (mgr_call fo ju en) (Suc ?f) VERSION_SUPPORT st1 = eval_loop (mgr_call fo ju en) ?f m st2"
    "es_mnt_params st2 = es_mnt_params st1" "kept {VERSION_SUPPORT} {bytes_of_string ''end''} st1 st2"
    using plain_step [OF vs, of "mgr_call fo ju en" ?f] k1 assms(12-14,18) names_differ(4) by auto
  have kp: "kept {VERSION_SUPPORT, KEY_BYTES} {bytes_of_string KN, bytes_of_string ''end''} st st2"
    by (rule kept_trans [OF kept_mono [OF 1(3)] kept_mono [OF 2(3)]]) auto
  note k2 = kept_state [OF kp]
  have as: "flag_name ` set fs \<inter> {bytes_of_string KN, bytes_of_string ''end''} = {}"
    using feature_flags_facts(3) image_mono [OF assms(9), of flag_name] by fast
  have fn: "feature_nodes (es_graph st2) m fs fnek" using feature_nodes_kept [OF kp assms(9)] assms(8) by simp
  have fp: "fnek \<Longrightarrow> fnek_plain (es_nvps st2)" using fnek_plain_kept(1) [OF kp] assms(17) by auto
  have sg: "find_sig (es_mnt_params st2) = Some (Some s)"
    using 1(2) 2(2) assms(19) by (simp add: bytes_of_string_def)
  have fs2: "features_spec fs fnek (es_nvps st2) ps = features_spec fs fnek (es_nvps st) ps" for ps
    by (rule features_spec_kept [OF kp as]) auto
  note e = features_evaluate [OF fn assms(9-11) _ _ _ _ fp sg, of fo ju en fuel]
  show ?thesis
    using e 1 2 k k2 assms(12-14,16) flags_plain_kept(1) [OF kp as] fs2
    by (auto simp: size_spec_def)
qed

lemma size_spec_kept:
  assumes "kept ks as st st'" and "flag_name ` set fs \<inter> as = {}" "as \<subseteq> bytes_of_string ` {''sig'', CN}"
  shows "size_spec fs fnek c (es_nvps st') ps = size_spec fs fnek c (es_nvps st) ps"
proof -
  have "bytes_of_string KN \<notin> as" using assms(3) names_differ(2,3) by blast
  note o = kept_state(6) [OF assms(1) this]
  have "features_spec fs fnek (es_nvps st') ps = features_spec fs fnek (es_nvps st) ps" for ps
    by (rule features_spec_kept [OF assms(1,2)]) (use assms(3) in blast)
  then show ?thesis by (simp only: size_spec_def o)
qed

text \<open>From the cipher on.\<close>

lemma cipher_evaluates:
  assumes "cipher_nodes (es_graph st)" "single_node (es_graph st) VERSION_SUPPORT ''end'' None m"
    "feature_nodes (es_graph st) m fs fnek"
    and "set fs \<subseteq> set feature_flags" "distinct (map fst fs)" "distinct (map flag_name fs)"
    and "es_verbosity st = 0" "spec_plain fs fnek (es_nvps st)" "es_mem st = []" "61 \<notin> set s"
    and 1: "es_mnt_params st = [Some (bytes_of_string ''ecryptfs_sig='' @ s), None]"
  shows "\<exists>st'. eval_loop (mgr_call fo ju en) (Suc (Suc (Suc (length fs + Suc (Suc (Suc (Suc (Suc fuel)))))))) CIPHER_PARAM st
       = Some (Some (fst (mount_spec fs fnek s (es_nvps st)), st'))
     \<and> es_mnt_params st' = snd (mount_spec fs fnek s (es_nvps st)) \<and> es_ctx st' = es_ctx st \<and> es_mem st' = es_mem st"
proof -
  let ?f = "Suc (Suc (length fs + Suc (Suc (Suc (Suc (Suc fuel))))))" and ?cn = "bytes_of_string CN"
  let ?ps = "[Some (bytes_of_string ''ecryptfs_sig='' @ s), None]"
  have st: "es_verbosity st = 0" "plain_options (es_nvps st)" "es_mem st = []"
    and cn: "cipher_nodes (es_graph st)" "choice_free (es_nvps st)"
    using assms(1,7,8,9) by (simp_all add: spec_plain_def)
  show ?thesis
  proof (cases "\<exists>c. opt_val ?cn (es_nvps st) = Some (Live c) \<and> c \<in> set (map (bytes_of_string \<circ> fst) cipher_descriptors)")
    case False
    obtain n where n: "es_graph st CIPHER_PARAM = Some n" "pn_mnt_opt_names n = [?cn]" "quiet 0 n"
      "pn_default_val n = None" "pn_tl n = map cipher_tn cipher_descriptors" using cn(1) by (auto simp: cipher_nodes_def)
    have "vals_of n = map (Some \<circ> bytes_of_string \<circ> fst) cipher_descriptors" using n(5) by (simp add: vals_of_def)
    then have "\<forall>c. opt_val ?cn (es_nvps st) = Some (Live c) \<and> c \<noteq> null_text \<longrightarrow> Some c \<notin> set (vals_of n)"
      using False by auto
    moreover have "mount_spec fs fnek s (es_nvps st) = (MOUNT_ERROR, ?ps)"
      using False by (auto simp: mount_spec_def Let_def split: option.splits heap_ptr.splits)
    ultimately show ?thesis
      using choice_fails [OF n(1-4) choice_ciphers [OF n(5) cn(2)] st, of "mgr_call fo ju en" ?f] 1 by auto
  next
    case True
    then obtain c where c0: "opt_val ?cn (es_nvps st) = Some (Live c)"
      "c \<in> set (map (bytes_of_string \<circ> fst) cipher_descriptors)" by blast
    then obtain i where "i < length (map (bytes_of_string \<circ> fst) cipher_descriptors)"
      "map (bytes_of_string \<circ> fst) cipher_descriptors ! i = c" by (meson in_set_conv_nth)
    then have c: "opt_val ?cn (es_nvps st) = Some (Live c)" "i < length cipher_descriptors"
      "c = bytes_of_string (fst (cipher_descriptors ! i))" using c0 by auto
    have cm: "c \<in> set (map (bytes_of_string \<circ> fst) cipher_descriptors)" "c \<noteq> null_text"
      using c0(2) no_null_choice(1) by metis+
    have lim: "\<forall>v \<in> set (es_mnt_params st). limit_of ''max_key_bytes='' v = None \<and> limit_of ''min_key_bytes='' v = None"
      using 1 sig_no_limit [of s] assms(10) by (auto simp: limit_of_def)
    obtain st2 n where 2: "eval_loop (mgr_call fo ju en) (Suc ?f) CIPHER_PARAM st = eval_loop (mgr_call fo ju en) ?f KEY_BYTES st2"
      "es_mnt_params st2 = Some (bytes_of_string ''ecryptfs_cipher='' @ c) # es_mnt_params st"
      "es_graph st2 KEY_BYTES = Some n" "pn_tl n = map key_bytes_tn (sizes_of c)"
      "pn_mnt_opt_names n = [bytes_of_string KN]" "quiet 0 n" "pn_default_val n = None"
      "kept {CIPHER_PARAM, KEY_BYTES} {?cn} st st2"
      using cipher_given [OF cn(1) st _ cm(2) c(3,2) cn(2) lim, of fo ju en ?f] c(1) by auto
    note kp = 2(8)
    have as: "flag_name ` set fs \<inter> {?cn} = {}"
      using feature_flags_facts(3) image_mono [OF assms(4), of flag_name] by fast
    have "\<exists>st'. eval_loop (mgr_call fo ju en) ?f KEY_BYTES st2
        = Some (Some (fst (size_spec fs fnek c (es_nvps st2) (es_mnt_params st2)), st'))
      \<and> es_mnt_params st' = snd (size_spec fs fnek c (es_nvps st2) (es_mnt_params st2)) \<and> es_ctx st' = es_ctx st2 \<and> es_mem st' = es_mem st2"
    proof (rule tail_evaluates [OF 2(3,4) _ 2(5-7) _ _ assms(4-6)])
      show "single_node (es_graph st2) VERSION_SUPPORT ''end'' None m"
        using assms(2) single_node_kept [OF kp] by simp
      show "feature_nodes (es_graph st2) m fs fnek" using feature_nodes_kept [OF kp assms(4)] assms(3) by simp
      show "flags_plain fs (es_nvps st2)" using flags_plain_kept(1) [OF kp as] assms(8) by (simp add: spec_plain_def)
      show "fnek_plain (es_nvps st2)" if fnek
        using that fnek_plain_kept(1) [OF kp] assms(8) by (auto simp: spec_plain_def)
      show "opt_val (bytes_of_string ''end'') (es_nvps st2) = None"
        using kept_state(6) [OF kp, of "bytes_of_string ''end''"] names_differ(4) assms(8) by (simp add: spec_plain_def)
      show "find_sig (es_mnt_params st2) = Some (Some s)" using 1 2(2) by (simp add: bytes_of_string_def)
      show "sizes_of c \<noteq> []" using sizes_nonempty c by simp
    qed (use kept_state [OF kp] choice_free_kept [OF kp] assms(7-9) in \<open>simp_all add: spec_plain_def\<close>)
    moreover have "size_spec fs fnek c (es_nvps st2) (es_mnt_params st2) = mount_spec fs fnek s (es_nvps st)"
      using size_spec_kept [OF kp as] c(1) cm(1) 1 2(2) by (simp add: mount_spec_def Let_def)
    ultimately show ?thesis using 2(1) kept_state(2,3) [OF kp] by simp
  qed
qed

text \<open>Option lists that the specification cannot tell apart.\<close>

definition spec_names :: "'x flag list \<Rightarrow> byte list set" where
  "spec_names fs = bytes_of_string ` {CN, KN, FS, EN, ''end''} \<union> flag_name ` set fs"

definition same_opts :: "'x flag list \<Rightarrow> nv_list \<Rightarrow> nv_list \<Rightarrow> bool" where
  "same_opts fs nvps nvps' \<longleftrightarrow> nv_name ` set nvps' = nv_name ` set nvps \<and> plain_options nvps' = plain_options nvps
     \<and> (\<forall>a \<in> spec_names fs. opt_val a nvps' = opt_val a nvps \<and> once a nvps' = once a nvps)"

lemma same_opts_mark: "a \<notin> spec_names fs \<Longrightarrow> same_opts fs nvps (mark_opt a nvps)"
  unfolding same_opts_def by (metis mark_opt_names once_mark_opt opt_val_mark_opt plain_options_mark)

lemma same_opts_trans [trans]: "same_opts fs xs ys \<Longrightarrow> same_opts fs ys zs \<Longrightarrow> same_opts fs xs zs"
  by (simp add: same_opts_def)

lemma same_opts_refl [simp]: "same_opts fs xs xs"
  by (simp add: same_opts_def)

lemma same_opts_kept: "kept ks as st st' \<Longrightarrow> as \<inter> spec_names fs = {} \<Longrightarrow> same_opts fs (es_nvps st) (es_nvps st')"
  unfolding same_opts_def kept_def by (metis disjoint_iff)

lemma same_opts_spec:
  assumes "same_opts fs nvps nvps'"
  shows "spec_plain fs fnek nvps' = spec_plain fs fnek nvps" "mount_spec fs fnek s nvps' = mount_spec fs fnek s nvps"
proof -
  have n: "bytes_of_string ` {CN, KN, FS, EN, ''end''} \<subseteq> spec_names fs" "flag_name ` set fs \<subseteq> spec_names fs"
    by (auto simp: spec_names_def)
  have e: "opt_val (bytes_of_string a) nvps' = opt_val (bytes_of_string a) nvps"
      "once (bytes_of_string a) nvps' = once (bytes_of_string a) nvps" if "a \<in> {CN, KN, FS, EN, ''end''}" for a
    using assms n(1) that unfolding same_opts_def by blast+
  have f: "\<forall>f \<in> set fs. opt_val (flag_name f) nvps' = opt_val (flag_name f) nvps"
    using assms n(2) unfolding same_opts_def by blast
  have "flags_plain fs nvps' = flags_plain fs nvps" using f by (simp add: flags_plain_def)
  moreover have "fnek_plain nvps' = fnek_plain nvps" using e by (simp add: fnek_plain_def)
  moreover have "choice_free nvps' = choice_free nvps" "plain_options nvps' = plain_options nvps"
    using assms by (simp_all add: choice_free_def same_opts_def)
  ultimately show "spec_plain fs fnek nvps' = spec_plain fs fnek nvps" using e by (simp add: spec_plain_def)
  have "fnek_spec nvps' ps = fnek_spec nvps ps" for ps by (rule fnek_spec_cong) (simp_all add: e)
  moreover have "push_flags fs nvps' ps = push_flags fs nvps ps" for ps by (rule push_flags_cong [OF f])
  ultimately show "mount_spec fs fnek s nvps' = mount_spec fs fnek s nvps"
    using e by (simp only: mount_spec_def size_spec_def features_spec_def insertI1 insertI2)
qed

lemma spec_names_other:
  fixes fs :: "'x flag list"
  assumes "set fs \<subseteq> set feature_flags" and "a \<in> {''sig'', ''key'', ''another_key'', ''passphrase_passwd'', ''passwd'', ''passphrase_salt'', ''salt''}"
  shows "bytes_of_string a \<notin> spec_names fs"
proof -
  have "bytes_of_string a \<notin> flag_name ` set (feature_flags :: 'x flag list)" using assms(2) by (auto simp: feature_flags_def)
  moreover have "flag_name ` set fs \<subseteq> flag_name ` set (feature_flags :: 'x flag list)" by (rule image_mono [OF assms(1)])
  ultimately show ?thesis using assms(2) by (auto simp: spec_names_def CN_def KN_def FS_def EN_def)
qed

lemma path_evaluates:
  assumes "path_nodes (es_graph st) m" "feature_nodes (es_graph st) m fs fnek"
    and "set fs \<subseteq> set feature_flags" "distinct (map fst fs)" "distinct (map flag_name fs)"
    and "es_verbosity st = 0" "mount_plain fs fnek s (es_nvps st)" "es_mem st = []" "es_mnt_params st = [None]"
  shows "\<exists>st'. eval_loop (mgr_call fo ju en) (Suc (Suc (Suc (Suc (length fs + Suc (Suc (Suc (Suc (Suc fuel))))))))) ROOT_PARAM st
       = Some (Some (fst (mount_spec fs fnek s (es_nvps st)), st'))
     \<and> es_mnt_params st' = snd (mount_spec fs fnek s (es_nvps st)) \<and> es_ctx st' = es_ctx st \<and> es_mem st' = es_mem st"
proof -
  let ?f = "Suc (Suc (Suc (length fs + Suc (Suc (Suc (Suc (Suc fuel)))))))"
  have po: "plain_options (es_nvps st)" "spec_plain fs fnek (es_nvps st)" "61 \<notin> set s"
    using assms(7) by (simp_all add: mount_plain_def spec_plain_def)
  obtain st1 where 1: "eval_loop (mgr_call fo ju en) (Suc ?f) ROOT_PARAM st = eval_loop (mgr_call fo ju en) ?f CIPHER_PARAM st1"
    "es_mnt_params st1 = [Some (bytes_of_string ''ecryptfs_sig='' @ s), None]"
    "kept {ROOT_PARAM} {bytes_of_string ''sig''} st st1"
    using sig_given [OF assms(1,6) po(1) assms(8), of s fo ju en ?f] assms(7,9) by (auto simp: mount_plain_def)
  have so: "same_opts fs (es_nvps st) (es_nvps st1)"
    by (rule same_opts_kept [OF 1(3)]) (use spec_names_other [OF assms(3)] in simp)
  have cn: "cipher_nodes (es_graph st1)" "single_node (es_graph st1) VERSION_SUPPORT ''end'' None m"
    "feature_nodes (es_graph st1) m fs fnek"
    using assms(1,2) kept_state(5) [OF 1(3)] single_node_kept [OF 1(3)] feature_nodes_kept [OF 1(3) assms(3)]
    by (simp_all add: path_nodes_def cipher_nodes_def)
  show ?thesis
    using cipher_evaluates [OF cn assms(3-5), of s fo ju en fuel] 1 kept_state [OF 1(3)] assms(6,8) po(2,3)
      same_opts_spec [OF so] by simp
qed

end
