(* ===== verification/Mount_Run.thy ===== *)
theory Mount_Run
  imports Mount_Options
begin

text \<open>
  \<open>ecryptfs_process_decision_graph\<close> as a whole, from \<open>src/libecryptfs/module_mgr.c\<close>: the graph it
  builds when only the built-in key module is there, and what its evaluation gives when nothing
  is asked.
\<close>

subsection \<open>The graph that is built\<close>

lemma static_graph_at:
  "static_graph 0 = Some key_module_select_node" "static_graph (Suc 0) = Some root_param_node"
  "static_graph 2 = Some end_param_node" "static_graph 3 = Some filename_crypto_fnek_sig_param_node"
  "static_graph 4 = Some enable_filename_crypto_param_node" "static_graph 5 = Some ecryptfs_version_support_node"
  "static_graph 6 = Some encrypted_passthrough_param_node" "static_graph 7 = Some xattr_param_node"
  "static_graph 8 = Some passthrough_param_node" "static_graph 9 = Some hmac_param_node"
  "static_graph 10 = Some ecryptfs_key_bytes_param_node" "static_graph 11 = Some ecryptfs_cipher_param_node"
  "static_graph 12 = Some another_key_param_node"
  "static_graph 14 = Some (passphrase_param_nodes Passphrase 14 ! 0)"
  "static_graph 15 = Some (passphrase_param_nodes Passphrase 14 ! 1)"
  "static_graph 16 = Some (passphrase_param_nodes Passphrase 14 ! 2)"
  "static_graph 17 = Some (passphrase_param_nodes Passphrase 14 ! 3)"
  "static_graph 18 = Some (passphrase_param_nodes Passphrase 14 ! 4)"
  by (simp_all add: static_graph_def static_nodes_def Let_def passphrase_param_nodes_def)

definition select_graph :: "'x graph_fn graph" where
  "select_graph = static_graph(KEY_MODULE_SELECT \<mapsto> key_module_select_node\<lparr>pn_tl := [passphrase_transition PASS_NODES]\<rparr>)"

lemma select_graph_at:
  "select_graph 0 = Some (key_module_select_node\<lparr>pn_tl := [passphrase_transition PASS_NODES]\<rparr>)"
  "k \<noteq> 0 \<Longrightarrow> select_graph k = static_graph k"
  by (simp_all add: select_graph_def)

lemma set_exit_select:
  "ecryptfs_set_exit_param_on_graph (Suc (Suc (Suc (Suc (Suc (Suc depth)))))) KEY_MODULE_SELECT ANOTHER_KEY select_graph
   = Some (Some (select_graph(18 \<mapsto> salt_node Passphrase PASS_NODES ANOTHER_KEY)))"
  unfolding ecryptfs_set_exit_param_on_graph_def set_exit_param_node_for_node_def
  by (simp add: slots_64 upt_conv_Cons select_graph_at static_graph_at passphrase_transition_def mk_tn_def mk_node_def passphrase_param_nodes_def
    update_tn_def exit_tn_def salt_node_def zero_tn_def another_key_param_node_def ecryptfs_cipher_param_node_def one_tn_def)

definition passphrase_mod :: "'x mgr_tn ecryptfs_key_mod" where
  "passphrase_mod = new_key_mod (Some ''passphrase'') None (ecryptfs_passphrase_ops (passphrase_transition PASS_NODES))"

definition dup_names :: "string list" where
  "dup_names = [''passphrase_type'', ''passphrase_passwd'', ''passwd'', ''passphrase_salt'', ''salt'',
     ''passphrase_salt'', ''salt'', ''passphrase_passwd_file'', ''passfile'', ''passphrase_salt'', ''salt'',
     ''passphrase_salt'', ''salt'', ''passphrase_passwd_fd'', ''passfd'', ''passphrase_salt'', ''salt'',
     ''passphrase_salt'', ''salt'']"

lemma register_builtin:
  assumes "me_entries env = Some []" and "es_mem st = []" and "lc_key_mods (es_ctx st) = []"
  shows "register_modules env st
    = Some (0, st\<lparr>es_ctx := (es_ctx st)\<lparr>lc_key_mods := [passphrase_mod]\<rparr>\<rparr>)"
  using assms by (cases st) (simp add: register_modules_def ecryptfs_register_key_modules_def builtin_get_key_mod_ops_def
   ecryptfs_passphrase_ops_def ecryptfs_passphrase_init_def current_mods_def passphrase_mod_def)

lemma add_passphrase_module:
  assumes "version AND 1 \<noteq> 0"
  shows "add_modules (Suc (Suc (Suc (Suc depth)))) junk version b [passphrase_mod] static_graph ad []
    = Some (Some (0, select_graph, ad @ map (\<lambda>n. junk\<lparr>nv_name := Live (bytes_of_string n)\<rparr>) dup_names, []))"
  using assms
  by (simp add: module_subgraph_def passphrase_mod_def new_key_mod_def ecryptfs_passphrase_ops_def
    ecryptfs_passphrase_get_param_subgraph_trans_node_def static_graph_at key_module_select_node_def
    add_transition_node_to_param_node_def ecryptfs_insert_params_in_subgraph_def dup_names_def select_graph_def
     passphrase_transition_def mk_tn_def mk_node_def passphrase_param_nodes_def zero_tn_def)

lemma init_cipher_select:
  "init_ecryptfs_cipher_param_node (select_graph(18 \<mapsto> n)) []
   = Some (0, select_graph(18 \<mapsto> n, 11 \<mapsto> ecryptfs_cipher_param_node
      \<lparr>pn_suggested_val := Some (bytes_of_string ''aes''), pn_tl := map cipher_tn cipher_descriptors\<rparr>), [])"
  by (simp add: init_ecryptfs_cipher_param_node_def select_graph_at static_graph_at ecryptfs_cipher_param_node_def
   mk_node_def cipher_descriptors_def suggest_def)

definition version_flags :: "u32 \<Rightarrow> 'x flag list" where
  "version_flags version =
     (if ecryptfs_supports_plaintext_passthrough version = 0 then [] else take 1 feature_flags)
     @ (if ecryptfs_supports_hmac version = 0 then [] else take 1 (drop 1 feature_flags))
     @ (if ecryptfs_supports_xattr version = 0 then [] else drop 2 feature_flags)"

abbreviation fnek_version :: "u32 \<Rightarrow> bool" where
  "fnek_version version \<equiv> ecryptfs_supports_filename_encryption version \<noteq> 0"

text \<open>The graph before the features are added.\<close>

definition cipher_graph :: "'x graph_fn graph" where
  "cipher_graph = select_graph(18 \<mapsto> salt_node Passphrase PASS_NODES ANOTHER_KEY,
     11 \<mapsto> ecryptfs_cipher_param_node
      \<lparr>pn_suggested_val := Some (bytes_of_string ''aes''), pn_tl := map cipher_tn cipher_descriptors\<rparr>)"

lemma cipher_graph_at:
  "k \<notin> {0, 11, 18} \<Longrightarrow> cipher_graph k = static_graph k"
  "cipher_graph 11 = Some (ecryptfs_cipher_param_node
      \<lparr>pn_suggested_val := Some (bytes_of_string ''aes''), pn_tl := map cipher_tn cipher_descriptors\<rparr>)"
  by (simp_all add: cipher_graph_def select_graph_at)

lemmas static_node_defs = root_param_node_def end_param_node_def filename_crypto_fnek_sig_param_node_def
  enable_filename_crypto_param_node_def ecryptfs_version_support_node_def encrypted_passthrough_param_node_def
  xattr_param_node_def passthrough_param_node_def hmac_param_node_def ecryptfs_key_bytes_param_node_def
  ecryptfs_cipher_param_node_def mk_node_def one_tn_def mk_tn_def

lemma feature_chain_graph:
  assumes "version_flags version \<noteq> ([] :: 'x flag list) \<or> fnek_version version"
  shows "\<exists>(g :: 'x graph_fn graph) m. feature_chain version cipher_graph [] = (0, g, [])
     \<and> path_nodes g m \<and> feature_nodes g m (version_flags version) (fnek_version version)"
  using assms
  by (cases "ecryptfs_supports_plaintext_passthrough version = 0"; cases "ecryptfs_supports_hmac version = 0";
      cases "ecryptfs_supports_xattr version = 0"; cases "ecryptfs_supports_filename_encryption version = 0")
    (simp_all add: feature_chain_def suggest_n_def point_to_def cipher_graph_at static_graph_at static_node_defs
      version_flags_def feature_flags_def,
     simp_all add: path_nodes_def cipher_nodes_def feature_nodes_def single_node_def fnek_nodes_def end_node_def
      unflagged_def quiet_def has_flag_def cipher_graph_at static_graph_at static_node_defs CN_def KN_def FS_def EN_def)

subsection \<open>A mount with an existing key\<close>

definition allowed_dups :: "('x, 'k) mgr_env \<Rightarrow> nv_list" where
  "allowed_dups env = map (\<lambda>n. (me_junk_nv env)\<lparr>nv_name := Live (bytes_of_string n)\<rparr>) (''key'' # dup_names)"

lemma free_names_live: "names_live ps \<Longrightarrow> free_names ps = Some ()"
  by (induction ps) auto

text \<open>The process at its start: nothing is registered, the graph is as compiled in.\<close>

definition start_state :: "('x, 'k) mgr_state \<Rightarrow> bool" where
  "start_state st \<longleftrightarrow> es_graph st = static_graph \<and> es_mem st = [] \<and> lc_key_mods (es_ctx st) = []
     \<and> es_mnt_params st \<noteq> []"

lemma select_node_empty: "key_module_select_node\<lparr>pn_tl := []\<rparr> = key_module_select_node"
  by (simp add: key_module_select_node_def mk_node_def)

lemma static_select: "static_graph(0 \<mapsto> key_module_select_node) = static_graph"
  by (rule ext) (simp add: static_graph_at)

lemma process_reduces:
  fixes env :: "('x, 'k) mgr_env"
  assumes "start_state st" and "me_entries env = Some []" and "version AND 1 \<noteq> 0"
    and "feature_chain version cipher_graph [] = (0, g, [])"
  shows "ecryptfs_process_decision_graph env (Suc (Suc (Suc (Suc (Suc (Suc depth)))))) fuel version opts False st
    = eval_options env fuel opts (allowed_dups env)
        (st\<lparr>es_ctx := (es_ctx st)\<lparr>lc_key_mods := [passphrase_mod]\<rparr>, es_graph := g\<rparr>)"
proof -
  let ?d = "Suc (Suc (Suc (Suc (Suc (Suc depth)))))"
  have st: "es_graph st = static_graph" "es_mem st = []" "lc_key_mods (es_ctx st) = []"
    using assms(1) by (simp_all add: start_state_def)
  let ?st = "st\<lparr>es_ctx := (es_ctx st)\<lparr>lc_key_mods := [passphrase_mod]\<rparr>\<rparr>"
  have f: "fill_in_decision_graph_based_on_version_support ?d version (select_graph :: 'x graph_fn graph) []
      = Some (Some (0, g, []))"
    using assms(4) by (simp add: fill_in_decision_graph_based_on_version_support_def set_exit_select
        init_cipher_select cipher_graph_def [symmetric])
  have u: "?st\<lparr>es_graph := select_graph, es_mem := []\<rparr>\<lparr>es_graph := g, es_mem := []\<rparr> = ?st\<lparr>es_graph := g\<rparr>"
    using st(2) by (cases st) simp
  have r: "register_modules env st = Some (0, ?st)" by (rule register_builtin [OF assms(2) st(2,3)])
  have m: "malloc_ok (es_mem st) = (True, [])" "malloc_ok [] = (True, [])" using st(2) by simp_all
  have a: "add_modules ?d (me_junk_nv env) version FIRST_FREE [passphrase_mod] (static_graph :: 'x graph_fn graph)
      [(me_junk_nv env)\<lparr>nv_name := Live (bytes_of_string ''key'')\<rparr>] []
    = Some (Some (0, select_graph, allowed_dups env, []))"
    by (subst add_passphrase_module [OF assms(3)]) (simp add: allowed_dups_def)
  show ?thesis
    unfolding ecryptfs_process_decision_graph_def r
    using a f m u st(1) by (simp add: Let_def static_graph_at select_node_empty static_select del: add_modules.simps mallocs.simps)
qed

definition mount_status :: "int \<Rightarrow> int" where
  "mount_status rc = (if 0 < rc \<and> rc \<noteq> MOUNT_ERROR then 0 else rc)"

text \<open>The options after the \<open>.ecryptfsrc\<close> file and those of the command line are merged.\<close>

definition merged_options :: "('x, 'k) mgr_env \<Rightarrow> byte list option \<Rightarrow> nv_list \<Rightarrow> bool" where
  "merged_options env opts nvps \<longleftrightarrow> (\<exists>rc1 rc2 rc3 rcs cmd.
     ecryptfs_parse_rc_file (me_junk env) (pe_open (me_pass env)) (me_pw_dir env) [] [] = Some (rc1, rcs, [])
     \<and> ecryptfs_parse_options opts [] [] = Some (rc2, cmd, [])
     \<and> ecryptfs_nvp_list_union rcs cmd (allowed_dups env) [] = Some (rc3, nvps, []))"

lemma eval_options_merged:
  assumes "merged_options env opts nvps" and "es_mem st = []" and "es_mnt_params st \<noteq> []"
    and "get_verbosity nvps = Some v"
    and "eval_loop (mgr_call (me_foreign env) (me_junk env) (me_pass env)) fuel ROOT_PARAM
       (st\<lparr>es_nvps := nvps, es_mnt_params := [None], es_foo := None, es_verbosity := v\<rparr>) = Some r"
  shows "eval_options env fuel opts (allowed_dups env) st
    = Some (map_option (\<lambda>(rc, st). (mount_status rc, st)) r)"
proof -
  obtain rc1 rc2 rc3 rcs cmd where
    "ecryptfs_parse_rc_file (me_junk env) (pe_open (me_pass env)) (me_pw_dir env) [] [] = Some (rc1, rcs, [])"
    "ecryptfs_parse_options opts [] [] = Some (rc2, cmd, [])"
    "ecryptfs_nvp_list_union rcs cmd (allowed_dups env) [] = Some (rc3, nvps, [])"
    using assms(1) by (auto simp: merged_options_def)
  moreover have "free_names (allowed_dups env) = Some ()"
    by (rule free_names_live) (auto simp: names_live_def allowed_dups_def)
  moreover have "st\<lparr>es_nvps := nvps, es_mem := [], es_mnt_params := [None], es_foo := None, es_verbosity := v\<rparr>
      = st\<lparr>es_nvps := nvps, es_mnt_params := [None], es_foo := None, es_verbosity := v\<rparr>"
    using assms(2) by (cases st) simp
  then have "eval_loop (mgr_call (me_foreign env) (me_junk env) (me_pass env)) fuel ROOT_PARAM
      (st\<lparr>es_nvps := nvps, es_mem := [], es_mnt_params := [None], es_foo := None, es_verbosity := v\<rparr>) = Some r"
    using assms(5) by metis
  ultimately show ?thesis
    using assms(2-4) by (simp add: eval_options_def ecryptfs_eval_decision_graph_def eval_param_tree_def)
      (simp add: mount_status_def)
qed

lemma version_flags_facts:
  "set (version_flags version :: 'x flag list) \<subseteq> set feature_flags"
  "distinct (map fst (version_flags version :: 'x flag list))"
  "distinct (map flag_name (version_flags version :: 'x flag list))"
  "length (version_flags version :: 'x flag list) \<le> 4"
  by (auto simp: version_flags_def feature_flags_def)

lemma process_existing_key:
  fixes env :: "('x, 'k) mgr_env"
  assumes "start_state st" and "me_entries env = Some []" and "version AND 1 \<noteq> 0"
    and "version_flags version \<noteq> ([] :: 'x flag list) \<or> fnek_version version"
    and "merged_options env opts nvps" and "get_verbosity nvps = Some 0"
    and "mount_plain (version_flags version :: 'x flag list) (fnek_version version) s nvps"
    and "6 \<le> depth" "17 \<le> fuel"
    and spec: "mount_spec (version_flags version :: 'x flag list) (fnek_version version) s nvps = (rc, ps)"
  shows "\<exists>st'. ecryptfs_process_decision_graph env depth fuel version opts False st
      = Some (Some (mount_status rc, st'))
    \<and> es_mnt_params st' = ps \<and> lc_keys (es_ctx st') = lc_keys (es_ctx st) \<and> es_mem st' = []"
proof -
  let ?fs = "version_flags version :: 'x flag list" and ?call = "mgr_call (me_foreign env) (me_junk env) (me_pass env)"
  obtain g m where g: "feature_chain version cipher_graph [] = (0, g, [])" "path_nodes g m"
    "feature_nodes g m ?fs (fnek_version version)" using feature_chain_graph [OF assms(4)] by blast
  have "depth = Suc (Suc (Suc (Suc (Suc (Suc (depth - 6))))))" using assms(8) by linarith
  then obtain d where d: "depth = Suc (Suc (Suc (Suc (Suc (Suc d)))))" by blast
  have "fuel = Suc (Suc (Suc (Suc (length ?fs + Suc (Suc (Suc (Suc (Suc (fuel - 9 - length ?fs)))))))))"
    using assms(9) version_flags_facts(4) [of version, where ?'x = 'x] by linarith
  then obtain f where f: "fuel = Suc (Suc (Suc (Suc (length ?fs + Suc (Suc (Suc (Suc (Suc f))))))))" by blast
  let ?st = "st\<lparr>es_ctx := (es_ctx st)\<lparr>lc_key_mods := [passphrase_mod]\<rparr>, es_graph := g\<rparr>"
  let ?run = "?st\<lparr>es_nvps := nvps, es_mnt_params := [None], es_foo := None, es_verbosity := 0\<rparr>"
  have st: "es_mem ?st = []" "es_mnt_params ?st \<noteq> []" using assms(1) by (simp_all add: start_state_def)
  obtain st' where 1: "eval_loop ?call fuel ROOT_PARAM ?run = Some (Some (rc, st'))"
    "es_mnt_params st' = ps" "es_ctx st' = es_ctx ?run" "es_mem st' = []"
    using path_evaluates [of ?run m ?fs "fnek_version version" s "me_foreign env" "me_junk env" "me_pass env" f]
      g(2,3) version_flags_facts [of version, where ?'x = 'x] assms(7) st spec unfolding f by auto
  show ?thesis
    unfolding d process_reduces [OF assms(1-3) g(1)] eval_options_merged [OF assms(5) st assms(6) 1(1)]
    using 1(2-4) by simp
qed

text \<open>
  C6. With verbosity 0, an existing key and only the built-in key module, for a kernel module that
  supports passphrases and at least one further feature, the mount options are those of the
  specification: signature, cipher, key size, the flags that are on among the features of the
  kernel module, and the signature for file names. A missing or unknown cipher or key size is a
  mount error, also for a cipher that has one key size only, where the manual page
  \<open>ecryptfs.7\<close> says that the size need not be given; a flag that is neither yes nor no is an invalid
  argument. Nothing goes into the keyring. Seventeen rounds of the evaluation are enough.
\<close>

theorem mount_with_existing_key:
  fixes env :: "('x, 'k) mgr_env"
  assumes "start_state st" and "me_entries env = Some []" and "version AND 1 \<noteq> 0"
    and "version_flags version \<noteq> ([] :: 'x flag list) \<or> fnek_version version"
    and "merged_options env opts nvps" and "get_verbosity nvps = Some 0"
    and "mount_plain (version_flags version :: 'x flag list) (fnek_version version) s nvps"
    and "6 \<le> depth" "17 \<le> fuel"
    and "mount_spec (version_flags version :: 'x flag list) (fnek_version version) s nvps = (rc, ps)"
  shows "\<exists>st'. ecryptfs_process_decision_graph env depth fuel version opts False st
      = Some (Some (mount_status rc, st'))
    \<and> es_mnt_params st' = ps \<and> lc_keys (es_ctx st') = lc_keys (es_ctx st)"
  using process_existing_key [OF assms] by blast

lemma push_flags_texts:
  "\<forall>v \<in> set (snd (push_flags fs nvps ps)). v \<in> set ps \<or> (\<exists>f \<in> set fs. v = Some (bytes_of_string (snd (snd (snd f)))))"
proof (induction fs arbitrary: ps)
  case (Cons f fs)
  obtain k a c t where f: "f = (k, a, c, t)" by (cases f)
  show ?case
  proof (cases "flag_on (opt_val (bytes_of_string a) nvps)")
    case (Some b)
    then show ?thesis using Cons.IH [of "(if b then [Some (bytes_of_string t)] else []) @ ps"] f by auto
  qed (simp add: f)
qed simp

lemma push_flags_status: "fst (push_flags fs nvps ps) = fst (push_flags fs nvps qs)"
  by (induction fs arbitrary: ps qs) (auto split: option.splits)

definition fnek_option :: "byte list option \<Rightarrow> bool" where
  "fnek_option v \<longleftrightarrow> (\<exists>s. v = Some s \<and> take 18 s = bytes_of_string ''ecryptfs_fnek_sig='')"

text \<open>
  A request to encrypt file names that names no key is dropped without a word: with verbosity 0,
  \<open>ecryptfs_enable_filename_crypto=y\<close> and no \<open>ecryptfs_fnek_sig\<close>, the status is success and no
  option for file names is among the mount options.
\<close>

theorem filename_crypto_request_dropped:
  fixes env :: "('x, 'k) mgr_env"
  assumes "start_state st" and "me_entries env = Some []" and "version AND 1 \<noteq> 0" and "fnek_version version"
    and "merged_options env opts nvps" and "get_verbosity nvps = Some 0"
    and "mount_plain (version_flags version :: 'x flag list) True s nvps"
    and "opt_val (bytes_of_string ''ecryptfs_enable_filename_crypto'') nvps = Some (Live (bytes_of_string ''y''))"
    and "opt_val (bytes_of_string ''ecryptfs_fnek_sig'') nvps = None"
    and "opt_val (bytes_of_string ''ecryptfs_cipher'') nvps = Some (Live (bytes_of_string ''aes''))"
    and "opt_val (bytes_of_string ''ecryptfs_key_bytes'') nvps = Some (Live (bytes_of_string ''16''))"
    and "fst (push_flags (version_flags version :: 'x flag list) nvps []) = 0"
    and "6 \<le> depth" "17 \<le> fuel"
  shows "\<exists>st'. ecryptfs_process_decision_graph env depth fuel version opts False st = Some (Some (0, st'))
    \<and> \<not> list_ex fnek_option (es_mnt_params st')"
proof -
  let ?fs = "version_flags version :: 'x flag list"
  let ?ps = "[Some (bytes_of_string ''ecryptfs_key_bytes='' @ bytes_of_string ''16''),
     Some (bytes_of_string ''ecryptfs_cipher='' @ bytes_of_string ''aes''),
     Some (bytes_of_string ''ecryptfs_sig='' @ s), None]"
  have rc: "fst (push_flags ?fs nvps ?ps) = 0" using push_flags_status [of ?fs nvps ?ps "[]"] assms(12) by simp
  have sz: "bytes_of_string ''16'' \<in> set (map (bytes_of_string \<circ> decimal) (sizes_of (bytes_of_string ''aes'')))"
    by code_simp
  have c: "bytes_of_string ''aes'' \<in> set (map (bytes_of_string \<circ> fst) cipher_descriptors)"
    by (simp add: cipher_descriptors_def)
  have "features_spec ?fs True nvps ?ps = (NULL_TOK, snd (push_flags ?fs nvps ?ps))"
    using assms(8,9) rc by (auto simp: features_spec_def fnek_spec_def FS_def EN_def flag_on_def split: prod.split)
  then have "mount_spec ?fs (fnek_version version) s nvps = (NULL_TOK, snd (push_flags ?fs nvps ?ps))"
    using assms(4,10,11) sz c by (simp add: mount_spec_def size_spec_def CN_def KN_def)
  then obtain st' where 1: "ecryptfs_process_decision_graph env depth fuel version opts False st
      = Some (Some (mount_status NULL_TOK, st'))" "es_mnt_params st' = snd (push_flags ?fs nvps ?ps)"
    using process_existing_key [OF assms(1-3) _ assms(5,6) _ assms(13,14), of s] assms(4,7) by auto
  have "\<not> fnek_option v" if "v \<in> set (snd (push_flags ?fs nvps ?ps))" for v
    using that push_flags_texts [of ?fs nvps ?ps]
    by (auto simp: fnek_option_def version_flags_def feature_flags_def bytes_of_string_def split: if_splits)
  then show ?thesis using 1 by (auto simp: mount_status_def list_ex_iff)
qed

text \<open>
  A cipher with one key size needs the size all the same, against the manual page: without
  \<open>ecryptfs_key_bytes\<close> the mount is an error. Triple DES is such a cipher.
\<close>

lemma single_key_size_not_assumed:
  fixes env :: "('x, 'k) mgr_env"
  assumes "start_state st" and "me_entries env = Some []" and "version AND 1 \<noteq> 0"
    and "version_flags version \<noteq> ([] :: 'x flag list) \<or> fnek_version version"
    and "merged_options env opts nvps" and "get_verbosity nvps = Some 0"
    and "mount_plain (version_flags version :: 'x flag list) (fnek_version version) s nvps"
    and "opt_val (bytes_of_string ''ecryptfs_cipher'') nvps = Some (Live (bytes_of_string ''des3_ede''))"
    and "opt_val (bytes_of_string ''ecryptfs_key_bytes'') nvps = None"
    and "6 \<le> depth" "17 \<le> fuel"
  shows "sizes_of (bytes_of_string ''des3_ede'') = [24]
    \<and> (\<exists>st'. ecryptfs_process_decision_graph env depth fuel version opts False st = Some (Some (mount_status MOUNT_ERROR, st')))"
proof -
  have "sizes_of (bytes_of_string ''des3_ede'') = [24]" by code_simp
  moreover obtain ps where "mount_spec (version_flags version :: 'x flag list) (fnek_version version) s nvps = (MOUNT_ERROR, ps)"
    using assms(8,9) by (simp add: mount_spec_def size_spec_def CN_def KN_def cipher_descriptors_def)
  ultimately show ?thesis using process_existing_key [OF assms(1-7,10,11)] by blast
qed

subsection \<open>A sample run\<close>

lemma merge_distinct:
  "named src \<Longrightarrow> distinct (map nv_name src) \<Longrightarrow> nv_name ` set dst \<inter> nv_name ` set src = {} \<Longrightarrow>
   foldl (merge_nv ad) dst src = dst @ map copy_of src"
proof (induction src arbitrary: dst)
  case (Cons p src)
  obtain n where "nv_name p = Live n" using Cons.prems(1) by (auto simp: named_def)
  then have "nv_name (copy_of p) = nv_name p" by (simp add: copy_of_def text_of_def)
  moreover have "merge_nv ad dst p = dst @ [copy_of p]" using Cons.prems by (auto simp: merge_nv_def)
  ultimately show ?case using Cons.prems Cons.IH [of "dst @ [copy_of p]"] by (simp add: named_def)
qed simp

lemma merged_plain:
  assumes "me_pw_dir env = None" and "list_all opt_ok opts" "opts \<noteq> []" and "distinct (map fst opts)"
  shows "merged_options env (Some (join_with 44 (map nv_text opts))) (map (copy_of \<circ> (\<lambda>o'. nv_node (fst o') (snd o'))) opts)"
proof -
  let ?cmd = "map (\<lambda>o'. nv_node (fst o') (snd o')) opts"
  have "ecryptfs_parse_options (Some (join_with 44 (map nv_text opts))) [] [] = Some (0, ?cmd, [])"
    using nv_list_loop_opts [OF assms(2,3), of "([], [])"] by (simp add: ecryptfs_parse_options_def generate_nv_list_def)
  moreover have "ecryptfs_nvp_list_union [] ?cmd (allowed_dups env) [] = Some (0, map (copy_of \<circ> (\<lambda>o'. nv_node (fst o') (snd o'))) opts, [])"
  proof -
    have n: "named (allowed_dups env)" "named ?cmd" "no_dangling ?cmd" "childless ?cmd" "no_dangling []"
      by (auto simp: named_def allowed_dups_def no_dangling_def childless_def nv_node_def zero_nv_def split: option.splits)
    have "map nv_name ?cmd = map (Live \<circ> fst) opts" by (simp add: nv_node_def)
    then have "distinct (map nv_name ?cmd)" using assms(4) by (simp add: distinct_map inj_on_def)
    then show ?thesis using union_loop_ok [OF n, of 0] merge_distinct [OF n(2), of "[]"]
      by (simp add: ecryptfs_nvp_list_union_def)
  qed
  ultimately show ?thesis using assms(1) by (auto simp: merged_options_def ecryptfs_parse_rc_file_def)
qed

definition sample_mgr_env :: "(unit, (byte list \<times> ecryptfs_auth_tok) list) mgr_env" where
  "sample_mgr_env = \<lparr>me_dir = [], me_entries = Some [], me_dlopen = (\<lambda>_. No_Handle),
     me_pw_dir = None, me_pass = sample_env, me_foreign = (\<lambda>_ _ _. None), me_junk = (\<lambda>_. 0), me_junk_nv = zero_nv\<rparr>"

definition sample_mgr_state :: "(unit, (byte list \<times> ecryptfs_auth_tok) list) mgr_state" where
  "sample_mgr_state = \<lparr>es_graph = static_graph, es_nvps = [], es_mnt_params = [None],
     es_foo = None, es_ctx = \<lparr>lc_key_mods = [], lc_num_param_vals = (\<lambda>_. 0), lc_keys = []\<rparr>,
     es_verbosity = 1, es_get_string = True, es_inputs = [], es_repeated = 0, es_lastnode = None, es_mem = []\<rparr>"

definition sample_opts :: "(byte list \<times> byte list option) list" where
  "sample_opts = map (\<lambda>(n, v). (bytes_of_string n, Some (bytes_of_string v)))
     [(''verbosity'', ''0''), (''sig'', ''ab''), (''ecryptfs_cipher'', ''aes''), (''ecryptfs_key_bytes'', ''16''),
      (''ecryptfs_xattr'', ''y''), (''ecryptfs_enable_filename_crypto'', ''y'')]"

abbreviation sample_nvps :: nv_list where
  "sample_nvps \<equiv> map (copy_of \<circ> (\<lambda>o'. nv_node (fst o') (snd o'))) sample_opts"

abbreviation sample_text :: string where
  "sample_text \<equiv> ''verbosity=0,sig=ab,ecryptfs_cipher=aes,ecryptfs_key_bytes=16,ecryptfs_xattr=y,ecryptfs_enable_filename_crypto=y''"

lemma sample_mgr:
  "start_state sample_mgr_state" "me_entries sample_mgr_env = Some []"
  "merged_options sample_mgr_env (Some (bytes_of_string sample_text)) sample_nvps"
  "get_verbosity sample_nvps = Some 0"
proof -
  show "start_state sample_mgr_state" by (simp add: start_state_def sample_mgr_state_def)
  show "me_entries sample_mgr_env = Some []" by (simp add: sample_mgr_env_def)
  have ok: "list_all opt_ok sample_opts"
    by (simp add: sample_opts_def opt_ok_def nv_plain_def nv_text_def bytes_of_string_def is_colon_list_def)
  have t: "bytes_of_string sample_text = join_with 44 (map nv_text sample_opts)"
    by (simp add: sample_opts_def nv_text_def bytes_of_string_def)
  have d: "sample_opts \<noteq> []" "distinct (map fst sample_opts)" by (simp_all add: sample_opts_def)
  show "merged_options sample_mgr_env (Some (bytes_of_string sample_text)) sample_nvps"
    unfolding t by (rule merged_plain [OF _ ok d]) (simp add: sample_mgr_env_def)
  show "get_verbosity sample_nvps = Some 0" by code_simp
qed

lemma sample_opt_val [simp]:
  "opt_val b [] = None" "unused (bytes_of_string a) (sample_pair n v) \<longleftrightarrow> a = n"
  "opt_val (bytes_of_string a) (sample_pair n v # ps)
     = (if a = n then Some (Live (bytes_of_string v)) else opt_val (bytes_of_string a) ps)"
  "mark_opt (bytes_of_string a) (sample_pair n v # ps)
     = (if a = n then mark_used (sample_pair n v) # ps else sample_pair n v # mark_opt (bytes_of_string a) ps)"
  "opt_val (bytes_of_string a) (mark_used (sample_pair n v) # ps) = opt_val (bytes_of_string a) ps"
  by (auto simp: opt_val_def unused_def sample_pair_def zero_nv_def has_flag_def mark_used_def)

lemma sample_nvps_eq:
  "sample_nvps = [sample_pair ''verbosity'' ''0'', sample_pair ''sig'' ''ab'', sample_pair ''ecryptfs_cipher'' ''aes'',
     sample_pair ''ecryptfs_key_bytes'' ''16'', sample_pair ''ecryptfs_xattr'' ''y'',
     sample_pair ''ecryptfs_enable_filename_crypto'' ''y'']"
  by (simp add: sample_opts_def copy_of_def nv_node_def sample_pair_def zero_nv_def text_of_def)

lemma sample_flags:
  "version_flags 0x115 = [(PASSTHROUGH, ''ecryptfs_passthrough'', Get_Passthrough, ''ecryptfs_passthrough''),
     (XATTR_PARAM, ''ecryptfs_xattr'', Get_Xattr, ''ecryptfs_xattr_metadata''),
     (ENCRYPTED_PASSTHROUGH, ''ecryptfs_encrypted_view'', Get_Encrypted_Passthrough, ''ecryptfs_encrypted_view'')]"
  "fnek_version 0x115"
  by (simp_all add: version_flags_def feature_flags_def ecryptfs_supports_plaintext_passthrough_def
      ecryptfs_supports_hmac_def ecryptfs_supports_xattr_def ecryptfs_supports_filename_encryption_def)

lemma sample_plain:
  "mount_plain (version_flags 0x115 :: unit flag list) True (bytes_of_string ''ab'') sample_nvps"
proof -
  have n: "nv_name (sample_pair n v) = Live (bytes_of_string n)" "nv_value (sample_pair n v) = Live (bytes_of_string v)"
    for n v by (simp_all add: sample_pair_def)
  have c: "choice_free sample_nvps"
    unfolding choice_free_def sample_nvps_eq
    by (simp add: n cipher_descriptors_def supported_key_bytes_def decimal_sizes)
  show ?thesis
    unfolding mount_plain_def spec_plain_def using c unfolding sample_nvps_eq sample_flags
    by (simp add: plain_options_def n flags_plain_def fnek_plain_def FS_def EN_def valueless_def once_def
      unset_text_def null_text_def) (simp add: bytes_of_string_def)
qed

theorem mount_with_existing_key_witness:
  "\<exists>st'. ecryptfs_process_decision_graph sample_mgr_env 6 17 0x115 (Some (bytes_of_string sample_text)) False
      sample_mgr_state = Some (Some (0, st'))
    \<and> es_mnt_params st' = map (Some \<circ> bytes_of_string)
        [''ecryptfs_xattr_metadata'', ''ecryptfs_key_bytes=16'', ''ecryptfs_cipher=aes'', ''ecryptfs_sig=ab''] @ [None]"
proof -
  let ?fs = "version_flags 0x115 :: unit flag list"
  have sz: "bytes_of_string ''16'' \<in> set (map (bytes_of_string \<circ> decimal) (sizes_of (bytes_of_string ''aes'')))"
    by code_simp
  have c: "bytes_of_string ''aes'' \<in> set (map (bytes_of_string \<circ> fst) cipher_descriptors)"
    by (simp add: cipher_descriptors_def)
  let ?ps = "map (Some \<circ> bytes_of_string)
        [''ecryptfs_xattr_metadata'', ''ecryptfs_key_bytes=16'', ''ecryptfs_cipher=aes'', ''ecryptfs_sig=ab''] @ [None]"
  have "mount_spec ?fs (fnek_version 0x115) (bytes_of_string ''ab'') sample_nvps = (NULL_TOK, ?ps)"
    using sz c sample_flags(2) unfolding sample_nvps_eq sample_flags
    by (simp add: mount_spec_def size_spec_def features_spec_def fnek_spec_def CN_def KN_def FS_def EN_def flag_on_def)
      (simp add: bytes_of_string_def)
  then show ?thesis
    using mount_with_existing_key [OF sample_mgr(1,2) _ _ sample_mgr(3,4), of "0x115" "bytes_of_string ''ab''" 6 17]
      sample_plain sample_flags by (auto simp: mount_status_def)
qed

theorem filename_crypto_request_dropped_witness:
  "\<exists>st'. ecryptfs_process_decision_graph sample_mgr_env 6 17 0x115 (Some (bytes_of_string sample_text)) False
      sample_mgr_state = Some (Some (0, st')) \<and> \<not> list_ex fnek_option (es_mnt_params st')"
proof -
  have o: "opt_val (bytes_of_string ''ecryptfs_enable_filename_crypto'') sample_nvps = Some (Live (bytes_of_string ''y''))"
    "opt_val (bytes_of_string ''ecryptfs_fnek_sig'') sample_nvps = None"
    "opt_val (bytes_of_string ''ecryptfs_cipher'') sample_nvps = Some (Live (bytes_of_string ''aes''))"
    "opt_val (bytes_of_string ''ecryptfs_key_bytes'') sample_nvps = Some (Live (bytes_of_string ''16''))"
    "fst (push_flags (version_flags 0x115 :: unit flag list) sample_nvps []) = 0"
    unfolding sample_nvps_eq by (simp_all add: sample_flags(1) flag_on_def)
  show ?thesis
    using filename_crypto_request_dropped [OF sample_mgr(1,2) _ sample_flags(2) sample_mgr(3,4) sample_plain o, of 6 17]
    by simp
qed

subsection \<open>An evaluation without end\<close>

lemma never_ends:
  assumes "fnek_nodes (es_graph st) e e'" and "es_verbosity st = 0" "plain_options (es_nvps st)" "es_mem st = []"
    and "opt_val (bytes_of_string FS) (es_nvps st) = None" and "find_sig (es_mnt_params st) = Some (Some s)"
    and "valueless (opt_val (bytes_of_string EN) (es_nvps st)) \<and> once (bytes_of_string EN) (es_nvps st)
       \<or> opt_val (bytes_of_string EN) (es_nvps st) = None \<and> \<not> unflagged (es_graph st) ENABLE_FILENAME_CRYPTO"
  shows "eval_loop (mgr_call fo ju en) fuel FNEK_SIG st = Some None"
  using assms
proof (induction fuel arbitrary: st e e' rule: less_induct)
  case (less fuel)
  show ?case
  proof (cases fuel)
    case 0
    then show ?thesis by (simp add: eval_loop.simps)
  next
    case (Suc n)
    obtain st1 where 1: "eval_loop (mgr_call fo ju en) fuel FNEK_SIG st = eval_loop (mgr_call fo ju en) n ENABLE_FILENAME_CRYPTO st1"
      "es_mnt_params st1 = es_mnt_params st" "es_nvps st1 = es_nvps st"
      "fnek_nodes (es_graph st1) ENABLE_FILENAME_CRYPTO e"
      "unflagged (es_graph st1) ENABLE_FILENAME_CRYPTO = unflagged (es_graph st) ENABLE_FILENAME_CRYPTO"
      "kept {FNEK_SIG, ENABLE_FILENAME_CRYPTO} {bytes_of_string FS} st st1"
      using fnek_missing [OF less.prems(1-5), of fo ju en n] Suc by auto
    have st1: "es_verbosity st1 = 0" "plain_options (es_nvps st1)" "es_mem st1 = []"
      using kept_state [OF 1(6)] less.prems(2-4) by simp_all
    show ?thesis
    proof (cases n)
      case 0
      then show ?thesis using 1(1) by (simp add: eval_loop.simps)
    next
      case n: (Suc k)
      have "flag_on (opt_val (bytes_of_string EN) (es_nvps st1)) = Some True
          \<or> opt_val (bytes_of_string EN) (es_nvps st1) = None \<and> \<not> unflagged (es_graph st1) ENABLE_FILENAME_CRYPTO"
        using less.prems(7) 1(3,5) by (auto simp: valueless_def flag_on_def)
      then obtain st2 where 2: "eval_loop (mgr_call fo ju en) n ENABLE_FILENAME_CRYPTO st1 = eval_loop (mgr_call fo ju en) k FNEK_SIG st2"
        "es_mnt_params st2 = es_mnt_params st1" "es_nvps st2 = mark_opt (bytes_of_string EN) (es_nvps st1)"
        "fnek_nodes (es_graph st2) e FNEK_SIG"
        "unflagged (es_graph st2) ENABLE_FILENAME_CRYPTO = (unflagged (es_graph st1) ENABLE_FILENAME_CRYPTO
           \<and> \<not> valueless (opt_val (bytes_of_string EN) (es_nvps st1)))"
        "kept {FNEK_SIG, ENABLE_FILENAME_CRYPTO} {bytes_of_string EN} st1 st2"
        using enable_on [OF 1(4) st1, of s fo ju en k] 1(2) less.prems(6) n by auto
      have "opt_val (bytes_of_string EN) (es_nvps st2) = None \<and> \<not> unflagged (es_graph st2) ENABLE_FILENAME_CRYPTO"
        using less.prems(7) 1(3,5) 2(3,5) mark_opt_none [of "bytes_of_string EN" "es_nvps st1"] by auto
      then have "eval_loop (mgr_call fo ju en) k FNEK_SIG st2 = Some None"
        using less.IH [of k st2 e FNEK_SIG] 2 1(2,3) kept_state [OF 2(6)] st1 less.prems(5,6) n Suc by simp
      then show ?thesis using 1(1) 2(1) by simp
    qed
  qed
qed

text \<open>
  The option \<open>ecryptfs_enable_filename_crypto\<close> without a value, verbosity 0 and no signature for
  file names: the evaluation goes back and forth between the node of the signature and the node
  of the question, and no number of rounds ends it.
\<close>

theorem valueless_filename_crypto_never_ends:
  assumes "fnek_nodes (es_graph st) e e'" and "es_verbosity st = 0" "plain_options (es_nvps st)" "es_mem st = []"
    and "opt_val (bytes_of_string FS) (es_nvps st) = None" and "find_sig (es_mnt_params st) = Some (Some s)"
    and "valueless (opt_val (bytes_of_string EN) (es_nvps st))" "once (bytes_of_string EN) (es_nvps st)"
  shows "eval_loop (mgr_call foreign junk env) fuel FNEK_SIG st = Some None"
  using assms by (intro never_ends) auto

theorem valueless_filename_crypto_never_ends_witness:
  "\<forall>fuel. eval_loop (mgr_call (\<lambda>_ _ _. None) (\<lambda>_. 0) sample_env) fuel FNEK_SIG
     (sample_mgr_state\<lparr>es_verbosity := 0, es_mnt_params := [Some (bytes_of_string ''ecryptfs_sig=ab''), None],
        es_nvps := [sample_pair ''ecryptfs_enable_filename_crypto'' ''(null)'']\<rparr>) = Some None"
proof
  fix fuel
  let ?st = "sample_mgr_state\<lparr>es_verbosity := 0, es_mnt_params := [Some (bytes_of_string ''ecryptfs_sig=ab''), None],
        es_nvps := [sample_pair ''ecryptfs_enable_filename_crypto'' ''(null)'']\<rparr>"
  have g: "fnek_nodes (es_graph ?st) END_PARAM FNEK_SIG"
    by (simp add: fnek_nodes_def single_node_def sample_mgr_state_def static_graph_at static_node_defs quiet_def
        has_flag_def FS_def EN_def)
  have o: "plain_options (es_nvps ?st)" "opt_val (bytes_of_string FS) (es_nvps ?st) = None"
    "valueless (opt_val (bytes_of_string EN) (es_nvps ?st))" "once (bytes_of_string EN) (es_nvps ?st)"
    by (simp_all add: plain_options_def FS_def EN_def valueless_def null_text_def once_def)
      (simp add: sample_pair_def)
  have f: "find_sig (es_mnt_params ?st) = Some (Some (bytes_of_string ''ab''))" by (simp add: bytes_of_string_def)
  show "eval_loop (mgr_call (\<lambda>_ _ _. None) (\<lambda>_. 0) sample_env) fuel FNEK_SIG ?st = Some None"
    by (rule valueless_filename_crypto_never_ends [OF g _ o(1) _ o(2) f o(3,4)]) (simp_all add: sample_mgr_state_def)
qed

end
