(* ===== verification/Graph_Safety.thy ===== *)
theory Graph_Safety
  imports Mount_Run
begin

text \<open>
  Well-formedness of the graph through an evaluation, for every option list, every answer of the
  user and every allocation failure: the nodes stay the same set, every transition leads to one
  of them or to nothing, and no node has more transitions than its array holds. The options are
  only marked.
\<close>

subsection \<open>Well-formed graphs\<close>

definition node_ok :: "nat set \<Rightarrow> 'f param_node \<Rightarrow> bool" where
  "node_ok D n \<longleftrightarrow> length (pn_tl n) \<le> MAX_NUM_TRANSITIONS
     \<and> (\<forall>tn \<in> set (pn_tl n). \<forall>m. tn_next_token tn = Some m \<longrightarrow> m \<in> D)"

definition graph_ok :: "nat set \<Rightarrow> 'f graph \<Rightarrow> bool" where
  "graph_ok D g \<longleftrightarrow> dom g = D \<and> {0..<FIRST_FREE} \<subseteq> D \<and> (\<forall>k n. g k = Some n \<longrightarrow> node_ok D n)"

lemma node_ok_fields [simp]:
  "node_ok D (n\<lparr>pn_val := v\<rparr>) = node_ok D n" "node_ok D (n\<lparr>pn_flags := fl\<rparr>) = node_ok D n"
  "node_ok D (n\<lparr>pn_suggested_val := w\<rparr>) = node_ok D n"
  by (simp_all add: node_ok_def)

lemma graph_okD: "graph_ok D g \<Longrightarrow> g k = Some n \<Longrightarrow> node_ok D n"
  by (simp add: graph_ok_def)

lemma graph_ok_dom: "graph_ok D g \<Longrightarrow> g k = Some n \<Longrightarrow> k \<in> D"
  by (auto simp: graph_ok_def)

lemma graph_ok_static: "graph_ok D g \<Longrightarrow> k < FIRST_FREE \<Longrightarrow> k \<in> D"
  unfolding graph_ok_def by (meson atLeastLessThan_iff le0 subsetD)

lemma graph_ok_upd: "graph_ok D g \<Longrightarrow> k \<in> D \<Longrightarrow> node_ok D n \<Longrightarrow> graph_ok D (g(k \<mapsto> n))"
  by (auto simp: graph_ok_def)

lemma graph_ok_set_node:
  "graph_ok D (es_graph st) \<Longrightarrow> k \<in> D \<Longrightarrow> node_ok D n \<Longrightarrow> graph_ok D (es_graph (set_node k n st))"
  by (simp add: set_node_def graph_ok_upd)

lemma graph_ok_set_next:
  assumes "graph_ok D (es_graph st)" and "case m of None \<Rightarrow> True | Some j \<Rightarrow> j \<in> D"
  shows "graph_ok D (es_graph (set_next k m st))"
proof (cases "es_graph st k")
  case (Some n)
  have "node_ok D (n\<lparr>pn_tl := (pn_tl n)[0 := (pn_tl n ! 0)\<lparr>tn_next_token := m\<rparr>]\<rparr>)"
    using graph_okD [OF assms(1) Some] assms(2)
    by (auto simp: node_ok_def dest!: subsetD [OF set_update_subset_insert] split: option.splits)
  then show ?thesis
    using assms(1) Some by (simp add: set_next_def update_tn_def graph_ok_upd graph_ok_dom)
qed (use assms(1) in \<open>simp add: set_next_def update_tn_def\<close>)

lemma next_of_ok:
  assumes "graph_ok D (es_graph st)" and "next_of k st = Some m"
  shows "case m of None \<Rightarrow> True | Some j \<Rightarrow> j \<in> D"
proof -
  obtain n where n: "es_graph st k = Some n" using assms(2) by (auto simp: next_of_def bind_eq_Some_conv)
  then show ?thesis using graph_okD [OF assms(1) n] assms(2)
    by (cases "pn_tl n") (auto simp: next_of_def node_ok_def split: option.splits)
qed

subsection \<open>The callbacks keep them\<close>

text \<open>The state of an evaluation that began with these nodes and these options.\<close>

definition eval_ok :: "nat set \<Rightarrow> nv_list \<Rightarrow> ('f, 'foo, 's) eval_state \<Rightarrow> bool" where
  "eval_ok D nvps st \<longleftrightarrow> graph_ok D (es_graph st) \<and> only_marked nvps (es_nvps st)"

lemma eval_ok_frame:
  "es_graph st' = es_graph st \<Longrightarrow> es_nvps st' = es_nvps st \<Longrightarrow> eval_ok D nvps st' = eval_ok D nvps st"
  by (simp add: eval_ok_def)

lemma eval_ok_node: "eval_ok D nvps st \<Longrightarrow> es_graph st k = Some n \<Longrightarrow> k \<in> D \<and> node_ok D n"
  by (auto simp: eval_ok_def dest: graph_okD graph_ok_dom)

lemma eval_ok_set_node: "eval_ok D nvps st \<Longrightarrow> k \<in> D \<Longrightarrow> node_ok D n \<Longrightarrow> eval_ok D nvps (set_node k n st)"
  by (simp add: eval_ok_def graph_ok_set_node)

lemma eval_ok_set_next:
  "eval_ok D nvps st \<Longrightarrow> (case m of None \<Rightarrow> True | Some j \<Rightarrow> j \<in> D) \<Longrightarrow> eval_ok D nvps (set_next k m st)"
  by (simp add: eval_ok_def graph_ok_set_next) (simp add: set_next_def)

lemma eval_ok_next_of:
  "eval_ok D nvps st \<Longrightarrow> next_of k st = Some m \<Longrightarrow> case m of None \<Rightarrow> True | Some j \<Rightarrow> j \<in> D"
  unfolding eval_ok_def by (blast intro: next_of_ok)

lemma eval_ok_static: "eval_ok D nvps st \<Longrightarrow> k < FIRST_FREE \<Longrightarrow> k \<in> D"
  unfolding eval_ok_def by (blast intro: graph_ok_static)

lemma eval_ok_malloc: "eval_ok D nvps st \<Longrightarrow> es_malloc st = (ok, st') \<Longrightarrow> eval_ok D nvps st'"
  by (auto simp: es_malloc_def eval_ok_def split: prod.splits)

lemma eval_ok_mallocs: "eval_ok D nvps st \<Longrightarrow> es_mallocs m st = (ok, st') \<Longrightarrow> eval_ok D nvps st'"
  by (auto simp: es_mallocs_def eval_ok_def split: prod.splits)

lemma eval_ok_push_param: "eval_ok D nvps st \<Longrightarrow> push_param v st = (rc, st') \<Longrightarrow> eval_ok D nvps st'"
  by (auto simp: push_param_def eval_ok_def split: prod.splits)

lemma eval_ok_push_opt:
  assumes "eval_ok D nvps st" and "push_opt name v st = (rc, st')"
  shows "eval_ok D nvps st'"
proof -
  obtain ok st1 where 1: "es_malloc st = (ok, st1)" by fastforce
  show ?thesis using assms(2) eval_ok_malloc [OF assms(1) 1] 1
    by (cases ok) (auto simp: push_opt_def dest: eval_ok_push_param)
qed

lemma eval_ok_set_val:
  assumes "eval_ok D nvps st" and "set_val k s st = Some (rc, st')"
  shows "eval_ok D nvps st'"
proof -
  obtain ok st1 where 1: "es_malloc st = (ok, st1)" by fastforce
  obtain n where n: "es_graph st k = Some n" using assms(2) by (auto simp: set_val_def bind_eq_Some_conv)
  show ?thesis using assms(2) n 1 eval_ok_malloc [OF assms(1) 1] eval_ok_node [OF assms(1) n]
    by (cases ok) (auto simp: set_val_def intro: eval_ok_set_node)
qed

lemmas eval_ok_intros = eval_ok_set_node eval_ok_set_next eval_ok_push_param eval_ok_push_opt

lemma sig_callback_ok:
  "eval_ok D nvps st \<Longrightarrow> sig_param_node_callback k st = Some (rc, st') \<Longrightarrow> eval_ok D nvps st'"
  by (auto simp: sig_param_node_callback_def bind_eq_Some_conv eval_ok_static split: if_splits
      intro: eval_ok_set_next eval_ok_push_opt)

lemma stack_push_if_yes_ok:
  assumes "eval_ok D nvps st" and "stack_push_if_yes k name st = Some (rc, st')"
  shows "eval_ok D nvps st'"
proof -
  obtain n where n: "es_graph st k = Some n"
    using assms(2) by (auto simp: stack_push_if_yes_def bind_eq_Some_conv)
  obtain rc1 st1 where 1: "push_param (Some (bytes_of_string name)) st = (rc1, st1)" by fastforce
  show ?thesis using assms n 1 eval_ok_node [OF assms(1) n] eval_ok_push_param [OF assms(1) 1]
    by (auto simp: stack_push_if_yes_def Let_def split: if_splits intro: eval_ok_set_node)
qed

lemma fnek_callback_ok:
  assumes "eval_ok D nvps st" and "filename_crypto_fnek_sig_callback k st = Some (rc, st')"
  shows "eval_ok D nvps st'"
proof -
  obtain n where n: "es_graph st k = Some n"
    using assms(2) by (auto simp: filename_crypto_fnek_sig_callback_def bind_eq_Some_conv)
  note nd = eval_ok_node [OF assms(1) n]
  show ?thesis
  proof (cases "unset_val (pn_val n)")
    case True
    then obtain m where m: "next_of k st = Some m"
      using assms(2) n by (auto simp: filename_crypto_fnek_sig_callback_def bind_eq_Some_conv)
    have "eval_ok D nvps (set_node k (n\<lparr>pn_flags := PARAM_FLAG_ECHO_INPUT\<rparr>) st)"
      using nd assms(1) by (intro eval_ok_set_node) auto
    then show ?thesis using assms n True m eval_ok_next_of [OF assms(1) m]
      by (auto simp: filename_crypto_fnek_sig_callback_def Let_def eval_ok_static intro!: eval_ok_set_next)
  next
    case False
    then show ?thesis using assms n
      by (auto simp: filename_crypto_fnek_sig_callback_def intro: eval_ok_push_opt)
  qed
qed

lemma node_ok_retarget:
  "node_ok D n \<Longrightarrow> (case m of None \<Rightarrow> True | Some j \<Rightarrow> j \<in> D) \<Longrightarrow>
   node_ok D (n\<lparr>pn_tl := map (\<lambda>t. t\<lparr>tn_next_token := m\<rparr>) (pn_tl n)\<rparr>)"
  by (auto simp: node_ok_def split: option.splits)

lemma enable_callback_ok:
  assumes "eval_ok D nvps st" and "get_enable_filename_crypto k st = Some (rc, st')"
  shows "eval_ok D nvps st'"
proof -
  obtain n where n: "es_graph st k = Some n"
    using assms(2) by (auto simp: get_enable_filename_crypto_def bind_eq_Some_conv)
  have fin: "eval_ok D nvps st2" if "eval_ok D nvps st1" "es_graph st1 k = Some n1"
    "st2 = set_node k (n1\<lparr>pn_val := None\<rparr>) st1" for st1 st2 n1
    using that eval_ok_node [OF that(1,2)] by (auto intro: eval_ok_set_node)
  show ?thesis
  proof (cases "0 < is_yes (pn_val n) 0 \<or> has_flag (pn_flags n) PARAMETER_SET")
    case False
    then show ?thesis using assms n fin [OF assms(1) n]
      by (auto simp: get_enable_filename_crypto_def Let_def)
  next
    case True
    then obtain m fnek where m: "next_of k st = Some m" and f: "es_graph st FNEK_SIG = Some fnek"
      using assms(2) n by (auto simp: get_enable_filename_crypto_def bind_eq_Some_conv)
    define st1 where "st1 = set_next k (Some FNEK_SIG) (set_node FNEK_SIG
      (fnek\<lparr>pn_tl := map (\<lambda>t. t\<lparr>tn_next_token := m\<rparr>) (pn_tl fnek)\<rparr>) st)"
    have st1: "eval_ok D nvps st1" unfolding st1_def
      using eval_ok_node [OF assms(1) f] eval_ok_next_of [OF assms(1) m] assms(1)
      by (intro eval_ok_set_next eval_ok_set_node node_ok_retarget) (auto simp: eval_ok_static)
    obtain ok st2 where 2: "es_malloc st1 = (ok, st2)" by fastforce
    have st2: "eval_ok D nvps st2" by (rule eval_ok_malloc [OF st1 2])
    have g: "eval_ok D nvps (set_node FNEK_SIG (f2\<lparr>pn_suggested_val := w\<rparr>) st2)"
      if "es_graph st2 FNEK_SIG = Some f2" for f2 w
      using eval_ok_node [OF st2 that] st2 by (intro eval_ok_set_node) auto
    note u = assms(2) [unfolded get_enable_filename_crypto_def n Let_def, simplified, simplified True m f, simplified,
        folded st1_def]
    obtain s where s: "find_sig (es_mnt_params st1) = Some s"
      using u True by (auto simp: bind_eq_Some_conv)
    then show ?thesis
      using u True st1 st2 2 fin g
      by (cases s; cases ok) (auto simp: bind_eq_Some_conv)
  qed
qed

lemma key_bytes_callback_ok:
  assumes "eval_ok D nvps st" and "tf_ecryptfs_key_bytes k st = Some (rc, st')"
  shows "eval_ok D nvps st'"
proof -
  obtain n where n: "es_graph st k = Some n"
    using assms(2) by (auto simp: tf_ecryptfs_key_bytes_def bind_eq_Some_conv)
  have "eval_ok D nvps (set_node k (n\<lparr>pn_val := None\<rparr>) st)"
    using eval_ok_node [OF assms(1) n] assms(1) by (intro eval_ok_set_node) auto
  then show ?thesis using assms(2) n by (auto simp: tf_ecryptfs_key_bytes_def intro: eval_ok_push_opt)
qed

lemma suggest_tl: "suggest v n mem = (ok, n', mem') \<Longrightarrow> pn_tl n' = pn_tl n"
  by (auto simp: suggest_def split: if_splits prod.splits bool.splits)

lemma add_key_bytes_tl:
  "add_key_bytes c mn mx ks n mem = (rc, n', mem') \<Longrightarrow> set (pn_tl n') \<subseteq> set (pn_tl n) \<union> range key_bytes_tn"
proof (induction ks arbitrary: n mem)
  case (Cons ck ks)
  obtain c' k where ck: "ck = (c', k)" by fastforce
  obtain ok mem1 where 1: "malloc_ok mem = (ok, mem1)" by fastforce
  obtain ok2 n2 mem2 where 2: "suggest (decimal k) n mem1 = (ok2, n2, mem2)" by (metis surj_pair)
  note tl = suggest_tl [OF 2]
  consider "n' = n" | "n' = n2" | "add_key_bytes c mn mx ks n mem = (rc, n', mem')"
    | "add_key_bytes c mn mx ks (n2\<lparr>pn_tl := pn_tl n @ [key_bytes_tn k]\<rparr>) mem2 = (rc, n', mem')"
    using Cons.prems unfolding ck
    by (cases ok; cases ok2) (simp_all add: 1 2 tl split: if_splits)
  then show ?case
  proof cases
    case 4
    from Cons.IH [OF this] show ?thesis by auto
  qed (use tl Cons.IH in auto)
qed simp

lemma cipher_callback_ok:
  assumes "eval_ok D nvps st" and "tf_ecryptfs_cipher k st = Some (rc, st')"
  shows "eval_ok D nvps st'"
proof -
  obtain rc1 ps mn mx where 1: "strip_limits (es_mnt_params st) 0 999999 = Some (rc1, ps, mn, mx)"
    using assms(2) by (auto simp: tf_ecryptfs_cipher_def bind_eq_Some_conv)
  define st1 where "st1 = st\<lparr>es_mnt_params := ps\<rparr>"
  have st1: "eval_ok D nvps st1" using assms(1) by (simp add: st1_def eval_ok_def)
  show ?thesis
  proof (cases "rc1 = 0")
    case False
    then show ?thesis using assms(2) 1 st1 by (simp add: tf_ecryptfs_cipher_def st1_def)
  next
    case True
    then obtain c rc2 st2 where 2: "init_ecryptfs_key_bytes_param_node c mn mx st1 = Some (rc2, st2)"
      "st' = st2 \<or> (\<exists>n. es_graph st2 k = Some n
         \<and> (rc, st') = push_opt ''ecryptfs_cipher='' c (set_node k (n\<lparr>pn_val := None\<rparr>) st2))"
      using assms(2) 1 by (auto simp: tf_ecryptfs_cipher_def bind_eq_Some_conv st1_def split: if_splits)
    obtain q where q: "es_graph st1 KEY_BYTES = Some q"
      using 2(1) by (auto simp: init_ecryptfs_key_bytes_param_node_def bind_eq_Some_conv)
    obtain rc3 q' mem where a: "add_key_bytes c mn mx supported_key_bytes q (es_mem st1) = (rc3, q', mem)"
      by (metis surj_pair)
    have q': "length (pn_tl q') \<le> MAX_NUM_TRANSITIONS" "st2 = set_node KEY_BYTES q' (st1\<lparr>es_mem := mem\<rparr>)"
      using 2(1) q a by (auto simp: init_ecryptfs_key_bytes_param_node_def Let_def not_less split: if_splits)
    have "node_ok D q'"
      using add_key_bytes_tl [OF a] eval_ok_static [OF st1, of VERSION_SUPPORT] eval_ok_node [OF st1 q] q'(1)
      by (auto simp: node_ok_def key_bytes_tn_def)
    moreover have "eval_ok D nvps (st1\<lparr>es_mem := mem\<rparr>)" using st1 by (simp add: eval_ok_def)
    ultimately have st2: "eval_ok D nvps st2"
      unfolding q'(2) by (intro eval_ok_set_node) (auto simp: eval_ok_static)
    show ?thesis
      using 2(2) st2 eval_ok_node [OF st2] eval_ok_push_opt [OF eval_ok_set_node [OF st2]] by (metis node_ok_fields(1))
  qed
qed

lemma another_key_callback_ok:
  "eval_ok D nvps st \<Longrightarrow> another_key_param_node_callback k st = Some (rc, st') \<Longrightarrow> eval_ok D nvps st'"
  by (auto simp: another_key_param_node_callback_def bind_eq_Some_conv eval_ok_static intro!: eval_ok_set_next)

text \<open>The callbacks of generated subgraphs do not touch the graph.\<close>

lemma enter_ok:
  assumes "eval_ok D nvps st" and "ecryptfs_enter_linear_subgraph_tf k st = Some (rc, st')"
  shows "eval_ok D nvps st'"
proof -
  obtain ok st1 where 1: "es_malloc st = (ok, st1)" by fastforce
  obtain n where n: "es_graph st k = Some n"
    using assms(2) by (auto simp: ecryptfs_enter_linear_subgraph_tf_def bind_eq_Some_conv)
  have "es_graph st' = es_graph st1 \<and> es_nvps st' = es_nvps st1"
    using assms(2) 1 n by (cases ok; cases "pn_val n")
      (auto simp: ecryptfs_enter_linear_subgraph_tf_def bind_eq_Some_conv Let_def split: if_splits)
  then show ?thesis using eval_ok_malloc [OF assms(1) 1] eval_ok_frame [of st' st1] by simp
qed

lemma val_ok:
  assumes "eval_ok D nvps st" and "ecryptfs_linear_subgraph_val_tf k st = Some (rc, st')"
  shows "eval_ok D nvps st'"
proof -
  obtain ok st1 where 1: "es_mallocs 2 st = (ok, st1)" by fastforce
  obtain n where n: "es_graph st k = Some n"
    using assms(2) by (auto simp: ecryptfs_linear_subgraph_val_tf_def bind_eq_Some_conv)
  show ?thesis
    using assms(2) 1 n eval_ok_mallocs [OF assms(1) 1] assms(1) by (cases ok; cases "pn_val n")
      (auto simp: ecryptfs_linear_subgraph_val_tf_def eval_ok_def split: option.splits sg_ptr.splits)
qed

lemma push_sig_opt_ok:
  assumes "eval_ok D nvps st" and "push_sig_opt sig st = Some (rc, st')"
  shows "eval_ok D nvps st'"
proof -
  obtain ok st1 where 1: "es_malloc st = (ok, st1)" by fastforce
  show ?thesis using assms(2) 1 eval_ok_malloc [OF assms(1) 1]
    by (cases ok) (auto simp: push_sig_opt_def bind_eq_Some_conv eval_ok_def stack_push_def
        split: prod.splits bool.splits)
qed

lemma add_module_key_ok:
  assumes "eval_ok D nvps st" and "add_module_key junk kr m st = Some (rc, st')"
  shows "eval_ok D nvps st'"
proof -
  obtain r where r: "ecryptfs_add_key_module_key_to_keyring junk kr (lc_keys (es_ctx st)) m
      (fresh junk (SIG_SIZE_HEX + 1)) (es_mem st) = Some r"
    using assms(2) by (auto simp: add_module_key_def bind_eq_Some_conv)
  obtain rc1 sig keys mem where e: "r = Returned (rc1, sig, keys, mem)"
    using assms(2) r by (cases r) (auto simp: add_module_key_def)
  let ?st1 = "st\<lparr>es_ctx := (es_ctx st)\<lparr>lc_keys := keys\<rparr>, es_mem := mem\<rparr>"
  have "eval_ok D nvps ?st1" using assms(1) by (simp add: eval_ok_def)
  moreover have "st' = ?st1 \<or> push_sig_opt sig ?st1 = Some (rc, st')"
    using assms(2) r e by (auto simp: add_module_key_def Let_def split: if_splits)
  ultimately show ?thesis using push_sig_opt_ok by metis
qed

lemma exit_ok:
  assumes "eval_ok D nvps st" and "ecryptfs_exit_linear_subgraph_tf junk kr k st = Some (rc, st')"
  shows "eval_ok D nvps st'"
proof -
  obtain c where c: "es_foo st = Some (Sg_Live c)"
    using assms(2) by (auto simp: ecryptfs_exit_linear_subgraph_tf_def split: option.splits sg_ptr.splits)
  define st1 where "st1 = st\<lparr>es_foo := Some Sg_Freed, es_ctx := (es_ctx st)\<lparr>lc_num_param_vals :=
    (lc_num_param_vals (es_ctx st))(sg_key_mod c := length (sg_vals c))\<rparr>\<rparr>"
  have st1: "eval_ok D nvps st1" using assms(1) by (simp add: st1_def eval_ok_def)
  obtain ok st2 where 2: "es_mallocs (1 + length (sg_vals c)) st1 = (ok, st2)" by fastforce
  have st2: "eval_ok D nvps st2" by (rule eval_ok_mallocs [OF st1 2])
  note u = assms(2) [unfolded ecryptfs_exit_linear_subgraph_tf_def c Let_def, simplified, folded st1_def]
  show ?thesis
  proof (cases "sg_vals c = []")
    case True
    then have "es_graph st' = es_graph st1 \<and> es_nvps st' = es_nvps st1"
      using u by (auto simp: st1_def split: if_splits)
    then show ?thesis using st1 eval_ok_frame [of st' st1] by simp
  next
    case False
    show ?thesis
    proof (cases ok)
      case True
      then obtain m x where "add_module_key junk kr m (st2\<lparr>es_ctx := x\<rparr>) = Some (rc, st')"
        using u 2 False by (simp split: if_splits)
      then show ?thesis by (rule add_module_key_ok [rotated]) (use st2 in \<open>simp add: eval_ok_def\<close>)
    next
      case nok: False
      then show ?thesis using u 2 st2 False by (simp split: if_splits)
    qed
  qed
qed

text \<open>The callbacks of the passphrase module only clear values.\<close>

lemma tf_passwd_ok:
  assumes "eval_ok D nvps st" and "tf_passwd k st = Some (rc, st')"
  shows "eval_ok D nvps st'"
proof -
  obtain n where n: "es_graph st k = Some n" using assms(2) by (auto simp: tf_passwd_def bind_eq_Some_conv)
  obtain rc1 st1 where 1: "push_param (pn_val n) st = (rc1, st1)" by fastforce
  show ?thesis
    using assms n 1 eval_ok_push_param [OF assms(1) 1] eval_ok_node [OF assms(1) n]
    by (auto simp: tf_passwd_def split: if_splits intro: eval_ok_set_node)
qed

lemma bind_SomeE: "m \<bind> f = Some y \<Longrightarrow> (\<And>x. m = Some x \<Longrightarrow> f x = Some y \<Longrightarrow> P) \<Longrightarrow> P"
  by (cases m) auto

lemma tf_pass_file_ok:
  fixes st :: "('f, 'foo, 's) eval_state"
  assumes "eval_ok D nvps st" and "tf_pass_file junk env k st = Some (rc, st')"
  shows "eval_ok D nvps st'"
proof -
  obtain n where n: "es_graph st k = Some n" using assms(2) by (auto simp: tf_pass_file_def bind_eq_Some_conv)
  have fin: "eval_ok D nvps (set_node k (n\<lparr>pn_val := None\<rparr>) s)" if "eval_ok D nvps s"
    for s :: "('f, 'foo, 's) eval_state"
    using that eval_ok_node [OF assms(1) n] by (intro eval_ok_set_node) auto
  obtain ok st1 where 1: "es_malloc st = (ok, st1)" by fastforce
  have st1: "eval_ok D nvps st1" by (rule eval_ok_malloc [OF assms(1) 1])
  have mem: "eval_ok D nvps (st1\<lparr>es_mem := m\<rparr>)" for m using st1 by (simp add: eval_ok_def)
  have push: "eval_ok D nvps (snd (push_param v (st1\<lparr>es_mem := m\<rparr>)))" for v m
    using eval_ok_push_param [OF mem] by (metis prod.collapse)
  show ?thesis
  proof (cases ok)
    case False
    then show ?thesis using fin [OF st1] assms(2) n 1 by (simp add: tf_pass_file_def Let_def)
  next
    case True
    note u = assms(2) [unfolded tf_pass_file_def n Let_def, simplified, simplified 1 True, simplified]
    show ?thesis
      apply (rule bind_SomeE [OF u])
      apply (erule bind_SomeE)
      subgoal for name fd
        using fin st1 mem push by (cases fd) (auto simp: bind_eq_Some_conv split: if_splits option.splits)
      done
  qed
qed

lemma tf_salt_ok:
  fixes st :: "('f, 'foo, ('tn, 'k) lib_ctx) eval_state"
  assumes "eval_ok D nvps st" and "tf_salt env k st = Some (rc, st')"
  shows "eval_ok D nvps st'"
proof -
  obtain n where n: "es_graph st k = Some n" using assms(2) by (auto simp: tf_salt_def bind_eq_Some_conv)
  note u = assms(2) [unfolded tf_salt_def n, simplified]
  have val: "eval_ok D nvps s" if "(if pn_val n = None then set_val k (pn_default_val n) st else Some (0, st)) = Some (rc1, s)"
    for rc1 s using that assms(1) eval_ok_set_val by (auto split: if_splits)
  have clear: "eval_ok D nvps (set_node k (n1\<lparr>pn_val := None\<rparr>) (snd (push_param v s))\<lparr>es_mnt_params := ps\<rparr>)"
    if "eval_ok D nvps s" "es_graph s k = Some n1" for s :: "('f, 'foo, ('tn, 'k) lib_ctx) eval_state" and n1 v ps
  proof -
    have "eval_ok D nvps (snd (push_param v s))" using eval_ok_push_param [OF that(1)] by (metis prod.collapse)
    then have "eval_ok D nvps (set_node k (n1\<lparr>pn_val := None\<rparr>) (snd (push_param v s)))"
      using eval_ok_node [OF that] by (intro eval_ok_set_node) auto
    then show ?thesis by (simp add: eval_ok_def)
  qed
  have key: "eval_ok D nvps (s\<lparr>es_ctx := x, es_mem := m\<rparr>)" if "eval_ok D nvps s"
    for s :: "('f, 'foo, ('tn, 'k) lib_ctx) eval_state" and x m
    using that by (simp add: eval_ok_def)
  obtain rc1 s1 where 1: "(if pn_val n = None then set_val k (pn_default_val n) st else Some (0, st)) = Some (rc1, s1)"
    using u by (auto simp: bind_eq_Some_conv)
  note s1 = val [OF 1]
  show ?thesis
  proof (cases "rc1 = 0")
    case False
    then show ?thesis using u 1 s1 by simp
  next
    case True
    then obtain n1 where n1: "es_graph s1 k = Some n1" using u 1 by (auto simp: bind_eq_Some_conv)
    let ?s2 = "set_node k (n1\<lparr>pn_val := None\<rparr>) (snd (push_param (pn_val n1) s1))"
    note u2 = u [unfolded 1 Option.bind.bind_lunit prod.case True, simplified, unfolded n1 Option.bind.bind_lunit Let_def]
    obtain a b ps where ps: "es_mnt_params ?s2 = a # b # ps"
      using u2 by (auto simp: bind_eq_Some_conv split: list.splits)
    let ?s3 = "?s2\<lparr>es_mnt_params := ps\<rparr>"
    have s3: "eval_ok D nvps ?s3" by (rule clear [OF s1 n1])
    obtain ok s4 where 4: "es_malloc ?s3 = (ok, s4)" by fastforce
    have s4: "eval_ok D nvps s4" by (rule eval_ok_malloc [OF s3 4])
    show ?thesis
    proof (cases ok)
      case False
      then show ?thesis using u2 s4 by (simp add: ps 4)
    next
      case True
      then have ok: "ok = True" by simp
      note u4 = u2 [unfolded ps list.case Option.bind.bind_lunit prod.case 4 ok bool.case]
      obtain rc5 sig keys mem where 5: "(if rc5 < 0 then Some (rc5, s4\<lparr>es_ctx := (es_ctx s4)\<lparr>lc_keys := keys\<rparr>, es_mem := mem\<rparr>)
           else (case es_malloc (s4\<lparr>es_ctx := (es_ctx s4)\<lparr>lc_keys := keys\<rparr>, es_mem := mem\<rparr>) of
               (False, st) \<Rightarrow> Some (- ENOMEM, st)
             | (True, st) \<Rightarrow> do {
                 sig \<leftarrow> sig;
                 (case push_param (Some (bytes_of_string ''ecryptfs_sig='' @ sig)) st of
                    (rc, st) \<Rightarrow> Some (if rc \<noteq> 0 then rc else DEFAULT_TOK, st)) })) = Some (rc, st')"
        using u4 by (elim bind_SomeE) (auto split: prod.splits)
      let ?s5 = "s4\<lparr>es_ctx := (es_ctx s4)\<lparr>lc_keys := keys\<rparr>, es_mem := mem\<rparr>"
      have s5: "eval_ok D nvps ?s5" by (rule key [OF s4])
      obtain ok6 s6 where 6: "es_malloc ?s5 = (ok6, s6)" by fastforce
      have "eval_ok D nvps s6" by (rule eval_ok_malloc [OF s5 6])
      then have "eval_ok D nvps (snd (push_param v s6))" for v using eval_ok_push_param by (metis prod.collapse)
      then show ?thesis using 5 s5 6 \<open>eval_ok D nvps s6\<close>
        by (cases ok6; cases "rc5 < 0") (auto simp: bind_eq_Some_conv case_prod_beta)
    qed
  qed
qed

text \<open>What is asked of callbacks from shared objects.\<close>

definition foreign_ok ::
  "nat set \<Rightarrow> ('x \<Rightarrow> nat \<Rightarrow> ('x, 'k) mgr_state \<Rightarrow> (int \<times> ('x, 'k) mgr_state) option) \<Rightarrow> bool" where
  "foreign_ok D foreign \<longleftrightarrow> (\<forall>nvps x k st rc st'. eval_ok D nvps st \<longrightarrow> foreign x k st = Some (rc, st') \<longrightarrow> eval_ok D nvps st')"

lemma mgr_call_ok:
  assumes "foreign_ok D foreign" and "eval_ok D nvps st" and "mgr_call foreign junk env f k st = Some (rc, st')"
  shows "eval_ok D nvps st'"
proof (cases f)
  case (Linear h)
  then show ?thesis using assms by (cases h) (auto dest: enter_ok val_ok exit_ok)
next
  case (Passphrase h)
  then show ?thesis using assms by (cases h) (auto dest: tf_passwd_ok tf_pass_file_ok tf_salt_ok)
next
  case (Foreign x)
  then have "foreign x k st = Some (rc, st')" using assms(3) by simp
  then show ?thesis using assms(1,2) unfolding foreign_ok_def by blast
qed (use assms in \<open>auto dest: sig_callback_ok stack_push_if_yes_ok fnek_callback_ok enable_callback_ok
  key_bytes_callback_ok cipher_callback_ok another_key_callback_ok\<close>)

lemma mgr_invariant:
  assumes "foreign_ok D foreign"
  shows "eval_invariant (mgr_call foreign junk env) (eval_ok D nvps) (\<lambda>k n. k \<in> D \<and> node_ok D n)"
proof
  show "eval_ok D nvps st'" if "eval_ok D nvps st" "mgr_call foreign junk env f k st = Some (rc, st')"
    for st f k rc st' by (rule mgr_call_ok [OF assms that])
qed (auto simp: eval_ok_node eval_ok_set_node, auto simp: eval_ok_def intro: only_marked_trans retrieve_names_marks)

subsection \<open>The graph of a mount\<close>

definition suggested :: "nat \<Rightarrow> 'f graph \<Rightarrow> 'f graph" where
  "suggested k g = fst (snd (suggest_n k g []))"

lemma suggest_n_suggested: "suggest_n k g [] = (True, suggested k g, [])"
  by (simp add: suggest_n_def suggested_def)

lemma graph_ok_suggested: "graph_ok D g \<Longrightarrow> graph_ok D (suggested k g)"
  by (auto simp: suggested_def suggest_n_def graph_ok_dom graph_okD intro!: graph_ok_upd split: option.splits)

lemma graph_ok_point_to: "graph_ok D g \<Longrightarrow> m \<in> D \<Longrightarrow> graph_ok D (point_to k m g)"
  by (auto simp: point_to_def intro!: graph_ok_upd node_ok_retarget dest: graph_okD graph_ok_dom split: option.splits)

lemma feature_chain_ok:
  assumes "graph_ok D g"
  shows "\<exists>g'. feature_chain version g [] = (0, g', []) \<and> graph_ok D g'"
proof -
  have s: "k < FIRST_FREE \<Longrightarrow> k \<in> D" for k using assms by (rule graph_ok_static)
  show ?thesis
    using assms
    by (cases "ecryptfs_supports_plaintext_passthrough version = 0"; cases "ecryptfs_supports_hmac version = 0";
        cases "ecryptfs_supports_xattr version = 0"; cases "ecryptfs_supports_filename_encryption version = 0")
      (auto simp: feature_chain_def suggest_n_suggested s intro!: graph_ok_suggested graph_ok_point_to)
qed

lemma static_graph_ok: "graph_ok {0..<FIRST_FREE} (static_graph :: 'x graph_fn graph)"
proof -
  have l: "length (static_nodes :: 'x graph_fn param_node list) = FIRST_FREE"
    by (simp add: static_nodes_def passphrase_param_nodes_def)
  have "list_all (node_ok {0..<FIRST_FREE}) (static_nodes :: 'x graph_fn param_node list)"
    by (simp add: static_nodes_def passphrase_param_nodes_def static_node_defs key_module_select_node_def
        another_key_param_node_def dummy_param_node_def node_ok_def zero_tn_def)
  then show ?thesis
    using l by (auto simp: graph_ok_def static_graph_def Let_def list_all_length split: if_splits)
qed

lemma cipher_graph_ok: "graph_ok {0..<FIRST_FREE} (cipher_graph :: 'x graph_fn graph)"
  unfolding cipher_graph_def select_graph_def
  by (intro graph_ok_upd static_graph_ok)
    (auto simp: node_ok_def passphrase_transition_def mk_tn_def salt_node_def exit_tn_def cipher_tn_def
      cipher_descriptors_def)

subsection \<open>The property\<close>

text \<open>
  A mount with the built-in key module, for a kernel module that supports passphrases and every
  option string, options file and series of answers of the user: when the evaluation has a result,
  the graph has the nodes it had, and each transition leads to one of them or to nothing. That
  no node has more transitions than its array holds is shown of the other nodes; for the node of the
  key sizes, which the code fills without a check, an overrun is no result in the model.
  The same holds of what callbacks of other modules are called with, as far as they keep it.
\<close>

theorem mount_keeps_graph_well_formed:
  fixes env :: "('x, 'k) mgr_env"
  assumes "start_state st" and "me_entries env = Some []" and "version AND 1 \<noteq> 0" and "6 \<le> depth"
    and "foreign_ok {0..<FIRST_FREE} (me_foreign env)"
    and "ecryptfs_process_decision_graph env depth fuel version opts False st = Some (Some (rc, st'))"
  shows "graph_ok {0..<FIRST_FREE} (es_graph st')"
proof -
  obtain g :: "'x graph_fn graph" where g: "feature_chain version cipher_graph [] = (0, g, [])" "graph_ok {0..<FIRST_FREE} g"
    using feature_chain_ok [OF cipher_graph_ok] by blast
  have "depth = Suc (Suc (Suc (Suc (Suc (Suc (depth - 6))))))" using assms(4) by linarith
  then obtain d where d: "depth = Suc (Suc (Suc (Suc (Suc (Suc d)))))" by blast
  let ?st = "st\<lparr>es_ctx := (es_ctx st)\<lparr>lc_key_mods := [passphrase_mod]\<rparr>, es_graph := g\<rparr>"
  obtain nvps mem where "ecryptfs_eval_decision_graph (mgr_call (me_foreign env) (me_junk env) (me_pass env)) fuel ROOT_PARAM
      (?st\<lparr>es_nvps := nvps, es_mem := mem\<rparr>) = Some (Some (rc, st'))"
    using assms(6) unfolding d process_reduces [OF assms(1-3) g(1)] eval_options_def
    by (auto simp: bind_eq_Some_conv)
  from eval_invariant.eval_decision_graph_inv [OF mgr_invariant [OF assms(5)] _ this, of nvps] g(2)
  show ?thesis by (simp add: eval_ok_def)
qed

theorem mount_keeps_graph_well_formed_witness:
  "\<exists>rc st'. ecryptfs_process_decision_graph sample_mgr_env 6 17 0x115 (Some (bytes_of_string sample_text)) False
      sample_mgr_state = Some (Some (rc, st')) \<and> graph_ok {0..<FIRST_FREE} (es_graph st')"
proof -
  have v: "(0x115 :: u32) AND 1 \<noteq> 0" by simp
  obtain rc ps where spec: "mount_spec (version_flags 0x115 :: unit flag list) (fnek_version 0x115)
      (bytes_of_string ''ab'') sample_nvps = (rc, ps)" by fastforce
  have f: "foreign_ok {0..<FIRST_FREE} (me_foreign sample_mgr_env)"
    by (simp add: foreign_ok_def sample_mgr_env_def)
  have ne: "version_flags 0x115 \<noteq> ([] :: unit flag list) \<or> fnek_version 0x115" using sample_flags(2) by blast
  have p: "mount_plain (version_flags 0x115 :: unit flag list) (fnek_version 0x115) (bytes_of_string ''ab'') sample_nvps"
    using sample_plain sample_flags(2) by simp
  obtain st' where 1: "ecryptfs_process_decision_graph sample_mgr_env 6 17 0x115 (Some (bytes_of_string sample_text)) False
      sample_mgr_state = Some (Some (mount_status rc, st'))"
    using process_existing_key [OF sample_mgr(1,2) v ne sample_mgr(3,4) p _ _ spec, of 6 17] by auto
  from mount_keeps_graph_well_formed [OF sample_mgr(1,2) v _ f 1] 1 show ?thesis by auto
qed

text \<open>
  Whatever the graph, the answers of the user and the outcomes of allocations: when an
  evaluation with the callbacks of the module manager ends, it has done no more to the option
  list than mark options as taken. None is added, removed, renamed, given another value or
  unmarked.
\<close>

theorem evaluation_only_marks_options:
  assumes "graph_ok D (es_graph st)" and "foreign_ok D foreign"
    and "ecryptfs_eval_decision_graph (mgr_call foreign junk env) fuel root st = Some (Some (rc, st'))"
  shows "only_marked (es_nvps st) (es_nvps st')"
  using eval_invariant.eval_decision_graph_inv [OF mgr_invariant [OF assms(2)] _ assms(3), of "es_nvps st"] assms(1)
  by (simp add: eval_ok_def)

theorem evaluation_only_marks_options_witness:
  "only_marked [sample_pair ''end'' ''x''] [mark_used (sample_pair ''end'' ''x'')]"
proof -
  let ?p = "sample_pair ''end'' ''x''"
  let ?st = "sample_mgr_state\<lparr>es_nvps := [?p]\<rparr>"
  let ?st' = "?st\<lparr>es_verbosity := 1, es_mnt_params := [None], es_nvps := [mark_used ?p], es_foo := None,
    es_graph := static_graph(END_PARAM \<mapsto> end_param_node\<lparr>pn_val := Some (bytes_of_string ''x'')\<rparr>),
    es_lastnode := Some END_PARAM\<rparr>"
  have p: "\<not> has_flag (nv_flags ?p) NV_PROCESSED" "nv_name ?p = Live (bytes_of_string ''end'')"
    "nv_value ?p = Live (bytes_of_string ''x'')"
    by (simp_all add: sample_pair_def zero_nv_def has_flag_def)
  have v: "get_verbosity [?p] = Some 1" using p by simp
  have g: "static_graph END_PARAM = Some (end_param_node :: unit graph_fn param_node)" by (simp add: static_graph_at)
  have "ecryptfs_eval_decision_graph (mgr_call (\<lambda>_ _ _. None) (\<lambda>_. 0) sample_env) 1 END_PARAM ?st = Some (Some (0, ?st'))"
    using p v g
    by (simp add: ecryptfs_eval_decision_graph_def eval_param_tree_def sample_mgr_state_def eval_loop.simps
        alloc_and_get_val_def retrieve_val_def es_defs end_param_node_def mk_node_def has_flag_def do_transition_def slots_64
        mark_used_def)
  from evaluation_only_marks_options [OF _ _ this, of "{0..<FIRST_FREE}"] show ?thesis
    using static_graph_ok by (simp add: sample_mgr_state_def foreign_ok_def)
qed

end
