(* ===== verification/Passphrase_Mount.thy ===== *)
theory Passphrase_Mount
  imports Mount_Run
begin

text \<open>
  A mount with the built-in passphrase module, from the command line to the keyring: the root
  of the decision graph without a signature, the selection of the key module, its subgraph,
  the check for another key, and the path of the remaining options.
\<close>

subsection \<open>Signatures are hexadecimal\<close>

lemma hex_digit_no_eq: "n < 16 \<Longrightarrow> hex_digit n \<noteq> 61"
  by (rule all_digits [of "\<lambda>n. hex_digit n \<noteq> 61" n]) (simp_all add: hex_digit_def)

lemma to_hex_no_eq: "61 \<notin> set (to_hex bs)"
proof (induction bs)
  case (Cons b bs)
  have "unat b < 256" by (rule order_less_le_trans [OF unsigned_less]) simp
  then have "unat b div 16 < 16" "unat b mod 16 < 16" by (simp_all add: div_less_iff_less_mult)
  then have "hex_digit (unat b div 16) \<noteq> 61" "hex_digit (unat b mod 16) \<noteq> 61" by (simp_all add: hex_digit_no_eq)
  then show ?case using Cons by (auto simp: to_hex_Cons)
qed (simp add: to_hex_def)

lemma generate_passphrase_sig_hex:
  assumes "generate_passphrase_sig hash salt p = Some (Inr (sig, key))"
  shows "\<exists>d. sig = to_hex d"
proof -
  obtain y where y: "rd_bytes salt 0 SALT_SIZE = Some y" "\<not> MAX_PASSPHRASE_BYTES < length p"
    using assms by (auto simp: generate_passphrase_sig_def bind_eq_Some_conv split: if_splits)
  obtain u where u: "do_hash hash (y @ p) = Inr u"
    using assms y by (cases "do_hash hash (y @ p)") (auto simp: generate_passphrase_sig_def)
  obtain v where v: "hash_loop hash (65536 - 1) u = Inr v"
    using assms y u by (cases "hash_loop hash (65536 - 1) u") (auto simp: generate_passphrase_sig_def)
  obtain w where "do_hash hash v = Inr w"
    using assms y u v by (cases "do_hash hash v") (auto simp: generate_passphrase_sig_def bind_eq_Some_conv)
  then show ?thesis using assms y u v by (auto simp: generate_passphrase_sig_def bind_eq_Some_conv)
qed

lemma add_passphrase_sig_hex:
  assumes "ecryptfs_add_passphrase_key_to_keyring hash kr k p salt mem = Some (rc, Some sig, k', mem')"
  shows "61 \<notin> set sig"
proof -
  obtain r mem1 where r: "ecryptfs_generate_passphrase_auth_tok hash salt p mem = Some (r, mem1)"
    using assms by (auto simp: ecryptfs_add_passphrase_key_to_keyring_def bind_eq_Some_conv)
  then obtain tok where "r = Inr (tok, sig)"
    using assms by (cases r) (auto simp: ecryptfs_add_passphrase_key_to_keyring_def split: prod.splits)
  with r have "ecryptfs_generate_passphrase_auth_tok hash salt p mem = Some (Inr (tok, sig), mem1)" by simp
  then obtain q where q: "generate_passphrase_sig hash salt p = Some q"
    by (auto simp: ecryptfs_generate_passphrase_auth_tok_def bind_eq_Some_conv)
  then obtain key where "q = Inr (sig, key)"
    using \<open>_ = Some (Inr (tok, sig), mem1)\<close>
    by (cases q) (auto simp: ecryptfs_generate_passphrase_auth_tok_def bind_eq_Some_conv split: prod.splits bool.splits)
  with q obtain d where "sig = to_hex d" using generate_passphrase_sig_hex by blast
  then show ?thesis using to_hex_no_eq by simp
qed

subsection \<open>Steps\<close>

lemma sig_missing:
  assumes node: "single_node (es_graph st) ROOT_PARAM ''sig'' (Some Sig_Param_Node) m"
    and "map_option pn_default_val (es_graph st ROOT_PARAM) = Some (Some (bytes_of_string ''NULL''))"
    and "es_verbosity st = 0" "plain_options (es_nvps st)" "es_mem st = []"
    and "opt_val (bytes_of_string ''sig'') (es_nvps st) = None"
  shows "\<exists>st'. eval_loop (mgr_call fo ju en) (Suc fuel) ROOT_PARAM st = eval_loop (mgr_call fo ju en) fuel KEY_MODULE_SELECT st'
     \<and> es_mnt_params st' = es_mnt_params st \<and> es_nvps st' = es_nvps st \<and> kept {ROOT_PARAM} {bytes_of_string ''sig''} st st'"
proof -
  let ?k = ROOT_PARAM
  obtain n tn where n: "es_graph st ?k = Some n" "quiet 0 n" "pn_tl n = [tn]" using node by (blast elim: single_nodeE)
  let ?st1 = "entered ?k (filled ?k ''sig'' st)"
  let ?st2 = "set_next ?k (Some KEY_MODULE_SELECT) ?st1"
  have r: "retrieved None n = n" using assms(2) n(1) by (simp add: retrieved_def)
  have g: "es_graph ?st1 ?k = Some n" using n(1) assms(6) r by (simp add: filled_def)
  have "mgr_call fo ju en Sig_Param_Node ?k ?st1 = Some (0, ?st2)"
    using g n(2) by (simp add: sig_param_node_callback_def unset_val_def quiet_def)
  then have "eval_loop (mgr_call fo ju en) (Suc fuel) ?k st = eval_loop (mgr_call fo ju en) fuel KEY_MODULE_SELECT ?st2"
    by (rule single_step [where n' = "n\<lparr>pn_tl := [tn\<lparr>tn_next_token := Some KEY_MODULE_SELECT\<rparr>]\<rparr>", OF node assms(3-5)])
      (use g n assms(6) in \<open>auto simp: set_next_def update_tn_def\<close>)
  moreover have "kept {?k} {bytes_of_string ''sig''} st ?st2"
    by (rule kept_marked [where a = "''sig''"]) (use g in \<open>auto simp: filled_def set_next_def update_tn_def split: option.splits\<close>)
  ultimately show ?thesis
    using mark_opt_none [OF assms(6)] by (intro exI [of _ ?st2]) (simp add: set_next_def)
qed

lemma select_given:
  assumes "es_graph st k = Some n" "pn_mnt_opt_names n = [bytes_of_string a]" "quiet 0 n"
    and "pn_tl n = [tn]" "tn_val tn = Some c" "tn_trans_func tn = None" "tn_next_token tn = Some m"
    and "es_verbosity st = 0" "plain_options (es_nvps st)" "es_mem st = []"
    and "opt_val (bytes_of_string a) (es_nvps st) = Some (Live c)" "c \<noteq> null_text"
  shows "eval_loop call (Suc fuel) k st = eval_loop call fuel m (entered k (filled k a st))"
proof -
  have a: "alloc_and_get_val k st = Some (0, filled k a st)"
    using alloc_quiet [OF assms(1,2)] assms(1,3,8-10) by (simp add: filled_def plain_options_def)
  let ?st1 = "entered k (filled k a st)"
  have g: "es_graph ?st1 k = Some (n\<lparr>pn_val := Some c\<rparr>)"
    using assms(1,11,12) by (simp add: filled_def retrieved_def)
  have "trans_first call k [0..<MAX_NUM_TRANSITIONS] ?st1 = Some (Some (0, Some m), ?st1)"
    unfolding slots_64 by (rule trans_first_match [OF g]) (use assms in simp_all)
  then have "do_transition call k (filled k a st) = Some ((0, Some m), ?st1)"
    unfolding do_transition_def Let_def entered_upd by simp
  with a show ?thesis by (rule eval_loop_step)
qed

lemma find_another_key_none:
  "names_live nvps \<Longrightarrow> opt_val (bytes_of_string ''key'') nvps = None \<Longrightarrow> find_another_key tns nvps = Some False"
  by (induction nvps) (auto simp: opt_val_def unused_def split: if_splits)

lemma no_other_key:
  assumes node: "single_node (es_graph st) ANOTHER_KEY ''another_key'' (Some Another_Key_Param_Node) m"
    and "es_graph st KEY_MODULE_SELECT = Some sel"
    and "es_verbosity st = 0" "plain_options (es_nvps st)" "es_mem st = []"
    and "opt_val (bytes_of_string ''another_key'') (es_nvps st) = None"
    and "opt_val (bytes_of_string ''key'') (es_nvps st) = None"
  shows "\<exists>st'. eval_loop (mgr_call fo ju en) (Suc fuel) ANOTHER_KEY st = eval_loop (mgr_call fo ju en) fuel CIPHER_PARAM st'
     \<and> es_mnt_params st' = es_mnt_params st \<and> es_nvps st' = es_nvps st
     \<and> kept {ANOTHER_KEY} {bytes_of_string ''another_key''} st st'"
proof -
  let ?k = ANOTHER_KEY
  obtain n tn where n: "es_graph st ?k = Some n" "quiet 0 n" "pn_tl n = [tn]" using node by (blast elim: single_nodeE)
  let ?st1 = "entered ?k (filled ?k ''another_key'' st)"
  let ?st2 = "set_next ?k (Some CIPHER_PARAM) ?st1"
  have nv: "es_nvps ?st1 = es_nvps st" using mark_opt_none [OF assms(6)] by simp
  have g: "\<exists>n'. es_graph ?st1 ?k = Some n' \<and> pn_tl n' = [tn]" "es_graph ?st1 KEY_MODULE_SELECT = Some sel"
    using n assms(2) by (simp_all add: filled_def)
  then obtain n' where n': "es_graph ?st1 ?k = Some n'" "pn_tl n' = [tn]" by blast
  have "find_another_key (pn_tl sel) (es_nvps st) = Some False"
    using find_another_key_none assms(4,7) by (auto simp: plain_options_def options_wf_def)
  then have "mgr_call fo ju en Another_Key_Param_Node ?k ?st1 = Some (0, ?st2)"
    using g(2) nv by (simp add: another_key_param_node_callback_def)
  then have "eval_loop (mgr_call fo ju en) (Suc fuel) ?k st = eval_loop (mgr_call fo ju en) fuel CIPHER_PARAM ?st2"
    by (rule single_step [where n' = "n'\<lparr>pn_tl := [tn\<lparr>tn_next_token := Some CIPHER_PARAM\<rparr>]\<rparr>", OF node assms(3-5)])
      (use n' assms(6) in \<open>auto simp: set_next_def update_tn_def\<close>)
  moreover have "kept {?k} {bytes_of_string ''another_key''} st ?st2"
    by (rule kept_marked [where a = "''another_key''"])
      (use n' in \<open>auto simp: filled_def set_next_def update_tn_def split: option.splits\<close>)
  ultimately show ?thesis
    using nv by (intro exI [of _ ?st2]) (simp add: set_next_def)
qed

lemma given_mark:
  assumes "names_live nvps" and "opt_val (bytes_of_string b) nvps = None"
    and "opt_val (bytes_of_string a) nvps = Some (Live v)" "v \<noteq> null_text"
  shows "given [a, b] nvps v (mark_opt (bytes_of_string a) nvps)"
  using assms by (simp add: given_def null_text_def consume_opt_val)

lemma not_given_opt:
  "names_live nvps \<Longrightarrow> \<forall>a \<in> set as. opt_val (bytes_of_string a) nvps = None \<Longrightarrow> not_given as nvps"
proof (induction as rule: rev_induct)
  case (snoc a as)
  then show ?case by (simp add: not_given_def consume_opt_val)
qed (simp add: not_given_def)

subsection \<open>The graph around the passphrase module\<close>

lemma point_to_other [simp]: "k \<noteq> i \<Longrightarrow> point_to i m g k = g k"
  by (simp add: point_to_def split: option.splits)

lemma suggest_n_ok: "\<exists>g'. suggest_n i g [] = (True, g', []) \<and> (\<forall>k. k \<noteq> i \<longrightarrow> g' k = g k)"
  by (auto simp: suggest_n_def split: option.splits)

lemma feature_chain_frame:
  assumes "feature_chain version g [] = (rc, g', mem)" and "k \<notin> {4, 5, 6, 7, 8, 9}"
  shows "g' k = g k"
proof -
  obtain g1 where g1: "suggest_n PASSTHROUGH (point_to VERSION_SUPPORT PASSTHROUGH g) [] = (True, g1, [])" "g1 k = g k"
    using suggest_n_ok [of PASSTHROUGH "point_to VERSION_SUPPORT PASSTHROUGH g"] assms(2) by fastforce
  have s: "suggest_n ENABLE_FILENAME_CRYPTO h [] = (True, h', m) \<Longrightarrow> h' k = h k" for h h' m
    using suggest_n_ok [of ENABLE_FILENAME_CRYPTO h] assms(2) by fastforce
  have t: "\<not> suggest_n ENABLE_FILENAME_CRYPTO h [] = (False, h', m)" for h h' m
    using suggest_n_ok [of ENABLE_FILENAME_CRYPTO h] by fastforce
  show ?thesis
    using assms g1 unfolding feature_chain_def Let_def
    by (auto split: if_splits prod.splits bool.splits dest!: s simp: t)
qed

definition pass_mount_nodes :: "'x graph_fn graph \<Rightarrow> bool" where
  "pass_mount_nodes g \<longleftrightarrow>
     map_option pn_default_val (g ROOT_PARAM) = Some (Some (bytes_of_string ''NULL''))
     \<and> g KEY_MODULE_SELECT = Some (key_module_select_node\<lparr>pn_tl := [passphrase_transition PASS_NODES]\<rparr>)
     \<and> pass_nodes_at Passphrase PASS_NODES ANOTHER_KEY g
     \<and> single_node g ANOTHER_KEY ''another_key'' (Some Another_Key_Param_Node) CIPHER_PARAM"

lemma cipher_graph_pass_nodes: "pass_mount_nodes cipher_graph"
  by (simp add: pass_mount_nodes_def cipher_graph_def select_graph_at static_graph_at static_node_defs
      another_key_param_node_def pass_nodes_at_def single_node_def quiet_def has_flag_def)

lemma frame_pass_nodes:
  assumes "\<And>k. k \<notin> {4, 5, 6, 7, 8, 9} \<Longrightarrow> g' k = g k"
  shows "pass_mount_nodes g' = pass_mount_nodes g"
  using assms by (simp add: pass_mount_nodes_def pass_nodes_at_def single_node_def)

lemma flag_chain_cong:
  "\<forall>k \<in> fst ` set fs. g' k = g k \<Longrightarrow> flag_chain g' k fs e = flag_chain g k fs e"
proof (induction fs arbitrary: k)
  case (Cons f fs)
  obtain j a c s where f: "f = (j, a, c, s)" by (cases f)
  have "g' j = g j" using Cons.prems f by simp
  then have s: "single_node g' j a (Some c) m = single_node g j a (Some c) m" "unflagged g' j = unflagged g j" for m
    by (simp_all only: single_node_def unflagged_def)
  have i: "flag_chain g' m fs e = flag_chain g m fs e" for m using Cons.IH Cons.prems by simp
  show ?case unfolding f flag_chain.simps i by (cases "k = j") (simp_all only: s refl simp_thms)
qed simp

lemma feature_nodes_cong:
  assumes "\<forall>k \<in> {2, 3, 4, 5, 6, 7, 8, 9}. g' k = g k" and "set fs \<subseteq> set feature_flags"
  shows "feature_nodes g' m fs fnek = feature_nodes g m fs fnek"
proof -
  have "fst ` set fs \<subseteq> {6, 7, 8, 9}"
    by (rule subset_trans [OF image_mono [OF assms(2)] feature_flags_facts(1)])
  then have "\<forall>k \<in> fst ` set fs. g' k = g k" using assms(1) by auto
  note c = flag_chain_cong [OF this]
  have e: "g' 2 = g 2" "g' 3 = g 3" "g' 4 = g 4" using assms(1) by simp_all
  have "fnek_nodes g' e e' = fnek_nodes g e e'" for e e'
    by (simp only: fnek_nodes_def single_node_def e)
  then have "fnek_nodes g' = fnek_nodes g" by (intro ext)
  then show ?thesis unfolding feature_nodes_def c end_node_def unflagged_def e by simp
qed

subsection \<open>From the root to the cipher\<close>

text \<open>The options of a mount with one passphrase and no salt, or a salt in hexadecimal.\<close>

definition pass_options :: "nv_list \<Rightarrow> byte list \<Rightarrow> byte list \<Rightarrow> bool" where
  "pass_options nvps p h \<longleftrightarrow>
     opt_val (bytes_of_string ''sig'') nvps = None
     \<and> opt_val (bytes_of_string ''key'') nvps = Some (Live (bytes_of_string ''passphrase''))
     \<and> once (bytes_of_string ''key'') nvps
     \<and> opt_val (bytes_of_string ''another_key'') nvps = None
     \<and> opt_val (bytes_of_string ''passphrase_type'') nvps = None
     \<and> opt_val (bytes_of_string ''passwd'') nvps = None
     \<and> opt_val (bytes_of_string ''passphrase_passwd'') nvps = Some (Live p)
     \<and> opt_val (bytes_of_string ''salt'') nvps = None
     \<and> (opt_val (bytes_of_string ''passphrase_salt'') nvps = Some (Live h)
        \<or> opt_val (bytes_of_string ''passphrase_salt'') nvps = None \<and> h = bytes_of_string ''0011223344556677'')
     \<and> p \<noteq> null_text \<and> p \<noteq> bytes_of_string ''passphrase_salt'' \<and> p \<noteq> bytes_of_string ''default''
     \<and> h \<noteq> null_text \<and> h \<noteq> bytes_of_string ''default''"

lemma plain_live: "plain_options nvps \<Longrightarrow> names_live nvps \<and> no_default nvps"
  by (simp add: plain_options_def options_wf_def)

text \<open>Nodes that the path through the passphrase module leaves alone.\<close>

definition outside :: "nat \<Rightarrow> bool" where
  "outside k \<longleftrightarrow> k \<notin> {ROOT_PARAM, KEY_MODULE_SELECT, ANOTHER_KEY, 14, 15, 18}"

lemma to_cipher:
  assumes root: "single_node (es_graph st) ROOT_PARAM ''sig'' (Some Sig_Param_Node) m" and nodes: "pass_mount_nodes (es_graph st)"
    and "es_verbosity st = 0" "plain_options (es_nvps st)" "es_mem st = []"
    and opts: "pass_options (es_nvps st) p h" and "from_hex (h @ [0]) SIG_SIZE = Some salt"
    and "ecryptfs_add_passphrase_key_to_keyring (pe_hash en) (pe_keyring en) (lc_keys (es_ctx st)) p salt []
           = Some (rc, Some sig, keys, [])" and "0 \<le> rc"
    and fs: "set (fs :: 'x flag list) \<subseteq> set feature_flags"
  shows "\<exists>st'. eval_loop (mgr_call fo ju en) (Suc (Suc (Suc (Suc (Suc (Suc fuel)))))) ROOT_PARAM st
       = eval_loop (mgr_call fo ju en) fuel CIPHER_PARAM st'
     \<and> es_mnt_params st' = Some (bytes_of_string ''ecryptfs_sig='' @ sig) # es_mnt_params st
     \<and> lc_keys (es_ctx st') = keys \<and> same_opts fs (es_nvps st) (es_nvps st')
     \<and> es_verbosity st' = 0 \<and> es_mem st' = [] \<and> (\<forall>k. outside k \<longrightarrow> es_graph st' k = es_graph st k)"
proof -
  let ?call = "mgr_call fo ju en" and ?key = "bytes_of_string ''key''" and ?pass = "bytes_of_string ''passphrase_passwd''"
  note n = nodes [unfolded pass_mount_nodes_def] and o = opts [unfolded pass_options_def]
  have d: "map_option pn_default_val (es_graph st ROOT_PARAM) = Some (Some (bytes_of_string ''NULL''))"
    and sg: "opt_val (bytes_of_string ''sig'') (es_nvps st) = None" using n o by simp_all
  obtain st1 where 1: "eval_loop ?call (Suc (Suc (Suc (Suc (Suc (Suc fuel)))))) ROOT_PARAM st
      = eval_loop ?call (Suc (Suc (Suc (Suc (Suc fuel))))) KEY_MODULE_SELECT st1"
    "es_mnt_params st1 = es_mnt_params st" "es_nvps st1 = es_nvps st" "kept {ROOT_PARAM} {bytes_of_string ''sig''} st st1"
    using sig_missing [OF root d assms(3-5) sg, of fo ju en "Suc (Suc (Suc (Suc (Suc fuel))))"] by blast
  note k1 = kept_state [OF 1(4)]
  define st2 where "st2 = entered KEY_MODULE_SELECT (filled KEY_MODULE_SELECT ''key'' st1)"
  let ?sel = "key_module_select_node\<lparr>pn_tl := [passphrase_transition PASS_NODES]\<rparr>"
  have sel: "es_graph st1 KEY_MODULE_SELECT = Some ?sel" using n k1(5) by simp
  have 2: "eval_loop ?call (Suc (Suc (Suc (Suc (Suc fuel))))) KEY_MODULE_SELECT st1
      = eval_loop ?call (Suc (Suc (Suc (Suc fuel)))) PASS_NODES st2"
    unfolding st2_def
    by (rule select_given [OF sel, where tn = "passphrase_transition PASS_NODES" and c = "bytes_of_string ''passphrase''"])
      (use k1 assms(3-5) o 1(3) in \<open>simp_all add: key_module_select_node_def mk_node_def passphrase_transition_def
        mk_tn_def quiet_def has_flag_def null_text_def\<close>)
  have st2: "es_mnt_params st2 = es_mnt_params st" "es_nvps st2 = mark_opt ?key (es_nvps st)" "es_verbosity st2 = 0"
    "es_mem st2 = []" "es_ctx st2 = es_ctx st" "plain_options (es_nvps st2)"
    using 1(2,3) k1 assms(3-5) by (simp_all add: st2_def)
  have g2: "es_graph st2 k = es_graph st k" if "k \<notin> {ROOT_PARAM, KEY_MODULE_SELECT}" for k
    using that k1(5) [of k] by (simp add: st2_def filled_def)
  define nv2 where "nv2 = mark_opt ?key (es_nvps st)"
  have ov: "opt_val (bytes_of_string a) nv2 = opt_val (bytes_of_string a) (es_nvps st)" if "a \<noteq> ''key''" for a
    using that by (simp add: nv2_def)
  define nv3 where "nv3 = mark_opt ?pass nv2"
  define nv4 where "nv4 = (if opt_val (bytes_of_string ''passphrase_salt'') (es_nvps st) = None then nv3
     else mark_opt (bytes_of_string ''passphrase_salt'') nv3)"
  have live: "names_live nv2" "no_default nv2" "names_live nv3"
    using plain_live [OF st2(6)] plain_live [of nv3] plain_options_mark [of ?pass nv2] st2(2,6) by (simp_all add: nv2_def nv3_def)
  have g: "given [''passphrase_passwd'', ''passwd''] nv2 p nv3"
    unfolding nv3_def by (rule given_mark [OF live(1)]) (use o ov in simp_all)
  have ng: "not_given [''passphrase_type''] nv2" by (rule not_given_opt [OF live(1)]) (use o ov in simp)
  have sl: "given [''passphrase_salt'', ''salt''] nv3 h nv4
     \<or> not_given [''passphrase_salt'', ''salt''] nv3 \<and> h = bytes_of_string ''0011223344556677'' \<and> nv4 = nv3"
    using o ov given_mark [OF live(3), of "''salt''" "''passphrase_salt''" h] not_given_opt [OF live(3), of "[''passphrase_salt'', ''salt'']"]
    by (auto simp: nv4_def nv3_def)
  have pn: "pass_nodes_at Passphrase PASS_NODES ANOTHER_KEY (es_graph st2)"
    using n g2 by (simp add: pass_nodes_at_def)
  have e2: "es_nvps st2 = nv2" using st2(2) by (simp add: nv2_def)
  have pv: "p \<noteq> bytes_of_string ''passphrase_salt''" "p \<noteq> bytes_of_string ''default''" "h \<noteq> bytes_of_string ''default''"
    and key: "ecryptfs_add_passphrase_key_to_keyring (pe_hash en) (pe_keyring en) (lc_keys (es_ctx st2)) p salt []
           = Some (rc, Some sig, keys, [])" using o assms(8) st2(5) by simp_all
  obtain st3 where 3: "eval_loop ?call (Suc (Suc (Suc (Suc fuel)))) PASS_NODES st2 = eval_loop ?call (Suc fuel) ANOTHER_KEY st3"
    "es_mnt_params st3 = Some (bytes_of_string ''ecryptfs_sig='' @ sig) # es_mnt_params st2"
    "lc_keys (es_ctx st3) = keys" "es_nvps st3 = nv4" "es_verbosity st3 = es_verbosity st2" "es_mem st3 = []"
    "\<forall>k. k \<noteq> PASS_NODES \<and> k \<noteq> PASS_NODES + 1 \<and> k \<noteq> PASS_NODES + 4 \<longrightarrow> es_graph st3 k = es_graph st2 k"
    using mgr_passphrase.pass_subgraph_runs [OF pn st2(4) live(1,2) [folded e2] ng [folded e2] g [folded e2] pv(1,2) sl pv(3)
        assms(7) key assms(9), of fo ju] by blast
  note st3 = 3(2-6) [unfolded st2]
  have g3: "es_graph st3 k = es_graph st k" if "k \<notin> {0, 1, 14, 15, 18}" for k using that 3(7) g2 [of k] by simp
  have sel3: "\<exists>q. es_graph st3 KEY_MODULE_SELECT = Some q" using 3(7) by (simp add: st2_def filled_def)
  have so: "same_opts fs (es_nvps st) nv4"
  proof -
    note other = spec_names_other [OF fs]
    have "same_opts fs (es_nvps st) nv2" unfolding nv2_def by (rule same_opts_mark) (use other in simp)
    also have "same_opts fs nv2 nv3" unfolding nv3_def by (rule same_opts_mark) (use other in simp)
    also have "same_opts fs nv3 nv4" unfolding nv4_def using same_opts_mark [of "bytes_of_string ''passphrase_salt''" fs nv3] other by simp
    finally show ?thesis .
  qed
  have no: "opt_val (bytes_of_string ''another_key'') nv4 = None" "opt_val ?key nv4 = None" "plain_options nv4"
    using o ov st2(2,6) by (auto simp: nv4_def nv3_def nv2_def)
  have an: "single_node (es_graph st3) ANOTHER_KEY ''another_key'' (Some Another_Key_Param_Node) CIPHER_PARAM"
    using n g3 [of ANOTHER_KEY] by (simp add: single_node_def)
  obtain st4 where 4: "eval_loop ?call (Suc fuel) ANOTHER_KEY st3 = eval_loop ?call fuel CIPHER_PARAM st4"
    "es_mnt_params st4 = es_mnt_params st3" "es_nvps st4 = es_nvps st3" "kept {ANOTHER_KEY} {bytes_of_string ''another_key''} st3 st4"
    using sel3 no_other_key [OF an, of _ fo ju en fuel] no st3 by auto
  show ?thesis
    using 1(1) 2 3(1) 4 st3 so kept_state [OF 4(4)] g3
    by (intro exI [of _ st4]) (auto simp: outside_def)
qed

subsection \<open>The whole mount\<close>

lemma process_passphrase:
  fixes env :: "('x, 'k) mgr_env"
  assumes "start_state st" and "me_entries env = Some []" and "version AND 1 \<noteq> 0"
    and "version_flags version \<noteq> ([] :: 'x flag list) \<or> fnek_version version"
    and "merged_options env opts nvps" and "get_verbosity nvps = Some 0"
    and "spec_plain (version_flags version :: 'x flag list) (fnek_version version) nvps" and "pass_options nvps p h"
    and "from_hex (h @ [0]) SIG_SIZE = Some salt"
    and key: "ecryptfs_add_passphrase_key_to_keyring (pe_hash (me_pass env)) (pe_keyring (me_pass env)) (lc_keys (es_ctx st)) p salt []
           = Some (rc0, Some sig, keys, [])" "0 \<le> rc0"
    and "6 \<le> depth" "18 \<le> fuel"
    and spec: "mount_spec (version_flags version :: 'x flag list) (fnek_version version) sig nvps = (rc, ps)"
  shows "\<exists>st'. ecryptfs_process_decision_graph env depth fuel version opts False st = Some (Some (mount_status rc, st'))
    \<and> es_mnt_params st' = ps \<and> lc_keys (es_ctx st') = keys \<and> es_mem st' = []"
proof -
  let ?fs = "version_flags version :: 'x flag list" and ?call = "mgr_call (me_foreign env) (me_junk env) (me_pass env)"
  note fs = version_flags_facts [of version, where ?'x = 'x]
  obtain g m where g: "feature_chain version cipher_graph [] = (0, g, [])" "path_nodes g m"
    "feature_nodes g m ?fs (fnek_version version)" using feature_chain_graph [OF assms(4)] by blast
  have pn: "pass_mount_nodes g"
    using frame_pass_nodes [of g cipher_graph] feature_chain_frame [OF g(1)] cipher_graph_pass_nodes by simp
  have "depth = Suc (Suc (Suc (Suc (Suc (Suc (depth - 6))))))" using assms(12) by linarith
  then obtain d where d: "depth = Suc (Suc (Suc (Suc (Suc (Suc d)))))" by blast
  have "fuel = Suc (Suc (Suc (Suc (Suc (Suc (Suc (Suc (Suc (length ?fs + Suc (Suc (Suc (Suc (Suc (fuel - 14 - length ?fs))))))))))))))"
    using assms(13) fs(4) by linarith
  then obtain f where f: "fuel = Suc (Suc (Suc (Suc (Suc (Suc (Suc (Suc (Suc (length ?fs + Suc (Suc (Suc (Suc (Suc f)))))))))))))" by blast
  let ?st = "st\<lparr>es_ctx := (es_ctx st)\<lparr>lc_key_mods := [passphrase_mod]\<rparr>, es_graph := g\<rparr>"
  let ?run = "?st\<lparr>es_nvps := nvps, es_mnt_params := [None], es_foo := None, es_verbosity := 0\<rparr>"
  have st: "es_mem ?st = []" "es_mnt_params ?st \<noteq> []" using assms(1) by (simp_all add: start_state_def)
  have run: "single_node (es_graph ?run) ROOT_PARAM ''sig'' (Some Sig_Param_Node) CIPHER_PARAM"
    "pass_mount_nodes (es_graph ?run)" "es_verbosity ?run = 0" "plain_options (es_nvps ?run)" "es_mem ?run = []"
    "pass_options (es_nvps ?run) p h"
    and key': "ecryptfs_add_passphrase_key_to_keyring (pe_hash (me_pass env)) (pe_keyring (me_pass env)) (lc_keys (es_ctx ?run)) p salt []
           = Some (rc0, Some sig, keys, [])"
    using g(2) pn assms(7,8) st(1) key(1) by (simp_all add: path_nodes_def spec_plain_def)
  obtain st1 where 1: "eval_loop ?call fuel ROOT_PARAM ?run
      = eval_loop ?call (Suc (Suc (Suc (length ?fs + Suc (Suc (Suc (Suc (Suc f)))))))) CIPHER_PARAM st1"
    "es_mnt_params st1 = [Some (bytes_of_string ''ecryptfs_sig='' @ sig), None]" "lc_keys (es_ctx st1) = keys"
    "same_opts ?fs nvps (es_nvps st1)" "es_verbosity st1 = 0" "es_mem st1 = []"
    "\<forall>k. outside k \<longrightarrow> es_graph st1 k = g k"
    using to_cipher [OF run assms(9) key' key(2) fs(1), of "me_foreign env" "me_junk env"] unfolding f by fastforce
  have gk: "es_graph st1 k = g k" if "k \<in> {2, 3, 4, 5, 6, 7, 8, 9, 10, 11}" for k
    using 1(7) that by (auto simp: outside_def)
  have cn: "cipher_nodes (es_graph st1)" "single_node (es_graph st1) VERSION_SUPPORT ''end'' None m"
    using g(2) gk by (simp_all add: path_nodes_def cipher_nodes_def single_node_def)
  have fn: "feature_nodes (es_graph st1) m ?fs (fnek_version version)"
    using feature_nodes_cong [of "es_graph st1" g ?fs m "fnek_version version"] gk fs(1) g(3) by simp
  obtain st' where 2: "eval_loop ?call fuel ROOT_PARAM ?run = Some (Some (rc, st'))" "es_mnt_params st' = ps" "es_ctx st' = es_ctx st1" "es_mem st' = []"
    using cipher_evaluates [OF cn fn fs(1-3) 1(5) _ 1(6) add_passphrase_sig_hex [OF key(1)] 1(2), of "me_foreign env" "me_junk env" "me_pass env" f]
      1(1,6) same_opts_spec [OF 1(4)] assms(7) spec by auto
  show ?thesis
    unfolding d process_reduces [OF assms(1-3) g(1)] eval_options_merged [OF assms(5) st assms(6) 2(1)]
    using 1(3) 2(2-4) by simp
qed

text \<open>
  C3. A mount with a passphrase, verbosity 0 and only the built-in key module, for a kernel module
  that supports passphrases and at least one further feature: the key of passphrase and salt
  goes into the keyring, and the mount options are those of the specification for its signature,
  which is the first one that is pushed and so the last of the stack. The errors are those of
  the specification, among them a key size that is not given, also for a cipher that has one key
  size only, where the manual page \<open>ecryptfs.7\<close> says that it need not be given. Eighteen rounds
  of the evaluation are enough.
\<close>

theorem mount_with_passphrase:
  fixes env :: "('x, 'k) mgr_env"
  assumes "start_state st" and "me_entries env = Some []" and "version AND 1 \<noteq> 0"
    and "version_flags version \<noteq> ([] :: 'x flag list) \<or> fnek_version version"
    and "merged_options env opts nvps" and "get_verbosity nvps = Some 0"
    and "spec_plain (version_flags version :: 'x flag list) (fnek_version version) nvps" and "pass_options nvps p h"
    and "from_hex (h @ [0]) SIG_SIZE = Some salt"
    and "ecryptfs_add_passphrase_key_to_keyring (pe_hash (me_pass env)) (pe_keyring (me_pass env)) (lc_keys (es_ctx st)) p salt []
           = Some (rc0, Some sig, keys, [])" "0 \<le> rc0"
    and "6 \<le> depth" "18 \<le> fuel"
    and "mount_spec (version_flags version :: 'x flag list) (fnek_version version) sig nvps = (rc, ps)"
  shows "\<exists>st'. ecryptfs_process_decision_graph env depth fuel version opts False st = Some (Some (mount_status rc, st'))
    \<and> es_mnt_params st' = ps \<and> lc_keys (es_ctx st') = keys"
  using process_passphrase [OF assms] by blast

definition pass_sample_opts :: "(byte list \<times> byte list option) list" where
  "pass_sample_opts = map (\<lambda>(n, v). (bytes_of_string n, Some (bytes_of_string v)))
     [(''verbosity'', ''0''), (''key'', ''passphrase''), (''passphrase_passwd'', ''abc''), (''ecryptfs_cipher'', ''aes''),
      (''ecryptfs_key_bytes'', ''16'')]"

abbreviation pass_sample_nvps :: nv_list where
  "pass_sample_nvps \<equiv> map (copy_of \<circ> (\<lambda>o'. nv_node (fst o') (snd o'))) pass_sample_opts"

abbreviation pass_sample_text :: string where
  "pass_sample_text \<equiv> ''verbosity=0,key=passphrase,passphrase_passwd=abc,ecryptfs_cipher=aes,ecryptfs_key_bytes=16''"

lemma pass_sample_nvps_eq:
  "pass_sample_nvps = [sample_pair ''verbosity'' ''0'', sample_pair ''key'' ''passphrase'',
     sample_pair ''passphrase_passwd'' ''abc'', sample_pair ''ecryptfs_cipher'' ''aes'', sample_pair ''ecryptfs_key_bytes'' ''16'']"
  by (simp add: pass_sample_opts_def copy_of_def nv_node_def sample_pair_def zero_nv_def text_of_def)

lemma pass_sample:
  "merged_options sample_mgr_env (Some (bytes_of_string pass_sample_text)) pass_sample_nvps"
  "get_verbosity pass_sample_nvps = Some 0"
  "pass_options pass_sample_nvps (bytes_of_string ''abc'') (bytes_of_string ''0011223344556677'')"
  "spec_plain (version_flags 0x115 :: unit flag list) True pass_sample_nvps"
proof -
  have ok: "list_all opt_ok pass_sample_opts"
    by (simp add: pass_sample_opts_def opt_ok_def nv_plain_def nv_text_def bytes_of_string_def is_colon_list_def)
  have t: "bytes_of_string pass_sample_text = join_with 44 (map nv_text pass_sample_opts)"
    by (simp add: pass_sample_opts_def nv_text_def bytes_of_string_def)
  have d: "pass_sample_opts \<noteq> []" "distinct (map fst pass_sample_opts)" by (simp_all add: pass_sample_opts_def)
  show "merged_options sample_mgr_env (Some (bytes_of_string pass_sample_text)) pass_sample_nvps"
    unfolding t by (rule merged_plain [OF _ ok d]) (simp add: sample_mgr_env_def)
  show "get_verbosity pass_sample_nvps = Some 0" by code_simp
  show "pass_options pass_sample_nvps (bytes_of_string ''abc'') (bytes_of_string ''0011223344556677'')"
    unfolding pass_sample_nvps_eq by (simp add: pass_options_def once_def null_text_def)
  have n: "nv_name (sample_pair n v) = Live (bytes_of_string n)" "nv_value (sample_pair n v) = Live (bytes_of_string v)"
    for n v by (simp_all add: sample_pair_def)
  have c: "choice_free pass_sample_nvps"
    unfolding choice_free_def pass_sample_nvps_eq
    by (simp add: n cipher_descriptors_def supported_key_bytes_def decimal_sizes)
  show "spec_plain (version_flags 0x115 :: unit flag list) True pass_sample_nvps"
    unfolding spec_plain_def using c unfolding pass_sample_nvps_eq sample_flags
    by (simp add: plain_options_def n flags_plain_def fnek_plain_def FS_def EN_def valueless_def once_def
      unset_text_def null_text_def)
qed

abbreviation pass_sample_salt :: "byte list" where
  "pass_sample_salt \<equiv> [0, 0x11, 0x22, 0x33, 0x44, 0x55, 0x66, 0x77]"

lemma pass_sample_hex: "from_hex (bytes_of_string ''0011223344556677'' @ [0]) SIG_SIZE = Some pass_sample_salt"
  by code_simp

lemma pass_sample_key:
  "\<exists>rc sig keys. ecryptfs_add_passphrase_key_to_keyring (pe_hash (me_pass sample_mgr_env))
      (pe_keyring (me_pass sample_mgr_env)) [] (bytes_of_string ''abc'') pass_sample_salt [] = Some (rc, Some sig, keys, []) \<and> 0 \<le> rc"
  using list_keyring_add [OF toy_hash_total, of pass_sample_salt "bytes_of_string ''abc''" "[]"]
  by (auto simp: sample_env_def sample_mgr_env_def)

lemma pass_sample_spec:
  "mount_spec (version_flags 0x115 :: unit flag list) (fnek_version 0x115) sig pass_sample_nvps
     = (NULL_TOK, [Some (bytes_of_string ''ecryptfs_key_bytes=16''), Some (bytes_of_string ''ecryptfs_cipher=aes''),
         Some (bytes_of_string ''ecryptfs_sig='' @ sig), None])"
proof -
  have sz: "bytes_of_string ''16'' \<in> set (map (bytes_of_string \<circ> decimal) (sizes_of (bytes_of_string ''aes'')))"
    by code_simp
  have c: "bytes_of_string ''aes'' \<in> set (map (bytes_of_string \<circ> fst) cipher_descriptors)"
    by (simp add: cipher_descriptors_def)
  show ?thesis
    using sz c sample_flags(2) unfolding pass_sample_nvps_eq sample_flags
    by (simp add: mount_spec_def size_spec_def features_spec_def fnek_spec_def CN_def KN_def FS_def EN_def flag_on_def)
      (simp add: bytes_of_string_def)
qed

theorem mount_with_passphrase_witness:
  "\<exists>st' sig keys. ecryptfs_process_decision_graph sample_mgr_env 6 18 0x115 (Some (bytes_of_string pass_sample_text)) False
      sample_mgr_state = Some (Some (0, st'))
    \<and> es_mnt_params st' = [Some (bytes_of_string ''ecryptfs_key_bytes=16''), Some (bytes_of_string ''ecryptfs_cipher=aes''),
         Some (bytes_of_string ''ecryptfs_sig='' @ sig), None]
    \<and> lc_keys (es_ctx st') = keys"
proof -
  have "lc_keys (es_ctx sample_mgr_state) = []" by (simp add: sample_mgr_state_def)
  then obtain rc sig keys where k: "ecryptfs_add_passphrase_key_to_keyring (pe_hash (me_pass sample_mgr_env))
      (pe_keyring (me_pass sample_mgr_env)) (lc_keys (es_ctx sample_mgr_state)) (bytes_of_string ''abc'') pass_sample_salt []
      = Some (rc, Some sig, keys, [])" "0 \<le> rc"
    using pass_sample_key by auto
  from mount_with_passphrase [OF sample_mgr(1,2) _ _ pass_sample(1,2) _ pass_sample(3) pass_sample_hex k _ _ pass_sample_spec, of 6 18]
  show ?thesis using pass_sample(4) sample_flags by (auto simp: mount_status_def)
qed

subsection \<open>More than one key\<close>

lemma find_another_key_some:
  assumes "options_wf nvps" "opt_val (bytes_of_string ''key'') nvps = Some (Live v)" "tn_val tn = Some v"
  shows "find_another_key [tn] nvps = Some True"
  using assms(1,2) by (induction nvps) (auto simp: opt_val_def unused_def assms(3) split: if_splits)

text \<open>
  The value of the selection node is kept from the first key on, so a second \<open>key=\<close> option is
  never taken: every time the check for another key finds it, two rounds lead back to the first
  key module with the option list as it was.
\<close>

theorem second_key_option_never_taken:
  assumes "single_node (es_graph st) ANOTHER_KEY ''another_key'' (Some Another_Key_Param_Node) m"
    and "es_graph st KEY_MODULE_SELECT = Some sel" and "pn_val sel = Some (bytes_of_string ''passphrase'')"
    and "pn_tl sel = [passphrase_transition PASS_NODES]"
    and "es_verbosity st = 0" "plain_options (es_nvps st)" "es_mem st = []"
    and "opt_val (bytes_of_string ''another_key'') (es_nvps st) = None"
    and "opt_val (bytes_of_string ''key'') (es_nvps st) = Some (Live (bytes_of_string ''passphrase''))"
  shows "\<exists>st'. eval_loop (mgr_call foreign junk env) (Suc (Suc fuel)) ANOTHER_KEY st
      = eval_loop (mgr_call foreign junk env) fuel PASS_NODES st'
    \<and> es_nvps st' = es_nvps st \<and> es_graph st' KEY_MODULE_SELECT = Some sel
    \<and> es_mnt_params st' = es_mnt_params st"
proof -
  let ?k = ANOTHER_KEY and ?call = "mgr_call foreign junk env"
  obtain n tn where n: "es_graph st ?k = Some n" "quiet 0 n" "pn_tl n = [tn]" using assms(1) by (blast elim: single_nodeE)
  let ?st1 = "entered ?k (filled ?k ''another_key'' st)"
  let ?st2 = "set_next ?k (Some KEY_MODULE_SELECT) ?st1"
  have nv: "es_nvps ?st1 = es_nvps st" using mark_opt_none [OF assms(8)] by simp
  obtain n' where n': "es_graph ?st1 ?k = Some n'" "pn_tl n' = [tn]" using n by (simp add: filled_def)
  have g: "es_graph ?st1 KEY_MODULE_SELECT = Some sel" using assms(2) by (simp add: filled_def)
  have "find_another_key (pn_tl sel) (es_nvps st) = Some True"
    unfolding assms(4) by (rule find_another_key_some [OF _ assms(9)])
      (use assms(6) in \<open>simp_all add: plain_options_def passphrase_transition_def mk_tn_def\<close>)
  then have "?call Another_Key_Param_Node ?k ?st1 = Some (0, ?st2)"
    using g nv by (simp add: another_key_param_node_callback_def)
  then have 1: "eval_loop ?call (Suc (Suc fuel)) ?k st = eval_loop ?call (Suc fuel) KEY_MODULE_SELECT ?st2"
    by (rule single_step [where n' = "n'\<lparr>pn_tl := [tn\<lparr>tn_next_token := Some KEY_MODULE_SELECT\<rparr>]\<rparr>", OF assms(1,5-7)])
      (use n' assms(8) in \<open>auto simp: set_next_def update_tn_def\<close>)
  have g2: "es_graph ?st2 KEY_MODULE_SELECT = Some sel" using g by (auto simp: set_next_def update_tn_def split: option.splits)
  let ?st3 = "entered KEY_MODULE_SELECT ?st2"
  have a: "alloc_and_get_val KEY_MODULE_SELECT ?st2 = Some (0, ?st2)" using g2 assms(3) by (simp add: alloc_and_get_val_def)
  have "trans_first ?call KEY_MODULE_SELECT [0..<MAX_NUM_TRANSITIONS] ?st3 = Some (Some (0, Some PASS_NODES), ?st3)"
    unfolding slots_64 by (rule trans_first_match [where n = sel and tn = "passphrase_transition PASS_NODES"
          and v = "bytes_of_string ''passphrase''"])
      (use g2 assms(3,4) in \<open>simp_all add: passphrase_transition_def mk_tn_def\<close>)
  then have "do_transition ?call KEY_MODULE_SELECT ?st2 = Some ((0, Some PASS_NODES), ?st3)"
    unfolding do_transition_def Let_def entered_upd by simp
  from eval_loop_step [OF a this] 1 show ?thesis
    using g2 nv by (intro exI [of _ ?st3]) (simp add: set_next_def)
qed

theorem second_key_option_never_taken_witness:
  "\<exists>st'. eval_loop (mgr_call (\<lambda>_ _ _. None) (\<lambda>_. 0) sample_env) 2 ANOTHER_KEY
      (sample_mgr_state\<lparr>es_verbosity := 0, es_nvps := [sample_pair ''key'' ''passphrase''], es_graph := cipher_graph
        (KEY_MODULE_SELECT \<mapsto> key_module_select_node\<lparr>pn_val := Some (bytes_of_string ''passphrase''),
           pn_tl := [passphrase_transition PASS_NODES]\<rparr>)\<rparr>)
    = eval_loop (mgr_call (\<lambda>_ _ _. None) (\<lambda>_. 0) sample_env) 0 PASS_NODES st'
    \<and> es_nvps st' = [sample_pair ''key'' ''passphrase'']"
proof -
  let ?sel = "key_module_select_node\<lparr>pn_val := Some (bytes_of_string ''passphrase''),
     pn_tl := [passphrase_transition PASS_NODES]\<rparr> :: unit graph_fn param_node"
  let ?st = "sample_mgr_state\<lparr>es_verbosity := 0, es_nvps := [sample_pair ''key'' ''passphrase''],
     es_graph := cipher_graph(KEY_MODULE_SELECT \<mapsto> ?sel)\<rparr>"
  have "single_node (es_graph ?st) ANOTHER_KEY ''another_key'' (Some Another_Key_Param_Node) CIPHER_PARAM"
    using cipher_graph_pass_nodes [where ?'a = unit] by (simp add: pass_mount_nodes_def single_node_def)
  moreover have "plain_options (es_nvps ?st)" by (simp add: plain_options_def sample_pair_def)
  ultimately show ?thesis
    using second_key_option_never_taken [of ?st CIPHER_PARAM ?sel "\<lambda>_ _ _. None" "\<lambda>_. 0" sample_env 0]
    by (auto simp: sample_mgr_state_def numeral_2_eq_2)
qed

subsection \<open>Key generation\<close>

text \<open>
  Key generation with the built-in passphrase module calls a null pointer: the table of the
  built-in module is not completed, and it has no operation for key generation.
\<close>

theorem key_generation_crashes_on_builtin:
  assumes "me_entries env = Some []" and "es_mem st = []" and "lc_key_mods (es_ctx st) = []"
    and "es_graph st KEY_MODULE_SELECT = Some sel"
  shows "ecryptfs_process_key_gen_decision_graph env depth fuel version st = None"
  using assms register_builtin [OF assms(1-3)]
  by (simp add: ecryptfs_process_key_gen_decision_graph_def passphrase_mod_def new_key_mod_def ecryptfs_passphrase_ops_def)

theorem key_generation_crashes_on_builtin_witness:
  "ecryptfs_process_key_gen_decision_graph sample_mgr_env 6 17 0x115 sample_mgr_state = None"
  by (rule key_generation_crashes_on_builtin [where sel = key_module_select_node])
    (simp_all add: sample_mgr_env_def sample_mgr_state_def static_graph_at)

end
