(* ===== verification/Terminal.thy ===== *)
theory Terminal
  imports Mounts Key_Mod
begin

text \<open>
  Reading from the terminal, from \<open>src/utils/io.c\<close>, and \<open>ecryptfs_get_passphrase\<close> with its echo
  switches from \<open>src/libecryptfs/key_management.c\<close>.

  A terminal is what is left of the standard input, the echo flag, and the outcomes of the
  calls that read and set its attributes. The end of the input is final. Settings that
  \<open>tcgetattr\<close> did not fill in are the parameter \<open>junk_echo\<close>.
\<close>

abbreviation (input) MAX_PASSWORD_LENGTH :: nat where "MAX_PASSWORD_LENGTH \<equiv> 64"
abbreviation (input) C_EOF :: int where "C_EOF \<equiv> -1"

record terminal =
  tm_input :: "byte list"
  tm_echo :: bool
  tm_attr :: schedule

definition attr_call :: "terminal \<Rightarrow> bool \<times> terminal" where
  "attr_call tm = (case malloc_ok (tm_attr tm) of (ok, a) \<Rightarrow> (ok, tm\<lparr>tm_attr := a\<rparr>))"

subsection \<open>Echo\<close>

text \<open>The status and the saved settings.\<close>

definition disable_echo :: "bool \<Rightarrow> terminal \<Rightarrow> int \<times> bool \<times> terminal" where
  "disable_echo saved tm =
     (case attr_call tm of
        (False, tm) \<Rightarrow> (-1, saved, tm)
      | (True, tm) \<Rightarrow>
          (case attr_call tm of
             (False, tm) \<Rightarrow> (-1, tm_echo tm, tm)
           | (True, tm) \<Rightarrow> (0, tm_echo tm, tm\<lparr>tm_echo := False\<rparr>)))"

definition enable_echo :: "bool \<Rightarrow> terminal \<Rightarrow> int \<times> terminal" where
  "enable_echo saved tm =
     (case attr_call tm of (False, tm) \<Rightarrow> (-1, tm) | (True, tm) \<Rightarrow> (0, tm\<lparr>tm_echo := saved\<rparr>))"

text \<open>\<open>ecryptfs_disable_echo\<close> and \<open>ecryptfs_enable_echo\<close> of the library are the same code.\<close>

definition ecryptfs_disable_echo :: "bool \<Rightarrow> terminal \<Rightarrow> int \<times> bool \<times> terminal" where
  "ecryptfs_disable_echo saved tm =
     (case attr_call tm of
        (False, tm) \<Rightarrow> (-1, saved, tm)
      | (True, tm) \<Rightarrow>
          (case attr_call tm of
             (False, tm) \<Rightarrow> (-1, tm_echo tm, tm)
           | (True, tm) \<Rightarrow> (0, tm_echo tm, tm\<lparr>tm_echo := False\<rparr>)))"

definition ecryptfs_enable_echo :: "bool \<Rightarrow> terminal \<Rightarrow> int \<times> terminal" where
  "ecryptfs_enable_echo saved tm =
     (case attr_call tm of (False, tm) \<Rightarrow> (-1, tm) | (True, tm) \<Rightarrow> (0, tm\<lparr>tm_echo := saved\<rparr>))"

subsection \<open>Characters and lines\<close>

definition newline_of :: "byte \<Rightarrow> byte" where
  "newline_of b = (if b = 13 then 10 else b)"

definition mygetchar :: "terminal \<Rightarrow> int \<times> terminal" where
  "mygetchar tm =
     (case tm_input tm of
        [] \<Rightarrow> (C_EOF, tm)
      | b # bs \<Rightarrow> (uint (newline_of b), tm\<lparr>tm_input := bs\<rparr>))"

text \<open>
  The buffer of \<open>get_string_stdin\<close> is doubled when it is full. Its size is an \<open>int\<close>, so the
  doubling is undefined beyond \<open>2\<^sup>30\<close> bytes.
\<close>

definition grow :: "(nat \<Rightarrow> byte) \<Rightarrow> nat \<Rightarrow> byte list \<Rightarrow> schedule \<Rightarrow> (bool \<times> byte list \<times> schedule) option" where
  "grow junk count val mem =
     (if count \<noteq> length val then Some (True, val, mem)
      else if 2 ^ 31 \<le> 2 * length val then None
      else (case malloc_ok mem of
         (False, mem) \<Rightarrow> Some (False, val, mem)
       | (True, mem) \<Rightarrow> Some (True, val @ drop (length val) (fresh junk (2 * length val)), mem)))"

text \<open>
  The loop of \<open>get_string_stdin\<close>: whether it ran to its end, the last character, the count and
  the buffer, what is left of the input.
\<close>

fun stdin_loop ::
  "(nat \<Rightarrow> byte) \<Rightarrow> byte list \<Rightarrow> nat \<Rightarrow> byte list \<Rightarrow> schedule
   \<Rightarrow> ((bool \<times> int \<times> nat \<times> byte list) \<times> byte list \<times> schedule) option" where
  "stdin_loop junk [] count val mem = do {
     (ok, val, mem) \<leftarrow> grow junk count val mem;
     if \<not> ok then Some ((False, 0, count, val), [], mem)
     else do {
       val \<leftarrow> wr_bytes val count [10];
       Some ((True, C_EOF, count + 1, val), [], mem) } }"
| "stdin_loop junk (b # bs) count val mem = do {
     (ok, val, mem) \<leftarrow> grow junk count val mem;
     if \<not> ok then Some ((False, 0, count, val), b # bs, mem)
     else do {
       val \<leftarrow> wr_bytes val count [newline_of b];
       if newline_of b = 10 then Some ((True, 10, count + 1, val), bs, mem)
       else stdin_loop junk bs (count + 1) val mem } }"

text \<open>
  The second component is what is left in \<open>*val\<close>: \<^term>\<open>None\<close> when it was not written, \<open>Some None\<close>
  for a null pointer. When the buffer cannot grow, the echo stays off.
\<close>

definition get_string_stdin ::
  "(nat \<Rightarrow> byte) \<Rightarrow> bool \<Rightarrow> bool \<Rightarrow> terminal \<Rightarrow> schedule
   \<Rightarrow> (int \<times> byte list option option \<times> terminal \<times> schedule) option" where
  "get_string_stdin junk junk_echo echo tm mem =
     (case malloc_ok mem of
        (False, mem) \<Rightarrow> Some (- ENOMEM, None, tm, mem)
      | (True, mem) \<Rightarrow> do {
          val \<leftarrow> wr_bytes (fresh junk 16) 0 [0];
          let (rc, saved, tm) = (if echo then (0, junk_echo, tm) else disable_echo junk_echo tm);
          if rc \<noteq> 0 then Some (rc, Some (Some val), tm, mem)
          else do {
            ((ok, c, count, val), input, mem) \<leftarrow> stdin_loop junk (tm_input tm) 0 val mem;
            let tm = tm\<lparr>tm_input := input\<rparr>;
            if \<not> ok then Some (- ENOMEM, Some (Some val), tm, mem)
            else do {
              val \<leftarrow> wr_bytes val (count - 1) [0];
              let (rc, tm) = (if echo then (0, tm) else enable_echo saved tm);
              if count = 1 \<and> c = C_EOF then Some (- EIO, Some None, tm, mem)
              else Some (rc, Some (Some val), tm, mem) } } })"

text \<open>\<open>get_string\<close>: a line into a buffer of the caller.\<close>

fun get_loop :: "byte list \<Rightarrow> nat \<Rightarrow> nat \<Rightarrow> byte list \<Rightarrow> (int \<times> nat \<times> byte list \<times> byte list) option" where
  "get_loop [] len count val = do {
     val \<leftarrow> wr_bytes val count [10];
     Some (C_EOF, count + 1, val, []) }"
| "get_loop (b # bs) len count val = do {
     val \<leftarrow> wr_bytes val count [newline_of b];
     if newline_of b \<noteq> 10 \<and> count + 1 < len then get_loop bs len (count + 1) val
     else Some (uint (newline_of b), count + 1, val, bs) }"

definition get_string ::
  "bool \<Rightarrow> byte list \<Rightarrow> nat \<Rightarrow> bool \<Rightarrow> terminal \<Rightarrow> (int \<times> byte list \<times> terminal) option" where
  "get_string junk_echo val len echo tm =
     (let (rc, saved, tm) = (if echo then (0, junk_echo, tm) else disable_echo junk_echo tm) in
      if rc \<noteq> 0 then Some (rc, val, tm)
      else do {
        (c, count, val, input) \<leftarrow> get_loop (tm_input tm) len 0 val;
        let tm = tm\<lparr>tm_input := input\<rparr>;
        let (rc, tm) = (if echo then (0, tm) else enable_echo saved tm);
        if count = 1 \<and> c = C_EOF then do {
          val \<leftarrow> wr_bytes val 0 [0];
          Some (- EIO, val, tm) }
        else do {
          val \<leftarrow> wr_bytes val (if len < count then len - 1 else count - 1) [0];
          Some (rc, val, tm) } })"

fun skip_line :: "byte list \<Rightarrow> byte list" where
  "skip_line [] = []"
| "skip_line (b # bs) = (if newline_of b = 10 then bs else skip_line bs)"

definition munch_newline :: "terminal \<Rightarrow> int \<times> terminal" where
  "munch_newline tm =
     (case mygetchar tm of
        (c, tm) \<Rightarrow>
          if c = 10 \<or> c = C_EOF then (0, tm)
          else (-1, tm\<lparr>tm_input := skip_line (tm_input tm)\<rparr>))"

subsection \<open>Menus\<close>

text \<open>
  The loop of \<open>manager_menu\<close> need not end; the number bounds its rounds, and \<open>Some None\<close> is the
  result when the bound is reached. Of the array \<open>str\<close> only the first element is set.
\<close>

fun manager_menu :: "(nat \<Rightarrow> byte) \<Rightarrow> nat \<Rightarrow> terminal \<Rightarrow> (int \<times> terminal) option option" where
  "manager_menu junk 0 tm = Some None"
| "manager_menu junk (Suc fuel) tm =
     (case mygetchar tm of
        (c, tm) \<Rightarrow>
          (case munch_newline tm of
             (m, tm) \<Rightarrow>
               if m \<noteq> 0 then manager_menu junk fuel tm
               else do {
                 s \<leftarrow> c_string (word_of_int c # map junk [1..<8]);
                 let selection = c_strtol 10 s;
                 if selection \<in> {1, 2, 3, 4} then Some (Some (selection, tm))
                 else manager_menu junk fuel tm }))"

text \<open>
  \<open>read_passphrase_salt\<close> with the buffer of the caller. When the second buffer cannot be
  allocated, the code at its end writes through the null pointer.
\<close>

definition read_passphrase_salt ::
  "(nat \<Rightarrow> byte) \<Rightarrow> bool \<Rightarrow> byte list \<Rightarrow> terminal \<Rightarrow> schedule \<Rightarrow> (int \<times> byte list \<times> terminal \<times> schedule) option" where
  "read_passphrase_salt junk junk_echo pass tm mem =
     (case malloc_ok mem of
        (False, mem) \<Rightarrow> None
      | (True, mem) \<Rightarrow> do {
          (rc, pass, tm) \<leftarrow> get_string junk_echo pass MAX_PASSWORD_LENGTH False tm;
          if rc \<noteq> 0 then Some (rc, pass, tm, mem)
          else do {
            p \<leftarrow> c_string pass;
            if p = [] then Some (- EINVAL, pass, tm, mem)
            else do {
              (rc, confirmed, tm) \<leftarrow> get_string junk_echo (fresh junk MAX_PASSWORD_LENGTH) MAX_PASSWORD_LENGTH False tm;
              if rc \<noteq> 0 then Some (rc, pass, tm, mem)
              else do {
                q \<leftarrow> c_string confirmed;
                Some (if p \<noteq> q then - EINVAL else 0, pass, tm, mem) } } } })"

text \<open>
  \<open>ecryptfs_select_key_mod\<close> on the list of registered modules; the number bounds the rounds.
\<close>

fun ecryptfs_select_key_mod :: "nat \<Rightarrow> 'm list \<Rightarrow> terminal \<Rightarrow> (int \<times> 'm option \<times> terminal) option" where
  "ecryptfs_select_key_mod 0 mods tm = None"
| "ecryptfs_select_key_mod (Suc fuel) mods tm =
     (case mods of
        [] \<Rightarrow> Some (1, None, tm)
      | [m] \<Rightarrow> Some (0, Some m, tm)
      | _ \<Rightarrow>
          (case c_fgets 4 (tm_input tm) of
             None \<Rightarrow> Some (- EIO, None, tm)
           | Some (l, rest) \<Rightarrow>
               let str = text_in l;
                   tm = tm\<lparr>tm_input := rest\<rparr>;
                   key_mod_type = (if take 1 str = [10] then 1 else c_strtol 10 str)
               in if key_mod_type < 1 \<or> int (length mods) < key_mod_type then
                    ecryptfs_select_key_mod fuel mods
                      (if 10 \<in> set str then tm else tm\<lparr>tm_input := skip_line (tm_input tm)\<rparr>)
                  else Some (0, Some (mods ! nat (key_mod_type - 1)), tm)))"

subsection \<open>Passphrases\<close>

text \<open>\<open>strrchr\<close> and a zero byte in place of the newline.\<close>

definition cut_last_newline :: "byte list \<Rightarrow> byte list" where
  "cut_last_newline s =
     (if 10 \<in> set s then rev (tl (dropWhile (\<lambda>b. b \<noteq> 10) (rev s))) else s)"

definition ecryptfs_get_passphrase ::
  "bool \<Rightarrow> terminal \<Rightarrow> schedule \<Rightarrow> byte list option \<times> terminal \<times> schedule" where
  "ecryptfs_get_passphrase junk_echo tm mem =
     (case malloc_ok mem of
        (False, mem) \<Rightarrow> (None, tm, mem)
      | (True, mem) \<Rightarrow>
          let (_, saved, tm) = ecryptfs_disable_echo junk_echo tm;
              r = c_fgets (MAX_PASSWORD_LENGTH + 2) (tm_input tm);
              tm = (case r of None \<Rightarrow> tm | Some (_, rest) \<Rightarrow> tm\<lparr>tm_input := rest\<rparr>);
              (_, tm) = ecryptfs_enable_echo saved tm
          in (case r of
             None \<Rightarrow> (None, tm, mem)
           | Some (l, _) \<Rightarrow>
               let p = cut_last_newline (text_in l) in
               (if MAX_PASSWORD_LENGTH < length p then None else Some p, tm, mem)))"

subsection \<open>A line from the standard input\<close>

lemma newline_of_plain: "newline_of b \<noteq> 10 \<Longrightarrow> newline_of b = b"
  by (auto simp: newline_of_def split: if_splits)

lemma grow_room:
  assumes "count \<le> length val" "0 < length val" "count < 2 ^ 30"
  shows "\<exists>val'. grow junk count val [] = Some (True, val', []) \<and> take count val' = take count val
    \<and> count < length val'"
  using assms by (cases "count = length val") (auto simp: grow_def)

text \<open>
  The line is read up to its end or the end of the input; the bytes of the line are at the
  start of the buffer, and one more byte after them has room.
\<close>

lemma stdin_loop_line:
  assumes "\<forall>b \<in> set l. newline_of b \<noteq> 10" "count \<le> length val" "0 < length val" "count + length l < 2 ^ 30"
    and "t = [] \<or> newline_of (hd t) = 10"
  shows "\<exists>val'. stdin_loop junk (l @ t) count val []
      = Some ((True, if t = [] then C_EOF else 10, count + length l + 1, val'), tl t, [])
    \<and> take (count + length l) val' = take count val @ l \<and> count + length l < length val'"
  using assms
proof (induction l arbitrary: count val)
  case Nil
  obtain v where v: "grow junk count val [] = Some (True, v, [])" "take count v = take count val" "count < length v"
    using grow_room [of count val junk] Nil.prems by auto
  show ?case
    using v Nil.prems(2,5) by (cases t) (auto simp: wr_bytes_def min_def)
next
  case (Cons b l)
  obtain v where v: "grow junk count val [] = Some (True, v, [])" "take count v = take count val" "count < length v"
    using grow_room [of count val junk] Cons.prems by auto
  have b: "newline_of b = b" "b \<noteq> 10" using Cons.prems(1) newline_of_plain [of b] by auto
  let ?v = "take count v @ b # drop (Suc count) v"
  have w: "wr_bytes v count [b] = Some ?v" using v(3) by (simp add: wr_bytes_def)
  have t: "take (Suc count) ?v = take count val @ [b]" using v(2,3) Cons.prems(2) by (simp add: min_def)
  have c: "Suc count \<le> length ?v" using v(3) by simp
  obtain val' where "stdin_loop junk (l @ t) (Suc count) ?v []
      = Some ((True, if t = [] then C_EOF else 10, Suc count + length l + 1, val'), tl t, [])"
    "take (Suc count + length l) val' = take (Suc count) ?v @ l" "Suc count + length l < length val'"
    using Cons.IH [OF _ c _ _ Cons.prems(5)] Cons.prems(1,4) c by fastforce
  then show ?case using v(1) w b t by (intro exI [of _ val']) simp
qed

text \<open>The answers that are on the standard input, one for every line.\<close>

function stdin_answers :: "byte list \<Rightarrow> (int \<times> byte list option) list" where
  "stdin_answers input =
     (if input = [] then []
      else (0, Some (text_in (takeWhile (\<lambda>b. newline_of b \<noteq> 10) input)))
        # stdin_answers (tl (dropWhile (\<lambda>b. newline_of b \<noteq> 10) input)))"
  by pat_completeness auto
termination
proof (relation "measure length")
  fix input :: "byte list" assume "input \<noteq> []"
  then show "(tl (dropWhile (\<lambda>b. newline_of b \<noteq> 10) input), input) \<in> measure length"
    using length_dropWhile_le [of "\<lambda>b. newline_of b \<noteq> 10" input] by (cases input) auto
qed simp

declare stdin_answers.simps [simp del]

lemma c_string_text_in: "c_string (l @ 0 # r) = Some (text_in l)"
  by (induction l) (auto simp: text_in_def)

lemma stdin_loop_answers:
  assumes "input \<noteq> []" "length input < 2 ^ 30"
  shows "\<exists>c n val. stdin_loop junk input 0 (0 # v) [] = Some ((True, c, n, val), tl (dropWhile (\<lambda>b. newline_of b \<noteq> 10) input), [])
    \<and> 0 < n \<and> n \<le> length val \<and> \<not> (n = 1 \<and> c = C_EOF)
    \<and> take (n - 1) val = takeWhile (\<lambda>b. newline_of b \<noteq> 10) input"
proof -
  let ?P = "\<lambda>b. newline_of b \<noteq> 10"
  let ?l = "takeWhile ?P input" and ?t = "dropWhile ?P input"
  have t: "?t = [] \<or> newline_of (hd ?t) = 10" using hd_dropWhile [of ?P input] by blast
  have "length ?l \<le> length input" by (rule length_takeWhile_le)
  then obtain val' where 1: "stdin_loop junk (?l @ ?t) 0 (0 # v) []
      = Some ((True, if ?t = [] then C_EOF else 10, length ?l + 1, val'), tl ?t, [])"
    "take (length ?l) val' = ?l" "length ?l < length val'"
    using stdin_loop_line [of ?l 0 "0 # v" ?t junk] t assms(2) by (auto dest: set_takeWhileD)
  have "?l \<noteq> [] \<or> ?t \<noteq> []" using assms(1) by (metis append_Nil takeWhile_dropWhile_id)
  with 1 show ?thesis by (auto split: if_splits)
qed

lemma echo_back:
  "tm_attr tm = [] \<Longrightarrow> disable_echo je tm = (0, tm_echo tm, tm\<lparr>tm_attr := [], tm_echo := False\<rparr>)"
  "tm_attr tm = [] \<Longrightarrow> enable_echo saved tm = (0, tm\<lparr>tm_attr := [], tm_echo := saved\<rparr>)"
  by (simp_all add: disable_echo_def enable_echo_def attr_call_def)

lemma wr_zero_c_string: "n < length val \<Longrightarrow> wr_bytes val n [0] = Some val' \<Longrightarrow> c_string val' = Some (text_in (take n val))"
  by (auto simp: wr_bytes_def c_string_text_in)

text \<open>
  C29. \<open>get_string_stdin\<close> answers with the next line of the standard input, for lines of less than
  \<open>2\<^sup>30\<close> bytes and whatever the size of its buffer has to grow to; at the end of the input with
  \<open>-EIO\<close> and a null pointer. The echo of the terminal is as before.
\<close>

theorem get_string_stdin_reads_line:
  assumes "length (tm_input tm) < 2 ^ 30" and "tm_attr tm = []"
  shows "\<exists>rc v tm'. get_string_stdin junk junk_echo echo tm [] = Some (rc, v, tm', []) \<and> tm_echo tm' = tm_echo tm
    \<and> (case stdin_answers (tm_input tm) of
         [] \<Rightarrow> rc = - EIO \<and> v = Some None \<and> tm_input tm' = []
       | a # as \<Rightarrow> fst a = rc \<and> rc = 0 \<and> (\<exists>buf. v = Some (Some buf) \<and> c_string buf = snd a)
           \<and> stdin_answers (tm_input tm') = as)"
proof -
  obtain v where v: "wr_bytes (fresh junk 16) 0 [0] = Some (0 # v)" by (simp add: wr_bytes_def)
  define tm1 where "tm1 = (if echo then tm else tm\<lparr>tm_attr := [], tm_echo := False\<rparr>)"
  have tm1: "(if echo then (0, junk_echo, tm) else disable_echo junk_echo tm)
      = (0, if echo then junk_echo else tm_echo tm, tm1)" "tm_input tm1 = tm_input tm"
    using echo_back(1) [OF assms(2)] by (simp_all add: tm1_def)
  define restored where "restored = (\<lambda>i. if echo then tm1\<lparr>tm_input := i\<rparr> else tm1\<lparr>tm_input := i, tm_attr := [], tm_echo := tm_echo tm\<rparr>)"
  have rest: "(if echo then (0, tm1\<lparr>tm_input := i\<rparr>) else enable_echo (if echo then junk_echo else tm_echo tm) (tm1\<lparr>tm_input := i\<rparr>))
      = (0, restored i)" "tm_echo (restored i) = tm_echo tm" "tm_input (restored i) = i" for i
    using echo_back(2) [of "tm1\<lparr>tm_input := i\<rparr>"] by (auto simp: restored_def tm1_def)
  have run: "get_string_stdin junk junk_echo echo tm [] = do {
       ((ok, c, count, val), input, mem) \<leftarrow> stdin_loop junk (tm_input tm) 0 (0 # v) [];
       if \<not> ok then Some (- ENOMEM, Some (Some val), tm1\<lparr>tm_input := input\<rparr>, mem)
       else do {
         val \<leftarrow> wr_bytes val (count - 1) [0];
         if count = 1 \<and> c = C_EOF then Some (- EIO, Some None, restored input, mem)
         else Some (0, Some (Some val), restored input, mem) } }"
    unfolding get_string_stdin_def malloc_ok.simps prod.case bool.case v Option.bind.bind_lunit tm1(1) Let_def tm1(2) rest(1)
    by simp
  show ?thesis
  proof (cases "tm_input tm = []")
    case True
    obtain val' where 1: "stdin_loop junk [] 0 (0 # v) [] = Some ((True, C_EOF, 1, val'), [], [])" "0 < length val'"
      using stdin_loop_line [of "[]" 0 "0 # v" "[]" junk] by auto
    then show ?thesis using True rest unfolding run True
      by (simp add: wr_bytes_def stdin_answers.simps Suc_le_eq del: stdin_loop.simps)
  next
    case False
    let ?t = "tl (dropWhile (\<lambda>b. newline_of b \<noteq> 10) (tm_input tm))"
    obtain c n val where 1: "stdin_loop junk (tm_input tm) 0 (0 # v) [] = Some ((True, c, n, val), ?t, [])"
      "0 < n" "n \<le> length val" "\<not> (n = 1 \<and> c = C_EOF)" "take (n - 1) val = takeWhile (\<lambda>b. newline_of b \<noteq> 10) (tm_input tm)"
      using stdin_loop_answers [OF False assms(1)] by blast
    obtain val' where 2: "wr_bytes val (n - 1) [0] = Some val'" using 1(2,3) by (simp add: wr_bytes_def)
    have "c_string val' = Some (text_in (take (n - 1) val))" using wr_zero_c_string [OF _ 2] 1(2,3) by simp
    moreover have "get_string_stdin junk junk_echo echo tm [] = Some (0, Some (Some val'), restored ?t, [])"
      unfolding run using 1 2 by simp
    ultimately show ?thesis using False rest 1(5)
      by (simp add: stdin_answers.simps [of "tm_input tm"])
  qed
qed

theorem get_string_stdin_reads_line_witness:
  "\<exists>rc v tm'. get_string_stdin (\<lambda>_. 7) False False \<lparr>tm_input = bytes_of_string ''yes'' @ [13] @ bytes_of_string ''no'',
       tm_echo = True, tm_attr = []\<rparr> [] = Some (rc, v, tm', [])
    \<and> tm_echo tm' \<and> rc = 0 \<and> (\<exists>buf. v = Some (Some buf) \<and> c_string buf = Some (bytes_of_string ''yes''))
    \<and> stdin_answers (tm_input tm') = [(0, Some (bytes_of_string ''no''))]"
proof -
  let ?tm = "\<lparr>tm_input = bytes_of_string ''yes'' @ [13] @ bytes_of_string ''no'', tm_echo = True, tm_attr = []\<rparr>"
  have "stdin_answers (tm_input ?tm) = [(0, Some (bytes_of_string ''yes'')), (0, Some (bytes_of_string ''no''))]"
    by (simp add: stdin_answers.simps newline_of_def text_in_def bytes_of_string_def)
  then show ?thesis using get_string_stdin_reads_line [of ?tm "\<lambda>_. 7" False False] by simp
qed

subsection \<open>Choosing a key module\<close>

lemma skip_line_length: "length (skip_line bs) \<le> length bs"
  by (induction bs) auto

lemma c_fgets_consumes: "c_fgets n bs = Some (l, rest) \<Longrightarrow> 1 < n \<Longrightarrow> length rest < length bs"
  by (cases n; cases "n - 1"; cases bs) (auto simp: c_fgets_def Let_def split: if_splits)

text \<open>
  C30. Choosing a key module ends: every round of the question takes at least one byte of the input,
  and at its end the choice is given up with \<open>-EIO\<close>. A chosen module is one of the list.
\<close>

theorem select_key_mod_terminates:
  assumes "length (tm_input tm) < fuel"
  shows "\<exists>rc m tm'. ecryptfs_select_key_mod fuel mods tm = Some (rc, m, tm')
    \<and> (if mods = [] then rc = 1 \<and> m = None else (rc = 0 \<and> (\<exists>x \<in> set mods. m = Some x)) \<or> (rc = - EIO \<and> m = None))"
  using assms
proof (induction fuel arbitrary: tm)
  case (Suc fuel)
  show ?case
  proof (cases "2 \<le> length mods")
    case False
    then show ?thesis by (cases mods rule: remdups_adj.cases) auto
  next
    case True
    then obtain a b ms where mods: "mods = a # b # ms" by (cases mods rule: remdups_adj.cases) auto
    show ?thesis
    proof (cases "c_fgets 4 (tm_input tm)")
      case None
      then show ?thesis by (simp add: mods)
    next
      case (Some r)
      obtain l rest where r: "r = (l, rest)" by fastforce
      let ?str = "text_in l" and ?tm = "tm\<lparr>tm_input := rest\<rparr>"
      let ?k = "if take 1 ?str = [10] then 1 else c_strtol 10 ?str"
      let ?tm' = "if 10 \<in> set ?str then ?tm else ?tm\<lparr>tm_input := skip_line rest\<rparr>"
      have "length rest < length (tm_input tm)" using c_fgets_consumes Some r by auto
      then have IH: "length (tm_input ?tm') < fuel" using skip_line_length [of rest] Suc.prems by auto
      show ?thesis
      proof (cases "?k < 1 \<or> int (length mods) < ?k")
        case bad: True
        then have "ecryptfs_select_key_mod (Suc fuel) mods tm = ecryptfs_select_key_mod fuel mods ?tm'"
          using Some r mods by (simp add: Let_def)
        then show ?thesis using Suc.IH [OF IH] by simp
      next
        case good: False
        then have "ecryptfs_select_key_mod (Suc fuel) mods tm = Some (0, Some (mods ! nat (?k - 1)), ?tm)"
          using Some r mods by (simp add: Let_def)
        moreover have "nat (?k - 1) < length mods" using good by linarith
        then have "mods ! nat (?k - 1) \<in> set mods" by (rule nth_mem)
        moreover have "mods \<noteq> []" using mods by simp
        ultimately show ?thesis by (simp del: ecryptfs_select_key_mod.simps)
      qed
    qed
  qed
qed simp

theorem select_key_mod_terminates_witness:
  "\<exists>rc m tm'. ecryptfs_select_key_mod 4 [''passphrase'', ''openssl''] \<lparr>tm_input = [57, 10], tm_echo = True, tm_attr = []\<rparr>
      = Some (rc, m, tm')
    \<and> ((rc = 0 \<and> (\<exists>x \<in> {''passphrase'', ''openssl''}. m = Some x)) \<or> (rc = - EIO \<and> m = None))"
  using select_key_mod_terminates [of "\<lparr>tm_input = [57, 10], tm_echo = True, tm_attr = []\<rparr>" 4 "[''passphrase'', ''openssl'']"]
  by simp

subsection \<open>The menu of the key manager\<close>

text \<open>
  At the end of the standard input the menu of the key manager never returns: each round reads
  the end of the input, finds no selection in it, and asks again.
\<close>

theorem manager_menu_never_ends:
  assumes "tm_input tm = []" and "0 \<in> set (map junk [1..<8])"
  shows "manager_menu junk fuel tm = Some None"
proof -
  obtain xs ys where xs: "map junk [1..<8] = xs @ 0 # ys" using assms(2) by (meson in_set_conv_decomp)
  have "c_string (255 # xs @ 0 # ys) = Some (text_in (255 # xs))"
    using c_string_text_in [of "255 # xs" ys] by simp
  moreover have "text_in (255 # xs) = 255 # text_in xs" by (simp add: text_in_def)
  moreover have "c_strtol 10 (255 # zs) = 0" for zs
    by (simp add: c_strtol_def Let_def c_isspace_def digit_val_def split: list.splits)
  ultimately have sel: "c_string (255 # map junk [1..<8]) = Some (255 # text_in xs) \<and> c_strtol 10 (255 # text_in xs) = 0"
    using xs by simp
  show ?thesis
  proof (induction fuel)
    case (Suc fuel)
    have "mygetchar tm = (C_EOF, tm)" "munch_newline tm = (0, tm)"
      using assms(1) by (simp_all add: mygetchar_def munch_newline_def)
    moreover have "(- 1 :: byte) = 255" by simp
    then have "c_strtol 10 (- 1 # text_in xs) = 0" using sel by metis
    ultimately show ?case using sel Suc.IH by simp
  qed simp
qed

theorem manager_menu_never_ends_witness:
  "manager_menu (\<lambda>_. 0) 1000 \<lparr>tm_input = [], tm_echo = True, tm_attr = []\<rparr> = Some None"
  by (rule manager_menu_never_ends) (auto simp: image_def intro: bexI [of _ 2])

subsection \<open>A passphrase and its confirmation\<close>

lemma uint_not_EOF [simp]: "uint (b :: byte) \<noteq> C_EOF"
  using uint_ge_0 [of b] by linarith

lemma get_loop_line:
  assumes "\<forall>b \<in> set l. newline_of b \<noteq> 10" "count + length l < length val"
    and "t = [] \<or> newline_of (hd t) = 10"
  shows "\<exists>val' c. get_loop (l @ t) (length val) count val = Some (c, count + length l + 1, val', tl t)
    \<and> take (count + length l) val' = take count val @ l \<and> length val' = length val \<and> (t \<noteq> [] \<longrightarrow> c \<noteq> C_EOF)"
  using assms
proof (induction l arbitrary: count val)
  case Nil
  then show ?case by (cases t) (auto simp: wr_bytes_def)
next
  case (Cons b l)
  have b: "newline_of b = b" "b \<noteq> 10" using Cons.prems(1) newline_of_plain [of b] by auto
  let ?v = "take count val @ b # drop (Suc count) val"
  have v: "length ?v = length val" "take (Suc count) ?v = take count val @ [b]" using Cons.prems(2) by simp_all
  have "\<exists>val' c. get_loop (l @ t) (length ?v) (Suc count) ?v = Some (c, Suc count + length l + 1, val', tl t)
    \<and> take (Suc count + length l) val' = take (Suc count) ?v @ l \<and> length val' = length ?v \<and> (t \<noteq> [] \<longrightarrow> c \<noteq> C_EOF)"
    by (rule Cons.IH) (use Cons.prems in auto)
  then show ?case using b v Cons.prems(2) by (simp add: wr_bytes_def)
qed

lemma get_loop_full:
  assumes "\<forall>b \<in> set l. newline_of b \<noteq> 10" "count < length val" "length val \<le> count + length l"
  shows "\<exists>val' c. get_loop (l @ t) (length val) count val
      = Some (c, length val, val', drop (length val - count) l @ t)
    \<and> val' = take count val @ take (length val - count) l \<and> c \<noteq> C_EOF"
  using assms
proof (induction l arbitrary: count val)
  case (Cons b l)
  have b: "newline_of b = b" "b \<noteq> 10" using Cons.prems(1) newline_of_plain [of b] by auto
  let ?v = "take count val @ b # drop (Suc count) val"
  have v: "length ?v = length val" "take (Suc count) ?v = take count val @ [b]" using Cons.prems(2) by simp_all
  have w: "wr_bytes val count [b] = Some ?v" using Cons.prems(2) by (simp add: wr_bytes_def)
  show ?case
  proof (cases "Suc count < length val")
    case True
    have "\<exists>val' c. get_loop (l @ t) (length ?v) (Suc count) ?v
        = Some (c, length ?v, val', drop (length ?v - Suc count) l @ t)
      \<and> val' = take (Suc count) ?v @ take (length ?v - Suc count) l \<and> c \<noteq> C_EOF"
      by (rule Cons.IH) (use Cons.prems True v(1) in auto)
    moreover have "length val - count = Suc (length val - Suc count)" using Cons.prems(2) by simp
    ultimately show ?thesis using b v w True by simp
  next
    case False
    then have "length val = Suc count" using Cons.prems(2) by simp
    then show ?thesis using b w by simp
  qed
qed simp

lemma get_string_hidden:
  assumes "tm_attr tm = []" "get_loop (tm_input tm) len 0 val = Some (c, count, val', rest)" "0 < count" "count \<le> len"
    and "count \<le> length val'" "c \<noteq> C_EOF"
  shows "get_string junk_echo val len False tm
    = Some (0, take (count - 1) val' @ 0 # drop count val', tm\<lparr>tm_input := rest\<rparr>)"
proof -
  have "wr_bytes val' (count - 1) [0] = Some (take (count - 1) val' @ 0 # drop count val')"
    using assms(3,5) by (simp add: wr_bytes_def Suc_diff_1 [symmetric])
  moreover have "tm\<lparr>tm_attr := [], tm_echo := False, tm_input := rest, tm_attr := [], tm_echo := tm_echo tm\<rparr> = tm\<lparr>tm_input := rest\<rparr>"
    using assms(1) by (cases tm) simp
  ultimately show ?thesis
    using assms by (simp add: get_string_def echo_back Let_def not_less)
qed

text \<open>
  The passphrase of the key manager and its confirmation, typed the same way twice. Up to 63
  bytes it is accepted, and the buffer holds it. From 64 bytes, which the rest of the library
  accepts, it is refused: the first read stops at its 64th byte, and what is left of the first
  line is taken for the confirmation.
\<close>

theorem read_passphrase_salt_limit:
  assumes "\<forall>b \<in> set p. newline_of b \<noteq> 10 \<and> b \<noteq> 0" and "p \<noteq> []" and "length p < 127" and "length pass = 64"
    and "tm_input tm = p @ 10 # p @ 10 # rest" and "tm_attr tm = []"
  shows "\<exists>pass' tm'. read_passphrase_salt junk junk_echo pass tm []
      = Some (if length p < 64 then 0 else - EINVAL, pass', tm', [])
    \<and> c_string pass' = Some (take 63 p) \<and> tm_echo tm' = tm_echo tm"
proof -
  have nl: "\<forall>b \<in> set (drop n p). newline_of b \<noteq> 10" for n using assms(1) by (auto dest: in_set_dropD)
  have z: "0 \<notin> set (take n p)" "0 \<notin> set (drop n p)" for n using assms(1) by (auto dest: in_set_dropD in_set_takeD)
  have n10: "newline_of 10 = 10" by (simp add: newline_of_def)
  have line: "\<exists>val'. get_string junk_echo val 64 False s = Some (0, val', s\<lparr>tm_input := t\<rparr>) \<and> c_string val' = Some l"
    if "tm_attr s = []" "tm_input s = l @ 10 # t" "length val = 64" "length l < 64" "\<forall>b \<in> set l. newline_of b \<noteq> 10" "0 \<notin> set l"
    for l t val s
  proof -
    note h = that
    obtain val' c where 1: "get_loop (l @ 10 # t) 64 0 val = Some (c, length l + 1, val', t)"
      "take (length l) val' = l" "length val' = 64" "c \<noteq> C_EOF"
      using get_loop_line [of l 0 val "10 # t"] h n10 by auto
    show ?thesis
      using get_string_hidden [of s 64 val c "length l + 1" val' t junk_echo] 1 h c_string_append [OF h(6)] by simp
  qed
  show ?thesis
  proof (cases "length p < 64")
    case True
    obtain v1 where 1: "get_string junk_echo pass 64 False tm = Some (0, v1, tm\<lparr>tm_input := p @ 10 # rest\<rparr>)"
      "c_string v1 = Some p"
      using line [OF assms(6,5,4) True] nl [of 0] z(2) [of 0] by auto
    obtain v2 where 2: "get_string junk_echo (fresh junk 64) 64 False (tm\<lparr>tm_input := p @ 10 # rest\<rparr>)
        = Some (0, v2, tm\<lparr>tm_input := p @ 10 # rest\<rparr>\<lparr>tm_input := rest\<rparr>)" "c_string v2 = Some p"
      using line [of "tm\<lparr>tm_input := p @ 10 # rest\<rparr>" p rest "fresh junk 64"] assms(6) True nl [of 0] z(2) [of 0] by auto
    show ?thesis using 1 2 assms(2) True by (simp add: read_passphrase_salt_def)
  next
    case False
    let ?t = "10 # p @ 10 # rest"
    obtain c where 1: "get_loop (p @ ?t) 64 0 pass = Some (c, 64, take 64 p, drop 64 p @ ?t)" "c \<noteq> C_EOF"
      using get_loop_full [of p 0 pass ?t] nl [of 0] assms(4) False by auto
    let ?v1 = "take 63 p @ [0]" and ?tm1 = "tm\<lparr>tm_input := drop 64 p @ ?t\<rparr>"
    have g1: "get_string junk_echo pass 64 False tm = Some (0, ?v1, ?tm1)"
      using get_string_hidden [of tm 64 pass c 64 "take 64 p" "drop 64 p @ ?t" junk_echo] 1 assms(5,6) False
      by (simp add: min_def)
    have short: "length (drop 64 p) < 64" using assms(3) by auto
    have c1: "c_string ?v1 = Some (take 63 p)" using c_string_append [OF z(1) [of 63], of "[]"] by simp
    obtain v2 where 2: "get_string junk_echo (fresh junk 64) 64 False ?tm1
        = Some (0, v2, ?tm1\<lparr>tm_input := p @ 10 # rest\<rparr>)" "c_string v2 = Some (drop 64 p)"
      using line [of ?tm1 "drop 64 p" "p @ 10 # rest" "fresh junk 64"] short assms(6) nl z by auto
    have "length (take 63 p) = 63" "length (drop 64 p) < 63" using False assms(3) by auto
    then have "take 63 p \<noteq> drop 64 p" by (metis less_irrefl)
    moreover have "take 63 p \<noteq> []" using assms(2) by (cases p) auto
    ultimately show ?thesis using g1 c1 2 False by (simp add: read_passphrase_salt_def)
  qed
qed

theorem read_passphrase_salt_limit_witness:
  "\<exists>pass' tm'. read_passphrase_salt (\<lambda>_. 7) False (replicate 64 0)
       \<lparr>tm_input = replicate 64 97 @ 10 # replicate 64 97 @ 10 # [], tm_echo = True, tm_attr = []\<rparr> []
     = Some (- EINVAL, pass', tm', []) \<and> c_string pass' = Some (replicate 63 97) \<and> tm_echo tm'"
  using read_passphrase_salt_limit [of "replicate 64 97" "replicate 64 0"
      "\<lparr>tm_input = replicate 64 97 @ 10 # replicate 64 97 @ 10 # [], tm_echo = True, tm_attr = []\<rparr>" "[]" "\<lambda>_. 7" False]
  by (simp add: newline_of_def)

end
