(* ===== verification/Mount_Helper.thy ===== *)
theory Mount_Helper
  imports Passphrase_Mount Terminal
begin

text \<open>
  The mount helper \<open>src/utils/mount.ecryptfs.c\<close>: arguments, the options that are kept from the
  kernel, the signature cache, and the call of \<open>/bin/mount\<close>. It drives the decision graph of
  the module manager.

  What the user types is the list of answers that \<open>get_string_stdin\<close> gives to the standard
  input (\<open>Terminal\<close>). The call of \<open>/bin/mount\<close> is part of the result: its source, target and
  option string.
\<close>

abbreviation (input) EPIPE :: int where "EPIPE \<equiv> 32"
abbreviation (input) ECANCELED :: int where "ECANCELED \<equiv> 125"

subsection \<open>Arguments\<close>

text \<open>
  A copy of an argument with its zero byte. The code looks for a slash at the place of the
  zero byte.
\<close>

definition copy_arg :: "byte list \<Rightarrow> byte list" where
  "copy_arg ptr =
     (let buf = ptr @ [0]; len = length ptr + 1 in
      if buf ! (len - 1) = 47 then buf[len - 1 := 0] else buf)"

text \<open>The argument after the first \<open>-o\<close> from the fourth argument on.\<close>

fun find_opts :: "byte list list \<Rightarrow> byte list option" where
  "find_opts (a # b # args) = (if a = bytes_of_string ''-o'' then Some b else find_opts (b # args))"
| "find_opts _ = None"

text \<open>
  The status, and source, target and options. Source and target are asked for together. An
  outer \<^term>\<open>None\<close> is a read beyond the arguments.
\<close>

definition parse_arguments ::
  "bool \<Rightarrow> byte list list \<Rightarrow> schedule
   \<Rightarrow> ((int \<times> byte list option \<times> byte list option \<times> byte list option) \<times> schedule) option" where
  "parse_arguments paths argv mem = do {
     (ok, src, target, mem) \<leftarrow>
       (if \<not> paths then Some (True, None, None, mem)
        else if length argv < 2 then None
        else (case malloc_ok mem of
           (False, mem) \<Rightarrow> Some (False, None, None, mem)
         | (True, mem) \<Rightarrow> do {
             src \<leftarrow> c_string (copy_arg (argv ! 1));
             if length argv < 3 then None
             else (case malloc_ok mem of
                (False, mem) \<Rightarrow> Some (False, None, None, mem)
              | (True, mem) \<Rightarrow> do {
                  target \<leftarrow> c_string (copy_arg (argv ! 2));
                  Some (True, Some src, Some target, mem) }) }));
     if \<not> ok then Some ((- ENOMEM, None, None, None), mem)
     else if length argv < 3 then Some ((0, src, target, None), mem)
     else (case find_opts (drop 3 argv) of
        None \<Rightarrow> Some ((0, src, target, None), mem)
      | Some ptr \<Rightarrow>
          (case malloc_ok mem of
             (False, mem) \<Rightarrow> Some ((- ENOMEM, None, None, None), mem)
           | (True, mem) \<Rightarrow> Some ((0, src, target, Some ptr), mem))) }"

subsection \<open>Options that stay in userspace\<close>

definition parameters_to_scrub :: "string list" where
  "parameters_to_scrub =
     [''key='', ''cipher='', ''passthrough'', ''ecryptfs_passthrough'', ''hmac'', ''ecryptfs_hmac'', ''xattr'',
      ''ecryptfs_xattr'', ''encrypted_view'', ''ecryptfs_encrypted_view'', ''user'', ''sig'', ''no_sig_cache'',
      ''verbose'', ''verbosity'', ''ecryptfs_enable_filename_crypto'']"

definition parameters_to_not_scrub :: "string list" where
  "parameters_to_not_scrub = [''xattr_user'']"

definition parameter_should_not_be_scrubbed :: "byte list \<Rightarrow> bool" where
  "parameter_should_not_be_scrubbed str =
     list_ex (\<lambda>p. prefix (bytes_of_string p) str) parameters_to_not_scrub"

definition parameter_should_be_scrubbed :: "byte list \<Rightarrow> bool" where
  "parameter_should_be_scrubbed str =
     list_ex (\<lambda>p. prefix (bytes_of_string p) str \<and> \<not> parameter_should_not_be_scrubbed str) parameters_to_scrub"

text \<open>The loop over the options: \<open>cur\<close>, \<open>first\<close>, the position of \<open>temp_end\<close>, and the buffer \<open>temp\<close>.\<close>

function strip_loop :: "byte list \<Rightarrow> bool \<Rightarrow> nat \<Rightarrow> byte list \<Rightarrow> byte list option" where
  "strip_loop cur first pos temp =
     (let tok = takeWhile (\<lambda>b. b \<noteq> 44) cur;
          next = dropWhile (\<lambda>b. b \<noteq> 44) cur
      in if parameter_should_be_scrubbed tok
         then (if next = [] then Some temp else strip_loop (tl next) first pos temp)
         else do {
           (temp, pos) \<leftarrow> (if first then Some (temp, pos)
                          else map_option (\<lambda>t. (t, pos + 1)) (wr_bytes temp pos [44]));
           temp \<leftarrow> wr_bytes temp pos tok;
           if next = [] then Some temp else strip_loop (tl next) False (pos + length tok) temp })"
  by pat_completeness auto
termination
proof (relation "measure (\<lambda>(cur, _, _, _). length cur)", goal_cases)
  case 1
  show ?case by simp
next
  case (2 cur first pos temp x xa)
  have "length (dropWhile (\<lambda>b. b \<noteq> 44) cur) \<le> length cur" by (rule length_dropWhile_le)
  then show ?case using 2 by (cases cur) auto
next
  case (3 cur first pos temp x xa z xb y zz)
  have "length (dropWhile (\<lambda>b. b \<noteq> 44) cur) \<le> length cur" by (rule length_dropWhile_le)
  then show ?case using 3 by (cases cur) auto
qed

declare strip_loop.simps [simp del]

definition strip_userland_opts ::
  "byte list option \<Rightarrow> schedule \<Rightarrow> ((int \<times> byte list option) \<times> schedule) option" where
  "strip_userland_opts options mem =
     (case options of
        None \<Rightarrow> Some ((0, None), mem)
      | Some opts \<Rightarrow>
          (case malloc_ok mem of
             (False, mem) \<Rightarrow> Some ((-1, Some opts), mem)
           | (True, mem) \<Rightarrow> do {
               temp \<leftarrow> strip_loop opts True 0 (replicate (length opts + 1) 0);
               opts \<leftarrow> c_string temp;
               Some ((0, Some opts), mem) }))"

text \<open>
  \<open>opts_str_contains_option\<close>: the code after its \<open>continue\<close> is not reached.
\<close>

function opts_loop :: "byte list \<Rightarrow> byte list \<Rightarrow> bool" where
  "opts_loop opt option =
     (let next = dropWhile (\<lambda>b. b \<noteq> 44) opt in
      if prefix option opt then True else if next = [] then False else opts_loop (tl next) option)"
  by pat_completeness auto
termination
proof (relation "measure (length \<circ> fst)", goal_cases)
  case 1
  show ?case by simp
next
  case (2 opt option x)
  have "length (dropWhile (\<lambda>b. b \<noteq> 44) opt) \<le> length opt" by (rule length_dropWhile_le)
  then show ?case using 2 by (cases opt) auto
qed

declare opts_loop.simps [simp del]

definition opts_str_contains_option :: "byte list option \<Rightarrow> string \<Rightarrow> bool" where
  "opts_str_contains_option options option =
     (case options of None \<Rightarrow> False | Some opts \<Rightarrow> opts_loop opts (bytes_of_string option))"

definition required_mount_opts :: "string list" where
  "required_mount_opts = [''ecryptfs_key_bytes='']"

definition ecryptfs_validate_mount_opts :: "byte list option \<Rightarrow> int" where
  "ecryptfs_validate_mount_opts opts =
     (if list_all (opts_str_contains_option opts) required_mount_opts then 0 else - EINVAL)"

subsection \<open>The signature cache\<close>

type_synonym answers = "(int \<times> byte list option) list"

text \<open>
  A question with the answers yes and no, at most \<open>n\<close> times: the status of a failed read, or
  the last answer.
\<close>

fun ask_yes_no :: "nat \<Rightarrow> answers \<Rightarrow> ((int + byte list) \<times> answers) option" where
  "ask_yes_no 0 inputs = None"
| "ask_yes_no (Suc n) [] = Some (Inl (- EIO), [])"
| "ask_yes_no (Suc n) ((rc, v) # inputs) =
     (if rc \<noteq> 0 then Some (Inl rc, inputs)
      else do {
        a \<leftarrow> v;
        if a = bytes_of_string ''yes'' \<or> a = bytes_of_string ''no'' \<or> n = 0 then Some (Inr a, inputs)
        else ask_yes_no n inputs })"

definition sig_cache_name :: "string \<Rightarrow> string" where
  "sig_cache_name home = home @ ''/.ecryptfs/sig-cache.txt''"

text \<open>
  \<open>process_sig\<close>: the directory is made and given to the user, whether that works or not. The
  status of a question that was not answered with yes is overwritten by \<open>ECANCELED\<close>.
\<close>

definition process_sig ::
  "io \<Rightarrow> string \<Rightarrow> byte list \<Rightarrow> files \<Rightarrow> answers \<Rightarrow> schedule
   \<Rightarrow> (int \<times> files \<times> answers \<times> schedule) option" where
  "process_sig io home sig files inputs mem =
     (case mallocs 2 mem of
        (False, mem) \<Rightarrow> Some (- ENOMEM, files, inputs, mem)
      | (True, mem) \<Rightarrow> do {
          (rc, flags) \<leftarrow> ecryptfs_check_sig io files (sig @ [0]) (sig_cache_name home) 0;
          if rc \<noteq> 0 \<or> flags AND 1 = 0 then Some (rc, files, inputs, mem)
          else do {
            (r, inputs) \<leftarrow> ask_yes_no 5 inputs;
            (case r of
               Inl rc \<Rightarrow> Some (rc, files, inputs, mem)
             | Inr a \<Rightarrow>
                 if a \<noteq> bytes_of_string ''yes'' then Some (ECANCELED, files, inputs, mem)
                 else do {
                   (r, inputs) \<leftarrow> ask_yes_no 5 inputs;
                   (case r of
                      Inl rc \<Rightarrow> Some (rc, files, inputs, mem)
                    | Inr a \<Rightarrow>
                        if a = bytes_of_string ''yes'' then do {
                          (rc, files) \<leftarrow> ecryptfs_append_sig io files (sig @ [0]) (sig_cache_name home);
                          Some (rc, files, inputs, mem) }
                        else Some (if a \<noteq> bytes_of_string ''no'' then - EINVAL else 0, files, inputs, mem)) }) } })"

subsection \<open>The call of the mount program\<close>

datatype wait_result = Wait_Failed int | Exited nat | Signalled

record bin_mount = mc_source :: "byte list"
  mc_target :: "byte list"
  mc_options :: "byte list"

text \<open>
  \<open>realpath\<close> and \<open>fork\<close> with their error numbers, and how \<open>/bin/mount\<close> with these arguments ends.
\<close>

record mount_sys =
  ms_realpath :: "byte list \<Rightarrow> int + byte list"
  ms_fork :: "int + unit"
  ms_wait :: "bin_mount \<Rightarrow> wait_result"

definition ecryptfs_mount ::
  "mount_sys \<Rightarrow> byte list option \<Rightarrow> byte list option \<Rightarrow> byte list \<Rightarrow> int \<times> bin_mount option" where
  "ecryptfs_mount sys source target opts =
     (case (source, target) of
        (Some source, Some target) \<Rightarrow>
          (case ms_realpath sys source of
             Inl e \<Rightarrow> (- e, None)
           | Inr s \<Rightarrow>
               (case ms_realpath sys target of
                  Inl e \<Rightarrow> (- e, None)
                | Inr t \<Rightarrow>
                    (case ms_fork sys of
                       Inl e \<Rightarrow> (- e, None)
                     | Inr _ \<Rightarrow>
                         let c = \<lparr>mc_source = s, mc_target = t, mc_options = opts\<rparr>;
                             rc = (case ms_wait sys c of
                                     Wait_Failed e \<Rightarrow> - e
                                   | Exited n \<Rightarrow> if - int n = - EPIPE then - EPERM else - int n
                                   | Signalled \<Rightarrow> - EPERM)
                         in (rc, Some c))))
      | _ \<Rightarrow> (- EINVAL, None))"

text \<open>
  The loop over the mount options in \<open>ecryptfs_do_mount\<close>: each is put before the option string,
  unless it occurs in it. A comparison with 13 bytes of a shorter option reads beyond it.
\<close>

fun collect_opts ::
  "io \<Rightarrow> string \<Rightarrow> bool \<Rightarrow> byte list option list \<Rightarrow> byte list option \<Rightarrow> files \<Rightarrow> answers \<Rightarrow> schedule
   \<Rightarrow> ((int \<times> byte list option) \<times> files \<times> answers \<times> schedule) option" where
  "collect_opts io home sig_cache [] temp files inputs mem = Some ((0, temp), files, inputs, mem)"
| "collect_opts io home sig_cache (None # vals) temp files inputs mem = Some ((0, temp), files, inputs, mem)"
| "collect_opts io home sig_cache (Some val # vals) temp files inputs mem = do {
     (rc, files, inputs, mem) \<leftarrow>
       (if \<not> sig_cache then Some (0, files, inputs, mem)
        else if length val + 1 < 13 then None
        else if take 13 val = bytes_of_string ''ecryptfs_sig=''
        then process_sig io home (drop 13 val) files inputs mem
        else Some (0, files, inputs, mem));
     if rc \<noteq> 0 then Some ((rc, temp), files, inputs, mem)
     else (case temp of
        None \<Rightarrow>
          (case malloc_ok mem of
             (False, mem) \<Rightarrow> Some ((- ENOMEM, None), files, inputs, mem)
           | (True, mem) \<Rightarrow> collect_opts io home sig_cache vals (Some val) files inputs mem)
      | Some t \<Rightarrow>
          if sublist val t then collect_opts io home sig_cache vals (Some t) files inputs mem
          else (case malloc_ok mem of
             (False, mem) \<Rightarrow> Some ((- ENOMEM, None), files, inputs, mem)
           | (True, mem) \<Rightarrow>
               collect_opts io home sig_cache vals (Some (val @ (if t = [] then [] else 44 # t))) files inputs mem)) }"

text \<open>What the helper uses of the system, besides what the module manager uses.\<close>

record helper_env =
  he_io :: io
  he_sys :: mount_sys
  he_mlockall :: int
  he_home :: "string option"
  he_mtab :: "int + mntent list"
  he_mtab2 :: "int + mntent list"
  he_open :: "byte list \<Rightarrow> int + byte list"
  he_modprobe :: bool
  he_reopened :: "byte list \<Rightarrow> int + byte list"
  he_read_ok :: bool
  he_keyctl_link :: int

definition ecryptfs_do_mount ::
  "helper_env \<Rightarrow> string \<Rightarrow> byte list list \<Rightarrow> byte list option list \<Rightarrow> bool \<Rightarrow> files \<Rightarrow> answers \<Rightarrow> schedule
   \<Rightarrow> (int \<times> bin_mount option \<times> files) option" where
  "ecryptfs_do_mount env home argv mnt_params sig_cache files inputs mem = do {
     ((rc, src, targ, opts), mem) \<leftarrow> parse_arguments True argv mem;
     if rc \<noteq> 0 then Some (rc, None, files)
     else do {
       ((rc, opts), mem) \<leftarrow> strip_userland_opts opts mem;
       if rc \<noteq> 0 then Some (rc, None, files)
       else (case malloc_ok mem of
          (False, mem) \<Rightarrow> Some (- ENOMEM, None, files)
        | (True, mem) \<Rightarrow>
            (case stack_push (Some (bytes_of_string ''ecryptfs_unlink_sigs'')) mnt_params mem of
               (rc, mnt_params, mem) \<Rightarrow>
                 if rc \<noteq> 0 then Some (rc, None, files)
                 else do {
                   ((rc, new_opts), files, inputs, mem) \<leftarrow>
                      collect_opts (he_io env) home sig_cache mnt_params opts files inputs mem;
                   if rc \<noteq> 0 then Some (rc, None, files)
                   else if ecryptfs_validate_mount_opts new_opts \<noteq> 0
                   then Some (ecryptfs_validate_mount_opts new_opts, None, files)
                   else do {
                     new_opts \<leftarrow> new_opts;
                     (case ecryptfs_mount (he_sys env) src targ new_opts of
                        (rc, call) \<Rightarrow> Some (rc, call, files)) } })) } }"

subsection \<open>The program\<close>

text \<open>The library as the process starts, with the keyring \<open>keys\<close> and the answers of the user.\<close>

definition helper_state :: "'k \<Rightarrow> answers \<Rightarrow> schedule \<Rightarrow> ('x, 'k) mgr_state" where
  "helper_state keys inputs mem = \<lparr>es_graph = static_graph, es_nvps = [], es_mnt_params = [None],
     es_foo = None, es_ctx = \<lparr>lc_key_mods = [], lc_num_param_vals = (\<lambda>_. 0), lc_keys = keys\<rparr>,
     es_verbosity = 0, es_get_string = True, es_inputs = inputs, es_repeated = 0, es_lastnode = None,
     es_mem = mem\<rparr>"

text \<open>The options and whether the signature cache is consulted, from the option string.\<close>

definition adjust_opts :: "byte list option \<Rightarrow> schedule \<Rightarrow> (int \<times> byte list option \<times> bool) \<times> schedule" where
  "adjust_opts opts_str mem =
     (let sig_cache = (\<not> opts_str_contains_option opts_str ''no_sig_cache'');
          quiet = opts_str_contains_option opts_str ''no_prompt'' \<or> opts_str_contains_option opts_str ''wild_ass_guess'';
          (rc, opts_str, mem) =
            (if quiet \<and> \<not> opts_str_contains_option opts_str ''verbosity=0'' then
               (case malloc_ok mem of
                  (False, mem) \<Rightarrow> (- ENOMEM, opts_str, mem)
                | (True, mem) \<Rightarrow> (0, map_option (\<lambda>o'. o' @ bytes_of_string '',verbosity=0'') opts_str, mem))
             else (0, opts_str, mem));
          sig_cache = (if opts_str_contains_option opts_str ''verbosity=0'' then False else sig_cache)
      in ((rc, opts_str, sig_cache), mem))"

text \<open>
  The part of \<open>main\<close> from the first reading of the arguments on: the status of the process, the
  call of \<open>/bin/mount\<close> if one was made, the keyring and the files. \<open>Some None\<close> when the
  evaluation of the graph is cut off by its bound.
\<close>

definition evaluate_and_mount ::
  "helper_env \<Rightarrow> ('x, 'k) mgr_env \<Rightarrow> nat \<Rightarrow> nat \<Rightarrow> string \<Rightarrow> byte list list \<Rightarrow> u32 \<Rightarrow> 'k \<Rightarrow> files \<Rightarrow> byte list \<Rightarrow> schedule
   \<Rightarrow> (int \<times> bin_mount option \<times> 'k \<times> files) option option" where
  "evaluate_and_mount env menv depth fuel home argv version keys files stdin mem = do {
     ((rc, _, _, opts_str), mem) \<leftarrow> parse_arguments False argv mem;
     if rc \<noteq> 0 then Some (Some (rc, None, keys, files))
     else if opts_str_contains_option opts_str ''remount''
     then Some (Some (- EINVAL, None, keys, files))
     else (case adjust_opts opts_str mem of
        ((rc, opts_str, sig_cache), mem) \<Rightarrow>
          if rc \<noteq> 0 then Some (Some (rc, None, keys, files))
          else do {
            r \<leftarrow> ecryptfs_process_decision_graph menv depth fuel version opts_str False
                   (helper_state keys (stdin_answers stdin) mem);
            (case r of
               None \<Rightarrow> Some None
             | Some (rc, st) \<Rightarrow>
                 if rc \<noteq> 0 then
                   Some (Some (if 0 < rc then - EINVAL else rc, None, lc_keys (es_ctx st), files))
                 else do {
                   (rc, call, files) \<leftarrow> ecryptfs_do_mount env home argv (es_mnt_params st) sig_cache
                      files (es_inputs st) (es_mem st);
                   Some (Some (if rc = ECANCELED then 0 else if 0 < rc then - rc else rc,
                     call, lc_keys (es_ctx st), files)) }) }) }"

text \<open>
  The program. Without a version of the kernel module it goes on with the flag of passphrases
  alone; the head of the mount options is cleared through a pointer that may be null.
\<close>

definition mount_helper_main ::
  "helper_env \<Rightarrow> ('x, 'k) mgr_env \<Rightarrow> nat \<Rightarrow> nat \<Rightarrow> byte list list \<Rightarrow> 'k \<Rightarrow> files \<Rightarrow> byte list \<Rightarrow> schedule
   \<Rightarrow> (int \<times> bin_mount option \<times> 'k \<times> files) option option" where
  "mount_helper_main env menv depth fuel argv keys files stdin mem =
     (if he_mlockall env \<noteq> 0 then Some (Some (-1, None, keys, files))
      else (case he_home env of
         None \<Rightarrow> Some (Some (- EIO, None, keys, files))
       | Some home \<Rightarrow>
           if length argv < 3 then Some (Some (- EINVAL, None, keys, files))
           else do {
             (rc, version, mem) \<leftarrow> ecryptfs_get_version (me_junk menv) (he_mtab env) (he_mtab2 env) (he_open env)
                (he_modprobe env) (he_reopened env) (he_read_ok env) mem;
             version \<leftarrow> (if rc \<noteq> 0 then Some 1 else version);
             if ecryptfs_validate_keyring (he_keyctl_link env) \<noteq> 0
             then Some (Some (ecryptfs_validate_keyring (he_keyctl_link env), None, keys, files))
             else (case malloc_ok mem of
                (False, mem) \<Rightarrow> None
              | (True, mem) \<Rightarrow> evaluate_and_mount env menv depth fuel home argv version keys files stdin mem) }))"

subsection \<open>The options that are kept\<close>

lemma split_commas_step:
  "split_commas cur = takeWhile (\<lambda>b. b \<noteq> 44) cur
     # (if dropWhile (\<lambda>b. b \<noteq> 44) cur = [] then [] else split_commas (tl (dropWhile (\<lambda>b. b \<noteq> 44) cur)))"
  by (induction cur) auto

lemma split_commas_set: "t \<in> set (split_commas opts) \<Longrightarrow> set t \<subseteq> set opts"
proof (induction opts arbitrary: t)
  case (Cons b bs)
  show ?case
  proof (cases "b = 44")
    case True
    then show ?thesis using Cons by (cases "t = []") auto
  next
    case False
    obtain f fs where f: "split_commas bs = f # fs" using split_commas_nonempty [of bs] by (cases "split_commas bs") auto
    then show ?thesis using Cons.prems False Cons.IH [of f] Cons.IH [of t] by (auto split: if_splits)
  qed
qed simp

lemma join_with_Cons: "join_with c (t # ts) = t @ (if ts = [] then [] else c # join_with c ts)"
  by (cases ts) auto

lemma join_with_set: "set (join_with c ts) \<subseteq> insert c (\<Union>x \<in> set ts. set x)"
  by (induction ts) (auto simp: join_with_Cons split: if_splits)

definition kept_opts :: "byte list \<Rightarrow> byte list list" where
  "kept_opts opts = filter (\<lambda>t. \<not> parameter_should_be_scrubbed t) (split_commas opts)"

lemma kept_opts_step:
  "kept_opts cur = (let tok = takeWhile (\<lambda>b. b \<noteq> 44) cur; next = dropWhile (\<lambda>b. b \<noteq> 44) cur;
     rest = (if next = [] then [] else kept_opts (tl next))
   in if parameter_should_be_scrubbed tok then rest else tok # rest)"
proof -
  have "kept_opts cur = filter (\<lambda>t. \<not> parameter_should_be_scrubbed t) (takeWhile (\<lambda>b. b \<noteq> 44) cur
     # (if dropWhile (\<lambda>b. b \<noteq> 44) cur = [] then [] else split_commas (tl (dropWhile (\<lambda>b. b \<noteq> 44) cur))))"
    unfolding kept_opts_def by (rule arg_cong [OF split_commas_step])
  then show ?thesis unfolding kept_opts_def Let_def by auto
qed

lemma wr_bytes_zeros:
  "length bs \<le> k \<Longrightarrow> wr_bytes (acc @ replicate k 0) (length acc) bs = Some (acc @ bs @ replicate (k - length bs) 0)"
  by (simp add: wr_bytes_def)

definition sep_text :: "bool \<Rightarrow> byte list list \<Rightarrow> byte list" where
  "sep_text first ts = (if ts = [] then [] else (if first then [] else [44]) @ join_with 44 ts)"

lemma strip_loop_kept:
  "length cur + (if first then 0 else 1) < k \<Longrightarrow>
   strip_loop cur first (length acc) (acc @ replicate k 0)
     = Some (acc @ sep_text first (kept_opts cur) @ replicate (k - length (sep_text first (kept_opts cur))) 0)
   \<and> length (sep_text first (kept_opts cur)) < k"
proof (induction "length cur" arbitrary: cur first acc k rule: less_induct)
  case less
  note dropWhile_eq_Nil_conv [simp del]
  let ?P = "\<lambda>b. b \<noteq> (44 :: byte)"
  let ?tok = "takeWhile ?P cur" and ?next = "dropWhile ?P cur"
  let ?rest = "if ?next = [] then [] else kept_opts (tl ?next)"
  have len: "length cur = length ?tok + length ?next"
    by (metis length_append takeWhile_dropWhile_id)
  have tl: "?next \<noteq> [] \<Longrightarrow> length (tl ?next) < length ?next" by (cases ?next) auto
  have shorter: "?next \<noteq> [] \<Longrightarrow> length (tl ?next) < length cur" using tl len by linarith
  show ?case
  proof (cases "parameter_should_be_scrubbed ?tok")
    case True
    then have k: "kept_opts cur = ?rest" unfolding kept_opts_step [of cur] Let_def by simp
    show ?thesis
    proof (cases "?next = []")
      case True
      then show ?thesis using \<open>parameter_should_be_scrubbed ?tok\<close> less.prems k
        unfolding strip_loop.simps [of cur] Let_def by (simp add: sep_text_def)
    next
      case False
      then have "length (tl ?next) + (if first then 0 else 1) < k" using less.prems shorter by linarith
      from less.hyps [OF shorter [OF False] this, of acc] False show ?thesis
        using \<open>parameter_should_be_scrubbed ?tok\<close> k unfolding strip_loop.simps [of cur] Let_def by simp
    qed
  next
    case False
    let ?sep = "if first then [] else [44 :: byte]"
    let ?acc = "acc @ ?sep @ ?tok" and ?k = "k - length ?sep - length ?tok"
    from False have k: "kept_opts cur = ?tok # ?rest" unfolding kept_opts_step [of cur] Let_def by simp
    have fit: "length ?sep + length ?tok < k" "?next \<noteq> [] \<Longrightarrow> length (tl ?next) + 1 < ?k"
      using less.prems len by (force, use less.prems len tl in force)
    have w: "(if first then Some (acc @ replicate k 0, length acc)
        else map_option (\<lambda>t. (t, length acc + 1)) (wr_bytes (acc @ replicate k 0) (length acc) [44]))
      = Some ((acc @ ?sep) @ replicate (k - length ?sep) 0, length (acc @ ?sep))"
      using fit(1) wr_bytes_zeros [of "[44]" k acc] by auto
    have w2: "wr_bytes ((acc @ ?sep) @ replicate (k - length ?sep) 0) (length (acc @ ?sep)) ?tok
      = Some (?acc @ replicate ?k 0)"
      using fit(1) wr_bytes_zeros [of ?tok "k - length ?sep" "acc @ ?sep"] by simp
    have t: "sep_text first (?tok # ?rest) = ?sep @ ?tok @ sep_text False ?rest"
      by (simp add: sep_text_def join_with_Cons)
    have e: "strip_loop cur first (length acc) (acc @ replicate k 0)
      = (if ?next = [] then Some (?acc @ replicate ?k 0) else strip_loop (tl ?next) False (length ?acc) (?acc @ replicate ?k 0))"
      unfolding strip_loop.simps [of cur] Let_def using False w w2 by (simp add: add.assoc)
    show ?thesis
    proof (cases "?next = []")
      case True
      then show ?thesis using e k t fit(1) by (auto simp: sep_text_def)
    next
      case nx: False
      then have "strip_loop (tl ?next) False (length ?acc) (?acc @ replicate ?k 0)
         = Some (?acc @ sep_text False ?rest @ replicate (?k - length (sep_text False ?rest)) 0)
       \<and> length (sep_text False ?rest) < ?k"
        using less.hyps [OF shorter [OF nx], of False ?k ?acc] fit(2) [OF nx] by (simp only: if_False)
      then show ?thesis using e k t nx by (auto simp: diff_diff_add)
    qed
  qed
qed

lemma strip_userland_opts_text:
  assumes "0 \<notin> set opts"
  shows "strip_loop opts True 0 (replicate (length opts + 1) 0) \<bind> c_string = Some (join_with 44 (kept_opts opts))"
proof -
  let ?t = "sep_text True (kept_opts opts)"
  have t: "?t = join_with 44 (kept_opts opts)" by (simp add: sep_text_def)
  have 1: "strip_loop opts True 0 (replicate (length opts + 1) 0) = Some (?t @ replicate (length opts + 1 - length ?t) 0)"
    "length ?t < length opts + 1"
    using strip_loop_kept [of opts True "length opts + 1" "[]"] by simp_all
  have "0 \<notin> set ?t"
  proof
    assume "0 \<in> set ?t"
    then obtain x where "x \<in> set (kept_opts opts)" "0 \<in> set x"
      using join_with_set [of 44 "kept_opts opts"] unfolding t by auto
    then show False using assms split_commas_set [of x opts] by (auto simp: kept_opts_def)
  qed
  then have "c_string (?t @ replicate (length opts + 1 - length ?t) 0) = Some ?t"
    using c_string_append [of ?t "replicate (length opts - length ?t) 0"] 1(2) by (simp add: Suc_diff_le)
  with 1(1) show ?thesis by (simp add: t)
qed

text \<open>
  \<open>strip_userland_opts\<close> writes within its buffer, and leaves of the option string exactly the
  options that are not to be kept from the kernel, in their order.
\<close>

theorem strip_userland_opts_filters:
  assumes "0 \<notin> set opts"
  shows "strip_userland_opts (Some opts) [] = Some ((0, Some (join_with 44 (kept_opts opts))), [])"
  using strip_userland_opts_text [OF assms] by (auto simp: strip_userland_opts_def bind_eq_Some_conv)

theorem strip_userland_opts_filters_witness:
  "strip_userland_opts (Some (bytes_of_string ''rw,key=passphrase,verbosity=0,passphrase_passwd=abc'')) []
     = Some ((0, Some (bytes_of_string ''rw,passphrase_passwd=abc'')), [])"
proof -
  let ?o = "bytes_of_string ''rw,key=passphrase,verbosity=0,passphrase_passwd=abc''"
  have z: "0 \<notin> set ?o" by (simp add: bytes_of_string_def)
  have "join_with 44 (kept_opts ?o) = bytes_of_string ''rw,passphrase_passwd=abc''" by code_simp
  with strip_userland_opts_filters [OF z] show ?thesis by simp
qed

lemma prefix_before_comma: "44 \<notin> set p \<Longrightarrow> prefix p (t @ 44 # r) = prefix p t" for p :: "byte list"
  by (auto simp: prefix_append prefix_Cons)

lemma opts_loop_split:
  "44 \<notin> set p \<Longrightarrow> opts_loop opts p \<longleftrightarrow> (\<exists>t \<in> set (split_commas opts). prefix p t)"
proof (induction "length opts" arbitrary: opts rule: less_induct)
  case less
  note dropWhile_eq_Nil_conv [simp del]
  let ?P = "\<lambda>b. b \<noteq> (44 :: byte)"
  let ?tok = "takeWhile ?P opts" and ?next = "dropWhile ?P opts"
  have o: "?tok @ ?next = opts" by simp
  show ?case
  proof (cases "?next = []")
    case True
    then have "?tok = opts" using o by simp
    note takeWhile_eq_all_conv [simp del]
    show ?thesis using True \<open>?tok = opts\<close> unfolding opts_loop.simps [of opts] split_commas_step [of opts] Let_def by simp
  next
    case False
    then obtain r where r: "?next = 44 # r" using hd_dropWhile [of ?P opts] by (cases ?next) auto
    have "opts = ?tok @ 44 # r" using o r by simp
    then have "prefix p opts = prefix p ?tok" using prefix_before_comma [OF less.prems, of ?tok r] by simp
    moreover have "length r < length opts" using \<open>opts = ?tok @ 44 # r\<close>
      by (metis add_Suc_right length_Cons length_append less_add_Suc2)
    ultimately show ?thesis
      using less.hyps [of r] less.prems r unfolding opts_loop.simps [of opts] split_commas_step [of opts] Let_def by simp
  qed
qed

subsection \<open>The option string of the mount\<close>

text \<open>The mount options up to the null pointer at the bottom of the stack, put before the option string.\<close>

fun given_vals :: "byte list option list \<Rightarrow> byte list list" where
  "given_vals (Some v # vs) = v # given_vals vs"
| "given_vals _ = []"

definition add_opt :: "byte list \<Rightarrow> byte list option \<Rightarrow> byte list option" where
  "add_opt v temp = (case temp of
     None \<Rightarrow> Some v
   | Some t \<Rightarrow> if sublist v t then Some t else Some (v @ (if t = [] then [] else 44 # t)))"

lemma collect_opts_fold:
  "collect_opts io home False vals temp files inputs []
     = Some ((0, fold add_opt (given_vals vals) temp), files, inputs, [])"
  by (induction vals arbitrary: temp rule: given_vals.induct) (auto simp: add_opt_def split: option.splits)

text \<open>Whatever the signature cache and allocations do: what is collected without an error is the same.\<close>

lemma collect_opts_result:
  "collect_opts io home sig_cache vals temp files inputs mem = Some ((0, o'), files', inputs', mem') \<Longrightarrow>
   o' = fold add_opt (given_vals vals) temp"
proof (induction vals arbitrary: temp files inputs mem rule: given_vals.induct)
  case (1 v vs)
  obtain rc files1 inputs1 mem1 where p: "(if \<not> sig_cache then Some (0, files, inputs, mem)
        else if length v + 1 < 13 then None
        else if take 13 v = bytes_of_string ''ecryptfs_sig='' then process_sig io home (drop 13 v) files inputs mem
        else Some (0, files, inputs, mem)) = Some (rc, files1, inputs1, mem1)"
    using "1.prems" by (auto simp: bind_eq_Some_conv)
  have rc: "rc = 0" using "1.prems" p by (auto split: if_splits)
  obtain ok mem2 where m: "malloc_ok mem1 = (ok, mem2)" by fastforce
  show ?case
  proof (cases temp)
    case None
    then have "collect_opts io home sig_cache vs (Some v) files1 inputs1 mem2 = Some ((0, o'), files', inputs', mem')"
      using "1.prems" p rc m by (cases ok) auto
    then show ?thesis using "1.IH" None by (simp add: add_opt_def)
  next
    case (Some t)
    show ?thesis
    proof (cases "sublist v t")
      case True
      then have "collect_opts io home sig_cache vs (Some t) files1 inputs1 mem1 = Some ((0, o'), files', inputs', mem')"
        using "1.prems" p rc Some by simp
      then show ?thesis using "1.IH" Some True by (simp add: add_opt_def)
    next
      case False
      then have "collect_opts io home sig_cache vs (Some (v @ (if t = [] then [] else 44 # t))) files1 inputs1 mem2
          = Some ((0, o'), files', inputs', mem')"
        using "1.prems" p rc m Some by (cases ok) auto
      then show ?thesis using "1.IH" Some False by (simp add: add_opt_def)
    qed
  qed
qed auto

lemma copy_arg_string: "0 \<notin> set a \<Longrightarrow> c_string (copy_arg a) = Some a"
  using c_string_append [of a "[]"] by (simp add: copy_arg_def Let_def nth_append)

lemma strip_userland_opts_result:
  assumes "strip_userland_opts options mem = Some ((0, o'), mem')" and "case options of None \<Rightarrow> True | Some o'' \<Rightarrow> 0 \<notin> set o''"
  shows "o' = map_option (\<lambda>o''. join_with 44 (kept_opts o'')) options"
proof (cases options)
  case (Some opts)
  obtain ok m where m: "malloc_ok mem = (ok, m)" by fastforce
  have "0 \<notin> set opts" using assms(2) Some by simp
  note strip_userland_opts_filters' = strip_userland_opts_text [OF this]
  show ?thesis using assms(1) m Some strip_userland_opts_filters'
    by (cases ok) (auto simp: strip_userland_opts_def bind_eq_Some_conv)
qed (use assms(1) in \<open>simp add: strip_userland_opts_def\<close>)

lemma parse_arguments_result:
  assumes "parse_arguments True argv mem = Some ((0, src, targ, opts), mem')" and "3 \<le> length argv"
    and "\<forall>a \<in> set argv. 0 \<notin> set a"
  shows "src = Some (argv ! 1) \<and> targ = Some (argv ! 2) \<and> opts = find_opts (drop 3 argv)"
proof -
  have a: "c_string (copy_arg (argv ! 1)) = Some (argv ! 1)" "c_string (copy_arg (argv ! 2)) = Some (argv ! 2)"
    using assms(2,3) by (auto intro!: copy_arg_string)
  obtain ok1 m1 where 1: "malloc_ok mem = (ok1, m1)" by fastforce
  obtain ok2 m2 where 2: "malloc_ok m1 = (ok2, m2)" by fastforce
  obtain ok3 m3 where 3: "malloc_ok m2 = (ok3, m3)" by fastforce
  show ?thesis
    using assms(1,2) a 1 2 3
    by (cases ok1; cases ok2; cases ok3; cases "find_opts (drop 3 argv)") (auto simp: parse_arguments_def)
qed

lemma find_opts_in: "find_opts args = Some o' \<Longrightarrow> o' \<in> set args"
  by (induction args rule: find_opts.induct) (auto split: if_splits)

text \<open>The option string that goes to \<open>/bin/mount\<close>.\<close>

definition mount_text :: "byte list list \<Rightarrow> byte list option list \<Rightarrow> byte list option" where
  "mount_text argv vals = fold add_opt (bytes_of_string ''ecryptfs_unlink_sigs'' # given_vals vals)
     (map_option (\<lambda>o'. join_with 44 (kept_opts o')) (find_opts (drop 3 argv)))"

lemma do_mount_call:
  assumes "ecryptfs_do_mount env home argv vals sig_cache files inputs mem = Some (rc, Some c, files')"
    and "3 \<le> length argv" and "\<forall>a \<in> set argv. 0 \<notin> set a"
  shows "ms_realpath (he_sys env) (argv ! 1) = Inr (mc_source c) \<and> ms_realpath (he_sys env) (argv ! 2) = Inr (mc_target c)
    \<and> mount_text argv vals = Some (mc_options c) \<and> ecryptfs_validate_mount_opts (Some (mc_options c)) = 0"
proof -
  obtain rc1 src targ opts mem1 where 1: "parse_arguments True argv mem = Some ((rc1, src, targ, opts), mem1)"
    using assms(1) by (auto simp: ecryptfs_do_mount_def bind_eq_Some_conv)
  have rc1: "rc1 = 0" using assms(1) 1 by (auto simp: ecryptfs_do_mount_def split: if_splits)
  note a = parse_arguments_result [OF 1 [unfolded rc1] assms(2,3)]
  note u1 = assms(1) [unfolded ecryptfs_do_mount_def 1 rc1, simplified]
  obtain rc2 o2 mem2 where 2: "strip_userland_opts opts mem1 = Some ((rc2, o2), mem2)"
    using u1 by (auto simp: bind_eq_Some_conv)
  have rc2: "rc2 = 0" using u1 2 by (auto split: if_splits)
  have "case opts of None \<Rightarrow> True | Some o'' \<Rightarrow> 0 \<notin> set o''"
    using a assms(3) by (auto split: option.splits dest!: find_opts_in in_set_dropD)
  note o2 = strip_userland_opts_result [OF 2 [unfolded rc2] this]
  note u2 = u1 [unfolded 2 rc2, simplified]
  obtain ok3 mem3 where 3: "malloc_ok mem2 = (ok3, mem3)" by fastforce
  have ok3: "ok3 = True" using u2 3 by (cases ok3) auto
  obtain rc4 vals4 mem4 where 4: "stack_push (Some (bytes_of_string ''ecryptfs_unlink_sigs'')) vals mem3 = (rc4, vals4, mem4)"
    by (metis surj_pair)
  have rc4: "rc4 = 0" using u2 3 ok3 4 by (auto split: if_splits)
  then have v4: "vals4 = Some (bytes_of_string ''ecryptfs_unlink_sigs'') # vals"
    using 4 by (auto simp: stack_push_def split: prod.splits bool.splits)
  note u4 = u2 [unfolded 3 ok3, simplified, unfolded 4 rc4, simplified]
  obtain rc5 o5 files5 inputs5 mem5 where 5: "collect_opts (he_io env) home sig_cache vals4 o2 files inputs mem4
      = Some ((rc5, o5), files5, inputs5, mem5)"
    using u4 by (auto simp: bind_eq_Some_conv)
  have rc5: "rc5 = 0" using u4 5 by (auto split: if_splits)
  note o5 = collect_opts_result [OF 5 [unfolded rc5]]
  note u5 = u4 [unfolded 5 rc5, simplified]
  have v: "ecryptfs_validate_mount_opts o5 = 0" using u5 by (auto split: if_splits)
  obtain o6 where o6: "o5 = Some o6" using u5 v by (auto simp: bind_eq_Some_conv split: if_splits)
  have m: "ecryptfs_mount (he_sys env) src targ o6 = (rc, Some c)"
    using u5 v o6 by (auto split: prod.splits)
  then have "mc_options c = o6 \<and> ms_realpath (he_sys env) (argv ! 1) = Inr (mc_source c)
      \<and> ms_realpath (he_sys env) (argv ! 2) = Inr (mc_target c)"
    using a by (auto simp: ecryptfs_mount_def Let_def split: sum.splits)
  moreover have "mount_text argv vals = Some o6"
    using o5 o6 v4 o2 a by (simp add: mount_text_def)
  ultimately show ?thesis using v o6 by simp
qed

subsection \<open>The whole helper\<close>

lemma evaluate_and_mount_call:
  assumes "evaluate_and_mount env menv depth fuel home argv version keys files stdin mem
      = Some (Some (rc, Some c, keys', files'))"
    and "3 \<le> length argv" "\<forall>a \<in> set argv. 0 \<notin> set a"
  obtains opts mem1 st where
    "ecryptfs_process_decision_graph menv depth fuel version opts False (helper_state keys (stdin_answers stdin) mem1)
       = Some (Some (0, st))"
    "lc_keys (es_ctx st) = keys'"
    "ms_realpath (he_sys env) (argv ! 1) = Inr (mc_source c)" "ms_realpath (he_sys env) (argv ! 2) = Inr (mc_target c)"
    "mount_text argv (es_mnt_params st) = Some (mc_options c)"
    "ecryptfs_validate_mount_opts (Some (mc_options c)) = 0"
proof -
  obtain rc4 a4 b4 opts mem4 where 4: "parse_arguments False argv mem = Some ((rc4, a4, b4, opts), mem4)"
    using assms(1) by (auto simp: evaluate_and_mount_def bind_eq_Some_conv)
  note u4 = assms(1) [unfolded evaluate_and_mount_def 4, simplified]
  obtain rc5 o5 sc5 mem5 where 5: "adjust_opts opts mem4 = ((rc5, o5, sc5), mem5)" by (metis surj_pair)
  have rc5: "rc4 = 0" "rc5 = 0" "\<not> opts_str_contains_option opts ''remount''" using u4 5 by (auto split: if_splits)
  note u5 = u4 [unfolded 5 rc5, simplified]
  obtain rc6 st where 6: "ecryptfs_process_decision_graph menv depth fuel version o5 False
      (helper_state keys (stdin_answers stdin) mem5) = Some (Some (rc6, st))"
    using u5 rc5(3) by (auto simp: bind_eq_Some_conv split: option.splits)
  have rc6: "rc6 = 0" using u5 rc5(3) 6 by (auto split: if_splits)
  note u6 = u5 6 rc6 rc5(3)
  obtain rc7 call files7 where 7: "ecryptfs_do_mount env home argv (es_mnt_params st) sc5 files (es_inputs st) (es_mem st)
      = Some (rc7, call, files7)"
    using u6 by (auto simp: bind_eq_Some_conv)
  have 8: "call = Some c" "lc_keys (es_ctx st) = keys'" using u6 7 by auto
  show ?thesis
    by (rule that [OF 6 [unfolded rc6] 8(2)]) (use do_mount_call [OF 7 [unfolded 8(1)] assms(2,3)] in blast)+
qed

lemma helper_calls:
  assumes "mount_helper_main env menv depth fuel argv keys files stdin mem = Some (Some (rc, Some c, keys', files'))"
  obtains home version mem2 where "3 \<le> length argv"
    "evaluate_and_mount env menv depth fuel home argv version keys files stdin mem2 = Some (Some (rc, Some c, keys', files'))"
proof -
  obtain home where home: "he_mlockall env = 0" "he_home env = Some home" "\<not> length argv < 3"
    using assms by (auto simp: mount_helper_main_def split: if_splits option.splits)
  note u1 = assms [unfolded mount_helper_main_def home, simplified]
  obtain rc1 v1 mem1 where 1: "ecryptfs_get_version (me_junk menv) (he_mtab env) (he_mtab2 env) (he_open env)
      (he_modprobe env) (he_reopened env) (he_read_ok env) mem = Some (rc1, v1, mem1)"
    using u1 home(3) by (auto simp: bind_eq_Some_conv)
  obtain ok mem2 where 3: "malloc_ok mem1 = (ok, mem2)" by fastforce
  obtain version where "evaluate_and_mount env menv depth fuel home argv version keys files stdin mem2
      = Some (Some (rc, Some c, keys', files'))"
    using u1 home(3) 1 3 by (cases ok) (auto simp: bind_eq_Some_conv split: if_splits)
  with home(3) show ?thesis by (intro that) simp_all
qed

lemma helper_call:
  assumes "mount_helper_main env menv depth fuel argv keys files stdin mem = Some (Some (rc, Some c, keys', files'))"
    and "\<forall>a \<in> set argv. 0 \<notin> set a"
  obtains version opts mem1 st where
    "ecryptfs_process_decision_graph menv depth fuel version opts False (helper_state keys (stdin_answers stdin) mem1)
       = Some (Some (0, st))"
    "lc_keys (es_ctx st) = keys'"
    "ms_realpath (he_sys env) (argv ! 1) = Inr (mc_source c)" "ms_realpath (he_sys env) (argv ! 2) = Inr (mc_target c)"
    "mount_text argv (es_mnt_params st) = Some (mc_options c)"
    "ecryptfs_validate_mount_opts (Some (mc_options c)) = 0"
  by (rule helper_calls [OF assms(1)]) (erule (1) evaluate_and_mount_call [OF _ _ assms(2)], rule that)

text \<open>
  C7. A call of \<open>/bin/mount\<close> is made only after the decision graph was evaluated without an
  error, with the keyring as that evaluation left it, between the resolved paths of the first
  two arguments. Its options are the mount options of the graph, put before those of the
  command line that do not stay in userspace, and one of them is \<open>ecryptfs_key_bytes\<close>.
\<close>

theorem mount_helper_call:
  assumes "mount_helper_main env menv depth fuel argv keys files stdin mem = Some (Some (rc, Some c, keys', files'))"
    and "\<forall>a \<in> set argv. 0 \<notin> set a"
  shows "\<exists>version opts mem1 st.
    ecryptfs_process_decision_graph menv depth fuel version opts False (helper_state keys (stdin_answers stdin) mem1)
       = Some (Some (0, st)) \<and> lc_keys (es_ctx st) = keys'
    \<and> ms_realpath (he_sys env) (argv ! 1) = Inr (mc_source c) \<and> ms_realpath (he_sys env) (argv ! 2) = Inr (mc_target c)
    \<and> mount_text argv (es_mnt_params st) = Some (mc_options c)
    \<and> (\<exists>t \<in> set (split_commas (mc_options c)). prefix (bytes_of_string ''ecryptfs_key_bytes='') t)"
proof -
  have "44 \<notin> set (bytes_of_string ''ecryptfs_key_bytes='')" by (simp add: bytes_of_string_def)
  note o' = opts_loop_split [OF this, of "mc_options c"]
  have v: "ecryptfs_validate_mount_opts (Some (mc_options c)) = 0
    \<longleftrightarrow> (\<exists>t \<in> set (split_commas (mc_options c)). prefix (bytes_of_string ''ecryptfs_key_bytes='') t)"
    by (simp add: ecryptfs_validate_mount_opts_def required_mount_opts_def opts_str_contains_option_def o')
  show ?thesis by (rule helper_call [OF assms]) (use v in blast)
qed

lemma sublist_tail: "sublist t (v @ c # t)"
  using sublist_append_leftI [of t "v @ [c]"] by simp

lemma add_opt_sublist: "sublist x t \<Longrightarrow> \<exists>t'. add_opt v (Some t) = Some t' \<and> sublist x t'"
proof -
  assume x: "sublist x t"
  have "sublist t (v @ (if t = [] then [] else 44 # t))"
    using sublist_tail [of t v 44] by auto
  then show ?thesis using x sublist_order.order_trans by (fastforce simp: add_opt_def)
qed

lemma fold_add_opt_sublist: "sublist x t \<Longrightarrow> \<exists>t'. fold add_opt vs (Some t) = Some t' \<and> sublist x t'"
proof (induction vs arbitrary: t)
  case (Cons v vs)
  then show ?case using add_opt_sublist [OF Cons.prems, of v] by auto
qed simp

lemma join_with_sublist: "x \<in> set xs \<Longrightarrow> sublist x (join_with c xs)"
proof (induction xs)
  case (Cons y ys)
  show ?case
  proof (cases "x = y")
    case False
    then have "sublist x (join_with c ys)" "ys \<noteq> []" using Cons by auto
    moreover have "sublist (join_with c ys) (y @ c # join_with c ys)"
      by (rule sublist_tail)
    ultimately show ?thesis
      using sublist_order.order_trans [of x "join_with c ys" "y @ c # join_with c ys"] by (simp add: join_with_Cons)
  qed (simp add: join_with_Cons)
qed simp

text \<open>
  C36. An option \<open>passphrase_passwd\<close> of its own on the command line is not among those kept from
  the kernel: the passphrase is part of the options \<open>/bin/mount\<close> is called with.
\<close>

theorem passphrase_option_reaches_mount:
  assumes "mount_helper_main env menv depth fuel argv keys files stdin mem = Some (Some (rc, Some c, keys', files'))"
    and "\<forall>a \<in> set argv. 0 \<notin> set a"
    and "find_opts (drop 3 argv) = Some opts" "bytes_of_string ''passphrase_passwd='' @ p \<in> set (split_commas opts)"
  shows "sublist (bytes_of_string ''passphrase_passwd='' @ p) (mc_options c)"
proof -
  let ?o = "bytes_of_string ''passphrase_passwd='' @ p"
  have "\<not> parameter_should_be_scrubbed ?o"
    by (simp add: parameter_should_be_scrubbed_def parameters_to_scrub_def bytes_of_string_def)
  then have "?o \<in> set (kept_opts opts)" using assms(4) by (simp add: kept_opts_def)
  note s = fold_add_opt_sublist [OF join_with_sublist [OF this, of 44]]
  obtain vals where "mount_text argv vals = Some (mc_options c)" by (rule helper_call [OF assms(1,2)]) blast
  then show ?thesis using s [of "bytes_of_string ''ecryptfs_unlink_sigs'' # given_vals vals"] assms(3)
    unfolding mount_text_def by (auto simp del: fold.simps)
qed

subsection \<open>A mount from end to end\<close>

text \<open>
  What the evaluation gives to the helper, the status and the mount options, decides the rest:
  an error of the evaluation or options without a key size make no call; else \<open>/bin/mount\<close> is
  called, and how it ends is the status.
\<close>

definition exit_status :: "wait_result \<Rightarrow> int" where
  "exit_status w = (case w of
     Wait_Failed e \<Rightarrow> - e
   | Exited n \<Rightarrow> if n = 32 then - EPERM else - int n
   | Signalled \<Rightarrow> - EPERM)"

definition mount_outcome ::
  "mount_sys \<Rightarrow> byte list \<Rightarrow> byte list \<Rightarrow> int \<Rightarrow> byte list \<Rightarrow> int \<times> bin_mount option" where
  "mount_outcome sys source target rc opts =
     (let c = \<lparr>mc_source = source, mc_target = target, mc_options = opts\<rparr> in
      if rc \<noteq> 0 then (if 0 < rc then - EINVAL else rc, None)
      else if \<not> opts_loop opts (bytes_of_string ''ecryptfs_key_bytes='') then (- EINVAL, None)
      else (exit_status (ms_wait sys c), Some c))"

lemma quiet_adjust:
  "opts_str_contains_option (Some opts) ''verbosity=0'' \<Longrightarrow> adjust_opts (Some opts) mem = ((0, Some opts, False), mem)"
  by (simp add: adjust_opts_def)

lemma parse_arguments_all:
  assumes "3 \<le> length argv" "\<forall>a \<in> set argv. 0 \<notin> set a" "find_opts (drop 3 argv) = Some opts"
  shows "parse_arguments False argv [] = Some ((0, None, None, Some opts), [])"
    and "parse_arguments True argv [] = Some ((0, Some (argv ! 1), Some (argv ! 2), Some opts), [])"
proof -
  have a: "c_string (copy_arg (argv ! 1)) = Some (argv ! 1)" "c_string (copy_arg (argv ! 2)) = Some (argv ! 2)"
    using assms(1,2) by (auto intro!: copy_arg_string)
  show "parse_arguments False argv [] = Some ((0, None, None, Some opts), [])"
    "parse_arguments True argv [] = Some ((0, Some (argv ! 1), Some (argv ! 2), Some opts), [])"
    using assms a by (simp_all add: parse_arguments_def)
qed

lemma do_mount_outcome:
  assumes "3 \<le> length argv" "\<forall>a \<in> set argv. 0 \<notin> set a" "find_opts (drop 3 argv) = Some opts"
    and "ms_realpath (he_sys env) (argv ! 1) = Inr src" "ms_realpath (he_sys env) (argv ! 2) = Inr target"
    and "ms_fork (he_sys env) = Inr ()" and "mount_text argv vals = Some mtxt"
  shows "ecryptfs_do_mount env home argv vals False files inputs []
    = Some (fst (mount_outcome (he_sys env) src target 0 mtxt), snd (mount_outcome (he_sys env) src target 0 mtxt), files)"
proof -
  have "0 \<notin> set opts" using assms(2,3) by (auto dest!: find_opts_in in_set_dropD)
  note st = strip_userland_opts_text [OF this]
  have s: "strip_userland_opts (Some opts) [] = Some ((0, Some (join_with 44 (kept_opts opts))), [])"
    using st by (auto simp: strip_userland_opts_def bind_eq_Some_conv)
  have p: "stack_push (Some (bytes_of_string ''ecryptfs_unlink_sigs'')) vals []
      = (0, Some (bytes_of_string ''ecryptfs_unlink_sigs'') # vals, [])" by (simp add: stack_push_def)
  have c: "collect_opts (he_io env) home False (Some (bytes_of_string ''ecryptfs_unlink_sigs'') # vals)
      (Some (join_with 44 (kept_opts opts))) files inputs [] = Some ((0, Some mtxt), files, inputs, [])"
    unfolding collect_opts_fold using assms(3,7) by (simp add: mount_text_def)
  have v: "ecryptfs_validate_mount_opts (Some mtxt)
      = (if opts_loop mtxt (bytes_of_string ''ecryptfs_key_bytes='') then 0 else - EINVAL)"
    by (simp add: ecryptfs_validate_mount_opts_def required_mount_opts_def opts_str_contains_option_def)
  have m: "ecryptfs_mount (he_sys env) (Some (argv ! 1)) (Some (argv ! 2)) mtxt
      = (exit_status (ms_wait (he_sys env) \<lparr>mc_source = src, mc_target = target, mc_options = mtxt\<rparr>),
         Some \<lparr>mc_source = src, mc_target = target, mc_options = mtxt\<rparr>)"
    using assms(4-6) by (auto simp: ecryptfs_mount_def exit_status_def Let_def split: wait_result.splits)
  show ?thesis
    unfolding ecryptfs_do_mount_def parse_arguments_all(2) [OF assms(1-3)]
    using m by (simp add: s p c v mount_outcome_def Let_def del: collect_opts.simps)
qed

lemma helper_passphrase:
  fixes menv :: "('x, 'k) mgr_env"
  assumes "he_mlockall env = 0" "he_home env = Some home" "he_keyctl_link env = 0"
    and "ecryptfs_get_version (me_junk menv) (he_mtab env) (he_mtab2 env) (he_open env) (he_modprobe env) (he_reopened env)
           (he_read_ok env) [] = Some (0, Some version, [])"
    and args: "3 \<le> length argv" "\<forall>a \<in> set argv. 0 \<notin> set a" "find_opts (drop 3 argv) = Some opts"
    and q: "opts_str_contains_option (Some opts) ''verbosity=0''" "\<not> opts_str_contains_option (Some opts) ''remount''"
    and sys: "ms_realpath (he_sys env) (argv ! 1) = Inr src" "ms_realpath (he_sys env) (argv ! 2) = Inr target"
      "ms_fork (he_sys env) = Inr ()"
    and wait: "\<forall>e c. ms_wait (he_sys env) c = Wait_Failed e \<longrightarrow> 0 < e"
    and "me_entries menv = Some []" and "version AND 1 \<noteq> 0"
    and "version_flags version \<noteq> ([] :: 'x flag list) \<or> fnek_version version"
    and "merged_options menv (Some opts) nvps" and "get_verbosity nvps = Some 0"
    and "spec_plain (version_flags version :: 'x flag list) (fnek_version version) nvps" and "pass_options nvps p h"
    and "from_hex (h @ [0]) SIG_SIZE = Some salt"
    and "ecryptfs_add_passphrase_key_to_keyring (pe_hash (me_pass menv)) (pe_keyring (me_pass menv)) keys p salt []
           = Some (rc0, Some sig, keys', [])" "0 \<le> rc0"
    and "6 \<le> depth" "18 \<le> fuel"
    and "mount_spec (version_flags version :: 'x flag list) (fnek_version version) sig nvps = (rc, ps)"
    and mtxt: "mount_text argv ps = Some mtxt"
  shows "mount_helper_main env menv depth fuel argv keys files stdin []
    = (case mount_outcome (he_sys env) src target (mount_status rc) mtxt of
         (status, call) \<Rightarrow> Some (Some (status, call, keys', files)))"
proof -
  let ?st = "helper_state keys (stdin_answers stdin) [] :: ('x, 'k) mgr_state"
  have s: "start_state ?st" "lc_keys (es_ctx ?st) = keys" by (simp_all add: start_state_def helper_state_def)
  obtain st' where g: "ecryptfs_process_decision_graph menv depth fuel version (Some opts) False ?st
      = Some (Some (mount_status rc, st'))" "es_mnt_params st' = ps" "lc_keys (es_ctx st') = keys'" "es_mem st' = []"
    using process_passphrase [OF s(1) assms(14-21) _ assms(23-26)] assms(22) s(2) by auto
  note d = do_mount_outcome [OF args sys mtxt, of home files "es_inputs st'"]
  have neg: "fst (mount_outcome (he_sys env) src target 0 mtxt) \<le> 0"
    using wait by (fastforce simp: mount_outcome_def exit_status_def Let_def split: wait_result.splits)
  have "evaluate_and_mount env menv depth fuel home argv version keys files stdin []
    = (case mount_outcome (he_sys env) src target (mount_status rc) mtxt of
         (status, call) \<Rightarrow> Some (Some (status, call, keys', files)))"
    unfolding evaluate_and_mount_def parse_arguments_all(1) [OF args]
    using q g d neg by (cases "mount_status rc = 0") (auto simp: quiet_adjust mount_outcome_def Let_def)
  then show ?thesis
    using assms(1-4) args(1) by (simp add: mount_helper_main_def ecryptfs_validate_keyring_def)
qed

text \<open>
  C2. The helper from end to end, for a mount with a passphrase, verbosity 0 and only the built-in
  key module: the key of passphrase and salt goes into the keyring, and \<open>/bin/mount\<close> is called
  between the resolved paths with the mount options of the specification, the options of the
  command line that do not stay in userspace, and \<open>ecryptfs_unlink_sigs\<close>. When the specification
  reports an error, or the options have no key size, no call is made; the key stays in the keyring.
  This holds also of a cipher that has one key size only, where the manual page \<open>ecryptfs.7\<close> says
  that the size need not be given.
\<close>

theorem mount_helper_passphrase:
  fixes menv :: "('x, 'k) mgr_env"
  assumes "he_mlockall env = 0" "he_home env = Some home" "he_keyctl_link env = 0"
    and "ecryptfs_get_version (me_junk menv) (he_mtab env) (he_mtab2 env) (he_open env) (he_modprobe env) (he_reopened env)
           (he_read_ok env) [] = Some (0, Some version, [])"
    and "3 \<le> length argv" "\<forall>a \<in> set argv. 0 \<notin> set a" "find_opts (drop 3 argv) = Some opts"
    and "opts_str_contains_option (Some opts) ''verbosity=0''" "\<not> opts_str_contains_option (Some opts) ''remount''"
    and "ms_realpath (he_sys env) (argv ! 1) = Inr src" "ms_realpath (he_sys env) (argv ! 2) = Inr target"
      "ms_fork (he_sys env) = Inr ()"
    and "\<forall>e c. ms_wait (he_sys env) c = Wait_Failed e \<longrightarrow> 0 < e"
    and "me_entries menv = Some []" and "version AND 1 \<noteq> 0"
    and "version_flags version \<noteq> ([] :: 'x flag list) \<or> fnek_version version"
    and "merged_options menv (Some opts) nvps" and "get_verbosity nvps = Some 0"
    and "spec_plain (version_flags version :: 'x flag list) (fnek_version version) nvps" and "pass_options nvps p h"
    and "from_hex (h @ [0]) SIG_SIZE = Some salt"
    and "ecryptfs_add_passphrase_key_to_keyring (pe_hash (me_pass menv)) (pe_keyring (me_pass menv)) keys p salt []
           = Some (rc0, Some sig, keys', [])" "0 \<le> rc0"
    and "6 \<le> depth" "18 \<le> fuel"
    and "mount_spec (version_flags version :: 'x flag list) (fnek_version version) sig nvps = (rc, ps)"
    and "mount_text argv ps = Some mtxt"
  shows "mount_helper_main env menv depth fuel argv keys files stdin []
    = (case mount_outcome (he_sys env) src target (mount_status rc) mtxt of
         (status, call) \<Rightarrow> Some (Some (status, call, keys', files)))"
  using assms by (rule helper_passphrase)

subsection \<open>A sample\<close>

definition sample_sys :: mount_sys where
  "sample_sys = \<lparr>ms_realpath = Inr, ms_fork = Inr (), ms_wait = (\<lambda>_. Exited 0)\<rparr>"

definition sample_mtab :: "mntent list" where
  "sample_mtab = [\<lparr>mnt_fsname = bytes_of_string ''sysfs'', mnt_dir = bytes_of_string ''/sys'',
     mnt_type = bytes_of_string ''sysfs'', mnt_opts = bytes_of_string ''rw''\<rparr>]"

definition sample_helper_env :: helper_env where
  "sample_helper_env = \<lparr>he_io = plain_io, he_sys = sample_sys, he_mlockall = 0, he_home = Some ''/root'',
     he_mtab = Inr sample_mtab, he_mtab2 = Inr sample_mtab, he_open = (\<lambda>_. Inr (bytes_of_string ''277'' @ [10])),
     he_modprobe = True, he_reopened = (\<lambda>_. Inl ENOENT), he_read_ok = True, he_keyctl_link = 0\<rparr>"

definition sample_argv :: "byte list list" where
  "sample_argv = map bytes_of_string [''mount.ecryptfs'', ''/lower'', ''/upper'', ''-o'', pass_sample_text]"

definition sample_mount :: "byte list \<Rightarrow> bin_mount" where
  "sample_mount sig = \<lparr>mc_source = bytes_of_string ''/lower'', mc_target = bytes_of_string ''/upper'',
     mc_options = bytes_of_string ''ecryptfs_sig='' @ sig
       @ bytes_of_string '',ecryptfs_unlink_sigs,passphrase_passwd=abc,ecryptfs_cipher=aes,ecryptfs_key_bytes=16''\<rparr>"

lemma sample_version:
  "ecryptfs_get_version (me_junk sample_mgr_env) (he_mtab sample_helper_env) (he_mtab2 sample_helper_env)
     (he_open sample_helper_env) (he_modprobe sample_helper_env) (he_reopened sample_helper_env)
     (he_read_ok sample_helper_env) [] = Some (0, Some 0x115, [])"
  by code_simp

lemma sample_args:
  "3 \<le> length sample_argv" "\<forall>a \<in> set sample_argv. 0 \<notin> set a"
  "find_opts (drop 3 sample_argv) = Some (bytes_of_string pass_sample_text)"
  "opts_str_contains_option (Some (bytes_of_string pass_sample_text)) ''verbosity=0''"
  "\<not> opts_str_contains_option (Some (bytes_of_string pass_sample_text)) ''remount''"
  "bytes_of_string ''passphrase_passwd=abc'' \<in> set (split_commas (bytes_of_string pass_sample_text))"
  by code_simp+

lemma sample_mount_text:
  "mount_text sample_argv [Some (bytes_of_string ''ecryptfs_key_bytes=16''), Some (bytes_of_string ''ecryptfs_cipher=aes''),
     Some (bytes_of_string ''ecryptfs_sig='' @ sig), None] = Some (mc_options (sample_mount sig))"
proof -
  let ?t = "bytes_of_string ''ecryptfs_unlink_sigs,passphrase_passwd=abc,ecryptfs_cipher=aes,ecryptfs_key_bytes=16''"
  have k: "join_with 44 (kept_opts (bytes_of_string pass_sample_text))
      = bytes_of_string ''passphrase_passwd=abc,ecryptfs_cipher=aes,ecryptfs_key_bytes=16''"
    by code_simp
  have f: "fold add_opt (map bytes_of_string [''ecryptfs_unlink_sigs'', ''ecryptfs_key_bytes=16'', ''ecryptfs_cipher=aes''])
      (Some (bytes_of_string ''passphrase_passwd=abc,ecryptfs_cipher=aes,ecryptfs_key_bytes=16'')) = Some ?t"
    by code_simp
  have "\<not> sublist (bytes_of_string ''ecryptfs_sig='') ?t" by code_simp
  then have "\<not> sublist (bytes_of_string ''ecryptfs_sig='' @ sig) ?t"
    using sublist_order.order_trans [OF sublist_append_rightI [of "bytes_of_string ''ecryptfs_sig=''" sig], of ?t] by blast
  then have "add_opt (bytes_of_string ''ecryptfs_sig='' @ sig) (Some ?t) = Some (mc_options (sample_mount sig))"
    by (simp add: add_opt_def sample_mount_def bytes_of_string_def)
  with f show ?thesis by (simp add: mount_text_def sample_args(3) k)
qed

lemma sample_mount_outcome:
  "mount_outcome sample_sys (bytes_of_string ''/lower'') (bytes_of_string ''/upper'') 0 (mc_options (sample_mount sig))
     = (0, Some (sample_mount sig))"
proof -
  let ?p = "bytes_of_string ''ecryptfs_key_bytes=''"
  let ?a = "bytes_of_string ''ecryptfs_sig='' @ sig"
  let ?r = "bytes_of_string ''ecryptfs_unlink_sigs,passphrase_passwd=abc,ecryptfs_cipher=aes,ecryptfs_key_bytes=16''"
  have c: "44 \<notin> set ?p" by (simp add: bytes_of_string_def)
  have o: "mc_options (sample_mount sig) = ?a @ 44 # ?r" by (simp add: sample_mount_def bytes_of_string_def)
  have "opts_loop ?r ?p" by code_simp
  then have "opts_loop (mc_options (sample_mount sig)) ?p"
    unfolding opts_loop_split [OF c] o split_commas_append by auto
  then show ?thesis by (simp add: mount_outcome_def Let_def exit_status_def sample_sys_def) (simp add: sample_mount_def)
qed

lemma sample_helper:
  "he_mlockall sample_helper_env = 0" "he_home sample_helper_env = Some ''/root''" "he_keyctl_link sample_helper_env = 0"
  "ms_realpath (he_sys sample_helper_env) (sample_argv ! 1) = Inr (bytes_of_string ''/lower'')"
  "ms_realpath (he_sys sample_helper_env) (sample_argv ! 2) = Inr (bytes_of_string ''/upper'')"
  "ms_fork (he_sys sample_helper_env) = Inr ()"
  "\<forall>e c. ms_wait (he_sys sample_helper_env) c = Wait_Failed e \<longrightarrow> 0 < e" "he_sys sample_helper_env = sample_sys"
  by (simp_all add: sample_helper_env_def sample_sys_def sample_argv_def)

lemma sample_run:
  "\<exists>sig keys. mount_helper_main sample_helper_env sample_mgr_env 6 18 sample_argv [] files stdin []
     = Some (Some (0, Some (sample_mount sig), keys, files))"
proof -
  obtain rc sig keys where k: "ecryptfs_add_passphrase_key_to_keyring (pe_hash (me_pass sample_mgr_env))
      (pe_keyring (me_pass sample_mgr_env)) [] (bytes_of_string ''abc'') pass_sample_salt [] = Some (rc, Some sig, keys, [])" "0 \<le> rc"
    using pass_sample_key by blast
  show ?thesis
    using helper_passphrase [OF sample_helper(1-3) sample_version sample_args(1-5) sample_helper(4-7) sample_mgr(2) _ _ pass_sample(1,2) _ pass_sample(3)
        pass_sample_hex k _ _ pass_sample_spec sample_mount_text, of 6 18] pass_sample(4) sample_flags sample_mount_outcome
    by (auto simp: mount_status_def sample_helper(8))
qed

theorem mount_helper_passphrase_witness:
  "\<exists>sig keys. mount_helper_main sample_helper_env sample_mgr_env 6 18 sample_argv [] (\<lambda>_. None) [] []
     = Some (Some (0, Some (sample_mount sig), keys, \<lambda>_. None))"
proof -
  obtain rc sig keys where k: "ecryptfs_add_passphrase_key_to_keyring (pe_hash (me_pass sample_mgr_env))
      (pe_keyring (me_pass sample_mgr_env)) [] (bytes_of_string ''abc'') pass_sample_salt [] = Some (rc, Some sig, keys, [])" "0 \<le> rc"
    using pass_sample_key by blast
  show ?thesis
    using mount_helper_passphrase [OF sample_helper(1-3) sample_version sample_args(1-5) sample_helper(4-7) sample_mgr(2) _ _
        pass_sample(1,2) _ pass_sample(3) pass_sample_hex k _ _ pass_sample_spec sample_mount_text, of 6 18]
      pass_sample(4) sample_flags sample_mount_outcome
    by (auto simp: mount_status_def sample_helper(8))
qed

theorem mount_helper_call_witness:
  "\<exists>sig version opts mem1 st.
    ecryptfs_process_decision_graph sample_mgr_env 6 18 version opts False (helper_state [] (stdin_answers []) mem1)
       = Some (Some (0, st))
    \<and> mount_text sample_argv (es_mnt_params st) = Some (mc_options (sample_mount sig))"
proof -
  obtain sig keys where "mount_helper_main sample_helper_env sample_mgr_env 6 18 sample_argv [] (\<lambda>_. None) [] []
     = Some (Some (0, Some (sample_mount sig), keys, \<lambda>_. None))" using sample_run by blast
  from mount_helper_call [OF this sample_args(2)] show ?thesis by blast
qed

theorem passphrase_option_reaches_mount_witness:
  "\<exists>rc c keys files. mount_helper_main sample_helper_env sample_mgr_env 6 18 sample_argv [] (\<lambda>_. None) [] []
     = Some (Some (rc, Some c, keys, files)) \<and> sublist (bytes_of_string ''passphrase_passwd=abc'') (mc_options c)"
proof -
  obtain sig keys where r: "mount_helper_main sample_helper_env sample_mgr_env 6 18 sample_argv [] (\<lambda>_. None) [] []
     = Some (Some (0, Some (sample_mount sig), keys, \<lambda>_. None))" using sample_run by blast
  have "bytes_of_string ''passphrase_passwd='' @ bytes_of_string ''abc'' \<in> set (split_commas (bytes_of_string pass_sample_text))"
    using sample_args(6) by (simp add: bytes_of_string_def)
  from passphrase_option_reaches_mount [OF r sample_args(2,3) this] r show ?thesis by (auto simp: bytes_of_string_def)
qed

end
