(* ===== verification/Umount.thy ===== *)
theory Umount
  imports Mount_Helper
begin

text \<open>
  The unmount helper \<open>src/utils/umount.ecryptfs.c\<close>: it looks the mount up in \<open>/etc/mtab\<close>, unlinks
  the keys of the mount from the user's keyring, and runs \<open>/bin/umount\<close>.
\<close>

subsection \<open>The value of a mount option\<close>

text \<open>\<open>strstr\<close>: what follows from the first place of a text on.\<close>

fun c_strstr :: "byte list \<Rightarrow> byte list \<Rightarrow> byte list option" where
  "c_strstr [] needle = (if needle = [] then Some [] else None)"
| "c_strstr (b # bs) needle = (if prefix needle (b # bs) then Some (b # bs) else c_strstr bs needle)"

text \<open>
  The status and the value. The options of an entry of the mount table are a terminated string, so
  without a comma the value ends with them.
\<close>

definition get_mount_opt_value ::
  "byte list \<Rightarrow> byte list \<Rightarrow> schedule \<Rightarrow> ((int \<times> byte list option) \<times> schedule) option" where
  "get_mount_opt_value opts name mem =
     (if name = [] then None
      else if last name \<noteq> 61 then Some ((EINVAL, None), mem)
      else (case c_strstr opts name of
         None \<Rightarrow> Some ((EINVAL, None), mem)
       | Some name_start \<Rightarrow>
           let val_start = drop (length name) name_start;
               val_len = (case c_strstr val_start [44] of
                            None \<Rightarrow> length val_start
                          | Some val_stop \<Rightarrow> length val_start - length val_stop)
           in (case malloc_ok mem of
                 (False, mem) \<Rightarrow> Some ((ENOMEM, None), mem)
               | (True, mem) \<Rightarrow> Some ((0, Some (take val_len val_start)), mem))))"

subsection \<open>The keys of a mount\<close>

fun find_mount :: "byte list \<Rightarrow> mntent list \<Rightarrow> mntent option" where
  "find_mount mnt [] = None"
| "find_mount mnt (m # ms) =
     (if mnt_type m \<noteq> bytes_of_string ''ecryptfs'' then find_mount mnt ms
      else if mnt \<noteq> mnt_dir m then find_mount mnt ms else Some m)"

abbreviation FEKEK :: "byte list" where "FEKEK \<equiv> bytes_of_string ''ecryptfs_sig=''"
abbreviation FNEK :: "byte list" where "FNEK \<equiv> bytes_of_string ''ecryptfs_fnek_sig=''"

text \<open>Removal of one key; a key that is not there is no failure.\<close>

definition remove_key :: "'k keyring \<Rightarrow> 'k \<Rightarrow> byte list \<Rightarrow> int \<times> 'k" where
  "remove_key kr k sig =
     (case ecryptfs_remove_auth_tok_from_keyring kr k sig of
        (fail, k) \<Rightarrow> (if fail = ENOKEY then 0 else fail, k))"

text \<open>
  \<open>unlink_keys_from_keyring\<close>: the signature for file names is compared with the other one, which
  is a null pointer when its option is missing.
\<close>

definition unlink_keys_from_keyring ::
  "'k keyring \<Rightarrow> 'k \<Rightarrow> mntent list option \<Rightarrow> byte list \<Rightarrow> schedule \<Rightarrow> (int \<times> 'k \<times> schedule) option" where
  "unlink_keys_from_keyring kr k mtab mnt_point mem =
     (case mtab of
        None \<Rightarrow> Some (EINVAL, k, mem)
      | Some ms \<Rightarrow>
          (case find_mount mnt_point ms of
             None \<Rightarrow> Some (EINVAL, k, mem)
           | Some m \<Rightarrow>
               if \<not> hasmntopt (mnt_opts m) (bytes_of_string ''ecryptfs_unlink_sigs'') then Some (0, k, mem)
               else do {
                 ((rc, fekek_sig), mem) \<leftarrow> get_mount_opt_value (mnt_opts m) FEKEK mem;
                 (fekek_fail, k) \<leftarrow>
                   (if rc \<noteq> 0 then Some (rc, k)
                    else do { sig \<leftarrow> fekek_sig; Some (remove_key kr k sig) });
                 ((rc2, fnek_sig), mem) \<leftarrow> get_mount_opt_value (mnt_opts m) FNEK mem;
                 (fnek_fail, k) \<leftarrow>
                   (if rc2 \<noteq> 0 then Some (0, k)
                    else do {
                      s1 \<leftarrow> fekek_sig;
                      s2 \<leftarrow> fnek_sig;
                      Some (if s1 = s2 then (0, k) else remove_key kr k s2) });
                 Some (if fekek_fail \<noteq> 0 then fekek_fail else if fnek_fail \<noteq> 0 then fnek_fail else rc, k, mem) }))"

definition construct_umount_args ::
  "byte list list \<Rightarrow> schedule \<Rightarrow> (int \<times> byte list list) \<times> schedule" where
  "construct_umount_args argv mem =
     (case malloc_ok mem of
        (False, mem) \<Rightarrow> ((ENOMEM, []), mem)
      | (True, mem) \<Rightarrow> ((0, [bytes_of_string ''umount'', bytes_of_string ''-i''] @ drop 1 argv), mem))"

text \<open>The process ends with a status, or becomes another program.\<close>

datatype process_end = Exits int | Becomes string "byte list list"

text \<open>\<open>exec_err\<close> is the error number of \<open>execv\<close>, if it fails.\<close>

definition umount_main ::
  "'k keyring \<Rightarrow> mntent list option \<Rightarrow> int option \<Rightarrow> byte list list \<Rightarrow> 'k \<Rightarrow> schedule \<Rightarrow> (process_end \<times> 'k) option" where
  "umount_main kr mtab exec_err argv k mem =
     (if length argv < 2 then Some (Exits (- EINVAL), k)
      else do {
        (_, k, mem) \<leftarrow> unlink_keys_from_keyring kr k mtab (argv ! 1) mem;
        (case construct_umount_args argv mem of
           ((rc, new_argv), mem) \<Rightarrow>
             if rc \<noteq> 0 then Some (Exits rc, k)
             else (case exec_err of
                     None \<Rightarrow> Some (Becomes ''/bin/umount'' new_argv, k)
                   | Some e \<Rightarrow> Some (Exits e, k))) })"

subsection \<open>Options by their text\<close>

text \<open>
  The value that is found is that of the first option whose text holds the name anywhere: the
  search does not look at the commas before it.
\<close>

lemma c_strstr_here: "prefix needle bs \<Longrightarrow> c_strstr bs needle = Some bs"
  by (cases bs) auto

lemma c_strstr_comma: "c_strstr (a @ 44 # r) [44] = Some (44 # r)" if "44 \<notin> set a"
  using that by (induction a) (auto simp: prefix_Cons)

lemma c_strstr_no_comma: "44 \<notin> set a \<Longrightarrow> c_strstr a [44] = None"
  by (induction a) (auto simp: prefix_Cons)

lemma c_strstr_none: "\<not> sublist needle bs \<Longrightarrow> c_strstr bs needle = None"
  by (induction bs) (auto simp: sublist_Cons_right)

lemma c_strstr_skip:
  "\<not> sublist needle a \<Longrightarrow> 44 \<notin> set needle \<Longrightarrow> needle \<noteq> [] \<Longrightarrow> c_strstr (a @ 44 # r) needle = c_strstr r needle"
proof (induction a)
  case (Cons b a)
  then have "\<not> prefix needle (b # a)" "\<not> sublist needle a" by (auto simp: sublist_Cons_right)
  moreover have "prefix needle ((b # a) @ 44 # r) = prefix needle (b # a)" by (rule prefix_before_comma [OF Cons.prems(2)])
  ultimately show ?case using Cons.IH [OF _ Cons.prems(2,3)] by (simp del: prefix_Cons)
qed (auto simp: prefix_Cons)

definition names_value :: "byte list \<Rightarrow> byte list \<Rightarrow> byte list option \<Rightarrow> bool" where
  "names_value name opts v \<longleftrightarrow>
     (case v of
        None \<Rightarrow> \<forall>t \<in> set (split_commas opts). \<not> sublist name t
      | Some s \<Rightarrow> \<exists>ts1 ts2. split_commas opts = ts1 @ (name @ s) # ts2 \<and> (\<forall>t \<in> set ts1. \<not> sublist name t))"

lemma split_commas_no_comma: "t \<in> set (split_commas opts) \<Longrightarrow> 44 \<notin> set t"
proof (induction opts arbitrary: t)
  case (Cons b bs)
  obtain f fs where f: "split_commas bs = f # fs" using split_commas_nonempty [of bs] by (cases "split_commas bs") auto
  then show ?case using Cons.prems Cons.IH [of f] Cons.IH [of t] by (auto split: if_splits)
qed simp

lemma join_split_commas: "join_with 44 (split_commas opts) = opts"
proof (induction opts)
  case (Cons b bs)
  obtain f fs where f: "split_commas bs = f # fs" using split_commas_nonempty [of bs] by (cases "split_commas bs") auto
  then show ?case using Cons by (cases fs) (auto simp: join_with_Cons)
qed simp

lemma c_strstr_join:
  assumes "44 \<notin> set needle" "needle \<noteq> []"
  shows "\<forall>t \<in> set ts. \<not> sublist needle t \<Longrightarrow> c_strstr (join_with 44 ts) needle = None"
    and "\<forall>t \<in> set ts1. \<not> sublist needle t \<Longrightarrow>
      c_strstr (join_with 44 (ts1 @ (needle @ s) # ts2)) needle = Some (join_with 44 ((needle @ s) # ts2))"
proof -
  show "\<forall>t \<in> set ts. \<not> sublist needle t \<Longrightarrow> c_strstr (join_with 44 ts) needle = None"
  proof (induction ts)
    case (Cons t ts)
    then show ?case using c_strstr_skip [OF _ assms, of t] c_strstr_none [of needle t] by (simp add: join_with_Cons)
  qed (use assms(2) in simp)
  show "\<forall>t \<in> set ts1. \<not> sublist needle t \<Longrightarrow>
      c_strstr (join_with 44 (ts1 @ (needle @ s) # ts2)) needle = Some (join_with 44 ((needle @ s) # ts2))"
  proof (induction ts1)
    case Nil
    then show ?case by (simp add: c_strstr_here join_with_Cons)
  next
    case (Cons t ts1)
    then show ?case using c_strstr_skip [OF _ assms, of t] by (simp add: join_with_Cons)
  qed
qed

lemma opt_value_found:
  assumes "names_value name opts v" "44 \<notin> set name" "name \<noteq> []" "last name = 61"
  shows "get_mount_opt_value opts name [] = Some ((if v = None then EINVAL else 0, v), [])"
proof (cases v)
  case None
  then have "c_strstr opts name = None"
    using c_strstr_join(1) [OF assms(2,3), of "split_commas opts"] assms(1) by (simp add: names_value_def join_split_commas)
  then show ?thesis using assms(3,4) None by (simp add: get_mount_opt_value_def)
next
  case (Some s)
  then obtain ts1 ts2 where t: "split_commas opts = ts1 @ (name @ s) # ts2" "\<forall>t \<in> set ts1. \<not> sublist name t"
    using assms(1) by (auto simp: names_value_def)
  have f: "c_strstr opts name = Some (join_with 44 ((name @ s) # ts2))"
    using c_strstr_join(2) [OF assms(2,3) t(2), of s ts2] join_split_commas [of opts] t(1) by simp
  have "44 \<notin> set s" using split_commas_no_comma [of "name @ s" opts] t(1) by simp
  then show ?thesis
    using assms(3,4) f Some c_strstr_comma [of s] c_strstr_no_comma [of s]
    by (cases "ts2 = []") (simp_all add: get_mount_opt_value_def join_with_Cons Let_def)
qed

subsection \<open>The keys are gone\<close>

text \<open>
  What the code relies on of the keyring: a search fails only because the key is not there, a
  key that was found can be unlinked and is not found afterwards, and nothing else appears.
\<close>

definition keyring_unlinks :: "'k keyring \<Rightarrow> bool" where
  "keyring_unlinks kr \<longleftrightarrow> (\<forall>k s. case kr_search kr k s of
       Inl e \<Rightarrow> e = ENOKEY
     | Inr n \<Rightarrow> \<exists>k'. kr_unlink kr k n = (Inr (), k') \<and> kr_search kr k' s = Inl ENOKEY
         \<and> (\<forall>s'. kr_search kr k s' = Inl ENOKEY \<longrightarrow> kr_search kr k' s' = Inl ENOKEY))"

lemma remove_key_gone:
  assumes "keyring_unlinks kr"
  shows "\<exists>k'. remove_key kr k s = (0, k') \<and> kr_search kr k' s = Inl ENOKEY
    \<and> (\<forall>s'. kr_search kr k s' = Inl ENOKEY \<longrightarrow> kr_search kr k' s' = Inl ENOKEY)"
proof (cases "kr_search kr k s")
  case (Inl e)
  then have "e = ENOKEY" using assms by (force simp: keyring_unlinks_def split: sum.splits)
  then show ?thesis using Inl by (simp add: remove_key_def ecryptfs_remove_auth_tok_from_keyring_def)
next
  case (Inr n)
  then have "case kr_search kr k s of Inl e \<Rightarrow> e = ENOKEY
     | Inr n \<Rightarrow> \<exists>k'. kr_unlink kr k n = (Inr (), k') \<and> kr_search kr k' s = Inl ENOKEY
         \<and> (\<forall>s'. kr_search kr k s' = Inl ENOKEY \<longrightarrow> kr_search kr k' s' = Inl ENOKEY)"
    using assms unfolding keyring_unlinks_def by blast
  with Inr show ?thesis by (auto simp: remove_key_def ecryptfs_remove_auth_tok_from_keyring_def)
qed

lemma sig_names: "44 \<notin> set FEKEK" "FEKEK \<noteq> []" "last FEKEK = 61" "44 \<notin> set FNEK" "FNEK \<noteq> []" "last FNEK = 61"
  by (simp_all add: bytes_of_string_def)

text \<open>
  C8. For a mount with the option \<open>ecryptfs_unlink_sigs\<close> and a signature, unmounting takes the keys
  of both signatures from the keyring, the one for file names being optional, and then runs
  \<open>/bin/umount\<close> without helpers on the given arguments.
\<close>

theorem umount_removes_keys:
  assumes "keyring_unlinks kr" and "2 \<le> length argv" and "find_mount (argv ! 1) mtab = Some m"
    and "hasmntopt (mnt_opts m) (bytes_of_string ''ecryptfs_unlink_sigs'')"
    and "names_value FEKEK (mnt_opts m) (Some s)" "names_value FNEK (mnt_opts m) f"
  shows "\<exists>k'. umount_main kr (Some mtab) None argv k []
      = Some (Becomes ''/bin/umount'' (bytes_of_string ''umount'' # bytes_of_string ''-i'' # tl argv), k')
    \<and> kr_search kr k' s = Inl ENOKEY \<and> (\<forall>s'. f = Some s' \<longrightarrow> kr_search kr k' s' = Inl ENOKEY)"
proof -
  note v = opt_value_found [OF assms(5) sig_names(1-3)] opt_value_found [OF assms(6) sig_names(4-6)]
  obtain k1 where 1: "remove_key kr k s = (0, k1)" "kr_search kr k1 s = Inl ENOKEY" using remove_key_gone [OF assms(1)] by metis
  have a: "\<not> length argv < 2" "drop 1 argv = tl argv" using assms(2) by (simp_all add: drop_Suc)
  show ?thesis
  proof (cases "f = None \<or> f = Some s")
    case True
    then show ?thesis using v 1 a assms(3,4)
      by (auto simp: umount_main_def unlink_keys_from_keyring_def construct_umount_args_def)
  next
    case False
    then obtain s' where f: "f = Some s'" "s' \<noteq> s" by auto
    obtain k2 where 2: "remove_key kr k1 s' = (0, k2)" "kr_search kr k2 s' = Inl ENOKEY" "kr_search kr k2 s = Inl ENOKEY"
      using remove_key_gone [OF assms(1), of k1 s'] 1(2) by metis
    then show ?thesis using v 1 a assms(3,4) f
      by (auto simp: umount_main_def unlink_keys_from_keyring_def construct_umount_args_def)
  qed
qed

text \<open>
  The keys are taken away before it is known whether the unmount will work: when the program
  \<open>/bin/umount\<close> cannot be run the mount stays and its keys are gone all the same.
\<close>

theorem umount_failure_loses_keys:
  assumes "keyring_unlinks kr" and "2 \<le> length argv" and "find_mount (argv ! 1) mtab = Some m"
    and "hasmntopt (mnt_opts m) (bytes_of_string ''ecryptfs_unlink_sigs'')"
    and "names_value FEKEK (mnt_opts m) (Some s)" "names_value FNEK (mnt_opts m) None"
  shows "\<exists>k'. umount_main kr (Some mtab) (Some e) argv k [] = Some (Exits e, k') \<and> kr_search kr k' s = Inl ENOKEY"
proof -
  note v = opt_value_found [OF assms(5) sig_names(1-3)] opt_value_found [OF assms(6) sig_names(4-6)]
  obtain k1 where 1: "remove_key kr k s = (0, k1)" "kr_search kr k1 s = Inl ENOKEY" using remove_key_gone [OF assms(1)] by metis
  then show ?thesis using v assms(2-4)
    by (auto simp: umount_main_def unlink_keys_from_keyring_def construct_umount_args_def)
qed

text \<open>
  A mount with a signature for file names and no other: the missing signature is a null pointer
  that is compared with the other one.
\<close>

theorem umount_compares_null:
  assumes "2 \<le> length argv" and "find_mount (argv ! 1) mtab = Some m"
    and "hasmntopt (mnt_opts m) (bytes_of_string ''ecryptfs_unlink_sigs'')"
    and "names_value FEKEK (mnt_opts m) None" "names_value FNEK (mnt_opts m) (Some s)"
  shows "umount_main kr (Some mtab) e argv k [] = None"
  using opt_value_found [OF assms(4) sig_names(1-3)] opt_value_found [OF assms(5) sig_names(4-6)] assms(1-3)
  by (simp add: umount_main_def unlink_keys_from_keyring_def)

subsection \<open>A sample\<close>

lemma list_keyring_unlinks: "keyring_unlinks list_keyring"
  by (auto simp: keyring_unlinks_def list_keyring_def)

text \<open>The entry of the sample mount of the mount helper.\<close>

definition mtab_entry :: "byte list \<Rightarrow> mntent" where
  "mtab_entry opts = \<lparr>mnt_fsname = bytes_of_string ''/lower'', mnt_dir = bytes_of_string ''/upper'',
     mnt_type = bytes_of_string ''ecryptfs'', mnt_opts = opts\<rparr>"

abbreviation umount_argv :: "byte list list" where
  "umount_argv \<equiv> map bytes_of_string [''umount.ecryptfs'', ''/upper'']"

abbreviation mounted_opts :: "byte list" where
  "mounted_opts \<equiv> mc_options (sample_mount (bytes_of_string ''ab''))"

lemma sample_entry:
  "find_mount (umount_argv ! 1) [mtab_entry opts] = Some (mtab_entry opts)" "mnt_opts (mtab_entry opts) = opts"
  by (simp_all add: mtab_entry_def)

lemma mounted_opts_fields:
  "split_commas mounted_opts = map bytes_of_string [''ecryptfs_sig=ab'', ''ecryptfs_unlink_sigs'',
     ''passphrase_passwd=abc'', ''ecryptfs_cipher=aes'', ''ecryptfs_key_bytes=16'']"
  "hasmntopt mounted_opts (bytes_of_string ''ecryptfs_unlink_sigs'')"
  by code_simp+

lemma mounted_opts_names:
  "names_value FEKEK mounted_opts (Some (bytes_of_string ''ab''))" "names_value FNEK mounted_opts None"
proof -
  show "names_value FEKEK mounted_opts (Some (bytes_of_string ''ab''))"
    unfolding names_value_def option.case mounted_opts_fields(1)
    by (intro exI [of _ "[]"] exI [of _ "map bytes_of_string [''ecryptfs_unlink_sigs'', ''passphrase_passwd=abc'',
      ''ecryptfs_cipher=aes'', ''ecryptfs_key_bytes=16'']"]) code_simp
  have "list_all (\<lambda>t. \<not> sublist FNEK t) (map bytes_of_string [''ecryptfs_sig=ab'', ''ecryptfs_unlink_sigs'',
     ''passphrase_passwd=abc'', ''ecryptfs_cipher=aes'', ''ecryptfs_key_bytes=16''])" by code_simp
  then show "names_value FNEK mounted_opts None"
    unfolding names_value_def option.case mounted_opts_fields(1) list_all_iff .
qed

theorem umount_removes_keys_witness:
  "\<forall>tok. \<exists>k'. umount_main list_keyring (Some [mtab_entry mounted_opts]) None umount_argv [(bytes_of_string ''ab'', tok)] []
     = Some (Becomes ''/bin/umount'' (map bytes_of_string [''umount'', ''-i'', ''/upper'']), k')
   \<and> kr_search list_keyring k' (bytes_of_string ''ab'') = Inl ENOKEY"
  using umount_removes_keys [OF list_keyring_unlinks _ sample_entry(1), of mounted_opts "bytes_of_string ''ab''" None]
    mounted_opts_fields(2) mounted_opts_names by (simp add: sample_entry(2))

theorem umount_failure_loses_keys_witness:
  "\<forall>tok. \<exists>k'. umount_main list_keyring (Some [mtab_entry mounted_opts]) (Some ENOENT) umount_argv [(bytes_of_string ''ab'', tok)] []
     = Some (Exits ENOENT, k') \<and> kr_search list_keyring k' (bytes_of_string ''ab'') = Inl ENOKEY"
  using umount_failure_loses_keys [OF list_keyring_unlinks _ sample_entry(1), of mounted_opts "bytes_of_string ''ab''"]
    mounted_opts_fields(2) mounted_opts_names by (simp add: sample_entry(2))

theorem umount_compares_null_witness:
  "umount_main list_keyring (Some [mtab_entry (bytes_of_string ''ecryptfs_unlink_sigs,ecryptfs_fnek_sig=ab'')]) None umount_argv [] [] = None"
proof -
  let ?o = "bytes_of_string ''ecryptfs_unlink_sigs,ecryptfs_fnek_sig=ab''"
  have s: "split_commas ?o = map bytes_of_string [''ecryptfs_unlink_sigs'', ''ecryptfs_fnek_sig=ab'']"
    "hasmntopt ?o (bytes_of_string ''ecryptfs_unlink_sigs'')" by code_simp+
  have l: "list_all (\<lambda>t. \<not> sublist FEKEK t) (map bytes_of_string [''ecryptfs_unlink_sigs'', ''ecryptfs_fnek_sig=ab''])"
    by code_simp
  have "names_value FEKEK ?o None"
    using l unfolding names_value_def option.case s(1) list_all_iff .
  moreover have "names_value FNEK ?o (Some (bytes_of_string ''ab''))"
    unfolding names_value_def option.case s(1)
    by (intro exI [of _ "[bytes_of_string ''ecryptfs_unlink_sigs'']"] exI [of _ "[]"]) code_simp
  ultimately show ?thesis
    using umount_compares_null [OF _ sample_entry(1), of ?o "bytes_of_string ''ab''"] s(2) by (simp add: sample_entry(2))
qed

end
