(* ===== verification/Tools.thy ===== *)
theory Tools
  imports Mount_Helper
begin

text \<open>
  The tools for passphrases in \<open>src/utils\<close>: \<open>ecryptfs_wrap_passphrase.c\<close>,
  \<open>ecryptfs_unwrap_passphrase.c\<close>, \<open>ecryptfs_rewrap_passphrase.c\<close>,
  \<open>ecryptfs_insert_wrapped_passphrase_into_keyring.c\<close> and \<open>ecryptfs_add_passphrase.c\<close>.

  Each is its \<open>main\<close> function: arguments to status, what is printed as its result, and the state
  with terminal, files and keyring. They put \<open>Terminal\<close>, \<open>Nv_List\<close> and \<open>Key_Management\<close> together.
\<close>

record 'k tool_env =
  te_io :: io
  te_nss :: nss
  te_hash :: hash
  te_keyring :: "'k keyring"
  te_open :: "string \<Rightarrow> int + open_file"
  te_pw_dir :: "string option"
  te_exists :: "string \<Rightarrow> bool"
  te_junk :: "nat \<Rightarrow> byte"
  te_junk_echo :: bool
  te_sysfs :: helper_env

record 'k tool_state =
  ts_tm :: terminal
  ts_files :: files
  ts_keys :: 'k
  ts_mem :: schedule

abbreviation (input) DEFAULT_SALT_HEX :: "byte list" where
  "DEFAULT_SALT_HEX \<equiv> bytes_of_string ''0011223344556677''"

subsection \<open>Passphrase and salt\<close>

definition read_pass :: "'k tool_env \<Rightarrow> 'k tool_state \<Rightarrow> byte list option \<times> 'k tool_state" where
  "read_pass env st =
     (case ecryptfs_get_passphrase (te_junk_echo env) (ts_tm st) (ts_mem st) of
        (p, tm, mem) \<Rightarrow> (p, st\<lparr>ts_tm := tm, ts_mem := mem\<rparr>))"

text \<open>The salt of the \<open>.ecryptfsrc\<close> file, or the default one.\<close>

definition tool_salt :: "'k tool_env \<Rightarrow> 'k tool_state \<Rightarrow> (byte list \<times> 'k tool_state) option" where
  "tool_salt env st = do {
     (rc, salt_hex, mem) \<leftarrow> ecryptfs_read_salt_hex_from_rc (te_junk env) (te_open env) (te_pw_dir env) (ts_mem st);
     salt \<leftarrow> (if rc \<noteq> 0 then from_hex (DEFAULT_SALT_HEX @ [0]) SALT_SIZE
             else do { salt_hex \<leftarrow> salt_hex; from_hex salt_hex SALT_SIZE });
     Some (salt, st\<lparr>ts_mem := mem\<rparr>) }"

definition pass_ok :: "byte list option \<Rightarrow> bool" where
  "pass_ok p = (case p of None \<Rightarrow> False | Some p \<Rightarrow> length p \<le> MAX_PASSWORD_LENGTH)"

subsection \<open>Wrapping\<close>

definition wrap_passphrase_main ::
  "'k tool_env \<Rightarrow> string list \<Rightarrow> 'k tool_state \<Rightarrow> (int \<times> 'k tool_state) option" where
  "wrap_passphrase_main env argv st =
     (let interactive = length argv = 2 \<or> length argv = 3 \<and> argv ! 2 = ''-'' in
      if \<not> interactive \<and> length argv \<noteq> 4 then Some (0, st)
      else let (passphrase, st) = (if interactive then read_pass env st else (Some (bytes_of_string (argv ! 2)), st));
               (wrapping_passphrase, st) =
                 (if interactive then (if passphrase = None then (None, st) else read_pass env st)
                  else (Some (bytes_of_string (argv ! 3)), st))
      in if \<not> pass_ok passphrase \<or> \<not> pass_ok wrapping_passphrase then Some (1, st)
      else do {
        passphrase \<leftarrow> passphrase;
        wrapping_passphrase \<leftarrow> wrapping_passphrase;
        (salt, st) \<leftarrow> tool_salt env st;
        (rc, files) \<leftarrow> ecryptfs_wrap_passphrase (te_io env) (te_nss env) (te_hash env) (ts_files st) (argv ! 1)
           wrapping_passphrase salt passphrase;
        Some (if rc \<noteq> 0 then 1 else 0, st\<lparr>ts_files := files\<rparr>) })"

subsection \<open>Unwrapping\<close>

text \<open>
  The arguments of the two tools that read a wrapped file: its name and the wrapping
  passphrase. \<open>one_char\<close> tells whether a passphrase argument of one character is taken; in
  \<open>ecryptfs_unwrap_passphrase.c\<close> the test for it is the wrong way around. An outer \<^term>\<open>None\<close>
  is a call of \<open>usage\<close>.
\<close>

definition wrapped_args ::
  "bool \<Rightarrow> 'k tool_env \<Rightarrow> string list \<Rightarrow> 'k tool_state \<Rightarrow> (string \<times> byte list option) option \<times> 'k tool_state" where
  "wrapped_args one_char env argv st =
     (if length argv = 1 then
        (case ecryptfs_get_wrapped_passphrase_filename (te_pw_dir env) (te_exists env) (ts_mem st) of
           (None, mem) \<Rightarrow> (None, st\<lparr>ts_mem := mem\<rparr>)
         | (Some file, mem) \<Rightarrow>
             (case read_pass env (st\<lparr>ts_mem := mem\<rparr>) of (p, st) \<Rightarrow> (Some (file, p), st)))
      else if length argv = 2 \<or> length argv = 3 \<and> argv ! 2 = ''-'' then
        (case read_pass env st of (p, st) \<Rightarrow> (Some (argv ! 1, p), st))
      else if length argv = 3 \<and> (length (argv ! 2) \<noteq> 1 \<or> one_char) then
        (Some (argv ! 1, Some (bytes_of_string (argv ! 2))), st)
      else (None, st))"

definition unwrap_passphrase_main ::
  "'k tool_env \<Rightarrow> string list \<Rightarrow> 'k tool_state \<Rightarrow> (int \<times> byte list option \<times> 'k tool_state) option" where
  "unwrap_passphrase_main env argv st =
     (case wrapped_args False env argv st of
        (None, st) \<Rightarrow> Some (0, None, st)
      | (Some (file, wrapping_passphrase), st) \<Rightarrow>
          if \<not> pass_ok wrapping_passphrase then Some (0, None, st)
          else do {
            wrapping_passphrase \<leftarrow> wrapping_passphrase;
            (salt, st) \<leftarrow> tool_salt env st;
            (rc, passphrase) \<leftarrow> ecryptfs_unwrap_passphrase (te_io env) (te_nss env) (te_hash env) (ts_files st) file
               wrapping_passphrase salt;
            if rc \<noteq> 0 then Some (1, None, st)
            else do {
              passphrase \<leftarrow> passphrase;
              passphrase \<leftarrow> c_string passphrase;
              Some (0, Some passphrase, st) } })"

subsection \<open>Rewrapping\<close>

text \<open>
  The old and the new wrapping passphrase, or a status. In interactive mode the new one is read
  twice and both are given to \<open>strlen\<close>, which a null pointer does not survive.
\<close>

definition rewrap_args ::
  "'k tool_env \<Rightarrow> string list \<Rightarrow> 'k tool_state
   \<Rightarrow> ((int + byte list option \<times> byte list option) \<times> 'k tool_state) option" where
  "rewrap_args env argv st =
     (if length argv = 2 then
        let (old, st) = read_pass env st; (new, st) = read_pass env st; (new2, st) = read_pass env st in
        do {
          n \<leftarrow> new;
          n2 \<leftarrow> new2;
          Some (if n \<noteq> n2 then Inl 1 else Inr (old, new), st) }
      else if length argv = 3 \<and> argv ! 2 = ''-'' then
        let (old, st) = read_pass env st; (new, st) = read_pass env st in Some (Inr (old, new), st)
      else if length argv = 4 then
        Some (Inr (Some (bytes_of_string (argv ! 2)), Some (bytes_of_string (argv ! 3))), st)
      else Some (Inl 0, st))"

definition rewrap_passphrase_main ::
  "'k tool_env \<Rightarrow> string list \<Rightarrow> 'k tool_state \<Rightarrow> (int \<times> 'k tool_state) option" where
  "rewrap_passphrase_main env argv st = do {
     (r, st) \<leftarrow> rewrap_args env argv st;
     (case r of
        Inl rc \<Rightarrow> Some (rc, st)
      | Inr (old, new) \<Rightarrow>
          if \<not> pass_ok old \<or> \<not> pass_ok new then Some (0, st)
          else do {
            old \<leftarrow> old;
            new \<leftarrow> new;
            (salt, st) \<leftarrow> tool_salt env st;
            (rc, passphrase) \<leftarrow> ecryptfs_unwrap_passphrase (te_io env) (te_nss env) (te_hash env) (ts_files st) (argv ! 1)
               old salt;
            if rc \<noteq> 0 then Some (1, st)
            else do {
              passphrase \<leftarrow> passphrase;
              passphrase \<leftarrow> c_string passphrase;
              (rc, files) \<leftarrow> ecryptfs_wrap_passphrase (te_io env) (te_nss env) (te_hash env) (ts_files st) (argv ! 1)
                 new salt passphrase;
              Some (if rc \<noteq> 0 then 1 else 0, st\<lparr>ts_files := files\<rparr>) } }) }"

subsection \<open>Keys for the keyring\<close>

text \<open>The status and the signature that is printed.\<close>

definition insert_wrapped_main ::
  "'k tool_env \<Rightarrow> string list \<Rightarrow> 'k tool_state \<Rightarrow> (int \<times> byte list option \<times> 'k tool_state) option" where
  "insert_wrapped_main env argv st =
     (case wrapped_args True env argv st of
        (None, st) \<Rightarrow> Some (0, None, st)
      | (Some (file, wrapping_passphrase), st) \<Rightarrow>
          if \<not> pass_ok wrapping_passphrase then Some (0, None, st)
          else do {
            wrapping_passphrase \<leftarrow> wrapping_passphrase;
            (salt, st) \<leftarrow> tool_salt env st;
            (rc, sig, keys, mem) \<leftarrow> ecryptfs_insert_wrapped_passphrase_into_keyring (te_io env) (te_nss env) (te_hash env)
               (te_keyring env) (ts_files st) (ts_keys st) file wrapping_passphrase salt (ts_mem st);
            let st = st\<lparr>ts_keys := keys, ts_mem := mem\<rparr>;
            if rc < 0 then Some (1, None, st)
            else do { sig \<leftarrow> sig; Some (0, Some sig, st) } })"

text \<open>Whether file names can be encrypted, by the version of the kernel module.\<close>

definition fnek_supported :: "'k tool_env \<Rightarrow> 'k tool_state \<Rightarrow> (bool \<times> 'k tool_state) option" where
  "fnek_supported env st = do {
     let he = te_sysfs env;
     (rc, version, mem) \<leftarrow> ecryptfs_get_version (te_junk env) (he_mtab he) (he_mtab2 he) (he_open he) (he_modprobe he)
        (he_reopened he) (he_read_ok he) (ts_mem st);
     let st = st\<lparr>ts_mem := mem\<rparr>;
     if rc \<noteq> 0 then Some (False, st)
     else do { v \<leftarrow> version; Some (ecryptfs_supports_filename_encryption v \<noteq> 0, st) } }"

text \<open>
  \<open>ecryptfs_add_passphrase.c\<close>: the status and the signatures printed. The salt for file names is
  the text of the default one.
\<close>

definition add_passphrase_main ::
  "'k tool_env \<Rightarrow> string list \<Rightarrow> 'k tool_state \<Rightarrow> (int \<times> byte list list \<times> 'k tool_state) option" where
  "add_passphrase_main env argv st =
     (let fnek = (length argv = 2 \<and> argv ! 1 = ''--fnek'' \<or> length argv = 3 \<and> argv ! 1 = ''--fnek'' \<and> argv ! 2 = ''-'') in
      if \<not> (length argv = 1 \<or> fnek \<or> length argv = 2 \<and> argv ! 1 = ''-'') then Some (0, [], st)
      else let (passphrase, st) = read_pass env st in
      if \<not> pass_ok passphrase then Some (1, [], st)
      else do {
        passphrase \<leftarrow> passphrase;
        (ok, st) \<leftarrow> (if fnek then fnek_supported env st else Some (True, st));
        if \<not> ok then Some (1, [], st)
        else do {
          (salt, st) \<leftarrow> tool_salt env st;
          (rc, sig, keys, mem) \<leftarrow> ecryptfs_add_passphrase_key_to_keyring (te_hash env) (te_keyring env) (ts_keys st)
             passphrase salt (ts_mem st);
          let st = st\<lparr>ts_keys := keys, ts_mem := mem\<rparr>;
          if rc < 0 then Some (1, [], st)
          else do {
            sig \<leftarrow> sig;
            if \<not> fnek then Some (0, [sig], st)
            else do {
              (rc, sig2, keys, mem) \<leftarrow> ecryptfs_add_passphrase_key_to_keyring (te_hash env) (te_keyring env) (ts_keys st)
                 passphrase default_salt_fnek_hex (ts_mem st);
              let st = st\<lparr>ts_keys := keys, ts_mem := mem\<rparr>;
              if rc < 0 then Some (1, [sig], st)
              else do { sig2 \<leftarrow> sig2; Some (0, [sig, sig2], st) } } } } })"

subsection \<open>Lines as passphrases\<close>

lemma line_of_line: "10 \<notin> set l \<Longrightarrow> length l < n \<Longrightarrow> line_of n (l @ 10 # r) = l @ [10]"
proof (induction l arbitrary: n)
  case Nil
  then show ?case by (cases n) auto
next
  case (Cons b l)
  then show ?case by (cases n) auto
qed

lemma cut_newline: "10 \<notin> set l \<Longrightarrow> cut_last_newline (l @ [10]) = l"
  by (simp add: cut_last_newline_def)

definition pass_line :: "byte list \<Rightarrow> bool" where
  "pass_line l \<longleftrightarrow> 0 \<notin> set l \<and> 10 \<notin> set l \<and> length l \<le> MAX_PASSWORD_LENGTH"

lemma get_passphrase_line:
  assumes "pass_line l" "tm_input tm = l @ 10 # r"
  shows "\<exists>tm'. ecryptfs_get_passphrase j tm [] = (Some l, tm', []) \<and> tm_input tm' = r"
proof -
  have l: "0 \<notin> set l" "10 \<notin> set l" "length l < 65" using assms(1) by (auto simp: pass_line_def)
  obtain rc saved tm1 where d: "ecryptfs_disable_echo j tm = (rc, saved, tm1)" by (metis surj_pair)
  then have i: "tm_input tm1 = l @ 10 # r"
    using assms(2) by (auto simp: ecryptfs_disable_echo_def attr_call_def split: prod.splits bool.splits)
  have e: "tm_input (snd (ecryptfs_enable_echo saved tm2)) = tm_input tm2" for tm2
    by (auto simp: ecryptfs_enable_echo_def attr_call_def split: prod.splits bool.splits)
  have t: "text_in (l @ [10]) = l @ [10]" using l(1) by (auto simp: text_in_def takeWhile_eq_all_conv)
  have f: "c_fgets 66 (tm_input tm1) = Some (l @ [10], r)"
    using line_of_line [OF l(2,3)] i by (simp add: c_fgets_def Let_def)
  obtain rc' tm3 where en: "ecryptfs_enable_echo saved (tm1\<lparr>tm_input := r\<rparr>) = (rc', tm3)" by fastforce
  have "tm_input tm3 = r" using e [of "tm1\<lparr>tm_input := r\<rparr>"] en by simp
  then show ?thesis
    using d f en t cut_newline [OF l(2)] l(3) by (simp add: ecryptfs_get_passphrase_def)
qed

lemma read_pass_line:
  assumes "pass_line l" "tm_input (ts_tm st) = l @ 10 # r" "ts_mem st = []"
  obtains tm where "read_pass env st = (Some l, st\<lparr>ts_tm := tm\<rparr>)" "tm_input tm = r"
proof -
  obtain tm' where t: "ecryptfs_get_passphrase (te_junk_echo env) (ts_tm st) [] = (Some l, tm', [])" "tm_input tm' = r"
    using get_passphrase_line [OF assms(1,2)] by blast
  have "st\<lparr>ts_tm := tm', ts_mem := []\<rparr> = st\<lparr>ts_tm := tm'\<rparr>" using assms(3) by (cases st) simp
  then show ?thesis using that [of tm'] t assms(3) by (simp add: read_pass_def)
qed

subsection \<open>The tools together\<close>

text \<open>What the tools rely on, and the salt they use.\<close>

definition tools_ok :: "'k tool_env \<Rightarrow> byte list \<Rightarrow> bool" where
  "tools_ok env salt \<longleftrightarrow> io_ok (te_io env) \<and> nss_ok (te_nss env) \<and> hash_total (te_hash env) \<and> SALT_SIZE \<le> length salt
     \<and> (\<forall>st. ts_mem st = [] \<longrightarrow> tool_salt env st = Some (salt, st))"

text \<open>A file that holds a passphrase wrapped with another one.\<close>

definition holds_wrapped :: "'k tool_env \<Rightarrow> byte list \<Rightarrow> files \<Rightarrow> string \<Rightarrow> byte list \<Rightarrow> byte list \<Rightarrow> bool" where
  "holds_wrapped env salt files f wp p \<longleftrightarrow> (\<exists>buf. ecryptfs_unwrap_passphrase (te_io env) (te_nss env) (te_hash env) files f wp salt
     = Some (0, Some buf) \<and> c_string buf = Some p)"

lemma wrap_holds:
  assumes "tools_ok env salt" "length wp \<le> MAX_PASSWORD_LENGTH" "p \<noteq> []" "length p \<le> MAX_PASSWORD_LENGTH" "0 \<notin> set p"
  obtains content where
    "ecryptfs_wrap_passphrase (te_io env) (te_nss env) (te_hash env) files f wp salt p = Some (0, files(f \<mapsto> content))"
    "holds_wrapped env salt (files(f \<mapsto> content)) f wp p"
  using wrap_unwrap_result [of "te_io env" "te_nss env" "te_hash env" salt wp p files f] assms
  by (auto simp: tools_ok_def holds_wrapped_def)

lemma unwrap_prints:
  assumes "tools_ok env salt" "holds_wrapped env salt (ts_files st) f wp p" "ts_mem st = []"
    and "pass_line wp" "tm_input (ts_tm st) = wp @ 10 # r" "argv = [t, f] \<or> argv = [t, f, ''-'']"
  shows "\<exists>tm. unwrap_passphrase_main env argv st = Some (0, Some p, st\<lparr>ts_tm := tm\<rparr>) \<and> tm_input tm = r"
proof -
  obtain tm where r: "read_pass env st = (Some wp, st\<lparr>ts_tm := tm\<rparr>)" "tm_input tm = r"
    using read_pass_line [OF assms(4,5,3)] by metis
  have "pass_ok (Some wp)" using assms(4) by (simp add: pass_ok_def pass_line_def)
  then show ?thesis
    using assms(1-3,6) r by (auto simp: unwrap_passphrase_main_def wrapped_args_def tools_ok_def holds_wrapped_def)
qed

text \<open>
  What \<open>ecryptfs-wrap-passphrase\<close> wraps, \<open>ecryptfs-unwrap-passphrase\<close> prints, with the
  passphrases typed at the terminal or piped in.
\<close>

theorem wrap_then_unwrap_tools:
  assumes "tools_ok env salt" and "ts_mem st = []" and "pass_line p" "p \<noteq> []" "pass_line wp"
    and "tm_input (ts_tm st) = p @ 10 # wp @ 10 # wp @ 10 # r"
    and "argv = [t, f] \<or> argv = [t, f, ''-'']"
  shows "\<exists>st1 st2. wrap_passphrase_main env argv st = Some (0, st1)
    \<and> (\<forall>g. g \<noteq> f \<longrightarrow> ts_files st1 g = ts_files st g)
    \<and> unwrap_passphrase_main env argv st1 = Some (0, Some p, st2) \<and> ts_files st2 = ts_files st1"
proof -
  obtain tm1 where 1: "read_pass env st = (Some p, st\<lparr>ts_tm := tm1\<rparr>)" "tm_input tm1 = wp @ 10 # wp @ 10 # r"
    using read_pass_line [OF assms(3,6,2)] by metis
  obtain tm2 where 2: "read_pass env (st\<lparr>ts_tm := tm1\<rparr>) = (Some wp, st\<lparr>ts_tm := tm2\<rparr>)" "tm_input tm2 = wp @ 10 # r"
    using read_pass_line [OF assms(5), of "st\<lparr>ts_tm := tm1\<rparr>"] 1(2) assms(2) by auto
  have p: "length wp \<le> 64" "length p \<le> 64" "0 \<notin> set p" using assms(3,5) by (auto simp: pass_line_def)
  obtain content where c: "ecryptfs_wrap_passphrase (te_io env) (te_nss env) (te_hash env) (ts_files st) f wp salt p
      = Some (0, (ts_files st)(f \<mapsto> content))" "holds_wrapped env salt ((ts_files st)(f \<mapsto> content)) f wp p"
    using wrap_holds [OF assms(1) p(1) assms(4) p(2,3)] by metis
  let ?st = "st\<lparr>ts_tm := tm2, ts_files := (ts_files st)(f \<mapsto> content)\<rparr>"
  have "wrap_passphrase_main env argv st = Some (0, ?st)"
    using assms(1,2,7) 1 2 c(1) p by (auto simp: wrap_passphrase_main_def tools_ok_def pass_ok_def)
  moreover obtain tm where "unwrap_passphrase_main env argv ?st = Some (0, Some p, ?st\<lparr>ts_tm := tm\<rparr>)"
    using unwrap_prints [OF assms(1) _ _ assms(5) _ assms(7), of ?st p r] c(2) 2(2) assms(2) by auto
  ultimately show ?thesis by (intro exI [of _ ?st] exI [of _ "?st\<lparr>ts_tm := tm\<rparr>"]) auto
qed

text \<open>
  \<open>ecryptfs-rewrap-passphrase\<close> keeps the wrapped passphrase: afterwards the file holds it under
  the new wrapping passphrase, and no other file has changed.
\<close>

theorem rewrap_keeps_passphrase:
  assumes "tools_ok env salt" and "ts_mem st = []" and "holds_wrapped env salt (ts_files st) f old p"
    and "p \<noteq> []" "length p \<le> MAX_PASSWORD_LENGTH" "0 \<notin> set p" and "pass_line old" "pass_line new"
    and "argv = [t, f, ''-''] \<and> tm_input (ts_tm st) = old @ 10 # new @ 10 # r
      \<or> argv = [t, f] \<and> tm_input (ts_tm st) = old @ 10 # new @ 10 # new @ 10 # r"
  shows "\<exists>st1. rewrap_passphrase_main env argv st = Some (0, st1) \<and> holds_wrapped env salt (ts_files st1) f new p
    \<and> (\<forall>g. g \<noteq> f \<longrightarrow> ts_files st1 g = ts_files st g)"
proof -
  obtain q where q: "tm_input (ts_tm st) = old @ 10 # new @ 10 # q" "argv = [t, f] \<longrightarrow> q = new @ 10 # r" using assms(9) by auto
  obtain tm1 where 1: "read_pass env st = (Some old, st\<lparr>ts_tm := tm1\<rparr>)" "tm_input tm1 = new @ 10 # q"
    using read_pass_line [OF assms(7) q(1) assms(2)] by metis
  obtain tm2 where 2: "read_pass env (st\<lparr>ts_tm := tm1\<rparr>) = (Some new, st\<lparr>ts_tm := tm2\<rparr>)" "tm_input tm2 = q"
    using read_pass_line [OF assms(8), of "st\<lparr>ts_tm := tm1\<rparr>"] 1(2) assms(2) by auto
  have "\<exists>tm3. rewrap_args env argv st = Some (Inr (Some old, Some new), st\<lparr>ts_tm := tm3\<rparr>)"
  proof (cases "argv = [t, f]")
    case True
    then obtain tm3 where "read_pass env (st\<lparr>ts_tm := tm2\<rparr>) = (Some new, st\<lparr>ts_tm := tm3\<rparr>)"
      using read_pass_line [OF assms(8), of "st\<lparr>ts_tm := tm2\<rparr>" r env] 2(2) q(2) assms(2) by auto
    then show ?thesis using True 1 2 by (auto simp: rewrap_args_def)
  next
    case False
    then show ?thesis using assms(9) 1 2 by (auto simp: rewrap_args_def)
  qed
  then obtain tm3 where a: "rewrap_args env argv st = Some (Inr (Some old, Some new), st\<lparr>ts_tm := tm3\<rparr>)" by blast
  have l: "length old \<le> 64" "length new \<le> 64" using assms(7,8) by (auto simp: pass_line_def)
  have f: "argv ! Suc 0 = f" using assms(9) by auto
  obtain content where c: "ecryptfs_wrap_passphrase (te_io env) (te_nss env) (te_hash env) (ts_files st) f new salt p
      = Some (0, (ts_files st)(f \<mapsto> content))" "holds_wrapped env salt ((ts_files st)(f \<mapsto> content)) f new p"
    using wrap_holds [OF assms(1) l(2) assms(4-6)] by metis
  let ?st = "st\<lparr>ts_tm := tm3, ts_files := (ts_files st)(f \<mapsto> content)\<rparr>"
  have "rewrap_passphrase_main env argv st = Some (0, ?st)"
    using assms(1-3) a c(1) l f by (auto simp: rewrap_passphrase_main_def tools_ok_def holds_wrapped_def pass_ok_def)
  with c(2) show ?thesis by auto
qed

text \<open>
  Refused passphrases look like success: with one that is too long, or an argument of one
  character to \<open>ecryptfs-unwrap-passphrase\<close>, the tools do nothing and exit with status 0. The
  tool that inserts the passphrase takes the argument of one character.
\<close>

theorem refused_passphrases_exit_0:
  assumes "MAX_PASSWORD_LENGTH < length new" and "c \<noteq> CHR ''-''"
  shows "rewrap_passphrase_main env [t, f, old, new] st = Some (0, st)
    \<and> unwrap_passphrase_main env [t, f, [c]] st = Some (0, None, st)
    \<and> wrapped_args True env [t, f, [c]] st = (Some (f, Some (bytes_of_string [c])), st)"
  using assms by (simp add: rewrap_passphrase_main_def rewrap_args_def pass_ok_def unwrap_passphrase_main_def wrapped_args_def
      bytes_of_string_def)

lemma two_keys_found:
  assumes "hash_total hash" "SALT_SIZE \<le> length a" "SALT_SIZE \<le> length b" "length p \<le> MAX_PASSPHRASE_BYTES"
    and "keyring_finds_added kr" "keyring_keeps kr" "keyring_errnos kr"
    and "ecryptfs_add_passphrase_key_to_keyring hash kr k p a [] = Some (rc1, sg1, k1, mem1)" "0 \<le> rc1"
    and "ecryptfs_add_passphrase_key_to_keyring hash kr k1 p b mem1 = Some (rc2, sg2, k2, mem2)" "0 \<le> rc2"
  shows "sg1 = passphrase_sig hash a p \<and> sg2 = passphrase_sig hash b p \<and> sg1 \<noteq> None \<and> sg2 \<noteq> None
    \<and> (\<forall>s. sg1 = Some s \<or> sg2 = Some s \<longrightarrow> (\<exists>n. kr_search kr k2 s = Inr n))"
proof -
  obtain s1 s2 where s: "passphrase_sig hash a p = Some s1" "passphrase_sig hash b p = Some s2"
    using passphrase_key_total [OF assms(1)] by metis
  obtain t1 where 1: "mem1 = []" "sg1 = Some s1" "ecryptfs_add_auth_tok_to_keyring kr k t1 s1 = (rc1, k1)"
    using add_passphrase_key_ok [OF assms(1,2,4) s(1) assms(8)] by blast
  obtain t2 where 2: "sg2 = Some s2" "ecryptfs_add_auth_tok_to_keyring kr k1 t2 s2 = (rc2, k2)"
    using add_passphrase_key_ok [OF assms(1,3,4) s(2) assms(10) [unfolded 1(1)]] by blast
  note err = assms(7) [unfolded keyring_errnos_def]
  obtain n where "kr_search kr k1 s1 = Inr n" using add_auth_tok_found [OF assms(5) 1(3) assms(9)] err by blast
  from add_auth_tok_keeps [OF assms(6) this 2(2)] have "\<exists>m. kr_search kr k2 s1 = Inr m" .
  moreover have "\<exists>m. kr_search kr k2 s2 = Inr m" using add_auth_tok_found [OF assms(5) 2(2) assms(11)] err by blast
  ultimately show ?thesis using s 1(2) 2(1) by auto
qed

text \<open>
  \<open>ecryptfs-add-passphrase --fnek\<close> prints two signatures only when the keyring holds the keys of
  both: that of the passphrase with the user's salt, and that with the salt for file names.
\<close>

theorem add_passphrase_adds_both:
  assumes "tools_ok env salt" and "ts_mem st = []" and "pass_line p" "tm_input (ts_tm st) = p @ 10 # r"
    and "keyring_finds_added (te_keyring env)" "keyring_keeps (te_keyring env)" "keyring_errnos (te_keyring env)"
    and "fnek_supported env (snd (read_pass env st)) = Some (True, snd (read_pass env st))"
    and "add_passphrase_main env [t, ''--fnek''] st = Some (0, sigs, st')"
  shows "\<exists>s1 s2. sigs = [s1, s2] \<and> passphrase_sig (te_hash env) salt p = Some s1
    \<and> passphrase_sig (te_hash env) default_salt_fnek_hex p = Some s2
    \<and> (\<forall>s \<in> {s1, s2}. \<exists>n. kr_search (te_keyring env) (ts_keys st') s = Inr n)"
proof -
  obtain tm where r: "read_pass env st = (Some p, st\<lparr>ts_tm := tm\<rparr>)" using read_pass_line [OF assms(3,4,2)] by metis
  have p: "length p \<le> 64" "pass_ok (Some p)" using assms(3) by (simp_all add: pass_line_def pass_ok_def)
  have sl: "tool_salt env (st\<lparr>ts_tm := tm\<rparr>) = Some (salt, st\<lparr>ts_tm := tm\<rparr>)"
    using assms(1,2) by (simp add: tools_ok_def)
  note u = assms(9) [unfolded add_passphrase_main_def, simplified, unfolded r Let_def, simplified]
  let ?add = "ecryptfs_add_passphrase_key_to_keyring (te_hash env) (te_keyring env)"
  obtain rc1 sg1 k1 mem1 where 1: "?add (ts_keys st) p salt [] = Some (rc1, sg1, k1, mem1)"
    using u p(2) assms(2,8) r sl by (auto simp: bind_eq_Some_conv)
  have rc1: "0 \<le> rc1" using u p(2) assms(2,8) r sl 1 by (auto split: if_splits)
  obtain s1 where s1: "sg1 = Some s1" using u p(2) assms(2,8) r sl 1 rc1 by (auto simp: bind_eq_Some_conv)
  obtain rc2 sg2 k2 mem2 where 2: "?add k1 p default_salt_fnek_hex mem1 = Some (rc2, sg2, k2, mem2)"
    using u p(2) assms(2,8) r sl 1 rc1 s1 by (auto simp: bind_eq_Some_conv)
  have rc2: "0 \<le> rc2" using u p(2) assms(2,8) r sl 1 rc1 s1 2 by (auto split: if_splits)
  have fn: "SALT_SIZE \<le> length default_salt_fnek_hex" by (simp add: default_salt_fnek_hex_def)
  have h: "hash_total (te_hash env)" "SALT_SIZE \<le> length salt" using assms(1) by (simp_all add: tools_ok_def)
  note both = two_keys_found [OF h fn p(1) assms(5-7) 1 rc1 2 rc2]
  obtain s2 where "sg2 = Some s2" "sigs = [s1, s2]" "ts_keys st' = k2"
    using u p(2) assms(2,8) r sl 1 rc1 s1 2 rc2 both by auto
  then show ?thesis using both s1 by auto
qed

subsection \<open>A sample\<close>

definition sample_tool_env :: "(byte list \<times> ecryptfs_auth_tok) list tool_env" where
  "sample_tool_env = \<lparr>te_io = plain_io, te_nss = plain_nss, te_hash = toy_hash, te_keyring = list_keyring,
     te_open = (\<lambda>_. Inl ENOENT), te_pw_dir = None, te_exists = (\<lambda>_. True), te_junk = (\<lambda>_. 0), te_junk_echo = True,
     te_sysfs = sample_helper_env\<rparr>"

definition sample_tool_state :: "string \<Rightarrow> (byte list \<times> ecryptfs_auth_tok) list tool_state" where
  "sample_tool_state input = \<lparr>ts_tm = \<lparr>tm_input = bytes_of_string input, tm_echo = True, tm_attr = []\<rparr>,
     ts_files = (\<lambda>_. None), ts_keys = [], ts_mem = []\<rparr>"

lemma sample_tools_ok: "tools_ok sample_tool_env pass_sample_salt"
proof -
  have "ecryptfs_read_salt_hex_from_rc (\<lambda>_. 0) (\<lambda>_. Inl ENOENT) None [] = Some (- EIO, None, [])" by code_simp
  then have "tool_salt sample_tool_env st = Some (pass_sample_salt, st)" if "ts_mem st = []" for st
    using that pass_sample_hex by (cases st) (simp add: tool_salt_def sample_tool_env_def)
  then show ?thesis
    by (simp add: tools_ok_def sample_tool_env_def plain_io_ok plain_nss_ok toy_hash_total)
qed

theorem wrap_then_unwrap_tools_witness:
  "\<exists>st1 st2. wrap_passphrase_main sample_tool_env [''w'', ''f''] (sample_tool_state (''secret'' @ [CHR 0x0A] @ ''wp'' @ [CHR 0x0A] @ ''wp'' @ [CHR 0x0A]))
      = Some (0, st1)
    \<and> unwrap_passphrase_main sample_tool_env [''w'', ''f''] st1 = Some (0, Some (bytes_of_string ''secret''), st2)"
proof -
  have "pass_line (bytes_of_string ''secret'')" "pass_line (bytes_of_string ''wp'')" "bytes_of_string ''secret'' \<noteq> []"
    by code_simp+
  then show ?thesis
    using wrap_then_unwrap_tools [OF sample_tools_ok,
        of "sample_tool_state (''secret'' @ [CHR 0x0A] @ ''wp'' @ [CHR 0x0A] @ ''wp'' @ [CHR 0x0A])"
          "bytes_of_string ''secret''" "bytes_of_string ''wp''" "[]" "[''w'', ''f'']" "''w''" "''f''"]
    by (auto simp: sample_tool_state_def bytes_of_string_def)
qed

theorem rewrap_keeps_passphrase_witness:
  "\<exists>files st1. holds_wrapped sample_tool_env pass_sample_salt files ''f'' (bytes_of_string ''old'') (bytes_of_string ''secret'')
    \<and> rewrap_passphrase_main sample_tool_env [''w'', ''f'', ''-'']
        ((sample_tool_state (''old'' @ [CHR 0x0A] @ ''new'' @ [CHR 0x0A]))\<lparr>ts_files := files\<rparr>) = Some (0, st1)
    \<and> holds_wrapped sample_tool_env pass_sample_salt (ts_files st1) ''f'' (bytes_of_string ''new'') (bytes_of_string ''secret'')"
proof -
  let ?p = "bytes_of_string ''secret''" and ?o = "bytes_of_string ''old''" and ?n = "bytes_of_string ''new''"
  have l: "pass_line ?o" "pass_line ?n" "?p \<noteq> []" "length ?p \<le> 64" "0 \<notin> set ?p" "length ?o \<le> 64" by code_simp+
  obtain content where h: "holds_wrapped sample_tool_env pass_sample_salt ((\<lambda>_. None)(''f'' \<mapsto> content)) ''f'' ?o ?p"
    using wrap_holds [OF sample_tools_ok l(6,3-5), of "\<lambda>_. None" "''f''"] by metis
  let ?st = "(sample_tool_state (''old'' @ [CHR 0x0A] @ ''new'' @ [CHR 0x0A]))\<lparr>ts_files := (\<lambda>_. None)(''f'' \<mapsto> content)\<rparr>"
  have "\<exists>st1. rewrap_passphrase_main sample_tool_env [''w'', ''f'', ''-''] ?st = Some (0, st1)
      \<and> holds_wrapped sample_tool_env pass_sample_salt (ts_files st1) ''f'' ?n ?p \<and> (\<forall>g. g \<noteq> ''f'' \<longrightarrow> ts_files st1 g = ts_files ?st g)"
    by (rule rewrap_keeps_passphrase [OF sample_tools_ok _ _ l(3-5) l(1,2), where t = "''w''" and r = "[]"])
      (use h in \<open>simp_all add: sample_tool_state_def bytes_of_string_def\<close>)
  with h show ?thesis by blast
qed

theorem refused_passphrases_exit_0_witness:
  "\<exists>st. rewrap_passphrase_main sample_tool_env [''r'', ''f'', ''old'', replicate 65 CHR ''x''] st = Some (0, st)"
  using refused_passphrases_exit_0 [of "replicate 65 CHR ''x''" "CHR ''y''" sample_tool_env "''r''" "''f''" "''old''"] by auto

theorem add_passphrase_adds_both_witness:
  "\<exists>sigs st'. add_passphrase_main sample_tool_env [''a'', ''--fnek''] (sample_tool_state (''abc'' @ [CHR 0x0A])) = Some (0, sigs, st')
    \<and> length sigs = 2 \<and> (\<forall>s \<in> set sigs. \<exists>n. kr_search list_keyring (ts_keys st') s = Inr n)"
proof -
  let ?st = "sample_tool_state (''abc'' @ [CHR 0x0A])" and ?p = "bytes_of_string ''abc''"
  let ?add = "ecryptfs_add_passphrase_key_to_keyring toy_hash list_keyring"
  have l: "pass_line ?p" "length ?p \<le> 64" "SALT_SIZE \<le> length pass_sample_salt" "SALT_SIZE \<le> length default_salt_fnek_hex"
    by code_simp+
  have t: "ts_mem ?st = []" "tm_input (ts_tm ?st) = ?p @ 10 # []" by (simp_all add: sample_tool_state_def bytes_of_string_def)
  obtain tm where r: "read_pass sample_tool_env ?st = (Some ?p, ?st\<lparr>ts_tm := tm\<rparr>)" using read_pass_line [OF l(1) t(2,1)] by metis
  have fs: "fnek_supported sample_tool_env (snd (read_pass sample_tool_env ?st)) = Some (True, snd (read_pass sample_tool_env ?st))"
    using sample_version sample_flags(2) unfolding r
    by (simp add: fnek_supported_def sample_tool_env_def sample_mgr_env_def sample_tool_state_def)
  obtain rc1 s1 k1 where 1: "?add [] ?p pass_sample_salt [] = Some (rc1, Some s1, k1, [])" "0 \<le> rc1"
    using list_keyring_add [OF toy_hash_total l(3,2), of "[]"] by blast
  obtain rc2 s2 k2 where 2: "?add k1 ?p default_salt_fnek_hex [] = Some (rc2, Some s2, k2, [])" "0 \<le> rc2"
    using list_keyring_add [OF toy_hash_total l(4,2), of k1] by blast
  have e: "te_hash sample_tool_env = toy_hash" "te_keyring sample_tool_env = list_keyring" "ts_keys ?st = []"
    by (simp_all add: sample_tool_env_def sample_tool_state_def)
  have sl: "tool_salt sample_tool_env (?st\<lparr>ts_tm := tm\<rparr>) = Some (pass_sample_salt, ?st\<lparr>ts_tm := tm\<rparr>)"
    using sample_tools_ok t(1) by (simp add: tools_ok_def)
  obtain st' where m: "add_passphrase_main sample_tool_env [''a'', ''--fnek''] ?st = Some (0, [s1, s2], st')"
    using r fs sl 1 2 e t(1) l(2) by (simp add: add_passphrase_main_def pass_ok_def)
  from add_passphrase_adds_both [OF sample_tools_ok t(1) l(1) t(2) _ _ _ fs m] show ?thesis
    using m list_keyring_laws by (auto simp: e)
qed

end
