(* ===== verification/Login.thy ===== *)
theory Login
  imports Tools
begin

text \<open>
  The login module \<open>src/pam_ecryptfs/pam_ecryptfs.c\<close>: keys at login, mounts at the start and the
  end of a session, rewrapping when the password changes.

  The state is that of the process which loads the module, its credentials, and what it shares
  with its children: files and keyring. A child is run to its end before the parent goes on, as
  the parent waits for it. The history \<open>ls_log\<close> has the credentials of every process that worked on
  the keyring or on a wrapped passphrase.
\<close>

abbreviation (input) PAM_SUCCESS :: int where "PAM_SUCCESS \<equiv> 0"
abbreviation (input) PAM_AUTHTOK_RECOVER_ERR :: int where "PAM_AUTHTOK_RECOVER_ERR \<equiv> 21"

subsection \<open>Credentials\<close>

record creds =
  cr_ruid :: nat
  cr_euid :: nat
  cr_suid :: nat
  cr_rgid :: nat
  cr_egid :: nat
  cr_sgid :: nat
  cr_groups :: "nat list"

text \<open>
  The calls that change credentials, by the rules of Linux: effective user 0 may do everything,
  others may only take up one of their own identities. A call that is permitted may fail all the
  same, by the schedule \<open>ls_cred_calls\<close>; the outcomes of the other calls are in \<open>ls_calls\<close>.
\<close>

definition cred_call :: "bool \<Rightarrow> creds \<Rightarrow> creds \<Rightarrow> schedule \<Rightarrow> bool \<times> creds \<times> schedule" where
  "cred_call permitted new c calls =
     (case malloc_ok calls of (ok, calls) \<Rightarrow> if ok \<and> permitted then (True, new, calls) else (False, c, calls))"

definition c_seteuid :: "nat \<Rightarrow> creds \<Rightarrow> schedule \<Rightarrow> bool \<times> creds \<times> schedule" where
  "c_seteuid u c = cred_call (cr_euid c = 0 \<or> u \<in> {cr_ruid c, cr_euid c, cr_suid c}) (c\<lparr>cr_euid := u\<rparr>) c"

definition c_setegid :: "nat \<Rightarrow> creds \<Rightarrow> schedule \<Rightarrow> bool \<times> creds \<times> schedule" where
  "c_setegid g c = cred_call (cr_euid c = 0 \<or> g \<in> {cr_rgid c, cr_egid c, cr_sgid c}) (c\<lparr>cr_egid := g\<rparr>) c"

definition c_setgroups :: "nat list \<Rightarrow> creds \<Rightarrow> schedule \<Rightarrow> bool \<times> creds \<times> schedule" where
  "c_setgroups gs c = cred_call (cr_euid c = 0) (c\<lparr>cr_groups := gs\<rparr>) c"

definition c_setuid :: "nat \<Rightarrow> creds \<Rightarrow> schedule \<Rightarrow> bool \<times> creds \<times> schedule" where
  "c_setuid u c =
     (if cr_euid c = 0 then cred_call True (c\<lparr>cr_ruid := u, cr_euid := u, cr_suid := u\<rparr>) c
      else cred_call (u \<in> {cr_ruid c, cr_suid c}) (c\<lparr>cr_euid := u\<rparr>) c)"

definition c_setgid :: "nat \<Rightarrow> creds \<Rightarrow> schedule \<Rightarrow> bool \<times> creds \<times> schedule" where
  "c_setgid g c =
     (if cr_euid c = 0 then cred_call True (c\<lparr>cr_rgid := g, cr_egid := g, cr_sgid := g\<rparr>) c
      else cred_call (g \<in> {cr_rgid c, cr_sgid c}) (c\<lparr>cr_egid := g\<rparr>) c)"

definition c_setresuid :: "nat \<Rightarrow> creds \<Rightarrow> schedule \<Rightarrow> bool \<times> creds \<times> schedule" where
  "c_setresuid u c = cred_call (cr_euid c = 0 \<or> u \<in> {cr_ruid c, cr_euid c, cr_suid c})
     (c\<lparr>cr_ruid := u, cr_euid := u, cr_suid := u\<rparr>) c"

subsection \<open>Environment and state\<close>

record pam_passwd = pw_uid :: nat
  pw_gid :: nat
  pw_dir :: string
  pw_name :: string

text \<open>
  What the PAM library and the system answer. \<open>pm_open\<close> opens an options file for an effective
  user, \<open>pm_home\<close> is \<open>getpwuid\<close>, \<open>pm_stat_err\<close> an error of \<open>stat\<close> other than that there is no such
  file.
\<close>

record 'k pam_env =
  pm_tool :: "'k tool_env"
  pm_open :: "nat \<Rightarrow> string \<Rightarrow> int + open_file"
  pm_home :: "nat \<Rightarrow> string option"
  pm_get_user :: "int \<times> string"
  pm_getpwnam :: "string \<Rightarrow> pam_passwd option"
  pm_prompt :: "int \<times> byte list option"
  pm_authtok :: "int \<times> byte list option"
  pm_oldauthtok :: "int \<times> byte list option"
  pm_stat_err :: "string \<Rightarrow> int option"
  pm_owner :: "string \<Rightarrow> nat"
  pm_is_reg :: "string \<Rightarrow> bool"
  pm_proc_mounts :: "mntent list option"
  pm_argv :: "string list"
  pm_exec_ok :: bool
  pm_keyctl_link :: int

record 'k login_state =
  ls_creds :: creds
  ls_files :: files
  ls_keys :: 'k
  ls_log :: "creds list"
  ls_linked :: bool
  ls_placeholder :: bool
  ls_calls :: schedule
  ls_cred_calls :: schedule

definition ls_malloc :: "'k login_state \<Rightarrow> bool \<times> 'k login_state" where
  "ls_malloc st = (case malloc_ok (ls_calls st) of (ok, calls) \<Rightarrow> (ok, st\<lparr>ls_calls := calls\<rparr>))"

definition ls_cred ::
  "(creds \<Rightarrow> schedule \<Rightarrow> bool \<times> creds \<times> schedule) \<Rightarrow> 'k login_state \<Rightarrow> bool \<times> 'k login_state" where
  "ls_cred f st = (case f (ls_creds st) (ls_cred_calls st) of (ok, c, calls) \<Rightarrow> (ok, st\<lparr>ls_creds := c, ls_cred_calls := calls\<rparr>))"

definition ls_act :: "'k login_state \<Rightarrow> 'k login_state" where
  "ls_act st = st\<lparr>ls_log := ls_creds st # ls_log st\<rparr>"

text \<open>\<open>stat\<close>: an error number, or the owner.\<close>

definition c_stat :: "'k pam_env \<Rightarrow> files \<Rightarrow> string \<Rightarrow> int + nat" where
  "c_stat env files path =
     (case pm_stat_err env path of
        Some e \<Rightarrow> Inl e
      | None \<Rightarrow> (case files path of None \<Rightarrow> Inl ENOENT | Some _ \<Rightarrow> Inr (pm_owner env path)))"

definition stat_ok :: "int + nat \<Rightarrow> bool" where
  "stat_ok r = (case r of Inl _ \<Rightarrow> False | Inr _ \<Rightarrow> True)"

subsection \<open>Files of the user\<close>

definition file_exists_dotecryptfs :: "'k pam_env \<Rightarrow> string \<Rightarrow> string \<Rightarrow> 'k login_state \<Rightarrow> int \<times> 'k login_state" where
  "file_exists_dotecryptfs env homedir filename st =
     (case ls_malloc st of
        (False, st) \<Rightarrow> (- ENOMEM, st)
      | (True, st) \<Rightarrow>
          (case c_stat env (ls_files st) (homedir @ ''/.ecryptfs/'' @ filename) of
             Inl e \<Rightarrow> (if e \<noteq> ENOENT then - e else 0, st)
           | Inr _ \<Rightarrow> (1, st)))"

text \<open>
  The status of the options file, and the salt: the file is that of the real user, opened with the
  effective one.
\<close>

definition login_salt :: "'k pam_env \<Rightarrow> 'k login_state \<Rightarrow> (int \<times> byte list \<times> 'k login_state) option" where
  "login_salt env st = do {
     (rc, salt_hex, calls) \<leftarrow> ecryptfs_read_salt_hex_from_rc (te_junk (pm_tool env))
        (pm_open env (cr_euid (ls_creds st))) (pm_home env (cr_ruid (ls_creds st))) (ls_calls st);
     salt \<leftarrow> (if rc \<noteq> 0 then from_hex (DEFAULT_SALT_HEX @ [0]) SALT_SIZE
             else do { salt_hex \<leftarrow> salt_hex; from_hex salt_hex SALT_SIZE });
     Some (rc, salt, st\<lparr>ls_calls := calls\<rparr>) }"

text \<open>The status, with the process as it is afterwards: \<open>setuid\<close> is called in it.\<close>

definition wrap_passphrase_if_necessary ::
  "'k pam_env \<Rightarrow> string \<Rightarrow> nat \<Rightarrow> string \<Rightarrow> byte list option \<Rightarrow> byte list \<Rightarrow> 'k login_state
   \<Rightarrow> (int \<times> 'k login_state) option" where
  "wrap_passphrase_if_necessary env username uid wrapped_pw_filename passphrase salt st =
     (case ls_malloc st of
        (False, st) \<Rightarrow> Some (- ENOMEM, st)
      | (True, st) \<Rightarrow>
          let unwrapped_pw_filename = ''/dev/shm/.ecryptfs-'' @ username in
          (case passphrase of
             Some p \<Rightarrow>
               if c_stat env (ls_files st) unwrapped_pw_filename = Inr uid
                  \<and> \<not> stat_ok (c_stat env (ls_files st) wrapped_pw_filename) \<and> p \<noteq> [] \<and> username \<noteq> []
               then do {
                 let st = ls_act (snd (ls_cred (c_setuid uid) st));
                 (rc, files) \<leftarrow> ecryptfs_wrap_passphrase_file (te_io (pm_tool env)) (te_nss (pm_tool env)) (te_hash (pm_tool env))
                    (ls_files st) wrapped_pw_filename p salt unwrapped_pw_filename;
                 Some (rc, st\<lparr>ls_files := files\<rparr>) }
               else Some (0, st)
           | None \<Rightarrow> Some (0, st)))"

definition wrapped_name :: "string \<Rightarrow> string" where
  "wrapped_name homedir = homedir @ ''/.ecryptfs/wrapped-passphrase''"

text \<open>
  The user's identities and home directory. A user without an entry is user 0 with a null pointer
  as home directory, which prints as \<open>(null)\<close>.
\<close>

definition user_of :: "'k pam_env \<Rightarrow> nat \<times> nat \<times> string" where
  "user_of env = (case pm_getpwnam env (snd (pm_get_user env)) of
     Some pw \<Rightarrow> (pw_uid pw, pw_gid pw, pw_dir pw)
   | None \<Rightarrow> (0, 0, ''(null)''))"

subsection \<open>Taking up the user's identity, and going back\<close>

text \<open>\<open>getgroups\<close> may fail; then nothing has been changed.\<close>

definition drop_privileges :: "nat \<Rightarrow> nat \<Rightarrow> 'k login_state \<Rightarrow> bool \<times> 'k login_state" where
  "drop_privileges uid gid st =
     (case ls_cred (c_setegid gid) st of
        (False, st) \<Rightarrow> (False, st)
      | (True, st) \<Rightarrow>
          (case ls_cred (c_setgroups [gid]) st of
             (False, st) \<Rightarrow> (False, st)
           | (True, st) \<Rightarrow> ls_cred (c_seteuid uid) st))"

definition restore_privileges :: "nat \<Rightarrow> nat \<Rightarrow> nat list \<Rightarrow> 'k login_state \<Rightarrow> 'k login_state" where
  "restore_privileges oeuid oegid groups st =
     snd (ls_cred (c_setgroups groups) (snd (ls_cred (c_setegid oegid) (snd (ls_cred (c_seteuid oeuid) st)))))"

text \<open>In a child: the effective user is taken back to give up all identities for good.\<close>

definition become_user :: "nat \<Rightarrow> nat \<Rightarrow> nat \<Rightarrow> 'k login_state \<Rightarrow> bool \<times> 'k login_state" where
  "become_user oeuid uid gid st =
     (case ls_cred (c_setgid gid) (snd (ls_cred (c_seteuid oeuid) st)) of
        (False, st) \<Rightarrow> (False, st)
      | (True, st) \<Rightarrow> ls_cred (c_setuid uid) st)"

text \<open>What a child leaves: its files, keys, history and schedule, but not its credentials.\<close>

definition after_child :: "'k login_state \<Rightarrow> 'k login_state \<Rightarrow> 'k login_state" where
  "after_child parent child = child\<lparr>ls_creds := ls_creds parent\<rparr>"

subsection \<open>Login\<close>

text \<open>The keys are in the keyring, or not: a placeholder for the session is started for new ones.\<close>

definition start_placeholder :: "int \<Rightarrow> 'k login_state \<Rightarrow> 'k login_state" where
  "start_placeholder rc st =
     (if rc \<noteq> 0 then st
      else (case ls_malloc st of (ok, st) \<Rightarrow> st\<lparr>ls_placeholder := ok \<or> ls_placeholder st\<rparr>))"

text \<open>
  The user's keyring is linked into that of the session; a failure is only logged.
\<close>

definition link_keyring :: "'k pam_env \<Rightarrow> 'k login_state \<Rightarrow> 'k login_state" where
  "link_keyring env st = ls_act (st\<lparr>ls_linked := ecryptfs_validate_keyring (pm_keyctl_link env) = 0 \<or> ls_linked st\<rparr>)"

text \<open>The child of \<open>pam_sm_authenticate\<close>.\<close>

definition auth_child ::
  "'k pam_env \<Rightarrow> nat \<Rightarrow> nat \<Rightarrow> nat \<Rightarrow> string \<Rightarrow> byte list option \<Rightarrow> byte list \<Rightarrow> 'k login_state
   \<Rightarrow> 'k login_state option" where
  "auth_child env oeuid uid gid homedir passphrase salt st =
     (let te = pm_tool env in
      case become_user oeuid uid gid st of
        (False, st) \<Rightarrow> Some st
      | (True, st) \<Rightarrow>
          (case passphrase of
             None \<Rightarrow> Some st
           | Some p \<Rightarrow>
               let st = link_keyring env st in
               if pm_argv env = [''unwrap''] then
                 (case ls_malloc st of
                    (False, st) \<Rightarrow> Some st
                  | (True, st) \<Rightarrow> do {
                      (rc, st) \<leftarrow> wrap_passphrase_if_necessary env (snd (pm_get_user env)) uid (wrapped_name homedir) (Some p) salt st;
                      if rc \<noteq> 0 then Some st
                      else do {
                        let st = ls_act st;
                        (rc, sig, keys, calls) \<leftarrow> ecryptfs_insert_wrapped_passphrase_into_keyring (te_io te) (te_nss te) (te_hash te)
                           (te_keyring te) (ls_files st) (ls_keys st) (wrapped_name homedir) p salt (ls_calls st);
                        Some (start_placeholder rc (st\<lparr>ls_keys := keys, ls_calls := calls\<rparr>)) } })
               else do {
                 let st = ls_act st;
                 (rc, sig, keys, calls) \<leftarrow> ecryptfs_add_passphrase_key_to_keyring (te_hash te) (te_keyring te) (ls_keys st) p salt
                    (ls_calls st);
                 Some (start_placeholder rc (st\<lparr>ls_keys := keys, ls_calls := calls\<rparr>)) }))"

definition files_as_bytes :: "files \<Rightarrow> byte list \<rightharpoonup> byte list" where
  "files_as_bytes files path = files (map (\<lambda>b. char_of (unat b)) path)"

text \<open>The part of \<open>pam_sm_authenticate\<close> that runs as the user.\<close>

definition auth_as_user ::
  "'k pam_env \<Rightarrow> nat \<Rightarrow> nat \<Rightarrow> nat \<Rightarrow> string \<Rightarrow> 'k login_state \<Rightarrow> 'k login_state option" where
  "auth_as_user env oeuid uid gid homedir st =
     (case file_exists_dotecryptfs env homedir ''auto-mount'' st of
        (auto, st) \<Rightarrow>
          if auto = 0 then Some st
          else (case ecryptfs_fetch_private_mnt (files_as_bytes (ls_files st)) (bytes_of_string homedir) (ls_calls st) of
             (mnt, calls) \<Rightarrow> do {
               (mounted, calls) \<leftarrow> ecryptfs_private_is_mounted (pm_proc_mounts env) None mnt None True calls;
               let st = st\<lparr>ls_calls := calls\<rparr>;
               if mounted \<noteq> 0 then Some st
               else (case file_exists_dotecryptfs env homedir ''wrapping-independent'' st of
                  (independent, st) \<Rightarrow>
                    let (rc, passphrase) = (if independent = 1 then pm_prompt env else pm_authtok env) in
                    if rc \<noteq> PAM_SUCCESS then Some st
                    else (case ls_malloc st of
                       (False, st) \<Rightarrow> Some st
                     | (True, st) \<Rightarrow> do {
                         (_, salt, st) \<leftarrow> login_salt env st;
                         (case ls_malloc st of
                            (False, st) \<Rightarrow> Some st
                          | (True, st) \<Rightarrow> do {
                              child \<leftarrow> auth_child env oeuid uid gid homedir passphrase salt st;
                              Some (after_child st child) }) })) }))"

text \<open>
  Without a user name, the variables that hold the credentials to go back to are still those of
  their initialisation.
\<close>

definition pam_sm_authenticate :: "'k pam_env \<Rightarrow> 'k login_state \<Rightarrow> (int \<times> 'k login_state) option" where
  "pam_sm_authenticate env st =
     (if fst (pm_get_user env) \<noteq> PAM_SUCCESS then Some (PAM_SUCCESS, restore_privileges 0 0 [] st)
      else (case user_of env of
         (uid, gid, homedir) \<Rightarrow>
           let oeuid = cr_euid (ls_creds st); oegid = cr_egid (ls_creds st); groups = cr_groups (ls_creds st) in
           (case ls_malloc st of
              (False, st) \<Rightarrow> Some (PAM_SUCCESS, st)
            | (True, st) \<Rightarrow> do {
                st \<leftarrow> (case drop_privileges uid gid st of
                         (False, st) \<Rightarrow> Some st
                       | (True, st) \<Rightarrow> auth_as_user env oeuid uid gid homedir st);
                Some (PAM_SUCCESS, restore_privileges oeuid oegid groups st) })))"

definition pam_sm_setcred :: "'k pam_env \<Rightarrow> 'k login_state \<Rightarrow> int \<times> 'k login_state" where
  "pam_sm_setcred env st = (PAM_SUCCESS, st)"

subsection \<open>Sessions\<close>

definition fetch_pwd :: "'k pam_env \<Rightarrow> pam_passwd option" where
  "fetch_pwd env = (if fst (pm_get_user env) \<noteq> PAM_SUCCESS then None else pm_getpwnam env (snd (pm_get_user env)))"

text \<open>
  How the child of \<open>private_dir\<close> ends: it exits, it becomes another program, or it returns to the
  application like its parent.
\<close>

datatype child_end = Child_Exits int | Child_Execs string creds | Child_Returns int creds

text \<open>The identities are given up, and the helper is run.\<close>

definition exec_as_user :: "'k pam_env \<Rightarrow> pam_passwd \<Rightarrow> string \<Rightarrow> 'k login_state \<Rightarrow> child_end" where
  "exec_as_user env pwd prog st =
     (case ls_cred (c_setgroups [pw_gid pwd]) st of
        (False, st) \<Rightarrow> Child_Returns (-1) (ls_creds st)
      | (True, st) \<Rightarrow>
          (case ls_cred (c_setgid (pw_gid pwd)) st of
             (False, st) \<Rightarrow> Child_Returns (-1) (ls_creds st)
           | (True, st) \<Rightarrow>
               (case ls_cred (c_setresuid (pw_uid pwd)) st of
                  (False, st) \<Rightarrow> Child_Returns (-1) (ls_creds st)
                | (True, st) \<Rightarrow> if pm_exec_ok env then Child_Execs prog (ls_creds st) else Child_Exits 1)))"

text \<open>
  \<open>private_dir\<close>: the status in the parent, whether the note to record the passphrase was posted,
  and the end of the child.
\<close>

definition private_dir :: "'k pam_env \<Rightarrow> bool \<Rightarrow> 'k login_state \<Rightarrow> int \<times> bool \<times> child_end option" where
  "private_dir env mount st =
     (case fetch_pwd env of
        None \<Rightarrow> (1, False, None)
      | Some pwd \<Rightarrow>
          (case ls_malloc st of
             (False, st) \<Rightarrow> (1, False, None)
           | (True, st) \<Rightarrow>
               (case ls_malloc st of
                  (False, st) \<Rightarrow> (1, False, None)
                | (True, st) \<Rightarrow>
                    let autofile = pw_dir pwd @ ''/.ecryptfs/'' @ (if mount then ''auto-mount'' else ''auto-umount'');
                        sigfile = pw_dir pwd @ ''/.ecryptfs/Private.sig'';
                        there = (\<lambda>path. stat_ok (c_stat env (ls_files st) path))
                    in if \<not> there sigfile \<or> \<not> pm_is_reg env sigfile then (0, False, None)
                    else (case ls_malloc st of
                       (False, st) \<Rightarrow> (1, False, None)
                     | (True, st) \<Rightarrow>
                         if mount then
                           (case ls_malloc st of
                              (False, st) \<Rightarrow> (0, False, Some (Child_Exits 1))
                            | (True, st) \<Rightarrow>
                                let note = \<not> there (pw_dir pwd @ ''/.ecryptfs/.wrapped-passphrase.recorded'')
                                             \<and> there ''/usr/share/ecryptfs-utils/ecryptfs-record-passphrase'' in
                                (0, note, Some (if \<not> there autofile then Child_Exits 0
                                   else exec_as_user env pwd ''/sbin/mount.ecryptfs_private'' st)))
                         else (0, False, Some (if \<not> there autofile then Child_Exits 0
                                else exec_as_user env pwd ''/sbin/umount.ecryptfs_private'' st))))))"

definition pam_sm_open_session :: "'k pam_env \<Rightarrow> 'k login_state \<Rightarrow> int \<times> bool \<times> child_end option" where
  "pam_sm_open_session env st = (PAM_SUCCESS, snd (private_dir env True st))"

definition pam_sm_close_session :: "'k pam_env \<Rightarrow> 'k login_state \<Rightarrow> int \<times> bool \<times> child_end option" where
  "pam_sm_close_session env st = (PAM_SUCCESS, snd (private_dir env False st))"

subsection \<open>A new password\<close>

text \<open>The child: nothing of its status is left after it exits.\<close>

definition rewrap_child ::
  "'k pam_env \<Rightarrow> nat \<Rightarrow> nat \<Rightarrow> nat \<Rightarrow> string \<Rightarrow> byte list \<Rightarrow> byte list \<Rightarrow> byte list \<Rightarrow> 'k login_state
   \<Rightarrow> 'k login_state option" where
  "rewrap_child env oeuid uid gid wrapped_pw_filename old new salt st =
     (let te = pm_tool env in
      case become_user oeuid uid gid st of
        (False, st) \<Rightarrow> Some st
      | (True, st) \<Rightarrow> do {
          let st = ls_act st;
          (rc, buf) \<leftarrow> ecryptfs_unwrap_passphrase (te_io te) (te_nss te) (te_hash te) (ls_files st) wrapped_pw_filename old salt;
          if rc \<noteq> 0 then Some st
          else do {
            buf \<leftarrow> buf;
            passphrase \<leftarrow> c_string buf;
            (rc, files) \<leftarrow> ecryptfs_wrap_passphrase (te_io te) (te_nss te) (te_hash te) (ls_files st) wrapped_pw_filename new salt
               passphrase;
            Some (st\<lparr>ls_files := files\<rparr>) } })"

text \<open>The part of \<open>pam_sm_chauthtok\<close> that runs as the user.\<close>

definition chauthtok_as_user ::
  "'k pam_env \<Rightarrow> bool \<Rightarrow> nat \<Rightarrow> nat \<Rightarrow> nat \<Rightarrow> string \<Rightarrow> 'k login_state \<Rightarrow> (int \<times> 'k login_state) option" where
  "chauthtok_as_user env prelim oeuid uid gid homedir st =
     (let (rc, old) = pm_oldauthtok env in
      if rc \<noteq> PAM_SUCCESS then Some (rc, st)
      else if prelim then Some (if old = None then PAM_AUTHTOK_RECOVER_ERR else PAM_SUCCESS, st)
      else let (rc, new) = pm_authtok env in
      if rc \<noteq> PAM_SUCCESS then Some (rc, st)
      else (case ls_malloc st of
         (False, st) \<Rightarrow> Some (- ENOMEM, st)
       | (True, st) \<Rightarrow> do {
           (salt_rc, salt, st) \<leftarrow> login_salt env st;
           (rc, st) \<leftarrow> wrap_passphrase_if_necessary env (snd (pm_get_user env)) uid (wrapped_name homedir) new salt st;
           if rc \<noteq> 0 then Some (salt_rc, st)
           else (case (old, new) of
              (Some o', Some n) \<Rightarrow>
                if n = [] then Some (PAM_AUTHTOK_RECOVER_ERR, st)
                else (case ls_malloc st of
                   (False, st) \<Rightarrow> Some (PAM_SUCCESS, st)
                 | (True, st) \<Rightarrow> do {
                     child \<leftarrow> rewrap_child env oeuid uid gid (wrapped_name homedir) o' n salt st;
                     Some (PAM_SUCCESS, after_child st child) })
            | _ \<Rightarrow> Some (PAM_AUTHTOK_RECOVER_ERR, st)) }))"

definition pam_sm_chauthtok :: "'k pam_env \<Rightarrow> bool \<Rightarrow> 'k login_state \<Rightarrow> (int \<times> 'k login_state) option" where
  "pam_sm_chauthtok env prelim st =
     (if fst (pm_get_user env) \<noteq> PAM_SUCCESS then Some (fst (pm_get_user env), restore_privileges 0 0 [] st)
      else (case user_of env of
         (uid, gid, homedir) \<Rightarrow>
           let oeuid = cr_euid (ls_creds st); oegid = cr_egid (ls_creds st); groups = cr_groups (ls_creds st) in
           (case ls_malloc st of
              (False, st) \<Rightarrow> Some (PAM_SUCCESS, st)
            | (True, st) \<Rightarrow> do {
                (rc, st) \<leftarrow> (case drop_privileges uid gid st of
                         (False, st) \<Rightarrow> Some (PAM_SUCCESS, st)
                       | (True, st) \<Rightarrow> chauthtok_as_user env prelim oeuid uid gid homedir st);
                Some (rc, restore_privileges oeuid oegid groups st) })))"

subsection \<open>Who works on keys and passphrases\<close>

definition acts_as :: "nat \<Rightarrow> nat \<Rightarrow> creds \<Rightarrow> bool" where
  "acts_as uid gid c \<longleftrightarrow> cr_euid c = uid \<and> cr_egid c = gid \<and> cr_groups c = [gid]"

definition logs_as :: "nat \<Rightarrow> nat \<Rightarrow> 'k login_state \<Rightarrow> 'k login_state \<Rightarrow> bool" where
  "logs_as uid gid st st' \<longleftrightarrow> (\<exists>new. ls_log st' = new @ ls_log st \<and> (\<forall>c \<in> set new. acts_as uid gid c))"

lemma logs_as_refl: "ls_log st' = ls_log st \<Longrightarrow> logs_as uid gid st st'"
  by (simp add: logs_as_def)

lemma logs_as_trans [trans]: "logs_as uid gid st st' \<Longrightarrow> logs_as uid gid st' st'' \<Longrightarrow> logs_as uid gid st st''"
  by (fastforce simp: logs_as_def)

lemmas cred_defs = ls_cred_def cred_call_def c_seteuid_def c_setegid_def c_setgroups_def c_setuid_def c_setgid_def c_setresuid_def

lemma ls_malloc_keeps:
  "ls_malloc st = (ok, st') \<Longrightarrow> ls_creds st' = ls_creds st \<and> ls_log st' = ls_log st \<and> ls_cred_calls st' = ls_cred_calls st
     \<and> ls_files st' = ls_files st \<and> ls_keys st' = ls_keys st"
  by (auto simp: ls_malloc_def split: prod.splits)

lemma file_exists_keeps:
  "file_exists_dotecryptfs env h f st = (r, st') \<Longrightarrow> ls_creds st' = ls_creds st \<and> ls_log st' = ls_log st
     \<and> ls_cred_calls st' = ls_cred_calls st \<and> ls_files st' = ls_files st \<and> ls_keys st' = ls_keys st"
  using ls_malloc_keeps by (fastforce simp: file_exists_dotecryptfs_def split: prod.splits bool.splits sum.splits)

lemma login_salt_keeps:
  "login_salt env st = Some (rc, salt, st') \<Longrightarrow> ls_creds st' = ls_creds st \<and> ls_log st' = ls_log st
     \<and> ls_cred_calls st' = ls_cred_calls st \<and> ls_files st' = ls_files st \<and> ls_keys st' = ls_keys st"
  by (auto simp: login_salt_def bind_eq_Some_conv)

lemma drop_privileges_acts:
  "drop_privileges uid gid st = (True, st') \<Longrightarrow> acts_as uid gid (ls_creds st') \<and> cr_euid (ls_creds st) = 0"
  by (auto simp: drop_privileges_def cred_defs acts_as_def split: prod.splits bool.splits if_splits)

lemma drop_privileges_keeps:
  "drop_privileges uid gid st = (ok, st') \<Longrightarrow> ls_log st' = ls_log st \<and> cr_ruid (ls_creds st') = cr_ruid (ls_creds st)"
  by (auto simp: drop_privileges_def cred_defs split: prod.splits bool.splits if_splits)

lemma restore_keeps_log: "ls_log (restore_privileges u g gs st) = ls_log st"
  by (auto simp: restore_privileges_def cred_defs split: prod.splits if_splits)

lemma setuid_acts:
  "acts_as uid gid (ls_creds st) \<Longrightarrow> acts_as uid gid (ls_creds (snd (ls_cred (c_setuid uid) st)))
     \<and> ls_log (snd (ls_cred (c_setuid uid) st)) = ls_log st"
  by (auto simp: cred_defs acts_as_def split: prod.splits if_splits)

lemma become_user_acts:
  assumes "acts_as uid gid (ls_creds st)" "become_user oeuid uid gid st = (True, st')"
  shows "acts_as uid gid (ls_creds st') \<and> ls_log st' = ls_log st"
  using assms by (auto simp: become_user_def cred_defs acts_as_def split: prod.splits bool.splits if_splits)

lemma become_user_log: "become_user oeuid uid gid st = (ok, st') \<Longrightarrow> ls_log st' = ls_log st"
  by (auto simp: become_user_def cred_defs split: prod.splits bool.splits if_splits)

lemma ls_act_logs: "acts_as uid gid (ls_creds st) \<Longrightarrow> logs_as uid gid st (ls_act st)"
  by (simp add: logs_as_def ls_act_def)

lemma link_keyring_keeps:
  "ls_creds (link_keyring env st) = ls_creds st" "ls_cred_calls (link_keyring env st) = ls_cred_calls st"
  "ls_keys (link_keyring env st) = ls_keys st" "ls_calls (link_keyring env st) = ls_calls st"
  "ls_log (link_keyring env st) = ls_creds st # ls_log st"
  by (simp_all add: link_keyring_def ls_act_def)

lemma wrap_if_necessary_acts:
  assumes "acts_as uid gid (ls_creds st)" "wrap_passphrase_if_necessary env name uid f p salt st = Some (rc, st')"
  shows "acts_as uid gid (ls_creds st') \<and> logs_as uid gid st st'"
proof -
  obtain ok st1 where 1: "ls_malloc st = (ok, st1)" by fastforce
  have a: "acts_as uid gid (ls_creds st1)" "ls_log st1 = ls_log st" using ls_malloc_keeps [OF 1] assms(1) by simp_all
  define st2 where "st2 = snd (ls_cred (c_setuid uid) st1)"
  have b: "acts_as uid gid (ls_creds st2)" "ls_log st2 = ls_log st" using setuid_acts [OF a(1)] a(2) by (simp_all add: st2_def)
  have c: "logs_as uid gid st (ls_act st2)" "acts_as uid gid (ls_creds (ls_act st2))"
    using ls_act_logs [OF b(1)] b by (simp_all add: logs_as_def ls_act_def)
  show ?thesis
    using assms(2) 1 a c
    by (auto simp: wrap_passphrase_if_necessary_def st2_def Let_def logs_as_def bind_eq_Some_conv
        split: bool.splits option.splits if_splits)
qed

lemma start_placeholder_log: "ls_log (start_placeholder rc st) = ls_log st"
  using ls_malloc_keeps by (fastforce simp: start_placeholder_def split: prod.splits)

lemma auth_child_acts:
  assumes "acts_as uid gid (ls_creds st)" "auth_child env oeuid uid gid h p salt st = Some st'"
  shows "logs_as uid gid st st'"
proof -
  obtain ok st1 where 1: "become_user oeuid uid gid st = (ok, st1)" by fastforce
  note l1 = become_user_log [OF 1]
  show ?thesis
  proof (cases "ok \<and> p \<noteq> None")
    case False
    then show ?thesis using assms(2) 1 l1 by (cases ok) (auto simp: auth_child_def intro!: logs_as_refl)
  next
    case True
    then obtain q where p: "p = Some q" "ok" by blast
    define sl where "sl = link_keyring env st1"
    have a0: "acts_as uid gid (ls_creds st1)" using become_user_acts [OF assms(1)] 1 p(2) by auto
    then have a1: "acts_as uid gid (ls_creds sl)" and s1: "logs_as uid gid st sl"
      using l1 by (simp_all add: sl_def link_keyring_keeps logs_as_def)
    show ?thesis
    proof (cases "pm_argv env = [''unwrap'']")
      case False
      then show ?thesis
        using assms(2) 1 p logs_as_trans [OF s1 ls_act_logs [OF a1]]
        by (auto simp: auth_child_def sl_def Let_def bind_eq_Some_conv start_placeholder_log logs_as_def)
    next
      case unwrap: True
      obtain ok2 st2 where 2: "ls_malloc sl = (ok2, st2)" by fastforce
      note k2 = ls_malloc_keeps [OF 2]
      show ?thesis
      proof (cases ok2)
        case False
        then show ?thesis using assms(2) 1 p unwrap 2 k2 s1 by (auto simp: auth_child_def sl_def Let_def logs_as_def)
      next
        case True
        obtain rc st3 where 3: "wrap_passphrase_if_necessary env (snd (pm_get_user env)) uid (wrapped_name h) (Some q) salt st2
            = Some (rc, st3)"
          using assms(2) 1 p unwrap 2 True by (auto simp: auth_child_def sl_def Let_def bind_eq_Some_conv)
        have a3: "acts_as uid gid (ls_creds st3)" "logs_as uid gid st2 st3"
          using wrap_if_necessary_acts [OF _ 3, of gid] a1 k2 by simp_all
        have s3: "logs_as uid gid st st3" using logs_as_trans [OF s1] a3(2) k2 by (simp add: logs_as_def)
        then show ?thesis
          using assms(2) 1 p unwrap 2 True 3 logs_as_trans [OF s3 ls_act_logs [OF a3(1)]]
          by (auto simp: auth_child_def sl_def Let_def bind_eq_Some_conv start_placeholder_log logs_as_def split: if_splits)
      qed
    qed
  qed
qed

text \<open>The part that runs as the user leaves the state alone, or it has a child.\<close>

lemma auth_as_user_result:
  assumes "auth_as_user env oeuid uid gid h st = Some st'"
  obtains (idle) "ls_creds st' = ls_creds st" "ls_log st' = ls_log st" "ls_cred_calls st' = ls_cred_calls st"
  | (child) st1 p salt child where "ls_creds st1 = ls_creds st" "ls_log st1 = ls_log st" "ls_cred_calls st1 = ls_cred_calls st"
      "auth_child env oeuid uid gid h p salt st1 = Some child" "st' = after_child st1 child"
proof -
  obtain auto' st1 where 1: "file_exists_dotecryptfs env h ''auto-mount'' st = (auto', st1)" by fastforce
  note k1 = file_exists_keeps [OF 1]
  obtain mnt calls where m: "ecryptfs_fetch_private_mnt (files_as_bytes (ls_files st1)) (bytes_of_string h) (ls_calls st1) = (mnt, calls)"
    by fastforce
  show ?thesis
  proof (cases "auto' = 0")
    case True
    then show ?thesis using assms 1 k1 idle by (simp add: auth_as_user_def)
  next
    case False
    obtain mounted calls2 where 2: "ecryptfs_private_is_mounted (pm_proc_mounts env) None mnt None True calls = Some (mounted, calls2)"
      using assms 1 False m by (auto simp: auth_as_user_def bind_eq_Some_conv)
    let ?st2 = "st1\<lparr>ls_calls := calls2\<rparr>"
    obtain ind st3 where 3: "file_exists_dotecryptfs env h ''wrapping-independent'' ?st2 = (ind, st3)" by fastforce
    have k3: "ls_creds st3 = ls_creds st" "ls_log st3 = ls_log st" "ls_cred_calls st3 = ls_cred_calls st"
      using file_exists_keeps [OF 3] k1 by simp_all
    obtain rc p where rp: "(if ind = 1 then pm_prompt env else pm_authtok env) = (rc, p)" by fastforce
    obtain ok4 st4 where 4: "ls_malloc st3 = (ok4, st4)" by fastforce
    note k4 = ls_malloc_keeps [OF 4]
    have u: "(if mounted \<noteq> 0 then Some ?st2 else if rc \<noteq> 0 then Some st3 else if \<not> ok4 then Some st4 else do {
        (_, salt, st) \<leftarrow> login_salt env st4;
        (case ls_malloc st of (False, st) \<Rightarrow> Some st
          | (True, st) \<Rightarrow> do { child \<leftarrow> auth_child env oeuid uid gid h p salt st; Some (after_child st child) }) }) = Some st'"
      using assms 1 False m 2 3 rp 4 by (auto simp: auth_as_user_def Let_def split: bool.splits)
    show ?thesis
    proof (cases "mounted = 0 \<and> rc = 0 \<and> ok4")
      case False
      then show ?thesis using u k1 k3 k4 idle by (auto split: if_splits)
    next
      case True
      note u1 = u [simplified True, simplified]
      obtain src salt st5 where 5: "login_salt env st4 = Some (src, salt, st5)" using u1 by (auto simp: bind_eq_Some_conv)
      note k5 = login_salt_keeps [OF 5]
      obtain ok6 st6 where 6: "ls_malloc st5 = (ok6, st6)" by fastforce
      have k6: "ls_creds st6 = ls_creds st" "ls_log st6 = ls_log st" "ls_cred_calls st6 = ls_cred_calls st"
        using ls_malloc_keeps [OF 6] k5 k4 k3 by simp_all
      show ?thesis
      proof (cases ok6)
        case False
        then show ?thesis using u1 5 6 k6 idle by simp
      next
        case True
        then obtain child where "auth_child env oeuid uid gid h p salt st6 = Some child" "st' = after_child st6 child"
          using u1 5 6 by (auto simp: bind_eq_Some_conv)
        then show ?thesis using child [OF k6] by blast
      qed
    qed
  qed
qed

lemma auth_as_user_acts:
  assumes "auth_as_user env oeuid uid gid h st = Some st'" "acts_as uid gid (ls_creds st)"
  shows "logs_as uid gid st st'"
  using assms(1)
proof (cases rule: auth_as_user_result)
  case idle
  then show ?thesis by (intro logs_as_refl)
next
  case (child st1 p salt ch)
  then have "logs_as uid gid st1 ch" using assms(2) by (intro auth_child_acts) simp_all
  then show ?thesis using child by (simp add: logs_as_def after_child_def)
qed

text \<open>
  C5. Whatever fails: at login every process that works on the keyring or wraps a passphrase has
  the effective user and group of the user who logs in, and no other group.
\<close>

theorem login_acts_as_user:
  assumes "pam_sm_authenticate env st = Some (rc, st')" and "fst (pm_get_user env) = PAM_SUCCESS"
    and "user_of env = (uid, gid, h)"
  shows "logs_as uid gid st st'"
proof -
  obtain ok st1 where 1: "ls_malloc st = (ok, st1)" by fastforce
  note k1 = ls_malloc_keeps [OF 1]
  obtain ok2 st2 where 2: "drop_privileges uid gid st1 = (ok2, st2)" by fastforce
  have l2: "ls_log st2 = ls_log st" using drop_privileges_keeps [OF 2] k1 by simp
  show ?thesis
  proof (cases "ok \<and> ok2")
    case False
    then show ?thesis
      using assms 1 2 k1 l2 by (cases ok; cases ok2) (auto simp: pam_sm_authenticate_def restore_keeps_log intro!: logs_as_refl)
  next
    case True
    then obtain st3 where 3: "auth_as_user env (cr_euid (ls_creds st)) uid gid h st2 = Some st3" "ls_log st' = ls_log st3"
      using assms 1 2 by (auto simp: pam_sm_authenticate_def Let_def bind_eq_Some_conv restore_keeps_log)
    have "logs_as uid gid st2 st3" using auth_as_user_acts [OF 3(1)] drop_privileges_acts [of uid gid st1 st2] 2 True by auto
    then show ?thesis using 3(2) l2 by (simp add: logs_as_def)
  qed
qed

subsection \<open>The credentials afterwards\<close>

lemma cred_calls_stay:
  "ls_cred_calls st = [] \<Longrightarrow> ls_cred_calls (snd (ls_cred (c_setuid u) st)) = []"
  "ls_cred_calls st = [] \<Longrightarrow> become_user o' u g st = (ok, st') \<Longrightarrow> ls_cred_calls st' = []"
  by (auto simp: become_user_def cred_defs split: prod.splits bool.splits if_splits)

lemma wrap_if_necessary_calls:
  assumes "wrap_passphrase_if_necessary env name uid f p salt st = Some (rc, st')" "ls_cred_calls st = []"
  shows "ls_cred_calls st' = []"
proof -
  obtain ok st1 where 1: "ls_malloc st = (ok, st1)" by fastforce
  then have "ls_cred_calls st1 = []" using ls_malloc_keeps [OF 1] assms(2) by simp
  then show ?thesis using assms(1) 1 cred_calls_stay(1) [of st1]
    by (auto simp: wrap_passphrase_if_necessary_def Let_def ls_act_def bind_eq_Some_conv
        split: bool.splits option.splits if_splits)
qed

lemma start_placeholder_calls: "ls_cred_calls (start_placeholder rc st) = ls_cred_calls st"
  using ls_malloc_keeps by (fastforce simp: start_placeholder_def split: prod.splits)

lemma auth_child_calls:
  assumes "auth_child env oeuid uid gid h p salt st = Some st'" "ls_cred_calls st = []"
  shows "ls_cred_calls st' = []"
proof -
  obtain ok st1 where 1: "become_user oeuid uid gid st = (ok, st1)" by fastforce
  note c1 = cred_calls_stay(2) [OF assms(2) 1]
  obtain ok2 st2 where 2: "ls_malloc (link_keyring env st1) = (ok2, st2)" by fastforce
  have c2: "ls_cred_calls st2 = []" using ls_malloc_keeps [OF 2] c1 by (simp add: link_keyring_keeps)
  show ?thesis
    using assms(1) 1 c1 2 c2 wrap_if_necessary_calls [OF _ c2]
    by (cases ok; cases p; cases ok2; cases "pm_argv env = [''unwrap'']")
      (auto simp: auth_child_def Let_def bind_eq_Some_conv start_placeholder_calls ls_act_def link_keyring_keeps split: if_splits)
qed

text \<open>A process that may go back: it runs as user 0, also as its saved user.\<close>

definition privileged :: "creds \<Rightarrow> bool" where
  "privileged c \<longleftrightarrow> cr_euid c = 0 \<and> cr_suid c = 0"

lemma dropped_creds:
  assumes "privileged (ls_creds st)" "ls_cred_calls st = []"
  shows "drop_privileges uid gid st
    = (True, st\<lparr>ls_creds := (ls_creds st)\<lparr>cr_egid := gid, cr_groups := [gid], cr_euid := uid\<rparr>\<rparr>)"
  using assms by (cases st) (simp add: drop_privileges_def cred_defs privileged_def)

lemma restored_creds:
  assumes "privileged c" "ls_creds st = c\<lparr>cr_egid := gid, cr_groups := [gid], cr_euid := uid\<rparr>" "ls_cred_calls st = []"
  shows "ls_creds (restore_privileges (cr_euid c) (cr_egid c) (cr_groups c) st) = c"
  using assms by (simp add: restore_privileges_def cred_defs privileged_def)

text \<open>
  C20. A login from a process with the rights of user 0 leaves the process with the credentials it
  had, as long as no call that changes credentials fails; all other calls may.
\<close>

theorem login_restores_credentials:
  assumes "privileged (ls_creds st)" "ls_cred_calls st = []" and "fst (pm_get_user env) = PAM_SUCCESS"
    and "pam_sm_authenticate env st = Some (rc, st')"
  shows "ls_creds st' = ls_creds st"
proof -
  obtain uid gid h where u: "user_of env = (uid, gid, h)" by (metis surj_pair)
  obtain ok st1 where 1: "ls_malloc st = (ok, st1)" by fastforce
  note k1 = ls_malloc_keeps [OF 1]
  show ?thesis
  proof (cases ok)
    case False
    then show ?thesis using assms u 1 k1 by (simp add: pam_sm_authenticate_def)
  next
    case True
    let ?st2 = "st1\<lparr>ls_creds := (ls_creds st)\<lparr>cr_egid := gid, cr_groups := [gid], cr_euid := uid\<rparr>\<rparr>"
    have d: "drop_privileges uid gid st1 = (True, ?st2)"
      using dropped_creds [of st1 uid gid] assms(1,2) k1 by simp
    obtain st3 where 3: "auth_as_user env (cr_euid (ls_creds st)) uid gid h ?st2 = Some st3"
      "st' = restore_privileges (cr_euid (ls_creds st)) (cr_egid (ls_creds st)) (cr_groups (ls_creds st)) st3"
      using assms(3,4) u 1 True d by (auto simp: pam_sm_authenticate_def Let_def bind_eq_Some_conv)
    have "ls_creds st3 = ls_creds ?st2 \<and> ls_cred_calls st3 = []"
      using 3(1)
    proof (cases rule: auth_as_user_result)
      case idle
      then show ?thesis using assms(2) k1 by simp
    next
      case (child st4 p salt ch)
      then show ?thesis using auth_child_calls [OF child(4)] assms(2) k1 by (simp add: after_child_def)
    qed
    then show ?thesis using restored_creds [OF assms(1), of st3 uid gid] 3(2) by simp
  qed
qed

text \<open>
  Without a user name the module goes back to credentials it has not read: a process with the
  rights of user 0 loses its groups, and gets group 0.
\<close>

theorem login_without_name_loses_groups:
  assumes "fst (pm_get_user env) \<noteq> PAM_SUCCESS" and "privileged (ls_creds st)" "ls_cred_calls st = []"
  shows "\<exists>st'. pam_sm_authenticate env st = Some (PAM_SUCCESS, st')
    \<and> ls_creds st' = (ls_creds st)\<lparr>cr_egid := 0, cr_groups := []\<rparr>"
  using assms by (simp add: pam_sm_authenticate_def restore_privileges_def cred_defs privileged_def)

subsection \<open>The salt at login\<close>

text \<open>
  The salt a user has set in his options file plays no role at login: the file that is read is
  that of the real user of the process. Changing the home directories of all others changes
  nothing.
\<close>

theorem login_ignores_users_salt:
  assumes "homes (cr_ruid (ls_creds st)) = pm_home env (cr_ruid (ls_creds st))"
  shows "pam_sm_authenticate (env\<lparr>pm_home := homes\<rparr>) st = pam_sm_authenticate env st"
proof -
  let ?e = "env\<lparr>pm_home := homes\<rparr>"
  have sel: "pm_tool ?e = pm_tool env" "pm_open ?e = pm_open env" "pm_get_user ?e = pm_get_user env" "pm_getpwnam ?e = pm_getpwnam env"
    "pm_prompt ?e = pm_prompt env" "pm_authtok ?e = pm_authtok env" "pm_proc_mounts ?e = pm_proc_mounts env" "pm_argv ?e = pm_argv env"
    "pm_stat_err ?e = pm_stat_err env" "pm_owner ?e = pm_owner env" "pm_keyctl_link ?e = pm_keyctl_link env"
    by simp_all
  have st: "c_stat ?e = c_stat env" by (intro ext) (simp only: c_stat_def sel)
  have w: "wrap_passphrase_if_necessary ?e = wrap_passphrase_if_necessary env"
    by (intro ext) (simp only: wrap_passphrase_if_necessary_def sel st)
  have c: "auth_child ?e = auth_child env" by (intro ext) (simp only: auth_child_def link_keyring_def sel w)
  have f: "file_exists_dotecryptfs ?e = file_exists_dotecryptfs env" by (intro ext) (simp only: file_exists_dotecryptfs_def st)
  have s: "login_salt (env\<lparr>pm_home := homes\<rparr>) st' = login_salt env st'" if "cr_ruid (ls_creds st') = cr_ruid (ls_creds st)" for st'
    using that assms by (simp add: login_salt_def)
  have a: "auth_as_user (env\<lparr>pm_home := homes\<rparr>) o' u g h st' = auth_as_user env o' u g h st'"
    if r: "cr_ruid (ls_creds st') = cr_ruid (ls_creds st)" for o' u g h st'
  proof -
    obtain r1 st1 where 1: "file_exists_dotecryptfs env h ''auto-mount'' st' = (r1, st1)" by fastforce
    have "login_salt (env\<lparr>pm_home := homes\<rparr>) st4 = login_salt env st4"
      if "file_exists_dotecryptfs env h ''wrapping-independent'' (st1\<lparr>ls_calls := calls\<rparr>) = (r3, st3)" "ls_malloc st3 = (ok, st4)"
      for calls r3 st3 ok st4
      using s file_exists_keeps [OF 1] file_exists_keeps [OF that(1)] ls_malloc_keeps [OF that(2)] r by simp
    then show ?thesis
      unfolding auth_as_user_def f c sel 1 by (auto simp: Let_def split: prod.splits bool.splits intro!: Option.bind_cong)
  qed
  have u: "user_of (env\<lparr>pm_home := homes\<rparr>) = user_of env" by (simp add: user_of_def)
  have d: "cr_ruid (ls_creds st2) = cr_ruid (ls_creds st)"
    if "ls_malloc st = (ok, st1)" "drop_privileges uid gid st1 = (ok2, st2)" for ok st1 uid gid ok2 st2
    using ls_malloc_keeps [OF that(1)] drop_privileges_keeps [OF that(2)] by simp
  show ?thesis
    unfolding pam_sm_authenticate_def u sel using a d by (auto simp: Let_def split: prod.splits bool.splits)
qed

subsection \<open>A change of the password\<close>

text \<open>The salt of the options file of \<open>ruid\<close> as \<open>euid\<close> can read it.\<close>

definition salt_at :: "'k pam_env \<Rightarrow> nat \<Rightarrow> nat \<Rightarrow> byte list \<Rightarrow> bool" where
  "salt_at env ruid euid salt \<longleftrightarrow> (\<exists>rc salt_hex.
     ecryptfs_read_salt_hex_from_rc (te_junk (pm_tool env)) (pm_open env euid) (pm_home env ruid) [] = Some (rc, salt_hex, [])
     \<and> (if rc \<noteq> 0 then from_hex (DEFAULT_SALT_HEX @ [0]) SALT_SIZE
        else do { salt_hex \<leftarrow> salt_hex; from_hex salt_hex SALT_SIZE }) = Some salt)"

definition laws_ok :: "'k tool_env \<Rightarrow> byte list \<Rightarrow> bool" where
  "laws_ok te salt \<longleftrightarrow> io_ok (te_io te) \<and> nss_ok (te_nss te) \<and> hash_total (te_hash te) \<and> SALT_SIZE \<le> length salt"

text \<open>The user who changes his password, and a process that can do it for him.\<close>

definition password_change :: "'k pam_env \<Rightarrow> 'k login_state \<Rightarrow> nat \<Rightarrow> nat \<Rightarrow> string \<Rightarrow> byte list \<Rightarrow> byte list \<Rightarrow> byte list \<Rightarrow> bool" where
  "password_change env st uid gid h old new salt \<longleftrightarrow>
     privileged (ls_creds st) \<and> ls_cred_calls st = [] \<and> ls_calls st = []
     \<and> fst (pm_get_user env) = PAM_SUCCESS \<and> user_of env = (uid, gid, h)
     \<and> pm_oldauthtok env = (PAM_SUCCESS, Some old) \<and> pm_authtok env = (PAM_SUCCESS, Some new) \<and> new \<noteq> []
     \<and> salt_at env (cr_ruid (ls_creds st)) uid salt
     \<and> stat_ok (c_stat env (ls_files st) (wrapped_name h))"

abbreviation as_user :: "nat \<Rightarrow> nat \<Rightarrow> creds \<Rightarrow> creds" where
  "as_user uid gid c \<equiv> c\<lparr>cr_egid := gid, cr_groups := [gid], cr_euid := uid\<rparr>"

lemma become_user_ok:
  assumes "privileged c" "ls_creds st = as_user uid gid c" "ls_cred_calls st = []"
  shows "\<exists>st'. become_user 0 uid gid st = (True, st') \<and> ls_files st' = ls_files st \<and> ls_cred_calls st' = []"
  using assms by (simp add: become_user_def cred_defs privileged_def)

lemma chauthtok_reduces:
  assumes "password_change env st uid gid h old new salt"
  shows "\<exists>st2 st3. ls_files st3 = ls_files st \<and> ls_cred_calls st3 = [] \<and> ls_creds st2 = as_user uid gid (ls_creds st)
    \<and> pam_sm_chauthtok env False st = do {
        child \<leftarrow> (let te = pm_tool env in do {
          (rc, buf) \<leftarrow> ecryptfs_unwrap_passphrase (te_io te) (te_nss te) (te_hash te) (ls_files st) (wrapped_name h) old salt;
          if rc \<noteq> 0 then Some st3
          else do {
            buf \<leftarrow> buf;
            passphrase \<leftarrow> c_string buf;
            (rc, files) \<leftarrow> ecryptfs_wrap_passphrase (te_io te) (te_nss te) (te_hash te) (ls_files st) (wrapped_name h) new salt
               passphrase;
            Some (st3\<lparr>ls_files := files\<rparr>) } });
        Some (PAM_SUCCESS, restore_privileges (cr_euid (ls_creds st)) (cr_egid (ls_creds st)) (cr_groups (ls_creds st))
          (after_child st2 child)) }"
proof -
  note a = assms [unfolded password_change_def]
  let ?c = "as_user uid gid (ls_creds st)"
  let ?st2 = "st\<lparr>ls_creds := ?c\<rparr>"
  have m: "ls_malloc st' = (True, st')" if "ls_calls st' = []" for st' :: "'a login_state"
    using that by (cases st') (simp add: ls_malloc_def)
  have d: "drop_privileges uid gid st = (True, ?st2)" using dropped_creds [of st uid gid] a by simp
  obtain src where s: "login_salt env ?st2 = Some (src, salt, ?st2)"
    using a by (cases st) (auto simp: login_salt_def salt_at_def)
  have w: "wrap_passphrase_if_necessary env (snd (pm_get_user env)) uid (wrapped_name h) (Some new) salt ?st2 = Some (0, ?st2)"
    using a m [of ?st2] by (simp add: wrap_passphrase_if_necessary_def Let_def)
  obtain st3 where b: "become_user 0 uid gid ?st2 = (True, st3)" "ls_files st3 = ls_files st" "ls_cred_calls st3 = []"
    using become_user_ok [of "ls_creds st" ?st2 uid gid] a by auto
  let ?te = "pm_tool env"
  have fl: "ls_files (ls_act st3) = ls_files st" using b(2) by (simp add: ls_act_def)
  have r: "rewrap_child env 0 uid gid (wrapped_name h) old new salt ?st2 = do {
          (rc, buf) \<leftarrow> ecryptfs_unwrap_passphrase (te_io ?te) (te_nss ?te) (te_hash ?te) (ls_files st) (wrapped_name h) old salt;
          if rc \<noteq> 0 then Some (ls_act st3)
          else do {
            buf \<leftarrow> buf;
            passphrase \<leftarrow> c_string buf;
            (rc, files) \<leftarrow> ecryptfs_wrap_passphrase (te_io ?te) (te_nss ?te) (te_hash ?te) (ls_files st) (wrapped_name h) new salt
               passphrase;
            Some ((ls_act st3)\<lparr>ls_files := files\<rparr>) } }"
    by (simp only: rewrap_child_def Let_def b(1) prod.case bool.case fl)
  have e: "cr_euid (ls_creds st) = 0" using a by (simp add: privileged_def)
  have "chauthtok_as_user env False 0 uid gid h ?st2 = do {
      child \<leftarrow> rewrap_child env 0 uid gid (wrapped_name h) old new salt ?st2; Some (PAM_SUCCESS, after_child ?st2 child) }"
    using a m [of ?st2] s w by (simp add: chauthtok_as_user_def)
  then have "pam_sm_chauthtok env False st = do {
      child \<leftarrow> rewrap_child env 0 uid gid (wrapped_name h) old new salt ?st2;
      Some (PAM_SUCCESS, restore_privileges (cr_euid (ls_creds st)) (cr_egid (ls_creds st)) (cr_groups (ls_creds st))
          (after_child ?st2 child)) }"
    using a m [of st] d e by (simp add: pam_sm_chauthtok_def Let_def)
  then show ?thesis
    unfolding r by (intro exI [of _ ?st2] exI [of _ "ls_act st3"]) (simp add: b ls_act_def Let_def)
qed

lemma restore_files: "ls_files (restore_privileges u g gs st) = ls_files st"
  by (auto simp: restore_privileges_def cred_defs split: prod.splits if_splits)

text \<open>
  C11. When a password is changed, the wrapped passphrase is kept: afterwards it is wrapped with the
  new password, no other file has changed, and the process has the credentials it had.
\<close>

theorem password_change_rewraps:
  assumes "password_change env st uid gid h old new salt" and "laws_ok (pm_tool env) salt"
    and "length new \<le> MAX_PASSWORD_LENGTH"
    and "holds_wrapped (pm_tool env) salt (ls_files st) (wrapped_name h) old p" "p \<noteq> []" "length p \<le> MAX_PASSWORD_LENGTH" "0 \<notin> set p"
  shows "\<exists>st'. pam_sm_chauthtok env False st = Some (PAM_SUCCESS, st') \<and> ls_creds st' = ls_creds st
    \<and> holds_wrapped (pm_tool env) salt (ls_files st') (wrapped_name h) new p
    \<and> (\<forall>g. g \<noteq> wrapped_name h \<longrightarrow> ls_files st' g = ls_files st g)"
proof -
  let ?te = "pm_tool env"
  obtain content where w: "ecryptfs_wrap_passphrase (te_io ?te) (te_nss ?te) (te_hash ?te) (ls_files st) (wrapped_name h) new salt p
      = Some (0, (ls_files st)(wrapped_name h \<mapsto> content))"
    "holds_wrapped ?te salt ((ls_files st)(wrapped_name h \<mapsto> content)) (wrapped_name h) new p"
    using wrap_unwrap_result [of "te_io ?te" "te_nss ?te" "te_hash ?te" salt new p "ls_files st" "wrapped_name h"] assms(2,3,5-7)
    by (auto simp: laws_ok_def holds_wrapped_def)
  obtain st2 st3 where r: "ls_cred_calls st3 = []" "ls_creds st2 = as_user uid gid (ls_creds st)"
    "pam_sm_chauthtok env False st = Some (PAM_SUCCESS, restore_privileges (cr_euid (ls_creds st)) (cr_egid (ls_creds st))
       (cr_groups (ls_creds st)) (after_child st2 (st3\<lparr>ls_files := (ls_files st)(wrapped_name h \<mapsto> content)\<rparr>)))"
    using chauthtok_reduces [OF assms(1)] assms(4) w(1) by (auto simp: holds_wrapped_def)
  let ?st = "after_child st2 (st3\<lparr>ls_files := (ls_files st)(wrapped_name h \<mapsto> content)\<rparr>)"
  have "ls_creds (restore_privileges (cr_euid (ls_creds st)) (cr_egid (ls_creds st)) (cr_groups (ls_creds st)) ?st) = ls_creds st"
    using restored_creds [of "ls_creds st" ?st uid gid] assms(1) r(1,2) by (simp add: after_child_def password_change_def)
  then show ?thesis using r(3) w(2) by (simp add: restore_files after_child_def)
qed

text \<open>
  C39. A change with a wrong old password is reported as success: the passphrase stays wrapped with
  the password that is no longer valid.
\<close>

theorem password_change_hides_failure:
  assumes "password_change env st uid gid h old new salt"
    and "ecryptfs_unwrap_passphrase (te_io (pm_tool env)) (te_nss (pm_tool env)) (te_hash (pm_tool env)) (ls_files st)
      (wrapped_name h) old salt = Some (rc, buf)" "rc \<noteq> 0"
  shows "\<exists>st'. pam_sm_chauthtok env False st = Some (PAM_SUCCESS, st') \<and> ls_files st' = ls_files st"
proof -
  obtain st2 st3 where r: "ls_files st3 = ls_files st"
    "pam_sm_chauthtok env False st = Some (PAM_SUCCESS, restore_privileges (cr_euid (ls_creds st)) (cr_egid (ls_creds st))
       (cr_groups (ls_creds st)) (after_child st2 st3))"
    using chauthtok_reduces [OF assms(1)] assms(2,3) by auto
  then show ?thesis by (simp add: restore_files after_child_def)
qed

subsection \<open>Sessions\<close>

text \<open>
  C21. The helpers of a session run with the identities of the user and no other: all user and group
  identities are his, and so is the only group. They run only when the user has asked for it with
  a file in his directory and has a signature file.
\<close>

theorem session_helper_runs_as_user:
  assumes "pam_sm_open_session env st = (rc, note, Some (Child_Execs prog c))
      \<or> pam_sm_close_session env st = (rc, note, Some (Child_Execs prog c))"
  shows "\<exists>pwd auto'. fetch_pwd env = Some pwd
    \<and> c = \<lparr>cr_ruid = pw_uid pwd, cr_euid = pw_uid pwd, cr_suid = pw_uid pwd, cr_rgid = pw_gid pwd, cr_egid = pw_gid pwd,
           cr_sgid = pw_gid pwd, cr_groups = [pw_gid pwd]\<rparr>
    \<and> (prog, auto') \<in> {(''/sbin/mount.ecryptfs_private'', ''auto-mount''), (''/sbin/umount.ecryptfs_private'', ''auto-umount'')}
    \<and> ls_files st (pw_dir pwd @ ''/.ecryptfs/'' @ auto') \<noteq> None \<and> ls_files st (pw_dir pwd @ ''/.ecryptfs/Private.sig'') \<noteq> None"
proof -
  have e: "c = \<lparr>cr_ruid = pw_uid pwd, cr_euid = pw_uid pwd, cr_suid = pw_uid pwd, cr_rgid = pw_gid pwd, cr_egid = pw_gid pwd,
           cr_sgid = pw_gid pwd, cr_groups = [pw_gid pwd]\<rparr> \<and> prog = prog'"
    if "exec_as_user env pwd prog' st' = Child_Execs prog c" for pwd prog' st'
    using that by (cases "ls_creds st'") (auto simp: exec_as_user_def cred_defs split: prod.splits bool.splits if_splits)
  have f: "ls_files st' path \<noteq> None" if "stat_ok (c_stat env (ls_files st') path)" for st' path
    using that by (auto simp: stat_ok_def c_stat_def split: sum.splits option.splits)
  obtain mount where p: "snd (private_dir env mount st) = (note, Some (Child_Execs prog c))"
    using assms by (auto simp: pam_sm_open_session_def pam_sm_close_session_def)
  obtain pwd where pwd: "fetch_pwd env = Some pwd" using p by (cases "fetch_pwd env") (auto simp: private_dir_def)
  obtain ok1 st1 where 1: "ls_malloc st = (ok1, st1)" by fastforce
  obtain ok2 st2 where 2: "ls_malloc st1 = (ok2, st2)" by fastforce
  obtain ok3 st3 where 3: "ls_malloc st2 = (ok3, st3)" by fastforce
  obtain ok4 st4 where 4: "ls_malloc st3 = (ok4, st4)" by fastforce
  have files: "ls_files st2 = ls_files st" using ls_malloc_keeps [OF 1] ls_malloc_keeps [OF 2] by simp
  let ?dir = "pw_dir pwd @ ''/.ecryptfs/''"
  let ?auto = "if mount then ''auto-mount'' else ''auto-umount''"
  let ?prog = "if mount then ''/sbin/mount.ecryptfs_private'' else ''/sbin/umount.ecryptfs_private''"
  have ok: "ok1" "ok2" using p pwd 1 2 by (cases ok1; cases ok2; simp add: private_dir_def)+
  have sg: "stat_ok (c_stat env (ls_files st2) (?dir @ ''Private.sig''))"
    using p pwd 1 2 ok by (simp add: private_dir_def Let_def split: if_splits)
  have ok3: "ok3" using p pwd 1 2 3 ok by (cases ok3) (auto simp: private_dir_def Let_def split: if_splits)
  have au: "stat_ok (c_stat env (ls_files st2) (?dir @ ?auto))" "\<exists>st'. exec_as_user env pwd ?prog st' = Child_Execs prog c"
    using p pwd 1 2 3 4 ok ok3 by (cases ok4; auto simp: private_dir_def Let_def split: if_splits)+
  then obtain st' where "exec_as_user env pwd ?prog st' = Child_Execs prog c" by blast
  from e [OF this] show ?thesis
    using pwd f [OF sg] f [OF au(1)] files by (intro exI [of _ pwd] exI [of _ ?auto]) auto
qed

text \<open>
  When the identities cannot be given up, the child does not exit: it returns to the application
  with the credentials it has, so the application goes on twice.
\<close>

theorem session_child_returns:
  assumes "fetch_pwd env = Some pwd" "ls_calls st = []" "cr_euid (ls_creds st) \<noteq> 0"
    and "stat_ok (c_stat env (ls_files st) (pw_dir pwd @ ''/.ecryptfs/Private.sig''))"
      "pm_is_reg env (pw_dir pwd @ ''/.ecryptfs/Private.sig'')"
      "stat_ok (c_stat env (ls_files st) (pw_dir pwd @ ''/.ecryptfs/auto-umount''))"
  shows "pam_sm_close_session env st = (PAM_SUCCESS, False, Some (Child_Returns (-1) (ls_creds st)))"
proof -
  have m: "ls_malloc st = (True, st)" using assms(2) by (cases st) (simp add: ls_malloc_def)
  have "exec_as_user env pwd prog st = Child_Returns (-1) (ls_creds st)" for prog
    using assms(3) by (auto simp: exec_as_user_def cred_defs split: prod.splits)
  then show ?thesis using assms m by (simp add: pam_sm_close_session_def private_dir_def Let_def)
qed

subsection \<open>A sample\<close>

type_synonym sample_keys = "(byte list \<times> ecryptfs_auth_tok) list"

definition sample_user :: pam_passwd where
  "sample_user = \<lparr>pw_uid = 1000, pw_gid = 1000, pw_dir = ''/h'', pw_name = ''u''\<rparr>"

definition sample_pam_env :: "sample_keys pam_env" where
  "sample_pam_env = \<lparr>pm_tool = sample_tool_env, pm_open = (\<lambda>_ _. Inl ENOENT), pm_home = (\<lambda>_. None), pm_get_user = (0, ''u''),
     pm_getpwnam = (\<lambda>_. Some sample_user), pm_prompt = (0, None), pm_authtok = (0, Some (bytes_of_string ''new'')),
     pm_oldauthtok = (0, Some (bytes_of_string ''old'')), pm_stat_err = (\<lambda>_. None), pm_owner = (\<lambda>_. 1000), pm_is_reg = (\<lambda>_. True),
     pm_proc_mounts = None, pm_argv = [], pm_exec_ok = True, pm_keyctl_link = 0\<rparr>"

definition root_creds :: creds where
  "root_creds = \<lparr>cr_ruid = 0, cr_euid = 0, cr_suid = 0, cr_rgid = 0, cr_egid = 0, cr_sgid = 0, cr_groups = [0]\<rparr>"

definition sample_files :: files where
  "sample_files = (\<lambda>_. None)(''/h/.ecryptfs/auto-mount'' \<mapsto> [], ''/h/.ecryptfs/auto-umount'' \<mapsto> [], ''/h/.ecryptfs/Private.sig'' \<mapsto> [])"

definition sample_login_state :: "sample_keys login_state" where
  "sample_login_state = \<lparr>ls_creds = root_creds, ls_files = sample_files, ls_keys = [], ls_log = [], ls_linked = False, ls_placeholder = False,
     ls_calls = [], ls_cred_calls = []\<rparr>"

lemma sample_read_salt: "ecryptfs_read_salt_hex_from_rc (\<lambda>_. 0) c_open None [] = Some (- EIO, None, [])"
  by (simp add: ecryptfs_read_salt_hex_from_rc_def ecryptfs_parse_rc_file_def)

lemma sample_login:
  "\<exists>st'. pam_sm_authenticate sample_pam_env sample_login_state = Some (0, st') \<and> length (ls_log st') = 2"
proof -
  obtain rc sig keys where k: "ecryptfs_add_passphrase_key_to_keyring toy_hash list_keyring [] (bytes_of_string ''new'') pass_sample_salt []
      = Some (rc, Some sig, keys, [])"
    using list_keyring_add [OF toy_hash_total, of pass_sample_salt "bytes_of_string ''new''" "[]"] by auto
  have s: "login_salt sample_pam_env st = Some (- EIO, pass_sample_salt, st)" if "ls_calls st = []" for st
    using that pass_sample_hex sample_read_salt by (cases st) (simp add: login_salt_def sample_pam_env_def sample_tool_env_def)
  have f: "file_exists_dotecryptfs sample_pam_env ''/h'' n st = (if n \<in> {''auto-mount'', ''auto-umount'', ''Private.sig''} then 1 else 0, st)"
    if "ls_calls st = []" "ls_files st = sample_files" for n st
    using that by (cases st) (simp add: file_exists_dotecryptfs_def ls_malloc_def c_stat_def sample_pam_env_def sample_files_def)
  have u: "user_of sample_pam_env = (1000, 1000, ''/h'')" by (simp add: user_of_def sample_pam_env_def sample_user_def)
  define st2 where "st2 = sample_login_state\<lparr>ls_creds := root_creds\<lparr>cr_egid := 1000, cr_groups := [1000], cr_euid := 1000\<rparr>\<rparr>"
  have d: "drop_privileges 1000 1000 sample_login_state = (True, st2)"
    using dropped_creds [of sample_login_state 1000 1000] by (simp add: st2_def sample_login_state_def privileged_def root_creds_def)
  have m: "ls_malloc st = (True, st)" if "ls_calls st = []" for st :: "sample_keys login_state"
    using that by (cases st) (simp add: ls_malloc_def)
  have st2: "ls_calls st2 = []" "ls_files st2 = sample_files" "ls_log st2 = []" "ls_keys st2 = []" "ls_cred_calls st2 = []"
    by (simp_all add: st2_def sample_login_state_def)
  have "files_as_bytes sample_files (bytes_of_string ''/h'' @ bytes_of_string ''/.ecryptfs/Private.mnt'') = None" by code_simp
  then obtain mnt where mnt: "ecryptfs_fetch_private_mnt (files_as_bytes sample_files) (bytes_of_string ''/h'') [] = (mnt, [])"
    by (simp add: ecryptfs_fetch_private_mnt_def)
  have "\<exists>child. auth_child sample_pam_env 0 1000 1000 ''/h'' (Some (bytes_of_string ''new'')) pass_sample_salt st2 = Some child
      \<and> length (ls_log child) = 2"
  proof -
    obtain st3 where "become_user 0 1000 1000 st2 = (True, st3)" "ls_keys st3 = []" "ls_calls st3 = []" "ls_log st3 = []"
      using st2 by (simp add: become_user_def cred_defs st2_def root_creds_def)
    moreover have "pm_argv sample_pam_env = []" "te_hash (pm_tool sample_pam_env) = toy_hash" "te_keyring (pm_tool sample_pam_env) = list_keyring"
      by (simp_all add: sample_pam_env_def sample_tool_env_def)
    ultimately show ?thesis using k by (simp add: auth_child_def link_keyring_keeps ls_act_def Let_def start_placeholder_log)
  qed
  then obtain child where c: "auth_child sample_pam_env 0 1000 1000 ''/h'' (Some (bytes_of_string ''new'')) pass_sample_salt st2 = Some child"
    "length (ls_log child) = 2" by blast
  have p: "pm_proc_mounts sample_pam_env = None" "pm_authtok sample_pam_env = (0, Some (bytes_of_string ''new''))"
    "fst (pm_get_user sample_pam_env) = 0" by (simp_all add: sample_pam_env_def)
  have upd: "st2\<lparr>ls_calls := []\<rparr> = st2" using st2(1) by (cases st2) simp
  have "auth_as_user sample_pam_env 0 1000 1000 ''/h'' st2 = Some (after_child st2 child)"
    unfolding auth_as_user_def
    using f [OF st2(1,2)] st2 mnt p m s c(1) by (simp add: ecryptfs_private_is_mounted_def upd)
  then show ?thesis
    using p(3) u d m [of sample_login_state] c(2)
    by (simp add: pam_sm_authenticate_def restore_keeps_log after_child_def sample_login_state_def root_creds_def)
qed

theorem login_acts_as_user_witness:
  "\<exists>st'. pam_sm_authenticate sample_pam_env sample_login_state = Some (0, st') \<and> ls_log st' \<noteq> []
    \<and> (\<forall>c \<in> set (ls_log st'). acts_as 1000 1000 c)"
proof -
  obtain st' where s: "pam_sm_authenticate sample_pam_env sample_login_state = Some (0, st')" "length (ls_log st') = 2"
    using sample_login by blast
  have "logs_as 1000 1000 sample_login_state st'"
    by (rule login_acts_as_user [OF s(1), where h = "''/h''"]) (simp_all add: user_of_def sample_pam_env_def sample_user_def)
  then show ?thesis using s by (auto simp: logs_as_def sample_login_state_def)
qed

theorem login_restores_credentials_witness:
  "\<exists>st'. pam_sm_authenticate sample_pam_env sample_login_state = Some (0, st') \<and> ls_creds st' = root_creds"
proof -
  obtain st' where s: "pam_sm_authenticate sample_pam_env sample_login_state = Some (0, st')" using sample_login by blast
  have "ls_creds st' = ls_creds sample_login_state"
    by (rule login_restores_credentials [OF _ _ _ s])
      (simp_all add: sample_login_state_def sample_pam_env_def privileged_def root_creds_def)
  then show ?thesis using s by (simp add: sample_login_state_def)
qed

theorem login_without_name_loses_groups_witness:
  "\<exists>st'. pam_sm_authenticate (sample_pam_env\<lparr>pm_get_user := (10, [])\<rparr>) sample_login_state = Some (0, st')
    \<and> cr_groups (ls_creds st') = []"
  using login_without_name_loses_groups [of "sample_pam_env\<lparr>pm_get_user := (10, [])\<rparr>" sample_login_state]
  by (auto simp: sample_login_state_def privileged_def root_creds_def)

theorem login_ignores_users_salt_witness:
  "pam_sm_authenticate (sample_pam_env\<lparr>pm_home := (\<lambda>u. if u = 1000 then Some ''/h'' else None)\<rparr>) sample_login_state
     = pam_sm_authenticate sample_pam_env sample_login_state"
  by (rule login_ignores_users_salt) (simp add: sample_login_state_def sample_pam_env_def root_creds_def)

lemma sample_password_change:
  "password_change sample_pam_env (sample_login_state\<lparr>ls_files := sample_files(wrapped_name ''/h'' \<mapsto> content)\<rparr>) 1000 1000 ''/h''
     (bytes_of_string ''old'') (bytes_of_string ''new'') pass_sample_salt"
proof -
  have "salt_at sample_pam_env 0 1000 pass_sample_salt"
    using sample_read_salt pass_sample_hex by (simp add: salt_at_def sample_pam_env_def sample_tool_env_def)
  then show ?thesis
    by (simp add: password_change_def sample_login_state_def privileged_def root_creds_def user_of_def stat_ok_def c_stat_def)
      (simp add: sample_pam_env_def sample_user_def bytes_of_string_def)
qed

lemma sample_laws: "laws_ok (pm_tool sample_pam_env) pass_sample_salt"
  using sample_tools_ok by (simp add: laws_ok_def tools_ok_def sample_pam_env_def)

lemma sample_tool [simp]: "pm_tool sample_pam_env = sample_tool_env"
  by (simp add: sample_pam_env_def)

theorem password_change_rewraps_witness:
  "\<exists>content st'. pam_sm_chauthtok sample_pam_env False (sample_login_state\<lparr>ls_files := sample_files(wrapped_name ''/h'' \<mapsto> content)\<rparr>)
      = Some (0, st')
    \<and> holds_wrapped sample_tool_env pass_sample_salt (ls_files st') (wrapped_name ''/h'') (bytes_of_string ''new'') (bytes_of_string ''secret'')"
proof -
  let ?p = "bytes_of_string ''secret''" and ?o = "bytes_of_string ''old''" and ?n = "bytes_of_string ''new''"
  have l: "?p \<noteq> []" "length ?p \<le> 64" "0 \<notin> set ?p" "length ?o \<le> 64" "length ?n \<le> 64" by code_simp+
  obtain content where h: "holds_wrapped sample_tool_env pass_sample_salt (sample_files(wrapped_name ''/h'' \<mapsto> content)) (wrapped_name ''/h'') ?o ?p"
    using wrap_holds [OF sample_tools_ok l(4,1-3), of sample_files "wrapped_name ''/h''"] by metis
  show ?thesis
    using password_change_rewraps [OF sample_password_change sample_laws l(5) _ l(1-3), of content] h
    by (auto simp: sample_login_state_def)
qed

theorem password_change_hides_failure_witness:
  "\<exists>st'. pam_sm_chauthtok sample_pam_env False (sample_login_state\<lparr>ls_files := sample_files(wrapped_name ''/h'' \<mapsto> [])\<rparr>) = Some (0, st')"
proof -
  let ?f = "sample_files(wrapped_name ''/h'' \<mapsto> [])"
  obtain k sg where k: "passphrase_key toy_hash pass_sample_salt (bytes_of_string ''old'') = Some k"
    "passphrase_sig toy_hash pass_sample_salt (bytes_of_string ''old'') = Some sg"
    using passphrase_key_total [OF toy_hash_total] by metis
  have "ecryptfs_unwrap_passphrase plain_io plain_nss toy_hash ?f (wrapped_name ''/h'') (bytes_of_string ''old'') pass_sample_salt
      = Some (- EIO, None)"
    using generate_passphrase_sig_total [OF toy_hash_total _ _ k]
    by (simp add: ecryptfs_unwrap_passphrase_def open_read_def c_read_def plain_io_def)
  then show ?thesis
    using password_change_hides_failure [OF sample_password_change, of "[]" "- EIO" None]
    by (auto simp: sample_tool_env_def sample_login_state_def)
qed

theorem session_helper_runs_as_user_witness:
  "\<exists>note c. pam_sm_open_session sample_pam_env sample_login_state
      = (0, note, Some (Child_Execs ''/sbin/mount.ecryptfs_private'' c)) \<and> cr_ruid c = 1000"
proof -
  have "\<exists>c. pam_sm_open_session sample_pam_env sample_login_state
      = (0, False, Some (Child_Execs ''/sbin/mount.ecryptfs_private'' c))"
    by (simp add: pam_sm_open_session_def private_dir_def fetch_pwd_def exec_as_user_def cred_defs sample_pam_env_def sample_user_def
        sample_login_state_def root_creds_def ls_malloc_def stat_ok_def c_stat_def sample_files_def Let_def)
  then obtain c where o: "pam_sm_open_session sample_pam_env sample_login_state
      = (0, False, Some (Child_Execs ''/sbin/mount.ecryptfs_private'' c))" by blast
  from session_helper_runs_as_user [OF disjI1, OF o] show ?thesis
    using o by (auto simp: fetch_pwd_def sample_pam_env_def sample_user_def)
qed

theorem session_child_returns_witness:
  "\<exists>c. pam_sm_close_session sample_pam_env (sample_login_state\<lparr>ls_creds := root_creds\<lparr>cr_euid := 1000\<rparr>\<rparr>)
     = (0, False, Some (Child_Returns (-1) c))"
  using session_child_returns [of sample_pam_env sample_user "sample_login_state\<lparr>ls_creds := root_creds\<lparr>cr_euid := 1000\<rparr>\<rparr>"]
  by (auto simp: fetch_pwd_def sample_pam_env_def sample_user_def sample_login_state_def stat_ok_def c_stat_def sample_files_def)

end
