(* ===== verification/Openssl_Mod.thy ===== *)
theory Openssl_Mod
  imports Packets Mount_Options Mount_Private
begin

text \<open>
  The key module for OpenSSL, \<open>src/key_mod/ecryptfs_key_mod_openssl.c\<close>: keys in PEM files, found
  again by a blob that holds the path and the passphrase.

  OpenSSL is a record of its answers. Its error queue is a list of codes; a call that fails puts
  its code there. The function \<open>ecryptfs_openssl_init_from_param_vals\<close>, which the module calls and
  which is defined nowhere, is a part of that record as well.
\<close>

abbreviation (input) EEXIST :: int where "EEXIST \<equiv> 17"
abbreviation (input) ENOSYS :: int where "ENOSYS \<equiv> 38"

subsection \<open>OpenSSL\<close>

record openssl_data =
  od_path :: "byte list option"
  od_passphrase :: "byte list option"

text \<open>
  Of a key: the bits and the bytes of modulus and exponent, and its size. \<open>sl_pem_write\<close> is the text
  of a key under a passphrase. \<open>sl_mkdir\<close> is the error number of \<open>mkdir\<close>, 0 for none, by the
  directories already made. \<open>sl_calls\<close> has the outcomes of the allocations of one operation.
\<close>

record 'r ssl_env =
  sl_n_bits :: "'r \<Rightarrow> nat"
  sl_n_bin :: "'r \<Rightarrow> byte list"
  sl_e_bits :: "'r \<Rightarrow> nat"
  sl_e_bin :: "'r \<Rightarrow> byte list"
  sl_size :: "'r \<Rightarrow> nat"
  sl_sha1 :: "byte list \<Rightarrow> byte list"
  sl_generate :: "'r option"
  sl_pem_read :: "byte list \<Rightarrow> byte list \<Rightarrow> 'r option"
  sl_pem_write :: "'r \<Rightarrow> byte list \<Rightarrow> byte list option"
  sl_encrypt :: "'r \<Rightarrow> byte list \<Rightarrow> byte list option"
  sl_decrypt :: "'r \<Rightarrow> byte list \<Rightarrow> byte list option"
  sl_error :: int
  sl_can_write :: "string \<Rightarrow> bool"
  sl_mkdir :: "string list \<Rightarrow> string \<Rightarrow> int"
  sl_init_vals :: "string option list \<Rightarrow> int \<times> openssl_data"
  sl_junk :: "nat \<Rightarrow> byte"
  sl_calls :: schedule

definition ERR_get_error :: "int list \<Rightarrow> int" where
  "ERR_get_error errs = (case errs of [] \<Rightarrow> 0 | e # _ \<Rightarrow> e)"

definition ERR_remove_state :: "int list \<Rightarrow> int list" where
  "ERR_remove_state errs = []"

subsection \<open>The blob\<close>

definition ecryptfs_openssl_destroy_openssl_data :: "openssl_data \<Rightarrow> openssl_data" where
  "ecryptfs_openssl_destroy_openssl_data d = d\<lparr>od_path := None, od_passphrase := None\<rparr>"

text \<open>Where path and passphrase start in the blob.\<close>

definition ecryptfs_openssl_deserialize :: "byte list \<Rightarrow> (nat \<times> nat) option" where
  "ecryptfs_openssl_deserialize blob = do {
     lo \<leftarrow> rd_byte blob 0;
     hi \<leftarrow> rd_byte blob 1;
     let path_length = unat lo + unat hi * 256;
     _ \<leftarrow> rd_byte blob (2 + path_length);
     _ \<leftarrow> rd_byte blob (3 + path_length);
     Some (2, 2 + path_length + 2) }"

text \<open>A size in two bytes, the lower one first.\<close>

definition size_bytes :: "nat \<Rightarrow> byte list" where
  "size_bytes n = [word_of_nat (n mod 256), word_of_nat (n div 256)]"

text \<open>The status, the size, and what is written to the buffer, if there is one.\<close>

definition ecryptfs_openssl_serialize :: "byte list option \<Rightarrow> openssl_data \<Rightarrow> (int \<times> nat \<times> byte list option) option" where
  "ecryptfs_openssl_serialize blob d =
     (case (od_path d, od_passphrase d) of
        (Some path, Some passphrase) \<Rightarrow>
          let path_length = length path + 1; passphrase_length = length passphrase + 1;
              blob_size = 2 + path_length + 2 + passphrase_length
          in (case blob of
             None \<Rightarrow> Some (0, blob_size, None)
           | Some buf \<Rightarrow> do {
               buf \<leftarrow> wr_bytes buf 0 (size_bytes path_length);
               buf \<leftarrow> wr_bytes buf 2 (path @ [0]);
               buf \<leftarrow> wr_bytes buf (2 + path_length) (size_bytes passphrase_length);
               buf \<leftarrow> wr_bytes buf (2 + path_length + 2) (passphrase @ [0]);
               Some (0, blob_size, Some buf) })
      | _ \<Rightarrow> Some (- EINVAL, 0, blob))"

subsection \<open>Signatures\<close>

text \<open>The data of a version 4 key packet of OpenPGP, in a block of its size.\<close>

definition ecryptfs_openssl_generate_signature ::
  "'r ssl_env \<Rightarrow> byte list \<Rightarrow> 'r \<Rightarrow> schedule \<Rightarrow> (int \<times> byte list \<times> schedule) option" where
  "ecryptfs_openssl_generate_signature env sig key mem =
     (case malloc_ok mem of
        (False, mem) \<Rightarrow> Some (- ENOMEM, sig, mem)
      | (True, mem) \<Rightarrow>
          let nbits = sl_n_bits env key; nbytes = nbits div 8 + (if nbits mod 8 \<noteq> 0 then 1 else 0);
              ebits = sl_e_bits env key; ebytes = ebits div 8 + (if ebits mod 8 \<noteq> 0 then 1 else 0);
              len = 10 + nbytes + ebytes
          in (case malloc_ok mem of
             (False, mem) \<Rightarrow> Some (- ENOMEM, sig, mem)
           | (True, mem) \<Rightarrow> do {
               data \<leftarrow> wr_bytes (fresh (sl_junk env) (3 + len)) 0
                  ([0x99, word_of_nat (len div 256), word_of_nat len, 4, 0, 0, 0, 0, 2, word_of_nat (nbits div 256), word_of_nat nbits]);
               data \<leftarrow> wr_bytes data 11 (sl_n_bin env key);
               data \<leftarrow> wr_bytes data (11 + nbytes) [word_of_nat (ebits div 256), word_of_nat ebits];
               data \<leftarrow> wr_bytes data (13 + nbytes) (sl_e_bin env key);
               hashed \<leftarrow> rd_bytes data 0 (len + 3);
               digest \<leftarrow> rd_bytes (sl_sha1 env hashed) 0 SIG_SIZE;
               sig \<leftarrow> wr_bytes sig 0 (to_hex digest @ [0]);
               Some (0, sig, mem) }))"

subsection \<open>Directories\<close>

text \<open>
  \<open>dirname\<close> of the GNU C library: slashes at the end are cut, then the last component, then the
  slashes before it. Exactly two slashes at the start are kept.
\<close>

definition drop_last_while :: "('a \<Rightarrow> bool) \<Rightarrow> 'a list \<Rightarrow> 'a list" where
  "drop_last_while P xs = rev (dropWhile P (rev xs))"

definition c_dirname :: "string \<Rightarrow> string" where
  "c_dirname path =
     (let slash = (\<lambda>c. c = CHR ''/''); p = drop_last_while slash path;
          q = (if p = [] then path else drop_last_while (\<lambda>c. \<not> slash c) p)
      in if q = [] then ''.''
      else if drop_last_while slash q = [] then (if length q = 2 then ''//'' else ''/'')
      else drop_last_while slash q)"

text \<open>
  The status and the directories made, the last one first. A recursion that does not come to its
  end has the value \<^term>\<open>None\<close>.
\<close>

partial_function (option) ecryptfs_openssl_mkdir_recursive ::
  "(string list \<Rightarrow> string \<Rightarrow> int) \<Rightarrow> string \<Rightarrow> string list \<Rightarrow> schedule \<Rightarrow> (int \<times> string list \<times> schedule) option" where
  "ecryptfs_openssl_mkdir_recursive mk dir made mem =
     (if dir = ''.'' \<or> dir = ''/'' then Some (0, made, mem)
      else if \<not> fst (malloc_ok mem) then Some (- ENOMEM, made, snd (malloc_ok mem))
      else do {
        (rc, made, mem) \<leftarrow> ecryptfs_openssl_mkdir_recursive mk (c_dirname dir) made (snd (malloc_ok mem));
        if rc \<noteq> 0 then Some (rc, made, mem)
        else if mk made dir = 0 then Some (0, dir # made, mem)
        else if mk made dir \<noteq> EEXIST then Some (- mk made dir, made, mem)
        else Some (0, made, mem) })"

subsection \<open>Keys in files\<close>

text \<open>
  The directory is made with a warning when that fails, but its status stays. The file is emptied
  when it is opened.
\<close>

definition ecryptfs_openssl_write_key_to_file ::
  "'r ssl_env \<Rightarrow> files \<Rightarrow> 'r \<Rightarrow> byte list \<Rightarrow> byte list \<Rightarrow> schedule \<Rightarrow> (int \<times> files \<times> string list \<times> schedule) option" where
  "ecryptfs_openssl_write_key_to_file env files rsa filename passphrase mem =
     (let name = string_of_bytes filename in
      case malloc_ok mem of
        (False, mem) \<Rightarrow> Some (- ENOMEM, files, [], mem)
      | (True, mem) \<Rightarrow> do {
          (rc, made, mem) \<leftarrow> ecryptfs_openssl_mkdir_recursive (sl_mkdir env) (c_dirname name) [] mem;
          (case malloc_ok mem of
             (False, mem) \<Rightarrow> Some (- EIO, files, made, mem)
           | (True, mem) \<Rightarrow>
               if \<not> sl_can_write env name then Some (- EIO, files, made, mem)
               else (case sl_pem_write env rsa passphrase of
                  None \<Rightarrow> Some (- EIO, files(name \<mapsto> []), made, mem)
                | Some pem \<Rightarrow> Some (rc, files(name \<mapsto> pem), made, mem))) })"

text \<open>The key, and the error queue, which is emptied at the end.\<close>

definition ecryptfs_openssl_read_key ::
  "'r ssl_env \<Rightarrow> files \<Rightarrow> byte list \<Rightarrow> int list \<Rightarrow> schedule \<Rightarrow> (int \<times> 'r option \<times> int list \<times> schedule) option" where
  "ecryptfs_openssl_read_key env files blob errs mem = do {
     (rc, rsa, errs, mem) \<leftarrow> (case malloc_ok mem of
        (False, mem) \<Rightarrow> Some (- ENOMEM, None, errs, mem)
      | (True, mem) \<Rightarrow> do {
          (path_at, passphrase_at) \<leftarrow> ecryptfs_openssl_deserialize blob;
          (case malloc_ok mem of
             (False, mem) \<Rightarrow> Some (- EIO, None, errs, mem)
           | (True, mem) \<Rightarrow> do {
               path \<leftarrow> c_string (drop path_at blob);
               (case files (string_of_bytes path) of
                  None \<Rightarrow> Some (- EIO, None, errs @ [sl_error env], mem)
                | Some pem \<Rightarrow> do {
                    passphrase \<leftarrow> c_string (drop passphrase_at blob);
                    Some (case sl_pem_read env pem passphrase of
                       None \<Rightarrow> (- ENOKEY, None, errs @ [sl_error env], mem)
                     | Some rsa \<Rightarrow> (0, Some rsa, errs, mem)) }) }) });
     Some (rc, rsa, ERR_remove_state errs, mem) }"

definition ecryptfs_openssl_get_key_sig ::
  "'r ssl_env \<Rightarrow> files \<Rightarrow> byte list \<Rightarrow> byte list \<Rightarrow> (int \<times> byte list) option" where
  "ecryptfs_openssl_get_key_sig env files sig blob = do {
     (rc, rsa, _, mem) \<leftarrow> ecryptfs_openssl_read_key env files blob [] (sl_calls env);
     if rc \<noteq> 0 then Some (rc, sig)
     else do {
       rsa \<leftarrow> rsa;
       (rc, sig, mem) \<leftarrow> ecryptfs_openssl_generate_signature env sig rsa mem;
       Some (rc, sig) } }"

definition ecryptfs_openssl_generate_key ::
  "'r ssl_env \<Rightarrow> files \<Rightarrow> openssl_data \<Rightarrow> schedule \<Rightarrow> (int \<times> files \<times> string list \<times> schedule) option" where
  "ecryptfs_openssl_generate_key env files d mem =
     (case sl_generate env of
        None \<Rightarrow> Some (- ENOMEM, files, [], mem)
      | Some rsa \<Rightarrow> do {
          path \<leftarrow> od_path d;
          passphrase \<leftarrow> od_passphrase d;
          (rc, files, made, mem) \<leftarrow> ecryptfs_openssl_write_key_to_file env files rsa path passphrase mem;
          Some (if rc \<noteq> 0 then - EIO else 0, files, made, mem) })"

subsection \<open>Encryption\<close>

text \<open>
  The status, \<open>*to_size\<close> and the buffer. Both directions differ in the call of OpenSSL only, whose
  result must fit into the buffer.
\<close>

definition ssl_crypt ::
  "('r \<Rightarrow> byte list \<Rightarrow> byte list option) \<Rightarrow> 'r ssl_env \<Rightarrow> files \<Rightarrow> byte list option \<Rightarrow> byte list \<Rightarrow> byte list
   \<Rightarrow> (int \<times> nat \<times> byte list) option" where
  "ssl_crypt f env files to from blob = do {
     (rc, rsa, errs, _) \<leftarrow> ecryptfs_openssl_read_key env files blob [] (sl_calls env);
     if rc \<noteq> 0 then Some (- ERR_get_error errs, 0, case to of None \<Rightarrow> [] | Some buf \<Rightarrow> buf)
     else do {
       rsa \<leftarrow> rsa;
       (case to of
          None \<Rightarrow> Some (0, sl_size env rsa, [])
        | Some buf \<Rightarrow>
            (case f rsa from of
               None \<Rightarrow> Some (- ERR_get_error (errs @ [sl_error env]), sl_size env rsa, buf)
             | Some out \<Rightarrow> do {
                 buf \<leftarrow> wr_bytes buf 0 out;
                 Some (0, length out, buf) })) } }"

definition ecryptfs_openssl_encrypt ::
  "'r ssl_env \<Rightarrow> files \<Rightarrow> byte list option \<Rightarrow> byte list \<Rightarrow> byte list \<Rightarrow> (int \<times> nat \<times> byte list) option" where
  "ecryptfs_openssl_encrypt env = ssl_crypt (sl_encrypt env) env"

definition ecryptfs_openssl_decrypt ::
  "'r ssl_env \<Rightarrow> files \<Rightarrow> byte list option \<Rightarrow> byte list \<Rightarrow> byte list \<Rightarrow> (int \<times> nat \<times> byte list) option" where
  "ecryptfs_openssl_decrypt env = ssl_crypt (sl_decrypt env) env"

definition ecryptfs_openssl_get_blob ::
  "'r ssl_env \<Rightarrow> byte list option \<Rightarrow> string option list \<Rightarrow> (int \<times> nat \<times> byte list option) option" where
  "ecryptfs_openssl_get_blob env blob param_vals =
     (case sl_init_vals env param_vals of
        (rc, d) \<Rightarrow> if rc \<noteq> 0 then Some (rc, 0, blob) else ecryptfs_openssl_serialize blob d)"

subsection \<open>Callbacks\<close>

text \<open>
  What the callbacks share: the module, by its position in the registry, and the data. The library
  context is extended by the files and the directories made.
\<close>

record ssl_ctx =
  sc_key_mod :: nat
  sc_data :: openssl_data

record ('tn, 'k) ssl_lib = "('tn, 'k) lib_ctx" +
  sx_files :: files
  sx_made :: "string list"

type_synonym ('f, 'tn, 'k) ssl_state = "('f, ssl_ctx, ('tn, 'k) ssl_lib) eval_state"

definition ecryptfs_openssl_destroy_subgraph_ctx :: "ssl_ctx \<Rightarrow> ssl_ctx" where
  "ecryptfs_openssl_destroy_subgraph_ctx c =
     c\<lparr>sc_key_mod := 0, sc_data := ecryptfs_openssl_destroy_openssl_data (sc_data c)\<rparr>"

text \<open>The value of a node as \<open>asprintf\<close> prints it.\<close>

definition printed :: "byte list option \<Rightarrow> byte list" where
  "printed v = (case v of None \<Rightarrow> bytes_of_string ''(null)'' | Some s \<Rightarrow> s)"

definition set_path :: "byte list \<Rightarrow> ssl_ctx \<Rightarrow> ssl_ctx" where
  "set_path v c = c\<lparr>sc_data := (sc_data c)\<lparr>od_path := Some v\<rparr>\<rparr>"

definition set_passphrase :: "byte list \<Rightarrow> ssl_ctx \<Rightarrow> ssl_ctx" where
  "set_passphrase v c = c\<lparr>sc_data := (sc_data c)\<lparr>od_passphrase := Some v\<rparr>\<rparr>"

definition tf_ssl_keyfile :: "nat \<Rightarrow> ('f, 'tn, 'k) ssl_state \<Rightarrow> (int \<times> ('f, 'tn, 'k) ssl_state) option" where
  "tf_ssl_keyfile cur st = do {
     n \<leftarrow> es_graph st cur;
     c \<leftarrow> es_foo st;
     (case es_malloc st of
        (False, st) \<Rightarrow> Some (- ENOMEM, st)
      | (True, st) \<Rightarrow>
          Some (DEFAULT_TOK, set_node cur (n\<lparr>pn_val := None\<rparr>) (st\<lparr>es_foo := Some (set_path (printed (pn_val n)) c)\<rparr>))) }"

definition set_blob ::
  "nat \<Rightarrow> byte list option \<Rightarrow> ('f, 'foo, ('tn, 'k, 'z) lib_ctx_scheme) eval_state \<Rightarrow> ('f, 'foo, ('tn, 'k, 'z) lib_ctx_scheme) eval_state" where
  "set_blob k blob st =
     (let mods = lc_key_mods (es_ctx st)
      in st\<lparr>es_ctx := (es_ctx st)\<lparr>lc_key_mods := mods[k := (mods ! k)\<lparr>km_blob := blob\<rparr>]\<rparr>\<rparr>)"

text \<open>
  \<open>ecryptfs_openssl_process_key\<close>: the blob of the module, the key in the keyring, and the signature
  among the mount options. A size that differs from the one before ends the process.
\<close>

definition ecryptfs_openssl_process_key ::
  "'r ssl_env \<Rightarrow> 'k keyring \<Rightarrow> ssl_ctx \<Rightarrow> ('f, 'tn, 'k) ssl_state \<Rightarrow> (int \<times> ('f, 'tn, 'k) ssl_state) option" where
  "ecryptfs_openssl_process_key env kr c st = do {
     let k = sc_key_mod c;
     (rc, blob_size, _) \<leftarrow> ecryptfs_openssl_serialize None (sc_data c);
     if rc \<noteq> 0 \<or> blob_size = 0 then Some (MOUNT_ERROR, st)
     else if length (lc_key_mods (es_ctx st)) \<le> k then None
     else (case es_malloc st of
        (False, st) \<Rightarrow> Some (- ENOMEM, set_blob k None st)
      | (True, st) \<Rightarrow> do {
          (rc, size2, blob) \<leftarrow> ecryptfs_openssl_serialize (Some (fresh (sl_junk env) blob_size)) (sc_data c);
          let st = set_blob k blob st;
          if rc \<noteq> 0 then Some (MOUNT_ERROR, st)
          else if size2 \<noteq> blob_size then None
          else do {
            r \<leftarrow> ecryptfs_add_key_module_key_to_keyring (sl_junk env) kr (lc_keys (es_ctx st)) (lc_key_mods (es_ctx st) ! k)
                   (fresh (sl_junk env) (SIG_SIZE_HEX + 1)) (es_mem st);
            (case r of
               Process_Exit _ \<Rightarrow> None
             | Returned (rc, sig, keys, mem) \<Rightarrow>
                 let st = st\<lparr>es_ctx := (es_ctx st)\<lparr>lc_keys := keys\<rparr>, es_mem := mem\<rparr> in
                 if rc < 0 then Some (rc, st)
                 else (case es_malloc st of
                    (False, st) \<Rightarrow> Some (- ENOMEM, st)
                  | (True, st) \<Rightarrow> do {
                      s \<leftarrow> c_string sig;
                      Some (push_param (Some (bytes_of_string ''ecryptfs_sig='' @ s)) st) })) } }) }"

text \<open>An integer as \<open>%d\<close> prints it.\<close>

definition print_int :: "int \<Rightarrow> string" where
  "print_int i = (if i < 0 then ''-'' @ decimal (nat (- i)) else decimal (nat i))"

definition limit_key_size ::
  "'r ssl_env \<Rightarrow> ssl_ctx \<Rightarrow> ('f, 'tn, 'k) ssl_state \<Rightarrow> (int \<times> ('f, 'tn, 'k) ssl_state) option" where
  "limit_key_size env c st = do {
     blob \<leftarrow> km_blob (lc_key_mods (es_ctx st) ! sc_key_mod c);
     (rc, rsa, _, mem) \<leftarrow> ecryptfs_openssl_read_key env (sx_files (es_ctx st)) blob [] (es_mem st);
     let st = st\<lparr>es_mem := mem\<rparr>;
     if rc \<noteq> 0 then Some (rc, st)
     else do {
       rsa \<leftarrow> rsa;
       (case es_malloc st of
          (False, st) \<Rightarrow> Some (- ENOMEM, st)
        | (True, st) \<Rightarrow>
            Some (push_param (Some (bytes_of_string (''max_key_bytes='' @ print_int (int (sl_size env rsa) - 41 - 3)))) st)) } }"

text \<open>
  The end that both sources of the passphrase share: the status of the limit is not looked at, the
  structure is wiped and freed, and \<open>*foo\<close> reset.
\<close>

definition finish_key ::
  "'r ssl_env \<Rightarrow> 'k keyring \<Rightarrow> ssl_ctx \<Rightarrow> ('f, 'tn, 'k) ssl_state \<Rightarrow> (int \<times> ('f, 'tn, 'k) ssl_state) option" where
  "finish_key env kr c st = do {
     (rc, st) \<leftarrow> ecryptfs_openssl_process_key env kr c st;
     if rc \<noteq> 0 then Some (rc, st)
     else do {
       (_, st) \<leftarrow> limit_key_size env c st;
       Some (DEFAULT_TOK, st\<lparr>es_foo := None\<rparr>) } }"

definition tf_ssl_passwd ::
  "'r ssl_env \<Rightarrow> 'k keyring \<Rightarrow> nat \<Rightarrow> ('f, 'tn, 'k) ssl_state \<Rightarrow> (int \<times> ('f, 'tn, 'k) ssl_state) option" where
  "tf_ssl_passwd env kr cur st = do {
     n \<leftarrow> es_graph st cur;
     c \<leftarrow> es_foo st;
     (case es_malloc st of
        (False, st) \<Rightarrow> Some (- ENOMEM, st)
      | (True, st) \<Rightarrow>
          let c = set_passphrase (printed (pn_val n)) c in
          finish_key env kr c (set_node cur (n\<lparr>pn_val := None\<rparr>) (st\<lparr>es_foo := Some c\<rparr>))) }"

text \<open>The value of the first \<open>openssl_passwd\<close> of a list.\<close>

fun find_openssl_passwd :: "nv_list \<Rightarrow> heap_ptr option option" where
  "find_openssl_passwd [] = Some None"
| "find_openssl_passwd (p # ps) =
     (case nv_name p of
        Live n \<Rightarrow> if n = bytes_of_string ''openssl_passwd'' then Some (Some (nv_value p)) else find_openssl_passwd ps
      | _ \<Rightarrow> None)"

text \<open>
  Which file: one that is opened by its name, or a descriptor. A name that cannot be opened, the
  descriptor -1, and nodes with other names are errors of the mount.
\<close>

definition passwd_source :: "(string \<Rightarrow> int + open_file) \<Rightarrow> (int \<Rightarrow> open_file) \<Rightarrow> 'f param_node \<Rightarrow> open_file option option" where
  "passwd_source opn fds n = do {
     name \<leftarrow> (case pn_mnt_opt_names n of [] \<Rightarrow> None | s # _ \<Rightarrow> Some s);
     if name = bytes_of_string ''openssl_passwd_file'' then
       Some (case pn_val n of
          None \<Rightarrow> None
        | Some v \<Rightarrow> (case opn (string_of_bytes v) of Inl _ \<Rightarrow> None | Inr f \<Rightarrow> Some f))
     else if name = bytes_of_string ''openssl_passwd_fd'' then do {
       v \<leftarrow> pn_val n;
       Some (if sint (word_of_int (c_strtol_any v) :: u32) = -1 then None else Some (fds (sint (word_of_int (c_strtol_any v) :: u32)))) }
     else Some None }"

definition tf_ssl_passwd_file ::
  "'r ssl_env \<Rightarrow> 'k pass_env \<Rightarrow> nat \<Rightarrow> ('f, 'tn, 'k) ssl_state \<Rightarrow> (int \<times> ('f, 'tn, 'k) ssl_state) option" where
  "tf_ssl_passwd_file env penv cur st = do {
     n \<leftarrow> es_graph st cur;
     source \<leftarrow> passwd_source (pe_open penv) (pe_fd penv) n;
     (rc, st) \<leftarrow> (case source of
        None \<Rightarrow> Some (MOUNT_ERROR, st)
      | Some f \<Rightarrow> do {
          (rc, nvps, mem) \<leftarrow> parse_options_file (sl_junk env) f [] (es_mem st);
          let st = st\<lparr>es_mem := mem\<rparr>;
          if rc \<noteq> 0 then Some (rc, st)
          else do {
            r \<leftarrow> find_openssl_passwd nvps;
            (case r of
               None \<Rightarrow> Some (MOUNT_ERROR, st)
             | Some v \<Rightarrow> do {
                 c \<leftarrow> es_foo st;
                 (t, mem) \<leftarrow> asprintf_s v (es_mem st);
                 let st = st\<lparr>es_mem := mem\<rparr>;
                 (case t of
                    None \<Rightarrow> Some (- ENOMEM, st)
                  | Some t \<Rightarrow>
                      let c = set_passphrase t c in
                      finish_key env (pe_keyring penv) c (st\<lparr>es_foo := Some c\<rparr>)) }) } });
     n \<leftarrow> es_graph st cur;
     Some (rc, set_node cur (n\<lparr>pn_val := None\<rparr>) st) }"

definition tf_ssl_passwd_fd :: "nat \<Rightarrow> ('f, 'tn, 'k) ssl_state \<Rightarrow> (int \<times> ('f, 'tn, 'k) ssl_state) option" where
  "tf_ssl_passwd_fd cur st = Some (ENOSYS, st)"

definition tf_ecryptfs_openssl_gen_key_param_node_keyfile ::
  "nat \<Rightarrow> ('f, 'tn, 'k) ssl_state \<Rightarrow> (int \<times> ('f, 'tn, 'k) ssl_state) option" where
  "tf_ecryptfs_openssl_gen_key_param_node_keyfile cur st = do {
     n \<leftarrow> es_graph st cur;
     c \<leftarrow> es_foo st;
     (case es_malloc st of
        (False, st) \<Rightarrow> Some (- ENOMEM, st)
      | (True, st) \<Rightarrow> Some (DEFAULT_TOK, st\<lparr>es_foo := Some (set_path (printed (pn_val n)) c)\<rparr>)) }"

definition tf_ecryptfs_openssl_gen_key_param_node_passphrase ::
  "'r ssl_env \<Rightarrow> nat \<Rightarrow> ('f, 'tn, 'k) ssl_state \<Rightarrow> (int \<times> ('f, 'tn, 'k) ssl_state) option" where
  "tf_ecryptfs_openssl_gen_key_param_node_passphrase env cur st = do {
     n \<leftarrow> es_graph st cur;
     c \<leftarrow> es_foo st;
     (case es_malloc st of
        (False, st) \<Rightarrow> Some (- ENOMEM, st)
      | (True, st) \<Rightarrow> do {
          let c = set_passphrase (printed (pn_val n)) c;
          (rc, files, made, mem) \<leftarrow> ecryptfs_openssl_generate_key env (sx_files (es_ctx st)) (sc_data c) (es_mem st);
          let st = st\<lparr>es_foo := Some c, es_mem := mem,
                      es_ctx := (es_ctx st)\<lparr>sx_files := files, sx_made := made @ sx_made (es_ctx st)\<rparr>\<rparr>;
          Some (if rc \<noteq> 0 then MOUNT_ERROR else 0, st) }) }"

definition tf_openssl_enter :: "nat \<Rightarrow> ('f, 'tn, 'k) ssl_state \<Rightarrow> (int \<times> ('f, 'tn, 'k) ssl_state) option" where
  "tf_openssl_enter cur st = do {
     n \<leftarrow> es_graph st cur;
     (case es_malloc st of
        (False, st) \<Rightarrow> Some (- ENOMEM, st)
      | (True, st) \<Rightarrow>
          let ms = lc_key_mods (es_ctx st) in
          (case pn_val n of
             None \<Rightarrow> if ms = [] then Some (1, st) else None
           | Some v \<Rightarrow> do {
               (rc, m) \<leftarrow> ecryptfs_find_key_mod ms (string_of_bytes v);
               if rc \<noteq> 0 then Some (rc, st)
               else Some (0, st\<lparr>es_foo := Some \<lparr>sc_key_mod = length (takeWhile (\<lambda>m.
                     ecryptfs_find_key_mod [m] (string_of_bytes v) \<noteq> Some (0, Some m)) ms),
                  sc_data = \<lparr>od_path = None, od_passphrase = None\<rparr>\<rparr>\<rparr>) })) }"

subsection \<open>Nodes\<close>

datatype ssl_fn = Tf_Ssl_Keyfile | Tf_Ssl_Passwd | Tf_Ssl_Passwd_File | Tf_Ssl_Passwd_Fd | Tf_Gen_Keyfile | Tf_Gen_Passphrase | Tf_Openssl_Enter

fun ssl_call ::
  "'r ssl_env \<Rightarrow> 'k pass_env \<Rightarrow> ssl_fn \<Rightarrow> nat \<Rightarrow> ('f, 'tn, 'k) ssl_state \<Rightarrow> (int \<times> ('f, 'tn, 'k) ssl_state) option" where
  "ssl_call env penv Tf_Ssl_Keyfile cur st = tf_ssl_keyfile cur st"
| "ssl_call env penv Tf_Ssl_Passwd cur st = tf_ssl_passwd env (pe_keyring penv) cur st"
| "ssl_call env penv Tf_Ssl_Passwd_File cur st = tf_ssl_passwd_file env penv cur st"
| "ssl_call env penv Tf_Ssl_Passwd_Fd cur st = tf_ssl_passwd_fd cur st"
| "ssl_call env penv Tf_Gen_Keyfile cur st = tf_ecryptfs_openssl_gen_key_param_node_keyfile cur st"
| "ssl_call env penv Tf_Gen_Passphrase cur st = tf_ecryptfs_openssl_gen_key_param_node_passphrase env cur st"
| "ssl_call env penv Tf_Openssl_Enter cur st = tf_openssl_enter cur st"

text \<open>The nodes for a mount from number \<open>b\<close> on, and those for a new key; \<open>suggested\<close> is set by \<open>ecryptfs_openssl_init\<close>.\<close>

abbreviation (input) SSL_KEY_FILE_TOK :: nat where "SSL_KEY_FILE_TOK \<equiv> 1"
abbreviation (input) SSL_PASSPHRASE_METHOD_TOK :: nat where "SSL_PASSPHRASE_METHOD_TOK \<equiv> 2"
abbreviation (input) SSL_USER_PROVIDED_PASSWD_TOK :: nat where "SSL_USER_PROVIDED_PASSWD_TOK \<equiv> 3"
abbreviation (input) SSL_FILE_PASSWD_TOK :: nat where "SSL_FILE_PASSWD_TOK \<equiv> 4"
abbreviation (input) SSL_FD_PASSWD_TOK :: nat where "SSL_FD_PASSWD_TOK \<equiv> 5"
abbreviation (input) PARAM_FLAG_MASK_OUTPUT :: u32 where "PARAM_FLAG_MASK_OUTPUT \<equiv> 0x0002"
abbreviation (input) DISPLAY_PRETTY_VALS :: u32 where "DISPLAY_PRETTY_VALS \<equiv> 0x0400"

definition ssl_param_nodes :: "(ssl_fn \<Rightarrow> 'f) \<Rightarrow> nat \<Rightarrow> byte list option \<Rightarrow> 'f param_node list" where
  "ssl_param_nodes fn b suggested =
    [mk_node [''openssl_keysource'', ''keysource''] ''Key source'' (Some ''keyfile'') PARAM_FLAG_NO_VALUE
       [mk_tn ''default'' ''OpenSSL Key File'' (Some (b + SSL_KEY_FILE_TOK)) None],
     (mk_node [''openssl_keyfile'', ''keyfile''] ''PEM key file'' None PARAM_FLAG_ECHO_INPUT
       [mk_tn ''default'' ''Passphrase Method'' (Some (b + SSL_PASSPHRASE_METHOD_TOK)) (Some (fn Tf_Ssl_Keyfile))])
       \<lparr>pn_suggested_val := suggested\<rparr>,
     (mk_node [''openssl_passwd_specification_method'', ''passwd_specification_method''] ''Method of providing the passphrase'' None
       (DISPLAY_TRANSITION_NODE_VALS OR DISPLAY_PRETTY_VALS OR PARAM_FLAG_ECHO_INPUT OR ALLOW_IMPLICIT_TRANSITION)
       [mk_tn ''openssl_passwd'' ''openssl_passwd: Enter on Console'' (Some (b + SSL_USER_PROVIDED_PASSWD_TOK)) None,
        mk_tn ''openssl_passwd_file'' ''openssl_passwd_file: File Containing Passphrase'' (Some (b + SSL_FILE_PASSWD_TOK)) None,
        mk_tn ''openssl_passwd_fd'' ''openssl_passwd_fd: File Descriptor for File Containing Passphrase'' (Some (b + SSL_FD_PASSWD_TOK)) None])
       \<lparr>pn_suggested_val := Some (bytes_of_string ''openssl_passwd'')\<rparr>,
     mk_node [''openssl_passwd'', ''passwd''] ''Passphrase'' None (STDIN_REQUIRED OR PARAM_FLAG_MASK_OUTPUT)
       [zero_tn\<lparr>tn_trans_func := Some (fn Tf_Ssl_Passwd)\<rparr>],
     mk_node [''openssl_passwd_file'', ''passwd_file''] ''Passphrase File'' None
       (STDIN_REQUIRED OR PARAM_FLAG_ECHO_INPUT OR NONEMPTY_VALUE_REQUIRED)
       [zero_tn\<lparr>tn_trans_func := Some (fn Tf_Ssl_Passwd_File)\<rparr>],
     mk_node [''openssl_passwd_fd'', ''passwd_fd''] ''Passphrase File Descriptor'' None
       (STDIN_REQUIRED OR PARAM_FLAG_ECHO_INPUT OR NONEMPTY_VALUE_REQUIRED)
       [zero_tn\<lparr>tn_trans_func := Some (fn Tf_Ssl_Passwd_Fd)\<rparr>]]"

definition ecryptfs_openssl_gen_key_param_nodes :: "(ssl_fn \<Rightarrow> 'f) \<Rightarrow> nat \<Rightarrow> byte list option \<Rightarrow> 'f param_node list" where
  "ecryptfs_openssl_gen_key_param_nodes fn b suggested =
    [(mk_node [''keyfile''] ''SSL key file path'' None PARAM_FLAG_ECHO_INPUT
       [mk_tn ''default'' [] (Some (b + 1)) (Some (fn Tf_Gen_Keyfile))])\<lparr>pn_suggested_val := suggested\<rparr>,
     mk_node [''passphrase''] ''Passphrase'' None (PARAM_FLAG_MASK_OUTPUT OR VERIFY_VALUE)
       [zero_tn\<lparr>tn_trans_func := Some (fn Tf_Gen_Passphrase)\<rparr>]]"

definition openssl_transition :: "(ssl_fn \<Rightarrow> 'f) \<Rightarrow> nat \<Rightarrow> 'f transition_node" where
  "openssl_transition fn b = mk_tn ''openssl'' ''OpenSSL module'' (Some b) (Some (fn Tf_Openssl_Enter))"

definition openssl_gen_key_transition :: "(ssl_fn \<Rightarrow> 'f) \<Rightarrow> nat \<Rightarrow> 'f transition_node" where
  "openssl_gen_key_transition fn b = mk_tn ''openssl'' ''OpenSSL module'' (Some b) (Some (fn Tf_Openssl_Enter))"

subsection \<open>The operation table\<close>

abbreviation (input) VERSIONING_PUBKEY :: u32 where "VERSIONING_PUBKEY \<equiv> 0x0002"

definition ecryptfs_openssl_get_param_subgraph_trans_node :: "'tn \<Rightarrow> u32 \<Rightarrow> int \<times> 'tn option" where
  "ecryptfs_openssl_get_param_subgraph_trans_node tn version =
     (if version AND VERSIONING_PUBKEY = 0 then (-1, None) else (0, Some tn))"

definition ecryptfs_openssl_get_gen_key_param_subgraph_trans_node :: "'tn \<Rightarrow> u32 \<Rightarrow> int \<times> 'tn option" where
  "ecryptfs_openssl_get_gen_key_param_subgraph_trans_node tn version =
     (if version AND VERSIONING_PUBKEY = 0 then (-1, None) else (0, Some tn))"

definition ecryptfs_openssl_finalize :: "unit \<Rightarrow> int" where
  "ecryptfs_openssl_finalize u = 0"

text \<open>The status, the alias, and the paths suggested for a mount and for a new key.\<close>

definition ecryptfs_openssl_init ::
  "string option \<Rightarrow> schedule \<Rightarrow> int \<times> string option \<times> byte list option \<times> byte list option \<times> schedule" where
  "ecryptfs_openssl_init pw_dir mem =
     (case malloc_ok mem of
        (False, mem) \<Rightarrow> (- ENOMEM, None, None, None, mem)
      | (True, mem) \<Rightarrow>
          (case pw_dir of
             None \<Rightarrow> (- EIO, Some ''openssl'', None, None, mem)
           | Some home \<Rightarrow>
               let path = Some (bytes_of_string (home @ ''/.ecryptfs/pki/openssl/key.pem'')) in
               (case malloc_ok mem of
                  (False, mem) \<Rightarrow> (- ENOMEM, Some ''openssl'', None, None, mem)
                | (True, mem) \<Rightarrow>
                    (case malloc_ok mem of
                       (False, mem) \<Rightarrow> (- ENOMEM, Some ''openssl'', path, None, mem)
                     | (True, mem) \<Rightarrow> (0, Some ''openssl'', path, path, mem)))))"

text \<open>
  The operations as they are called through the table. Its type has no value for undefined
  behaviour: there an entry is unspecified.
\<close>

definition ecryptfs_openssl_ops :: "'r ssl_env \<Rightarrow> files \<Rightarrow> string option \<Rightarrow> 'tn \<Rightarrow> 'tn \<Rightarrow> 'tn ecryptfs_key_mod_ops" where
  "ecryptfs_openssl_ops env files pw_dir tn gen_tn = \<lparr>
     op_init = Some (\<lambda>mem. case ecryptfs_openssl_init pw_dir mem of (rc, al, _, _, mem) \<Rightarrow> (rc, al, mem)),
     op_get_gen_key_params = None,
     op_get_gen_key_subgraph_trans_node = Some (ecryptfs_openssl_get_gen_key_param_subgraph_trans_node gen_tn),
     op_get_params = None,
     op_get_param_subgraph_trans_node = Some (ecryptfs_openssl_get_param_subgraph_trans_node tn),
     op_get_blob = Some (\<lambda>blob vals. case the (ecryptfs_openssl_get_blob env blob vals) of
        (rc, n, b) \<Rightarrow> (rc, n, case b of None \<Rightarrow> [] | Some b \<Rightarrow> b)),
     op_get_key_data = None,
     op_get_key_sig = Some (\<lambda>blob. the (ecryptfs_openssl_get_key_sig env files (fresh (sl_junk env) (SIG_SIZE_HEX + 1)) blob)),
     op_get_key_hint = None,
     op_encrypt = Some (\<lambda>to _ from blob _. the (ecryptfs_openssl_encrypt env files to from blob)),
     op_decrypt = Some (\<lambda>to _ from blob _. the (ecryptfs_openssl_decrypt env files to from blob)),
     op_destroy = None,
     op_finalize = Some ecryptfs_openssl_finalize\<rparr>"

subsection \<open>Blobs\<close>

definition blob_of :: "byte list \<Rightarrow> byte list \<Rightarrow> byte list" where
  "blob_of path passphrase = size_bytes (length path + 1) @ path @ [0] @ size_bytes (length passphrase + 1) @ passphrase @ [0]"

lemma length_size_bytes [simp]: "length (size_bytes n) = 2"
  by (simp add: size_bytes_def)

lemma length_blob_of [simp]: "length (blob_of p q) = length p + length q + 6"
  by (simp add: blob_of_def)

lemma wr_next: "length xs + length bs \<le> length buf \<Longrightarrow>
   wr_bytes (xs @ drop (length xs) buf) (length xs) bs = Some ((xs @ bs) @ drop (length (xs @ bs)) buf)"
  by (simp add: wr_bytes_def add.commute)

lemma serialize_size:
  "ecryptfs_openssl_serialize None \<lparr>od_path = Some p, od_passphrase = Some q\<rparr> = Some (0, length (blob_of p q), None)"
  by (simp add: ecryptfs_openssl_serialize_def)

lemma serialize_buffer:
  assumes "length buf = length (blob_of p q)"
  shows "ecryptfs_openssl_serialize (Some buf) \<lparr>od_path = Some p, od_passphrase = Some q\<rparr>
    = Some (0, length (blob_of p q), Some (blob_of p q))"
proof -
  let ?a = "size_bytes (length p + 1)" let ?b = "?a @ p @ [0]" let ?c = "?b @ size_bytes (length q + 1)"
  have 1: "wr_bytes buf 0 ?a = Some (?a @ drop 2 buf)" using assms by (simp add: wr_bytes_def numeral_2_eq_2)
  have 2: "wr_bytes (?a @ drop 2 buf) 2 (p @ [0]) = Some (?b @ drop (length ?b) buf)"
    using wr_next [of ?a "p @ [0]" buf] assms by (simp add: numeral_2_eq_2)
  have 3: "wr_bytes (?b @ drop (length ?b) buf) (length p + 3) (size_bytes (length q + 1)) = Some (?c @ drop (length ?c) buf)"
    using wr_next [of ?b "size_bytes (length q + 1)" buf] assms by (simp add: eval_nat_numeral)
  have 4: "wr_bytes (?c @ drop (length ?c) buf) (length p + 5) (q @ [0]) = Some (blob_of p q)"
    using wr_next [of ?c "q @ [0]" buf] assms by (simp add: eval_nat_numeral blob_of_def)
  have n: "2 + (length p + 1) = length p + 3" "length p + 3 + 2 = length p + 5"
    "length p + 3 + 2 + (length q + 1) = length (blob_of p q)" by simp_all
  show ?thesis
    unfolding ecryptfs_openssl_serialize_def Let_def openssl_data.simps option.case prod.case n 1 Option.bind.bind_lunit
      2 3 4 by simp
qed

lemma c_string_terminated: "0 \<notin> set s \<Longrightarrow> c_string (s @ 0 # t) = Some s"
  by (induction s) auto

lemma deserialize_blob:
  assumes "length p + 1 < 65536"
  shows "ecryptfs_openssl_deserialize (blob_of p q) = Some (2, length p + 5)"
    and "drop 2 (blob_of p q) = p @ 0 # size_bytes (length q + 1) @ q @ [0]"
    and "drop (length p + 5) (blob_of p q) = q @ [0]"
proof -
  let ?n = "length p + 1"
  have "?n div 256 < 256" using assms by simp
  then have "unat (word_of_nat (?n mod 256) :: byte) + unat (word_of_nat (?n div 256) :: byte) * 256 = ?n"
    by (simp add: unat_of_nat del: Suc_eq_plus1 add_Suc_right)
  then show "ecryptfs_openssl_deserialize (blob_of p q) = Some (2, length p + 5)"
    by (simp add: ecryptfs_openssl_deserialize_def rd_byte_def blob_of_def size_bytes_def nth_append)
  show "drop 2 (blob_of p q) = p @ 0 # size_bytes (length q + 1) @ q @ [0]"
    by (simp add: blob_of_def size_bytes_def)
  define xs where "xs = size_bytes (length p + 1) @ p @ [0] @ size_bytes (length q + 1)"
  have "blob_of p q = xs @ q @ [0]" "length p + 5 = length xs" by (simp_all add: blob_of_def xs_def)
  then show "drop (length p + 5) (blob_of p q) = q @ [0]" by (simp only:) simp
qed

text \<open>
  Round trip of the blob: for a path of less than 65535 bytes, the size that is reported first
  is that of the blob, every byte of the buffer is written, and the offsets read back are those of
  the path and of the passphrase.
\<close>

theorem openssl_blob_roundtrip:
  assumes "length path + 1 < 65536" "0 \<notin> set path" "0 \<notin> set passphrase"
    and "d = \<lparr>od_path = Some path, od_passphrase = Some passphrase\<rparr>"
  shows "\<exists>n. ecryptfs_openssl_serialize None d = Some (0, n, None)
    \<and> (\<forall>junk. \<exists>blob. ecryptfs_openssl_serialize (Some (fresh junk n)) d = Some (0, n, Some blob) \<and> length blob = n
      \<and> (\<exists>i j. ecryptfs_openssl_deserialize blob = Some (i, j)
        \<and> c_string (drop i blob) = Some path \<and> c_string (drop j blob) = Some passphrase))"
  using assms serialize_size serialize_buffer deserialize_blob [OF assms(1)]
  by (simp add: c_string_terminated fresh_def)

theorem openssl_blob_roundtrip_witness:
  "\<exists>blob. ecryptfs_openssl_serialize (Some (fresh (\<lambda>_. 0) 9)) \<lparr>od_path = Some [97], od_passphrase = Some [98, 99]\<rparr> = Some (0, 9, Some blob)
     \<and> (\<exists>i j. ecryptfs_openssl_deserialize blob = Some (i, j) \<and> c_string (drop i blob) = Some [97])"
proof -
  let ?d = "\<lparr>od_path = Some [97], od_passphrase = Some [98, 99]\<rparr>"
  have s: "ecryptfs_openssl_serialize None ?d = Some (0, 9, None)" by (simp add: ecryptfs_openssl_serialize_def)
  obtain n where n: "ecryptfs_openssl_serialize None ?d = Some (0, n, None)"
    "\<forall>junk. \<exists>blob. ecryptfs_openssl_serialize (Some (fresh junk n)) ?d = Some (0, n, Some blob) \<and> length blob = n
      \<and> (\<exists>i j. ecryptfs_openssl_deserialize blob = Some (i, j)
        \<and> c_string (drop i blob) = Some [97] \<and> c_string (drop j blob) = Some [98, 99])"
    using openssl_blob_roundtrip [OF _ _ _ refl, of "[97]" "[98, 99]"] by auto
  moreover have "n = 9" using s n(1) by simp
  ultimately show ?thesis by blast
qed

subsection \<open>Signatures of keys\<close>

text \<open>
  A number of OpenPGP, and the fingerprint of a key of version 4: the digest of its packet.
\<close>

definition mpi :: "nat \<Rightarrow> byte list \<Rightarrow> byte list" where
  "mpi bits bin = be_bytes 2 bits @ bin"

definition fingerprint :: "'r ssl_env \<Rightarrow> 'r \<Rightarrow> byte list" where
  "fingerprint env r =
     (let body = [4] @ be_bytes 4 0 @ [2] @ mpi (sl_n_bits env r) (sl_n_bin env r) @ mpi (sl_e_bits env r) (sl_e_bin env r)
      in sl_sha1 env ([0x99] @ be_bytes 2 (length body) @ body))"

definition key_signature :: "'r ssl_env \<Rightarrow> 'r \<Rightarrow> byte list" where
  "key_signature env r = to_hex (take SIG_SIZE (fingerprint env r))"

text \<open>
  What is documented of \<open>BN_bn2bin\<close> and \<open>SHA1\<close>: as many bytes as hold the bits, and digests of 20
  bytes.
\<close>

definition bn_ok :: "'r ssl_env \<Rightarrow> 'r \<Rightarrow> bool" where
  "bn_ok env r \<longleftrightarrow> length (sl_n_bin env r) = (sl_n_bits env r + 7) div 8 \<and> length (sl_e_bin env r) = (sl_e_bits env r + 7) div 8"

definition sha1_ok :: "'r ssl_env \<Rightarrow> bool" where
  "sha1_ok env \<longleftrightarrow> (\<forall>data. length (sl_sha1 env data) = 20)"

lemma whole_bytes: "n div 8 + (if n mod 8 \<noteq> 0 then 1 else 0) = (n + 7) div (8 :: nat)"
  by presburger

lemma be_bytes_2: "be_bytes 2 n = [word_of_nat (n div 256), word_of_nat n]"
  by (simp add: numeral_2_eq_2)

lemma generate_signature_fingerprint:
  assumes "bn_ok env r" "sha1_ok env" "length sig = SIG_SIZE_HEX + 1"
  shows "ecryptfs_openssl_generate_signature env sig r [] = Some (0, key_signature env r @ [0], [])"
proof -
  define nb eb where "nb = length (sl_n_bin env r)" and "eb = length (sl_e_bin env r)"
  define len where "len = 10 + nb + eb"
  define buf where "buf = fresh (sl_junk env) (3 + len)"
  define h where "h = ([0x99, word_of_nat (len div 256), word_of_nat len, 4, 0, 0, 0, 0, 2, word_of_nat (sl_n_bits env r div 256),
    word_of_nat (sl_n_bits env r)] :: byte list)"
  define e where "e = ([word_of_nat (sl_e_bits env r div 256), word_of_nat (sl_e_bits env r)] :: byte list)"
  have l: "length buf = 13 + nb + eb" "length h = 11" "length e = 2" by (simp_all add: buf_def fresh_def len_def h_def e_def)
  have 1: "wr_bytes buf 0 h = Some (h @ drop 11 buf)" using l by (simp add: wr_bytes_def)
  have 2: "wr_bytes (h @ drop 11 buf) 11 (sl_n_bin env r) = Some ((h @ sl_n_bin env r) @ drop (11 + nb) buf)"
    using wr_next [of h "sl_n_bin env r" buf] l by (simp add: nb_def)
  have 3: "wr_bytes ((h @ sl_n_bin env r) @ drop (11 + nb) buf) (11 + nb) e = Some ((h @ sl_n_bin env r @ e) @ drop (13 + nb) buf)"
    using wr_next [of "h @ sl_n_bin env r" e buf] l by (simp add: nb_def add.commute)
  have 4: "wr_bytes ((h @ sl_n_bin env r @ e) @ drop (13 + nb) buf) (13 + nb) (sl_e_bin env r) = Some (h @ sl_n_bin env r @ e @ sl_e_bin env r)"
    using wr_next [of "h @ sl_n_bin env r @ e" "sl_e_bin env r" buf] l by (simp add: nb_def eb_def add.commute add.left_commute)
  let ?d = "h @ sl_n_bin env r @ e @ sl_e_bin env r"
  have 5: "rd_bytes ?d 0 (len + 3) = Some ?d" using l by (simp add: rd_bytes_def len_def nb_def eb_def)
  have "be_bytes (Suc (Suc (Suc (Suc 0)))) 0 = [0, 0, 0, 0]" by simp
  moreover have "(4 :: nat) = Suc (Suc (Suc (Suc 0)))" by simp
  ultimately have b4: "be_bytes 4 0 = [0, 0, 0, 0]" by (simp only:)
  have d: "sl_sha1 env ?d = fingerprint env r"
    unfolding fingerprint_def mpi_def be_bytes_2 b4 Let_def by (simp add: h_def e_def len_def nb_def eb_def add.assoc)
  have 6: "rd_bytes (fingerprint env r) 0 SIG_SIZE = Some (take SIG_SIZE (fingerprint env r))"
    using assms(2) by (simp add: rd_bytes_def fingerprint_def Let_def sha1_ok_def)
  have "length (take SIG_SIZE (fingerprint env r)) = SIG_SIZE"
    using assms(2) by (simp add: fingerprint_def Let_def sha1_ok_def)
  then have 7: "wr_bytes sig 0 (to_hex (take SIG_SIZE (fingerprint env r)) @ [0]) = Some (key_signature env r @ [0])"
    using assms(3) by (simp add: wr_bytes_def key_signature_def)
  have n: "(sl_n_bits env r + 7) div 8 = nb" "(sl_e_bits env r + 7) div 8 = eb" "10 + nb + eb = len"
    using assms(1) by (simp_all add: bn_ok_def nb_def eb_def len_def)
  show ?thesis
    unfolding ecryptfs_openssl_generate_signature_def Let_def malloc_ok.simps prod.case bool.case whole_bytes n h_def [symmetric]
      buf_def [symmetric] e_def [symmetric] 1 2 3 4 5 d 6 7 Option.bind.bind_lunit by simp
qed

text \<open>
  The signature of a key is the hexadecimal text of the first 8 bytes of its OpenPGP
  fingerprint: the block for the packet has exactly its size, and no byte of it stays uninitialised.
\<close>

theorem openssl_signature_is_fingerprint:
  assumes "bn_ok env r" "sha1_ok env" "length sig = SIG_SIZE_HEX + 1"
  shows "ecryptfs_openssl_generate_signature env sig r []
    = Some (0, to_hex (take SIG_SIZE (fingerprint env r)) @ [0], [])"
  using generate_signature_fingerprint [OF assms] by (simp add: key_signature_def)

subsection \<open>Keys in files\<close>

text \<open>The file at the path holds the key under the passphrase.\<close>

definition key_in_file :: "'r ssl_env \<Rightarrow> files \<Rightarrow> byte list \<Rightarrow> byte list \<Rightarrow> 'r \<Rightarrow> bool" where
  "key_in_file env files path passphrase r \<longleftrightarrow>
     length path + 1 < 65536 \<and> 0 \<notin> set path \<and> 0 \<notin> set passphrase
     \<and> (case files (string_of_bytes path) of None \<Rightarrow> False | Some pem \<Rightarrow> sl_pem_read env pem passphrase = Some r)"

lemma read_key_blob:
  assumes "key_in_file env files p q r"
  shows "ecryptfs_openssl_read_key env files (blob_of p q) errs [] = Some (0, Some r, [], [])"
proof -
  obtain pem where a: "files (string_of_bytes p) = Some pem" "sl_pem_read env pem q = Some r" "0 \<notin> set p" "0 \<notin> set q"
    and l: "length p + 1 < 65536"
    using assms by (auto simp: key_in_file_def split: option.splits)
  then show ?thesis
    unfolding ecryptfs_openssl_read_key_def
    by (simp add: deserialize_blob [OF l] c_string_terminated ERR_remove_state_def)
qed

lemma crypt_blob:
  assumes "key_in_file env files p q r" "sl_calls env = []" "f r from = Some out" "length out \<le> sl_size env r"
    and "length buf = sl_size env r"
  shows "ssl_crypt f env files None from (blob_of p q) = Some (0, sl_size env r, [])"
    and "ssl_crypt f env files (Some buf) from (blob_of p q) = Some (0, length out, out @ drop (length out) buf)"
  using assms by (simp_all add: ssl_crypt_def read_key_blob [OF assms(1)] wr_bytes_def)

lemma ssl_ops_crypt:
  "op_encrypt (ecryptfs_fill_in_dummy_ops (ecryptfs_openssl_ops env files home tn gtn))
     = Some (\<lambda>to _ from blob _. the (ecryptfs_openssl_encrypt env files to from blob))"
  "op_decrypt (ecryptfs_fill_in_dummy_ops (ecryptfs_openssl_ops env files home tn gtn))
     = Some (\<lambda>to _ from blob _. the (ecryptfs_openssl_decrypt env files to from blob))"
  by (simp_all add: ecryptfs_fill_in_dummy_ops_def ecryptfs_openssl_ops_def or_dummy.simps)

lemma ssl_crypt_result:
  assumes "key_in_file env files p q r" "sl_calls env = []" "f r from = Some out" "length out \<le> sl_size env r" "sl_size env r \<noteq> 0"
  shows "crypt_result (\<lambda>to _ from blob _. the (ssl_crypt f env files to from blob)) junk size0 from (blob_of p q) out"
proof -
  have l: "length (fresh junk (sl_size env r)) = sl_size env r" by (simp add: fresh_def)
  show ?thesis
    using crypt_blob [where f = f, OF assms(1-4) l] assms(4,5) l by (simp add: crypt_result_def)
qed

text \<open>
  C9. Session keys through the daemon: a key that was encrypted for a token of the OpenSSL module
  is decrypted to itself with that token. The laws of OpenSSL that are used: a result of
  \<open>RSA_public_encrypt\<close> has the size of the key, and \<open>RSA_private_decrypt\<close> takes it back.
\<close>

theorem openssl_session_key_roundtrip:
  assumes "ecryptfs_find_key_mod mods (tok_key_mod_alias tok) = Some (rc, Some km)"
    and "km_ops km = ecryptfs_fill_in_dummy_ops (ecryptfs_openssl_ops env files home tn gtn)"
    and "key_in_file env files p q r" "tok_data tok = blob_of p q" "sl_calls env = []"
    and "sl_encrypt env r key = Some c" "length c = sl_size env r" "sl_decrypt env r c = Some key"
    and "length key \<le> MAX_KEY_BYTES" "length key \<le> sl_size env r" "0 < sl_size env r" "sl_size env r \<le> MAX_ENCRYPTED_KEY_BYTES"
  shows "\<exists>buf buf'. key_mod_encrypt junk size0 mods (Some tok) key [] = Some (0, Live buf, sl_size env r, [])
    \<and> rd_bytes buf 0 (sl_size env r) = Some c
    \<and> key_mod_decrypt junk size0 mods (Some tok) c [] = Some (0, Live buf', length key, [])
    \<and> rd_bytes buf' 0 (length key) = Some key"
proof -
  note ops = ssl_ops_crypt [of env files home tn gtn, folded assms(2)]
  have nz: "sl_size env r \<noteq> 0" using assms(11) by simp
  have e: "crypt_result (\<lambda>to _ from blob _. the (ecryptfs_openssl_encrypt env files to from blob)) junk size0 key (tok_data tok) c"
    using ssl_crypt_result [where f = "sl_encrypt env", OF assms(3,5,6) _ nz] assms(4,7) by (simp add: ecryptfs_openssl_encrypt_def)
  have d: "crypt_result (\<lambda>to _ from blob _. the (ecryptfs_openssl_decrypt env files to from blob)) junk size0 c (tok_data tok) key"
    using ssl_crypt_result [where f = "sl_decrypt env", OF assms(3,5,8,10) nz] assms(4) by (simp add: ecryptfs_openssl_decrypt_def)
  have lc: "length c \<le> MAX_ENCRYPTED_KEY_BYTES" using assms(7,12) by simp
  show ?thesis
    using key_mod_crypt_good [where sel = op_encrypt, OF assms(1) ops(1) e lc]
      key_mod_crypt_good [where sel = op_decrypt, OF assms(1) ops(2) d assms(9)] assms(7)
    by (auto simp: key_mod_encrypt_def key_mod_decrypt_def)
qed

text \<open>
  A key that cannot be read, for whatever reason, is reported as a success without data: the
  status is taken from the error queue, which has been emptied before.
\<close>

theorem openssl_unreadable_key_is_success:
  assumes "ecryptfs_openssl_read_key env files blob [] (sl_calls env) = Some (rc, rsa, errs, mem)" "rc \<noteq> 0"
  shows "ecryptfs_openssl_encrypt env files (Some buf) from blob = Some (0, 0, buf)
    \<and> ecryptfs_openssl_decrypt env files (Some buf) from blob = Some (0, 0, buf)"
proof -
  have "errs = []" using assms(1) by (auto simp: ecryptfs_openssl_read_key_def ERR_remove_state_def bind_eq_Some_conv)
  then show ?thesis
    using assms by (simp add: ecryptfs_openssl_encrypt_def ecryptfs_openssl_decrypt_def ssl_crypt_def ERR_get_error_def)
qed

subsection \<open>Directories\<close>

text \<open>An absolute path by its components, which are not empty and have no slash.\<close>

definition path_of :: "string list \<Rightarrow> string" where
  "path_of cs = concat (map (\<lambda>c. CHR ''/'' # c) cs)"

definition components_ok :: "string list \<Rightarrow> bool" where
  "components_ok cs \<longleftrightarrow> (\<forall>c \<in> set cs. c \<noteq> [] \<and> CHR ''/'' \<notin> set c)"

lemma drop_last_while_append: "xs \<noteq> [] \<Longrightarrow> \<not> P (last xs) \<Longrightarrow> (\<forall>y \<in> set ys. P y) \<Longrightarrow> drop_last_while P (xs @ ys) = xs"
  by (cases xs rule: rev_cases) (auto simp: drop_last_while_def dropWhile_append3 intro: dropWhile_append3)

lemma path_of_snoc: "path_of (cs @ [c]) = path_of cs @ CHR ''/'' # c"
  by (simp add: path_of_def)

lemma path_of_last:
  assumes "components_ok cs" "cs \<noteq> []"
  shows "path_of cs \<noteq> []" "last (path_of cs) \<noteq> CHR ''/''"
proof -
  obtain ds c where cs: "cs = ds @ [c]" using assms(2) by (metis rev_exhaust)
  then have c: "c \<noteq> []" "CHR ''/'' \<notin> set c" using assms(1) by (auto simp: components_ok_def)
  show "path_of cs \<noteq> []" by (simp add: cs path_of_snoc)
  have "last (path_of cs) = last c" using c(1) by (simp add: cs path_of_snoc)
  then show "last (path_of cs) \<noteq> CHR ''/''" using c by (metis last_in_set)
qed

lemma dirname_path:
  assumes "components_ok (cs @ [c])"
  shows "c_dirname (path_of (cs @ [c])) = (if cs = [] then ''/'' else path_of cs)"
proof -
  let ?slash = "\<lambda>c. c = CHR ''/''"
  have c: "c \<noteq> []" "CHR ''/'' \<notin> set c" and ok: "components_ok cs" using assms by (auto simp: components_ok_def)
  have "last c \<noteq> CHR ''/''" using c by (metis last_in_set)
  then have 1: "drop_last_while ?slash (path_of (cs @ [c])) = path_of (cs @ [c])"
    using drop_last_while_append [of "path_of (cs @ [c])" ?slash "[]"] c by (simp add: path_of_snoc)
  have 2: "drop_last_while (\<lambda>c. \<not> ?slash c) (path_of cs @ CHR ''/'' # c) = path_of cs @ ''/''"
    using drop_last_while_append [of "path_of cs @ ''/''" "\<lambda>c. \<not> ?slash c" c] c by auto
  have 3: "drop_last_while ?slash (path_of cs @ ''/'') = path_of cs" if "cs \<noteq> []"
    using drop_last_while_append [of "path_of cs" ?slash "''/''"] path_of_last [OF ok that] by simp
  show ?thesis
    using 1 2 3 path_of_last [OF ok] unfolding c_dirname_def Let_def path_of_snoc
    by (cases "cs = []") (simp_all add: path_of_def drop_last_while_def)
qed

text \<open>The directories on the way to a path, the longest first.\<close>

fun parents :: "string list \<Rightarrow> string list" where
  "parents cs = map path_of (rev (filter (\<lambda>p. p \<noteq> []) (prefixes cs)))"

lemma parents_snoc: "parents (cs @ [c]) = path_of (cs @ [c]) # parents cs"
  by (simp add: prefixes_snoc)

declare parents.simps [simp del]

lemma path_of_dot: "cs \<noteq> [] \<Longrightarrow> components_ok cs \<Longrightarrow> path_of cs \<noteq> ''.'' \<and> path_of cs \<noteq> ''/''"
  using path_of_last [of cs] by (cases cs) (auto simp: path_of_def components_ok_def)

lemma mkdir_recursive_path:
  assumes "components_ok cs" "cs \<noteq> []"
  shows "ecryptfs_openssl_mkdir_recursive (\<lambda>_ d. if d \<in> exist then EEXIST else 0) (path_of cs) made []
    = Some (0, filter (\<lambda>d. d \<notin> exist) (parents cs) @ made, [])"
  using assms
proof (induction cs rule: rev_induct)
  case (snoc c cs)
  let ?mk = "\<lambda>_ d. if d \<in> exist then EEXIST else 0"
  have ok: "components_ok cs" using snoc.prems(1) by (auto simp: components_ok_def)
  have "ecryptfs_openssl_mkdir_recursive ?mk (if cs = [] then ''/'' else path_of cs) made []
      = Some (0, filter (\<lambda>d. d \<notin> exist) (parents cs) @ made, [])"
  proof (cases "cs = []")
    case True
    then show ?thesis by (subst ecryptfs_openssl_mkdir_recursive.simps) (simp add: parents.simps)
  next
    case False
    then show ?thesis using snoc.IH ok by simp
  qed
  then show ?case
    using path_of_dot [OF snoc.prems(2,1)]
    by (subst ecryptfs_openssl_mkdir_recursive.simps) (simp add: dirname_path [OF snoc.prems(1)] parents_snoc)
qed simp

text \<open>
  Making a directory with all its parents ends for an absolute path without empty components:
  the missing ones are made, the outermost first.
\<close>

theorem openssl_mkdir_makes_parents:
  assumes "components_ok cs" "cs \<noteq> []"
  shows "ecryptfs_openssl_mkdir_recursive (\<lambda>_ d. if d \<in> exist then EEXIST else 0) (path_of cs) [] []
    = Some (0, filter (\<lambda>d. d \<notin> exist) (parents cs), [])"
  using mkdir_recursive_path [OF assms, of exist "[]"] by simp

theorem openssl_mkdir_makes_parents_witness:
  "ecryptfs_openssl_mkdir_recursive (\<lambda>_ d. if d \<in> {''/h''} then EEXIST else 0) ''/h/k/o'' [] []
     = Some (0, [''/h/k/o'', ''/h/k''], [])"
proof -
  have "path_of [''h'', ''k'', ''o''] = ''/h/k/o''" "parents [''h'', ''k'', ''o''] = [''/h/k/o'', ''/h/k'', ''/h'']"
    by (simp_all add: path_of_def parents.simps)
  then show ?thesis using openssl_mkdir_makes_parents [of "[''h'', ''k'', ''o'']" "{''/h''}"] by (simp add: components_ok_def)
qed

text \<open>
  For a file directly below two slashes the recursion does not end: the name of the directory is two
  slashes again.
\<close>

lemma dirname_two_slashes: "c_dirname ''//'' = ''//''"
  by code_simp

lemma mkdir_returns_not_two_slashes:
  assumes "ecryptfs_openssl_mkdir_recursive mk dir made mem = Some r"
  shows "\<not> (dir = ''//'' \<and> mem = [])"
proof (rule ecryptfs_openssl_mkdir_recursive.raw_induct [of "\<lambda>mk dir made mem r. \<not> (dir = ''//'' \<and> mem = [])", OF _ assms])
  fix rec :: "(string list \<Rightarrow> string \<Rightarrow> int) \<Rightarrow> string \<Rightarrow> string list \<Rightarrow> schedule \<Rightarrow> (int \<times> string list \<times> schedule) option"
  fix mk dir made mem r
  assume ih: "\<And>mk dir made mem r. rec mk dir made mem = Some r \<Longrightarrow> \<not> (dir = ''//'' \<and> mem = [])"
    and r: "(if dir = ''.'' \<or> dir = ''/'' then Some (0, made, mem)
      else if \<not> fst (malloc_ok mem) then Some (- ENOMEM, made, snd (malloc_ok mem))
      else do {
        (rc, made, mem) \<leftarrow> rec mk (c_dirname dir) made (snd (malloc_ok mem));
        if rc \<noteq> 0 then Some (rc, made, mem)
        else if mk made dir = 0 then Some (0, dir # made, mem)
        else if mk made dir \<noteq> EEXIST then Some (- mk made dir, made, mem)
        else Some (0, made, mem) }) = Some r"
  show "\<not> (dir = ''//'' \<and> mem = [])"
  proof
    assume d: "dir = ''//'' \<and> mem = []"
    then obtain x where "rec mk ''//'' made [] = Some x" using r by (auto simp: dirname_two_slashes bind_eq_Some_conv)
    then show False using ih by blast
  qed
qed

lemma mkdir_two_slashes: "ecryptfs_openssl_mkdir_recursive mk ''//'' made [] = None"
  using mkdir_returns_not_two_slashes [of mk "''//''" made "[]"] by (cases "ecryptfs_openssl_mkdir_recursive mk ''//'' made []") auto

lemma dirname_below_two_slashes:
  assumes "name \<noteq> []" "CHR ''/'' \<notin> set name"
  shows "c_dirname (''//'' @ name) = ''//''"
proof -
  let ?slash = "\<lambda>c. c = CHR ''/''"
  have "last name \<noteq> CHR ''/''" using assms by (metis last_in_set)
  then have 1: "drop_last_while ?slash (''//'' @ name) = ''//'' @ name"
    using drop_last_while_append [of "''//'' @ name" ?slash "[]"] assms(1) by simp
  have 2: "drop_last_while (\<lambda>c. \<not> ?slash c) (''//'' @ name) = ''//''"
    using drop_last_while_append [of "''//''" "\<lambda>c. \<not> ?slash c" name] assms(2) by auto
  have 3: "drop_last_while ?slash ''//'' = []" by (simp add: drop_last_while_def)
  show ?thesis unfolding c_dirname_def Let_def 1 2 by (simp add: 3)
qed

text \<open>
  A new key for a file directly below two slashes is never written: the recursion over the
  directories does not come back.
\<close>

theorem openssl_two_slashes_never_end:
  assumes "name \<noteq> []" "CHR ''/'' \<notin> set name" and "sl_generate env = Some r"
  shows "ecryptfs_openssl_generate_key env files \<lparr>od_path = Some (bytes_of_string (''//'' @ name)), od_passphrase = Some q\<rparr> [] = None"
proof -
  have "string_of_bytes (bytes_of_string (''//'' @ name)) = ''//'' @ name" by simp
  then show ?thesis
    unfolding ecryptfs_openssl_generate_key_def ecryptfs_openssl_write_key_to_file_def
    using assms(3) dirname_below_two_slashes [OF assms(1,2)] by (simp add: mkdir_two_slashes)
qed

text \<open>
  C32. A new key is found again: after its generation for an absolute path, the blob of path and
  passphrase leads to the key. No other file is changed. The law of OpenSSL that is used: what
  \<open>PEM_write_bio_RSAPrivateKey\<close> writes under a passphrase is read back with it.
\<close>

theorem openssl_generated_key_is_read:
  assumes "components_ok (cs @ [c])" "path = bytes_of_string (path_of (cs @ [c]))"
    and "length path + 1 < 65536" "0 \<notin> set path" "0 \<notin> set q"
    and "sl_generate env = Some r" "sl_mkdir env = (\<lambda>_ d. if d \<in> exist then EEXIST else 0)"
    and "sl_can_write env (string_of_bytes path)" "sl_pem_write env r q = Some pem" "sl_pem_read env pem q = Some r"
  shows "\<exists>made. ecryptfs_openssl_generate_key env files \<lparr>od_path = Some path, od_passphrase = Some q\<rparr> []
        = Some (0, files(string_of_bytes path \<mapsto> pem), made, [])
      \<and> ecryptfs_openssl_read_key env (files(string_of_bytes path \<mapsto> pem)) (blob_of path q) errs [] = Some (0, Some r, [], [])"
proof -
  have p: "string_of_bytes path = path_of (cs @ [c])" using assms(2) by simp
  have ok: "components_ok cs" using assms(1) by (auto simp: components_ok_def)
  obtain made where m: "ecryptfs_openssl_mkdir_recursive (sl_mkdir env) (c_dirname (path_of (cs @ [c]))) [] [] = Some (0, made, [])"
  proof (cases "cs = []")
    case True
    then have "c_dirname (path_of (cs @ [c])) = ''/''" using dirname_path [OF assms(1)] by simp
    then show ?thesis using that by (subst (asm) ecryptfs_openssl_mkdir_recursive.simps) simp
  next
    case False
    then show ?thesis
      using that mkdir_recursive_path [OF ok False, of exist "[]"] dirname_path [OF assms(1)] assms(7) by simp
  qed
  have "key_in_file env (files(string_of_bytes path \<mapsto> pem)) path q r" using assms(3-5,10) by (simp add: key_in_file_def)
  note r = read_key_blob [OF this]
  show ?thesis
    unfolding ecryptfs_openssl_generate_key_def ecryptfs_openssl_write_key_to_file_def
    using assms(6,8,9) m r by (simp add: Let_def p)
qed

subsection \<open>Limits on key sizes\<close>

lemma decimal_dec_digits: "bytes_of_string (decimal n) = dec_digits n"
proof (induction n rule: decimal.induct)
  case (1 n)
  have c: "bytes_of_string [char_of (48 + k)] = [word_of_nat (48 + k)]" if "k < 10" for k :: nat
  proof -
    have "(of_char (char_of (48 + k) :: char) :: nat) = 48 + k" using that by (simp add: of_char_of)
    then show ?thesis by (simp add: bytes_of_string_def of_char_word del: of_nat_add)
  qed
  show ?case
  proof (cases "n < 10")
    case True
    then show ?thesis using c [of n] by (simp add: decimal.simps dec_digits.simps)
  next
    case False
    then show ?thesis using c [of "n mod 10"] 1
      by (subst decimal.simps, subst dec_digits.simps) (simp add: bytes_of_string_def del: dec_digits.simps)
  qed
qed

lemma no_equals_in_digits: "61 \<notin> set (dec_digits n)"
proof -
  have "list_all (is_digit_of 10) (dec_digits n)" using dec_digits_ok by blast
  moreover have "\<not> is_digit_of 10 61" by code_simp
  ultimately show ?thesis by (auto simp: list_all_iff)
qed

lemma hd_dec_digits:
  obtains d t where "d < 10" "dec_digits n = hex_digit d # t" "\<not> c_isspace (hex_digit d)" "hex_digit d \<noteq> 45" "hex_digit d \<noteq> 43"
    "is_digit_of 10 (hex_digit d)"
proof -
  obtain d where d: "d < 10" "hd (dec_digits n) = hex_digit d" "dec_digits n \<noteq> []" "list_all (is_digit_of 10) (dec_digits n)"
    using dec_digits_ok [of n] by blast
  then obtain t where t: "dec_digits n = hex_digit d # t" by (metis list.collapse)
  have "\<forall>d \<in> {0..<10}. \<not> c_isspace (hex_digit d) \<and> hex_digit d \<noteq> 45 \<and> hex_digit d \<noteq> 43" by code_simp
  then show ?thesis using that d t by auto
qed

lemma strtol_print_int: "c_strtol 10 (bytes_of_string (print_int i)) = i" "\<not> no_number (bytes_of_string (print_int i))"
proof -
  obtain d t where d: "dec_digits (nat \<bar>i\<bar>) = hex_digit d # t" "\<not> c_isspace (hex_digit d)" "hex_digit d \<noteq> 45" "hex_digit d \<noteq> 43"
    "is_digit_of 10 (hex_digit d)" by (rule hd_dec_digits)
  have v: "digits_nat 10 0 (hex_digit d # t) = nat \<bar>i\<bar>" using dec_digits_ok [of "nat \<bar>i\<bar>"] d(1) by simp
  have p: "bytes_of_string (print_int i) = (if i < 0 then 45 # hex_digit d # t else hex_digit d # t)"
    using d(1) decimal_dec_digits [of "nat \<bar>i\<bar>"] by (auto simp: print_int_def bytes_of_string_def)
  have s: "\<not> c_isspace 45" by code_simp
  have n: "c_strtol 10 (45 # hex_digit d # t) = - int (digits_nat 10 0 (hex_digit d # t))"
    using s by (cases t; cases "tl t") (simp_all add: c_strtol_def Let_def del: digits_nat.simps)
  show "c_strtol 10 (bytes_of_string (print_int i)) = i"
    using v n strtol_decimal [OF d(2-4), of t] by (auto simp: p simp del: digits_nat.simps)
  show "\<not> no_number (bytes_of_string (print_int i))" using d s by (simp add: p no_number_def)
qed

abbreviation (input) max_option :: "int \<Rightarrow> byte list" where
  "max_option i \<equiv> bytes_of_string (''max_key_bytes='' @ print_int i)"

lemma print_int_no_equals: "61 \<notin> set (bytes_of_string (print_int i))"
proof -
  have "bytes_of_string (''-'' @ t) = 45 # bytes_of_string t" for t by (simp add: bytes_of_string_def)
  then show ?thesis using no_equals_in_digits by (simp add: print_int_def decimal_dec_digits)
qed

lemma max_option_parts:
  "max_option i = bytes_of_string ''max_key_bytes'' @ 61 # bytes_of_string (print_int i)"
  "61 \<notin> set (bytes_of_string ''max_key_bytes'')"
  by (simp_all add: bytes_of_string_def)

lemma takeWhile_max_option: "takeWhile (\<lambda>b. b \<noteq> 61) (max_option i) = bytes_of_string ''max_key_bytes''"
  "tl (dropWhile (\<lambda>b. b \<noteq> 61) (max_option i)) = bytes_of_string (print_int i)"
  using max_option_parts(2) unfolding max_option_parts(1)
  by (simp_all add: takeWhile_append2 dropWhile_append2 takeWhile_append dropWhile_append)

lemma no_min_limit: "limit_of ''min_key_bytes='' (Some (max_option i)) = None"
proof -
  have "\<not> sublist (bytes_of_string ''min_key_bytes='') (max_option i)"
  proof
    assume "sublist (bytes_of_string ''min_key_bytes='') (max_option i)"
    then obtain a b where v: "max_option i = a @ bytes_of_string ''min_key_bytes'' @ 61 # b"
      by (auto simp: sublist_def bytes_of_string_def)
    have "length (filter (\<lambda>x. x = 61) (max_option i)) = 1"
      using print_int_no_equals [of i] max_option_parts(2) unfolding max_option_parts(1)
      by (simp add: filter_empty_conv) metis
    then have "61 \<notin> set a" unfolding v by (auto simp: filter_empty_conv)
    then have "takeWhile (\<lambda>b. b \<noteq> 61) (max_option i) = a @ bytes_of_string ''min_key_bytes''"
      unfolding v by (subst takeWhile_append2) (auto simp: bytes_of_string_def)
    then have "a @ bytes_of_string ''min_key_bytes'' = bytes_of_string ''max_key_bytes''" using takeWhile_max_option(1) [of i] by simp
    note e = this
    have "length (a @ bytes_of_string ''min_key_bytes'') = length (bytes_of_string ''max_key_bytes'')" using e by (rule arg_cong)
    then have "a = []" by simp
    then show False using e by simp
  qed
  then show ?thesis by (simp add: limit_of_def)
qed

lemma max_limit:
  assumes "- (2 ^ 31) \<le> i" "i < 2 ^ 31"
  shows "limit_of ''max_key_bytes='' (Some (max_option i)) = Some (Inr i)"
proof -
  have "sint (word_of_int i :: u32) = i" using assms by (simp add: sint_sbintrunc' signed_take_bit_int_eq_self)
  moreover have "sublist (bytes_of_string ''max_key_bytes='') (max_option i)" by (simp add: bytes_of_string_def)
  ultimately show ?thesis using takeWhile_max_option(2) [of i] strtol_print_int [of i] by (simp add: limit_of_def)
qed

lemma limit_is_applied:
  assumes "- (2 ^ 31) \<le> i" "i < 2 ^ 31"
  shows "strip_limits (Some (max_option i) # v # vs) mn mx = map_option (\<lambda>(rc, us, r). (rc, v # us, r)) (strip_limits vs mn i)"
  using max_limit [OF assms] no_min_limit by (simp add: Let_def)

subsection \<open>Mounting with a key\<close>

lemma get_key_sig_blob:
  assumes "key_in_file env files p q r" "bn_ok env r" "sha1_ok env" "sl_calls env = []"
  shows "ecryptfs_openssl_get_key_sig env files (fresh (sl_junk env) (SIG_SIZE_HEX + 1)) (blob_of p q)
    = Some (0, key_signature env r @ [0])"
  using generate_signature_fingerprint [OF assms(2,3)] assms(4)
  by (simp add: ecryptfs_openssl_get_key_sig_def read_key_blob [OF assms(1)] fresh_def)

lemma ssl_ops_sig:
  "op_get_key_data (ecryptfs_fill_in_dummy_ops (ecryptfs_openssl_ops env files home tn gtn)) = Some ecryptfs_dummy_get_key_data"
  "op_get_key_sig (ecryptfs_fill_in_dummy_ops (ecryptfs_openssl_ops env files home tn gtn))
     = Some (\<lambda>blob. the (ecryptfs_openssl_get_key_sig env files (fresh (sl_junk env) (SIG_SIZE_HEX + 1)) blob))"
  by (simp_all add: ecryptfs_fill_in_dummy_ops_def ecryptfs_openssl_ops_def)

lemma signature_text:
  assumes "sha1_ok env"
  shows "length (key_signature env r) = SIG_SIZE_HEX" "0 \<notin> set (key_signature env r)"
proof -
  show "length (key_signature env r) = SIG_SIZE_HEX" using assms by (simp add: key_signature_def fingerprint_def Let_def sha1_ok_def)
  have "hex_digit n \<noteq> 0" if "n < 16" for n
  proof -
    have "\<forall>n \<in> {0..<16}. hex_digit n \<noteq> 0" by code_simp
    then show ?thesis using that by simp
  qed
  moreover have "unat b div 16 < 16" for b :: byte using unat_byte_less [of b] by linarith
  ultimately show "0 \<notin> set (key_signature env r)" by (auto simp: key_signature_def to_hex_def)
qed

text \<open>The token of a key: the module, the blob and the signature.\<close>

definition module_token :: "string \<Rightarrow> byte list \<Rightarrow> byte list \<Rightarrow> ecryptfs_auth_tok" where
  "module_token al sig blob = private_tok \<lparr>pk_key_size = 16, pk_data_len = word_of_nat (length blob), pk_signature = sig @ [0],
     pk_key_mod_alias = strncpy_field (KEY_MOD_NAME_BYTES + 1) KEY_MOD_NAME_BYTES (bytes_of_string al), pk_data = blob\<rparr>"

lemma add_signed_key:
  assumes "km_blob m = Some blob" "km_alias m = Some al" "payload_sig m blob sig junk [] = Some (0, s @ [0], [])"
    and "length s = SIG_SIZE_HEX" "0 \<notin> set s"
    and "kr_search kr keys s = Inl e" "kr_add kr keys s (module_token al s blob) = (Inr i, keys')"
  shows "ecryptfs_add_key_module_key_to_keyring junk kr keys m sig [] = Some (Returned (0, s @ [0], keys', []))"
proof -
  have b: "payload_blob m (length blob) = Some (0, length blob, blob)" using assms(1) by (simp add: payload_blob_def wr_bytes_def)
  have n: "rd_bytes (s @ [0]) 0 SIG_SIZE_HEX = Some s" using assms(4) by (simp add: rd_bytes_def)
  have "ecryptfs_generate_key_payload junk m sig (length blob) [] = Some (Returned (0, Some (module_token al s blob), s @ [0], []))"
    unfolding ecryptfs_generate_key_payload_def b using assms(2,3) n by (simp add: module_token_def)
  then show ?thesis
    using assms(1,6,7) c_string_terminated [OF assms(5), of "[]"] by (simp add: ecryptfs_add_key_module_key_to_keyring_def)
qed

lemma add_openssl_key:
  assumes "km_ops m = ecryptfs_fill_in_dummy_ops (ecryptfs_openssl_ops env files home tn gtn)" "km_blob m = Some (blob_of p q)"
    and "km_alias m = Some al" "key_in_file env files p q r" "bn_ok env r" "sha1_ok env" "sl_calls env = []"
    and "kr_search kr keys (key_signature env r) = Inl e"
    and "kr_add kr keys (key_signature env r) (module_token al (key_signature env r) (blob_of p q)) = (Inr i, keys')"
  shows "ecryptfs_add_key_module_key_to_keyring junk kr keys m sig [] = Some (Returned (0, key_signature env r @ [0], keys', []))"
proof -
  have d: "ecryptfs_dummy_get_key_data None x = (0, 0, [])" for x by (simp add: ecryptfs_dummy_get_key_data_def)
  have "payload_sig m (blob_of p q) sig junk [] = Some (0, key_signature env r @ [0], [])"
    using get_key_sig_blob [OF assms(4-7)] by (simp add: payload_sig_def assms(1) ssl_ops_sig d)
  then show ?thesis using add_signed_key [OF assms(2,3) _ signature_text [OF assms(6)] assms(8,9)] by blast
qed

text \<open>
  C12. A mount with an OpenSSL key, from the passphrase on: the token with path and passphrase goes
  into the keyring under the fingerprint of the key, its signature becomes a mount option, and the
  size of the key limits the choice of the ciphers' key sizes. The limit is taken off the options again.
\<close>

theorem openssl_mount_adds_key:
  assumes "es_graph st cur = Some n" "pn_val n = Some q" "es_mem st = []" "sl_calls env = []"
    and "es_foo st = Some \<lparr>sc_key_mod = k, sc_data = \<lparr>od_path = Some p, od_passphrase = x\<rparr>\<rparr>"
    and "k < length (lc_key_mods (es_ctx st))" "km_alias (lc_key_mods (es_ctx st) ! k) = Some al"
    and "km_ops (lc_key_mods (es_ctx st) ! k)
      = ecryptfs_fill_in_dummy_ops (ecryptfs_openssl_ops env (sx_files (es_ctx st)) home tn gtn)"
    and "key_in_file env (sx_files (es_ctx st)) p q r" "bn_ok env r" "sha1_ok env" "sl_size env r < 2 ^ 31"
    and "kr_search kr (lc_keys (es_ctx st)) (key_signature env r) = Inl e"
    and "kr_add kr (lc_keys (es_ctx st)) (key_signature env r) (module_token al (key_signature env r) (blob_of p q)) = (Inr i, keys')"
  shows "\<exists>st'. tf_ssl_passwd env kr cur st = Some (DEFAULT_TOK, st') \<and> lc_keys (es_ctx st') = keys' \<and> es_foo st' = None
    \<and> es_mnt_params st' = Some (max_option (int (sl_size env r) - 44))
        # Some (bytes_of_string ''ecryptfs_sig='' @ key_signature env r) # es_mnt_params st
    \<and> strip_limits (es_mnt_params st') mn mx
        = map_option (\<lambda>(rc, us, l). (rc, Some (bytes_of_string ''ecryptfs_sig='' @ key_signature env r) # us, l))
            (strip_limits (es_mnt_params st) mn (int (sl_size env r) - 44))"
proof -
  let ?c = "\<lparr>sc_key_mod = k, sc_data = \<lparr>od_path = Some p, od_passphrase = Some q\<rparr>\<rparr>" and ?ctx = "es_ctx st"
  let ?m = "(lc_key_mods ?ctx ! k)\<lparr>km_blob := Some (blob_of p q)\<rparr>"
  let ?sig = "bytes_of_string ''ecryptfs_sig='' @ key_signature env r"
  define st1 where "st1 = set_node cur (n\<lparr>pn_val := None\<rparr>) (st\<lparr>es_foo := Some ?c\<rparr>)"
  have f1: "es_ctx st1 = ?ctx" "es_mem st1 = []" "es_mnt_params st1 = es_mnt_params st" "es_foo st1 = Some ?c"
    using assms(3) by (simp_all add: st1_def set_node_def)
  define st2 where "st2 = set_blob k (Some (blob_of p q)) st1"
  have mods: "lc_key_mods (es_ctx st2) ! k = ?m" using assms(6) f1 by (simp add: st2_def set_blob_def Let_def)
  have f2: "es_mem st2 = []" "lc_keys (es_ctx st2) = lc_keys ?ctx" "sx_files (es_ctx st2) = sx_files ?ctx"
    "es_mnt_params st2 = es_mnt_params st" "es_foo st2 = Some ?c"
    using f1 by (simp_all add: st2_def set_blob_def Let_def)
  have a: "ecryptfs_add_key_module_key_to_keyring (sl_junk env) kr (lc_keys (es_ctx st2)) (lc_key_mods (es_ctx st2) ! k)
      (fresh (sl_junk env) (SIG_SIZE_HEX + 1)) (es_mem st2) = Some (Returned (0, key_signature env r @ [0], keys', []))"
    unfolding mods f2
    by (rule add_openssl_key [OF _ _ _ assms(9-11,4,13,14)]) (use assms(7,8) in simp_all)
  have buf: "ecryptfs_openssl_serialize (Some (fresh (sl_junk env) (length (blob_of p q)))) (sc_data ?c)
      = Some (0, length (blob_of p q), Some (blob_of p q))"
    using serialize_buffer [of "fresh (sl_junk env) (length (blob_of p q))" p q] by (simp add: fresh_def)
  define st3 where "st3 = st2\<lparr>es_ctx := (es_ctx st2)\<lparr>lc_keys := keys'\<rparr>, es_mnt_params := Some ?sig # es_mnt_params st, es_mem := []\<rparr>"
  have mem2: "st\<lparr>es_mem := []\<rparr> = st" "st1\<lparr>es_mem := []\<rparr> = st1" using f1(2) assms(3) by simp_all
  have p: "ecryptfs_openssl_process_key env kr ?c st1 = Some (0, st3)"
    unfolding ecryptfs_openssl_process_key_def
    using serialize_size [of p q] buf assms(6) f1 f2 mods a c_string_terminated [OF signature_text(2) [OF assms(11)], of r "[]"]
    by (simp add: es_malloc_def push_param_def stack_push_def Let_def mem2(2) st2_def [symmetric] st3_def)
  have l: "limit_key_size env ?c st3 = Some (0, st3\<lparr>es_mnt_params := Some (max_option (int (sl_size env r) - 44)) # es_mnt_params st3\<rparr>)"
    unfolding limit_key_size_def
    using mods f2 read_key_blob [OF assms(9)]
    by (simp add: st3_def es_malloc_def push_param_def stack_push_def)
  have "tf_ssl_passwd env kr cur st = Some (DEFAULT_TOK,
      st3\<lparr>es_mnt_params := Some (max_option (int (sl_size env r) - 44)) # es_mnt_params st3, es_foo := None\<rparr>)"
    using assms(1,2,3,5) p l
    by (simp add: tf_ssl_passwd_def es_malloc_def mem2(1) set_passphrase_def printed_def finish_key_def st1_def Let_def)
  moreover have "es_mnt_params st3 = Some ?sig # es_mnt_params st" by (simp add: st3_def)
  moreover have "- (2 ^ 31) \<le> int (sl_size env r) - 44" "int (sl_size env r) - 44 < 2 ^ 31" using assms(12) by simp_all
  ultimately show ?thesis using limit_is_applied [of "int (sl_size env r) - 44"] by (simp add: st3_def del: strip_limits.simps)
qed

subsection \<open>A sample\<close>

definition sample_encrypt :: "unit \<Rightarrow> byte list \<Rightarrow> byte list option" where
  "sample_encrypt r m = (if length m \<le> 63 then Some (word_of_nat (length m) # m @ replicate (63 - length m) 0) else None)"

definition sample_decrypt :: "unit \<Rightarrow> byte list \<Rightarrow> byte list option" where
  "sample_decrypt r c = Some (take (unat (hd c)) (tl c))"

definition sample_ssl_env :: "unit ssl_env" where
  "sample_ssl_env = \<lparr>sl_n_bits = (\<lambda>_. 8), sl_n_bin = (\<lambda>_. [255]), sl_e_bits = (\<lambda>_. 2), sl_e_bin = (\<lambda>_. [3]), sl_size = (\<lambda>_. 64),
     sl_sha1 = (\<lambda>_. replicate 20 7), sl_generate = Some (), sl_pem_read = (\<lambda>pem q. if pem = q then Some () else None),
     sl_pem_write = (\<lambda>_ q. Some q), sl_encrypt = sample_encrypt, sl_decrypt = sample_decrypt, sl_error = 9,
     sl_can_write = (\<lambda>_. True), sl_mkdir = (\<lambda>_ d. if d \<in> {''/h''} then EEXIST else 0), sl_init_vals = (\<lambda>_. (1, \<lparr>od_path = None, od_passphrase = None\<rparr>)),
     sl_junk = (\<lambda>_. 0), sl_calls = []\<rparr>"

definition sample_pem :: files where
  "sample_pem = [''/k'' \<mapsto> [113]]"

abbreviation (input) sample_path :: "byte list" where "sample_path \<equiv> bytes_of_string ''/k''"

lemma sample_ssl_laws: "bn_ok sample_ssl_env ()" "sha1_ok sample_ssl_env" "sl_calls sample_ssl_env = []"
  "key_in_file sample_ssl_env sample_pem sample_path [113] ()"
  by (simp_all add: bn_ok_def sha1_ok_def key_in_file_def sample_pem_def) (simp_all add: sample_ssl_env_def bytes_of_string_def)

theorem openssl_signature_is_fingerprint_witness:
  "ecryptfs_openssl_generate_signature sample_ssl_env (replicate 17 1) () []
     = Some (0, to_hex (take 8 (fingerprint sample_ssl_env ())) @ [0], [])"
  using openssl_signature_is_fingerprint [OF sample_ssl_laws(1,2), of "replicate 17 1"] by simp

definition sample_ssl_mod :: "unit ecryptfs_key_mod" where
  "sample_ssl_mod = new_key_mod (Some ''openssl'') None (ecryptfs_fill_in_dummy_ops (ecryptfs_openssl_ops sample_ssl_env sample_pem None () ()))"

definition sample_ssl_tok :: auth_tok_view where
  "sample_ssl_tok = \<lparr>tok_key_mod_alias = ''openssl'', tok_data = blob_of sample_path [113], tok_data_len = 9, tok_room = 9\<rparr>"

theorem openssl_session_key_roundtrip_witness:
  "\<exists>c buf'. sample_encrypt () [1, 2, 3] = Some c
    \<and> key_mod_decrypt (\<lambda>_. 0) 0 [sample_ssl_mod] (Some sample_ssl_tok) c [] = Some (0, Live buf', 3, [])
    \<and> rd_bytes buf' 0 3 = Some [1, 2, 3]"
proof -
  let ?k = "[1, 2, 3] :: byte list" and ?c = "(3 :: byte) # [1, 2, 3] @ replicate 60 0"
  have e: "sl_encrypt sample_ssl_env () ?k = Some ?c" "sl_decrypt sample_ssl_env () ?c = Some ?k" "sl_size sample_ssl_env () = 64"
    by (simp_all add: sample_ssl_env_def sample_encrypt_def sample_decrypt_def)
  have "\<exists>buf buf'. key_mod_encrypt (\<lambda>_. 0) 0 [sample_ssl_mod] (Some sample_ssl_tok) ?k [] = Some (0, Live buf, sl_size sample_ssl_env (), [])
    \<and> rd_bytes buf 0 (sl_size sample_ssl_env ()) = Some ?c
    \<and> key_mod_decrypt (\<lambda>_. 0) 0 [sample_ssl_mod] (Some sample_ssl_tok) ?c [] = Some (0, Live buf', length ?k, [])
    \<and> rd_bytes buf' 0 (length ?k) = Some ?k"
    by (rule openssl_session_key_roundtrip [where km = sample_ssl_mod, OF _ _ sample_ssl_laws(4) _ sample_ssl_laws(3) e(1) _ e(2)])
      (simp_all add: sample_ssl_mod_def sample_ssl_tok_def new_key_mod_def e(3))
  then show ?thesis using e(1) by (auto simp: sample_ssl_env_def numeral_3_eq_3)
qed

theorem openssl_unreadable_key_is_success_witness:
  "ecryptfs_openssl_decrypt sample_ssl_env Map.empty (Some [1, 2]) [] (blob_of sample_path [113]) = Some (0, 0, [1, 2])"
proof -
  have "c_string (sample_path @ 0 # t) = Some sample_path" for t by (rule c_string_terminated) (simp add: bytes_of_string_def)
  then have "ecryptfs_openssl_read_key sample_ssl_env Map.empty (blob_of sample_path [113]) [] (sl_calls sample_ssl_env) = Some (- EIO, None, [], [])"
    unfolding sample_ssl_laws(3) ecryptfs_openssl_read_key_def
    by (simp add: deserialize_blob [of sample_path "[113]"] ERR_remove_state_def)
  from openssl_unreadable_key_is_success [OF this, of "[1, 2]" "[]"] show ?thesis by simp
qed

theorem openssl_two_slashes_never_end_witness:
  "ecryptfs_openssl_generate_key sample_ssl_env Map.empty \<lparr>od_path = Some (bytes_of_string ''//key.pem''), od_passphrase = Some []\<rparr> [] = None"
  using openssl_two_slashes_never_end [of "''key.pem''" sample_ssl_env "()" Map.empty "[]"] by (simp add: sample_ssl_env_def)

theorem openssl_generated_key_is_read_witness:
  "\<exists>made. ecryptfs_openssl_generate_key sample_ssl_env Map.empty \<lparr>od_path = Some (bytes_of_string ''/h/k''), od_passphrase = Some [113]\<rparr> []
      = Some (0, [''/h/k'' \<mapsto> [113]], made, [])"
proof -
  have p: "path_of ([''h''] @ [''k'']) = ''/h/k''" by (simp add: path_of_def)
  have "\<exists>made. ecryptfs_openssl_generate_key sample_ssl_env Map.empty \<lparr>od_path = Some (bytes_of_string ''/h/k''), od_passphrase = Some [113]\<rparr> []
        = Some (0, Map.empty(string_of_bytes (bytes_of_string ''/h/k'') \<mapsto> [113]), made, [])
      \<and> ecryptfs_openssl_read_key sample_ssl_env (Map.empty(string_of_bytes (bytes_of_string ''/h/k'') \<mapsto> [113])) (blob_of (bytes_of_string ''/h/k'') [113]) [] []
        = Some (0, Some (), [], [])"
    by (rule openssl_generated_key_is_read [where cs = "[''h'']" and c = "''k''" and exist = "{''/h''}"])
      (simp_all only: p, simp_all add: components_ok_def sample_ssl_env_def bytes_of_string_def)
  then show ?thesis by auto
qed

definition sample_ssl_state :: "(ssl_fn, unit, (byte list \<times> ecryptfs_auth_tok) list) ssl_state" where
  "sample_ssl_state = \<lparr>es_graph = [3 \<mapsto> zero_pn\<lparr>pn_val := Some [113]\<rparr>], es_nvps = [], es_mnt_params = [None],
     es_foo = Some \<lparr>sc_key_mod = 0, sc_data = \<lparr>od_path = Some sample_path, od_passphrase = None\<rparr>\<rparr>,
     es_ctx = \<lparr>lc_key_mods = [sample_ssl_mod], lc_num_param_vals = (\<lambda>_. 0), lc_keys = [], sx_files = sample_pem, sx_made = []\<rparr>,
     es_verbosity = 0, es_get_string = False, es_inputs = [], es_repeated = 0, es_lastnode = None, es_mem = []\<rparr>"

theorem openssl_mount_adds_key_witness:
  "\<exists>st'. tf_ssl_passwd sample_ssl_env list_keyring 3 sample_ssl_state = Some (DEFAULT_TOK, st')
    \<and> map fst (lc_keys (es_ctx st')) = [key_signature sample_ssl_env ()]
    \<and> strip_limits (es_mnt_params st') 0 999999
      = Some (0, [Some (bytes_of_string ''ecryptfs_sig='' @ key_signature sample_ssl_env ()), None], 0, 20)"
proof -
  let ?t = "module_token ''openssl'' (key_signature sample_ssl_env ()) (blob_of sample_path [113])"
  have s: "sl_size sample_ssl_env () = 64" by (simp add: sample_ssl_env_def)
  have st: "sx_files (es_ctx sample_ssl_state) = sample_pem" by (simp add: sample_ssl_state_def)
  have l: "strip_limits [None] mn mx = Some (0, [None], mn, mx)" for mn mx by (simp add: limit_of_def)
  show ?thesis
    using openssl_mount_adds_key [where st = sample_ssl_state and cur = 3 and kr = list_keyring and q = "[113]" and k = 0 and p = sample_path
        and al = "''openssl''" and home = None and tn = "()" and gtn = "()" and i = 1 and x = None and mn = 0 and mx = 999999
        and e = ENOKEY and keys' = "[(key_signature sample_ssl_env (), ?t)]" and n = "zero_pn\<lparr>pn_val := Some [113]\<rparr>",
        OF _ _ _ sample_ssl_laws(3) _ _ _ _ _ sample_ssl_laws(1,2), unfolded st, OF _ _ _ _ _ _ _ sample_ssl_laws(4)]
    by (simp add: s l sample_ssl_state_def list_keyring_def sample_ssl_mod_def new_key_mod_def del: strip_limits.simps) fastforce
qed

end
