(* ===== verification/Daemon_Main.thy ===== *)
theory Daemon_Main
  imports Miscdev
begin

text \<open>
  The process of the daemon, \<open>src/daemon/main.c\<close>: its options, the way into the background, the
  prompt for a passphrase, and \<open>main\<close> as a machine of steps that the handler of a signal can
  interrupt.
\<close>

abbreviation (input) EINTR :: int where "EINTR \<equiv> 4"
abbreviation (input) EFAULT :: int where "EFAULT \<equiv> 14"
abbreviation (input) EPROTONOSUPPORT :: int where "EPROTONOSUPPORT \<equiv> 93"
abbreviation (input) ENOTSUP :: int where "ENOTSUP \<equiv> 95"
abbreviation (input) VERSIONING_MISCDEV :: u32 where "VERSIONING_MISCDEV \<equiv> 0x40"
abbreviation (input) STATE_LISTENING :: u32 where "STATE_LISTENING \<equiv> 1"

subsection \<open>The prompt\<close>

text \<open>
  The results of \<open>waitpid\<close>: none yet, an error number, the end of the child with its exit status, or
  by a signal.
\<close>

datatype wait_result = Wait_Again | Wait_Error int | Child_Exited int | Child_Killed

text \<open>
  What the system answers: error numbers of \<open>pipe\<close> and \<open>fork\<close> (0 for none), the results of \<open>waitpid\<close>,
  and what \<open>read\<close> delivers.
\<close>

record prompt_env =
  pr_pipe :: int
  pr_fork :: int
  pr_waits :: "wait_result list"
  pr_read :: "int + byte list"

text \<open>The loop around \<open>waitpid\<close>; a wait without end has no result.\<close>

fun wait_loop :: "wait_result list \<Rightarrow> wait_result option" where
  "wait_loop [] = None"
| "wait_loop (w # ws) = (if w = Wait_Again \<or> w = Wait_Error EINTR then wait_loop ws else Some w)"

text \<open>
  The answer in the buffer: it is terminated behind its last byte, then a newline at its end is
  removed.
\<close>

definition store_answer :: "int + byte list \<Rightarrow> byte list option \<Rightarrow> (int \<times> byte list option) option" where
  "store_answer rd input =
     (case input of
        None \<Rightarrow> Some (- EFAULT, None)
      | Some buf \<Rightarrow>
          (case rd of
             Inl e \<Rightarrow> Some (- e, Some buf)
           | Inr bytes \<Rightarrow> do {
               let got = take (length buf) bytes;
               buf \<leftarrow> wr_bytes buf 0 got;
               buf \<leftarrow> wr_bytes buf (length got) [0];
               s \<leftarrow> c_string buf;
               buf \<leftarrow> (if s \<noteq> [] \<and> last s = 10 then wr_bytes buf (length s - 1) [0] else Some buf);
               Some (0, Some buf) }))"

text \<open>From the pipe to the answer: the prompt program is run, and awaited.\<close>

definition run_prompt ::
  "prompt_env \<Rightarrow> string option \<Rightarrow> string \<Rightarrow> byte list option \<Rightarrow> (int \<times> byte list option) option" where
  "run_prompt env prompt_prog prompt_type input =
     (if prompt_prog = None then Some (- EINVAL, input)
      else if pr_pipe env \<noteq> 0 then Some (- pr_pipe env, input)
      else if pr_fork env \<noteq> 0 then Some (- pr_fork env, input)
      else (case wait_loop (pr_waits env) of
         None \<Rightarrow> None
       | Some (Wait_Error e) \<Rightarrow> Some (- e, input)
       | Some Child_Killed \<Rightarrow> Some (- EFAULT, input)
       | Some (Child_Exited status) \<Rightarrow>
           if status \<noteq> 0 then Some (- EIO, input)
           else if prompt_type = ''password'' then store_answer (pr_read env) input
           else Some (0, input)
       | Some Wait_Again \<Rightarrow> None))"

text \<open>The status and the buffer, which is cleared on entry and after every error.\<close>

definition prompt_callback ::
  "prompt_env \<Rightarrow> string option \<Rightarrow> string \<Rightarrow> byte list option \<Rightarrow> (int \<times> byte list option) option" where
  "prompt_callback env prompt_prog prompt_type input = do {
     let clear = map_option (\<lambda>buf. replicate (length buf) 0);
     (rc, input) \<leftarrow> run_prompt env prompt_prog prompt_type (clear input);
     Some (rc, if rc \<noteq> 0 then clear input else input) }"

subsection \<open>Options\<close>

record daemon_opts =
  do_pidfile :: "string option"
  do_foreground :: bool
  do_chroot :: "string option"
  do_prompt :: "string option"

text \<open>
  The loop over what \<open>getopt_long\<close> returns, an option with its argument: the status of an exit, or
  the settings. A copy of an argument that cannot be made is a null pointer.
\<close>

fun read_options :: "(char \<times> string) list \<Rightarrow> daemon_opts \<Rightarrow> schedule \<Rightarrow> (int + daemon_opts) \<times> schedule" where
  "read_options [] opts mem = (Inr opts, mem)"
| "read_options ((c, arg) # os) opts mem =
     (let (ok, mem') = malloc_ok mem; copy = (if ok then Some arg else None) in
      if c = CHR ''p'' then read_options os (opts\<lparr>do_pidfile := copy\<rparr>) mem'
      else if c = CHR ''f'' then read_options os (opts\<lparr>do_foreground := True\<rparr>) mem
      else if c = CHR ''C'' then read_options os (opts\<lparr>do_chroot := copy\<rparr>) mem'
      else if c = CHR ''R'' then read_options os (opts\<lparr>do_prompt := copy\<rparr>) mem'
      else if c = CHR ''V'' then (Inl 0, mem)
      else (Inl 1, mem))"

subsection \<open>Into the background\<close>

text \<open>
  Open descriptors, by what they refer to. The outcomes of the calls: whether they succeed, whether
  this process is the parent after a \<open>fork\<close>, and the descriptor of \<open>/dev/null\<close>.
\<close>

type_synonym fd_table = "nat \<rightharpoonup> string"

record background_env =
  bg_ppid :: nat
  bg_fork1 :: bool
  bg_is_parent1 :: bool
  bg_chdir :: bool
  bg_fork2 :: bool
  bg_is_parent2 :: bool
  bg_null :: "nat option"
  bg_dup :: bool
  bg_tablesize :: nat
  bg_signal :: bool

text \<open>
  The new table, or the status of an exit. The loop over the standard descriptors makes each copy
  onto descriptor 0.
\<close>

definition daemonize :: "background_env \<Rightarrow> fd_table \<Rightarrow> int + fd_table" where
  "daemonize env fds =
     (if bg_ppid env = 1 then Inr fds
      else if \<not> bg_fork1 env then Inl 1
      else if bg_is_parent1 env then Inl 0
      else if \<not> bg_chdir env then Inl 1
      else if \<not> bg_fork2 env then Inl 1
      else if bg_is_parent2 env then Inl 0
      else (case bg_null env of
         None \<Rightarrow> Inl 1
       | Some null \<Rightarrow>
           let fds = fds(null \<mapsto> ''/dev/null'') in
           if \<not> bg_dup env then Inl 1
           else let fds = foldl (\<lambda>fds fd. fds(0 := fds null)) fds [0..<3];
                    fds = (\<lambda>fd. if 2 < fd \<and> fd < bg_tablesize env then None else fds fd)
           in if \<not> bg_signal env then Inl 1 else Inr fds))"

subsection \<open>The process\<close>

text \<open>
  Where the process is: at a statement of \<open>main\<close>, or in the handler of a signal that interrupted it,
  before it has the lock or after that. \<open>Gone\<close> is a process that has called \<open>exit\<close>.
\<close>

datatype pc = At_Version | At_Background | At_Rlimit | At_Chroot | At_Pidfile | At_Sigterm | At_Sigint | At_Lock | At_Init
  | At_Helo | At_Listen | At_Run | At_Relock int | At_Unlisten int | At_Out int | In_Handler bool string pc | Gone int

record daemon_proc =
  dp_opts :: daemon_opts
  dp_fds :: fd_table
  dp_files :: "string set"
  dp_core_off :: bool
  dp_root :: "string option"
  dp_handlers :: "string set"
  dp_locked :: bool
  dp_mctx :: messaging_ctx
  dp_sent :: "byte list list"
  dp_mem :: schedule

text \<open>Answers of the system: error numbers, 0 for none. \<open>ev_run\<close> is the daemon's loop on its device.\<close>

record proc_env =
  ev_host :: host
  ev_version :: "int \<times> u32"
  ev_background :: background_env
  ev_rlimit :: int
  ev_chroot :: "string \<Rightarrow> int"
  ev_fopen :: "string \<Rightarrow> int"
  ev_signal :: "string \<Rightarrow> bool"
  ev_open_dev :: "string \<Rightarrow> int"
  ev_write_ok :: "int \<Rightarrow> byte list \<Rightarrow> bool"
  ev_run :: "int \<Rightarrow> daemon_result option"

text \<open>A message without data, as it goes out at the start and at the end.\<close>

definition send_plain :: "proc_env \<Rightarrow> byte \<Rightarrow> daemon_proc \<Rightarrow> (int \<times> daemon_proc) option" where
  "send_plain env msg_type st = do {
     (rc, frame, mem) \<leftarrow> ecryptfs_send_message (ev_host env) (ev_write_ok env) (dp_mctx st) None msg_type 0 0 (dp_mem st);
     Some (rc, st\<lparr>dp_mem := mem, dp_sent := dp_sent st @ (case frame of Some f \<Rightarrow> if rc = 0 then [f] else [] | None \<Rightarrow> [])\<rparr>) }"

definition ecryptfsd_exit :: "proc_env \<Rightarrow> int \<Rightarrow> daemon_proc \<Rightarrow> (pc \<times> daemon_proc) option" where
  "ecryptfsd_exit env retval st = do {
     let st = (case do_pidfile (dp_opts st) of
        None \<Rightarrow> st
      | Some f \<Rightarrow> st\<lparr>dp_files := dp_files st - {f}, dp_opts := (dp_opts st)\<lparr>do_pidfile := None\<rparr>\<rparr>);
     (_, st) \<leftarrow> send_plain env MSG_QUIT st;
     (case ecryptfs_messaging_exit (dp_mctx st) of
        (_, closed) \<Rightarrow> Some (Gone retval, st\<lparr>dp_fds := (case closed of None \<Rightarrow> dp_fds st | Some fd \<Rightarrow> (dp_fds st)(nat fd := None))\<rparr>)) }"

text \<open>
  \<open>pthread_mutex_lock\<close> on a mutex of the default kind: there is no next step while it is held,
  by whomever.
\<close>

definition take_lock :: "pc \<Rightarrow> daemon_proc \<Rightarrow> (pc \<times> daemon_proc) option" where
  "take_lock l st = (if dp_locked st then None else Some (l, st\<lparr>dp_locked := True\<rparr>))"

text \<open>The handler of the signal \<open>sig\<close> that interrupted \<open>l\<close>; \<open>exit\<close> does not come back to unlock.\<close>

definition sigterm_handler :: "proc_env \<Rightarrow> bool \<Rightarrow> string \<Rightarrow> pc \<Rightarrow> daemon_proc \<Rightarrow> (pc \<times> daemon_proc) option" where
  "sigterm_handler env has_lock sig l st =
     (if \<not> has_lock then take_lock (In_Handler True sig l) st else ecryptfsd_exit env 0 st)"

definition listening :: "bool \<Rightarrow> daemon_proc \<Rightarrow> daemon_proc" where
  "listening on st = (let m = dp_mctx st in
     st\<lparr>dp_mctx := m\<lparr>mc_state := (if on then mc_state m OR STATE_LISTENING else mc_state m AND NOT STATE_LISTENING)\<rparr>\<rparr>)"

text \<open>
  The next step of the process, which is in the handler when it was interrupted. The loop of the
  daemon is one step, which comes to an end when the loop does, and so is \<open>ecryptfsd_exit\<close>.
\<close>

fun main_step :: "proc_env \<Rightarrow> pc \<Rightarrow> daemon_proc \<Rightarrow> (pc \<times> daemon_proc) option" where
  "main_step env At_Version st =
     (case ev_version env of (rc, version) \<Rightarrow>
        Some (if rc = 0 \<and> version AND VERSIONING_MISCDEV = 0 then Gone (- EPROTONOSUPPORT) else At_Background, st))"
| "main_step env At_Background st =
     (if do_foreground (dp_opts st) then Some (At_Rlimit, st)
      else (case daemonize (ev_background env) (dp_fds st) of
         Inl status \<Rightarrow> Some (Gone status, st)
       | Inr fds \<Rightarrow> Some (At_Rlimit, st\<lparr>dp_fds := fds\<rparr>)))"
| "main_step env At_Rlimit st =
     (if ev_rlimit env \<noteq> 0 then Some (At_Out (- ev_rlimit env), st) else Some (At_Chroot, st\<lparr>dp_core_off := True\<rparr>))"
| "main_step env At_Chroot st =
     (case do_chroot (dp_opts st) of
        None \<Rightarrow> Some (At_Pidfile, st)
      | Some dir \<Rightarrow>
          if ev_chroot env dir \<noteq> 0 then Some (At_Out (- ev_chroot env dir), st)
          else Some (At_Pidfile, st\<lparr>dp_root := Some dir\<rparr>))"
| "main_step env At_Pidfile st =
     (case do_pidfile (dp_opts st) of
        None \<Rightarrow> Some (At_Sigterm, st)
      | Some f \<Rightarrow>
          if ev_fopen env f \<noteq> 0 then Some (At_Out (- ev_fopen env f), st)
          else Some (At_Sigterm, st\<lparr>dp_files := insert f (dp_files st)\<rparr>))"
| "main_step env At_Sigterm st =
     (if \<not> ev_signal env ''SIGTERM'' then Some (At_Out (- ENOTSUP), st)
      else Some (At_Sigint, st\<lparr>dp_handlers := insert ''SIGTERM'' (dp_handlers st)\<rparr>))"
| "main_step env At_Sigint st =
     (if \<not> ev_signal env ''SIGINT'' then Some (At_Out (- ENOTSUP), st)
      else Some (At_Lock, st\<lparr>dp_handlers := insert ''SIGINT'' (dp_handlers st)\<rparr>))"
| "main_step env At_Lock st = take_lock At_Init st"
| "main_step env At_Init st =
     (case ecryptfs_init_messaging (ev_open_dev env) MESSAGING_TYPE_MISCDEV of
        (rc, mctx) \<Rightarrow>
          let st = st\<lparr>dp_mctx := mctx\<rparr> in
          Some (if rc \<noteq> 0 then (At_Out rc, st\<lparr>dp_locked := False\<rparr>)
                else (At_Helo, st\<lparr>dp_fds := (dp_fds st)(nat (mc_miscdev_fd mctx) \<mapsto> ''/dev/ecryptfs'')\<rparr>)))"
| "main_step env At_Helo st = do {
     (rc, st) \<leftarrow> send_plain env MSG_HELO st;
     Some (if rc \<noteq> 0 then (At_Out rc, st\<lparr>dp_locked := False\<rparr>) else (At_Listen, st)) }"
| "main_step env At_Listen st = Some (At_Run, (listening True st)\<lparr>dp_locked := False\<rparr>)"
| "main_step env At_Run st =
     (case ecryptfs_run_daemon (dp_mctx st) (ev_run env) of
        Some (Exited rc sent) \<Rightarrow> Some (At_Relock rc, st\<lparr>dp_sent := dp_sent st @ sent\<rparr>)
      | _ \<Rightarrow> None)"
| "main_step env (At_Relock rc) st = take_lock (At_Unlisten rc) st"
| "main_step env (At_Unlisten rc) st = Some (At_Out rc, (listening False st)\<lparr>dp_locked := False\<rparr>)"
| "main_step env (At_Out rc) st = ecryptfsd_exit env rc st"
| "main_step env (In_Handler has_lock sig l) st = sigterm_handler env has_lock sig l st"
| "main_step env (Gone rc) st = None"

text \<open>The signals that are being handled; each is blocked until its handler returns.\<close>

fun handling :: "pc \<Rightarrow> string set" where
  "handling (In_Handler _ sig l) = insert sig (handling l)"
| "handling _ = {}"

definition start_proc :: "daemon_opts \<Rightarrow> fd_table \<Rightarrow> schedule \<Rightarrow> daemon_proc" where
  "start_proc opts fds mem = \<lparr>dp_opts = opts, dp_fds = fds, dp_files = {}, dp_core_off = False, dp_root = None, dp_handlers = {},
     dp_locked = False, dp_mctx = \<lparr>mc_type = 0, mc_state = 0, mc_miscdev_fd = 0\<rparr>, dp_sent = [], dp_mem = mem\<rparr>"

text \<open>A process goes on where it is, or a signal for which there is a handler interrupts it.\<close>

inductive proc_step :: "proc_env \<Rightarrow> pc \<times> daemon_proc \<Rightarrow> pc \<times> daemon_proc \<Rightarrow> bool" for env where
  main: "main_step env l st = Some next \<Longrightarrow> proc_step env (l, st) next"
| signal: "sig \<in> dp_handlers st - handling l \<Longrightarrow> (\<forall>rc. l \<noteq> Gone rc) \<Longrightarrow> proc_step env (l, st) (In_Handler False sig l, st)"

inductive proc_reachable :: "proc_env \<Rightarrow> daemon_opts \<Rightarrow> fd_table \<Rightarrow> schedule \<Rightarrow> pc \<times> daemon_proc \<Rightarrow> bool" for env opts fds mem where
  start: "proc_reachable env opts fds mem (At_Version, start_proc opts fds mem)"
| step: "proc_reachable env opts fds mem s \<Longrightarrow> proc_step env s s' \<Longrightarrow> proc_reachable env opts fds mem s'"

inductive_cases proc_stepE: "proc_step env (l, st) s'"

subsection \<open>Answers to prompts\<close>

text \<open>
  A line that the prompt program prints, and that leaves room for its newline and a zero byte,
  is the string in the buffer, without the newline.
\<close>

theorem prompt_callback_reads_line:
  assumes "pr_pipe env = 0" "pr_fork env = 0" "wait_loop (pr_waits env) = Some (Child_Exited 0)"
    and "pr_read env = Inr (line @ [10])" "0 \<notin> set line" "length line + 2 \<le> length buf"
  shows "\<exists>out. prompt_callback env (Some prog) ''password'' (Some buf) = Some (0, Some out) \<and> length out = length buf
    \<and> c_string out = Some line"
proof -
  let ?z = "replicate (length buf) (0 :: byte)"
  let ?n = "length line" let ?t = "replicate (length buf - (?n + 2)) (0 :: byte)"
  have z: "?z = replicate (?n + 1) 0 @ 0 # ?t" using assms(6)
    by (simp add: replicate_add [symmetric] replicate_Suc [symmetric] del: replicate_Suc)
  have 1: "wr_bytes ?z 0 (line @ [10]) = Some (line @ 10 # 0 # ?t)" unfolding z by (simp add: wr_bytes_def)
  have 2: "wr_bytes (line @ 10 # 0 # ?t) (?n + 1) [0] = Some (line @ 10 # 0 # ?t)" by (simp add: wr_bytes_def)
  have s: "c_string (line @ 10 # 0 # ?t) = Some (line @ [10])"
    using c_string_append [of "line @ [10]" ?t] assms(5) by simp
  have 3: "wr_bytes (line @ 10 # 0 # ?t) ?n [0] = Some (line @ 0 # 0 # ?t)" by (simp add: wr_bytes_def)
  have g: "take (length buf) (line @ [10]) = line @ [10]" using assms(6) by simp
  have "store_answer (pr_read env) (Some ?z) = Some (0, Some (line @ 0 # 0 # ?t))"
    unfolding store_answer_def assms(4) using 1 2 s 3 g by (simp add: Let_def)
  then have "prompt_callback env (Some prog) ''password'' (Some buf) = Some (0, Some (line @ 0 # 0 # ?t))"
    using assms(1-3) by (simp add: prompt_callback_def run_prompt_def)
  moreover have "c_string (line @ 0 # 0 # ?t) = Some line" using c_string_append [of line "0 # ?t"] assms(5) by simp
  ultimately show ?thesis using assms(6) by simp
qed

text \<open>
  C38. An answer that fills the buffer is terminated one byte behind it.
\<close>

theorem prompt_callback_overruns:
  assumes "pr_pipe env = 0" "pr_fork env = 0" "wait_loop (pr_waits env) = Some (Child_Exited 0)"
    and "pr_read env = Inr bytes" "length buf \<le> length bytes"
  shows "prompt_callback env (Some prog) ''password'' (Some buf) = None"
proof -
  have "store_answer (Inr bytes) (Some (replicate (length buf) 0)) = None"
    using assms(5) by (simp add: store_answer_def wr_bytes_def)
  then show ?thesis using assms(1-4) by (simp add: prompt_callback_def run_prompt_def)
qed

lemma store_answer_length:
  assumes "store_answer r (Some buf) = Some (c, x)"
  shows "\<exists>b. x = Some b \<and> length b = length buf"
  using assms by (auto simp: store_answer_def Let_def bind_eq_Some_conv dest!: wr_bytes_length split: sum.splits if_splits)

lemma run_prompt_length:
  assumes "run_prompt env prog type (Some buf) = Some (rc, x)"
  shows "\<exists>b. x = Some b \<and> length b = length buf"
  using assms store_answer_length by (auto simp: run_prompt_def split: if_splits option.splits wait_result.splits)

text \<open>
  After an error nothing of an answer is left in the buffer.
\<close>

theorem prompt_callback_error_clears:
  assumes "prompt_callback env prog type (Some buf) = Some (rc, out)" "rc \<noteq> 0"
  shows "out = Some (replicate (length buf) 0)"
  using assms run_prompt_length [of env prog type "replicate (length buf) 0"]
  by (fastforce simp: prompt_callback_def bind_eq_Some_conv)

subsection \<open>Descriptors in the background\<close>

text \<open>
  Going into the background leaves the standard output and the standard error as they were:
  \<open>/dev/null\<close> is copied onto descriptor 0 three times. All descriptors from 3 on are closed.
\<close>

theorem daemonize_keeps_output:
  assumes "daemonize env fds = Inr fds'" "bg_ppid env \<noteq> 1" "bg_null env = Some null" "2 < null" "null < bg_tablesize env"
  shows "fds' 0 = Some ''/dev/null'' \<and> fds' 1 = fds 1 \<and> fds' 2 = fds 2 \<and> (\<forall>fd. 2 < fd \<and> fd < bg_tablesize env \<longrightarrow> fds' fd = None)"
proof -
  have "[0..<3] = [0, 1, 2]" by code_simp
  then have "fds' = (\<lambda>fd. if 2 < fd \<and> fd < bg_tablesize env then None else (fds(null \<mapsto> ''/dev/null'', 0 \<mapsto> ''/dev/null'')) fd)"
    using assms by (auto simp: daemonize_def Let_def split: if_splits)
  then show ?thesis using assms(4) by auto
qed

subsection \<open>States of the process\<close>

definition before_pidfile :: "pc \<Rightarrow> bool" where
  "before_pidfile l = (case l of At_Version \<Rightarrow> True | At_Background \<Rightarrow> True | At_Rlimit \<Rightarrow> True | At_Chroot \<Rightarrow> True
     | At_Pidfile \<Rightarrow> True | _ \<Rightarrow> False)"

definition prepared :: "pc \<Rightarrow> bool" where
  "prepared l = (case l of At_Sigterm \<Rightarrow> True | At_Sigint \<Rightarrow> True | At_Lock \<Rightarrow> True | At_Init \<Rightarrow> True | At_Helo \<Rightarrow> True
     | At_Listen \<Rightarrow> True | At_Run \<Rightarrow> True | At_Relock _ \<Rightarrow> True | At_Unlisten _ \<Rightarrow> True | _ \<Rightarrow> False)"

definition greeted :: "pc \<Rightarrow> bool" where
  "greeted l = (case l of At_Listen \<Rightarrow> True | At_Run \<Rightarrow> True | At_Relock _ \<Rightarrow> True | At_Unlisten _ \<Rightarrow> True | _ \<Rightarrow> False)"

text \<open>
  The statements between a lock and the unlock that follows it: two stretches of \<open>main\<close>, and the
  handler after its lock. A handler that has not got the lock is where the interrupted code is.
\<close>

fun critical :: "pc \<Rightarrow> bool" where
  "critical At_Init = True"
| "critical At_Helo = True"
| "critical At_Listen = True"
| "critical (At_Unlisten rc) = True"
| "critical (In_Handler has_lock sig l) = (has_lock \<or> critical l)"
| "critical _ = False"

definition gone :: "pc \<Rightarrow> bool" where
  "gone l = (case l of Gone _ \<Rightarrow> True | _ \<Rightarrow> False)"

lemmas pc_sets = before_pidfile_def prepared_def greeted_def gone_def

definition hello_frame :: "byte list" where
  "hello_frame = [MSG_HELO, 0, 0, 0, 0]"

definition pid_files :: "daemon_opts \<Rightarrow> string set" where
  "pid_files opts = (case do_pidfile opts of None \<Rightarrow> {} | Some f \<Rightarrow> {f})"

definition proc_inv :: "daemon_opts \<Rightarrow> pc \<Rightarrow> daemon_proc \<Rightarrow> bool" where
  "proc_inv opts l st \<longleftrightarrow>
     (\<not> gone l \<longrightarrow> dp_opts st = opts \<and> dp_locked st = critical l)
     \<and> (before_pidfile l \<longrightarrow> dp_handlers st = {}) \<and> (\<not> gone l \<and> dp_handlers st \<noteq> {} \<longrightarrow> dp_files st = pid_files opts)
     \<and> (l = At_Chroot \<or> l = At_Pidfile \<or> prepared l \<longrightarrow> dp_core_off st)
     \<and> (before_pidfile l \<and> l \<noteq> At_Pidfile \<longrightarrow> dp_root st = None)
     \<and> (l = At_Pidfile \<or> prepared l \<longrightarrow> dp_root st = do_chroot opts)
     \<and> dp_files st \<subseteq> pid_files opts \<and> (before_pidfile l \<or> gone l \<longrightarrow> dp_files st = {})
     \<and> (prepared l \<longrightarrow> dp_files st = pid_files opts)
     \<and> ((prepared l \<or> before_pidfile l) \<and> \<not> greeted l \<longrightarrow> dp_sent st = [])
     \<and> (greeted l \<longrightarrow> mc_type (dp_mctx st) = MESSAGING_TYPE_MISCDEV \<and> dp_sent st \<noteq> [] \<and> hd (dp_sent st) = hello_frame)
     \<and> (l = At_Helo \<longrightarrow> mc_type (dp_mctx st) = MESSAGING_TYPE_MISCDEV)
     \<and> (l = At_Run \<longrightarrow> mc_state (dp_mctx st) AND STATE_LISTENING \<noteq> 0)"

lemmas inv_simps = proc_inv_def pc_sets

lemma zero_seq: "store_word h 4 (ntoh h 4 (0 :: u32)) = [0, 0, 0, 0]"
  by (cases h) (simp_all, code_simp+)

lemma send_plain_frame:
  "ecryptfs_send_miscdev h w None t 0 0 mem =
     (case malloc_ok mem of
        (False, mem) \<Rightarrow> Some (- ENOMEM, None, mem)
      | (True, mem) \<Rightarrow> Some (if w [t, 0, 0, 0, 0] then 0 else - EIO, Some [t, 0, 0, 0, 0], mem))"
  by (cases "malloc_ok mem"; cases "fst (malloc_ok mem)") (simp_all add: ecryptfs_send_miscdev_def zero_seq Let_def)

lemma send_plain_keeps:
  assumes "send_plain env t st = Some (rc, st')"
  shows "dp_opts st' = dp_opts st \<and> dp_files st' = dp_files st \<and> dp_locked st' = dp_locked st \<and> dp_core_off st' = dp_core_off st
    \<and> dp_root st' = dp_root st \<and> dp_handlers st' = dp_handlers st \<and> dp_mctx st' = dp_mctx st
    \<and> (rc = 0 \<and> mc_type (dp_mctx st) = MESSAGING_TYPE_MISCDEV \<longrightarrow> dp_sent st' = dp_sent st @ [[t, 0, 0, 0, 0]])"
  using assms unfolding send_plain_def ecryptfs_send_message_def send_plain_frame
  by (cases "malloc_ok (dp_mem st)") (auto split: if_splits bool.splits)

lemma exit_result:
  assumes "ecryptfsd_exit env rc st = Some (l, st')"
  shows "l = Gone rc \<and> dp_files st' = dp_files st - pid_files (dp_opts st)"
proof -
  define st1 where "st1 = (case do_pidfile (dp_opts st) of
        None \<Rightarrow> st
      | Some f \<Rightarrow> st\<lparr>dp_files := dp_files st - {f}, dp_opts := (dp_opts st)\<lparr>do_pidfile := None\<rparr>\<rparr>)"
  have f1: "dp_files st1 = dp_files st - pid_files (dp_opts st)" by (simp add: st1_def pid_files_def split: option.splits)
  obtain c st2 where 2: "send_plain env MSG_QUIT st1 = Some (c, st2)"
    using assms by (auto simp: ecryptfsd_exit_def st1_def [symmetric] bind_eq_Some_conv)
  obtain r closed where 3: "ecryptfs_messaging_exit (dp_mctx st2) = (r, closed)" by fastforce
  show ?thesis using assms f1 send_plain_keeps [OF 2] 2 3 by (auto simp: ecryptfsd_exit_def st1_def [symmetric])
qed

lemma listening_fields [simp]:
  "dp_opts (listening on st) = dp_opts st" "dp_locked (listening on st) = dp_locked st" "dp_core_off (listening on st) = dp_core_off st"
  "dp_root (listening on st) = dp_root st" "dp_files (listening on st) = dp_files st" "dp_sent (listening on st) = dp_sent st"
  "dp_handlers (listening on st) = dp_handlers st" "mc_type (dp_mctx (listening on st)) = mc_type (dp_mctx st)"
  by (simp_all add: listening_def Let_def)

lemma listening_on: "mc_state (dp_mctx (listening True st)) AND STATE_LISTENING \<noteq> 0"
proof -
  have "bit (mc_state (dp_mctx (listening True st)) AND STATE_LISTENING) 0" by (simp add: listening_def Let_def bit_simps)
  then show ?thesis by auto
qed

lemma main_step_inv:
  assumes "proc_inv opts l st" "main_step env l st = Some (l', st')"
  shows "proc_inv opts l' st'"
proof (cases l)
  case At_Helo
  then obtain rc st1 where s: "send_plain env MSG_HELO st = Some (rc, st1)"
    and r: "(l', st') = (if rc \<noteq> 0 then (At_Out rc, st1\<lparr>dp_locked := False\<rparr>) else (At_Listen, st1))"
    using assms(2) by (auto simp: bind_eq_Some_conv)
  show ?thesis using send_plain_keeps [OF s] r assms(1) At_Helo
    by (auto simp: inv_simps hello_frame_def split: if_splits)
next
  case At_Init
  obtain rc mctx where m: "ecryptfs_init_messaging (ev_open_dev env) MESSAGING_TYPE_MISCDEV = (rc, mctx)" by fastforce
  then have t: "mc_type mctx = MESSAGING_TYPE_MISCDEV" by (auto simp: ecryptfs_init_messaging_def split: prod.splits)
  show ?thesis using assms m t At_Init by (cases "rc = 0") (simp_all add: inv_simps Let_def, auto)
next
  case (At_Out rc)
  then show ?thesis using assms exit_result [of env rc st l' st'] by (auto simp: inv_simps)
next
  case At_Listen
  then have "l' = At_Run" "st' = (listening True st)\<lparr>dp_locked := False\<rparr>" using assms(2) by simp_all
  then show ?thesis using assms(1) At_Listen listening_on [of st] by (simp add: inv_simps)
next
  case At_Run
  then obtain rc sent where "l' = At_Relock rc" "st' = st\<lparr>dp_sent := dp_sent st @ sent\<rparr>"
    using assms(2) by (cases "ecryptfs_run_daemon (dp_mctx st) (ev_run env)") (auto split: daemon_result.splits)
  then show ?thesis using assms(1) At_Run by (simp add: inv_simps)
next
  case At_Version
  then show ?thesis using assms by (cases "ev_version env") (auto simp: inv_simps split: if_splits)
next
  case At_Background
  then show ?thesis using assms by (cases "daemonize (ev_background env) (dp_fds st)") (auto simp: inv_simps split: if_splits)
next
  case At_Rlimit
  then show ?thesis using assms by (cases "ev_rlimit env = 0") (auto simp: inv_simps)
next
  case At_Chroot
  then show ?thesis using assms by (cases "do_chroot (dp_opts st)") (auto simp: inv_simps split: if_splits)
next
  case At_Pidfile
  then show ?thesis using assms by (cases "do_pidfile (dp_opts st)") (auto simp: inv_simps pid_files_def split: if_splits)
next
  case At_Sigterm
  then show ?thesis using assms by (cases "ev_signal env ''SIGTERM''") (auto simp: inv_simps)
next
  case At_Sigint
  then show ?thesis using assms by (cases "ev_signal env ''SIGINT''") (auto simp: inv_simps)
next
  case At_Lock
  then show ?thesis using assms by (auto simp: inv_simps take_lock_def split: if_splits)
next
  case (At_Relock rc)
  then show ?thesis using assms by (auto simp: inv_simps take_lock_def split: if_splits)
next
  case (At_Unlisten rc)
  then show ?thesis using assms by (auto simp: inv_simps)
next
  case (In_Handler has_lock sig l0)
  show ?thesis
  proof (cases has_lock)
    case True
    then show ?thesis using assms In_Handler exit_result [of env 0 st l' st'] by (auto simp: inv_simps sigterm_handler_def)
  next
    case False
    then show ?thesis using assms In_Handler by (auto simp: inv_simps sigterm_handler_def take_lock_def split: if_splits)
  qed
qed (use assms in simp_all)


lemma signal_inv: "proc_inv opts l st \<Longrightarrow> \<not> gone l \<Longrightarrow> proc_inv opts (In_Handler False sig l) st"
  by (auto simp: inv_simps)

lemma not_gone: "(\<forall>rc. l \<noteq> Gone rc) \<longleftrightarrow> \<not> gone l"
  by (cases l) (simp_all add: gone_def)

lemma reachable_inv: "proc_reachable env opts fds mem s \<Longrightarrow> proc_inv opts (fst s) (snd s)"
proof (induction rule: proc_reachable.induct)
  case start
  then show ?case by (simp add: inv_simps start_proc_def)
next
  case (step s s')
  from step.hyps(2) show ?case
  proof (cases rule: proc_step.cases)
    case (main l st)
    then show ?thesis using main_step_inv [of opts l st env] step.IH by (cases s') simp
  next
    case (signal sig st l)
    then show ?thesis using signal_inv step.IH by (simp add: not_gone)
  qed
qed

text \<open>
  C10. Whatever the signals and the outcomes of the calls: when the daemon serves requests, core
  dumps are switched off, the change of the root directory that was asked for is done, the pid file
  is there, the first message to the kernel was the greeting, and the lock is free.
\<close>

theorem daemon_serves_prepared:
  assumes "proc_reachable env opts fds mem (At_Run, st)"
  shows "dp_core_off st \<and> dp_root st = do_chroot opts \<and> dp_files st = pid_files opts \<and> \<not> dp_locked st
    \<and> mc_type (dp_mctx st) = MESSAGING_TYPE_MISCDEV \<and> mc_state (dp_mctx st) AND STATE_LISTENING \<noteq> 0
    \<and> dp_sent st \<noteq> [] \<and> hd (dp_sent st) = [MSG_HELO, 0, 0, 0, 0]"
  using reachable_inv [OF assms] by (simp add: inv_simps hello_frame_def)

text \<open>
  However the process ends, by an error, at the end of its loop or by a signal, its pid file
  is gone.
\<close>

theorem daemon_exit_removes_pidfile:
  assumes "proc_reachable env opts fds mem (Gone rc, st)"
  shows "dp_files st = {}"
  using reachable_inv [OF assms] by (simp add: inv_simps)

subsection \<open>Signals and the lock\<close>







subsection \<open>A sample\<close>

definition sample_opts :: daemon_opts where
  "sample_opts = \<lparr>do_pidfile = Some ''/p'', do_foreground = True, do_chroot = None, do_prompt = None\<rparr>"

definition sample_background :: background_env where
  "sample_background = \<lparr>bg_ppid = 7, bg_fork1 = True, bg_is_parent1 = False, bg_chdir = True, bg_fork2 = True, bg_is_parent2 = False,
     bg_null = Some 3, bg_dup = True, bg_tablesize = 1024, bg_signal = True\<rparr>"

definition sample_proc_env :: proc_env where
  "sample_proc_env = \<lparr>ev_host = Little_Endian, ev_version = (0, 0x40), ev_background = sample_background, ev_rlimit = 0, ev_chroot = (\<lambda>_. 0),
     ev_fopen = (\<lambda>_. 0), ev_signal = (\<lambda>_. True), ev_open_dev = (\<lambda>_. 5), ev_write_ok = (\<lambda>_ _. True), ev_run = (\<lambda>_. Some (Exited 0 []))\<rparr>"

text \<open>A number of steps of \<open>main\<close>.\<close>

fun main_steps :: "nat \<Rightarrow> proc_env \<Rightarrow> pc \<times> daemon_proc \<Rightarrow> (pc \<times> daemon_proc) option" where
  "main_steps 0 env s = Some s"
| "main_steps (Suc n) env s = (case main_step env (fst s) (snd s) of None \<Rightarrow> None | Some s' \<Rightarrow> main_steps n env s')"

lemma main_steps_numeral:
  "main_steps (numeral v) env s = (case main_step env (fst s) (snd s) of None \<Rightarrow> None | Some s' \<Rightarrow> main_steps (pred_numeral v) env s')"
  by (simp add: numeral_eq_Suc)

lemma main_steps_reachable:
  "main_steps n env s = Some s' \<Longrightarrow> proc_reachable env opts fds mem s \<Longrightarrow> proc_reachable env opts fds mem s'"
proof (induction n arbitrary: s)
  case (Suc n)
  then obtain s1 where "main_step env (fst s) (snd s) = Some s1" "main_steps n env s1 = Some s'" by (auto split: option.splits)
  moreover from this have "proc_reachable env opts fds mem s1"
    using Suc.prems(2) proc_reachable.step proc_step.main by (metis prod.collapse)
  ultimately show ?case using Suc.IH by blast
qed simp

definition sample_start :: "pc \<times> daemon_proc" where
  "sample_start = (At_Version, start_proc sample_opts (\<lambda>_. None) [])"

definition sample_at :: "nat \<Rightarrow> pc \<times> daemon_proc" where
  "sample_at n = the (main_steps n sample_proc_env sample_start)"

lemmas sample_daemon_defs = sample_opts_def sample_proc_env_def sample_start_def start_proc_def

lemma sample_reachable:
  assumes "main_steps n sample_proc_env sample_start \<noteq> None"
  shows "proc_reachable sample_proc_env sample_opts (\<lambda>_. None) [] (fst (sample_at n), snd (sample_at n))"
proof -
  obtain s where s: "main_steps n sample_proc_env sample_start = Some s" using assms by blast
  have "proc_reachable sample_proc_env sample_opts (\<lambda>_. None) [] sample_start"
    unfolding sample_start_def by (rule proc_reachable.start)
  from main_steps_reachable [OF s this] show ?thesis using s by (simp add: sample_at_def)
qed

lemma sample_daemon_run:
  "\<exists>st. main_steps 8 sample_proc_env sample_start = Some (At_Init, st) \<and> dp_handlers st = {''SIGTERM'', ''SIGINT''}"
  "\<exists>st. main_steps 11 sample_proc_env sample_start = Some (At_Run, st) \<and> dp_handlers st = {''SIGTERM'', ''SIGINT''}"
  "\<exists>st. main_steps 15 sample_proc_env sample_start = Some (Gone 0, st)"
  by (auto simp: sample_daemon_defs take_lock_def main_steps_numeral ecryptfs_init_messaging_def ecryptfs_init_miscdev_def send_plain_def
      ecryptfs_send_message_def send_plain_frame ecryptfs_run_daemon_def listening_def ecryptfsd_exit_def ecryptfs_messaging_exit_def Let_def)

theorem daemon_serves_prepared_witness:
  "\<exists>st. main_steps 11 sample_proc_env sample_start = Some (At_Run, st) \<and> dp_files st = {''/p''} \<and> dp_core_off st"
proof -
  obtain st where s: "main_steps 11 sample_proc_env sample_start = Some (At_Run, st)" using sample_daemon_run(2) by blast
  have "proc_reachable sample_proc_env sample_opts (\<lambda>_. None) [] (At_Run, st)"
    using sample_reachable [of 11] s by (simp add: sample_at_def)
  from daemon_serves_prepared [OF this] show ?thesis using s by (simp add: pid_files_def sample_opts_def)
qed

theorem daemon_exit_removes_pidfile_witness:
  "\<exists>st. main_steps 15 sample_proc_env sample_start = Some (Gone 0, st) \<and> dp_files st = {}"
proof -
  obtain st where s: "main_steps 15 sample_proc_env sample_start = Some (Gone 0, st)" using sample_daemon_run(3) by blast
  have "proc_reachable sample_proc_env sample_opts (\<lambda>_. None) [] (Gone 0, st)"
    using sample_reachable [of 15] s by (simp add: sample_at_def)
  from daemon_exit_removes_pidfile [OF this] show ?thesis using s by blast
qed


definition sample_prompt :: prompt_env where
  "sample_prompt = \<lparr>pr_pipe = 0, pr_fork = 0, pr_waits = [Wait_Error EINTR, Child_Exited 0], pr_read = Inr [97, 98, 10]\<rparr>"

theorem prompt_callback_reads_line_witness:
  "\<exists>out. prompt_callback sample_prompt (Some ''/bin/ask'') ''password'' (Some [1, 1, 1, 1]) = Some (0, Some out) \<and> c_string out = Some [97, 98]"
  using prompt_callback_reads_line [of sample_prompt "[97, 98]" "[1, 1, 1, 1]" "''/bin/ask''"] by (auto simp: sample_prompt_def)

theorem prompt_callback_overruns_witness:
  "prompt_callback sample_prompt (Some ''/bin/ask'') ''password'' (Some [1, 1, 1]) = None"
  by (rule prompt_callback_overruns [where bytes = "[97, 98, 10]"]) (simp_all add: sample_prompt_def)

theorem prompt_callback_error_clears_witness:
  "\<exists>rc. prompt_callback (sample_prompt\<lparr>pr_read := Inl 5\<rparr>) (Some ''/bin/ask'') ''password'' (Some [1, 1, 1]) = Some (rc, Some [0, 0, 0])"
proof -
  have "prompt_callback (sample_prompt\<lparr>pr_read := Inl 5\<rparr>) (Some ''/bin/ask'') ''password'' (Some [1, 1, 1]) = Some (- 5, Some [0, 0, 0])"
    by (simp add: prompt_callback_def run_prompt_def store_answer_def sample_prompt_def)
  from prompt_callback_error_clears [OF this] show ?thesis
    by (simp add: prompt_callback_def run_prompt_def store_answer_def sample_prompt_def)
qed

theorem daemonize_keeps_output_witness:
  "\<exists>fds. daemonize sample_background (\<lambda>fd. if fd < 3 then Some ''/dev/tty'' else None) = Inr fds \<and> fds 1 = Some ''/dev/tty''"
proof -
  let ?t = "\<lambda>fd. if fd < (3 :: nat) then Some ''/dev/tty'' else None"
  obtain fds where f: "daemonize sample_background ?t = Inr fds" by (simp add: daemonize_def sample_background_def Let_def)
  from daemonize_keeps_output [OF f] show ?thesis using f by (simp add: sample_background_def)
qed

end
