(* ===== verification/Pkcs11_Mod.thy ===== *)
theory Pkcs11_Mod
  imports Openssl_Mod Daemon_Main
begin

text \<open>
  The key module for PKCS#11 tokens, \<open>src/key_mod/ecryptfs_key_mod_pkcs11_helper.c\<close>: keys on a token,
  found again by a blob with the identifier of the certificate, the certificate and the passphrase.

  The library pkcs11-helper and the certificates of OpenSSL are a record of their answers. What the
  module sets in that library (log level, hooks, providers) is a state of its own.
\<close>

subsection \<open>The libraries\<close>

record pkcs11h_data =
  pd_serialized_id :: "byte list option"
  pd_certificate_blob :: "byte list option"
  pd_certificate_blob_size :: nat
  pd_passphrase :: "byte list option"

record pkcs11h_provider =
  pv_name :: "byte list option"
  pv_library :: "byte list option"
  pv_allow_protected_authentication :: u32
  pv_certificate_is_private :: u32
  pv_private_mask :: u32

record p11_state =
  p11_initialized :: bool
  p11_log_hook :: bool
  p11_token_hook :: bool
  p11_pin_hook :: bool
  p11_protected_authentication :: bool
  p11_log_level :: int
  p11_pin_cache :: int
  p11_providers :: "pkcs11h_provider list"

text \<open>
  Of an RSA key as in the OpenSSL module, apart from the padding of the encryption. Identifiers
  \<open>'i\<close>, handles \<open>'c\<close> and certificates \<open>'x\<close> are opaque. A public key says whether it is of type RSA,
  and its RSA key. A call with a buffer is told its size; a decryption that fails may change
  \<open>*to_size\<close>.
\<close>

record ('r, 'i, 'c, 'x) p11_env =
  pk_ssl :: "'r ssl_env"
  pk_rsa_encrypt :: "'r \<Rightarrow> byte list \<Rightarrow> byte list option"
  pk_d2i_X509 :: "byte list \<Rightarrow> 'x option"
  pk_i2d_X509 :: "'x \<Rightarrow> byte list option"
  pk_pubkey :: "'x \<Rightarrow> (bool \<times> 'r option) option"
  pk_name_oneline :: "'x \<Rightarrow> byte list"
  pk_serial :: "'x \<Rightarrow> byte list option"
  pk_fopen :: "string \<Rightarrow> int + byte list"
  pk_pem_read_X509 :: "byte list \<Rightarrow> 'x option"
  pk_deserialize_id :: "byte list \<Rightarrow> 'i option"
  pk_serialize_size :: "'i \<Rightarrow> nat option"
  pk_serialize_id :: "'i \<Rightarrow> nat \<Rightarrow> byte list option"
  pk_set_blob :: "'i \<Rightarrow> byte list \<Rightarrow> 'i option"
  pk_create :: "'i \<Rightarrow> byte list option \<Rightarrow> 'c option"
  pk_blob_size :: "'c \<Rightarrow> nat option"
  pk_blob :: "'c \<Rightarrow> nat \<Rightarrow> byte list option"
  pk_decrypt_size :: "'c \<Rightarrow> byte list \<Rightarrow> nat option"
  pk_decrypt :: "'c \<Rightarrow> byte list \<Rightarrow> nat \<Rightarrow> nat + byte list"
  pk_enum :: "'i list option"
  pk_add_provider :: "pkcs11h_provider list \<Rightarrow> pkcs11h_provider \<Rightarrow> bool"
  pk_initialize :: bool
  pk_set_log_hook :: bool
  pk_set_token_hook :: bool
  pk_set_pin_hook :: bool
  pk_set_protected :: bool
  pk_home :: "string option"
  pk_open :: "string \<Rightarrow> int + open_file"

subsection \<open>The blob\<close>

text \<open>Pointers into the blob, as offsets.\<close>

record pkcs11h_view =
  vw_serialized_id :: "nat option"
  vw_certificate_blob :: "nat option"
  vw_certificate_blob_size :: nat
  vw_passphrase :: "nat option"

text \<open>A size in two bytes at \<open>i\<close>, the lower one first; a part of this size follows if it is not 0.\<close>

definition read_part :: "byte list \<Rightarrow> nat \<Rightarrow> (nat \<times> nat option \<times> nat) option" where
  "read_part blob i = do {
     lo \<leftarrow> rd_byte blob i;
     hi \<leftarrow> rd_byte blob (i + 1);
     let n = unat lo + unat hi * 256;
     Some (n, if n = 0 then None else Some (i + 2), i + 2 + n) }"

definition ecryptfs_pkcs11h_deserialize :: "byte list \<Rightarrow> pkcs11h_view option" where
  "ecryptfs_pkcs11h_deserialize blob = do {
     (_, id_at, i) \<leftarrow> read_part blob 0;
     (n, cert_at, i) \<leftarrow> read_part blob i;
     (_, pass_at, _) \<leftarrow> read_part blob i;
     Some \<lparr>vw_serialized_id = id_at, vw_certificate_blob = cert_at, vw_certificate_blob_size = n, vw_passphrase = pass_at\<rparr> }"

text \<open>
  \<open>PUSHSER1\<close> and \<open>PUSHSERN\<close>: bytes at the position, which moves on; nothing is written without a
  buffer.
\<close>

definition pushser :: "byte list \<Rightarrow> byte list option \<times> nat \<Rightarrow> (byte list option \<times> nat) option" where
  "pushser bs = (\<lambda>(blob, i). case blob of
     None \<Rightarrow> Some (None, i + length bs)
   | Some buf \<Rightarrow> map_option (\<lambda>buf. (Some buf, i + length bs)) (wr_bytes buf i bs))"

text \<open>
  The status, the size and the buffer. A passphrase that is a null pointer is read nevertheless;
  the certificate is read only to be copied.
\<close>

definition ecryptfs_pkcs11h_serialize ::
  "byte list option \<Rightarrow> pkcs11h_data \<Rightarrow> (int \<times> nat \<times> byte list option) option" where
  "ecryptfs_pkcs11h_serialize blob d =
     (case pd_serialized_id d of
        None \<Rightarrow> Some (- EINVAL, 0, blob)
      | Some serialized_id \<Rightarrow> do {
          let n = pd_certificate_blob_size d;
          cert \<leftarrow> (case pd_certificate_blob d of
             Some c \<Rightarrow> if blob = None then Some (replicate n 0) else rd_bytes c 0 n
           | None \<Rightarrow> if n = 0 \<or> blob = None then Some (replicate n 0) else None);
          w \<leftarrow> pushser (size_bytes (length serialized_id + 1)) (blob, 0);
          w \<leftarrow> pushser (serialized_id @ [0]) w;
          w \<leftarrow> pushser (size_bytes n) w;
          w \<leftarrow> pushser cert w;
          passphrase \<leftarrow> pd_passphrase d;
          w \<leftarrow> pushser (size_bytes (length passphrase + 1)) w;
          (blob, i) \<leftarrow> pushser (passphrase @ [0]) w;
          Some (0, i, blob) })"

subsection \<open>Prompts\<close>

text \<open>
  \<open>pkcs11h_log\<close> writes to the log only. A token is never waited for. For the PIN the program of the
  daemon is asked first, where \<open>prompt\<close> is set; the passphrase of the blob, \<open>user_data\<close>, is used at
  the first attempt when that answers \<open>-EINVAL\<close>. The length of \<open>pin\<close> is \<open>pin_max\<close>.
\<close>

definition pkcs11h_token_prompt :: "nat \<Rightarrow> bool" where
  "pkcs11h_token_prompt retry = False"

definition pkcs11h_pin_prompt ::
  "(string \<Rightarrow> byte list option \<Rightarrow> (int \<times> byte list option) option) option \<Rightarrow> byte list option \<Rightarrow> nat \<Rightarrow> byte list \<Rightarrow> schedule
   \<Rightarrow> (bool \<times> byte list \<times> schedule) option" where
  "pkcs11h_pin_prompt prompt user_data retry pin mem =
     (case malloc_ok mem of
        (False, mem) \<Rightarrow> Some (False, pin, mem)
      | (True, mem) \<Rightarrow> do {
          (rc, pin) \<leftarrow> (case prompt of
             None \<Rightarrow> Some (- EINVAL, pin)
           | Some ask \<Rightarrow> do {
               (rc, buf) \<leftarrow> ask ''password'' (Some pin);
               pin \<leftarrow> buf;
               Some (rc, pin) });
          if rc \<noteq> - EINVAL then Some (rc = 0, pin, mem)
          else (case user_data of
             None \<Rightarrow> Some (False, pin, mem)
           | Some s \<Rightarrow>
               if retry \<noteq> 0 then Some (False, pin, mem)
               else if pin = [] then None
               else Some (True, strncpy_field (length pin) (length pin - 1) s, mem)) })"

subsection \<open>Keys and signatures\<close>

definition ecryptfs_pkcs11h_get_public_key ::
  "('r, 'i, 'c, 'x) p11_env \<Rightarrow> byte list \<Rightarrow> schedule \<Rightarrow> (int \<times> 'r option \<times> schedule) option" where
  "ecryptfs_pkcs11h_get_public_key env blob mem = do {
     d \<leftarrow> ecryptfs_pkcs11h_deserialize blob;
     (case malloc_ok mem of
        (False, mem) \<Rightarrow> Some (- ENOMEM, None, mem)
      | (True, mem) \<Rightarrow> do {
          der \<leftarrow> (case vw_certificate_blob d of None \<Rightarrow> Some [] | Some i \<Rightarrow> rd_bytes blob i (vw_certificate_blob_size d));
          Some (case pk_d2i_X509 env der of
             None \<Rightarrow> (- EIO, None, mem)
           | Some x509 \<Rightarrow>
               (case pk_pubkey env x509 of
                  None \<Rightarrow> (- EIO, None, mem)
                | Some (is_rsa, rsa) \<Rightarrow>
                    if \<not> is_rsa then (- EIO, None, mem)
                    else (case rsa of None \<Rightarrow> (- EIO, None, mem) | Some r \<Rightarrow> (0, Some r, mem)))) }) }"

text \<open>The data of a version 4 key packet of OpenPGP, as in the OpenSSL module.\<close>

definition ecryptfs_pkcs11h_get_key_sig ::
  "('r, 'i, 'c, 'x) p11_env \<Rightarrow> byte list \<Rightarrow> byte list \<Rightarrow> (int \<times> byte list) option" where
  "ecryptfs_pkcs11h_get_key_sig env sig blob = do {
     (rc, rsa, mem) \<leftarrow> ecryptfs_pkcs11h_get_public_key env blob (sl_calls (pk_ssl env));
     if rc \<noteq> 0 then Some (rc, sig)
     else do {
       rsa \<leftarrow> rsa;
       (case malloc_ok mem of
          (False, _) \<Rightarrow> Some (- ENOMEM, sig)
        | (True, mem) \<Rightarrow>
            let nbits = sl_n_bits (pk_ssl env) rsa; nbytes = nbits div 8 + (if nbits mod 8 \<noteq> 0 then 1 else 0);
                ebits = sl_e_bits (pk_ssl env) rsa; ebytes = ebits div 8 + (if ebits mod 8 \<noteq> 0 then 1 else 0);
                len = 10 + nbytes + ebytes
            in (case malloc_ok mem of
               (False, _) \<Rightarrow> Some (- ENOMEM, sig)
             | (True, _) \<Rightarrow> do {
                 data \<leftarrow> wr_bytes (fresh (sl_junk (pk_ssl env)) (3 + len)) 0
                    [0x99, word_of_nat (len div 256), word_of_nat len, 4, 0, 0, 0, 0, 2, word_of_nat (nbits div 256), word_of_nat nbits];
                 data \<leftarrow> wr_bytes data 11 (sl_n_bin (pk_ssl env) rsa);
                 data \<leftarrow> wr_bytes data (11 + nbytes) [word_of_nat (ebits div 256), word_of_nat ebits];
                 data \<leftarrow> wr_bytes data (13 + nbytes) (sl_e_bin (pk_ssl env) rsa);
                 hashed \<leftarrow> rd_bytes data 0 (len + 3);
                 digest \<leftarrow> rd_bytes (sl_sha1 (pk_ssl env) hashed) 0 SIG_SIZE;
                 sig \<leftarrow> wr_bytes sig 0 (to_hex digest @ [0]);
                 Some (0, sig) })) } }"

subsection \<open>Encryption\<close>

text \<open>The status, \<open>*to_size\<close> and the buffer.\<close>

definition ecryptfs_pkcs11h_encrypt ::
  "('r, 'i, 'c, 'x) p11_env \<Rightarrow> byte list option \<Rightarrow> nat \<Rightarrow> byte list \<Rightarrow> byte list \<Rightarrow> (int \<times> nat \<times> byte list) option" where
  "ecryptfs_pkcs11h_encrypt env to to_size from blob = do {
     let to_size = (if to = None then 0 else to_size);
     let keep = (case to of None \<Rightarrow> [] | Some buf \<Rightarrow> buf);
     (rc, rsa, _) \<leftarrow> ecryptfs_pkcs11h_get_public_key env blob (sl_calls (pk_ssl env));
     if rc \<noteq> 0 then Some (rc, to_size, keep)
     else do {
       rsa \<leftarrow> rsa;
       (case to of
          None \<Rightarrow> Some (0, sl_size (pk_ssl env) rsa, [])
        | Some buf \<Rightarrow>
            (case pk_rsa_encrypt env rsa from of
               None \<Rightarrow> Some (- ERR_get_error [sl_error (pk_ssl env)], sl_size (pk_ssl env) rsa, buf)
             | Some out \<Rightarrow> do {
                 buf \<leftarrow> wr_bytes buf 0 out;
                 Some (0, length out, buf) })) } }"

text \<open>
  The handle for a blob: identifier, certificate and passphrase. \<^term>\<open>None\<close> inside is an error of
  the library.
\<close>

definition open_certificate :: "('r, 'i, 'c, 'x) p11_env \<Rightarrow> byte list \<Rightarrow> pkcs11h_view \<Rightarrow> 'c option option" where
  "open_certificate env blob d = do {
     id_at \<leftarrow> vw_serialized_id d;
     text \<leftarrow> c_string (drop id_at blob);
     (case pk_deserialize_id env text of
        None \<Rightarrow> Some None
      | Some i \<Rightarrow> do {
          i \<leftarrow> (case vw_certificate_blob d of
             None \<Rightarrow> Some (Some i)
           | Some at \<Rightarrow> map_option (pk_set_blob env i) (rd_bytes blob at (vw_certificate_blob_size d)));
          (case i of
             None \<Rightarrow> Some None
           | Some i \<Rightarrow> do {
               user_data \<leftarrow> (case vw_passphrase d of None \<Rightarrow> Some None | Some at \<Rightarrow> map_option Some (c_string (drop at blob)));
               Some (pk_create env i user_data) }) }) }"

text \<open>
  When only the size is asked for, the operation of the token is ended by a decryption into a block
  that is thrown away; its status is not looked at, but it writes the size. That a token would
  otherwise refuse the next operation has no counterpart in the record of answers.
\<close>

definition ecryptfs_pkcs11h_decrypt ::
  "('r, 'i, 'c, 'x) p11_env \<Rightarrow> byte list option \<Rightarrow> nat \<Rightarrow> byte list \<Rightarrow> byte list \<Rightarrow> (int \<times> nat \<times> byte list) option" where
  "ecryptfs_pkcs11h_decrypt env to to_size from blob = do {
     let to_size = (if to = None then 0 else to_size);
     let keep = (case to of None \<Rightarrow> [] | Some buf \<Rightarrow> buf);
     d \<leftarrow> ecryptfs_pkcs11h_deserialize blob;
     c \<leftarrow> open_certificate env blob d;
     (case c of
        None \<Rightarrow> Some (- EIO, to_size, keep)
      | Some c \<Rightarrow>
          (case to of
             Some buf \<Rightarrow>
               (case pk_decrypt env c from to_size of
                  Inl n \<Rightarrow> Some (- EIO, n, buf)
                | Inr out \<Rightarrow> do {
                    buf \<leftarrow> wr_bytes buf 0 out;
                    Some (0, length out, buf) })
           | None \<Rightarrow>
               (case pk_decrypt_size env c from of
                  None \<Rightarrow> Some (- EIO, to_size, [])
                | Some n \<Rightarrow>
                    (case malloc_ok (sl_calls (pk_ssl env)) of
                       (False, _) \<Rightarrow> Some (- ENOMEM, n, [])
                     | (True, _) \<Rightarrow>
                         (case pk_decrypt env c from n of
                            Inl n \<Rightarrow> Some (0, n, [])
                          | Inr out \<Rightarrow> if length out \<le> n then Some (0, length out, []) else None))))) }"

subsection \<open>The list of identifiers\<close>

text \<open>
  One round of the loop in \<open>pkcs11h_get_id_list\<close>: the text so far, with a line for this certificate
  or, after an error of any kind, as it was.
\<close>

definition cert_line ::
  "('r, 'i, 'c, 'x) p11_env \<Rightarrow> 'i \<Rightarrow> byte list option \<Rightarrow> schedule \<Rightarrow> (byte list option \<times> schedule) option" where
  "cert_line env i s mem =
     (case pk_serialize_size env i of
        None \<Rightarrow> Some (s, mem)
      | Some ser_len \<Rightarrow>
     (case malloc_ok mem of
        (False, mem) \<Rightarrow> Some (s, mem)
      | (True, mem) \<Rightarrow>
     (case pk_serialize_id env i ser_len of
        None \<Rightarrow> Some (s, mem)
      | Some ser \<Rightarrow> do {
     ser \<leftarrow> wr_bytes (fresh (sl_junk (pk_ssl env)) ser_len) 0 ser;
     (case pk_create env i None of
        None \<Rightarrow> Some (s, mem)
      | Some c \<Rightarrow>
     (case pk_blob_size env c of
        None \<Rightarrow> Some (s, mem)
      | Some n \<Rightarrow>
     (case malloc_ok mem of
        (False, mem) \<Rightarrow> Some (s, mem)
      | (True, mem) \<Rightarrow>
     (case pk_blob env c n of
        None \<Rightarrow> Some (s, mem)
      | Some der \<Rightarrow>
     if n < length der then None
     else (case malloc_ok mem of
        (False, mem) \<Rightarrow> Some (s, mem)
      | (True, mem) \<Rightarrow>
     (case pk_d2i_X509 env der of
        None \<Rightarrow> Some (s, mem)
      | Some x509 \<Rightarrow>
     (case mallocs 2 mem of
        (False, mem) \<Rightarrow> Some (s, mem)
      | (True, mem) \<Rightarrow> do {
          ser \<leftarrow> c_string ser;
          serial \<leftarrow> (case pk_serial env x509 of None \<Rightarrow> Some [] | Some n \<Rightarrow> c_string (n @ [0]));
          Some (Some ((case s of None \<Rightarrow> [] | Some s \<Rightarrow> s) @ pk_name_oneline env x509 @ bytes_of_string '' ('' @ serial
             @ bytes_of_string '') ['' @ ser @ bytes_of_string '']'' @ [10]), mem) }))))))) })))"

fun cert_lines ::
  "('r, 'i, 'c, 'x) p11_env \<Rightarrow> 'i list \<Rightarrow> byte list option \<Rightarrow> schedule \<Rightarrow> (byte list option \<times> schedule) option" where
  "cert_lines env [] s mem = Some (s, mem)"
| "cert_lines env (i # is) s mem = do {
     (s, mem) \<leftarrow> cert_line env i s mem;
     cert_lines env is s mem }"

definition pkcs11h_get_id_list ::
  "('r, 'i, 'c, 'x) p11_env \<Rightarrow> schedule \<Rightarrow> (int \<times> byte list option \<times> schedule) option" where
  "pkcs11h_get_id_list env mem =
     (case pk_enum env of
        None \<Rightarrow> Some (- EIO, None, mem)
      | Some is \<Rightarrow> do {
          (s, mem) \<leftarrow> cert_lines env is None mem;
          Some (0, s, mem) })"

subsection \<open>Callbacks\<close>

text \<open>
  What \<open>*foo\<close> points to: the structure of a provider or that of a key, with the module by its
  position in the registry.
\<close>

record pkcs11h_subgraph_key_ctx =
  sk_key_mod :: nat
  sk_data :: pkcs11h_data

datatype p11_ptr = P11_Provider pkcs11h_provider | P11_Key pkcs11h_subgraph_key_ctx

record ('tn, 'k) p11_lib = "('tn, 'k) lib_ctx" +
  px_state :: p11_state

type_synonym ('f, 'tn, 'k) p11_eval = "('f, p11_ptr, ('tn, 'k) p11_lib) eval_state"
type_synonym ('f, 'tn, 'k) p11_result = "(int \<times> ('f, 'tn, 'k) p11_eval) option"

definition provider_of :: "('f, 'tn, 'k) p11_eval \<Rightarrow> pkcs11h_provider option" where
  "provider_of st = (case es_foo st of Some (P11_Provider p) \<Rightarrow> Some p | _ \<Rightarrow> None)"

definition key_ctx_of :: "('f, 'tn, 'k) p11_eval \<Rightarrow> pkcs11h_subgraph_key_ctx option" where
  "key_ctx_of st = (case es_foo st of Some (P11_Key c) \<Rightarrow> Some c | _ \<Rightarrow> None)"

definition zero_provider :: pkcs11h_provider where
  "zero_provider = \<lparr>pv_name = None, pv_library = None, pv_allow_protected_authentication = 0, pv_certificate_is_private = 0,
     pv_private_mask = 0\<rparr>"

definition zero_pkcs11h_data :: pkcs11h_data where
  "zero_pkcs11h_data = \<lparr>pd_serialized_id = None, pd_certificate_blob = None, pd_certificate_blob_size = 0, pd_passphrase = None\<rparr>"

text \<open>Both structures are cleared and freed, so nothing refers to them any more.\<close>

definition tf_ecryptfs_pkcs11h_destroy_subgraph_key_ctx :: "pkcs11h_subgraph_key_ctx \<Rightarrow> pkcs11h_subgraph_key_ctx" where
  "tf_ecryptfs_pkcs11h_destroy_subgraph_key_ctx c = c\<lparr>sk_key_mod := 0, sk_data := zero_pkcs11h_data\<rparr>"

definition tf_ecryptfs_pkcs11h_destroy_subgraph_provider_ctx :: "pkcs11h_provider \<Rightarrow> pkcs11h_provider" where
  "tf_ecryptfs_pkcs11h_destroy_subgraph_provider_ctx p = zero_provider"

definition map_p11 :: "(p11_state \<Rightarrow> p11_state) \<Rightarrow> ('f, 'tn, 'k) p11_eval \<Rightarrow> ('f, 'tn, 'k) p11_eval" where
  "map_p11 f st = st\<lparr>es_ctx := (es_ctx st)\<lparr>px_state := f (px_state (es_ctx st))\<rparr>\<rparr>"

text \<open>The value of the node is taken: a null pointer for the node, the status \<open>DEFAULT_TOK\<close>.\<close>

definition taken :: "nat \<Rightarrow> ('f, 'tn, 'k) p11_eval \<Rightarrow> ('f, 'tn, 'k) p11_result" where
  "taken cur st = do {
     n \<leftarrow> es_graph st cur;
     Some (DEFAULT_TOK, set_node cur (n\<lparr>pn_val := None\<rparr>) st) }"

definition c_atoi :: "byte list \<Rightarrow> int" where
  "c_atoi s = sint (word_of_int (c_strtol 10 s) :: u32)"

definition tf_pkcs11h_global_loglevel :: "nat \<Rightarrow> ('f, 'tn, 'k) p11_eval \<Rightarrow> ('f, 'tn, 'k) p11_result" where
  "tf_pkcs11h_global_loglevel cur st = do {
     n \<leftarrow> es_graph st cur;
     v \<leftarrow> pn_val n;
     taken cur (map_p11 (\<lambda>s. s\<lparr>p11_log_level := c_atoi v\<rparr>) st) }"

definition tf_pkcs11h_global_pincache :: "nat \<Rightarrow> ('f, 'tn, 'k) p11_eval \<Rightarrow> ('f, 'tn, 'k) p11_result" where
  "tf_pkcs11h_global_pincache cur st = do {
     n \<leftarrow> es_graph st cur;
     v \<leftarrow> pn_val n;
     taken cur (map_p11 (\<lambda>s. s\<lparr>p11_pin_cache := c_atoi v\<rparr>) st) }"

text \<open>The block has the size of another, larger structure.\<close>

definition tf_pkcs11h_provider :: "nat \<Rightarrow> ('f, 'tn, 'k) p11_eval \<Rightarrow> ('f, 'tn, 'k) p11_result" where
  "tf_pkcs11h_provider cur st =
     (case es_malloc st of
        (False, st) \<Rightarrow> Some (- ENOMEM, st)
      | (True, st) \<Rightarrow> taken cur (st\<lparr>es_foo := Some (P11_Provider zero_provider)\<rparr>))"

text \<open>A copy of the value of the node, put into the structure of the provider.\<close>

definition copy_to_provider ::
  "(byte list \<Rightarrow> pkcs11h_provider \<Rightarrow> pkcs11h_provider) \<Rightarrow> nat \<Rightarrow> ('f, 'tn, 'k) p11_eval \<Rightarrow> ('f, 'tn, 'k) p11_result" where
  "copy_to_provider f cur st = do {
     n \<leftarrow> es_graph st cur;
     p \<leftarrow> provider_of st;
     (case es_malloc st of
        (False, st) \<Rightarrow> Some (- ENOMEM, st)
      | (True, st) \<Rightarrow> taken cur (st\<lparr>es_foo := Some (P11_Provider (f (printed (pn_val n)) p))\<rparr>)) }"

definition tf_pkcs11h_provider_name :: "nat \<Rightarrow> ('f, 'tn, 'k) p11_eval \<Rightarrow> ('f, 'tn, 'k) p11_result" where
  "tf_pkcs11h_provider_name = copy_to_provider (\<lambda>v p. p\<lparr>pv_name := Some v\<rparr>)"

definition tf_pkcs11h_provider_library :: "nat \<Rightarrow> ('f, 'tn, 'k) p11_eval \<Rightarrow> ('f, 'tn, 'k) p11_result" where
  "tf_pkcs11h_provider_library = copy_to_provider (\<lambda>v p. p\<lparr>pv_library := Some v\<rparr>)"

text \<open>\<open>sscanf\<close> with \<open>%x\<close>; the variable keeps its value when there is no digit.\<close>

definition sscanf_x :: "byte list \<Rightarrow> u32 \<Rightarrow> u32" where
  "sscanf_x s old =
     (let t = dropWhile c_isspace s;
          t = (case t of b # bs \<Rightarrow> if b = 45 \<or> b = 43 then bs else t | [] \<Rightarrow> []);
          v = c_strtol 16 s
      in if t = [] \<or> \<not> is_digit_of 16 (hd t) then old else if 2 ^ 64 \<le> \<bar>v\<bar> then -1 else word_of_int v)"

definition scan_to_provider ::
  "(byte list \<Rightarrow> pkcs11h_provider \<Rightarrow> pkcs11h_provider) \<Rightarrow> nat \<Rightarrow> ('f, 'tn, 'k) p11_eval \<Rightarrow> ('f, 'tn, 'k) p11_result" where
  "scan_to_provider f cur st = do {
     n \<leftarrow> es_graph st cur;
     p \<leftarrow> provider_of st;
     v \<leftarrow> pn_val n;
     taken cur (st\<lparr>es_foo := Some (P11_Provider (f v p))\<rparr>) }"

definition tf_pkcs11h_provider_prot_auth :: "nat \<Rightarrow> ('f, 'tn, 'k) p11_eval \<Rightarrow> ('f, 'tn, 'k) p11_result" where
  "tf_pkcs11h_provider_prot_auth =
     scan_to_provider (\<lambda>v p. p\<lparr>pv_allow_protected_authentication := sscanf_x v (pv_allow_protected_authentication p)\<rparr>)"

definition tf_pkcs11h_provider_cert_private :: "nat \<Rightarrow> ('f, 'tn, 'k) p11_eval \<Rightarrow> ('f, 'tn, 'k) p11_result" where
  "tf_pkcs11h_provider_cert_private =
     scan_to_provider (\<lambda>v p. p\<lparr>pv_certificate_is_private := sscanf_x v (pv_certificate_is_private p)\<rparr>)"

definition tf_pkcs11h_provider_private_mask :: "nat \<Rightarrow> ('f, 'tn, 'k) p11_eval \<Rightarrow> ('f, 'tn, 'k) p11_result" where
  "tf_pkcs11h_provider_private_mask = scan_to_provider (\<lambda>v p. p\<lparr>pv_private_mask := sscanf_x v (pv_private_mask p)\<rparr>)"

text \<open>The provider is handed to the library, which may refuse it; the two flags are passed as truth values.\<close>

definition tf_pkcs11h_provider_end ::
  "('r, 'i, 'c, 'x) p11_env \<Rightarrow> nat \<Rightarrow> ('f, 'tn, 'k) p11_eval \<Rightarrow> ('f, 'tn, 'k) p11_result" where
  "tf_pkcs11h_provider_end env cur st = do {
     p \<leftarrow> provider_of st;
     let q = p\<lparr>pv_allow_protected_authentication := of_bool (pv_allow_protected_authentication p \<noteq> 0),
               pv_certificate_is_private := of_bool (pv_certificate_is_private p \<noteq> 0)\<rparr>;
     let add = (\<lambda>s. if pk_add_provider env (p11_providers s) q then s\<lparr>p11_providers := p11_providers s @ [q]\<rparr> else s);
     Some (DEFAULT_TOK, map_p11 add (st\<lparr>es_foo := None\<rparr>)) }"

definition copy_to_key ::
  "(byte list \<Rightarrow> pkcs11h_data \<Rightarrow> pkcs11h_data) \<Rightarrow> nat \<Rightarrow> ('f, 'tn, 'k) p11_eval \<Rightarrow> ('f, 'tn, 'k) p11_result" where
  "copy_to_key f cur st = do {
     n \<leftarrow> es_graph st cur;
     c \<leftarrow> key_ctx_of st;
     (case es_malloc st of
        (False, st) \<Rightarrow> Some (- ENOMEM, st)
      | (True, st) \<Rightarrow> taken cur (st\<lparr>es_foo := Some (P11_Key (c\<lparr>sk_data := f (printed (pn_val n)) (sk_data c)\<rparr>))\<rparr>)) }"

definition tf_pkcs11h_key_id :: "nat \<Rightarrow> ('f, 'tn, 'k) p11_eval \<Rightarrow> ('f, 'tn, 'k) p11_result" where
  "tf_pkcs11h_key_id = copy_to_key (\<lambda>v d. d\<lparr>pd_serialized_id := Some v\<rparr>)"

definition tf_pkcs11h_key_passwd :: "nat \<Rightarrow> ('f, 'tn, 'k) p11_eval \<Rightarrow> ('f, 'tn, 'k) p11_result" where
  "tf_pkcs11h_key_passwd = copy_to_key (\<lambda>v d. d\<lparr>pd_passphrase := Some v\<rparr>)"

text \<open>
  The certificate of a key that has none yet, from the token: the status, the data and the
  allocations left.
\<close>

definition fetch_certificate ::
  "('r, 'i, 'c, 'x) p11_env \<Rightarrow> 'c \<Rightarrow> pkcs11h_data \<Rightarrow> schedule \<Rightarrow> (int \<times> pkcs11h_data \<times> schedule) option" where
  "fetch_certificate env c d mem =
     (if pd_certificate_blob d \<noteq> None then Some (0, d, mem)
      else (case pk_blob_size env c of
         None \<Rightarrow> Some (- EIO, d, mem)
       | Some n \<Rightarrow>
           let d = d\<lparr>pd_certificate_blob_size := n\<rparr> in
           (case malloc_ok mem of
              (False, mem) \<Rightarrow> Some (- ENOMEM, d, mem)
            | (True, mem) \<Rightarrow>
                let buf = fresh (sl_junk (pk_ssl env)) n in
                (case pk_blob env c n of
                   None \<Rightarrow> Some (- EIO, d\<lparr>pd_certificate_blob := Some buf\<rparr>, mem)
                 | Some der \<Rightarrow> do {
                     buf \<leftarrow> wr_bytes buf 0 der;
                     Some (0, d\<lparr>pd_certificate_blob := Some buf, pd_certificate_blob_size := length der\<rparr>, mem) }))))"

text \<open>The blob of the module and the key in the keyring, with its signature among the mount options.\<close>

definition add_token_key ::
  "('r, 'i, 'c, 'x) p11_env \<Rightarrow> 'k keyring \<Rightarrow> pkcs11h_subgraph_key_ctx \<Rightarrow> ('f, 'tn, 'k) p11_eval \<Rightarrow> ('f, 'tn, 'k) p11_result" where
  "add_token_key env kr c st = do {
     let k = sk_key_mod c;
     let junk = sl_junk (pk_ssl env);
     (rc, blob_size, _) \<leftarrow> ecryptfs_pkcs11h_serialize None (sk_data c);
     if rc \<noteq> 0 \<or> blob_size = 0 then Some (MOUNT_ERROR, st)
     else if length (lc_key_mods (es_ctx st)) \<le> k then None
     else (case es_malloc st of
        (False, st) \<Rightarrow> Some (MOUNT_ERROR, set_blob k None st)
      | (True, st) \<Rightarrow> do {
          (rc, size2, blob) \<leftarrow> ecryptfs_pkcs11h_serialize (Some (fresh junk blob_size)) (sk_data c);
          let st = set_blob k blob st;
          if rc \<noteq> 0 then Some (MOUNT_ERROR, st)
          else if size2 \<noteq> blob_size then None
          else do {
            r \<leftarrow> ecryptfs_add_key_module_key_to_keyring junk kr (lc_keys (es_ctx st)) (lc_key_mods (es_ctx st) ! k)
                   (fresh junk (SIG_SIZE_HEX + 1)) (es_mem st);
            (case r of
               Process_Exit _ \<Rightarrow> None
             | Returned (rc, sig, keys, mem) \<Rightarrow>
                 let st = st\<lparr>es_ctx := (es_ctx st)\<lparr>lc_keys := keys\<rparr>, es_mem := mem\<rparr> in
                 if rc < 0 then Some (MOUNT_ERROR, st)
                 else (case es_malloc st of
                    (False, st) \<Rightarrow> Some (- ENOMEM, st)
                  | (True, st) \<Rightarrow> do {
                      s \<leftarrow> c_string sig;
                      Some (0, snd (push_param (Some (bytes_of_string ''ecryptfs_sig='' @ s)) st)) })) } }) }"

definition ecryptfs_pkcs11h_process_key ::
  "('r, 'i, 'c, 'x) p11_env \<Rightarrow> 'k keyring \<Rightarrow> pkcs11h_subgraph_key_ctx \<Rightarrow> ('f, 'tn, 'k) p11_eval \<Rightarrow> ('f, 'tn, 'k) p11_result" where
  "ecryptfs_pkcs11h_process_key env kr c st = do {
     serialized_id \<leftarrow> pd_serialized_id (sk_data c);
     (case pk_deserialize_id env serialized_id of
        None \<Rightarrow> Some (- EIO, st)
      | Some i \<Rightarrow>
          (case pk_create env i (pd_passphrase (sk_data c)) of
             None \<Rightarrow> Some (- EIO, st)
           | Some cert \<Rightarrow> do {
               (rc, d, mem) \<leftarrow> fetch_certificate env cert (sk_data c) (es_mem st);
               let c = c\<lparr>sk_data := d\<rparr>;
               let st = st\<lparr>es_foo := Some (P11_Key c), es_mem := mem\<rparr>;
               if rc \<noteq> 0 then Some (rc, st) else add_token_key env kr c st })) }"

text \<open>
  The certificate from the file that the node names, if it names one. A negative size of the
  encoding is not noticed, since the variable is unsigned; no block of that size can be had.
\<close>

definition read_x509file ::
  "('r, 'i, 'c, 'x) p11_env \<Rightarrow> byte list option \<Rightarrow> pkcs11h_data \<Rightarrow> schedule \<Rightarrow> int \<times> pkcs11h_data \<times> schedule" where
  "read_x509file env val d mem =
     (case val of
        None \<Rightarrow> (0, d, mem)
      | Some name \<Rightarrow>
          if name = [] then (0, d, mem)
          else (case pk_fopen env (string_of_bytes name) of
             Inl e \<Rightarrow> (- e, d, mem)
           | Inr pem \<Rightarrow>
               (case pk_pem_read_X509 env pem of
                  None \<Rightarrow> (- EIO, d, mem)
                | Some x509 \<Rightarrow>
                    (case pk_i2d_X509 env x509 of
                       None \<Rightarrow> (- ENOMEM, d\<lparr>pd_certificate_blob := None, pd_certificate_blob_size := 2 ^ 64 - 1\<rparr>, mem)
                     | Some der \<Rightarrow>
                         (case malloc_ok mem of
                            (False, mem) \<Rightarrow> (- ENOMEM, d\<lparr>pd_certificate_blob := None, pd_certificate_blob_size := length der\<rparr>, mem)
                          | (True, mem) \<Rightarrow>
                              (0, d\<lparr>pd_certificate_blob := Some der, pd_certificate_blob_size := length der\<rparr>, mem))))))"

definition tf_pkcs11h_key_x509file ::
  "('r, 'i, 'c, 'x) p11_env \<Rightarrow> 'k keyring \<Rightarrow> nat \<Rightarrow> ('f, 'tn, 'k) p11_eval \<Rightarrow> ('f, 'tn, 'k) p11_result" where
  "tf_pkcs11h_key_x509file env kr cur st = do {
     n \<leftarrow> es_graph st cur;
     c \<leftarrow> key_ctx_of st;
     let (rc, d, mem) = read_x509file env (pn_val n) (sk_data c) (es_mem st);
     let c = c\<lparr>sk_data := d\<rparr>;
     let st = st\<lparr>es_foo := Some (P11_Key c), es_mem := mem\<rparr>;
     if rc \<noteq> 0 then Some (rc, st)
     else do {
       (rc, st) \<leftarrow> ecryptfs_pkcs11h_process_key env kr c (set_node cur (n\<lparr>pn_val := None\<rparr>) st);
       Some (if rc \<noteq> 0 then (rc, st) else (DEFAULT_TOK, st\<lparr>es_foo := None\<rparr>)) } }"

text \<open>
  Entering the subgraph of a key, whose nodes start at \<open>b\<close>: the identifiers on the tokens become the
  suggested value of the node for the identifier.
\<close>

abbreviation (input) PKCS11H_KEY_TOK_ID :: nat where "PKCS11H_KEY_TOK_ID \<equiv> 1"
abbreviation (input) PKCS11H_KEY_TOK_PASSWD :: nat where "PKCS11H_KEY_TOK_PASSWD \<equiv> 2"
abbreviation (input) PKCS11H_KEY_TOK_PASS_ENV :: nat where "PKCS11H_KEY_TOK_PASS_ENV \<equiv> 3"
abbreviation (input) PKCS11H_KEY_TOK_PASS_STDIN :: nat where "PKCS11H_KEY_TOK_PASS_STDIN \<equiv> 4"
abbreviation (input) PKCS11H_KEY_TOK_DEFAULT_PASS :: nat where "PKCS11H_KEY_TOK_DEFAULT_PASS \<equiv> 5"
abbreviation (input) PKCS11H_KEY_TOK_DEFAULT_X509_FILE :: nat where "PKCS11H_KEY_TOK_DEFAULT_X509_FILE \<equiv> 6"

definition suggest_id :: "nat \<Rightarrow> byte list option \<Rightarrow> ('f, 'tn, 'k) p11_eval \<Rightarrow> ('f, 'tn, 'k) p11_eval option" where
  "suggest_id b v st = do {
     n \<leftarrow> es_graph st (b + PKCS11H_KEY_TOK_ID);
     Some (set_node (b + PKCS11H_KEY_TOK_ID) (n\<lparr>pn_suggested_val := v\<rparr>) st) }"

definition tf_pkcs11h_key_enter ::
  "('r, 'i, 'c, 'x) p11_env \<Rightarrow> nat \<Rightarrow> nat \<Rightarrow> ('f, 'tn, 'k) p11_eval \<Rightarrow> ('f, 'tn, 'k) p11_result" where
  "tf_pkcs11h_key_enter env b cur st = do {
     n \<leftarrow> es_graph st cur;
     (case es_malloc st of
        (False, st) \<Rightarrow> Some (- ENOMEM, st)
      | (True, st) \<Rightarrow>
          let ms = lc_key_mods (es_ctx st) in
          (case pn_val n of
             None \<Rightarrow> if ms = [] then Some (1, st) else None
           | Some v \<Rightarrow> do {
               (rc, m) \<leftarrow> ecryptfs_find_key_mod ms (string_of_bytes v);
               if rc \<noteq> 0 then Some (rc, st)
               else do {
                 let c = \<lparr>sk_key_mod = length (takeWhile (\<lambda>m. ecryptfs_find_key_mod [m] (string_of_bytes v) \<noteq> Some (0, Some m)) ms),
                          sk_data = zero_pkcs11h_data\<rparr>;
                 st \<leftarrow> suggest_id b None st;
                 name \<leftarrow> (case pn_mnt_opt_names n of [] \<Rightarrow> None | s # _ \<Rightarrow> Some s);
                 (rc, st) \<leftarrow> (if name \<noteq> bytes_of_string ''key'' then Some (0, st)
                    else do {
                      (rc, list, mem) \<leftarrow> pkcs11h_get_id_list env (es_mem st);
                      st \<leftarrow> suggest_id b list (st\<lparr>es_mem := mem\<rparr>);
                      Some (rc, st) });
                 Some (rc, if rc \<noteq> 0 then st else st\<lparr>es_foo := Some (P11_Key c)\<rparr>) } })) }"

subsection \<open>Nodes\<close>

datatype p11_fn = Tf_Global_Loglevel | Tf_Global_Pincache | Tf_Provider | Tf_Provider_Name | Tf_Provider_Library | Tf_Provider_Prot_Auth
  | Tf_Provider_Cert_Private | Tf_Provider_Private_Mask | Tf_Provider_End | Tf_Key_Id | Tf_Key_Passwd | Tf_Key_X509file | Tf_Key_Enter

text \<open>The call of a function by its pointer; \<open>b\<close> is where the nodes of a key start.\<close>

fun p11_call ::
  "('r, 'i, 'c, 'x) p11_env \<Rightarrow> 'k keyring \<Rightarrow> nat \<Rightarrow> p11_fn \<Rightarrow> nat \<Rightarrow> ('f, 'tn, 'k) p11_eval \<Rightarrow> ('f, 'tn, 'k) p11_result" where
  "p11_call env kr b Tf_Global_Loglevel cur st = tf_pkcs11h_global_loglevel cur st"
| "p11_call env kr b Tf_Global_Pincache cur st = tf_pkcs11h_global_pincache cur st"
| "p11_call env kr b Tf_Provider cur st = tf_pkcs11h_provider cur st"
| "p11_call env kr b Tf_Provider_Name cur st = tf_pkcs11h_provider_name cur st"
| "p11_call env kr b Tf_Provider_Library cur st = tf_pkcs11h_provider_library cur st"
| "p11_call env kr b Tf_Provider_Prot_Auth cur st = tf_pkcs11h_provider_prot_auth cur st"
| "p11_call env kr b Tf_Provider_Cert_Private cur st = tf_pkcs11h_provider_cert_private cur st"
| "p11_call env kr b Tf_Provider_Private_Mask cur st = tf_pkcs11h_provider_private_mask cur st"
| "p11_call env kr b Tf_Provider_End cur st = tf_pkcs11h_provider_end env cur st"
| "p11_call env kr b Tf_Key_Id cur st = tf_pkcs11h_key_id cur st"
| "p11_call env kr b Tf_Key_Passwd cur st = tf_pkcs11h_key_passwd cur st"
| "p11_call env kr b Tf_Key_X509file cur st = tf_pkcs11h_key_x509file env kr cur st"
| "p11_call env kr b Tf_Key_Enter cur st = tf_pkcs11h_key_enter env b cur st"

text \<open>A transition without a value or a next node, and one without a description.\<close>

definition last_tn :: "'f \<Rightarrow> 'f transition_node" where
  "last_tn f = zero_tn\<lparr>tn_trans_func := Some f\<rparr>"

definition plain_tn :: "string \<Rightarrow> nat \<Rightarrow> 'f \<Rightarrow> 'f transition_node" where
  "plain_tn v m f = (mk_tn v [] (Some m) (Some f))\<lparr>tn_pretty_val := None\<rparr>"

definition pkcs11h_global_param_nodes :: "p11_fn param_node list" where
  "pkcs11h_global_param_nodes =
    [mk_node [''pkcs11-log-level''] ''PKCS#11 Log Level'' (Some ''0'') PARAM_FLAG_ECHO_INPUT [last_tn Tf_Global_Loglevel],
     mk_node [''pkcs11-pin-cache-timeout''] ''PKCS#11 Log Level'' (Some ''-1'') PARAM_FLAG_ECHO_INPUT [last_tn Tf_Global_Pincache]]"

abbreviation (input) PKCS11H_PROVIER_TOK_PROVIDER :: nat where "PKCS11H_PROVIER_TOK_PROVIDER \<equiv> 0"
abbreviation (input) PKCS11H_PROVIER_TOK_NAME :: nat where "PKCS11H_PROVIER_TOK_NAME \<equiv> 1"
abbreviation (input) PKCS11H_PROVIER_TOK_LIBRARY :: nat where "PKCS11H_PROVIER_TOK_LIBRARY \<equiv> 2"
abbreviation (input) PKCS11H_PROVIER_TOK_PROT_AUTH :: nat where "PKCS11H_PROVIER_TOK_PROT_AUTH \<equiv> 3"
abbreviation (input) PKCS11H_PROVIER_TOK_CERT_PRIVATE :: nat where "PKCS11H_PROVIER_TOK_CERT_PRIVATE \<equiv> 4"
abbreviation (input) PKCS11H_PROVIER_TOK_PRIVATE_MASK :: nat where "PKCS11H_PROVIER_TOK_PRIVATE_MASK \<equiv> 5"
abbreviation (input) PKCS11H_PROVIER_TOK_END :: nat where "PKCS11H_PROVIER_TOK_END \<equiv> 6"

definition pkcs11h_provider_param_nodes :: "p11_fn param_node list" where
  "pkcs11h_provider_param_nodes =
    [mk_node [''pkcs11-provider''] ''PKCS#11 Provider'' (Some []) (DISPLAY_TRANSITION_NODE_VALS OR PARAM_FLAG_ECHO_INPUT)
       [plain_tn ''name'' PKCS11H_PROVIER_TOK_NAME Tf_Provider],
     mk_node [''name''] ''PKCS#11 Provider Alias'' None PARAM_FLAG_ECHO_INPUT
       [plain_tn ''library'' PKCS11H_PROVIER_TOK_LIBRARY Tf_Provider_Name],
     mk_node [''library''] ''PKCS#11 Library'' None PARAM_FLAG_ECHO_INPUT
       [plain_tn ''default'' PKCS11H_PROVIER_TOK_PROT_AUTH Tf_Provider_Library],
     mk_node [''allow-protected-auth''] ''Allow Protected Authentication'' (Some ''1'') (PARAM_FLAG_ECHO_INPUT OR ALLOW_IMPLICIT_TRANSITION)
       [plain_tn ''default'' PKCS11H_PROVIER_TOK_CERT_PRIVATE Tf_Provider_Prot_Auth],
     mk_node [''cert-private''] ''Certificate is private object'' (Some ''0'') PARAM_FLAG_ECHO_INPUT
       [plain_tn ''default'' PKCS11H_PROVIER_TOK_PRIVATE_MASK Tf_Provider_Cert_Private],
     mk_node [''private-mask''] ''Private Key Mask'' (Some ''0'') PARAM_FLAG_ECHO_INPUT
       [plain_tn ''default'' PKCS11H_PROVIER_TOK_END Tf_Provider_Private_Mask],
     mk_node [''dummy''] [] (Some []) PARAM_FLAG_ECHO_INPUT
       [plain_tn ''default'' PKCS11H_PROVIER_TOK_PROVIDER Tf_Provider_End]]"

definition pkcs11h_key_param_nodes :: "(p11_fn \<Rightarrow> 'f) \<Rightarrow> nat \<Rightarrow> 'f param_node list" where
  "pkcs11h_key_param_nodes fn b =
    [mk_node [''keyformat''] ''Key format'' (Some ''id'') PARAM_FLAG_NO_VALUE
       [mk_tn ''default'' ''PKCS#11 ID'' (Some (b + PKCS11H_KEY_TOK_ID)) None],
     mk_node [''id''] ''PKCS#11 Serialized ID'' None PARAM_FLAG_ECHO_INPUT
       [mk_tn ''passwd'' [] (Some (b + PKCS11H_KEY_TOK_PASSWD)) (Some (fn Tf_Key_Id)),
        mk_tn ''passenv'' ''Passphrase ENV'' (Some (b + PKCS11H_KEY_TOK_PASS_ENV)) (Some (fn Tf_Key_Id)),
        mk_tn ''passstdin'' ''Passphrase STDIN'' (Some (b + PKCS11H_KEY_TOK_PASS_STDIN)) (Some (fn Tf_Key_Id)),
        mk_tn ''default'' ''Passphrase (empty for interactive)'' (Some (b + PKCS11H_KEY_TOK_DEFAULT_PASS)) (Some (fn Tf_Key_Id))],
     mk_node [''passwd''] ''Passphrase (empty for interactive)'' None PARAM_FLAG_MASK_OUTPUT [last_tn (fn Tf_Key_Passwd)],
     mk_node [''passenv''] ''Passphrase (empty for interactive)'' None PARAM_FLAG_MASK_OUTPUT [last_tn (fn Tf_Key_Passwd)],
     mk_node [''passstdin''] ''Passphrase (empty for interactive)'' None (VERIFY_VALUE OR STDIN_REQUIRED) [last_tn (fn Tf_Key_Passwd)],
     mk_node [''defaultpass''] ''Passphrase (empty for interactive)'' None STDIN_REQUIRED
       [mk_tn ''default'' ''Optional X.509 Certificate PEM file'' (Some (b + PKCS11H_KEY_TOK_DEFAULT_X509_FILE)) (Some (fn Tf_Key_Passwd))],
     mk_node [''x509file''] ''Optional X.509 Certificate PEM file'' None PARAM_FLAG_ECHO_INPUT [last_tn (fn Tf_Key_X509file)]]"

definition pkcs11h_key_transition :: "(p11_fn \<Rightarrow> 'f) \<Rightarrow> nat \<Rightarrow> 'f transition_node" where
  "pkcs11h_key_transition fn b =
     mk_tn ''pkcs11-helper'' ''PKCS#11 module using pkcs11-helper'' (Some b) (Some (fn Tf_Key_Enter))"

subsection \<open>The configuration file\<close>

definition graph_of :: "'f param_node list \<Rightarrow> 'f graph" where
  "graph_of ns k = (if k < length ns then Some (ns ! k) else None)"

text \<open>
  The evaluation of the nodes with the options of the file. Its status and that of the parser are
  not looked at. The context is cleared, so there is nobody to ask.
\<close>

definition p11_start :: "p11_fn param_node list \<Rightarrow> nv_list \<Rightarrow> ('tn, 'k) p11_lib \<Rightarrow> schedule \<Rightarrow> (p11_fn, 'tn, 'k) p11_eval" where
  "p11_start nodes nvps ctx mem = \<lparr>es_graph = graph_of nodes, es_nvps = nvps, es_mnt_params = [None], es_foo = None,
     es_ctx = ctx\<lparr>lc_key_mods := []\<rparr>, es_verbosity = 0, es_get_string = False, es_inputs = [], es_repeated = 0,
     es_lastnode = None, es_mem = mem\<rparr>"

text \<open>The status, the context and the allocations left; \<open>fuel\<close> bounds the rounds of the evaluation.\<close>

definition ecryptfs_pkcs11h_parse_file ::
  "('r, 'i, 'c, 'x) p11_env \<Rightarrow> 'k keyring \<Rightarrow> nat \<Rightarrow> p11_fn param_node list \<Rightarrow> ('tn, 'k) p11_lib \<Rightarrow> schedule
   \<Rightarrow> (int \<times> ('tn, 'k) p11_lib \<times> schedule) option option" where
  "ecryptfs_pkcs11h_parse_file env kr fuel nodes ctx mem =
     (case pk_home env of
        None \<Rightarrow> Some (Some (- EIO, ctx, mem))
      | Some home \<Rightarrow>
          (case malloc_ok mem of
             (False, mem) \<Rightarrow> Some (Some (- ENOMEM, ctx, mem))
           | (True, mem) \<Rightarrow>
               (case pk_open env (home @ ''/.ecryptfsrc.pkcs11'') of
                  Inl e \<Rightarrow> Some (Some (- e, ctx, mem))
                | Inr fd \<Rightarrow>
                    (case malloc_ok mem of
                       (False, mem) \<Rightarrow> Some (Some (- ENOMEM, ctx, mem))
                     | (True, mem) \<Rightarrow> do {
                         (_, nvps, mem) \<leftarrow> parse_options_file (sl_junk (pk_ssl env)) fd [] mem;
                         r \<leftarrow> ecryptfs_eval_decision_graph (p11_call env kr 0) fuel 0 (p11_start nodes nvps ctx mem);
                         Some (map_option (\<lambda>(_, st). (0, ctx\<lparr>px_state := px_state (es_ctx st)\<rparr>, es_mem st)) r) }))))"

subsection \<open>The operation table\<close>

text \<open>A setting of the library, which must succeed for what follows.\<close>

definition p11_set ::
  "bool \<Rightarrow> (p11_state \<Rightarrow> p11_state) \<Rightarrow> (('tn, 'k) p11_lib \<Rightarrow> (int \<times> string option \<times> ('tn, 'k) p11_lib \<times> schedule) option option)
   \<Rightarrow> ('tn, 'k) p11_lib \<Rightarrow> schedule \<Rightarrow> (int \<times> string option \<times> ('tn, 'k) p11_lib \<times> schedule) option option" where
  "p11_set ok f k ctx mem =
     (if \<not> ok then Some (Some (- EIO, Some ''pkcs11-helper'', ctx, mem))
      else k (ctx\<lparr>px_state := f (px_state ctx)\<rparr>))"

definition ecryptfs_pkcs11h_init ::
  "('r, 'i, 'c, 'x) p11_env \<Rightarrow> 'k keyring \<Rightarrow> nat \<Rightarrow> ('tn, 'k) p11_lib \<Rightarrow> schedule
   \<Rightarrow> (int \<times> string option \<times> ('tn, 'k) p11_lib \<times> schedule) option option" where
  "ecryptfs_pkcs11h_init env kr fuel ctx mem =
     (case malloc_ok mem of
        (False, mem) \<Rightarrow> Some (Some (- ENOMEM, None, ctx, mem))
      | (True, mem) \<Rightarrow>
          p11_set (pk_initialize env) (\<lambda>s. s\<lparr>p11_initialized := True\<rparr>)
            (\<lambda>ctx. p11_set (pk_set_log_hook env) (\<lambda>s. s\<lparr>p11_log_hook := True, p11_log_level := 0\<rparr>)
              (\<lambda>ctx. do {
                 r \<leftarrow> ecryptfs_pkcs11h_parse_file env kr fuel pkcs11h_global_param_nodes ctx mem;
                 (case r of
                    None \<Rightarrow> Some None
                  | Some (_, ctx, mem) \<Rightarrow>
                      p11_set (pk_set_token_hook env) (\<lambda>s. s\<lparr>p11_token_hook := True\<rparr>)
                        (\<lambda>ctx. p11_set (pk_set_pin_hook env) (\<lambda>s. s\<lparr>p11_pin_hook := True\<rparr>)
                          (\<lambda>ctx. p11_set (pk_set_protected env) (\<lambda>s. s\<lparr>p11_protected_authentication := True\<rparr>)
                            (\<lambda>ctx. do {
                               r \<leftarrow> ecryptfs_pkcs11h_parse_file env kr fuel pkcs11h_provider_param_nodes ctx mem;
                               Some (map_option (\<lambda>(_, ctx, mem). (0, Some ''pkcs11-helper'', ctx, mem)) r) })
                            ctx mem) ctx mem) ctx mem) })
              ctx mem) ctx mem)"

definition ecryptfs_pkcs11h_get_param_subgraph_trans_node :: "'tn \<Rightarrow> u32 \<Rightarrow> int \<times> 'tn option" where
  "ecryptfs_pkcs11h_get_param_subgraph_trans_node tn version =
     (if version AND VERSIONING_PUBKEY = 0 then (-1, None) else (0, Some tn))"

definition ecryptfs_pkcs11h_finalize :: "('tn, 'k) p11_lib \<Rightarrow> int \<times> ('tn, 'k) p11_lib" where
  "ecryptfs_pkcs11h_finalize ctx = (0, ctx\<lparr>px_state := (px_state ctx)\<lparr>p11_initialized := False, p11_providers := []\<rparr>\<rparr>)"

text \<open>
  The table as the library calls it: what the calls do to the state of pkcs11-helper is in
  \<^const>\<open>ecryptfs_pkcs11h_init\<close> and \<^const>\<open>ecryptfs_pkcs11h_finalize\<close>. As before, an entry is unspecified where the
  code has no defined behaviour.
\<close>

definition ecryptfs_pkcs11h_ops ::
  "('r, 'i, 'c, 'x) p11_env \<Rightarrow> 'k keyring \<Rightarrow> nat \<Rightarrow> ('tn, 'k) p11_lib \<Rightarrow> 'tn \<Rightarrow> 'tn ecryptfs_key_mod_ops" where
  "ecryptfs_pkcs11h_ops env kr fuel ctx tn = \<lparr>
     op_init = Some (\<lambda>mem. case the (the (ecryptfs_pkcs11h_init env kr fuel ctx mem)) of (rc, al, _, mem) \<Rightarrow> (rc, al, mem)),
     op_get_gen_key_params = None,
     op_get_gen_key_subgraph_trans_node = None,
     op_get_params = None,
     op_get_param_subgraph_trans_node = Some (ecryptfs_pkcs11h_get_param_subgraph_trans_node tn),
     op_get_blob = None,
     op_get_key_data = None,
     op_get_key_sig = Some (\<lambda>blob. the (ecryptfs_pkcs11h_get_key_sig env (fresh (sl_junk (pk_ssl env)) (SIG_SIZE_HEX + 1)) blob)),
     op_get_key_hint = None,
     op_encrypt = Some (\<lambda>to to_size from blob _. the (ecryptfs_pkcs11h_encrypt env to to_size from blob)),
     op_decrypt = Some (\<lambda>to to_size from blob _. the (ecryptfs_pkcs11h_decrypt env to to_size from blob)),
     op_destroy = None,
     op_finalize = Some (\<lambda>_. fst (ecryptfs_pkcs11h_finalize ctx))\<rparr>"


subsection \<open>Blobs\<close>

definition p11_blob :: "byte list \<Rightarrow> byte list \<Rightarrow> byte list \<Rightarrow> byte list" where
  "p11_blob i c q = size_bytes (length i + 1) @ (i @ [0]) @ size_bytes (length c) @ c @ size_bytes (length q + 1) @ (q @ [0])"

definition p11_data :: "byte list \<Rightarrow> byte list \<Rightarrow> byte list \<Rightarrow> pkcs11h_data" where
  "p11_data i c q = \<lparr>pd_serialized_id = Some i, pd_certificate_blob = Some c, pd_certificate_blob_size = length c, pd_passphrase = Some q\<rparr>"

lemma length_p11_blob [simp]: "length (p11_blob i c q) = length i + length c + length q + 8"
  by (simp add: p11_blob_def)

lemma pushser_next:
  assumes "length xs + length bs \<le> length buf"
  shows "pushser bs (Some (xs @ drop (length xs) buf), length xs) = Some (Some ((xs @ bs) @ drop (length (xs @ bs)) buf), length (xs @ bs))"
  using wr_next [OF assms] by (simp add: pushser_def)

lemma pushser_first: "length bs \<le> length buf \<Longrightarrow> pushser bs (Some buf, 0) = Some (Some (bs @ drop (length bs) buf), length bs)"
  using pushser_next [of "[]" bs buf] by simp

lemma serialize_data:
  "ecryptfs_pkcs11h_serialize None (p11_data i c q) = Some (0, length (p11_blob i c q), None)"
  "length buf = length (p11_blob i c q) \<Longrightarrow>
   ecryptfs_pkcs11h_serialize (Some buf) (p11_data i c q) = Some (0, length (p11_blob i c q), Some (p11_blob i c q))"
proof -
  show "ecryptfs_pkcs11h_serialize None (p11_data i c q) = Some (0, length (p11_blob i c q), None)"
    by (simp add: ecryptfs_pkcs11h_serialize_def p11_data_def pushser_def)
next
  assume l: "length buf = length (p11_blob i c q)"
  define a1 a2 a3 a4 where "a1 = size_bytes (length i + 1)" and "a2 = a1 @ i @ [0]" and "a3 = a2 @ size_bytes (length c)" and "a4 = a3 @ c"
  define a5 where "a5 = a4 @ size_bytes (length q + 1)"
  note a = a1_def a2_def a3_def a4_def a5_def
  have la: "length a1 = 2" "length a2 = length i + 3" "length a3 = length i + 5" "length a4 = length i + length c + 5"
    "length a5 = length i + length c + 7" by (simp_all add: a)
  have b: "length buf = length i + length c + length q + 8" using l by simp
  have "pushser a1 (Some buf, 0) = Some (Some (a1 @ drop (length a1) buf), length a1)"
    by (rule pushser_first) (simp add: b la)
  moreover have "pushser (i @ [0]) (Some (a1 @ drop (length a1) buf), length a1) = Some (Some (a2 @ drop (length a2) buf), length a2)"
    using pushser_next [of a1 "i @ [0]" buf] b la unfolding a2_def by simp
  moreover have "pushser (size_bytes (length c)) (Some (a2 @ drop (length a2) buf), length a2) = Some (Some (a3 @ drop (length a3) buf), length a3)"
    using pushser_next [of a2 "size_bytes (length c)" buf] b la unfolding a3_def by simp
  moreover have "pushser c (Some (a3 @ drop (length a3) buf), length a3) = Some (Some (a4 @ drop (length a4) buf), length a4)"
    using pushser_next [of a3 c buf] b la unfolding a4_def by simp
  moreover have "pushser (size_bytes (length q + 1)) (Some (a4 @ drop (length a4) buf), length a4) = Some (Some (a5 @ drop (length a5) buf), length a5)"
    using pushser_next [of a4 "size_bytes (length q + 1)" buf] b la unfolding a5_def by simp
  moreover have "pushser (q @ [0]) (Some (a5 @ drop (length a5) buf), length a5) = Some (Some (p11_blob i c q), length (p11_blob i c q))"
  proof -
    have "a5 @ q @ [0] = p11_blob i c q" by (simp add: a p11_blob_def)
    then show ?thesis using pushser_next [of a5 "q @ [0]" buf] b la by simp
  qed
  ultimately show "ecryptfs_pkcs11h_serialize (Some buf) (p11_data i c q) = Some (0, length (p11_blob i c q), Some (p11_blob i c q))"
    unfolding ecryptfs_pkcs11h_serialize_def p11_data_def a1_def
    by (simp add: rd_bytes_def del: append_assoc)
qed

lemma read_part_at:
  assumes "n < 65536"
  shows "read_part (xs @ size_bytes n @ ys) (length xs) = Some (n, if n = 0 then None else Some (length xs + 2), length xs + 2 + n)"
proof -
  have "n div 256 < 256" using assms by simp
  then have "unat (word_of_nat (n mod 256) :: byte) + unat (word_of_nat (n div 256) :: byte) * 256 = n"
    by (simp add: unat_of_nat)
  then show ?thesis by (simp add: read_part_def rd_byte_def size_bytes_def nth_append)
qed

text \<open>The sizes that two bytes can hold.\<close>

definition parts_fit :: "byte list \<Rightarrow> byte list \<Rightarrow> byte list \<Rightarrow> bool" where
  "parts_fit i c q \<longleftrightarrow> length i < 65535 \<and> length c < 65536 \<and> length q < 65535 \<and> 0 \<notin> set i \<and> 0 \<notin> set q"

definition p11_view :: "byte list \<Rightarrow> byte list \<Rightarrow> pkcs11h_view" where
  "p11_view i c = \<lparr>vw_serialized_id = Some 2, vw_certificate_blob = (if c = [] then None else Some (length i + 5)),
     vw_certificate_blob_size = length c, vw_passphrase = Some (length i + length c + 7)\<rparr>"

lemma deserialize_p11_blob:
  assumes "parts_fit i c q"
  shows "ecryptfs_pkcs11h_deserialize (p11_blob i c q) = Some (p11_view i c)"
    and "c_string (drop 2 (p11_blob i c q)) = Some i"
    and "rd_bytes (p11_blob i c q) (length i + 5) (length c) = Some c"
    and "c_string (drop (length i + length c + 7) (p11_blob i c q)) = Some q"
proof -
  note f = assms [unfolded parts_fit_def]
  define a where "a = size_bytes (length i + 1) @ i @ [0]"
  define b where "b = a @ size_bytes (length c) @ c"
  have la: "length a = length i + 3" "length b = length i + length c + 5" by (simp_all add: a_def b_def)
  have 1: "p11_blob i c q = [] @ size_bytes (length i + 1) @ (i @ [0]) @ size_bytes (length c) @ c @ size_bytes (length q + 1) @ (q @ [0])"
    and 2: "p11_blob i c q = a @ size_bytes (length c) @ (c @ size_bytes (length q + 1) @ (q @ [0]))"
    and 3: "p11_blob i c q = b @ size_bytes (length q + 1) @ (q @ [0])"
    by (simp_all add: p11_blob_def a_def b_def)
  have "read_part (p11_blob i c q) 0 = Some (length i + 1, Some 2, length i + 3)"
    unfolding 1 using f read_part_at [of "length i + 1" "[]" "(i @ [0]) @ size_bytes (length c) @ c @ size_bytes (length q + 1) @ (q @ [0])"]
    by simp
  moreover have "read_part (p11_blob i c q) (length i + 3) = Some (length c, if c = [] then None else Some (length i + 5), length i + length c + 5)"
    unfolding 2 using f read_part_at [of "length c" a "c @ size_bytes (length q + 1) @ (q @ [0])"] la by (simp add: ac_simps)
  moreover have "read_part (p11_blob i c q) (length i + length c + 5) = Some (length q + 1, Some (length i + length c + 7), length i + length c + length q + 8)"
    unfolding 3 using f read_part_at [of "length q + 1" b "q @ [0]"] la by (simp add: ac_simps)
  ultimately show "ecryptfs_pkcs11h_deserialize (p11_blob i c q) = Some (p11_view i c)"
    by (simp add: ecryptfs_pkcs11h_deserialize_def p11_view_def)
  have "drop 2 (p11_blob i c q) = i @ 0 # size_bytes (length c) @ c @ size_bytes (length q + 1) @ (q @ [0])"
    by (simp add: p11_blob_def size_bytes_def)
  then show "c_string (drop 2 (p11_blob i c q)) = Some i" using f c_string_terminated by simp
  have "p11_blob i c q = (a @ size_bytes (length c)) @ c @ size_bytes (length q + 1) @ (q @ [0])" "length i + 5 = length (a @ size_bytes (length c))"
    unfolding 2 by (simp_all add: la)
  then show "rd_bytes (p11_blob i c q) (length i + 5) (length c) = Some c" by (simp only: rd_bytes_def) simp
  have "p11_blob i c q = (b @ size_bytes (length q + 1)) @ q @ 0 # []" "length i + length c + 7 = length (b @ size_bytes (length q + 1))"
    unfolding 3 by (simp_all add: la)
  then have "drop (length i + length c + 7) (p11_blob i c q) = q @ 0 # []" by (simp only: append_eq_conv_conj) simp
  then show "c_string (drop (length i + length c + 7) (p11_blob i c q)) = Some q" using f c_string_terminated [of q "[]"] by simp
qed

text \<open>
  Round trip of the blob: the size that is reported first is that of the blob, every byte of the
  buffer is written, and identifier, certificate and passphrase are read back from it. An empty
  passphrase stays a passphrase.
\<close>

theorem pkcs11_blob_roundtrip:
  assumes "parts_fit i c q" "c \<noteq> []"
  shows "\<exists>n. ecryptfs_pkcs11h_serialize None (p11_data i c q) = Some (0, n, None)
    \<and> (\<forall>junk. \<exists>blob d. ecryptfs_pkcs11h_serialize (Some (fresh junk n)) (p11_data i c q) = Some (0, n, Some blob)
      \<and> length blob = n \<and> ecryptfs_pkcs11h_deserialize blob = Some d
      \<and> map_option (\<lambda>k. c_string (drop k blob)) (vw_serialized_id d) = Some (Some i)
      \<and> map_option (\<lambda>k. rd_bytes blob k (vw_certificate_blob_size d)) (vw_certificate_blob d) = Some (Some c)
      \<and> map_option (\<lambda>k. c_string (drop k blob)) (vw_passphrase d) = Some (Some q))"
  using deserialize_p11_blob [OF assms(1)] assms(2)
  by (simp add: serialize_data fresh_def p11_view_def)

theorem pkcs11_blob_roundtrip_witness:
  "\<exists>blob d. ecryptfs_pkcs11h_serialize (Some (fresh (\<lambda>_. 0) 12)) (p11_data [97] [0, 48] [49]) = Some (0, 12, Some blob)
     \<and> ecryptfs_pkcs11h_deserialize blob = Some d \<and> map_option (\<lambda>k. c_string (drop k blob)) (vw_passphrase d) = Some (Some [49])"
proof -
  have s: "ecryptfs_pkcs11h_serialize None (p11_data [97] [0, 48] [49]) = Some (0, 12, None)"
    by (simp add: serialize_data)
  have "parts_fit [97] [0, 48] [49]" by (simp add: parts_fit_def)
  from pkcs11_blob_roundtrip [OF this] s show ?thesis by simp blast
qed

text \<open>A passphrase that is a null pointer is read when the blob is made.\<close>

lemma serialize_null_passphrase:
  "pd_serialized_id d = Some i \<Longrightarrow> pd_passphrase d = None \<Longrightarrow> ecryptfs_pkcs11h_serialize blob d = None"
  by (auto simp: ecryptfs_pkcs11h_serialize_def Let_def bind_eq_None_conv split: option.splits)

subsection \<open>Signatures\<close>

text \<open>The certificate is one of an RSA key.\<close>

definition cert_of_key :: "('r, 'i, 'c, 'x) p11_env \<Rightarrow> byte list \<Rightarrow> 'r \<Rightarrow> bool" where
  "cert_of_key env der r \<longleftrightarrow> der \<noteq> []
     \<and> (case pk_d2i_X509 env der of None \<Rightarrow> False | Some x \<Rightarrow> pk_pubkey env x = Some (True, Some r))"

lemma get_public_key_blob:
  assumes "parts_fit i c q" "cert_of_key env c r"
  shows "ecryptfs_pkcs11h_get_public_key env (p11_blob i c q) [] = Some (0, Some r, [])"
  using assms(2) deserialize_p11_blob [OF assms(1)]
  by (auto simp: ecryptfs_pkcs11h_get_public_key_def p11_view_def cert_of_key_def split: option.splits)

lemma get_key_sig_p11:
  assumes "parts_fit i c q" "cert_of_key env c r" "bn_ok (pk_ssl env) r" "sha1_ok (pk_ssl env)" "sl_calls (pk_ssl env) = []"
    and "length sig = SIG_SIZE_HEX + 1"
  shows "ecryptfs_pkcs11h_get_key_sig env sig (p11_blob i c q) = Some (0, key_signature (pk_ssl env) r @ [0])"
  using generate_signature_fingerprint [OF assms(3,4,6)] get_public_key_blob [OF assms(1,2)] assms(5)
  by (auto simp: ecryptfs_pkcs11h_get_key_sig_def ecryptfs_openssl_generate_signature_def Let_def bind_eq_Some_conv)

text \<open>
  C22. The signature of a key on a token does not depend on where the key is kept: it is the one that
  the OpenSSL module computes for the same key in a file, the start of its OpenPGP fingerprint.
\<close>

theorem pkcs11_signature_as_openssl:
  assumes "parts_fit i c q" "cert_of_key env c r" "key_in_file (pk_ssl env) files path pass r"
    and "bn_ok (pk_ssl env) r" "sha1_ok (pk_ssl env)" "sl_calls (pk_ssl env) = []" "length sig = SIG_SIZE_HEX + 1"
  shows "ecryptfs_pkcs11h_get_key_sig env sig (p11_blob i c q) = ecryptfs_openssl_get_key_sig (pk_ssl env) files sig (blob_of path pass)
    \<and> ecryptfs_pkcs11h_get_key_sig env sig (p11_blob i c q) = Some (0, to_hex (take SIG_SIZE (fingerprint (pk_ssl env) r)) @ [0])"
proof -
  have "ecryptfs_openssl_get_key_sig (pk_ssl env) files sig (blob_of path pass) = Some (0, key_signature (pk_ssl env) r @ [0])"
    using read_key_blob [OF assms(3)] generate_signature_fingerprint [OF assms(4,5,7)] assms(6)
    by (simp add: ecryptfs_openssl_get_key_sig_def)
  then show ?thesis using get_key_sig_p11 [OF assms(1,2,4-7)] by (simp add: key_signature_def)
qed

subsection \<open>Session keys\<close>

text \<open>The token holds the key: the handle that belongs to identifier, certificate and passphrase.\<close>

definition on_token :: "('r, 'i, 'c, 'x) p11_env \<Rightarrow> byte list \<Rightarrow> byte list \<Rightarrow> byte list \<Rightarrow> 'c \<Rightarrow> bool" where
  "on_token env i der q h \<longleftrightarrow>
     (case pk_deserialize_id env i of None \<Rightarrow> False | Some j \<Rightarrow>
        (case pk_set_blob env j der of None \<Rightarrow> False | Some j \<Rightarrow> pk_create env j (Some q) = Some h))"

lemma open_certificate_blob:
  assumes "parts_fit i c q" "c \<noteq> []" "on_token env i c q h"
  shows "open_certificate env (p11_blob i c q) (p11_view i c) = Some (Some h)"
  using assms(2,3) deserialize_p11_blob [OF assms(1)]
  by (auto simp: open_certificate_def p11_view_def on_token_def split: option.splits)

lemma p11_ops_crypt:
  "op_encrypt (ecryptfs_fill_in_dummy_ops (ecryptfs_pkcs11h_ops env kr fuel ctx tn))
     = Some (\<lambda>to to_size from blob _. the (ecryptfs_pkcs11h_encrypt env to to_size from blob))"
  "op_decrypt (ecryptfs_fill_in_dummy_ops (ecryptfs_pkcs11h_ops env kr fuel ctx tn))
     = Some (\<lambda>to to_size from blob _. the (ecryptfs_pkcs11h_decrypt env to to_size from blob))"
  "op_get_key_sig (ecryptfs_fill_in_dummy_ops (ecryptfs_pkcs11h_ops env kr fuel ctx tn))
     = Some (\<lambda>blob. the (ecryptfs_pkcs11h_get_key_sig env (fresh (sl_junk (pk_ssl env)) (SIG_SIZE_HEX + 1)) blob))"
  "op_get_key_data (ecryptfs_fill_in_dummy_ops (ecryptfs_pkcs11h_ops env kr fuel ctx tn)) = Some ecryptfs_dummy_get_key_data"
  by (simp_all add: ecryptfs_fill_in_dummy_ops_def ecryptfs_pkcs11h_ops_def or_dummy.simps)

text \<open>
  C18. Session keys through the daemon: a key that was encrypted with the certificate is decrypted to
  itself by the token. The laws that are used: the result of \<open>RSA_public_encrypt\<close> has the size of
  the key; asked for a size, the token names some size that is enough, and the decryption into a
  buffer that is large enough gives the key back.
\<close>

theorem pkcs11_session_key_roundtrip:
  assumes "ecryptfs_find_key_mod mods (tok_key_mod_alias tok) = Some (rc, Some km)"
    and "km_ops km = ecryptfs_fill_in_dummy_ops (ecryptfs_pkcs11h_ops env kr fuel ctx tn)"
    and "parts_fit i c q" "tok_data tok = p11_blob i c q" "cert_of_key env c r" "on_token env i c q h" "sl_calls (pk_ssl env) = []"
    and "pk_rsa_encrypt env r key = Some x" "length x = sl_size (pk_ssl env) r"
    and "pk_decrypt_size env h x = Some n" "length key \<le> n" "\<And>room. length key \<le> room \<Longrightarrow> pk_decrypt env h x room = Inr key"
    and "0 < length key" "length key \<le> MAX_KEY_BYTES" "0 < length x" "length x \<le> MAX_ENCRYPTED_KEY_BYTES"
  shows "\<exists>buf buf'. key_mod_encrypt junk size0 mods (Some tok) key [] = Some (0, Live buf, length x, [])
    \<and> rd_bytes buf 0 (length x) = Some x
    \<and> key_mod_decrypt junk size0 mods (Some tok) x [] = Some (0, Live buf', length key, [])
    \<and> rd_bytes buf' 0 (length key) = Some key"
proof -
  note ops = p11_ops_crypt [of env kr fuel ctx tn, folded assms(2)]
  have c: "c \<noteq> []" using assms(5) by (simp add: cert_of_key_def)
  have pub: "ecryptfs_pkcs11h_get_public_key env (p11_blob i c q) (sl_calls (pk_ssl env)) = Some (0, Some r, [])"
    using get_public_key_blob [OF assms(3,5)] assms(7) by simp
  have lf: "length (fresh junk m) = m" for m by (simp add: fresh_def)
  have e: "crypt_result (\<lambda>to to_size from blob _. the (ecryptfs_pkcs11h_encrypt env to to_size from blob)) junk size0 key (tok_data tok) x"
    using assms(8,9,15) pub lf by (simp add: crypt_result_def ecryptfs_pkcs11h_encrypt_def assms(4) wr_bytes_def)
  have o: "open_certificate env (p11_blob i c q) (p11_view i c) = Some (Some h)" by (rule open_certificate_blob [OF assms(3) c assms(6)])
  have d: "crypt_result (\<lambda>to to_size from blob _. the (ecryptfs_pkcs11h_decrypt env to to_size from blob)) junk size0 x (tok_data tok) key"
    using assms(7,10-13) deserialize_p11_blob(1) [OF assms(3)] o lf
    by (simp add: crypt_result_def ecryptfs_pkcs11h_decrypt_def assms(4) wr_bytes_def)
  show ?thesis
    using key_mod_crypt_good [where sel = op_encrypt, OF assms(1) ops(1) e assms(16)]
      key_mod_crypt_good [where sel = op_decrypt, OF assms(1) ops(2) d assms(14)]
    by (auto simp: key_mod_encrypt_def key_mod_decrypt_def)
qed

subsection \<open>A mount with a key on a token\<close>

text \<open>
  Where the certificate comes from: the PEM file that the value names, or the token when there is no
  value.
\<close>

definition certificate_from :: "('r, 'i, 'c, 'x) p11_env \<Rightarrow> 'c \<Rightarrow> byte list option \<Rightarrow> byte list \<Rightarrow> bool" where
  "certificate_from env h val der \<longleftrightarrow>
     (if val \<in> {None, Some []} then \<exists>m. pk_blob_size env h = Some m \<and> pk_blob env h m = Some der \<and> length der \<le> m
      else \<exists>pem x. pk_fopen env (string_of_bytes (the val)) = Inr pem \<and> pk_pem_read_X509 env pem = Some x \<and> pk_i2d_X509 env x = Some der)"

definition unfetched :: "byte list \<Rightarrow> byte list \<Rightarrow> pkcs11h_data" where
  "unfetched i q = \<lparr>pd_serialized_id = Some i, pd_certificate_blob = None, pd_certificate_blob_size = 0, pd_passphrase = Some q\<rparr>"

lemma certificate_is_had:
  assumes "certificate_from env h val der"
  shows "\<exists>rest d. read_x509file env val (unfetched i q) [] = (0, d, []) \<and> pd_serialized_id d = Some i \<and> pd_passphrase d = Some q
    \<and> fetch_certificate env h d [] = Some (0, (p11_data i der q)\<lparr>pd_certificate_blob := Some (der @ rest)\<rparr>, [])"
proof (cases "val \<in> {None, Some []}")
  case True
  then obtain m where m: "pk_blob_size env h = Some m" "pk_blob env h m = Some der" "length der \<le> m"
    using assms by (auto simp: certificate_from_def)
  then have "wr_bytes (fresh (sl_junk (pk_ssl env)) m) 0 der = Some (der @ drop (length der) (fresh (sl_junk (pk_ssl env)) m))"
    by (simp add: wr_bytes_def fresh_def)
  then have "fetch_certificate env h (unfetched i q) []
      = Some (0, (p11_data i der q)\<lparr>pd_certificate_blob := Some (der @ drop (length der) (fresh (sl_junk (pk_ssl env)) m))\<rparr>, [])"
    using m by (simp add: fetch_certificate_def unfetched_def p11_data_def)
  moreover have "read_x509file env val (unfetched i q) [] = (0, unfetched i q, [])" using True by (auto simp: read_x509file_def)
  ultimately show ?thesis by (auto simp: unfetched_def)
next
  case False
  then obtain name pem x where "val = Some name" "name \<noteq> []" "pk_fopen env (string_of_bytes name) = Inr pem"
    "pk_pem_read_X509 env pem = Some x" "pk_i2d_X509 env x = Some der"
    using assms by (cases val) (auto simp: certificate_from_def)
  then show ?thesis
    by (intro exI [of _ "[]"] exI [of _ "p11_data i der q"]) (simp add: read_x509file_def fetch_certificate_def unfetched_def p11_data_def)
qed

lemma serialize_prefix:
  "ecryptfs_pkcs11h_serialize b ((p11_data i der q)\<lparr>pd_certificate_blob := Some (der @ rest)\<rparr>) = ecryptfs_pkcs11h_serialize b (p11_data i der q)"
  by (simp add: ecryptfs_pkcs11h_serialize_def p11_data_def rd_bytes_def Let_def)

lemma add_p11_key:
  assumes "km_ops m = ecryptfs_fill_in_dummy_ops (ecryptfs_pkcs11h_ops env kr' fuel ctx tn)" "km_blob m = Some (p11_blob i c q)"
    and "km_alias m = Some al" "parts_fit i c q" "cert_of_key env c r"
    and "bn_ok (pk_ssl env) r" "sha1_ok (pk_ssl env)" "sl_calls (pk_ssl env) = []"
    and "kr_search kr keys (key_signature (pk_ssl env) r) = Inl e"
    and "kr_add kr keys (key_signature (pk_ssl env) r) (module_token al (key_signature (pk_ssl env) r) (p11_blob i c q)) = (Inr j, keys')"
  shows "ecryptfs_add_key_module_key_to_keyring junk kr keys m sig [] = Some (Returned (0, key_signature (pk_ssl env) r @ [0], keys', []))"
proof -
  have d: "ecryptfs_dummy_get_key_data None x = (0, 0, [])" for x by (simp add: ecryptfs_dummy_get_key_data_def)
  have l: "length (fresh (sl_junk (pk_ssl env)) (SIG_SIZE_HEX + 1)) = SIG_SIZE_HEX + 1" by (simp add: fresh_def)
  have "payload_sig m (p11_blob i c q) sig junk [] = Some (0, key_signature (pk_ssl env) r @ [0], [])"
    using get_key_sig_p11 [OF assms(4-8) l] by (simp add: payload_sig_def assms(1) p11_ops_crypt d)
  then show ?thesis using add_signed_key [OF assms(2,3) _ signature_text [OF assms(7)] assms(9,10)] by blast
qed

text \<open>
  A mount with a key on a token, from the node for the certificate on: the token with identifier,
  certificate and passphrase goes into the keyring under the fingerprint of the key, and the
  signature becomes a mount option, whether the certificate is read from a file or from the token.
\<close>

theorem pkcs11_mount_adds_key:
  assumes "es_graph st cur = Some n" "es_mem st = []" "sl_calls (pk_ssl env) = []"
    and "es_foo st = Some (P11_Key \<lparr>sk_key_mod = k, sk_data = unfetched i q\<rparr>)"
    and "k < length (lc_key_mods (es_ctx st))" "km_alias (lc_key_mods (es_ctx st) ! k) = Some al"
    and "km_ops (lc_key_mods (es_ctx st) ! k) = ecryptfs_fill_in_dummy_ops (ecryptfs_pkcs11h_ops env kr' fuel ctx tn)"
    and "pk_deserialize_id env i = Some j" "pk_create env j (Some q) = Some h" "certificate_from env h (pn_val n) der"
    and "parts_fit i der q" "cert_of_key env der r" "bn_ok (pk_ssl env) r" "sha1_ok (pk_ssl env)"
    and "kr_search kr (lc_keys (es_ctx st)) (key_signature (pk_ssl env) r) = Inl e"
    and "kr_add kr (lc_keys (es_ctx st)) (key_signature (pk_ssl env) r)
      (module_token al (key_signature (pk_ssl env) r) (p11_blob i der q)) = (Inr s, keys')"
  shows "\<exists>st'. tf_pkcs11h_key_x509file env kr cur st = Some (DEFAULT_TOK, st') \<and> lc_keys (es_ctx st') = keys' \<and> es_foo st' = None
    \<and> es_mnt_params st' = Some (bytes_of_string ''ecryptfs_sig='' @ key_signature (pk_ssl env) r) # es_mnt_params st
    \<and> km_blob (lc_key_mods (es_ctx st') ! k) = Some (p11_blob i der q)"
proof -
  obtain rest d where d: "read_x509file env (pn_val n) (unfetched i q) [] = (0, d, [])" "pd_serialized_id d = Some i" "pd_passphrase d = Some q"
    "fetch_certificate env h d [] = Some (0, (p11_data i der q)\<lparr>pd_certificate_blob := Some (der @ rest)\<rparr>, [])"
    using certificate_is_had [OF assms(10)] by blast
  define c where "c = \<lparr>sk_key_mod = k, sk_data = (p11_data i der q)\<lparr>pd_certificate_blob := Some (der @ rest)\<rparr>\<rparr>"
  define st1 where "st1 = (set_node cur (n\<lparr>pn_val := None\<rparr>) st)\<lparr>es_foo := Some (P11_Key c), es_mem := []\<rparr>"
  define st2 where "st2 = set_blob k (Some (p11_blob i der q)) st1"
  define st3 where "st3 = st2\<lparr>es_ctx := (es_ctx st2)\<lparr>lc_keys := keys'\<rparr>,
    es_mnt_params := Some (bytes_of_string ''ecryptfs_sig='' @ key_signature (pk_ssl env) r) # es_mnt_params st, es_mem := []\<rparr>"
  have f1: "es_ctx st1 = es_ctx st" "es_mem st1 = []" "es_mnt_params st1 = es_mnt_params st"
    by (simp_all add: st1_def set_node_def)
  have f2: "es_mem st2 = []" "lc_keys (es_ctx st2) = lc_keys (es_ctx st)" "es_mnt_params st2 = es_mnt_params st"
    "lc_key_mods (es_ctx st2) ! k = (lc_key_mods (es_ctx st) ! k)\<lparr>km_blob := Some (p11_blob i der q)\<rparr>"
    using f1 assms(5) by (simp_all add: st2_def set_blob_def Let_def)
  have a: "ecryptfs_add_key_module_key_to_keyring (sl_junk (pk_ssl env)) kr (lc_keys (es_ctx st2)) (lc_key_mods (es_ctx st2) ! k)
      (fresh (sl_junk (pk_ssl env)) (SIG_SIZE_HEX + 1)) (es_mem st2) = Some (Returned (0, key_signature (pk_ssl env) r @ [0], keys', []))"
    unfolding f2 by (rule add_p11_key [OF _ _ _ assms(11-14,3,15,16)]) (use assms(6,7) in simp_all)
  have buf: "ecryptfs_pkcs11h_serialize (Some (fresh (sl_junk (pk_ssl env)) (length (p11_blob i der q)))) (p11_data i der q)
      = Some (0, length (p11_blob i der q), Some (p11_blob i der q))"
    by (rule serialize_data(2)) (simp add: fresh_def)
  have m1: "st1\<lparr>es_mem := []\<rparr> = st1" by (simp add: st1_def)
  have "add_token_key env kr c st1 = Some (0, st3)"
    unfolding add_token_key_def
    using serialize_data(1) [of i der q] buf assms(5) f1 f2 a c_string_terminated [OF signature_text(2) [OF assms(14)], of r "[]"]
    by (simp add: c_def m1 serialize_prefix es_malloc_def push_param_def stack_push_def Let_def st2_def [symmetric] st3_def)
  moreover have "set_node cur (n\<lparr>pn_val := None\<rparr>) (st\<lparr>es_foo := x, es_mem := []\<rparr>)\<lparr>es_foo := Some (P11_Key c), es_mem := []\<rparr> = st1" for x
    by (simp add: st1_def set_node_def)
  ultimately have "tf_pkcs11h_key_x509file env kr cur st = Some (DEFAULT_TOK, st3\<lparr>es_foo := None\<rparr>)"
    using assms(1,2,4,8,9) d
    by (simp add: tf_pkcs11h_key_x509file_def key_ctx_of_def ecryptfs_pkcs11h_process_key_def Let_def c_def set_node_def)
  then show ?thesis using f2 by (simp add: st3_def)
qed

subsection \<open>The PIN\<close>

text \<open>
  The PIN that the daemon gives to a token. Without a program to ask, it is the passphrase of the
  blob, cut to the room there is, at the first attempt only. With a program that answers, it is the
  answer, whatever passphrase the blob holds, and at every attempt.
\<close>

theorem pkcs11_pin_of_daemon:
  assumes "pin \<noteq> []" "0 \<notin> set q"
  shows "\<exists>out. pkcs11h_pin_prompt (Some (prompt_callback penv None)) (Some q) 0 pin [] = Some (True, out, [])
      \<and> length out = length pin \<and> c_string out = Some (take (length pin - 1) q)"
    and "retry \<noteq> 0 \<Longrightarrow> \<exists>out. pkcs11h_pin_prompt (Some (prompt_callback penv None)) (Some q) retry pin [] = Some (False, out, [])"
    and "prompt_callback penv (Some prog) ''password'' (Some pin) = Some (0, Some out) \<Longrightarrow>
      pkcs11h_pin_prompt (Some (prompt_callback penv (Some prog))) (Some q) retry pin [] = Some (True, out, [])"
proof -
  let ?z = "replicate (length pin) (0 :: byte)"
  have p: "prompt_callback penv None ''password'' (Some pin) = Some (- EINVAL, Some ?z)"
    by (simp add: prompt_callback_def run_prompt_def)
  have z: "?z \<noteq> []" "length ?z = length pin" using assms(1) by simp_all
  let ?t = "take (length pin - 1) q"
  have "strncpy_field (length pin) (length pin - 1) q = ?t @ 0 # replicate (length pin - 1 - length ?t) 0"
    using assms(1) by (cases pin) (simp_all add: strncpy_field_def Let_def Suc_diff_le)
  moreover have "0 \<notin> set ?t" using assms(2) by (meson in_set_takeD)
  ultimately have s: "c_string (strncpy_field (length pin) (length pin - 1) q) = Some ?t" using c_string_terminated by simp
  have l: "length (strncpy_field (length pin) (length pin - 1) q) = length pin" using assms(1) by (simp add: strncpy_field_def Let_def)
  show "\<exists>out. pkcs11h_pin_prompt (Some (prompt_callback penv None)) (Some q) 0 pin [] = Some (True, out, [])
      \<and> length out = length pin \<and> c_string out = Some ?t"
    using z s l assms(1) by (simp add: pkcs11h_pin_prompt_def p)
  show "retry \<noteq> 0 \<Longrightarrow> \<exists>out. pkcs11h_pin_prompt (Some (prompt_callback penv None)) (Some q) retry pin [] = Some (False, out, [])"
    by (simp add: pkcs11h_pin_prompt_def p)
  show "prompt_callback penv (Some prog) ''password'' (Some pin) = Some (0, Some out) \<Longrightarrow>
      pkcs11h_pin_prompt (Some (prompt_callback penv (Some prog))) (Some q) retry pin [] = Some (True, out, [])"
    by (simp add: pkcs11h_pin_prompt_def)
qed

subsection \<open>The list of identifiers\<close>

text \<open>The line of a certificate that can be read.\<close>

definition listed :: "('r, 'i, 'c, 'x) p11_env \<Rightarrow> 'i \<Rightarrow> byte list option" where
  "listed env i = do {
     n \<leftarrow> pk_serialize_size env i;
     ser \<leftarrow> pk_serialize_id env i n;
     ser \<leftarrow> c_string ser;
     c \<leftarrow> pk_create env i None;
     m \<leftarrow> pk_blob_size env c;
     der \<leftarrow> pk_blob env c m;
     x \<leftarrow> pk_d2i_X509 env der;
     Some (pk_name_oneline env x @ bytes_of_string '' ('' @ (case pk_serial env x of None \<Rightarrow> [] | Some s \<Rightarrow> takeWhile (\<lambda>b. b \<noteq> 0) s)
       @ bytes_of_string '') ['' @ ser @ bytes_of_string '']'' @ [10]) }"

text \<open>What is documented of the two queries: what is written fits into the size reported, and is terminated.\<close>

definition sizes_reported :: "('r, 'i, 'c, 'x) p11_env \<Rightarrow> bool" where
  "sizes_reported env \<longleftrightarrow>
     (\<forall>i n t. pk_serialize_size env i = Some n \<longrightarrow> pk_serialize_id env i n = Some t \<longrightarrow> length t \<le> n \<and> 0 \<in> set t)
     \<and> (\<forall>c n t. pk_blob_size env c = Some n \<longrightarrow> pk_blob env c n = Some t \<longrightarrow> length t \<le> n)"

lemma c_string_prefix: "c_string s = Some t \<Longrightarrow> c_string (s @ u) = Some t"
  by (induction s arbitrary: t) (auto split: if_splits option.splits)

lemma c_string_has: "0 \<in> set s \<Longrightarrow> \<exists>t. c_string s = Some t"
  by (induction s) auto

lemma c_string_takeWhile: "c_string (s @ [0]) = Some (takeWhile (\<lambda>b. b \<noteq> 0) s)"
  by (induction s) auto

lemma cert_line_listed:
  assumes "sizes_reported env"
  shows "cert_line env i s [] = Some (case listed env i of None \<Rightarrow> s | Some l \<Rightarrow> Some ((case s of None \<Rightarrow> [] | Some s \<Rightarrow> s) @ l), [])"
proof (cases "pk_serialize_size env i")
  case (Some n)
  note n = this
  show ?thesis
  proof (cases "pk_serialize_id env i n")
    case (Some ser)
    then have l: "length ser \<le> n" "0 \<in> set ser" using n assms by (auto simp: sizes_reported_def)
    then obtain t where t: "c_string ser = Some t" using c_string_has by blast
    have w: "wr_bytes (fresh (sl_junk (pk_ssl env)) n) 0 ser = Some (ser @ drop (length ser) (fresh (sl_junk (pk_ssl env)) n))"
      using l by (simp add: wr_bytes_def fresh_def)
    have b: "pk_blob_size env c = Some m \<Longrightarrow> pk_blob env c m = Some der \<Longrightarrow> \<not> m < length der" for c m der
      using assms unfolding sizes_reported_def by (meson linorder_not_less)
    show ?thesis
      using n Some t w b c_string_prefix [OF t]
      by (auto simp: cert_line_def listed_def c_string_takeWhile numeral_2_eq_2 split: option.splits)
  qed (use n in \<open>simp add: cert_line_def listed_def\<close>)
qed (simp add: cert_line_def listed_def)

lemma cert_lines_listed:
  assumes "sizes_reported env"
  shows "cert_lines env is s [] = Some (if List.map_filter (listed env) is = [] then s
    else Some ((case s of None \<Rightarrow> [] | Some s \<Rightarrow> s) @ concat (List.map_filter (listed env) is)), [])"
  by (induction "is" arbitrary: s) (auto simp: cert_line_listed [OF assms] map_filter_simps split: option.splits)

text \<open>
  The identifiers that are suggested for a mount: one line for each certificate that can be read, in
  the order of the tokens. Certificates that cannot be read are left out, and the status is good
  whatever happened to them.
\<close>

theorem pkcs11_lists_readable_certificates:
  assumes "sizes_reported env" "pk_enum env = Some ids"
  shows "pkcs11h_get_id_list env [] = Some (0,
    (if List.map_filter (listed env) ids = [] then None else Some (concat (List.map_filter (listed env) ids))), [])"
  using cert_lines_listed [OF assms(1), of ids None] assms(2) by (simp add: pkcs11h_get_id_list_def)

subsection \<open>Rounds of the configuration\<close>

text \<open>The values that options with a name still have to give, in turn.\<close>

definition queue :: "byte list \<Rightarrow> nv_list \<Rightarrow> heap_ptr list" where
  "queue a nvps = map nv_value (filter (unused a) nvps)"

lemma opt_val_queue: "opt_val a nvps = (case queue a nvps of [] \<Rightarrow> None | v # _ \<Rightarrow> Some v)"
  by (induction nvps) (auto simp: opt_val_def queue_def)

lemma queue_mark [simp]: "queue a (mark_opt a nvps) = tl (queue a nvps)"
  by (induction nvps) (auto simp: queue_def)

lemma queue_mark_other [simp]: "a \<noteq> b \<Longrightarrow> queue b (mark_opt a nvps) = queue b nvps"
proof (induction nvps)
  case (Cons p ps)
  then show ?case using unused_names_differ [of a b p] by (auto simp: queue_def dest: unused_names_differ)
qed (simp add: queue_def)

lemma names_mark: "map nv_name (mark_opt a nvps) = map nv_name nvps"
  by (induction nvps) auto

lemma names_set_mark [simp]: "nv_name ` set (mark_opt a nvps) = nv_name ` set nvps"
  by (metis list.set_map names_mark)

definition rc_names :: "string list" where
  "rc_names = [''pkcs11-provider'', ''name'', ''library'', ''allow-protected-auth'', ''cert-private'', ''private-mask'', ''dummy'', ''pkcs11-log-level'']"

text \<open>The words that have a meaning of their own as values.\<close>

definition rc_words :: "byte list set" where
  "rc_words = {null_text, bytes_of_string ''NULL'', bytes_of_string ''default'', bytes_of_string ''name'', bytes_of_string ''library''}"

text \<open>Options of a file with a name and a library, without those words.\<close>

definition provider_options :: "nv_list \<Rightarrow> bool" where
  "provider_options nvps \<longleftrightarrow> names_live nvps \<and> no_default nvps
     \<and> Live (bytes_of_string ''name'') \<in> nv_name ` set nvps \<and> Live (bytes_of_string ''library'') \<in> nv_name ` set nvps
     \<and> (\<forall>a \<in> set rc_names. \<forall>x \<in> set (queue (bytes_of_string a) nvps). \<exists>s. x = Live s \<and> s \<notin> rc_words)"

lemma provider_options_mark [simp]:
  assumes "provider_options nvps"
  shows "provider_options (mark_opt b nvps)"
proof -
  have "set (queue a (mark_opt b nvps)) \<subseteq> set (queue a nvps)" for a
    by (cases "b = a"; cases "queue a nvps") auto
  moreover have "names_live (mark_opt b nvps) = names_live nvps"
    unfolding names_live_def by (metis (no_types, lifting) image_iff names_set_mark)
  ultimately show ?thesis using assms unfolding provider_options_def by auto blast+
qed

lemma queue_words:
  "provider_options nvps \<Longrightarrow> a \<in> set rc_names \<Longrightarrow> x \<in> set (queue (bytes_of_string a) nvps) \<Longrightarrow> \<exists>s. x = Live s \<and> s \<notin> rc_words"
  unfolding provider_options_def by blast

lemma do_transition_named:
  assumes "es_graph st k = Some n" "pn_tl n = [tn]" "tn_val tn = Some t" "tn_trans_func tn = Some f"
    and "names_live (es_nvps st)" "Live t \<in> nv_name ` set (es_nvps st)" "pn_val n \<noteq> Some t"
    and "call f k (entered k st) = Some (DEFAULT_TOK, st2)"
    and "es_graph st2 k = Some n'" "pn_tl n' = [tn']" "tn_next_token tn' = Some m"
  shows "do_transition call k st = Some ((0, Some m), st2)"
proof -
  have upd: "(if es_lastnode st \<noteq> Some k then st\<lparr>es_repeated := 0\<rparr> else st)\<lparr>es_lastnode := Some k\<rparr> = entered k st"
    by (cases st) (auto simp: entered_def)
  have t1: "trans_at k 0 (entered k st) = Some tn" using assms(1,2) by (simp add: trans_at_def)
  have t2: "trans_at k 0 st2 = Some tn'" using assms(9,10) by (simp add: trans_at_def)
  have "trans_nvps call k 0 ps (entered k st) = Some (Some (0, Some m), st2)" if "names_live ps" "Live t \<in> nv_name ` set ps" for ps
    using that
  proof (induction ps)
    case (Cons p ps)
    then obtain a where "nv_name p = Live a" by auto
    then show ?case using Cons assms(3,4,8,11) t1 t2 by (cases "a = t") (auto simp: run_trans_def)
  qed simp
  then have "trans_nvps call k 0 (es_nvps (entered k st)) (entered k st) = Some (Some (0, Some m), st2)" using assms(5,6) by simp
  then have "trans_first call k [0..<MAX_NUM_TRANSITIONS] (entered k st) = Some (Some (0, Some m), st2)"
    unfolding slots_64 using assms(1-3,7) by (simp add: Let_def)
  then show ?thesis unfolding do_transition_def Let_def upd by simp
qed

text \<open>The nodes, of which the last may have kept its value from the round before.\<close>

definition prov_graph :: "byte list option \<Rightarrow> p11_fn graph" where
  "prov_graph e = (graph_of pkcs11h_provider_param_nodes)
     (PKCS11H_PROVIER_TOK_END \<mapsto> (pkcs11h_provider_param_nodes ! PKCS11H_PROVIER_TOK_END)\<lparr>pn_val := e\<rparr>)"

definition configuring ::
  "byte list option \<Rightarrow> nv_list \<Rightarrow> p11_ptr option \<Rightarrow> ('tn, 'k) p11_lib \<Rightarrow> int \<Rightarrow> (p11_fn, 'tn, 'k) p11_eval \<Rightarrow> bool" where
  "configuring e nvps fo ctx v st \<longleftrightarrow> es_graph st = prov_graph e \<and> es_nvps st = nvps \<and> es_foo st = fo \<and> es_ctx st = ctx
     \<and> es_verbosity st = v \<and> \<not> es_get_string st \<and> es_mem st = []"

text \<open>A node of the configuration: its option, its default and its only transition.\<close>

definition value_node :: "'f param_node \<Rightarrow> string \<Rightarrow> string option \<Rightarrow> bool" where
  "value_node n a d \<longleftrightarrow> pn_mnt_opt_names n = [bytes_of_string a] \<and> pn_default_val n = map_option bytes_of_string d
     \<and> \<not> has_flag (pn_flags n) IMPLICIT_OVERRIDE_DEFAULT \<and> \<not> has_flag (pn_flags n) STDIN_REQUIRED \<and> \<not> has_flag (pn_flags n) PARAM_FLAG_NO_VALUE
     \<and> \<not> has_flag (pn_flags n) PARAMETER_SET \<and> (d = None \<longrightarrow> \<not> has_flag (pn_flags n) ALLOW_IMPLICIT_TRANSITION)"

definition config_node :: "p11_fn param_node \<Rightarrow> string \<Rightarrow> string option \<Rightarrow> string \<Rightarrow> p11_fn \<Rightarrow> nat \<Rightarrow> bool" where
  "config_node n a d t f m \<longleftrightarrow> value_node n a d \<and> pn_tl n = [plain_tn t m f]"

lemma plain_tn_simps [simp]:
  "tn_val (plain_tn t m f) = Some (bytes_of_string t)" "tn_next_token (plain_tn t m f) = Some m" "tn_trans_func (plain_tn t m f) = Some f"
  by (simp_all add: plain_tn_def mk_tn_def)

lemma config_nodes:
  "config_node (pkcs11h_provider_param_nodes ! 0) ''pkcs11-provider'' (Some []) ''name'' Tf_Provider 1"
  "config_node (pkcs11h_provider_param_nodes ! 1) ''name'' None ''library'' Tf_Provider_Name 2"
  "config_node (pkcs11h_provider_param_nodes ! 2) ''library'' None ''default'' Tf_Provider_Library 3"
  "config_node (pkcs11h_provider_param_nodes ! 3) ''allow-protected-auth'' (Some ''1'') ''default'' Tf_Provider_Prot_Auth 4"
  "config_node (pkcs11h_provider_param_nodes ! 4) ''cert-private'' (Some ''0'') ''default'' Tf_Provider_Cert_Private 5"
  "config_node (pkcs11h_provider_param_nodes ! 5) ''private-mask'' (Some ''0'') ''default'' Tf_Provider_Private_Mask 6"
  "config_node ((pkcs11h_provider_param_nodes ! 6)\<lparr>pn_val := e\<rparr>) ''dummy'' (Some []) ''default'' Tf_Provider_End 0"
  by (simp_all add: config_node_def value_node_def pkcs11h_provider_param_nodes_def mk_node_def has_flag_def)

lemma prov_graph_nodes:
  "k < 6 \<Longrightarrow> prov_graph e k = Some (pkcs11h_provider_param_nodes ! k)" "k < 6 \<Longrightarrow> pn_val (pkcs11h_provider_param_nodes ! k) = None"
  "prov_graph e 6 = Some ((pkcs11h_provider_param_nodes ! 6)\<lparr>pn_val := e\<rparr>)"
proof -
  show "k < 6 \<Longrightarrow> prov_graph e k = Some (pkcs11h_provider_param_nodes ! k)"
    by (simp add: prov_graph_def graph_of_def pkcs11h_provider_param_nodes_def)
  assume "k < 6"
  then have "k = 0 \<or> k = 1 \<or> k = 2 \<or> k = 3 \<or> k = 4 \<or> k = 5" by auto
  then show "pn_val (pkcs11h_provider_param_nodes ! k) = None" by (auto simp: pkcs11h_provider_param_nodes_def mk_node_def)
qed (simp add: prov_graph_def)

text \<open>The value that a node gets: that of the option, or the default.\<close>

definition value_for :: "string \<Rightarrow> string option \<Rightarrow> nv_list \<Rightarrow> byte list option" where
  "value_for a d nvps = (case queue (bytes_of_string a) nvps of Live s # _ \<Rightarrow> Some s | _ \<Rightarrow> map_option bytes_of_string d)"

lemma value_for_words:
  assumes "provider_options nvps" "a \<in> set rc_names" "value_for a d nvps = Some w" "d \<in> {None, Some [], Some ''0'', Some ''1''}"
  shows "w \<notin> rc_words"
proof (cases "queue (bytes_of_string a) nvps")
  case Nil
  have "bytes_of_string x \<notin> rc_words" if "x \<in> {[], ''0'', ''1''}" for x
    using that by (auto simp: rc_words_def null_text_def)
  then show ?thesis using Nil assms(3,4) by (auto simp: value_for_def)
next
  case (Cons x xs)
  then show ?thesis using queue_words [OF assms(1,2), of x] assms(3) by (auto simp: value_for_def)
qed

lemma alloc_config:
  assumes "es_graph st k = Some n" "value_node n a d" "pn_val n = None" "provider_options (es_nvps st)" "a \<in> set rc_names"
    and "d \<in> {None, Some [], Some ''0'', Some ''1''}" "es_mem st = []" "\<not> es_get_string st"
  shows "alloc_and_get_val k st =
    (case value_for a d (es_nvps st) of
       None \<Rightarrow> Some (if es_verbosity st = 0 then 0 else MOUNT_ERROR, st\<lparr>es_nvps := mark_opt (bytes_of_string a) (es_nvps st)\<rparr>)
     | Some w \<Rightarrow> Some (0, st\<lparr>es_nvps := mark_opt (bytes_of_string a) (es_nvps st), es_graph := (es_graph st)(k \<mapsto> n\<lparr>pn_val := Some w\<rparr>)\<rparr>))"
proof -
  let ?a = "bytes_of_string a"
  note n = assms(2) [unfolded value_node_def]
  have l: "names_live (es_nvps st)" using assms(4) by (simp add: provider_options_def)
  have c: "retrieve_names (rev (pn_mnt_opt_names n)) (es_nvps st) = Some (map_option (\<lambda>v. (v, mark_opt ?a (es_nvps st))) (opt_val ?a (es_nvps st)))"
    using n by (simp add: consume_opt_val [OF l] split: option.split)
  have g: "(es_graph st)(k \<mapsto> n) = es_graph st" using assms(1) by auto
  show ?thesis
  proof (cases "queue ?a (es_nvps st)")
    case Nil
    have m: "mark_opt ?a (es_nvps st) = es_nvps st" using Nil mark_opt_none [of ?a "es_nvps st"] by (simp add: opt_val_queue)
    show ?thesis
      using Nil assms(1,3,6-8) n c m value_for_words [OF assms(4,5) _ assms(6)]
      by (auto simp: alloc_and_get_val_def retrieve_val_def opt_val_queue value_for_def set_val_def es_malloc_def set_node_def ask_val_def)
  next
    case (Cons x xs)
    then obtain s where s: "x = Live s" "s \<notin> rc_words" using queue_words [OF assms(4,5), of x] by auto
    then have "s \<noteq> bytes_of_string ''(null)''" by (auto simp: rc_words_def null_text_def)
    then show ?thesis
      using Cons s(1) assms(1,3,7) n c
      by (auto simp: alloc_and_get_val_def retrieve_val_def opt_val_queue value_for_def set_val_def es_malloc_def set_node_def)
  qed
qed

lemma clear_val [simp]: "pn_val n = None \<Longrightarrow> n\<lparr>pn_val := None\<rparr> = n"
  by (cases n) simp

lemma config_value: "config_node n a d t f m \<Longrightarrow> value_node n a d"
  by (simp add: config_node_def)

lemma es_malloc_nil: "es_mem st = [] \<Longrightarrow> es_malloc st = (True, st)"
  by (cases st) (simp add: es_malloc_def)

text \<open>One node: its callback takes the value and changes \<open>*foo\<close>.\<close>

lemma config_step:
  assumes conf: "configuring e nvps fo ctx v st" "provider_options nvps"
    and node: "k < 6" "n = pkcs11h_provider_param_nodes ! k" "config_node n a d t f m"
    and opts: "a \<in> set rc_names" "d \<in> {None, Some [], Some ''0'', Some ''1''}" "t \<in> {''name'', ''library'', ''default''}"
    and w: "value_for a d nvps = w" "w \<noteq> None \<or> v = 0"
    and call: "\<And>st1. es_graph st1 k = Some (n\<lparr>pn_val := w\<rparr>) \<Longrightarrow> es_foo st1 = fo \<Longrightarrow> es_mem st1 = [] \<Longrightarrow>
      call f k st1 = Some (DEFAULT_TOK, set_node k n (st1\<lparr>es_foo := fo'\<rparr>))"
  shows "\<exists>st'. (\<forall>fuel. eval_loop call (Suc fuel) k st = eval_loop call fuel m st')
    \<and> configuring e (mark_opt (bytes_of_string a) nvps) fo' ctx v st'"
proof -
  let ?nvps = "mark_opt (bytes_of_string a) nvps"
  note c = conf(1) [unfolded configuring_def]
  have n: "es_graph st k = Some n" "pn_val n = None" using c node(1,2) prov_graph_nodes by simp_all
  have tl: "pn_tl n = [plain_tn t m f]" "value_node n a d" using node(3) by (simp_all add: config_node_def)
  define st1 where "st1 = st\<lparr>es_nvps := ?nvps, es_graph := (prov_graph e)(k \<mapsto> n\<lparr>pn_val := w\<rparr>)\<rparr>"
  have g: "(prov_graph e)(k \<mapsto> n) = prov_graph e" using n(1) c by auto
  have "(es_graph st)(k \<mapsto> n\<lparr>pn_val := w\<rparr>) = (prov_graph e)(k \<mapsto> n\<lparr>pn_val := w\<rparr>)" using c by simp
  moreover have "st\<lparr>es_nvps := ?nvps\<rparr> = st1" if "w = None" using that n(2) g c by (cases st) (simp add: st1_def)
  ultimately have al: "alloc_and_get_val k st = Some (0, st1)"
    using alloc_config [OF n(1) tl(2) n(2) _ opts(1,2)] w c conf(2) by (auto simp: st1_def split: option.splits)
  define st2 where "st2 = set_node k n ((entered k st1)\<lparr>es_foo := fo'\<rparr>)"
  have g1: "es_graph st1 k = Some (n\<lparr>pn_val := w\<rparr>)" "pn_tl (n\<lparr>pn_val := w\<rparr>) = [plain_tn t m f]" using tl(1) by (simp_all add: st1_def)
  have cl: "call f k (entered k st1) = Some (DEFAULT_TOK, st2)"
    unfolding st2_def by (rule call) (use c in \<open>simp_all add: st1_def entered_def\<close>)
  have g2: "es_graph st2 k = Some n" by (simp add: st2_def set_node_def)
  have o: "provider_options (es_nvps st1)" using conf(2) by (simp add: st1_def)
  have "x \<notin> rc_words" if "w = Some x" for x using value_for_words [OF conf(2) opts(1) _ opts(2)] w(1) that by blast
  then have wt: "pn_val (n\<lparr>pn_val := w\<rparr>) \<noteq> Some (bytes_of_string t)" using opts(3) by (auto simp: rc_words_def)
  have tr: "do_transition call k st1 = Some ((0, Some m), st2)"
  proof (cases "t = ''default''")
    case True
    show ?thesis
      by (rule do_transition_default [where call = call and f = f, OF g1 _ _ _ _ _ cl _ _ _ _ g2 tl(1)]) (use True wt o in \<open>simp_all add: entered_def provider_options_def\<close>)
  next
    case False
    then have "Live (bytes_of_string t) \<in> nv_name ` set (es_nvps st1)" using o opts(3) by (auto simp: provider_options_def)
    then show ?thesis
      by (intro do_transition_named [where call = call and f = f, OF g1 _ _ _ _ wt cl g2 tl(1)]) (use o in \<open>simp_all add: provider_options_def\<close>)
  qed
  have "configuring e ?nvps fo' ctx v st2"
    using c g by (simp add: configuring_def st2_def st1_def set_node_def entered_def)
  then show ?thesis using eval_loop_step [OF al tr] by blast
qed

text \<open>The last node hands the provider over; its own value stays.\<close>

definition add_provider :: "('r, 'i, 'c, 'x) p11_env \<Rightarrow> pkcs11h_provider \<Rightarrow> pkcs11h_provider list \<Rightarrow> pkcs11h_provider list" where
  "add_provider env q ps = (if pk_add_provider env ps q then ps @ [q] else ps)"

definition with_providers :: "(pkcs11h_provider list \<Rightarrow> pkcs11h_provider list) \<Rightarrow> ('tn, 'k) p11_lib \<Rightarrow> ('tn, 'k) p11_lib" where
  "with_providers f ctx = ctx\<lparr>px_state := (px_state ctx)\<lparr>p11_providers := f (p11_providers (px_state ctx))\<rparr>\<rparr>"

definition handed_over :: "pkcs11h_provider \<Rightarrow> pkcs11h_provider" where
  "handed_over p = p\<lparr>pv_allow_protected_authentication := of_bool (pv_allow_protected_authentication p \<noteq> 0),
     pv_certificate_is_private := of_bool (pv_certificate_is_private p \<noteq> 0)\<rparr>"

lemma provider_end_call:
  assumes "es_foo st = Some (P11_Provider p)"
  shows "tf_pkcs11h_provider_end env k st
    = Some (DEFAULT_TOK, st\<lparr>es_foo := None, es_ctx := with_providers (add_provider env (handed_over p)) (es_ctx st)\<rparr>)"
proof -
  have "s\<lparr>p11_providers := p11_providers s\<rparr> = s" for s :: p11_state by (cases s) simp
  then show ?thesis
    using assms
    by (simp add: tf_pkcs11h_provider_end_def provider_of_def handed_over_def map_p11_def with_providers_def add_provider_def Let_def)
qed

lemma end_step:
  assumes conf: "configuring e nvps (Some (P11_Provider p)) ctx v st" "provider_options nvps" "e \<noteq> Some (bytes_of_string ''default'')"
  shows "\<exists>st' e' nvps'. (\<forall>fuel. eval_loop (p11_call env kr b) (Suc fuel) 6 st = eval_loop (p11_call env kr b) fuel 0 st')
    \<and> configuring e' nvps' None (with_providers (add_provider env (handed_over p)) ctx) v st'
    \<and> e' \<noteq> Some (bytes_of_string ''default'') \<and> nvps' \<in> {nvps, mark_opt (bytes_of_string ''dummy'') nvps}"
proof -
  let ?n = "pkcs11h_provider_param_nodes ! 6"
  note c = conf(1) [unfolded configuring_def]
  have n: "es_graph st 6 = Some (?n\<lparr>pn_val := e\<rparr>)" using c by (simp add: prov_graph_nodes)
  have upd: "(prov_graph e)(6 \<mapsto> ?n\<lparr>pn_val := x\<rparr>) = prov_graph x" for x by (simp add: prov_graph_def)
  have "\<exists>e' st1. alloc_and_get_val 6 st = Some (0, st1) \<and> e' \<noteq> Some (bytes_of_string ''default'') \<and> es_graph st1 = prov_graph e'
    \<and> st1\<lparr>es_graph := es_graph st, es_nvps := nvps\<rparr> = st \<and> es_nvps st1 \<in> {nvps, mark_opt (bytes_of_string ''dummy'') nvps}"
  proof (cases e)
    case None
    obtain w where w: "value_for ''dummy'' (Some []) nvps = Some w"
      using conf(2) by (fastforce simp: value_for_def dest: queue_words [where a = "''dummy''"] split: list.splits heap_ptr.splits)
    have "w \<notin> rc_words" by (rule value_for_words [OF conf(2) _ w]) (simp_all add: rc_names_def)
    then show ?thesis
      using alloc_config [OF n config_nodes(7) [THEN config_value]] None c w conf(2) upd [of "Some w"]
      by (cases st) (auto simp: rc_names_def rc_words_def)
  next
    case (Some x)
    then show ?thesis using n c conf(3) by (intro exI [of _ e] exI [of _ st]) (auto simp: alloc_and_get_val_def)
  qed
  then obtain e' st1 where a: "alloc_and_get_val 6 st = Some (0, st1)" "e' \<noteq> Some (bytes_of_string ''default'')" "es_graph st1 = prov_graph e'"
    "st1\<lparr>es_graph := es_graph st, es_nvps := nvps\<rparr> = st" "es_nvps st1 \<in> {nvps, mark_opt (bytes_of_string ''dummy'') nvps}" by blast
  have f: "es_foo st1 = es_foo st" "es_ctx st1 = es_ctx st" "es_verbosity st1 = es_verbosity st" "es_get_string st1 = es_get_string st" "es_mem st1 = es_mem st"
    using a(4) by (metis eval_state.select_convs eval_state.surjective eval_state.update_convs)+
  let ?st2 = "(entered 6 st1)\<lparr>es_foo := None, es_ctx := with_providers (add_provider env (handed_over p)) ctx\<rparr>"
  have n1: "es_graph st1 6 = Some (?n\<lparr>pn_val := e'\<rparr>)" by (simp add: a(3) prov_graph_nodes)
  have tl: "pn_tl (?n\<lparr>pn_val := e'\<rparr>) = [plain_tn ''default'' 0 Tf_Provider_End]" using config_nodes(7) by (simp add: config_node_def)
  have cl: "p11_call env kr b Tf_Provider_End 6 (entered 6 st1) = Some (DEFAULT_TOK, ?st2)"
    using provider_end_call [of "entered 6 st1" p env 6] c f by (simp add: entered_def)
  have n2: "es_graph ?st2 6 = Some (?n\<lparr>pn_val := e'\<rparr>)" using n1 by simp
  have o: "provider_options (es_nvps st1)" using a(5) conf(2) by auto
  have "do_transition (p11_call env kr b) 6 st1 = Some ((0, Some 0), ?st2)"
    by (rule do_transition_default [where call = "p11_call env kr b" and f = Tf_Provider_End, OF n1 tl _ _ _ _ _ cl _ _ _ _ n2 tl]) (use a(2) o in \<open>simp_all add: entered_def provider_options_def\<close>)
  moreover have "configuring e' (es_nvps st1) None (with_providers (add_provider env (handed_over p)) ctx) v ?st2"
    using c f a(3) by (simp add: configuring_def entered_def)
  ultimately show ?thesis using eval_loop_step [OF a(1)] a(2,5) by blast
qed

lemma provider_calls:
  assumes "es_graph st k = Some (n\<lparr>pn_val := w\<rparr>)" "pn_val n = None" "es_mem st = []"
  shows "tf_pkcs11h_provider k st = Some (DEFAULT_TOK, set_node k n (st\<lparr>es_foo := Some (P11_Provider zero_provider)\<rparr>))"
    and "es_foo st = Some (P11_Provider p) \<Longrightarrow>
      copy_to_provider f k st = Some (DEFAULT_TOK, set_node k n (st\<lparr>es_foo := Some (P11_Provider (f (printed w) p))\<rparr>))"
    and "es_foo st = Some (P11_Provider p) \<Longrightarrow> w = Some s \<Longrightarrow>
      scan_to_provider f k st = Some (DEFAULT_TOK, set_node k n (st\<lparr>es_foo := Some (P11_Provider (f s p))\<rparr>))"
  using assms
  by (simp_all add: tf_pkcs11h_provider_def copy_to_provider_def scan_to_provider_def taken_def provider_of_def es_malloc_nil)

lemma scanned_value:
  assumes "provider_options nvps" "a \<in> set rc_names"
  obtains w where "value_for a (Some d) nvps = Some w"
proof (cases "queue (bytes_of_string a) nvps")
  case (Cons x xs)
  then show thesis using that queue_words [OF assms, of x] by (auto simp: value_for_def)
qed (use that in \<open>simp add: value_for_def\<close>)

text \<open>
  What a round reads for the provider: its name and its library, which may be missing when nobody
  is asked, and the three settings.
\<close>

definition next_provider :: "nv_list \<Rightarrow> pkcs11h_provider" where
  "next_provider nvps = handed_over \<lparr>pv_name = Some (printed (value_for ''name'' None nvps)),
     pv_library = Some (printed (value_for ''library'' None nvps)),
     pv_allow_protected_authentication = sscanf_x (the (value_for ''allow-protected-auth'' (Some ''1'') nvps)) 0,
     pv_certificate_is_private = sscanf_x (the (value_for ''cert-private'' (Some ''0'') nvps)) 0,
     pv_private_mask = sscanf_x (the (value_for ''private-mask'' (Some ''0'') nvps)) 0\<rparr>"

definition setting_names :: "string list" where
  "setting_names = [''name'', ''library'', ''allow-protected-auth'', ''cert-private'', ''private-mask'']"

lemma value_for_mark [simp]: "a \<noteq> b \<Longrightarrow> value_for a d (mark_opt (bytes_of_string b) nvps) = value_for a d nvps"
  by (simp add: value_for_def)

definition leads :: "('f, 'foo, 's) calls \<Rightarrow> nat \<Rightarrow> ('f, 'foo, 's) eval_state \<Rightarrow> nat \<Rightarrow> ('f, 'foo, 's) eval_state \<Rightarrow> bool" where
  "leads call k st m st' \<longleftrightarrow> (\<forall>fuel. eval_loop call (Suc fuel) k st = eval_loop call fuel m st')"

lemma to_name:
  assumes "configuring e nvps fo ctx v st" "provider_options nvps"
  shows "\<exists>st'. leads (p11_call env kr b) 0 st 1 st'
    \<and> configuring e (mark_opt (bytes_of_string ''pkcs11-provider'') nvps) (Some (P11_Provider zero_provider)) ctx v st'"
proof -
  obtain w where w: "value_for ''pkcs11-provider'' (Some []) nvps = Some w"
    using scanned_value [OF assms(2), of "''pkcs11-provider''"] by (auto simp: rc_names_def)
  show ?thesis
    unfolding leads_def
    by (rule config_step [OF assms _ refl config_nodes(1) _ _ _ w])
      (auto simp: rc_names_def provider_calls(1) [OF _ prov_graph_nodes(2)])
qed

lemma to_library:
  assumes "configuring e nvps (Some (P11_Provider p)) ctx v st" "provider_options nvps" "value_for ''name'' None nvps \<noteq> None \<or> v = 0"
  shows "\<exists>st'. leads (p11_call env kr b) 1 st 2 st'
    \<and> configuring e (mark_opt (bytes_of_string ''name'') nvps) (Some (P11_Provider (p\<lparr>pv_name := Some (printed (value_for ''name'' None nvps))\<rparr>))) ctx v st'"
  unfolding leads_def
  by (rule config_step [OF assms(1,2) _ refl config_nodes(2) _ _ _ refl assms(3)])
    (auto simp: rc_names_def tf_pkcs11h_provider_name_def provider_calls(2) [OF _ prov_graph_nodes(2)])

lemma to_settings:
  assumes "configuring e nvps (Some (P11_Provider p)) ctx v st" "provider_options nvps" "value_for ''library'' None nvps \<noteq> None \<or> v = 0"
  shows "\<exists>st'. leads (p11_call env kr b) 2 st 3 st'
    \<and> configuring e (mark_opt (bytes_of_string ''library'') nvps) (Some (P11_Provider (p\<lparr>pv_library := Some (printed (value_for ''library'' None nvps))\<rparr>))) ctx v st'"
  unfolding leads_def
  by (rule config_step [OF assms(1,2) _ refl config_nodes(3) _ _ _ refl assms(3)])
    (auto simp: rc_names_def tf_pkcs11h_provider_library_def provider_calls(2) [OF _ prov_graph_nodes(2)])

text \<open>The three settings are read alike.\<close>

lemma setting_step:
  fixes st :: "(p11_fn, 'tn, 'k) p11_eval"
  assumes "configuring e nvps (Some (P11_Provider p)) ctx v st" "provider_options nvps" "a \<in> set rc_names" "d \<in> {''0'', ''1''}"
    and "k < 6" "config_node (pkcs11h_provider_param_nodes ! k) a (Some d) ''default'' f m" "\<And>st :: (p11_fn, 'tn, 'k) p11_eval. p11_call env kr b f k st = scan_to_provider g k st"
  shows "\<exists>st'. leads (p11_call env kr b) k st m st'
    \<and> configuring e (mark_opt (bytes_of_string a) nvps) (Some (P11_Provider (g (the (value_for a (Some d) nvps)) p))) ctx v st'"
proof -
  obtain w where w: "value_for a (Some d) nvps = Some w" using scanned_value [OF assms(2,3)] by blast
  show ?thesis
    unfolding leads_def
    by (rule config_step [OF assms(1,2,5) refl assms(6,3) _ _ w])
      (use assms(4,5) w in \<open>auto simp: assms(7) provider_calls(3) [OF _ prov_graph_nodes(2)]\<close>)
qed

lemmas setting_steps =
  setting_step [where k = 3, OF _ _ _ _ _ config_nodes(4)] setting_step [where k = 4, OF _ _ _ _ _ config_nodes(5)]
  setting_step [where k = 5, OF _ _ _ _ _ config_nodes(6)]

lemma setting_calls:
  "p11_call env kr b Tf_Provider_Prot_Auth k st
     = scan_to_provider (\<lambda>v p. p\<lparr>pv_allow_protected_authentication := sscanf_x v (pv_allow_protected_authentication p)\<rparr>) k st"
  "p11_call env kr b Tf_Provider_Cert_Private k st
     = scan_to_provider (\<lambda>v p. p\<lparr>pv_certificate_is_private := sscanf_x v (pv_certificate_is_private p)\<rparr>) k st"
  "p11_call env kr b Tf_Provider_Private_Mask k st = scan_to_provider (\<lambda>v p. p\<lparr>pv_private_mask := sscanf_x v (pv_private_mask p)\<rparr>) k st"
  by (simp_all add: tf_pkcs11h_provider_prot_auth_def tf_pkcs11h_provider_cert_private_def tf_pkcs11h_provider_private_mask_def)

text \<open>
  One round: the provider is handed over, and each of its options has given one value. Fuel for
  seven nodes is used up.
\<close>

lemma config_round:
  assumes "configuring e nvps fo ctx v st" "provider_options nvps" "e \<noteq> Some (bytes_of_string ''default'')"
    and "v = 0 \<or> value_for ''name'' None nvps \<noteq> None \<and> value_for ''library'' None nvps \<noteq> None"
  shows "\<exists>st' e' nvps'. (\<forall>fuel. eval_loop (p11_call env kr b) (fuel + 7) 0 st = eval_loop (p11_call env kr b) fuel 0 st')
    \<and> configuring e' nvps' None (with_providers (add_provider env (next_provider nvps)) ctx) v st'
    \<and> e' \<noteq> Some (bytes_of_string ''default'') \<and> provider_options nvps'
    \<and> (\<forall>a \<in> set setting_names. queue (bytes_of_string a) nvps' = tl (queue (bytes_of_string a) nvps))"
proof -
  let ?m = "\<lambda>a. mark_opt (bytes_of_string a)" and ?c = "p11_call env kr b"
  let ?n0 = "?m ''pkcs11-provider'' nvps" let ?n1 = "?m ''name'' ?n0" let ?n2 = "?m ''library'' ?n1"
  let ?n3 = "?m ''allow-protected-auth'' ?n2" let ?n4 = "?m ''cert-private'' ?n3" let ?n5 = "?m ''private-mask'' ?n4"
  have v: "value_for ''name'' None ?n0 = value_for ''name'' None nvps" "value_for ''library'' None ?n1 = value_for ''library'' None nvps"
    "value_for ''allow-protected-auth'' d ?n2 = value_for ''allow-protected-auth'' d nvps"
    "value_for ''cert-private'' d ?n3 = value_for ''cert-private'' d nvps" "value_for ''private-mask'' d ?n4 = value_for ''private-mask'' d nvps" for d
    by simp_all
  obtain s1 where 1: "leads ?c 0 st 1 s1" "configuring e ?n0 (Some (P11_Provider zero_provider)) ctx v s1"
    using to_name [OF assms(1,2)] by blast
  obtain s2 where 2: "leads ?c 1 s1 2 s2"
    "configuring e ?n1 (Some (P11_Provider (zero_provider\<lparr>pv_name := Some (printed (value_for ''name'' None nvps))\<rparr>))) ctx v s2"
    using to_library [OF 1(2), of env kr b] assms(2,4) unfolding v by auto
  obtain s3 p3 where 3: "leads ?c 2 s2 3 s3" "configuring e ?n2 (Some (P11_Provider p3)) ctx v s3"
    "p3 = zero_provider\<lparr>pv_name := Some (printed (value_for ''name'' None nvps)), pv_library := Some (printed (value_for ''library'' None nvps))\<rparr>"
    using to_settings [OF 2(2), of env kr b] assms(2,4) unfolding v by auto
  obtain s4 p4 where 4: "leads ?c 3 s3 4 s4" "configuring e ?n3 (Some (P11_Provider p4)) ctx v s4"
    "p4 = p3\<lparr>pv_allow_protected_authentication := sscanf_x (the (value_for ''allow-protected-auth'' (Some ''1'') nvps)) (pv_allow_protected_authentication p3)\<rparr>"
    using setting_steps(1) [OF 3(2) _ _ _ _ setting_calls(1) [of env kr b]] assms(2) unfolding v by (auto simp: rc_names_def)
  obtain s5 p5 where 5: "leads ?c 4 s4 5 s5" "configuring e ?n4 (Some (P11_Provider p5)) ctx v s5"
    "p5 = p4\<lparr>pv_certificate_is_private := sscanf_x (the (value_for ''cert-private'' (Some ''0'') nvps)) (pv_certificate_is_private p4)\<rparr>"
    using setting_steps(2) [OF 4(2) _ _ _ _ setting_calls(2) [of env kr b]] assms(2) unfolding v by (auto simp: rc_names_def)
  obtain s6 p6 where 6: "leads ?c 5 s5 6 s6" "configuring e ?n5 (Some (P11_Provider p6)) ctx v s6"
    "p6 = p5\<lparr>pv_private_mask := sscanf_x (the (value_for ''private-mask'' (Some ''0'') nvps)) (pv_private_mask p5)\<rparr>"
    using setting_steps(3) [OF 5(2) _ _ _ _ setting_calls(3) [of env kr b]] assms(2) unfolding v by (auto simp: rc_names_def)
  have "handed_over p6 = next_provider nvps"
    by (simp add: next_provider_def 3(3) 4(3) 5(3) 6(3) zero_provider_def)
  then obtain s7 e' nvps' where 7: "leads ?c 6 s6 0 s7"
    "configuring e' nvps' None (with_providers (add_provider env (next_provider nvps)) ctx) v s7"
    "e' \<noteq> Some (bytes_of_string ''default'')" "nvps' \<in> {?n5, ?m ''dummy'' ?n5}"
    using end_step [OF 6(2) _ assms(3), of env kr b] assms(2) unfolding leads_def by auto
  have "eval_loop ?c (fuel + 7) 0 st = eval_loop ?c fuel 0 s7" for fuel
    using 1(1) 2(1) 3(1) 4(1) 5(1) 6(1) 7(1) unfolding leads_def
    by (simp add: numeral_eq_Suc)
  moreover have "provider_options nvps'" using 7(4) assms(2) by auto
  moreover have "\<forall>a \<in> set setting_names. queue (bytes_of_string a) nvps' = tl (queue (bytes_of_string a) nvps)"
    using 7(4) by (auto simp: setting_names_def)
  ultimately show ?thesis using 7(2,3) by blast
qed

subsection \<open>The providers of the configuration\<close>

text \<open>
  The specification: the provider number \<open>i\<close> has the value number \<open>i\<close> of each option, or the default
  when there are fewer values.
\<close>

definition nth_value :: "string \<Rightarrow> string option \<Rightarrow> nv_list \<Rightarrow> nat \<Rightarrow> byte list option" where
  "nth_value a d nvps i =
     (let q = queue (bytes_of_string a) nvps
      in if i < length q then (case q ! i of Live s \<Rightarrow> Some s | _ \<Rightarrow> None) else map_option bytes_of_string d)"

definition provider_at :: "nv_list \<Rightarrow> nat \<Rightarrow> pkcs11h_provider" where
  "provider_at nvps i = handed_over \<lparr>pv_name = Some (printed (nth_value ''name'' None nvps i)),
     pv_library = Some (printed (nth_value ''library'' None nvps i)),
     pv_allow_protected_authentication = sscanf_x (the (nth_value ''allow-protected-auth'' (Some ''1'') nvps i)) 0,
     pv_certificate_is_private = sscanf_x (the (nth_value ''cert-private'' (Some ''0'') nvps i)) 0,
     pv_private_mask = sscanf_x (the (nth_value ''private-mask'' (Some ''0'') nvps i)) 0\<rparr>"

definition provider_count :: "nv_list \<Rightarrow> nat" where
  "provider_count nvps = min (length (queue (bytes_of_string ''name'') nvps)) (length (queue (bytes_of_string ''library'') nvps))"

definition configured :: "nv_list \<Rightarrow> pkcs11h_provider list" where
  "configured nvps = map (provider_at nvps) [0..<provider_count nvps]"

lemma nth_value_0: "provider_options nvps \<Longrightarrow> a \<in> set rc_names \<Longrightarrow> nth_value a d nvps 0 = value_for a d nvps"
  using queue_words [of nvps a] by (cases "queue (bytes_of_string a) nvps") (force simp: nth_value_def value_for_def)+

lemma nth_value_Suc:
  "queue (bytes_of_string a) nvps' = tl (queue (bytes_of_string a) nvps) \<Longrightarrow> nth_value a d nvps' i = nth_value a d nvps (Suc i)"
  by (auto simp: nth_value_def Let_def nth_tl)

lemma provider_at_0: "provider_options nvps \<Longrightarrow> provider_at nvps 0 = next_provider nvps"
  by (simp add: provider_at_def next_provider_def nth_value_0 rc_names_def)

lemma provider_at_Suc:
  assumes "\<forall>a \<in> set setting_names. queue (bytes_of_string a) nvps' = tl (queue (bytes_of_string a) nvps)"
  shows "provider_at nvps' i = provider_at nvps (Suc i)"
proof -
  have "nth_value a d nvps' i = nth_value a d nvps (Suc i)" if "a \<in> set setting_names" for a d using that assms nth_value_Suc by blast
  then show ?thesis by (simp add: provider_at_def setting_names_def)
qed

lemma configured_round:
  assumes "provider_options nvps" "\<forall>a \<in> set setting_names. queue (bytes_of_string a) nvps' = tl (queue (bytes_of_string a) nvps)"
    and "provider_count nvps = Suc c"
  shows "configured nvps = next_provider nvps # configured nvps'" "provider_count nvps' = c"
proof -
  show c: "provider_count nvps' = c" using assms(2,3) by (simp add: provider_count_def setting_names_def)
  have "map (provider_at nvps) [0..<Suc c] = provider_at nvps 0 # map (\<lambda>i. provider_at nvps (Suc i)) [0..<c]"
    by (simp add: upt_conv_Cons map_Suc_upt [symmetric] del: upt_Suc)
  then show "configured nvps = next_provider nvps # configured nvps'"
    unfolding configured_def c assms(3) using provider_at_0 [OF assms(1)] provider_at_Suc [OF assms(2)] by simp
qed

lemma value_for_none: "provider_options nvps \<Longrightarrow> a \<in> set rc_names \<Longrightarrow> value_for a None nvps = None \<longleftrightarrow> queue (bytes_of_string a) nvps = []"
  using queue_words [of nvps a] by (cases "queue (bytes_of_string a) nvps") (force simp: value_for_def)+

text \<open>With nobody to ask, a missing name or library ends the evaluation.\<close>

lemma config_stop:
  assumes "configuring e nvps fo ctx v st" "provider_options nvps" "v \<noteq> 0" "k < 6" "config_node (pkcs11h_provider_param_nodes ! k) a None t f m"
    and "a \<in> set rc_names" "value_for a None nvps = None"
  shows "eval_loop call (Suc fuel) k st = Some (Some (MOUNT_ERROR, st\<lparr>es_nvps := mark_opt (bytes_of_string a) nvps\<rparr>))"
proof -
  note c = assms(1) [unfolded configuring_def]
  have "es_graph st k = Some (pkcs11h_provider_param_nodes ! k)" using c prov_graph_nodes(1) [OF assms(4)] by simp
  then have "alloc_and_get_val k st = Some (MOUNT_ERROR, st\<lparr>es_nvps := mark_opt (bytes_of_string a) nvps\<rparr>)"
    using alloc_config [OF _ config_value [OF assms(5)] prov_graph_nodes(2) [OF assms(4)] _ assms(6), of st k] c assms(2,3,7) by simp
  then show ?thesis by (simp add: eval_loop.simps)
qed

lemma with_providers_comp [simp]: "with_providers f (with_providers g ctx) = with_providers (f \<circ> g) ctx"
  by (simp add: with_providers_def)

lemma with_providers_id [simp]: "with_providers (\<lambda>x. x) ctx = ctx"
  by (cases ctx) (simp add: with_providers_def)

lemma config_loop:
  assumes "configuring e nvps fo ctx v st" "provider_options nvps" "e \<noteq> Some (bytes_of_string ''default'')" "v \<noteq> 0"
    and "7 * provider_count nvps + 3 \<le> fuel"
  shows "\<exists>st'. eval_loop (p11_call env kr b) fuel 0 st = Some (Some (MOUNT_ERROR, st'))
    \<and> es_ctx st' = with_providers (fold (add_provider env) (configured nvps)) ctx \<and> es_mem st' = []"
  using assms
proof (induction "provider_count nvps" arbitrary: e nvps fo ctx st fuel)
  case 0
  let ?n0 = "mark_opt (bytes_of_string ''pkcs11-provider'') nvps"
  have r: "''name'' \<in> set rc_names" "''library'' \<in> set rc_names" by (simp_all add: rc_names_def)
  obtain f where f: "fuel = Suc (Suc (Suc f))" using "0.prems"(5) by (metis add_leD2 le_Suc_ex numeral_3_eq_3 plus_nat.simps(2) add_0)
  obtain s1 where 1: "leads (p11_call env kr b) 0 st 1 s1" "configuring e ?n0 (Some (P11_Provider zero_provider)) ctx v s1"
    using to_name [OF "0.prems"(1,2)] by blast
  have o: "provider_options ?n0" using "0.prems"(2) by simp
  have c0: "configured nvps = []" using 0 by (simp add: configured_def)
  show ?case
  proof (cases "value_for ''name'' None nvps")
    case None
    have "eval_loop (p11_call env kr b) (Suc (Suc f)) 1 s1 = Some (Some (MOUNT_ERROR, s1\<lparr>es_nvps := mark_opt (bytes_of_string ''name'') ?n0\<rparr>))"
      by (rule config_stop [OF 1(2) o "0.prems"(4) _ config_nodes(2) r(1)]) (use None in simp_all)
    then show ?thesis using 1 f c0 by (simp add: leads_def configuring_def)
  next
    case (Some w)
    then have lib: "value_for ''library'' None nvps = None"
      using value_for_none [OF "0.prems"(2) r(1)] value_for_none [OF "0.prems"(2) r(2)] 0(1) by (auto simp: provider_count_def min_def split: if_splits)
    obtain s2 p where 2: "leads (p11_call env kr b) 1 s1 2 s2" "configuring e (mark_opt (bytes_of_string ''name'') ?n0) (Some (P11_Provider p)) ctx v s2"
      using to_library [OF 1(2) o, of env kr b] Some by auto
    have "eval_loop (p11_call env kr b) (Suc f) 2 s2
        = Some (Some (MOUNT_ERROR, s2\<lparr>es_nvps := mark_opt (bytes_of_string ''library'') (mark_opt (bytes_of_string ''name'') ?n0)\<rparr>))"
      by (rule config_stop [OF 2(2) _ "0.prems"(4) _ config_nodes(3) r(2)]) (use lib o in simp_all)
    then show ?thesis using 1 2 f c0 by (simp add: leads_def configuring_def)
  qed
next
  case (Suc c)
  have r: "''name'' \<in> set rc_names" "''library'' \<in> set rc_names" by (simp_all add: rc_names_def)
  have v: "value_for ''name'' None nvps \<noteq> None \<and> value_for ''library'' None nvps \<noteq> None"
    using value_for_none [OF Suc.prems(2) r(1)] value_for_none [OF Suc.prems(2) r(2)] Suc(2) by (auto simp: provider_count_def)
  obtain st' e' nvps' where s: "\<forall>fuel. eval_loop (p11_call env kr b) (fuel + 7) 0 st = eval_loop (p11_call env kr b) fuel 0 st'"
    "configuring e' nvps' None (with_providers (add_provider env (next_provider nvps)) ctx) v st'" "e' \<noteq> Some (bytes_of_string ''default'')"
    "provider_options nvps'" "\<forall>a \<in> set setting_names. queue (bytes_of_string a) nvps' = tl (queue (bytes_of_string a) nvps)"
    using config_round [OF Suc.prems(1-3) disjI2 [OF v], of env kr b] by blast
  note cf = configured_round [OF Suc.prems(2) s(5) Suc(2) [symmetric]]
  obtain f where f: "fuel = f + 7" "7 * provider_count nvps' + 3 \<le> f"
    using Suc.prems(5) Suc(2) cf(2) by (intro that [of "fuel - 7"]) auto
  show ?case using Suc.hyps(1) [OF cf(2) [symmetric] s(2,4,3) Suc.prems(4) f(2)] s(1) f(1) cf(1) by simp
qed

subsection \<open>Loading the module\<close>

definition with_log_level :: "int \<Rightarrow> ('tn, 'k) p11_lib \<Rightarrow> ('tn, 'k) p11_lib" where
  "with_log_level l ctx = ctx\<lparr>px_state := (px_state ctx)\<lparr>p11_log_level := l\<rparr>\<rparr>"

text \<open>
  The first node of the global options has no successor, so its transition ends the evaluation with
  an error, which is not looked at; the second node is never reached.
\<close>

lemma global_step:
  assumes "provider_options nvps" "value_for ''pkcs11-log-level'' (Some ''0'') nvps = Some w"
  shows "\<exists>rc st'. ecryptfs_eval_decision_graph (p11_call env kr b) (Suc fuel) 0 (p11_start pkcs11h_global_param_nodes nvps ctx [])
      = (if get_verbosity nvps = None then None else Some (Some (rc, st')))
    \<and> es_ctx st' = with_log_level (c_atoi w) (ctx\<lparr>lc_key_mods := []\<rparr>) \<and> es_mem st' = []"
proof (cases "get_verbosity nvps")
  case (Some v)
  let ?n = "pkcs11h_global_param_nodes ! 0" and ?nvps = "mark_opt (bytes_of_string ''pkcs11-log-level'') nvps" and ?tn = "last_tn Tf_Global_Loglevel"
  define st where "st = (p11_start pkcs11h_global_param_nodes nvps ctx [])\<lparr>es_mnt_params := [None], es_foo := None, es_verbosity := v\<rparr>"
  define st1 where "st1 = st\<lparr>es_nvps := ?nvps, es_graph := (es_graph st)(0 \<mapsto> ?n\<lparr>pn_val := Some w\<rparr>)\<rparr>"
  have n: "es_graph st 0 = Some ?n" "pn_val ?n = None" "pn_tl ?n = [?tn]" "value_node ?n ''pkcs11-log-level'' (Some ''0'')"
    by (simp_all add: st_def p11_start_def graph_of_def pkcs11h_global_param_nodes_def mk_node_def value_node_def has_flag_def)
  have "alloc_and_get_val 0 st = Some (0, st1)"
    using alloc_config [OF n(1,4,2)] assms by (simp add: st1_def st_def p11_start_def rc_names_def)
  moreover define st2 where "st2 = set_node 0 ?n ((entered 0 st1)\<lparr>es_ctx := with_log_level (c_atoi w) (es_ctx st1)\<rparr>)"
  have tn: "tn_val ?tn = None" "tn_next_token ?tn = None" "tn_trans_func ?tn = Some Tf_Global_Loglevel" by (simp_all add: last_tn_def zero_tn_def)
  have g1: "es_graph (entered 0 st1) 0 = Some (?n\<lparr>pn_val := Some w\<rparr>)" by (simp add: st1_def)
  have t1: "trans_at 0 0 (entered 0 st1) = Some ?tn" using g1 n(3) by (simp add: trans_at_def)
  have t2: "trans_at 0 0 st2 = Some ?tn" using n(3) by (simp add: trans_at_def st2_def set_node_def)
  have cl: "p11_call env kr b Tf_Global_Loglevel 0 (entered 0 st1) = Some (DEFAULT_TOK, st2)"
    using g1 n(2) by (simp add: tf_pkcs11h_global_loglevel_def taken_def map_p11_def st2_def with_log_level_def)
  obtain p ps where ps: "es_nvps (entered 0 st1) = p # ps"
    using assms(1) by (cases "es_nvps (entered 0 st1)") (auto simp: st1_def provider_options_def dest!: arg_cong [where f = "\<lambda>x. nv_name ` set x"])
  have "trans_nvps (p11_call env kr b) 0 0 (es_nvps (entered 0 st1)) (entered 0 st1) = Some (Some (- EINVAL, None), st2)"
    unfolding ps using t1 t2 tn cl by (simp add: run_trans_def)
  then have "trans_first (p11_call env kr b) 0 [0..<MAX_NUM_TRANSITIONS] (entered 0 st1) = Some (Some (- EINVAL, None), st2)"
    unfolding slots_64 using g1 n(3) tn by (simp add: Let_def)
  moreover have "(if es_lastnode st1 \<noteq> Some 0 then st1\<lparr>es_repeated := 0\<rparr> else st1)\<lparr>es_lastnode := Some 0\<rparr> = entered 0 st1"
    by (cases st1) (auto simp: entered_def)
  ultimately have "eval_loop (p11_call env kr b) (Suc fuel) 0 st = Some (Some (- EINVAL, st2))"
    using eval_loop_stop [of 0 st st1 "p11_call env kr b" "- EINVAL" None st2 fuel] by (simp add: do_transition_def Let_def)
  then show ?thesis
    using Some
    by (simp add: ecryptfs_eval_decision_graph_def eval_param_tree_def p11_start_def st_def st2_def st1_def set_node_def)
qed (auto simp: ecryptfs_eval_decision_graph_def eval_param_tree_def p11_start_def with_log_level_def intro!: exI [of _ "st\<lparr>es_ctx := x, es_mem := []\<rparr>" for st x])

text \<open>The configuration file can be read and has these options.\<close>

definition reads_options :: "('r, 'i, 'c, 'x) p11_env \<Rightarrow> nv_list \<Rightarrow> bool" where
  "reads_options env nvps \<longleftrightarrow> (\<exists>home fd rc. pk_home env = Some home \<and> pk_open env (home @ ''/.ecryptfsrc.pkcs11'') = Inr fd
     \<and> parse_options_file (sl_junk (pk_ssl env)) fd [] [] = Some (rc, nvps, []))"

lemma parse_file_eval:
  assumes "reads_options env nvps"
  shows "ecryptfs_pkcs11h_parse_file env kr fuel nodes ctx [] = do {
     r \<leftarrow> ecryptfs_eval_decision_graph (p11_call env kr 0) fuel 0 (p11_start nodes nvps ctx []);
     Some (map_option (\<lambda>(_, st). (0, ctx\<lparr>px_state := px_state (es_ctx st)\<rparr>, es_mem st)) r) }"
  using assms by (auto simp: reads_options_def ecryptfs_pkcs11h_parse_file_def)

lemma p11_start_simps [simp]: "es_mnt_params (p11_start nodes nvps ctx mem) = [None]" "es_nvps (p11_start nodes nvps ctx mem) = nvps"
  by (simp_all add: p11_start_def)

lemma start_configuring:
  "configuring None nvps None (ctx\<lparr>lc_key_mods := []\<rparr>) v
     ((p11_start pkcs11h_provider_param_nodes nvps ctx [])\<lparr>es_mnt_params := [None], es_foo := None, es_verbosity := v\<rparr>)"
proof -
  have "prov_graph None = graph_of pkcs11h_provider_param_nodes"
    by (rule ext) (simp add: prov_graph_def graph_of_def pkcs11h_provider_param_nodes_def mk_node_def)
  then show ?thesis by (simp add: configuring_def p11_start_def)
qed

lemma parse_providers:
  assumes "reads_options env nvps" "provider_options nvps" "get_verbosity nvps = Some v" "v \<noteq> 0" "7 * provider_count nvps + 3 \<le> fuel"
  shows "ecryptfs_pkcs11h_parse_file env kr fuel pkcs11h_provider_param_nodes ctx []
    = Some (Some (0, with_providers (fold (add_provider env) (configured nvps)) ctx, []))"
proof -
  let ?st = "p11_start pkcs11h_provider_param_nodes nvps ctx []"
  obtain st' where s: "eval_loop (p11_call env kr 0) fuel 0 (?st\<lparr>es_mnt_params := [None], es_foo := None, es_verbosity := v\<rparr>) = Some (Some (MOUNT_ERROR, st'))"
    "es_ctx st' = with_providers (fold (add_provider env) (configured nvps)) (ctx\<lparr>lc_key_mods := []\<rparr>)" "es_mem st' = []"
    using config_loop [OF start_configuring [of nvps ctx] assms(2) _ assms(4,5), of env kr 0] by auto
  then have "ecryptfs_eval_decision_graph (p11_call env kr 0) fuel 0 ?st = Some (Some (MOUNT_ERROR, st'))"
    using assms(3) by (simp add: ecryptfs_eval_decision_graph_def eval_param_tree_def)
  then show ?thesis using s(2,3) by (simp add: parse_file_eval [OF assms(1)] with_providers_def)
qed

lemma parse_globals:
  assumes "reads_options env nvps" "provider_options nvps" "get_verbosity nvps = Some v" "0 < fuel"
  shows "ecryptfs_pkcs11h_parse_file env kr fuel pkcs11h_global_param_nodes ctx []
    = Some (Some (0, with_log_level (c_atoi (the (nth_value ''pkcs11-log-level'' (Some ''0'') nvps 0))) ctx, []))"
proof -
  have r: "''pkcs11-log-level'' \<in> set rc_names" by (simp add: rc_names_def)
  obtain w where w: "value_for ''pkcs11-log-level'' (Some ''0'') nvps = Some w" using scanned_value [OF assms(2) r] by blast
  obtain f where f: "fuel = Suc f" using assms(4) by (cases fuel) auto
  obtain rc st' where "ecryptfs_eval_decision_graph (p11_call env kr 0) fuel 0 (p11_start pkcs11h_global_param_nodes nvps ctx []) = Some (Some (rc, st'))"
    "es_ctx st' = with_log_level (c_atoi w) (ctx\<lparr>lc_key_mods := []\<rparr>)" "es_mem st' = []"
    using global_step [OF assms(2) w, of env kr 0 f ctx] assms(3) f by auto
  then show ?thesis using w nth_value_0 [OF assms(2) r] by (simp add: parse_file_eval [OF assms(1)] with_log_level_def)
qed

text \<open>The library accepts the settings.\<close>

definition p11_accepts :: "('r, 'i, 'c, 'x) p11_env \<Rightarrow> bool" where
  "p11_accepts env \<longleftrightarrow> pk_initialize env \<and> pk_set_log_hook env \<and> pk_set_token_hook env \<and> pk_set_pin_hook env \<and> pk_set_protected env"

text \<open>
  C28. Loading the module with a configuration file: it ends, the hooks are set, and the providers of the
  file are offered to the library in turn, the provider number \<open>i\<close> with the value number \<open>i\<close> of each
  of its options. The log level is that of the file; the period of the PIN cache stays what it was,
  whatever the file says about it.
\<close>

theorem pkcs11_init_configures:
  assumes "reads_options env nvps" "provider_options nvps" "get_verbosity nvps = Some v" "v \<noteq> 0" "p11_accepts env"
    and "7 * provider_count nvps + 3 \<le> fuel"
  shows "ecryptfs_pkcs11h_init env kr fuel ctx [] = Some (Some (0, Some ''pkcs11-helper'', ctx\<lparr>px_state :=
     \<lparr>p11_initialized = True, p11_log_hook = True, p11_token_hook = True, p11_pin_hook = True, p11_protected_authentication = True,
      p11_log_level = c_atoi (the (nth_value ''pkcs11-log-level'' (Some ''0'') nvps 0)),
      p11_pin_cache = p11_pin_cache (px_state ctx),
      p11_providers = fold (add_provider env) (configured nvps) (p11_providers (px_state ctx))\<rparr>\<rparr>, []))"
proof -
  have f: "0 < fuel" using assms(6) by simp
  show ?thesis
    using assms(5)
    by (simp add: ecryptfs_pkcs11h_init_def p11_set_def p11_accepts_def parse_globals [OF assms(1-3) f] parse_providers [OF assms(1-4,6)]
        with_log_level_def with_providers_def)
qed

subsection \<open>A file that sets the verbosity to 0\<close>

lemma eval_loop_more: "eval_loop call f k st \<noteq> Some None \<Longrightarrow> eval_loop call (f + j) k st = eval_loop call f k st"
proof (induction f arbitrary: k st)
  case (Suc f)
  have "eval_loop call (f + j) m st2 = eval_loop call f m st2"
    if "alloc_and_get_val k st = Some (0, st1)" "do_transition call k st1 = Some ((0, Some m), st2)" for st1 m st2
    using Suc that by (simp add: eval_loop.simps(2))
  then show ?case
    by (simp add: eval_loop.simps(2)) (auto split: option.splits bind_splits)
qed (simp add: eval_loop.simps)

lemma rounds_go_on:
  assumes "configuring e nvps fo ctx 0 st" "provider_options nvps" "e \<noteq> Some (bytes_of_string ''default'')"
  shows "eval_loop (p11_call env kr b) (7 * j) 0 st = Some None"
  using assms
proof (induction j arbitrary: e nvps fo ctx st)
  case (Suc j)
  have "7 * Suc j = 7 * j + 7" by simp
  then show ?case using config_round [OF Suc.prems disjI1 [OF refl], of env kr b] Suc.IH by metis
qed (simp add: eval_loop.simps)

text \<open>
  C35. With \<open>verbosity=0\<close> in a configuration file that names a provider, loading the module never ends: a
  missing name is not an error then, and the transition to the next provider is taken because a
  name is somewhere in the file.
\<close>

theorem pkcs11_quiet_configuration_never_ends:
  fixes ctx :: "('tn, 'k) p11_lib"
  assumes "reads_options env nvps" "provider_options nvps" "get_verbosity nvps = Some 0" "p11_accepts env"
  shows "ecryptfs_pkcs11h_init env kr fuel ctx [] = Some None"
proof -
  have never: "ecryptfs_pkcs11h_parse_file env kr fuel pkcs11h_provider_param_nodes ctx [] = Some None" for ctx :: "('tn, 'k) p11_lib"
  proof -
    let ?st = "p11_start pkcs11h_provider_param_nodes nvps ctx []"
    have "eval_loop (p11_call env kr 0) fuel 0 (?st\<lparr>es_mnt_params := [None], es_foo := None, es_verbosity := 0\<rparr>) = Some None"
      using rounds_go_on [OF start_configuring [of nvps ctx] assms(2), of env kr 0 fuel] eval_loop_more [where j = "6 * fuel" and f = fuel] by fastforce
    then have "ecryptfs_eval_decision_graph (p11_call env kr 0) fuel 0 ?st = Some None"
      using assms(3) by (simp add: ecryptfs_eval_decision_graph_def eval_param_tree_def)
    then show ?thesis by (simp add: parse_file_eval [OF assms(1)])
  qed
  show ?thesis
  proof (cases "0 < fuel")
    case True
    then show ?thesis
      using assms(4) by (simp add: ecryptfs_pkcs11h_init_def p11_set_def p11_accepts_def parse_globals [OF assms(1-3)] never)
  next
    case False
    have "ecryptfs_pkcs11h_parse_file env kr 0 pkcs11h_global_param_nodes ctx [] = Some None" for ctx :: "('tn, 'k) p11_lib"
      using assms(3)
      by (simp add: parse_file_eval [OF assms(1)] ecryptfs_eval_decision_graph_def eval_param_tree_def p11_start_def eval_loop.simps)
    then show ?thesis using False assms(4) by (simp add: ecryptfs_pkcs11h_init_def p11_set_def p11_accepts_def)
  qed
qed

subsection \<open>A sample\<close>

lemma reads_options_of_file:
  assumes "list_all opt_ok opts" "opts \<noteq> []" "content = join_with 44 (map nv_text opts)" "length content \<le> MAX_FILE_SIZE" "0 \<notin> set content"
    and "pk_home env = Some home" "sl_junk (pk_ssl env) 0 = 0"
    and "pk_open env (home @ ''/.ecryptfsrc.pkcs11'') = Inr \<lparr>of_fstat = 0, of_kind = Regular_File, of_size = length content,
      of_content = content, of_end = None\<rparr>"
  shows "reads_options env (map opt_node opts)"
proof -
  have "generate_nv_list [] (Some content) [] = Some (0, map opt_node opts, [])"
    using nv_list_loop_opts [OF assms(1,2), of "([], [])"] assms(3) by (simp add: generate_nv_list_def)
  then show ?thesis using parse_regular_file [OF assms(5,4), of "sl_junk (pk_ssl env)" "[]"] assms(6-8) by (auto simp: reads_options_def)
qed

definition sample_rc :: "(byte list \<times> byte list option) list" where
  "sample_rc = map (\<lambda>(a, v). (bytes_of_string a, Some (bytes_of_string v)))
     [(''name'', ''a''), (''library'', ''/a.so''), (''name'', ''b''), (''library'', ''/b.so''), (''cert-private'', ''1''),
      (''pkcs11-log-level'', ''5''), (''pkcs11-pin-cache-timeout'', ''9'')]"

definition sample_file :: "(byte list \<times> byte list option) list \<Rightarrow> open_file" where
  "sample_file opts = (let text = join_with 44 (map nv_text opts)
     in \<lparr>of_fstat = 0, of_kind = Regular_File, of_size = length text, of_content = text, of_end = None\<rparr>)"

definition sample_p11_env :: "(byte list \<times> byte list option) list \<Rightarrow> (unit, unit, unit, unit) p11_env" where
  "sample_p11_env opts = \<lparr>pk_ssl = sample_ssl_env, pk_rsa_encrypt = sample_encrypt, pk_d2i_X509 = (\<lambda>d. if d = [48] then Some () else None),
     pk_i2d_X509 = (\<lambda>_. Some [48]), pk_pubkey = (\<lambda>_. Some (True, Some ())), pk_name_oneline = (\<lambda>_. bytes_of_string ''/CN=a''),
     pk_serial = (\<lambda>_. Some (bytes_of_string ''01'')), pk_fopen = (\<lambda>_. Inl 2), pk_pem_read_X509 = (\<lambda>_. None),
     pk_deserialize_id = (\<lambda>t. if t = [105] then Some () else None), pk_serialize_size = (\<lambda>_. Some 2), pk_serialize_id = (\<lambda>_ _. Some [105, 0]),
     pk_set_blob = (\<lambda>i _. Some i), pk_create = (\<lambda>_ _. Some ()), pk_blob_size = (\<lambda>_. Some 1), pk_blob = (\<lambda>_ _. Some [48]),
     pk_decrypt_size = (\<lambda>_ _. Some 64),
     pk_decrypt = (\<lambda>_ x room. case sample_decrypt () x of None \<Rightarrow> Inl 0 | Some k \<Rightarrow> if length k \<le> room then Inr k else Inl (length k)),
     pk_enum = Some [()], pk_add_provider = (\<lambda>_ _. True), pk_initialize = True, pk_set_log_hook = True, pk_set_token_hook = True,
     pk_set_pin_hook = True, pk_set_protected = True, pk_home = Some ''/h'', pk_open = (\<lambda>_. Inr (sample_file opts))\<rparr>"

lemma sample_ssl_of_p11 [simp]: "pk_ssl (sample_p11_env opts) = sample_ssl_env"
  by (simp add: sample_p11_env_def)

lemma sample_p11_laws:
  "parts_fit [105] [48] [113]" "cert_of_key (sample_p11_env opts) [48] ()" "on_token (sample_p11_env opts) [105] [48] [113] ()"
  "p11_accepts (sample_p11_env opts)" "sizes_reported (sample_p11_env opts)"
  by (simp_all add: parts_fit_def cert_of_key_def on_token_def p11_accepts_def sizes_reported_def) (simp_all add: sample_p11_env_def)

theorem pkcs11_signature_as_openssl_witness:
  "ecryptfs_pkcs11h_get_key_sig (sample_p11_env []) (replicate 17 1) (p11_blob [105] [48] [113])
     = ecryptfs_openssl_get_key_sig sample_ssl_env sample_pem (replicate 17 1) (blob_of sample_path [113])"
  using pkcs11_signature_as_openssl [of "[105]" "[48]" "[113]" "sample_p11_env []" "()" sample_pem sample_path "[113]" "replicate 17 1"]
    sample_p11_laws(1,2) sample_ssl_laws by simp

definition sample_p11_ctx :: "(unit, (byte list \<times> ecryptfs_auth_tok) list) p11_lib" where
  "sample_p11_ctx = \<lparr>lc_key_mods = [], lc_num_param_vals = (\<lambda>_. 0), lc_keys = [],
     px_state = \<lparr>p11_initialized = False, p11_log_hook = False, p11_token_hook = False, p11_pin_hook = False,
       p11_protected_authentication = False, p11_log_level = 0, p11_pin_cache = -1, p11_providers = []\<rparr>\<rparr>"

definition sample_p11_mod :: "unit ecryptfs_key_mod" where
  "sample_p11_mod = new_key_mod (Some ''pkcs11-helper'') None
     (ecryptfs_fill_in_dummy_ops (ecryptfs_pkcs11h_ops (sample_p11_env []) list_keyring 0 sample_p11_ctx ()))"

definition sample_p11_tok :: auth_tok_view where
  "sample_p11_tok = \<lparr>tok_key_mod_alias = ''pkcs11-helper'', tok_data = p11_blob [105] [48] [113], tok_data_len = 11, tok_room = 11\<rparr>"

theorem pkcs11_session_key_roundtrip_witness:
  "\<exists>x buf'. sample_encrypt () [1, 2, 3] = Some x
    \<and> key_mod_decrypt (\<lambda>_. 0) 0 [sample_p11_mod] (Some sample_p11_tok) x [] = Some (0, Live buf', 3, [])
    \<and> rd_bytes buf' 0 3 = Some [1, 2, 3]"
proof -
  let ?k = "[1, 2, 3] :: byte list" and ?x = "(3 :: byte) # [1, 2, 3] @ replicate 60 0" and ?e = "sample_p11_env []"
  have e: "pk_rsa_encrypt ?e () ?k = Some ?x" "length ?x = sl_size (pk_ssl ?e) ()" "pk_decrypt_size ?e () ?x = Some 64"
    "\<And>room. length ?k \<le> room \<Longrightarrow> pk_decrypt ?e () ?x room = Inr ?k"
    by (simp_all add: sample_ssl_env_def) (simp_all add: sample_p11_env_def sample_encrypt_def sample_decrypt_def)
  have "\<exists>buf buf'. key_mod_encrypt (\<lambda>_. 0) 0 [sample_p11_mod] (Some sample_p11_tok) ?k [] = Some (0, Live buf, length ?x, [])
    \<and> rd_bytes buf 0 (length ?x) = Some ?x
    \<and> key_mod_decrypt (\<lambda>_. 0) 0 [sample_p11_mod] (Some sample_p11_tok) ?x [] = Some (0, Live buf', length ?k, [])
    \<and> rd_bytes buf' 0 (length ?k) = Some ?k"
    by (rule pkcs11_session_key_roundtrip [where km = sample_p11_mod, OF _ _ sample_p11_laws(1) _ sample_p11_laws(2,3) _ e(1-3) _ e(4)])
      (simp_all add: sample_p11_mod_def sample_p11_tok_def new_key_mod_def sample_ssl_laws)
  then show ?thesis by (auto simp: sample_encrypt_def numeral_3_eq_3)
qed

definition sample_p11_state :: "(p11_fn, unit, (byte list \<times> ecryptfs_auth_tok) list) p11_eval" where
  "sample_p11_state = (p11_start [zero_pn] [] sample_p11_ctx [])\<lparr>es_ctx := sample_p11_ctx\<lparr>lc_key_mods := [sample_p11_mod]\<rparr>,
     es_foo := Some (P11_Key \<lparr>sk_key_mod = 0, sk_data = unfetched [105] [113]\<rparr>)\<rparr>"

theorem pkcs11_mount_adds_key_witness:
  "\<exists>st'. tf_pkcs11h_key_x509file (sample_p11_env []) list_keyring 0 sample_p11_state = Some (DEFAULT_TOK, st')
    \<and> map fst (lc_keys (es_ctx st')) = [key_signature sample_ssl_env ()]
    \<and> km_blob (lc_key_mods (es_ctx st') ! 0) = Some (p11_blob [105] [48] [113])"
proof -
  let ?t = "module_token ''pkcs11-helper'' (key_signature sample_ssl_env ()) (p11_blob [105] [48] [113])"
  have "certificate_from (sample_p11_env []) () None [48]" by (simp add: certificate_from_def) (simp add: sample_p11_env_def)
  moreover have "pk_deserialize_id (sample_p11_env []) [105] = Some ()" "pk_create (sample_p11_env []) () (Some [113]) = Some ()"
    by (simp_all add: sample_p11_env_def)
  ultimately show ?thesis
    using pkcs11_mount_adds_key [where st = sample_p11_state and cur = 0 and n = zero_pn and env = "sample_p11_env []" and k = 0 and i = "[105]" and q = "[113]"
        and al = "''pkcs11-helper''" and kr' = list_keyring and fuel = 0 and ctx = sample_p11_ctx and tn = "()" and j = "()" and h = "()" and der = "[48]"
        and r = "()" and kr = list_keyring and e = ENOKEY and s = 1 and keys' = "[(key_signature sample_ssl_env (), ?t)]",
        OF _ _ _ _ _ _ _ _ _ _ sample_p11_laws(1,2)]
      sample_ssl_laws
    by (simp add: sample_p11_state_def sample_p11_ctx_def p11_start_def graph_of_def zero_pn_def list_keyring_def sample_p11_mod_def new_key_mod_def) fastforce
qed

theorem pkcs11_pin_of_daemon_witness:
  "\<exists>out. pkcs11h_pin_prompt (Some (prompt_callback sample_prompt None)) (Some [49, 50]) 0 [7, 7, 7, 7] [] = Some (True, out, []) \<and> c_string out = Some [49, 50]"
  using pkcs11_pin_of_daemon(1) [of "[7, 7, 7, 7]" "[49, 50]" sample_prompt] by auto

theorem pkcs11_lists_readable_certificates_witness:
  "pkcs11h_get_id_list (sample_p11_env []) [] = Some (0, Some (bytes_of_string ''/CN=a (01) [i]'' @ [10]), [])"
proof -
  have "listed (sample_p11_env []) () = Some (bytes_of_string ''/CN=a (01) [i]'' @ [10])"
    by (simp add: listed_def sample_p11_env_def bytes_of_string_def)
  then show ?thesis
    using pkcs11_lists_readable_certificates [OF sample_p11_laws(5), where ids = "[()]"] by (simp add: map_filter_simps) (simp add: sample_p11_env_def)
qed

lemma sample_rc_options:
  assumes "extra \<in> {[], [(bytes_of_string ''verbosity'', Some (bytes_of_string ''0''))]}"
  shows "reads_options (sample_p11_env (sample_rc @ extra)) (map opt_node (sample_rc @ extra))"
    and "provider_options (map opt_node (sample_rc @ extra))"
    and "get_verbosity (map opt_node (sample_rc @ extra)) = Some (if extra = [] then 1 else 0)"
    and "provider_count (map opt_node (sample_rc @ extra)) = 2"
proof -
  have e: "extra = [] \<or> extra = [(bytes_of_string ''verbosity'', Some (bytes_of_string ''0''))]" using assms by simp
  have ok: "list_all opt_ok (sample_rc @ extra)" using e
    by (elim disjE) (simp_all add: sample_rc_def opt_ok_def nv_plain_def nv_text_def bytes_of_string_def is_colon_list_def)
  let ?t = "join_with 44 (map nv_text (sample_rc @ extra))"
  have t: "length ?t \<le> MAX_FILE_SIZE" "0 \<notin> set ?t" using e
    by (elim disjE; simp add: sample_rc_def nv_text_def bytes_of_string_def)+
  show "reads_options (sample_p11_env (sample_rc @ extra)) (map opt_node (sample_rc @ extra))"
    by (rule reads_options_of_file [OF ok _ refl t, where home = "''/h''"]) (simp_all add: sample_p11_env_def sample_ssl_env_def sample_file_def Let_def sample_rc_def)
  show "provider_options (map opt_node (sample_rc @ extra))" using e
    by (elim disjE) (simp_all add: provider_options_def sample_rc_def rc_names_def rc_words_def queue_def unused_def has_flag_def nv_node_def zero_nv_def null_text_def)
  show "get_verbosity (map opt_node (sample_rc @ extra)) = Some (if extra = [] then 1 else 0)" using e
    by (elim disjE) (simp_all add: sample_rc_def nv_node_def zero_nv_def, code_simp)
  show "provider_count (map opt_node (sample_rc @ extra)) = 2" using e
    by (elim disjE) (simp_all add: provider_count_def sample_rc_def queue_def unused_def has_flag_def nv_node_def zero_nv_def)
qed

theorem pkcs11_init_configures_witness:
  "\<exists>ctx'. ecryptfs_pkcs11h_init (sample_p11_env sample_rc) list_keyring 17 sample_p11_ctx [] = Some (Some (0, Some ''pkcs11-helper'', ctx', []))
    \<and> map pv_library (p11_providers (px_state ctx')) = [Some (bytes_of_string ''/a.so''), Some (bytes_of_string ''/b.so'')]
    \<and> map pv_certificate_is_private (p11_providers (px_state ctx')) = [1, 0]
    \<and> p11_log_level (px_state ctx') = 5 \<and> p11_pin_cache (px_state ctx') = -1"
proof -
  let ?e = "sample_p11_env sample_rc" and ?n = "map opt_node sample_rc"
  note o = sample_rc_options [of "[]", simplified]
  have c: "configured ?n = [provider_at ?n 0, provider_at ?n 1]" by (simp add: configured_def o(4) numeral_2_eq_2)
  have p: "pv_library (provider_at ?n 0) = Some (bytes_of_string ''/a.so'')" "pv_library (provider_at ?n 1) = Some (bytes_of_string ''/b.so'')"
    "pv_certificate_is_private (provider_at ?n 0) = 1" "pv_certificate_is_private (provider_at ?n 1) = 0"
    by (code_simp)+
  have l: "c_atoi (the (nth_value ''pkcs11-log-level'' (Some ''0'') ?n 0)) = 5" by code_simp
  have a: "add_provider ?e q ps = ps @ [q]" for q ps by (simp add: add_provider_def sample_p11_env_def)
  show ?thesis
    using pkcs11_init_configures [OF o(1-3) _ sample_p11_laws(4), of 17 list_keyring sample_p11_ctx] o(4) p l
    by (simp add: c a sample_p11_ctx_def)
qed

theorem pkcs11_quiet_configuration_never_ends_witness:
  "ecryptfs_pkcs11h_init (sample_p11_env (sample_rc @ [(bytes_of_string ''verbosity'', Some (bytes_of_string ''0''))])) list_keyring 1000 sample_p11_ctx [] = Some None"
  using pkcs11_quiet_configuration_never_ends [OF sample_rc_options(1,2) _ sample_p11_laws(4), of "[(bytes_of_string ''verbosity'', Some (bytes_of_string ''0''))]"]
    sample_rc_options(3) [of "[(bytes_of_string ''verbosity'', Some (bytes_of_string ''0''))]"] by simp
end
