(* ===== verification/Tspi_Mod.thy ===== *)
theory Tspi_Mod
  imports Openssl_Mod
begin

text \<open>
  The key module for a TPM, \<open>src/key_mod/ecryptfs_key_mod_tspi.c\<close>: keys named by a UUID, session keys
  sealed by the TPM, and a pool of connections, the tickets, which are linked into two lists. The
  links are kept as pointers between tickets, since the code can put a ticket into both lists.

  The library TrouSerS is a record of its answers.
\<close>

abbreviation (input) EBUSY :: int where "EBUSY \<equiv> 16"
abbreviation (input) UUID_SIZE :: nat where "UUID_SIZE \<equiv> 16"

subsection \<open>TrouSerS\<close>

text \<open>
  Whether the calls succeed, and what they deliver. \<open>ts_load_key\<close> is the key with a UUID in the store
  of the user, \<open>ts_get_key\<close> the same without loading it into the TPM, \<open>ts_modulus\<close> its modulus.
  \<open>ts_mutex\<close> is what the memory of a new ticket is when it is taken for a mutex.
\<close>

record 'h tss_env =
  ts_create :: bool
  ts_connect :: bool
  ts_load_srk :: bool
  ts_policy :: bool
  ts_secret :: bool
  ts_object :: bool
  ts_load_key :: "byte list \<Rightarrow> 'h option"
  ts_get_key :: "byte list \<Rightarrow> 'h option"
  ts_modulus :: "'h \<Rightarrow> byte list option"
  ts_seal :: "'h \<Rightarrow> byte list \<Rightarrow> byte list option"
  ts_get_blob :: bool
  ts_set_blob :: bool
  ts_unseal :: "'h \<Rightarrow> byte list \<Rightarrow> byte list option"
  ts_sha1 :: "byte list \<Rightarrow> byte list"
  ts_junk :: "nat \<Rightarrow> byte"
  ts_mutex :: "bool option"
  ts_calls :: schedule

subsection \<open>Signatures\<close>

text \<open>\<open>sprintf\<close> terminates every pair of digits; the next pair overwrites the zero byte.\<close>

fun tspi_to_hex_at :: "byte list \<Rightarrow> nat \<Rightarrow> byte list \<Rightarrow> byte list option" where
  "tspi_to_hex_at dst x [] = Some dst"
| "tspi_to_hex_at dst x (b # src) = do {
     dst \<leftarrow> wr_bytes dst (x * 2) [hex_digit (unat b div 16), hex_digit (unat b mod 16), 0];
     tspi_to_hex_at dst (x + 1) src }"

definition ecryptfs_tspi_to_hex :: "byte list \<Rightarrow> byte list \<Rightarrow> byte list option" where
  "ecryptfs_tspi_to_hex dst src = tspi_to_hex_at dst 0 src"

definition ecryptfs_tspi_generate_signature ::
  "'h tss_env \<Rightarrow> byte list \<Rightarrow> byte list \<Rightarrow> schedule \<Rightarrow> (int \<times> byte list) option" where
  "ecryptfs_tspi_generate_signature env sig n mem =
     (let e = [1, 0, 1]; nbytes = length n; len = 10 + nbytes + length e
      in case malloc_ok mem of
        (False, _) \<Rightarrow> Some (- ENOMEM, sig)
      | (True, _) \<Rightarrow> do {
          data \<leftarrow> wr_bytes (fresh (ts_junk env) (3 + len)) 0
            [0x99, word_of_nat (len div 256), word_of_nat len, 4, 0, 0, 0, 0, 2, word_of_nat (nbytes * 8 div 256), word_of_nat (nbytes * 8)];
          data \<leftarrow> wr_bytes data 11 n;
          data \<leftarrow> wr_bytes data (11 + nbytes) [word_of_nat (length e * 8 div 256), word_of_nat (length e * 8)];
          data \<leftarrow> wr_bytes data (13 + nbytes) e;
          hashed \<leftarrow> rd_bytes data 0 (len + 3);
          digest \<leftarrow> rd_bytes (ts_sha1 env hashed) 0 SIG_SIZE;
          sig \<leftarrow> ecryptfs_tspi_to_hex sig digest;
          sig \<leftarrow> wr_bytes sig SIG_SIZE_HEX [0];
          Some (0, sig) })"

definition ecryptfs_tspi_deserialize :: "byte list \<Rightarrow> byte list option" where
  "ecryptfs_tspi_deserialize blob = rd_bytes blob 0 UUID_SIZE"

definition ecryptfs_tspi_get_key_sig :: "'h tss_env \<Rightarrow> byte list \<Rightarrow> byte list \<Rightarrow> (int \<times> byte list) option" where
  "ecryptfs_tspi_get_key_sig env sig blob = do {
     uuid \<leftarrow> ecryptfs_tspi_deserialize blob;
     if \<not> ts_create env then Some (- EIO, sig)
     else (case ts_get_key env uuid of
        None \<Rightarrow> Some (- EIO, sig)
      | Some h \<Rightarrow>
          (case ts_modulus env h of
             None \<Rightarrow> Some (- EIO, sig)
           | Some n \<Rightarrow> ecryptfs_tspi_generate_signature env sig n (ts_calls env))) }"

subsection \<open>Tickets\<close>

text \<open>
  A ticket by its address. \<open>tk_wait\<close> tells whether the mutex \<open>wait\<close> is held, or that its memory is
  not that of a mutex; the one for the fields is only held inside the operations below, which
  exclude each other by the lock of the lists.
\<close>

record ecryptfs_tspi_connect_ticket =
  tk_next :: "nat option"
  tk_initialized :: bool
  tk_wait :: "bool option"
  tk_num_pending :: u32

record tspi_pool =
  tp_ticket :: "nat \<rightharpoonup> ecryptfs_tspi_connect_ticket"
  tp_free :: "nat option"
  tp_used :: "nat option"
  tp_num_free :: u32
  tp_num_used :: u32
  tp_num_connected :: u32

definition set_ticket :: "nat \<Rightarrow> ecryptfs_tspi_connect_ticket \<Rightarrow> tspi_pool \<Rightarrow> tspi_pool" where
  "set_ticket t k p = p\<lparr>tp_ticket := (tp_ticket p)(t \<mapsto> k)\<rparr>"

text \<open>
  The first connected ticket of a list; then the ticket with the fewest waiters of a list. Lists
  that come back to themselves have no result.
\<close>

partial_function (option) find_connected :: "(nat \<rightharpoonup> ecryptfs_tspi_connect_ticket) \<Rightarrow> nat option \<Rightarrow> nat option option" where
  "find_connected tk q =
     (if q = None then Some None
      else do {
        k \<leftarrow> tk (the q);
        if tk_initialized k then Some q else find_connected tk (tk_next k) })"

partial_function (option) least_pending :: "(nat \<rightharpoonup> ecryptfs_tspi_connect_ticket) \<Rightarrow> nat \<Rightarrow> nat option \<Rightarrow> nat option" where
  "least_pending tk t q =
     (if q = None then Some t
      else do {
        k \<leftarrow> tk (the q);
        b \<leftarrow> tk t;
        least_pending tk (if tk_num_pending k < tk_num_pending b then the q else t) (tk_next k) })"

definition add_waiter :: "nat \<Rightarrow> u32 \<Rightarrow> tspi_pool \<Rightarrow> tspi_pool option" where
  "add_waiter t d p = map_option (\<lambda>k. set_ticket t (k\<lparr>tk_num_pending := tk_num_pending k + d\<rparr>) p) (tp_ticket p t)"

text \<open>
  The part of \<open>ecryptfs_tspi_grab_ticket\<close> under the lock of the lists: a used ticket if none is free;
  otherwise a connected free one, or the first free one, which is connected. It becomes the first
  of the used ones, and the free ones are those behind it.
\<close>

definition move_to_used :: "nat \<Rightarrow> tspi_pool \<Rightarrow> tspi_pool option" where
  "move_to_used t p = do {
     k \<leftarrow> tp_ticket p t;
     Some (set_ticket t (k\<lparr>tk_next := tp_used p, tk_num_pending := tk_num_pending k + 1\<rparr>)
       (p\<lparr>tp_free := tk_next k, tp_used := Some t, tp_num_free := tp_num_free p - 1, tp_num_used := tp_num_used p + 1\<rparr>)) }"

definition pick_ticket :: "'h tss_env \<Rightarrow> tspi_pool \<Rightarrow> (int \<times> nat option \<times> tspi_pool) option" where
  "pick_ticket env p =
     (case tp_free p of
        None \<Rightarrow> do {
          u \<leftarrow> tp_used p;
          k \<leftarrow> tp_ticket p u;
          t \<leftarrow> least_pending (tp_ticket p) u (tk_next k);
          p \<leftarrow> add_waiter t 1 p;
          Some (0, Some t, p) }
      | Some h \<Rightarrow> do {
          c \<leftarrow> find_connected (tp_ticket p) (Some h);
          (case c of
             Some t \<Rightarrow> do {
               p \<leftarrow> move_to_used t p;
               Some (0, Some t, p) }
           | None \<Rightarrow>
               if \<not> ts_create env \<or> \<not> ts_connect env then Some (- EIO, None, p)
               else do {
                 k \<leftarrow> tp_ticket p h;
                 p \<leftarrow> move_to_used h (set_ticket h (k\<lparr>tk_initialized := True\<rparr>) (p\<lparr>tp_num_connected := tp_num_connected p + 1\<rparr>));
                 Some (0, Some h, p) }) })"

text \<open>
  The rest of it: the mutex \<open>wait\<close> of the ticket. A thread that finds it held waits; for a thread
  that runs alone this is no result, as is the lock of something that is no mutex.
\<close>

definition take_ticket :: "nat \<Rightarrow> tspi_pool \<Rightarrow> tspi_pool option" where
  "take_ticket t p = do {
     k \<leftarrow> tp_ticket p t;
     if tk_wait k \<noteq> Some False then None else add_waiter t (-1) (set_ticket t (k\<lparr>tk_wait := Some True\<rparr>) p) }"

definition ecryptfs_tspi_grab_ticket :: "'h tss_env \<Rightarrow> tspi_pool \<Rightarrow> (int \<times> nat option \<times> tspi_pool) option" where
  "ecryptfs_tspi_grab_ticket env p = do {
     (rc, t, p) \<leftarrow> pick_ticket env p;
     if rc \<noteq> 0 then Some (rc, None, p)
     else do {
       t \<leftarrow> t;
       p \<leftarrow> take_ticket t p;
       Some (0, Some t, p) } }"

definition ecryptfs_tspi_release_ticket :: "nat \<Rightarrow> tspi_pool \<Rightarrow> (int \<times> tspi_pool) option" where
  "ecryptfs_tspi_release_ticket t p = do {
     k \<leftarrow> tp_ticket p t;
     Some (0, set_ticket t (k\<lparr>tk_wait := Some False, tk_next := tp_free p\<rparr>)
       (p\<lparr>tp_used := tk_next k, tp_free := Some t, tp_num_free := tp_num_free p + 1, tp_num_used := tp_num_used p - 1\<rparr>)) }"

subsection \<open>Sealing\<close>

text \<open>The calls that both directions make before the key is looked up.\<close>

definition srk_ready :: "'h tss_env \<Rightarrow> bool" where
  "srk_ready env \<longleftrightarrow> ts_load_srk env \<and> ts_policy env \<and> ts_secret env \<and> ts_object env"

definition copy_out :: "byte list option \<Rightarrow> byte list \<Rightarrow> (int \<times> nat \<times> byte list) option" where
  "copy_out to out = (case to of
     None \<Rightarrow> Some (0, length out, [])
   | Some buf \<Rightarrow> map_option (\<lambda>buf. (0, length out, buf)) (wr_bytes buf 0 out))"

text \<open>The loaded keys by their UUIDs, and the tickets.\<close>

record 'h tspi_state =
  tm_mapper :: "(byte list \<times> 'h) list"
  tm_pool :: tspi_pool

text \<open>The status, \<open>*to_size\<close>, the buffer and the state.\<close>

definition ecryptfs_tspi_encrypt ::
  "'h tss_env \<Rightarrow> 'h tspi_state \<Rightarrow> byte list option \<Rightarrow> byte list \<Rightarrow> byte list \<Rightarrow> (int \<times> nat \<times> byte list \<times> 'h tspi_state) option" where
  "ecryptfs_tspi_encrypt env s to from blob = do {
     let keep = (case to of None \<Rightarrow> [] | Some buf \<Rightarrow> buf);
     uuid \<leftarrow> ecryptfs_tspi_deserialize blob;
     (rc, t, p) \<leftarrow> ecryptfs_tspi_grab_ticket env (tm_pool s);
     if rc \<noteq> 0 then Some (rc, 0, keep, s\<lparr>tm_pool := p\<rparr>)
     else do {
       (rc, n, buf) \<leftarrow>
         (if \<not> srk_ready env then Some (- EIO, 0, keep)
          else (case ts_load_key env uuid of
             None \<Rightarrow> Some (- EIO, 0, keep)
           | Some h \<Rightarrow>
               (case ts_seal env h from of
                  None \<Rightarrow> Some (- EIO, 0, keep)
                | Some out \<Rightarrow> if \<not> ts_get_blob env then Some (- EIO, 0, keep) else copy_out to out)));
       t \<leftarrow> t;
       (_, p) \<leftarrow> ecryptfs_tspi_release_ticket t p;
       Some (rc, n, buf, s\<lparr>tm_pool := p\<rparr>) } }"

text \<open>The key with the UUID, from the list of loaded keys or loaded and put there.\<close>

definition map_key :: "'h tss_env \<Rightarrow> byte list \<Rightarrow> (byte list \<times> 'h) list \<Rightarrow> schedule \<Rightarrow> 'h option \<times> (byte list \<times> 'h) list" where
  "map_key env uuid mapper mem =
     (case map_of mapper uuid of
        Some h \<Rightarrow> (Some h, mapper)
      | None \<Rightarrow>
          (case malloc_ok mem of
             (False, _) \<Rightarrow> (None, mapper)
           | (True, _) \<Rightarrow>
               (case ts_load_key env uuid of
                  None \<Rightarrow> (None, mapper)
                | Some h \<Rightarrow> (Some h, (uuid, h) # mapper))))"

definition ecryptfs_tspi_decrypt ::
  "'h tss_env \<Rightarrow> 'h tspi_state \<Rightarrow> byte list option \<Rightarrow> nat \<Rightarrow> byte list \<Rightarrow> byte list \<Rightarrow> (int \<times> nat \<times> byte list \<times> 'h tspi_state) option" where
  "ecryptfs_tspi_decrypt env s to to_size from blob = do {
     let keep = (case to of None \<Rightarrow> [] | Some buf \<Rightarrow> buf);
     uuid \<leftarrow> ecryptfs_tspi_deserialize blob;
     (rc, t, p) \<leftarrow> ecryptfs_tspi_grab_ticket env (tm_pool s);
     if rc \<noteq> 0 then Some (rc, to_size, keep, s\<lparr>tm_pool := p\<rparr>)
     else do {
       ((rc, n, buf), mapper) \<leftarrow>
         (if \<not> srk_ready env then Some ((- EIO, to_size, keep), tm_mapper s)
          else (case map_key env uuid (tm_mapper s) (ts_calls env) of
             (None, mapper) \<Rightarrow> Some ((- EIO, to_size, keep), mapper)
           | (Some h, mapper) \<Rightarrow>
               if \<not> ts_set_blob env then Some ((- EIO, to_size, keep), mapper)
               else (case ts_unseal env h from of
                  None \<Rightarrow> Some ((- EIO, to_size, keep), mapper)
                | Some out \<Rightarrow> map_option (\<lambda>r. (r, mapper)) (copy_out to out))));
       t \<leftarrow> t;
       (_, p) \<leftarrow> ecryptfs_tspi_release_ticket t p;
       Some (rc, n, buf, s\<lparr>tm_mapper := mapper, tm_pool := p\<rparr>) } }"

subsection \<open>Parameters and blobs\<close>

definition tspi_params :: "key_mod_param list" where
  "tspi_params = [\<lparr>p_option = ''tspi_uuid'', p_flags = PARAM_FLAG_ECHO_INPUT, p_description = Some ''tspi_uuid'', p_suggested_val = None,
     p_default_val = None\<rparr>]"

text \<open>
  Four groups of eight characters, each read as a hexadecimal number and stored with its highest
  byte first. The characters are copied before they are read, so all of them must be there.
\<close>

fun string_to_uuid_at :: "nat \<Rightarrow> nat \<Rightarrow> byte list \<Rightarrow> byte list option" where
  "string_to_uuid_at 0 i chars = Some []"
| "string_to_uuid_at (Suc n) i chars = do {
     tmp \<leftarrow> rd_bytes chars i 8;
     text \<leftarrow> c_string (tmp @ [0]);
     rest \<leftarrow> string_to_uuid_at n (i + 8) chars;
     Some (be_bytes 4 (unat (word_of_int (c_strtol 16 text) :: u32)) @ rest) }"

definition string_to_uuid :: "byte list \<Rightarrow> byte list option" where
  "string_to_uuid chars = string_to_uuid_at 4 0 chars"

definition ecryptfs_tspi_get_params :: "unit \<Rightarrow> int \<times> key_mod_param list" where
  "ecryptfs_tspi_get_params u = (0, tspi_params)"

definition ecryptfs_tspi_serialize :: "byte list option \<Rightarrow> byte list \<Rightarrow> (int \<times> nat \<times> byte list option) option" where
  "ecryptfs_tspi_serialize blob uuid =
     (case blob of
        None \<Rightarrow> Some (0, UUID_SIZE, None)
      | Some buf \<Rightarrow> map_option (\<lambda>buf. (0, UUID_SIZE, Some buf)) (wr_bytes buf 0 uuid))"

definition ecryptfs_tspi_init_from_param_vals :: "string option list \<Rightarrow> (int \<times> byte list) option" where
  "ecryptfs_tspi_init_from_param_vals param_vals =
     (if length param_vals \<noteq> length tspi_params then Some (- EINVAL, [])
      else do {
        v \<leftarrow> param_vals ! 0;
        uuid \<leftarrow> string_to_uuid (bytes_of_string v @ [0]);
        Some (0, uuid) })"

definition ecryptfs_tspi_get_blob :: "byte list option \<Rightarrow> string option list \<Rightarrow> (int \<times> nat \<times> byte list option) option" where
  "ecryptfs_tspi_get_blob blob param_vals = do {
     (rc, uuid) \<leftarrow> ecryptfs_tspi_init_from_param_vals param_vals;
     if rc \<noteq> 0 then Some (rc, 0, blob) else ecryptfs_tspi_serialize blob uuid }"

definition ecryptfs_tspi_destroy :: "byte list \<Rightarrow> int" where
  "ecryptfs_tspi_destroy blob = 0"

subsection \<open>Loading and unloading\<close>

text \<open>
  Tickets are made, each put in front of the free ones. The mutex \<open>wait\<close> is not initialised: it is
  what the memory \<open>w\<close> happens to be.
\<close>

fun make_tickets :: "bool option \<Rightarrow> nat list \<Rightarrow> tspi_pool \<Rightarrow> schedule \<Rightarrow> int \<times> tspi_pool \<times> schedule" where
  "make_tickets w [] p mem = (0, p, mem)"
| "make_tickets w (t # ts) p mem =
     (case malloc_ok mem of
        (False, mem) \<Rightarrow> (- ENOMEM, p, mem)
      | (True, mem) \<Rightarrow>
          make_tickets w ts (set_ticket t \<lparr>tk_next = tp_free p, tk_initialized = False, tk_wait = w, tk_num_pending = 0\<rparr>
            (p\<lparr>tp_free := Some t, tp_num_free := tp_num_free p + 1\<rparr>)) mem)"

definition empty_pool :: tspi_pool where
  "empty_pool = \<lparr>tp_ticket = Map.empty, tp_free = None, tp_used = None, tp_num_free = 0, tp_num_used = 0, tp_num_connected = 0\<rparr>"

definition ecryptfs_tspi_init :: "bool option \<Rightarrow> schedule \<Rightarrow> int \<times> string option \<times> tspi_pool \<times> schedule" where
  "ecryptfs_tspi_init w mem =
     (case malloc_ok mem of
        (False, mem) \<Rightarrow> (- ENOMEM, None, empty_pool, mem)
      | (True, mem) \<Rightarrow>
          (case make_tickets w [0..<10] empty_pool mem of (rc, p, mem) \<Rightarrow> (rc, Some ''tspi'', p, mem)))"

text \<open>
  \<open>polls r\<close> is the pool at the test number \<open>r\<close> of the loop that waits for used tickets: it sleeps a
  second after each test.
\<close>

function wait_used :: "(nat \<Rightarrow> tspi_pool) \<Rightarrow> nat \<Rightarrow> nat" where
  "wait_used polls r = (if r < 5 \<and> tp_used (polls r) \<noteq> None then wait_used polls (Suc r) else r)"
  by auto
termination by (relation "measure (\<lambda>(_, r). 5 - r)") auto

declare wait_used.simps [simp del]

text \<open>The free tickets are disconnected.\<close>

partial_function (option) close_all :: "nat option \<Rightarrow> tspi_pool \<Rightarrow> tspi_pool option" where
  "close_all q p =
     (if q = None then Some p
      else do {
        k \<leftarrow> tp_ticket p (the q);
        close_all (tk_next k) (set_ticket (the q) (k\<lparr>tk_initialized := False\<rparr>) p) })"

definition ecryptfs_tspi_finalize :: "(nat \<Rightarrow> tspi_pool) \<Rightarrow> (int \<times> tspi_pool) option" where
  "ecryptfs_tspi_finalize polls =
     (let retries = wait_used polls 0; p = polls retries
      in if retries = 5 then Some (- EBUSY, p)
      else map_option (\<lambda>p. (0, p)) (close_all (tp_free p) p))"

definition ecryptfs_tspi_ops :: "'h tss_env \<Rightarrow> 'h tspi_state \<Rightarrow> 'tn ecryptfs_key_mod_ops" where
  "ecryptfs_tspi_ops env s = \<lparr>
     op_init = Some (\<lambda>mem. case ecryptfs_tspi_init (ts_mutex env) mem of (rc, al, _, mem) \<Rightarrow> (rc, al, mem)),
     op_get_gen_key_params = None,
     op_get_gen_key_subgraph_trans_node = None,
     op_get_params = Some ecryptfs_tspi_get_params,
     op_get_param_subgraph_trans_node = None,
     op_get_blob = Some (\<lambda>blob vals. case the (ecryptfs_tspi_get_blob blob vals) of
        (rc, n, b) \<Rightarrow> (rc, n, case b of None \<Rightarrow> [] | Some b \<Rightarrow> b)),
     op_get_key_data = None,
     op_get_key_sig = Some (\<lambda>blob. the (ecryptfs_tspi_get_key_sig env (fresh (ts_junk env) (SIG_SIZE_HEX + 1)) blob)),
     op_get_key_hint = None,
     op_encrypt = Some (\<lambda>to _ from blob _. case the (ecryptfs_tspi_encrypt env s to from blob) of (rc, n, buf, _) \<Rightarrow> (rc, n, buf)),
     op_decrypt = Some (\<lambda>to to_size from blob _. case the (ecryptfs_tspi_decrypt env s to to_size from blob) of (rc, n, buf, _) \<Rightarrow> (rc, n, buf)),
     op_destroy = Some ecryptfs_tspi_destroy,
     op_finalize = Some (\<lambda>_. fst (the (ecryptfs_tspi_finalize (\<lambda>_. tm_pool s))))\<rparr>"

subsection \<open>UUIDs\<close>

lemma nibbles: "unat (b :: byte) div 16 < 16" "unat (b :: byte) mod 16 < 16"
  using unat_byte_less [of b] by (auto simp del: unat_byte_less)

lemma digits_to_hex: "digits_nat 16 a (to_hex bs) = be_nat_acc a bs"
proof (induction bs arbitrary: a)
  case (Cons b bs)
  have "(a * 16 + unat b div 16) * 16 + unat b mod 16 = a * 256 + unat b" using div_mult_mod_eq [of "unat b" 16] by simp
  then show ?case using Cons nibbles [of b] by (simp add: to_hex_Cons digit_val_hex_digit ac_simps)
qed (simp add: to_hex_def)

lemma hex_digit_not_x: "n < 16 \<Longrightarrow> hex_digit n \<noteq> 120 \<and> hex_digit n \<noteq> 88"
  by (rule all_digits [of "\<lambda>n. hex_digit n \<noteq> 120 \<and> hex_digit n \<noteq> 88" n]) (simp_all add: hex_digit_def)

lemma strtol_to_hex: "c_strtol 16 (to_hex bs) = int (be_nat bs)"
proof (cases bs)
  case (Cons b cs)
  note h = hex_digit_plain [OF nibbles(1) [of b]] hex_digit_not_x [OF nibbles(2) [of b]]
  have "digits_nat 16 0 (hex_digit (unat b div 16) # hex_digit (unat b mod 16) # to_hex cs) = be_nat bs"
    using digits_to_hex [of 0 bs] Cons by (simp only: to_hex_Cons be_nat_def)
  then show ?thesis
    using h Cons by (cases "to_hex cs") (simp_all add: c_strtol_def to_hex_Cons Let_def del: digits_nat.simps)
qed (simp add: c_strtol_def to_hex_def be_nat_def)

lemma to_hex_no_zero: "0 \<notin> set (to_hex bs)"
proof (induction bs)
  case (Cons b bs)
  then show ?case
    using hex_digit_plain [OF nibbles(1) [of b]] hex_digit_plain [OF nibbles(2) [of b]] by (auto simp: to_hex_Cons)
qed (simp add: to_hex_def)

lemma to_hex_append: "to_hex (xs @ ys) = to_hex xs @ to_hex ys"
  by (simp add: to_hex_def)

lemma be_nat_bound: "be_nat bs < 256 ^ length bs"
  by (metis be_bytes_be_nat be_nat_be_bytes mod_less_divisor zero_less_numeral zero_less_power)

lemma uuid_group:
  assumes "length g = 4" "length xs = i"
  shows "string_to_uuid_at (Suc n) i (xs @ to_hex g @ ys) = map_option (\<lambda>rest. g @ rest) (string_to_uuid_at n (i + 8) (xs @ to_hex g @ ys))"
proof -
  have r: "rd_bytes (xs @ to_hex g @ ys) i 8 = Some (to_hex g)" using assms by (simp add: rd_bytes_def)
  have c: "c_string (to_hex g @ [0]) = Some (to_hex g)" using c_string_terminated [OF to_hex_no_zero, of g "[]"] by simp
  have "be_nat g < 2 ^ 32" using be_nat_bound [of g] assms(1) by simp
  then have "unat (word_of_int (c_strtol 16 (to_hex g)) :: u32) = be_nat g"
    by (simp add: strtol_to_hex unat_of_nat)
  moreover have "be_bytes 4 (be_nat g) = g" using be_bytes_be_nat [OF assms(1)] by simp
  ultimately show ?thesis using r c by (auto split: bind_splits)
qed

lemma split_4: "length xs = n + 4 \<Longrightarrow> \<exists>a r. xs = a @ r \<and> length a = 4 \<and> length r = n"
  by (intro exI [of _ "take 4 xs"] exI [of _ "drop 4 xs"]) simp

text \<open>
  Round trip of the parameter: the UUID given as 32 hexadecimal digits is the one that the blob holds.
\<close>

theorem tspi_uuid_roundtrip:
  assumes "length uuid = UUID_SIZE" "length buf = UUID_SIZE"
  shows "ecryptfs_tspi_get_blob None [Some (string_of_bytes (to_hex uuid))] = Some (0, UUID_SIZE, None)
    \<and> ecryptfs_tspi_get_blob (Some buf) [Some (string_of_bytes (to_hex uuid))] = Some (0, UUID_SIZE, Some uuid)
    \<and> ecryptfs_tspi_deserialize uuid = Some uuid"
proof -
  obtain a r where a: "uuid = a @ r" "length a = 4" "length r = 8 + 4" using split_4 [of uuid "8 + 4"] assms(1) by auto
  obtain b r' where b: "r = b @ r'" "length b = 4" "length r' = 4 + 4" using split_4 [of r "4 + 4"] a(3) by auto
  obtain c d where c: "r' = c @ d" "length c = 4" "length d = 4" using split_4 [OF b(3)] by auto
  have l: "length a = 4" "length b = 4" "length c = 4" "length d = 4" by (fact a(2) b(2) c(2,3))+
  have u: "uuid = a @ b @ c @ d" using a(1) b(1) c(1) by simp
  let ?s = "to_hex uuid @ [0]"
  have s: "?s = [] @ to_hex a @ to_hex b @ to_hex c @ to_hex d @ [0]" "?s = to_hex a @ to_hex b @ to_hex c @ to_hex d @ [0]"
    "?s = (to_hex a @ to_hex b) @ to_hex c @ to_hex d @ [0]" "?s = (to_hex a @ to_hex b @ to_hex c) @ to_hex d @ [0]"
    by (simp_all add: u to_hex_append)
  have "string_to_uuid_at (Suc 0) 24 ?s = Some d" unfolding s(4) using uuid_group [OF l(4), of "to_hex a @ to_hex b @ to_hex c" 24 0] l by simp
  then have "string_to_uuid_at (Suc (Suc 0)) 16 ?s = Some (c @ d)"
    using uuid_group [OF l(3), of "to_hex a @ to_hex b" 16 "Suc 0" "to_hex d @ [0]"] l by (simp only: s(3) [symmetric]) simp
  then have "string_to_uuid_at (Suc (Suc (Suc 0))) 8 ?s = Some (b @ c @ d)"
    using uuid_group [OF l(2), of "to_hex a" 8 "Suc (Suc 0)" "to_hex c @ to_hex d @ [0]"] l by (simp only: s(2) [symmetric]) simp
  then have "string_to_uuid_at (Suc (Suc (Suc (Suc 0)))) 0 ?s = Some uuid"
    using uuid_group [OF l(1), of "[]" 0 "Suc (Suc (Suc 0))" "to_hex b @ to_hex c @ to_hex d @ [0]"] l by (simp only: s(1) [symmetric]) (simp add: u)
  moreover have "(4 :: nat) = Suc (Suc (Suc (Suc 0)))" by simp
  ultimately have "string_to_uuid ?s = Some uuid" unfolding string_to_uuid_def by (simp only:)
  moreover have "bytes_of_string (string_of_bytes (to_hex uuid)) = to_hex uuid" by simp
  ultimately have "ecryptfs_tspi_init_from_param_vals [Some (string_of_bytes (to_hex uuid))] = Some (0, uuid)"
    by (simp add: ecryptfs_tspi_init_from_param_vals_def tspi_params_def)
  then show ?thesis
    using assms by (simp add: ecryptfs_tspi_get_blob_def ecryptfs_tspi_serialize_def ecryptfs_tspi_deserialize_def wr_bytes_def rd_bytes_def)
qed

theorem tspi_uuid_roundtrip_witness:
  "ecryptfs_tspi_get_blob (Some (replicate 16 9)) [Some (string_of_bytes (to_hex (map word_of_nat [0..<16])))]
     = Some (0, 16, Some (map word_of_nat [0..<16]))"
  using tspi_uuid_roundtrip [of "map word_of_nat [0..<16]" "replicate 16 9"] by simp

subsection \<open>Signatures\<close>

lemma tspi_hex_at:
  assumes "length xs = 2 * x" "2 * length src + 1 \<le> length ys" "src \<noteq> []"
  shows "tspi_to_hex_at (xs @ ys) x src = Some (xs @ to_hex src @ 0 # drop (2 * length src + 1) ys)"
  using assms
proof (induction src arbitrary: xs x ys)
  case (Cons b src)
  let ?h = "hex_digit (unat b div 16)" and ?l = "hex_digit (unat b mod 16)"
  have w: "wr_bytes (xs @ ys) (x * 2) [?h, ?l, 0] = Some ((xs @ [?h, ?l]) @ 0 # drop 3 ys)"
    using Cons.prems by (simp add: wr_bytes_def)
  show ?case
  proof (cases "src = []")
    case True
    then show ?thesis using w by (simp add: to_hex_def)
  next
    case False
    then have "tspi_to_hex_at ((xs @ [?h, ?l]) @ 0 # drop 3 ys) (x + 1) src
        = Some ((xs @ [?h, ?l]) @ to_hex src @ 0 # drop (2 * length src + 1) (0 # drop 3 ys))"
      using Cons.prems by (intro Cons.IH) auto
    then show ?thesis using w by (simp add: to_hex_Cons numeral_3_eq_3)
  qed
qed simp

text \<open>The packet that is hashed, with the numbers of bits given.\<close>

definition pgp_packet :: "nat \<Rightarrow> byte list \<Rightarrow> nat \<Rightarrow> byte list \<Rightarrow> byte list" where
  "pgp_packet nbits n ebits e =
     (let body = [4] @ be_bytes 4 0 @ [2] @ mpi nbits n @ mpi ebits e in [0x99] @ be_bytes 2 (length body) @ body)"

lemma fingerprint_packet: "fingerprint env r = sl_sha1 env (pgp_packet (sl_n_bits env r) (sl_n_bin env r) (sl_e_bits env r) (sl_e_bin env r))"
  by (simp add: fingerprint_def pgp_packet_def Let_def)

lemma packet_bytes:
  "pgp_packet nbits n ebits e = [0x99, word_of_nat ((10 + length n + length e) div 256), word_of_nat (10 + length n + length e), 4, 0, 0, 0, 0, 2,
     word_of_nat (nbits div 256), word_of_nat nbits] @ n @ [word_of_nat (ebits div 256), word_of_nat ebits] @ e"
proof -
  have "be_bytes (Suc (Suc (Suc (Suc 0)))) 0 = [0, 0, 0, 0]" by simp
  moreover have "(4 :: nat) = Suc (Suc (Suc (Suc 0)))" by simp
  ultimately have "be_bytes 4 0 = [0, 0, 0, 0]" by (simp only:)
  then show ?thesis by (simp add: pgp_packet_def Let_def mpi_def be_bytes_2 add.assoc)
qed

lemma tspi_signature:
  assumes "length sig = SIG_SIZE_HEX + 1" "\<And>d. length (ts_sha1 env d) = 20"
  shows "ecryptfs_tspi_generate_signature env sig n []
    = Some (0, to_hex (take SIG_SIZE (ts_sha1 env (pgp_packet (length n * 8) n 24 [1, 0, 1]))) @ [0])"
proof -
  let ?len = "10 + length n + length [1, 0, 1 :: byte]" and ?e = "[1, 0, 1] :: byte list"
  define buf where "buf = fresh (ts_junk env) (3 + ?len)"
  define h where "h = ([0x99, word_of_nat (?len div 256), word_of_nat ?len, 4, 0, 0, 0, 0, 2, word_of_nat (length n * 8 div 256),
    word_of_nat (length n * 8)] :: byte list)"
  define eb where "eb = ([word_of_nat (length ?e * 8 div 256), word_of_nat (length ?e * 8)] :: byte list)"
  have l: "length buf = 16 + length n" "length h = 11" "length eb = 2" by (simp_all add: buf_def fresh_def h_def eb_def)
  have 1: "wr_bytes buf 0 h = Some (h @ drop 11 buf)" using l by (simp add: wr_bytes_def)
  have 2: "wr_bytes (h @ drop 11 buf) 11 n = Some ((h @ n) @ drop (11 + length n) buf)" using wr_next [of h n buf] l by simp
  have 3: "wr_bytes ((h @ n) @ drop (11 + length n) buf) (11 + length n) eb = Some ((h @ n @ eb) @ drop (13 + length n) buf)"
    using wr_next [of "h @ n" eb buf] l by (simp add: add.commute)
  have 4: "wr_bytes ((h @ n @ eb) @ drop (13 + length n) buf) (13 + length n) ?e = Some (h @ n @ eb @ ?e)"
    using wr_next [of "h @ n @ eb" ?e buf] l by (simp add: add.commute)
  have p: "h @ n @ eb @ ?e = pgp_packet (length n * 8) n 24 ?e" unfolding packet_bytes h_def eb_def by simp
  have 5: "rd_bytes (pgp_packet (length n * 8) n 24 ?e) 0 (?len + 3) = Some (pgp_packet (length n * 8) n 24 ?e)"
    by (simp add: rd_bytes_def packet_bytes)
  let ?d = "ts_sha1 env (pgp_packet (length n * 8) n 24 ?e)"
  have 6: "rd_bytes ?d 0 SIG_SIZE = Some (take SIG_SIZE ?d)" using assms(2) by (simp add: rd_bytes_def)
  have ld: "length (take SIG_SIZE ?d) = SIG_SIZE" using assms(2) by simp
  then have "take SIG_SIZE ?d \<noteq> []" by auto
  then have 7: "ecryptfs_tspi_to_hex sig (take SIG_SIZE ?d) = Some (to_hex (take SIG_SIZE ?d) @ [0])"
    using tspi_hex_at [of "[]" 0 "take SIG_SIZE ?d" sig] assms(1) ld by (simp add: ecryptfs_tspi_to_hex_def)
  have 8: "wr_bytes (to_hex (take SIG_SIZE ?d) @ [0]) SIG_SIZE_HEX [0] = Some (to_hex (take SIG_SIZE ?d) @ [0])"
    using ld by (simp add: wr_bytes_def)
  show ?thesis
    unfolding ecryptfs_tspi_generate_signature_def Let_def malloc_ok.simps prod.case bool.case h_def [symmetric] buf_def [symmetric] eb_def [symmetric]
      1 2 3 4 [unfolded p] 5 6 7 8 Option.bind.bind_lunit by simp
qed

text \<open>
  The signature of a key of the TPM is the start of the digest of an OpenPGP packet whose exponent
  claims 24 bits. The exponent 65537 has 17, so that the packet is not the one of the key: for the
  same key the OpenSSL module computes another signature, unless the digests of the two
  packets agree in their first 8 bytes.
\<close>

theorem tspi_signature_is_not_fingerprint:
  assumes "length sig = SIG_SIZE_HEX + 1" "\<And>d. length (ts_sha1 env d) = 20" "ts_create env" "ts_get_key env uuid = Some h"
    and "ts_modulus env h = Some n" "ts_calls env = []" "length uuid = UUID_SIZE"
    and "sl_n_bits ssl r = length n * 8" "sl_n_bin ssl r = n" "sl_e_bits ssl r = 17" "sl_e_bin ssl r = [1, 0, 1]" "sl_sha1 ssl = ts_sha1 env"
    and "p = pgp_packet (length n * 8) n 24 [1, 0, 1]" "q = pgp_packet (length n * 8) n 17 [1, 0, 1]"
  shows "\<exists>s. ecryptfs_tspi_get_key_sig env sig uuid = Some (0, s @ [0]) \<and> length s = SIG_SIZE_HEX
    \<and> p \<noteq> q \<and> fingerprint ssl r = ts_sha1 env q
    \<and> (s = key_signature ssl r \<longleftrightarrow> take SIG_SIZE (ts_sha1 env p) = take SIG_SIZE (ts_sha1 env q))"
proof -
  have ne: "p \<noteq> q" unfolding assms(13,14) by (simp add: packet_bytes)
  have f: "fingerprint ssl r = ts_sha1 env q" by (simp add: fingerprint_packet assms(8-12,14))
  have "ecryptfs_tspi_get_key_sig env sig uuid = Some (0, to_hex (take SIG_SIZE (ts_sha1 env p)) @ [0])"
    using tspi_signature [OF assms(1,2), of n] assms(3-7,13) by (simp add: ecryptfs_tspi_get_key_sig_def ecryptfs_tspi_deserialize_def rd_bytes_def)
  moreover have "to_hex (take SIG_SIZE (ts_sha1 env p)) = key_signature ssl r \<longleftrightarrow> take SIG_SIZE (ts_sha1 env p) = take SIG_SIZE (ts_sha1 env q)"
    using hex.put_inject [of "take SIG_SIZE (ts_sha1 env p)" "take SIG_SIZE (ts_sha1 env q)"] by (auto simp: key_signature_def f)
  ultimately show ?thesis using assms(2) ne f by simp
qed

subsection \<open>The pool as two stacks\<close>

text \<open>The tickets that a pointer leads to.\<close>

fun linked :: "(nat \<rightharpoonup> ecryptfs_tspi_connect_ticket) \<Rightarrow> nat option \<Rightarrow> nat list \<Rightarrow> bool" where
  "linked tk q [] \<longleftrightarrow> q = None"
| "linked tk q (t # ts) \<longleftrightarrow> q = Some t \<and> (\<exists>k. tk t = Some k \<and> linked tk (tk_next k) ts)"

lemma linked_other: "t \<notin> set ts \<Longrightarrow> linked (tk(t \<mapsto> k)) q ts = linked tk q ts"
  by (induction ts arbitrary: q) auto

text \<open>What is kept of single tickets.\<close>

definition holds_all :: "(nat \<rightharpoonup> ecryptfs_tspi_connect_ticket) \<Rightarrow> (ecryptfs_tspi_connect_ticket \<Rightarrow> bool) \<Rightarrow> nat list \<Rightarrow> bool" where
  "holds_all tk P ts \<longleftrightarrow> (\<forall>t \<in> set ts. \<exists>k. tk t = Some k \<and> P k)"

lemma holds_all_simps [simp]:
  "holds_all tk P []" "holds_all tk P (t # ts) \<longleftrightarrow> (\<exists>k. tk t = Some k \<and> P k) \<and> holds_all tk P ts"
  "holds_all tk P (ts @ us) \<longleftrightarrow> holds_all tk P ts \<and> holds_all tk P us"
  by (auto simp: holds_all_def)

lemma holds_all_other: "t \<notin> set ts \<Longrightarrow> holds_all (tk(t \<mapsto> k)) P ts = holds_all tk P ts"
  by (auto simp: holds_all_def)

abbreviation at_rest :: "bool \<Rightarrow> ecryptfs_tspi_connect_ticket \<Rightarrow> bool" where
  "at_rest i k \<equiv> tk_initialized k = i \<and> tk_wait k = Some False \<and> tk_num_pending k = 0"

abbreviation in_use :: "ecryptfs_tspi_connect_ticket \<Rightarrow> bool" where
  "in_use k \<equiv> tk_initialized k \<and> tk_wait k = Some True \<and> tk_num_pending k = 0"

text \<open>
  The pool stands for the free and the used tickets: the connected free ones come first, used ones
  are connected and held, and the counters agree.
\<close>

definition pool_rep :: "nat list \<Rightarrow> nat list \<Rightarrow> tspi_pool \<Rightarrow> bool" where
  "pool_rep fs us p \<longleftrightarrow> linked (tp_ticket p) (tp_free p) fs \<and> linked (tp_ticket p) (tp_used p) us \<and> distinct (fs @ us)
     \<and> (\<exists>cs ds. fs = cs @ ds \<and> holds_all (tp_ticket p) (at_rest True) cs \<and> holds_all (tp_ticket p) (at_rest False) ds)
     \<and> holds_all (tp_ticket p) in_use us
     \<and> tp_num_free p = word_of_nat (length fs) \<and> tp_num_used p = word_of_nat (length us)"

lemma find_connected_none:
  "linked tk q ts \<Longrightarrow> holds_all tk (at_rest False) ts \<Longrightarrow> find_connected tk q = Some None"
  by (induction ts arbitrary: q) (subst find_connected.simps; auto)+

lemma set_ticket_simps [simp]:
  "tp_ticket (set_ticket t k p) = (tp_ticket p)(t \<mapsto> k)" "tp_free (set_ticket t k p) = tp_free p" "tp_used (set_ticket t k p) = tp_used p"
  "tp_num_free (set_ticket t k p) = tp_num_free p" "tp_num_used (set_ticket t k p) = tp_num_used p"
  by (simp_all add: set_ticket_def)

text \<open>A ticket is taken off the free ones: it was connected, or it is connected now.\<close>

lemma grab_top:
  assumes "pool_rep (t # fs) us p" "ts_create env" "ts_connect env"
  shows "\<exists>p'. ecryptfs_tspi_grab_ticket env p = Some (0, Some t, p') \<and> pool_rep fs (t # us) p'"
proof -
  note r = assms(1) [unfolded pool_rep_def]
  obtain cs ds where f: "t # fs = cs @ ds" "holds_all (tp_ticket p) (at_rest True) cs" "holds_all (tp_ticket p) (at_rest False) ds" using r by blast
  obtain k where k: "tp_ticket p t = Some k" "linked (tp_ticket p) (tk_next k) fs" using r by auto
  have nt: "t \<notin> set fs" "t \<notin> set us" "distinct (fs @ us)" using r by auto
  let ?k = "k\<lparr>tk_next := tp_used p, tk_initialized := True, tk_wait := Some True, tk_num_pending := 0\<rparr>"
  have rep: "pool_rep fs (t # us) p'" if "tp_ticket p' = (tp_ticket p)(t \<mapsto> ?k)" "tp_free p' = tk_next k" "tp_used p' = Some t"
    "tp_num_free p' = tp_num_free p - 1" "tp_num_used p' = tp_num_used p + 1" for p'
  proof -
    obtain cs' ds' where c: "fs = cs' @ ds'" "holds_all (tp_ticket p) (at_rest True) cs'" "holds_all (tp_ticket p) (at_rest False) ds'"
    proof (cases cs)
      case Nil
      then show thesis using f that [of "[]" fs] by auto
    next
      case (Cons x xs)
      then show thesis using f that [of xs ds] by auto
    qed
    then have "\<exists>cs ds. fs = cs @ ds \<and> holds_all (tp_ticket p') (at_rest True) cs \<and> holds_all (tp_ticket p') (at_rest False) ds"
      using nt that(1) by (intro exI [of _ cs'] exI [of _ ds']) (simp add: holds_all_other)
    then show ?thesis
      using r that k nt unfolding pool_rep_def by (simp add: linked_other holds_all_other)
  qed
  show ?thesis
  proof (cases "tk_initialized k")
    case True
    have w: "tk_wait k = Some False" "tk_num_pending k = 0" using f k(1) by (cases cs; auto)+
    have "find_connected (tp_ticket p) (Some t) = Some (Some t)" using k True by (subst find_connected.simps) simp
    moreover have kk: "k\<lparr>tk_next := tp_used p, tk_wait := Some True, tk_num_pending := 0\<rparr> = ?k" using True by (cases k) simp
    ultimately show ?thesis
      using r k w
      by (simp add: ecryptfs_tspi_grab_ticket_def pick_ticket_def move_to_used_def take_ticket_def add_waiter_def) (rule rep; simp add: kk)
  next
    case False
    then have cs: "cs = []" using f k(1) by (cases cs) auto
    then have w: "tk_wait k = Some False" "tk_num_pending k = 0" using f k(1) by auto
    have "linked (tp_ticket p) (Some t) (t # fs)" using k by auto
    moreover have "holds_all (tp_ticket p) (at_rest False) (t # fs)" using f(1,3) cs by (simp only: append_Nil)
    ultimately have "find_connected (tp_ticket p) (Some t) = Some None" by (rule find_connected_none)
    have kk: "k\<lparr>tk_initialized := True, tk_next := tp_used p, tk_wait := Some True, tk_num_pending := 0\<rparr> = ?k" by (cases k) simp
    with \<open>find_connected (tp_ticket p) (Some t) = Some None\<close> show ?thesis
      using r k w assms(2,3)
      by (simp add: ecryptfs_tspi_grab_ticket_def pick_ticket_def move_to_used_def take_ticket_def add_waiter_def) (rule rep; simp add: kk)
  qed
qed

text \<open>The ticket that was taken last goes back to the front of the free ones.\<close>

lemma release_top:
  assumes "pool_rep fs (t # us) p"
  shows "\<exists>p'. ecryptfs_tspi_release_ticket t p = Some (0, p') \<and> pool_rep (t # fs) us p'"
proof -
  note r = assms [unfolded pool_rep_def]
  obtain k where k: "tp_ticket p t = Some k" "in_use k" "linked (tp_ticket p) (tk_next k) us" using r by auto
  obtain cs ds where f: "fs = cs @ ds" "holds_all (tp_ticket p) (at_rest True) cs" "holds_all (tp_ticket p) (at_rest False) ds" using r by blast
  have nt: "t \<notin> set fs" "t \<notin> set us" "distinct (fs @ us)" using r by auto
  let ?p = "set_ticket t (k\<lparr>tk_wait := Some False, tk_next := tp_free p\<rparr>)
       (p\<lparr>tp_used := tk_next k, tp_free := Some t, tp_num_free := tp_num_free p + 1, tp_num_used := tp_num_used p - 1\<rparr>)"
  have "\<exists>cs' ds'. t # fs = cs' @ ds' \<and> holds_all (tp_ticket ?p) (at_rest True) cs' \<and> holds_all (tp_ticket ?p) (at_rest False) ds'"
    using f k nt by (intro exI [of _ "t # cs"] exI [of _ ds]) (auto simp: holds_all_other)
  then have "pool_rep (t # fs) us ?p" using r k nt unfolding pool_rep_def by (auto simp: linked_other holds_all_other)
  then show ?thesis using k(1) by (simp add: ecryptfs_tspi_release_ticket_def)
qed

subsection \<open>Nested use\<close>

text \<open>
  A use of a ticket during which further tickets are taken and given back.
\<close>

datatype session = Session "session list"

fun run_session :: "('p \<Rightarrow> ('t \<times> 'p) option) \<Rightarrow> ('t \<Rightarrow> 'p \<Rightarrow> 'p option) \<Rightarrow> session \<Rightarrow> 'p \<Rightarrow> 'p option"
  and run_sessions :: "('p \<Rightarrow> ('t \<times> 'p) option) \<Rightarrow> ('t \<Rightarrow> 'p \<Rightarrow> 'p option) \<Rightarrow> session list \<Rightarrow> 'p \<Rightarrow> 'p option" where
  "run_session grab release (Session ss) p = do {
     (t, p) \<leftarrow> grab p;
     p \<leftarrow> run_sessions grab release ss p;
     release t p }"
| "run_sessions grab release [] p = Some p"
| "run_sessions grab release (s # ss) p = do {
     p \<leftarrow> run_session grab release s p;
     run_sessions grab release ss p }"

fun depth :: "session \<Rightarrow> nat" and depths :: "session list \<Rightarrow> nat" where
  "depth (Session ss) = Suc (depths ss)"
| "depths [] = 0"
| "depths (s # ss) = max (depth s) (depths ss)"

text \<open>The contract of a pool of which the last one taken is given back first.\<close>

locale stack_pool =
  fixes rep :: "'t list \<Rightarrow> 't list \<Rightarrow> 'p \<Rightarrow> bool" and grab :: "'p \<Rightarrow> ('t \<times> 'p) option" and release :: "'t \<Rightarrow> 'p \<Rightarrow> 'p option"
  assumes grab_law: "rep (t # fs) us p \<Longrightarrow> \<exists>p'. grab p = Some (t, p') \<and> rep fs (t # us) p'"
    and release_law: "rep fs (t # us) p \<Longrightarrow> \<exists>p'. release t p = Some p' \<and> rep (t # fs) us p'"
begin

lemma nested_use_restores:
  "depth s \<le> length fs \<Longrightarrow> rep fs us p \<Longrightarrow> \<exists>p'. run_session grab release s p = Some p' \<and> rep fs us p'"
  "depths ss \<le> length fs \<Longrightarrow> rep fs us p \<Longrightarrow> \<exists>p'. run_sessions grab release ss p = Some p' \<and> rep fs us p'"
proof (induction s and ss arbitrary: fs us p and fs us p rule: depth_depths.induct)
  case (1 ss)
  then obtain t fs' where fs: "fs = t # fs'" "depths ss \<le> length fs'" by (cases fs) auto
  obtain p1 where p1: "grab p = Some (t, p1)" "rep fs' (t # us) p1" using grab_law "1.prems"(2) fs(1) by blast
  obtain p2 where p2: "run_sessions grab release ss p1 = Some p2" "rep fs' (t # us) p2" using "1.IH" [OF fs(2) p1(2)] by blast
  obtain p3 where "release t p2 = Some p3" "rep (t # fs') us p3" using release_law p2(2) by blast
  then show ?case using p1 p2 fs by simp
next
  case (3 s ss)
  then show ?case by fastforce
qed simp

end

definition grab_ok :: "'h tss_env \<Rightarrow> tspi_pool \<Rightarrow> (nat \<times> tspi_pool) option" where
  "grab_ok env p = do {
     (rc, t, p) \<leftarrow> ecryptfs_tspi_grab_ticket env p;
     if rc \<noteq> 0 then None else map_option (\<lambda>t. (t, p)) t }"

definition release_ok :: "nat \<Rightarrow> tspi_pool \<Rightarrow> tspi_pool option" where
  "release_ok t p = map_option snd (ecryptfs_tspi_release_ticket t p)"

interpretation tickets: stack_pool pool_rep "grab_ok (env\<lparr>ts_create := True, ts_connect := True\<rparr>)" release_ok for env :: "'h tss_env"
proof
  fix t fs us p assume "pool_rep (t # fs) us p"
  then show "\<exists>p'. grab_ok (env\<lparr>ts_create := True, ts_connect := True\<rparr>) p = Some (t, p') \<and> pool_rep fs (t # us) p'"
    using grab_top [of t fs us p "env\<lparr>ts_create := True, ts_connect := True\<rparr>"] by (auto simp: grab_ok_def)
next
  fix fs t us p assume "pool_rep fs (t # us) p"
  then show "\<exists>p'. release_ok t p = Some p' \<and> pool_rep (t # fs) us p'"
    using release_top by (fastforce simp: release_ok_def)
qed

text \<open>
  C17. The pool of connections implements two stacks as long as tickets are given back in the reverse
  order: after any nesting of uses that is not deeper than there are free tickets, the same
  tickets are free and used, in the same order, and the counters agree with them.
\<close>

theorem tspi_nested_use_restores_pool:
  assumes "pool_rep fs us p" "depth s \<le> length fs" "ts_create env" "ts_connect env"
  shows "\<exists>p'. run_session (grab_ok env) release_ok s p = Some p' \<and> pool_rep fs us p'"
proof -
  have "env\<lparr>ts_create := True, ts_connect := True\<rparr> = env" using assms(3,4) by (cases env) simp
  then show ?thesis using tickets.nested_use_restores(1) [OF assms(2,1), of env] by simp
qed

text \<open>Loading the module makes ten free tickets, if their memory happens to be that of free mutexes.\<close>

lemma make_tickets_rep:
  "pool_rep fs [] p \<Longrightarrow> holds_all (tp_ticket p) (at_rest False) fs \<Longrightarrow> distinct ts \<Longrightarrow> set ts \<inter> set fs = {} \<Longrightarrow>
   \<exists>p'. make_tickets (Some False) ts p [] = (0, p', []) \<and> pool_rep (rev ts @ fs) [] p' \<and> holds_all (tp_ticket p') (at_rest False) (rev ts @ fs)"
proof (induction ts arbitrary: fs p)
  case (Cons t ts)
  let ?p = "set_ticket t \<lparr>tk_next = tp_free p, tk_initialized = False, tk_wait = Some False, tk_num_pending = 0\<rparr>
      (p\<lparr>tp_free := Some t, tp_num_free := tp_num_free p + 1\<rparr>)"
  have t: "t \<notin> set fs" using Cons.prems(4) by auto
  have h: "holds_all (tp_ticket ?p) (at_rest False) (t # fs)" using Cons.prems(2) t by (simp add: holds_all_other)
  have "\<exists>cs ds. t # fs = cs @ ds \<and> holds_all (tp_ticket ?p) (at_rest True) cs \<and> holds_all (tp_ticket ?p) (at_rest False) ds"
    by (intro exI [of _ "[]"] exI [of _ "t # fs"] conjI h) simp_all
  then have "pool_rep (t # fs) [] ?p"
    using Cons.prems(1) t by (simp add: pool_rep_def linked_other)
  from Cons.IH [OF this h] obtain p' where "make_tickets (Some False) ts ?p [] = (0, p', [])" "pool_rep (rev ts @ t # fs) [] p'"
    "holds_all (tp_ticket p') (at_rest False) (rev ts @ t # fs)" using Cons.prems(3,4) by auto
  then show ?case by (intro exI [of _ p']) simp
qed simp

lemma init_rep: "\<exists>p. ecryptfs_tspi_init (Some False) [] = (0, Some ''tspi'', p, []) \<and> pool_rep (rev [0..<10]) [] p"
proof -
  have "pool_rep [] [] empty_pool" by (simp add: pool_rep_def empty_pool_def)
  from make_tickets_rep [OF this, of "[0..<10]"] show ?thesis by (auto simp: ecryptfs_tspi_init_def)
qed

subsection \<open>Tickets given back in the order they were taken\<close>

text \<open>
  C24. When two operations overlap and the one that began first ends first, the pool is destroyed: giving
  back a ticket makes the one behind it the first used ticket, which is right for the ticket in
  front only. Afterwards nothing is used and the counter says so, but the list of used tickets
  has the first ticket and all free ones, so that the module can never be unloaded.
\<close>

theorem tspi_crossed_release_breaks_pool:
  assumes "pool_rep (a # b # fs) [] p" "ts_create env" "ts_connect env"
  shows "\<exists>p1 p2 p3 p4. ecryptfs_tspi_grab_ticket env p = Some (0, Some a, p1) \<and> ecryptfs_tspi_grab_ticket env p1 = Some (0, Some b, p2)
    \<and> ecryptfs_tspi_release_ticket a p2 = Some (0, p3) \<and> ecryptfs_tspi_release_ticket b p3 = Some (0, p4)
    \<and> tp_num_used p4 = 0 \<and> linked (tp_ticket p4) (tp_used p4) (a # fs) \<and> linked (tp_ticket p4) (tp_free p4) (b # a # fs)
    \<and> ecryptfs_tspi_finalize (\<lambda>_. p4) = Some (- EBUSY, p4)"
proof -
  obtain p1 where p1: "ecryptfs_tspi_grab_ticket env p = Some (0, Some a, p1)" "pool_rep (b # fs) [a] p1"
    using grab_top [OF assms] by blast
  obtain p2 where p2: "ecryptfs_tspi_grab_ticket env p1 = Some (0, Some b, p2)" "pool_rep fs [b, a] p2"
    using grab_top [OF p1(2) assms(2,3)] by blast
  note r = p2(2) [unfolded pool_rep_def]
  obtain kb ka where k: "tp_ticket p2 b = Some kb" "tp_ticket p2 a = Some ka" "tk_next kb = Some a" "tk_next ka = None" "tp_used p2 = Some b"
    using r by auto
  have d: "a \<noteq> b" "a \<notin> set fs" "b \<notin> set fs" using r by auto
  define p3 where "p3 = set_ticket a (ka\<lparr>tk_wait := Some False, tk_next := tp_free p2\<rparr>)
       (p2\<lparr>tp_used := None, tp_free := Some a, tp_num_free := tp_num_free p2 + 1, tp_num_used := tp_num_used p2 - 1\<rparr>)"
  define p4 where "p4 = set_ticket b (kb\<lparr>tk_wait := Some False, tk_next := Some a\<rparr>)
       (p3\<lparr>tp_used := Some a, tp_free := Some b, tp_num_free := tp_num_free p3 + 1, tp_num_used := tp_num_used p3 - 1\<rparr>)"
  have r3: "ecryptfs_tspi_release_ticket a p2 = Some (0, p3)" using k by (simp add: ecryptfs_tspi_release_ticket_def p3_def)
  have r4: "ecryptfs_tspi_release_ticket b p3 = Some (0, p4)" using k d by (simp add: ecryptfs_tspi_release_ticket_def p4_def p3_def)
  have t: "tp_ticket p4 = (tp_ticket p2)(a \<mapsto> ka\<lparr>tk_wait := Some False, tk_next := tp_free p2\<rparr>, b \<mapsto> kb\<lparr>tk_wait := Some False, tk_next := Some a\<rparr>)"
    by (simp add: p4_def p3_def)
  have c: "linked (tp_ticket p4) (tp_free p2) fs" unfolding t using r d by (simp add: linked_other)
  have u: "tp_used p4 = Some a" by (simp add: p4_def)
  then have "wait_used (\<lambda>_. p4) 0 = 5" by (simp add: wait_used.simps)
  then have "ecryptfs_tspi_finalize (\<lambda>_. p4) = Some (- EBUSY, p4)" by (simp add: ecryptfs_tspi_finalize_def)
  moreover have "tp_num_used p4 = 0" using r by (simp add: p4_def p3_def)
  moreover have "linked (tp_ticket p4) (tp_used p4) (a # fs)" "linked (tp_ticket p4) (tp_free p4) (b # a # fs)"
    using c t d u by (simp_all add: p4_def p3_def)
  ultimately show ?thesis using p1(1) p2(1) r3 r4 by blast
qed

subsection \<open>Session keys\<close>

lemma tspi_ops_crypt:
  "op_encrypt (ecryptfs_fill_in_dummy_ops (ecryptfs_tspi_ops env s))
     = Some (\<lambda>to _ from blob _. case the (ecryptfs_tspi_encrypt env s to from blob) of (rc, n, buf, _) \<Rightarrow> (rc, n, buf))"
  "op_decrypt (ecryptfs_fill_in_dummy_ops (ecryptfs_tspi_ops env s))
     = Some (\<lambda>to to_size from blob _. case the (ecryptfs_tspi_decrypt env s to to_size from blob) of (rc, n, buf, _) \<Rightarrow> (rc, n, buf))"
  by (simp_all add: ecryptfs_fill_in_dummy_ops_def ecryptfs_tspi_ops_def or_dummy.simps)

text \<open>The calls to the TPM succeed, and the key with this UUID is \<open>h\<close>, also if it was loaded before.\<close>

definition tpm_ready :: "'h tss_env \<Rightarrow> 'h tspi_state \<Rightarrow> byte list \<Rightarrow> 'h \<Rightarrow> bool" where
  "tpm_ready env s uuid h \<longleftrightarrow> length uuid = UUID_SIZE \<and> ts_create env \<and> ts_connect env \<and> srk_ready env \<and> ts_get_blob env \<and> ts_set_blob env
     \<and> ts_load_key env uuid = Some h \<and> map_of (tm_mapper s) uuid \<in> {None, Some h} \<and> ts_calls env = []"

lemma copy_out_fits: "length out \<le> length buf \<Longrightarrow> copy_out (Some buf) out = Some (0, length out, out @ drop (length out) buf)"
  by (simp add: copy_out_def wr_bytes_def)

lemma map_key_ready:
  assumes "tpm_ready env s uuid h"
  shows "\<exists>m. map_key env uuid (tm_mapper s) [] = (Some h, m) \<and> map_of m uuid = Some h"
  using assms by (auto simp: tpm_ready_def map_key_def split: option.splits)

lemma encrypt_ready:
  assumes "tpm_ready env s uuid h" "pool_rep (t # fs) us (tm_pool s)" "ts_seal env h from = Some out" "\<forall>buf. to = Some buf \<longrightarrow> length out \<le> length buf"
  shows "\<exists>s'. ecryptfs_tspi_encrypt env s to from uuid = Some (0, length out, (case to of None \<Rightarrow> [] | Some buf \<Rightarrow> out @ drop (length out) buf), s')
    \<and> pool_rep (t # fs) us (tm_pool s') \<and> tm_mapper s' = tm_mapper s"
proof -
  obtain p1 where p1: "ecryptfs_tspi_grab_ticket env (tm_pool s) = Some (0, Some t, p1)" "pool_rep fs (t # us) p1"
    using grab_top [OF assms(2)] assms(1) by (auto simp: tpm_ready_def)
  obtain p2 where p2: "ecryptfs_tspi_release_ticket t p1 = Some (0, p2)" "pool_rep (t # fs) us p2" using release_top [OF p1(2)] by blast
  show ?thesis
    using assms(1,3,4) p1(1) p2 copy_out_fits [of out]
    by (cases to) (auto simp: ecryptfs_tspi_encrypt_def tpm_ready_def ecryptfs_tspi_deserialize_def rd_bytes_def copy_out_def [of None])
qed

lemma decrypt_ready:
  assumes "tpm_ready env s uuid h" "pool_rep (t # fs) us (tm_pool s)" "ts_unseal env h from = Some out" "\<forall>buf. to = Some buf \<longrightarrow> length out \<le> length buf"
  shows "\<exists>s'. ecryptfs_tspi_decrypt env s to n from uuid = Some (0, length out, (case to of None \<Rightarrow> [] | Some buf \<Rightarrow> out @ drop (length out) buf), s')
    \<and> pool_rep (t # fs) us (tm_pool s') \<and> map_of (tm_mapper s') uuid = Some h"
proof -
  obtain p1 where p1: "ecryptfs_tspi_grab_ticket env (tm_pool s) = Some (0, Some t, p1)" "pool_rep fs (t # us) p1"
    using grab_top [OF assms(2)] assms(1) by (auto simp: tpm_ready_def)
  obtain p2 where p2: "ecryptfs_tspi_release_ticket t p1 = Some (0, p2)" "pool_rep (t # fs) us p2" using release_top [OF p1(2)] by blast
  obtain m where m: "map_key env uuid (tm_mapper s) [] = (Some h, m)" "map_of m uuid = Some h" using map_key_ready [OF assms(1)] by blast
  show ?thesis
    using assms(1,3,4) p1(1) p2 m copy_out_fits [of out]
    by (cases to) (auto simp: ecryptfs_tspi_decrypt_def tpm_ready_def ecryptfs_tspi_deserialize_def rd_bytes_def copy_out_def [of None])
qed

text \<open>
  Session keys through the daemon: a key that the TPM sealed for a token of this module is unsealed to
  itself with that token. Each of the four calls of the module takes a ticket and gives it back.
  The law of the TPM that is used: what a key sealed, it unseals.
\<close>

theorem tspi_session_key_roundtrip:
  assumes "ecryptfs_find_key_mod mods (tok_key_mod_alias tok) = Some (rc, Some km)"
    and "km_ops km = ecryptfs_fill_in_dummy_ops (ecryptfs_tspi_ops env s)" "tok_data tok = uuid"
    and "tpm_ready env s uuid h" "pool_rep (t # fs) us (tm_pool s)"
    and "ts_seal env h key = Some c" "ts_unseal env h c = Some key"
    and "key \<noteq> []" "length key \<le> MAX_KEY_BYTES" "c \<noteq> []" "length c \<le> MAX_ENCRYPTED_KEY_BYTES"
  shows "\<exists>buf buf'. key_mod_encrypt junk size0 mods (Some tok) key [] = Some (0, Live buf, length c, [])
    \<and> rd_bytes buf 0 (length c) = Some c
    \<and> key_mod_decrypt junk size0 mods (Some tok) c [] = Some (0, Live buf', length key, [])
    \<and> rd_bytes buf' 0 (length key) = Some key"
proof -
  have ops: "op_encrypt (km_ops km) = Some (\<lambda>to _ from blob _. case the (ecryptfs_tspi_encrypt env s to from blob) of (rc, n, buf, _) \<Rightarrow> (rc, n, buf))"
    "op_decrypt (km_ops km) = Some (\<lambda>to to_size from blob _. case the (ecryptfs_tspi_decrypt env s to to_size from blob) of (rc, n, buf, _) \<Rightarrow> (rc, n, buf))"
    unfolding assms(2) by (rule tspi_ops_crypt)+
  have lf: "length (fresh junk m) = m" for m by (simp add: fresh_def)
  note e1 = encrypt_ready [OF assms(4,5,6), of None] and e2 = encrypt_ready [OF assms(4,5,6), of "Some (fresh junk (length c))"]
  note d1 = decrypt_ready [OF assms(4,5,7), of None size0] and d2 = decrypt_ready [OF assms(4,5,7), of "Some (fresh junk (length key))" "length key"]
  have e: "crypt_result (\<lambda>to _ from blob _. case the (ecryptfs_tspi_encrypt env s to from blob) of (rc, n, buf, _) \<Rightarrow> (rc, n, buf)) junk size0 key (tok_data tok) c"
    using e1 e2 lf assms(10) unfolding assms(3) by (auto simp: crypt_result_def)
  have d: "crypt_result (\<lambda>to to_size from blob _. case the (ecryptfs_tspi_decrypt env s to to_size from blob) of (rc, n, buf, _) \<Rightarrow> (rc, n, buf))
      junk size0 c (tok_data tok) key"
    using d1 d2 lf assms(8) unfolding assms(3) by (auto simp: crypt_result_def)
  show ?thesis
    using key_mod_crypt_good [where sel = op_encrypt, OF assms(1) ops(1) e assms(11)]
      key_mod_crypt_good [where sel = op_decrypt, OF assms(1) ops(2) d assms(9)]
    by (auto simp: key_mod_encrypt_def key_mod_decrypt_def)
qed

subsection \<open>A sample\<close>

definition sample_tss_env :: "unit tss_env" where
  "sample_tss_env = \<lparr>ts_create = True, ts_connect = True, ts_load_srk = True, ts_policy = True, ts_secret = True, ts_object = True,
     ts_load_key = (\<lambda>_. Some ()), ts_get_key = (\<lambda>_. Some ()), ts_modulus = (\<lambda>_. Some [255]), ts_seal = (\<lambda>_ m. Some (7 # m)), ts_get_blob = True,
     ts_set_blob = True, ts_unseal = (\<lambda>_ c. Some (tl c)), ts_sha1 = (\<lambda>d. take 20 (rev d @ replicate 20 0)), ts_junk = (\<lambda>_. 0), ts_mutex = Some False, ts_calls = []\<rparr>"

definition sample_tickets :: tspi_pool where
  "sample_tickets = fst (snd (snd (ecryptfs_tspi_init (Some False) [])))"

lemma sample_tickets_rep: "pool_rep [9, 8, 7, 6, 5, 4, 3, 2, 1, 0] [] sample_tickets"
proof -
  have "rev [0..<10] = [9, 8, 7, 6, 5, 4, 3, 2, 1, 0 :: nat]" by code_simp
  then show ?thesis using init_rep by (auto simp: sample_tickets_def)
qed

lemma sample_tss_up: "ts_create sample_tss_env" "ts_connect sample_tss_env"
  by (simp_all add: sample_tss_env_def)

theorem tspi_nested_use_restores_pool_witness:
  "\<exists>p. run_session (grab_ok sample_tss_env) release_ok (Session [Session [], Session [Session []]]) sample_tickets = Some p
     \<and> pool_rep [9, 8, 7, 6, 5, 4, 3, 2, 1, 0] [] p"
  using tspi_nested_use_restores_pool [OF sample_tickets_rep _ sample_tss_up, of "Session [Session [], Session [Session []]]"] by simp

theorem tspi_crossed_release_breaks_pool_witness:
  "\<exists>p1 p2 p3 p4. ecryptfs_tspi_grab_ticket sample_tss_env sample_tickets = Some (0, Some 9, p1)
    \<and> ecryptfs_tspi_grab_ticket sample_tss_env p1 = Some (0, Some 8, p2)
    \<and> ecryptfs_tspi_release_ticket 9 p2 = Some (0, p3) \<and> ecryptfs_tspi_release_ticket 8 p3 = Some (0, p4)
    \<and> ecryptfs_tspi_finalize (\<lambda>_. p4) = Some (- EBUSY, p4)"
  using tspi_crossed_release_breaks_pool [OF sample_tickets_rep sample_tss_up] by blast

definition sample_rsa_env :: "unit ssl_env" where
  "sample_rsa_env = sample_ssl_env\<lparr>sl_n_bits := (\<lambda>_. 8), sl_n_bin := (\<lambda>_. [255]), sl_e_bits := (\<lambda>_. 17), sl_e_bin := (\<lambda>_. [1, 0, 1]),
     sl_sha1 := ts_sha1 sample_tss_env\<rparr>"

theorem tspi_signature_is_not_fingerprint_witness:
  "\<exists>s. ecryptfs_tspi_get_key_sig sample_tss_env (replicate 17 1) (replicate 16 0) = Some (0, s @ [0]) \<and> s \<noteq> key_signature sample_rsa_env ()"
proof -
  let ?p = "pgp_packet (length [255 :: byte] * 8) [255] 24 [1, 0, 1]" and ?q = "pgp_packet (length [255 :: byte] * 8) [255] 17 [1, 0, 1]"
  have "take SIG_SIZE (ts_sha1 sample_tss_env ?p) \<noteq> take SIG_SIZE (ts_sha1 sample_tss_env ?q)"
    unfolding packet_bytes by (simp add: sample_tss_env_def)
  moreover have "\<exists>s. ecryptfs_tspi_get_key_sig sample_tss_env (replicate 17 1) (replicate 16 0) = Some (0, s @ [0]) \<and> length s = SIG_SIZE_HEX
    \<and> ?p \<noteq> ?q \<and> fingerprint sample_rsa_env () = ts_sha1 sample_tss_env ?q
    \<and> (s = key_signature sample_rsa_env () \<longleftrightarrow> take SIG_SIZE (ts_sha1 sample_tss_env ?p) = take SIG_SIZE (ts_sha1 sample_tss_env ?q))"
    by (rule tspi_signature_is_not_fingerprint [where h = "()" and n = "[255]"]) (simp_all add: sample_rsa_env_def sample_tss_env_def)
  ultimately show ?thesis by blast
qed

definition sample_tspi_state :: "unit tspi_state" where
  "sample_tspi_state = \<lparr>tm_mapper = [], tm_pool = sample_tickets\<rparr>"

definition sample_tspi_mod :: "unit ecryptfs_key_mod" where
  "sample_tspi_mod = new_key_mod (Some ''tspi'') None (ecryptfs_fill_in_dummy_ops (ecryptfs_tspi_ops sample_tss_env sample_tspi_state))"

definition sample_tspi_tok :: auth_tok_view where
  "sample_tspi_tok = \<lparr>tok_key_mod_alias = ''tspi'', tok_data = replicate 16 0, tok_data_len = 16, tok_room = 16\<rparr>"

theorem tspi_session_key_roundtrip_witness:
  "\<exists>buf'. key_mod_decrypt (\<lambda>_. 0) 0 [sample_tspi_mod] (Some sample_tspi_tok) [7, 1, 2, 3] [] = Some (0, Live buf', 3, [])
     \<and> rd_bytes buf' 0 3 = Some [1, 2, 3]"
proof -
  have r: "tpm_ready sample_tss_env sample_tspi_state (replicate 16 0) ()"
    by (simp add: tpm_ready_def srk_ready_def sample_tss_env_def sample_tspi_state_def)
  have "\<exists>buf buf'. key_mod_encrypt (\<lambda>_. 0) 0 [sample_tspi_mod] (Some sample_tspi_tok) [1, 2, 3] [] = Some (0, Live buf, length [7, 1, 2, 3 :: byte], [])
    \<and> rd_bytes buf 0 (length [7, 1, 2, 3 :: byte]) = Some [7, 1, 2, 3]
    \<and> key_mod_decrypt (\<lambda>_. 0) 0 [sample_tspi_mod] (Some sample_tspi_tok) [7, 1, 2, 3] [] = Some (0, Live buf', length [1, 2, 3 :: byte], [])
    \<and> rd_bytes buf' 0 (length [1, 2, 3 :: byte]) = Some [1, 2, 3]"
    by (rule tspi_session_key_roundtrip [where km = sample_tspi_mod, OF _ _ _ r])
      (use sample_tickets_rep in \<open>simp_all add: sample_tspi_mod_def sample_tspi_tok_def new_key_mod_def sample_tspi_state_def sample_tss_env_def\<close>)
  then show ?thesis by (auto simp: numeral_3_eq_3)
qed
end
