(* ===== verification/Spec2Isabelle.thy ===== *)
theory Spec2Isabelle
  imports Miscdev Nv_List Zombie Stat Mount_Private Graph_Safety Umount Tools Login Openssl_Mod Daemon_Main Pkcs11_Mod Tspi_Mod
begin

text \<open>
  A verification library for the userspace part of eCryptfs.

  \<^bold>\<open>The program.\<close> The kernel's eCryptfs file system asks userspace for three things: keys,
  mounts and answers to requests for public-key operations. \<open>src/libecryptfs\<close> is the library;
  \<open>src/key_mod\<close> holds the key modules it loads; \<open>src/daemon\<close> is a process that serves the
  kernel's requests on \<open>/dev/ecryptfs\<close>; \<open>src/utils\<close> holds the mount helpers and small tools, and
  \<open>src/pam_ecryptfs\<close> calls the library at login. The library's parts, and how they call each
  other: the daemon loop receives a message, has it parsed and answered, and sends the reply;
  the parser finds the key module of the token in the keyring and calls it; tokens are made
  from a passphrase or from a key module, and put into the keyring; the passphrase may come
  from a wrapped file; options come from the command line and the \<open>.ecryptfsrc\<close> file as lists
  of name/value pairs. A mount evaluates a decision graph over these options: its nodes stand
  for parameters, whose values come from the options, from defaults or from the user, and its
  transitions have callbacks, some of them of the key modules, which add keys and collect the
  mount options. The mount helper hands these to \<open>/bin/mount\<close>.

  \<^bold>\<open>The theories\<close>, with the source each translates.
  \<^item> \<open>Prelude\<close>: bytes, buffers, byte order, C strings, allocation schedules, heap pointers.
  \<^item> \<open>Packet_Length\<close>: \<open>ecryptfs_write_packet_length\<close> and \<open>ecryptfs_parse_packet_length\<close> of
    \<open>libecryptfs/messaging.c\<close>. The locale \<open>length_codec\<close> is the contract of a length encoding;
    it is interpreted on the two functions for the sizes they share.
  \<^item> \<open>Key_Mod\<close>: \<open>libecryptfs/key_mod.c\<close>, registration of key modules, their operation tables,
    lookup by alias, and the passphrase module's table from
    \<open>key_mod/ecryptfs_key_mod_passphrase.c\<close>. Locale \<open>key_mod_lookup\<close>.
  \<^item> \<open>Packets\<close>: \<open>libecryptfs/packets.c\<close>, requests of tag 64 and 66, replies of tag 65 and 67,
    failure packets, with the ownership of every heap block.
  \<^item> \<open>Miscdev\<close>: \<open>libecryptfs/miscdev.c\<close> and the dispatch of \<open>libecryptfs/messaging.c\<close>: frames, and
    the daemon loop as a step function with an inductive set of reachable states.
  \<^item> \<open>Hex\<close>: \<open>to_hex\<close> and \<open>from_hex\<close> of \<open>libecryptfs/main.c\<close>, and \<open>strtol\<close>. Locale \<open>text_codec\<close>.
  \<^item> \<open>Auth_Tok\<close>: passphrase signatures and tokens (\<open>libecryptfs/main.c\<close>).
  \<^item> \<open>Key_Management\<close>: \<open>libecryptfs/key_management.c\<close>, the keyring, wrapped passphrases, the
    signature cache. Locale \<open>sig_store\<close>.
  \<^item> \<open>Nv_List\<close>: \<open>libecryptfs/cmd_ln_parser.c\<close>, option strings, option files, the union of lists.
  \<^item> \<open>Zombie\<close>: the session placeholders of \<open>libecryptfs/main.c\<close>, a table in shared memory under a
    semaphore. Locale \<open>session_table\<close>.
  \<^item> \<open>Stat\<close>: \<open>libecryptfs/ecryptfs-stat.c\<close> and \<open>utils/ecryptfs-stat.c\<close>, headers of lower files.
  \<^item> \<open>Mounts\<close>: mount lookups of \<open>libecryptfs/main.c\<close> and \<open>libecryptfs/sysfs.c\<close>.
  \<^item> \<open>Mount_Private\<close>: the set-user-id program \<open>utils/mount.ecryptfs_private.c\<close>. Locale
    \<open>file_counter\<close>.
  \<^item> \<open>Decision_Graph\<close>: \<open>libecryptfs/decision_graph.c\<close> up to the evaluation loop. A graph is a store
    of nodes that callbacks can change; a callback is named by a value and given its meaning by
    an argument of the evaluation. Locale \<open>eval_invariant\<close> lifts what every callback keeps to the
    evaluation, \<open>option_keeping\<close> does so for the option list.
  \<^item> \<open>Linear_Subgraph\<close>: the subgraphs the same file generates from the parameters of a key module.
    Locale \<open>linear_calls\<close>.
  \<^item> \<open>Passphrase_Mod\<close>: the graph of \<open>key_mod/ecryptfs_key_mod_passphrase.c\<close>. Locale \<open>pass_calls\<close>.
  \<^item> \<open>Module_Mgr\<close>: \<open>libecryptfs/module_mgr.c\<close>, the static nodes, all callbacks, and the entry points
    \<open>ecryptfs_process_decision_graph\<close> and \<open>ecryptfs_process_key_gen_decision_graph\<close>. Both locales
    for callbacks are interpreted on its dispatch.
  \<^item> \<open>Mount_Options\<close>, \<open>Mount_Run\<close>, \<open>Passphrase_Mount\<close>, \<open>Graph_Safety\<close>: specifications of a mount
    without a graph, and that the evaluation implements them: the path through the options, a
    mount with an existing key, a mount with a passphrase, and the well-formedness of the graph.
  \<^item> \<open>Terminal\<close>: \<open>utils/io.c\<close> and the reading of passphrases of \<open>libecryptfs/key_management.c\<close>.
  \<^item> \<open>Mount_Helper\<close>: \<open>utils/mount.ecryptfs.c\<close>. \<open>Umount\<close>: \<open>utils/umount.ecryptfs.c\<close>.
  \<^item> \<open>Tools\<close>: the five tools for passphrases of \<open>utils\<close>.
  \<^item> \<open>Login\<close>: \<open>pam_ecryptfs/pam_ecryptfs.c\<close>, with the credentials of the process and the rules of the
    calls that change them.
  \<^item> \<open>Openssl_Mod\<close>: \<open>key_mod/ecryptfs_key_mod_openssl.c\<close>, blobs, signatures, key files, encryption and
    the callbacks of its graph.
  \<^item> \<open>Daemon_Main\<close>: \<open>daemon/main.c\<close>, the way into the background, the prompt, and \<open>main\<close> as steps
    between which signals arrive.
  \<^item> \<open>Pkcs11_Mod\<close>: \<open>key_mod/ecryptfs_key_mod_pkcs11_helper.c\<close>, keys on tokens: blobs, signatures,
    encryption, the PIN, the list of certificates, the graphs of the configuration file and of a
    key, and the loading of the module.
  \<^item> \<open>Tspi_Mod\<close>: \<open>key_mod/ecryptfs_key_mod_tspi.c\<close>, keys of a TPM and the pool of connections, whose
    tickets are linked by pointers. Locale \<open>stack_pool\<close>.

  \<^bold>\<open>How code becomes definitions.\<close> A status is an \<open>int\<close>, with Linux error numbers; what a
  function writes through pointers are further components of its result. An outer \<open>None\<close> means
  that C leaves the behaviour undefined there: a read or write outside an object, a null or
  stale pointer, a second \<open>free\<close>. So an equation that gives \<open>Some\<close> is also a statement of memory
  safety, and one that gives \<open>None\<close> exhibits an error. Numbers keep their width as words where
  the width matters. Allocation failures, and the outcomes of system calls, come from
  schedules; uninitialised memory is a parameter \<open>junk\<close>; the byte order of the host is a
  parameter. Code outside the repository is a parameter with named hypotheses: the hash and
  the cipher of the NSS library (\<open>hash_total\<close>, \<open>nss_ok\<close>), the kernel keyring
  (\<open>keyring_finds_added\<close>, \<open>keyring_keeps\<close>, \<open>keyring_errnos\<close>), files (\<open>io_ok\<close>), OpenSSL (\<open>bn_ok\<close>,
  \<open>sha1_ok\<close> and the laws named in its theorems), pkcs11-helper and TrouSerS (records of answers, with
  the laws named in the theorems), key modules loaded from shared objects. Messages
  to the system log are left out.

  \<^bold>\<open>What is shown.\<close> Round trips: packet lengths, frames on the device, hexadecimal text, wrapped
  passphrases, their rewrapping by the tool and at a change of the password, option strings,
  placeholders in shared memory, session keys of the three public-key modules, key files of the OpenSSL module,
  blobs and UUIDs. Functional
  behaviour: replies to requests, signatures and keys of passphrases, registration of key modules
  with complete operation tables and their lookup, the union of option lists, the signature cache, the session counter, headers
  on hosts of either byte order, unmounting with the removal of keys. Refinement: evaluating the
  decision graph gives the mount options and the keyring of a specification without graph, and
  the mount helper calls \<open>/bin/mount\<close> with them; terminal input refines taking lines; the counter
  file refines a counter; the tickets of the TPM module refine two stacks under nested use. Equivalence:
  the token module and the OpenSSL module give a key the same signature. Invariants: the states the daemon's loop and its process reach, the
  form of the graph, the option list, the credentials after a login. Safety: what the
  set-user-id program mounts, and for whom; when \<open>/bin/mount\<close> is called; as whom the login module
  works on keys. Termination: the evaluation of a mount, the choice of a key module, the
  directories of a key file; and that certain inputs make an evaluation, a menu or a recursion
  run for ever. Errors of the code, each proved of the translated definition: blocks freed
  twice, writes and reads outside a buffer, a lock that does not exclude and one that a signal
  handler waits for in vain, tickets in two lists at once, statuses that are lost, a passphrase among the arguments of a
  process, keys that are removed although the mount stays.

  \<^bold>\<open>Bounds and fuel.\<close> Loops are recursive functions with termination proofs where the code's loop
  ends. The evaluation loop of the graph has fuel: its theorems give the rounds that suffice, 17
  for a mount with an existing key and 18 for one with a passphrase, for every number beyond.
  Setting the exit of a subgraph follows its edges, with a depth of 6. A node has room for 64
  transitions: an operation that would write a further one has no result, so theorems that
  assume a result claim nothing of that bound. The choice of a key module
  ends with fuel beyond the length of the input; the menu of the manager and the creation of
  directories may not end, so the one has fuel and the other is a partial function. The hash
  loop runs 65535 times; it is related to an iterate of the hash, and examples use a hash for
  which the iterate is known. The configuration of the token module is evaluated within 7 rounds for
  each provider and 3 more. Retry loops keep their limits (3 for the semaphore, 49 names for
  the counter file). The daemon's loop is unbounded; it is modelled by its step and run on a
  finite list of receive results.

  \<^bold>\<open>What is not modelled, and why.\<close> \<open>libecryptfs-swig\<close> is generated. The key module for
  GPG is disabled: its \<open>init\<close> always fails and its functions are stubs. The tool that makes TPM keys
  is a sequence of calls of TrouSerS. \<open>utils/manager.c\<close> is a loop over the menu of \<open>Terminal\<close> with calls of
  modelled functions. \<open>dump_auth_tok.c\<close> and the like print. The tests exercise the kernel.
  Printing, logging, prompts and the overwriting of memory before it is freed have no place in
  the states.
\<close>

end
